(* ===== verification/Prelude.thy ===== *)
theory Prelude
  imports Main "HOL-Library.Word"
begin

text \<open>
  Shared vocabulary of the development: bytes and byte strings, the Python exceptions the
  host code raises or catches, results of fallible pure functions (\<^verbatim>\<open>py_exn + 'a\<close>), stateful
  methods (a method returns its result or its exception together with the object it leaves
  behind, because an exception does not undo the assignments made before it), and the generic
  list and word lemmas used by several components.
  The text of an exception (the f-strings of the source) is not modelled, only its class and,
  for a protocol error, its code.
\<close>

unbundle bit_operations_syntax

named_theorems stats_defs "record updates of the counters a method touches"
named_theorems wire_sizes "byte lengths of encoded values"
named_theorems result_simps "how results and methods compose"

type_synonym byte = "8 word"
type_synonym bytes = "byte list"

section \<open>Exceptions\<close>

datatype protocol_error_code =
    EMPTY_FRAME
  | UNEXPECTED_DELIMITER
  | COBS_MALFORMED
  | PACKET_TOO_SHORT
  | CRC_MISMATCH
  | UNSUPPORTED_VERSION
  | UNKNOWN_MESSAGE_TYPE
  | PAYLOAD_LENGTH_MISMATCH
  | PAYLOAD_TOO_LARGE
  | INVALID_VALUE
  | OVERSIZED_FRAME
  | TRUNCATED_FRAME

text \<open>
  \<^verbatim>\<open>Nontermination\<close> is not a Python exception: it is the outcome of a call that never
  returns, and only a loop over a foreign transport can produce it.
\<close>

datatype py_exn =
    ProtocolError protocol_error_code
  | OverflowError
  | StructError
  | TypeError
  | ValueError
  | TransportError
  | SessionError
  | OSError
  | ZeroDivisionError
  | KeyError
  | IndexError
  | JSONDecodeError
  | InvalidOperation
  | AttributeError
  | RuntimeError
  | RunLogError
  | CorruptRunError
  | IncompleteRunError
  | Nontermination

text \<open>Python's class hierarchy: \<^verbatim>\<open>ProtocolError\<close> and \<^verbatim>\<open>JSONDecodeError\<close> derive from \<^verbatim>\<open>ValueError\<close>.\<close>

fun is_ValueError :: "py_exn \<Rightarrow> bool" where
  "is_ValueError (ProtocolError _) = True"
| "is_ValueError ValueError = True"
| "is_ValueError JSONDecodeError = True"
| "is_ValueError _ = False"

section \<open>Results\<close>

type_synonym 'a result = "py_exn + 'a"

definition bindR :: "'a result \<Rightarrow> ('a \<Rightarrow> 'b result) \<Rightarrow> 'b result" where
  "bindR x f = (case x of Inl e \<Rightarrow> Inl e | Inr v \<Rightarrow> f v)"

definition guardR :: "bool \<Rightarrow> py_exn \<Rightarrow> unit result" where
  "guardR bad e = (if bad then Inl e else Inr ())"

lemma bindR_Inl [simp, result_simps]: "bindR (Inl e) f = Inl e"
  by (simp add: bindR_def)

lemma bindR_Inr [simp, result_simps]: "bindR (Inr v) f = f v"
  by (simp add: bindR_def)

lemma bindR_eq_Inr [result_simps]: "bindR x f = Inr w \<longleftrightarrow> (\<exists>v. x = Inr v \<and> f v = Inr w)"
  by (cases x) auto

lemma bindR_eq_Inl [result_simps]:
  "bindR x f = Inl e \<longleftrightarrow> x = Inl e \<or> (\<exists>v. x = Inr v \<and> f v = Inl e)"
  by (cases x) auto

lemma bindR_assoc: "bindR (bindR x f) g = bindR x (\<lambda>v. bindR (f v) g)"
  by (cases x) auto

lemma guardR_eq_Inr [simp, result_simps]: "guardR b e = Inr u \<longleftrightarrow> \<not> b"
  by (simp add: guardR_def)

lemma guardR_eq_Inl [simp, result_simps]: "guardR b e = Inl e' \<longleftrightarrow> b \<and> e' = e"
  by (auto simp: guardR_def)

lemma bindR_guardR: "bindR (guardR b e) f = (if b then Inl e else f ())"
  by (simp add: guardR_def)

text \<open>A list of fallible values, evaluated from the left: the first error wins.\<close>

fun sequenceR :: "'a result list \<Rightarrow> 'a list result" where
  "sequenceR [] = Inr []"
| "sequenceR (x # xs) = bindR x (\<lambda>v. bindR (sequenceR xs) (\<lambda>vs. Inr (v # vs)))"

lemma sequenceR_eq_Inr: "sequenceR xs = Inr vs \<longleftrightarrow> xs = map Inr vs"
  by (induction xs arbitrary: vs) (auto simp: bindR_eq_Inr)

lemma sequenceR_map_Inr [simp]: "sequenceR (map (\<lambda>x. Inr (f x)) xs) = Inr (map f xs)"
  by (induction xs) auto

lemma length_sequenceR: "sequenceR xs = Inr vs \<Longrightarrow> length vs = length xs"
  by (auto simp: sequenceR_eq_Inr)

text \<open>The errors a computation can end with.\<close>

definition errors_in :: "py_exn set \<Rightarrow> 'a result \<Rightarrow> bool" where
  "errors_in S r \<longleftrightarrow> (\<forall>e. r = Inl e \<longrightarrow> e \<in> S)"

named_theorems errors_intros "errors a computation can end with"

lemma errors_inD: "errors_in S r \<Longrightarrow> r = Inl e \<Longrightarrow> e \<in> S"
  by (simp add: errors_in_def)

lemma errors_in_bindR [errors_intros]:
  "errors_in S m \<Longrightarrow> (\<And>v. m = Inr v \<Longrightarrow> errors_in S (f v)) \<Longrightarrow> errors_in S (bindR m f)"
  by (cases m) (auto simp: errors_in_def)

lemma errors_in_Inr [errors_intros]: "errors_in S (Inr v)"
  and errors_in_guardR [errors_intros]: "e \<in> S \<Longrightarrow> errors_in S (guardR b e)"
  and errors_in_Inl [errors_intros]: "e \<in> S \<Longrightarrow> errors_in S (Inl e)"
  by (auto simp: errors_in_def)

lemma errors_in_sequenceR [errors_intros]:
  "(\<And>x. x \<in> set xs \<Longrightarrow> errors_in S x) \<Longrightarrow> errors_in S (sequenceR xs)"
  by (induction xs) (auto intro!: errors_intros)

section \<open>Methods: state and exceptions\<close>

type_synonym ('s, 'a) meth = "'s \<Rightarrow> 'a result \<times> 's"

definition returnM :: "'a \<Rightarrow> ('s, 'a) meth" where
  "returnM v s = (Inr v, s)"

definition raiseM :: "py_exn \<Rightarrow> ('s, 'a) meth" where
  "raiseM e s = (Inl e, s)"

definition modifyM :: "('s \<Rightarrow> 's) \<Rightarrow> ('s, unit) meth" where
  "modifyM f s = (Inr (), f s)"

definition bindM :: "('s, 'a) meth \<Rightarrow> ('a \<Rightarrow> ('s, 'b) meth) \<Rightarrow> ('s, 'b) meth" where
  "bindM m f s = (case m s of (Inl e, s') \<Rightarrow> (Inl e, s') | (Inr v, s') \<Rightarrow> f v s')"

definition liftM :: "'a result \<Rightarrow> ('s, 'a) meth" where
  "liftM r s = (r, s)"

lemma returnM_apply [simp, result_simps]: "returnM v s = (Inr v, s)"
  by (simp add: returnM_def)

lemma raiseM_apply [simp, result_simps]: "raiseM e s = (Inl e, s)"
  by (simp add: raiseM_def)

lemma modifyM_apply [simp, result_simps]: "modifyM f s = (Inr (), f s)"
  by (simp add: modifyM_def)

lemma liftM_apply [simp, result_simps]: "liftM r s = (r, s)"
  by (simp add: liftM_def)

lemma bindM_Inl: "m s = (Inl e, s') \<Longrightarrow> bindM m f s = (Inl e, s')"
  by (simp add: bindM_def)

lemma bindM_Inr: "m s = (Inr v, s') \<Longrightarrow> bindM m f s = f v s'"
  by (simp add: bindM_def)

lemma bindM_returnM [simp]: "bindM (returnM v) f = f v"
  by (rule ext) (simp add: bindM_def)

lemma bindM_modifyM [simp]: "bindM (modifyM g) f s = f () (g s)"
  by (simp add: bindM_def)

lemma bindM_raiseM [simp]: "bindM (raiseM e) f s = (Inl e, s)"
  by (simp add: bindM_def)

lemma bindM_liftM: "bindM (liftM r) f s = (case r of Inl e \<Rightarrow> (Inl e, s) | Inr v \<Rightarrow> f v s)"
  by (simp add: bindM_def split: sum.splits)

lemma bindM_eq_Inr:
  "bindM m f s = (Inr w, s') \<longleftrightarrow> (\<exists>v t. m s = (Inr v, t) \<and> f v t = (Inr w, s'))"
  by (auto simp: bindM_def split: sum.splits prod.splits)

lemma bindM_eq_Inl:
  "bindM m f s = (Inl e, s') \<longleftrightarrow>
     m s = (Inl e, s') \<or> (\<exists>v t. m s = (Inr v, t) \<and> f v t = (Inl e, s'))"
  by (auto simp: bindM_def split: sum.splits prod.splits)

text \<open>
  A predicate on objects that a method keeps, whether it returns or raises, and the rule
  that composes such methods.
\<close>

definition keeps :: "('s \<Rightarrow> bool) \<Rightarrow> ('s, 'a) meth \<Rightarrow> bool" where
  "keeps I m \<longleftrightarrow> (\<forall>s. I s \<longrightarrow> I (snd (m s)))"

named_theorems keeps_intros "methods that keep an invariant"

lemma keepsI: "(\<And>s. I s \<Longrightarrow> I (snd (m s))) \<Longrightarrow> keeps I m"
  by (simp add: keeps_def)

lemma keepsD: "keeps I m \<Longrightarrow> I s \<Longrightarrow> m s = (r, s') \<Longrightarrow> I s'"
  unfolding keeps_def by (metis snd_conv)

lemma keeps_bindM [keeps_intros]:
  "keeps I m \<Longrightarrow> (\<And>v. keeps I (f v)) \<Longrightarrow> keeps I (bindM m f)"
  unfolding keeps_def bindM_def
  by (simp split: sum.splits prod.splits) (metis snd_conv)

lemma keeps_returnM [keeps_intros]: "keeps I (returnM v)"
  and keeps_raiseM [keeps_intros]: "keeps I (raiseM e)"
  and keeps_liftM [keeps_intros]: "keeps I (liftM r)"
  by (simp_all add: keeps_def)

lemma keeps_modifyM: "(\<And>s. I s \<Longrightarrow> I (f s)) \<Longrightarrow> keeps I (modifyM f)"
  by (simp add: keeps_def)

section \<open>Lists and words\<close>

lemma take_drop_slice: "i \<le> length xs \<Longrightarrow> take i xs @ drop i xs = xs"
  by simp

lemma list_update_append_at: "(xs @ y # ys)[length xs := z] = xs @ z # ys"
  by simp

lemma unat_byte_less [simp]: "unat (b :: byte) < 256"
proof -
  have "unat b < 2 ^ LENGTH(8)" by (rule unsigned_less)
  then show ?thesis by simp
qed

lemma unat_of_nat_byte: "n < 256 \<Longrightarrow> unat (of_nat n :: byte) = n"
  by (simp add: unat_of_nat)

lemma word8_of_nat_unat [simp]: "(of_nat (unat b) :: byte) = b"
  by simp

lemma foldl_snoc: "foldl f a (xs @ [x]) = f (foldl f a xs) x"
  by simp

end
