(* ===== verification/PyFloat.thy ===== *)
theory PyFloat
  imports Prelude
begin

text \<open>
  Python numbers as the host code sees them. A Python float is an IEEE 754 binary64 value,
  modelled by its bit pattern (\<^verbatim>\<open>f64\<close>); the wire carries binary32 patterns (\<^verbatim>\<open>f32\<close>).
  Comparison, negation and absolute value work on the patterns, \<^verbatim>\<open>narrow\<close> is the rounding
  conversion of \<^verbatim>\<open>struct.pack("<f", x)\<close> (round half to even, \<^verbatim>\<open>OverflowError\<close> when a
  finite value rounds past the largest binary32 value), \<^verbatim>\<open>widen\<close> is the exact conversion of
  \<^verbatim>\<open>struct.unpack\<close>, and \<^verbatim>\<open>float_of_int\<close> is \<^verbatim>\<open>float(n)\<close>. All of them compute. The lemmas
  show that narrowing undoes widening and that rounding keeps signs, zero and the order.
\<close>

type_synonym f64 = "64 word"
type_synonym f32 = "32 word"

section \<open>Reading a pattern\<close>

definition f64_mag :: "f64 \<Rightarrow> nat" where
  "f64_mag x = unat x mod 2 ^ 63"

definition f64_neg :: "f64 \<Rightarrow> bool" where
  "f64_neg x \<longleftrightarrow> 2 ^ 63 \<le> unat x"

definition f64_of :: "bool \<Rightarrow> nat \<Rightarrow> f64" where
  "f64_of s m = of_nat ((if s then 2 ^ 63 else 0) + m)"

definition f32_mag :: "f32 \<Rightarrow> nat" where
  "f32_mag x = unat x mod 2 ^ 31"

definition f32_neg :: "f32 \<Rightarrow> bool" where
  "f32_neg x \<longleftrightarrow> 2 ^ 31 \<le> unat x"

definition f32_of :: "bool \<Rightarrow> nat \<Rightarrow> f32" where
  "f32_of s m = of_nat ((if s then 2 ^ 31 else 0) + m)"

definition f64_inf_mag :: nat where
  "f64_inf_mag = 2047 * 2 ^ 52"

definition f32_inf_mag :: nat where
  "f32_inf_mag = 255 * 2 ^ 23"

definition isnan :: "f64 \<Rightarrow> bool" where
  "isnan x \<longleftrightarrow> f64_inf_mag < f64_mag x"

definition isfinite :: "f64 \<Rightarrow> bool" where
  "isfinite x \<longleftrightarrow> f64_mag x < f64_inf_mag"

definition f32_isfinite :: "f32 \<Rightarrow> bool" where
  "f32_isfinite x \<longleftrightarrow> f32_mag x < f32_inf_mag"

text \<open>
  The comparison key of a pattern: the magnitudes of IEEE values of one sign are ordered as
  their patterns are, and both zeros have key 0.
\<close>

definition f64_key :: "f64 \<Rightarrow> int" where
  "f64_key x = (if f64_neg x then - int (f64_mag x) else int (f64_mag x))"

definition flt :: "f64 \<Rightarrow> f64 \<Rightarrow> bool" where
  "flt x y \<longleftrightarrow> \<not> isnan x \<and> \<not> isnan y \<and> f64_key x < f64_key y"

definition fle :: "f64 \<Rightarrow> f64 \<Rightarrow> bool" where
  "fle x y \<longleftrightarrow> \<not> isnan x \<and> \<not> isnan y \<and> f64_key x \<le> f64_key y"

definition feq :: "f64 \<Rightarrow> f64 \<Rightarrow> bool" where
  "feq x y \<longleftrightarrow> \<not> isnan x \<and> \<not> isnan y \<and> f64_key x = f64_key y"

definition fneg :: "f64 \<Rightarrow> f64" where
  "fneg x = f64_of (\<not> f64_neg x) (f64_mag x)"

definition fabs :: "f64 \<Rightarrow> f64" where
  "fabs x = f64_of False (f64_mag x)"

definition fmax :: "f64 \<Rightarrow> f64 \<Rightarrow> f64" where
  "fmax x y = (if flt x y then y else x)"

definition fmin :: "f64 \<Rightarrow> f64 \<Rightarrow> f64" where
  "fmin x y = (if flt y x then y else x)"

section \<open>Rounding conversions\<close>

definition round_half_even :: "nat \<Rightarrow> nat \<Rightarrow> nat" where
  "round_half_even s k =
     (let q = s div 2 ^ k; r = s mod 2 ^ k
      in if 2 ^ k < 2 * r \<or> (2 ^ k = 2 * r \<and> odd q) then q + 1 else q)"

text \<open>
  The binary32 magnitude nearest to a finite binary64 magnitude. A binary64 value with a zero
  exponent field is below half the least binary32 subnormal. From exponent field 897 on the
  result is a normal binary32 value and 29 fraction bits are rounded away, below it is
  subnormal and more bits go; a carry out of the fraction moves to the next exponent.
\<close>

definition narrow_mag :: "nat \<Rightarrow> nat" where
  "narrow_mag m =
     (let e = m div 2 ^ 52; f = m mod 2 ^ 52
      in if e = 0 then 0
         else if 897 \<le> e then (e - 897) * 2 ^ 23 + round_half_even (2 ^ 52 + f) 29
         else round_half_even (2 ^ 52 + f) (29 + (897 - e)))"

definition narrow :: "f64 \<Rightarrow> f32 result" where
  "narrow x =
     (if isnan x then Inr (f32_of (f64_neg x) (f32_inf_mag + 2 ^ 22))
      else if \<not> isfinite x then Inr (f32_of (f64_neg x) f32_inf_mag)
      else if f32_inf_mag \<le> narrow_mag (f64_mag x) then Inl OverflowError
      else Inr (f32_of (f64_neg x) (narrow_mag (f64_mag x))))"

fun bit_len :: "nat \<Rightarrow> nat" where
  "bit_len n = (if n = 0 then 0 else Suc (bit_len (n div 2)))"

declare bit_len.simps [simp del]

definition widen_mag :: "nat \<Rightarrow> nat" where
  "widen_mag m =
     (let e = m div 2 ^ 23; f = m mod 2 ^ 23
      in if e = 255 then (if f = 0 then f64_inf_mag else f64_inf_mag + 2 ^ 51 + (f mod 2 ^ 22) * 2 ^ 29)
         else if e = 0 then
           (if f = 0 then 0
            else let k = bit_len f - 1
                 in (874 + k) * 2 ^ 52 + (f - 2 ^ k) * 2 ^ (52 - k))
         else (e + 896) * 2 ^ 52 + f * 2 ^ 29)"

definition widen :: "f32 \<Rightarrow> f64" where
  "widen b = f64_of (f32_neg b) (widen_mag (f32_mag b))"

definition float_of_int :: "int \<Rightarrow> f64 result" where
  "float_of_int n =
     (let a = nat \<bar>n\<bar>; l = bit_len a;
          m = (if a = 0 then 0
               else if l \<le> 53 then (1021 + l) * 2 ^ 52 + a * 2 ^ (53 - l)
               else (1021 + l) * 2 ^ 52 + round_half_even a (l - 53))
      in if f64_inf_mag \<le> m then Inl OverflowError else Inr (f64_of (n < 0) m))"

section \<open>Dynamic values\<close>

text \<open>
  What \<^verbatim>\<open>isinstance\<close> can tell apart in the guards of the codec: a bool is an int for
  Python, which is why the guards test for it first.
\<close>

datatype pyobj = PBool bool | PInt int | PFloat f64 | POther


section \<open>Sign and magnitude\<close>

lemma f64_mag_less: "f64_mag x < 2 ^ 63"
  by (simp add: f64_mag_def)

lemma f32_mag_less: "f32_mag x < 2 ^ 31"
  by (simp add: f32_mag_def)

lemma unat_f64_less: "unat (x :: f64) < 2 ^ 64"
proof -
  have "unat x < 2 ^ LENGTH(64)" by (rule unsigned_less)
  then show ?thesis by simp
qed

lemma unat_f32_less: "unat (x :: f32) < 2 ^ 32"
proof -
  have "unat x < 2 ^ LENGTH(32)" by (rule unsigned_less)
  then show ?thesis by simp
qed

lemma unat_f64_of: "m < 2 ^ 63 \<Longrightarrow> unat (f64_of s m) = (if s then 2 ^ 63 else 0) + m"
  unfolding f64_of_def by (subst unat_of_nat) (simp add: take_bit_eq_mod)

lemma unat_f32_of: "m < 2 ^ 31 \<Longrightarrow> unat (f32_of s m) = (if s then 2 ^ 31 else 0) + m"
  unfolding f32_of_def by (subst unat_of_nat) (simp add: take_bit_eq_mod)

lemma f64_of_parts [simp]:
  "m < 2 ^ 63 \<Longrightarrow> f64_mag (f64_of s m) = m"
  "m < 2 ^ 63 \<Longrightarrow> f64_neg (f64_of s m) = s"
  by (simp_all add: f64_mag_def f64_neg_def unat_f64_of)

lemma f32_of_parts [simp]:
  "m < 2 ^ 31 \<Longrightarrow> f32_mag (f32_of s m) = m"
  "m < 2 ^ 31 \<Longrightarrow> f32_neg (f32_of s m) = s"
  by (simp_all add: f32_mag_def f32_neg_def unat_f32_of)

lemma f32_of_neg_mag [simp]: "f32_of (f32_neg b) (f32_mag b) = b"
proof (rule word_unat_eq_iff [THEN iffD2])
  have "unat b < 2 ^ 32" by (rule unat_f32_less)
  then show "unat (f32_of (f32_neg b) (f32_mag b)) = unat b"
    by (simp add: unat_f32_of f32_mag_less f32_neg_def f32_mag_def le_mod_geq)
qed

lemma f64_zero [simp]: "f64_mag 0 = 0" "\<not> f64_neg 0" "f64_key 0 = 0" "isfinite 0" "\<not> isnan 0"
  by (simp_all add: f64_mag_def f64_neg_def f64_key_def isfinite_def isnan_def f64_inf_mag_def)

lemma isfinite_not_nan: "isfinite x \<Longrightarrow> \<not> isnan x"
  by (simp add: isfinite_def isnan_def)

section \<open>Properties of rounding\<close>

lemma round_half_even_exact: "round_half_even (q * 2 ^ k) k = q"
  by (simp add: round_half_even_def)

lemma round_half_even_le: "round_half_even s k \<le> s div 2 ^ k + 1"
  and round_half_even_ge: "s div 2 ^ k \<le> round_half_even s k"
  by (simp_all add: round_half_even_def Let_def)

lemma round_half_even_mono:
  assumes "s \<le> t"
  shows "round_half_even s k \<le> round_half_even t k"
proof (cases "s div 2 ^ k = t div 2 ^ k")
  case True
  then have "s mod 2 ^ k \<le> t mod 2 ^ k"
    using assms by (metis add_le_cancel_left mult_div_mod_eq)
  with True show ?thesis by (auto simp: round_half_even_def Let_def)
next
  case False
  then have "s div 2 ^ k + 1 \<le> t div 2 ^ k"
    using div_le_mono [OF assms, of "2 ^ k"] by simp
  then show ?thesis
    using round_half_even_le [of s k] round_half_even_ge [of t k] by linarith
qed

lemma round_half_even_Suc: "round_half_even s (Suc k) \<le> round_half_even s k"
proof -
  define q where "q = s div 2 ^ k"
  have half: "s div 2 ^ Suc k = q div 2"
    unfolding q_def by (simp add: div_mult2_eq [symmetric] mult.commute)
  show ?thesis
  proof (cases "q = 0")
    case True
    then have "s < 2 ^ k" unfolding q_def by (simp add: div_eq_0_iff)
    then have "round_half_even s (Suc k) = 0"
      by (simp add: round_half_even_def Let_def)
    then show ?thesis by simp
  next
    case False
    have "round_half_even s (Suc k) \<le> q div 2 + 1"
      using round_half_even_le [of s "Suc k"] half by simp
    also have "\<dots> \<le> q" using False by linarith
    also have "\<dots> \<le> round_half_even s k"
      unfolding q_def by (rule round_half_even_ge)
    finally show ?thesis .
  qed
qed

lemma round_half_even_shift: "k \<le> l \<Longrightarrow> round_half_even s l \<le> round_half_even s k"
  by (induction rule: dec_induct) (auto intro: round_half_even_Suc le_trans)

lemma bit_len_bounds: "0 < n \<Longrightarrow> 2 ^ (bit_len n - 1) \<le> n \<and> n < 2 ^ bit_len n"
proof (induction n rule: bit_len.induct)
  case (1 n)
  show ?case
  proof (cases "n = 1")
    case True
    then show ?thesis by (simp add: bit_len.simps [of "Suc 0"] bit_len.simps [of 0])
  next
    case False
    with 1 have h: "2 ^ (bit_len (n div 2) - 1) \<le> n div 2" "n div 2 < 2 ^ bit_len (n div 2)"
      by simp_all
    from False 1 obtain l where l: "bit_len (n div 2) = Suc l"
      by (cases "bit_len (n div 2)") (auto simp: bit_len.simps [of "n div 2"] split: if_splits)
    with h have "2 * 2 ^ l \<le> n" "n < 2 * 2 ^ Suc l" by simp_all
    with l "1.prems" show ?thesis by (simp add: bit_len.simps [of n])
  qed
qed

text \<open>Narrowing is monotone on magnitudes.\<close>

lemma narrow_mag_eq:
  "e < 2048 \<Longrightarrow> f < 2 ^ 52 \<Longrightarrow> narrow_mag (e * 2 ^ 52 + f) =
     (if e = 0 then 0
      else if 897 \<le> e then (e - 897) * 2 ^ 23 + round_half_even (2 ^ 52 + f) 29
      else round_half_even (2 ^ 52 + f) (29 + (897 - e)))"
  by (simp add: narrow_mag_def)

lemma narrow_mag_same_exp:
  assumes "m div 2 ^ 52 = n div 2 ^ 52" "m \<le> n"
  shows "narrow_mag m \<le> narrow_mag n"
proof -
  have "m mod 2 ^ 52 \<le> n mod 2 ^ 52"
    using assms by (metis add_le_cancel_left mult_div_mod_eq)
  then show ?thesis
    using assms(1) by (auto simp: narrow_mag_def Let_def intro!: round_half_even_mono)
qed

lemma round_half_even_double: "round_half_even (2 * s) (Suc k) = round_half_even s k"
  by (simp add: round_half_even_def Let_def mult_mod_right [symmetric])

lemma round_top: "f < 2 ^ 52 \<Longrightarrow> round_half_even (2 ^ 52 + f) (Suc k) \<le> round_half_even (2 ^ 52) k"
proof -
  assume "f < 2 ^ 52"
  then have "round_half_even (2 ^ 52 + f) (Suc k) \<le> round_half_even (2 * 2 ^ 52) (Suc k)"
    by (intro round_half_even_mono) simp
  also have "round_half_even (2 * 2 ^ 52) (Suc k) = round_half_even (2 ^ 52) k"
    by (rule round_half_even_double)
  finally show ?thesis .
qed

lemma narrow_mag_next_exp:
  assumes "f < 2 ^ 52" and "0 < e" and "e < 2047"
  shows "narrow_mag (e * 2 ^ 52 + f) \<le> narrow_mag (Suc e * 2 ^ 52 + 0)"
proof (cases "897 \<le> e")
  case True
  have "round_half_even (2 ^ 52 + f) 29 \<le> 2 ^ 24"
    using round_half_even_mono [of "2 ^ 52 + f" "2 ^ 24 * 2 ^ 29" 29] assms(1)
    by (simp only: round_half_even_exact) simp
  moreover have "round_half_even (2 ^ 52 + 0) 29 = 2 ^ 23"
    using round_half_even_exact [of "2 ^ 23" 29] by simp
  ultimately show ?thesis
    using True assms by (subst (1 2) narrow_mag_eq) auto
next
  case False
  define k where "k = 29 + (896 - e)"
  have k: "29 + (897 - e) = Suc k" using False by (simp add: k_def)
  have le: "round_half_even (2 ^ 52 + f) (Suc k) \<le> round_half_even (2 ^ 52) k"
    by (rule round_top [OF assms(1)])
  have l: "narrow_mag (e * 2 ^ 52 + f) = round_half_even (2 ^ 52 + f) (Suc k)"
    using False assms k by (subst narrow_mag_eq) auto
  have r: "narrow_mag (Suc e * 2 ^ 52 + 0) = round_half_even (2 ^ 52) k"
    using False assms by (cases "e = 896"; subst narrow_mag_eq) (auto simp: k_def)
  show ?thesis using le l r by simp
qed

lemma narrow_mag_exp_mono:
  assumes "0 < e" and "e \<le> e'" and "e' < 2048"
  shows "narrow_mag (e * 2 ^ 52 + 0) \<le> narrow_mag (e' * 2 ^ 52 + 0)"
  using assms(2,3)
proof (induction rule: dec_induct)
  case base
  show ?case by simp
next
  case (step n)
  have "narrow_mag (n * 2 ^ 52 + 0) \<le> narrow_mag (Suc n * 2 ^ 52 + 0)"
    using step assms(1) by (intro narrow_mag_next_exp) auto
  with step show ?case by simp
qed

lemma narrow_mag_mono:
  assumes "m \<le> n" and "n < 2 ^ 63"
  shows "narrow_mag m \<le> narrow_mag n"
proof (cases "m div 2 ^ 52 = n div 2 ^ 52")
  case True
  then show ?thesis using assms(1) by (rule narrow_mag_same_exp)
next
  case False
  define e e' where "e = m div 2 ^ 52" and "e' = n div 2 ^ 52"
  have lt: "e < e'"
    using False div_le_mono [OF assms(1), of "2 ^ 52"] unfolding e_def e'_def by simp
  have e': "e' < 2048" using assms(2) unfolding e'_def by (simp add: less_mult_imp_div_less)
  have m: "m = e * 2 ^ 52 + m mod 2 ^ 52" by (simp add: e_def)
  show ?thesis
  proof (cases "e = 0")
    case True
    then have "narrow_mag m = 0" by (simp add: narrow_mag_def e_def)
    then show ?thesis by simp
  next
    case e0: False
    have "narrow_mag (e * 2 ^ 52 + m mod 2 ^ 52) \<le> narrow_mag (Suc e * 2 ^ 52 + 0)"
      using e0 lt e' by (intro narrow_mag_next_exp) auto
    also have "\<dots> \<le> narrow_mag (e' * 2 ^ 52 + 0)"
      using lt e' by (intro narrow_mag_exp_mono) auto
    also have "\<dots> \<le> narrow_mag n"
      by (rule narrow_mag_same_exp) (simp_all add: e'_def)
    finally show ?thesis using m by simp
  qed
qed


section \<open>Widening\<close>

lemma bit_len_less: "0 < n \<Longrightarrow> n < 2 ^ k \<Longrightarrow> bit_len n \<le> k"
proof (rule ccontr)
  assume n: "0 < n" "n < 2 ^ k" and "\<not> bit_len n \<le> k"
  then have "(2 :: nat) ^ k \<le> 2 ^ (bit_len n - 1)" by (intro power_increasing) auto
  with bit_len_bounds [OF n(1)] n(2) show False by linarith
qed

text \<open>The exponent and fraction of the widened magnitude, by the kind of the binary32 value.\<close>

lemma widen_mag_normal:
  assumes "0 < m div 2 ^ 23" "m < f32_inf_mag"
  shows "widen_mag m = (m div 2 ^ 23 + 896) * 2 ^ 52 + (m mod 2 ^ 23) * 2 ^ 29"
proof -
  have "m div 2 ^ 23 < 255"
    using assms(2) unfolding f32_inf_mag_def by (simp add: less_mult_imp_div_less)
  then show ?thesis using assms(1) by (simp add: widen_mag_def)
qed

lemma widen_mag_subnormal:
  assumes "0 < m" "m < 2 ^ 23"
  obtains k where "k < 23" "2 ^ k \<le> m" "m < 2 ^ Suc k"
    "widen_mag m = (874 + k) * 2 ^ 52 + (m - 2 ^ k) * 2 ^ (52 - k)"
proof -
  define k where "k = bit_len m - 1"
  have b: "2 ^ k \<le> m" "m < 2 ^ bit_len m"
    using bit_len_bounds [OF assms(1)] by (simp_all add: k_def)
  have "0 < bit_len m" using b(2) assms(1) by (cases "bit_len m") auto
  then have s: "bit_len m = Suc k" by (simp add: k_def)
  have "k < 23" using bit_len_less [OF assms] s by simp
  moreover have "widen_mag m = (874 + k) * 2 ^ 52 + (m - 2 ^ k) * 2 ^ (52 - k)"
    using assms by (simp add: widen_mag_def k_def Let_def)
  ultimately show thesis using that b s by metis
qed

lemma subnormal_fraction:
  fixes m :: nat
  assumes "k < 23" "2 ^ k \<le> m" "m < 2 ^ Suc k"
  shows "(m - 2 ^ k) * 2 ^ (52 - k) < 2 ^ 52"
    and "2 ^ 52 + (m - 2 ^ k) * 2 ^ (52 - k) = m * 2 ^ (52 - k)"
proof -
  have p: "(2 :: nat) ^ k * 2 ^ (52 - k) = 2 ^ 52"
    using assms(1) by (simp add: power_add [symmetric])
  have "m - 2 ^ k < 2 ^ k" using assms(2,3) by simp
  then have "(m - 2 ^ k) * 2 ^ (52 - k) < 2 ^ k * 2 ^ (52 - k)"
    by (simp only: mult_less_cancel2) simp
  then show "(m - 2 ^ k) * 2 ^ (52 - k) < 2 ^ 52" using p by simp
  have "2 ^ 52 + (m - 2 ^ k) * 2 ^ (52 - k) = (2 ^ k + (m - 2 ^ k)) * 2 ^ (52 - k)"
    by (simp only: add_mult_distrib p)
  then show "2 ^ 52 + (m - 2 ^ k) * 2 ^ (52 - k) = m * 2 ^ (52 - k)"
    using assms(2) by simp
qed

theorem narrow_widen_mag: "m < f32_inf_mag \<Longrightarrow> narrow_mag (widen_mag m) = m"
proof -
  assume m: "m < f32_inf_mag"
  consider "m = 0" | "0 < m" "m < 2 ^ 23" | "0 < m div 2 ^ 23"
    by (metis div_greater_zero_iff gr0I not_le zero_less_numeral zero_less_power)
  then show ?thesis
  proof cases
    case 1
    then show ?thesis by (simp add: widen_mag_def narrow_mag_def)
  next
    case 2
    then obtain k where k: "k < 23" "2 ^ k \<le> m" "m < 2 ^ Suc k"
      and w: "widen_mag m = (874 + k) * 2 ^ 52 + (m - 2 ^ k) * 2 ^ (52 - k)"
      by (rule widen_mag_subnormal)
    have "narrow_mag (widen_mag m)
        = round_half_even (2 ^ 52 + (m - 2 ^ k) * 2 ^ (52 - k)) (29 + (897 - (874 + k)))"
      unfolding w using k(1) subnormal_fraction(1) [OF k] by (subst narrow_mag_eq) auto
    also have "29 + (897 - (874 + k)) = 52 - k" using k(1) by simp
    finally show ?thesis
      by (simp only: subnormal_fraction(2) [OF k] round_half_even_exact)
  next
    case 3
    define e f where "e = m div 2 ^ 23" and "f = m mod 2 ^ 23"
    have e: "0 < e" "e < 255"
      using 3 m unfolding e_def f32_inf_mag_def by (simp_all add: less_mult_imp_div_less)
    have f: "f < 2 ^ 23" by (simp add: f_def)
    then have f52: "f * 2 ^ 29 < 2 ^ 52" by simp
    have "narrow_mag (widen_mag m) = narrow_mag ((e + 896) * 2 ^ 52 + f * 2 ^ 29)"
      using widen_mag_normal [OF 3 m] by (simp add: e_def f_def)
    also have "\<dots> = (e - 1) * 2 ^ 23 + round_half_even ((2 ^ 23 + f) * 2 ^ 29) 29"
      using e f52 by (subst narrow_mag_eq) (auto simp: add_mult_distrib)
    also have "\<dots> = e * 2 ^ 23 + f"
      using e by (simp only: round_half_even_exact) (simp add: diff_mult_distrib)
    finally show ?thesis by (simp add: e_def f_def)
  qed
qed

definition flt_max_mag :: nat where
  "flt_max_mag = 0x47EFFFFFE0000000"

lemma widen_mag_le_flt_max:
  assumes m: "m < f32_inf_mag"
  shows "widen_mag m \<le> flt_max_mag"
proof -
  consider "m = 0" | "0 < m" "m < 2 ^ 23" | "0 < m div 2 ^ 23"
    by (metis div_greater_zero_iff gr0I not_le zero_less_numeral zero_less_power)
  then show ?thesis
  proof cases
    case 1
    then show ?thesis by (simp add: widen_mag_def flt_max_mag_def)
  next
    case 2
    then obtain k where k: "k < 23" "2 ^ k \<le> m" "m < 2 ^ Suc k"
      and w: "widen_mag m = (874 + k) * 2 ^ 52 + (m - 2 ^ k) * 2 ^ (52 - k)"
      by (rule widen_mag_subnormal)
    show ?thesis
      using k(1) subnormal_fraction(1) [OF k] unfolding w flt_max_mag_def by simp
  next
    case 3
    have e: "m div 2 ^ 23 \<le> 254"
      using m unfolding f32_inf_mag_def by (simp add: less_mult_imp_div_less less_Suc_eq_le [symmetric])
    have f: "m mod 2 ^ 23 \<le> 2 ^ 23 - 1" by (simp add: less_Suc_eq_le [symmetric])
    have "widen_mag m \<le> (254 + 896) * 2 ^ 52 + (2 ^ 23 - 1) * 2 ^ 29"
      unfolding widen_mag_normal [OF 3 m] using e f by (intro add_mono mult_le_mono) auto
    then show ?thesis by (simp add: flt_max_mag_def)
  qed
qed

lemma narrow_mag_flt_max: "m \<le> flt_max_mag \<Longrightarrow> narrow_mag m < f32_inf_mag"
proof -
  assume "m \<le> flt_max_mag"
  then have "narrow_mag m \<le> narrow_mag flt_max_mag"
    by (rule narrow_mag_mono) (simp add: flt_max_mag_def)
  also have "narrow_mag flt_max_mag < f32_inf_mag"
    by (simp add: narrow_mag_def flt_max_mag_def f32_inf_mag_def round_half_even_def)
  finally show ?thesis .
qed

section \<open>The wire round trip\<close>

text \<open>A value is wire-safe when it is finite and no larger than the largest binary32 value.\<close>

definition f64_wire :: "f64 \<Rightarrow> bool" where
  "f64_wire x \<longleftrightarrow> f64_mag x \<le> flt_max_mag"

definition narrow_bits :: "f64 \<Rightarrow> f32" where
  "narrow_bits x = f32_of (f64_neg x) (narrow_mag (f64_mag x))"

text \<open>The binary32 value nearest to a wire-safe value, as a Python float again.\<close>

definition to_f32 :: "f64 \<Rightarrow> f64" where
  "to_f32 x = widen (narrow_bits x)"

lemma flt_max_less_inf: "m \<le> flt_max_mag \<Longrightarrow> m < f64_inf_mag"
  by (simp add: flt_max_mag_def f64_inf_mag_def)

lemma flt_max_less_63: "m \<le> flt_max_mag \<Longrightarrow> m < 2 ^ 63"
  by (simp add: flt_max_mag_def)

lemma f32_inf_less_31: "m < f32_inf_mag \<Longrightarrow> m < 2 ^ 31"
  by (simp add: f32_inf_mag_def)

lemma f64_wire_finite: "f64_wire x \<Longrightarrow> isfinite x \<and> \<not> isnan x"
  by (simp add: f64_wire_def isfinite_def isnan_def flt_max_mag_def f64_inf_mag_def)

lemma narrow_wire: "f64_wire x \<Longrightarrow> narrow x = Inr (narrow_bits x)"
  using f64_wire_finite [of x] narrow_mag_flt_max [of "f64_mag x"]
  by (simp add: narrow_def narrow_bits_def f64_wire_def)

lemma narrow_bits_finite: "f64_wire x \<Longrightarrow> f32_isfinite (narrow_bits x)"
  using narrow_mag_flt_max [of "f64_mag x"] f32_inf_less_31
  by (simp add: narrow_bits_def f32_isfinite_def f64_wire_def)

lemma widen_parts:
  "f32_isfinite b \<Longrightarrow> f64_mag (widen b) = widen_mag (f32_mag b)"
  "f32_isfinite b \<Longrightarrow> f64_neg (widen b) = f32_neg b"
  using widen_mag_le_flt_max [of "f32_mag b"] flt_max_less_63
  by (simp_all add: widen_def f32_isfinite_def)

lemma widen_wire: "f32_isfinite b \<Longrightarrow> f64_wire (widen b)"
  using widen_mag_le_flt_max [of "f32_mag b"]
  by (simp add: f64_wire_def widen_parts) (simp add: f32_isfinite_def)

theorem narrow_bits_widen: "f32_isfinite b \<Longrightarrow> narrow_bits (widen b) = b"
  by (simp add: narrow_bits_def widen_parts)
     (simp add: f32_isfinite_def narrow_widen_mag)

corollary narrow_widen: "f32_isfinite b \<Longrightarrow> narrow (widen b) = Inr b"
  by (simp add: narrow_wire widen_wire narrow_bits_widen)

lemma to_f32_wire [simp]: "f64_wire x \<Longrightarrow> f64_wire (to_f32 x)"
  by (simp add: to_f32_def widen_wire narrow_bits_finite)

lemma to_f32_idem: "f64_wire x \<Longrightarrow> to_f32 (to_f32 x) = to_f32 x"
  by (simp add: to_f32_def narrow_bits_widen narrow_bits_finite)

lemma to_f32_widen: "f32_isfinite b \<Longrightarrow> to_f32 (widen b) = widen b"
  by (simp add: to_f32_def narrow_bits_widen)

text \<open>A pattern that widens to something finite was finite.\<close>

lemma widen_nonfinite: "\<not> f32_isfinite b \<Longrightarrow> \<not> f64_wire (widen b)"
proof -
  assume "\<not> f32_isfinite b"
  then have ge: "f32_inf_mag \<le> f32_mag b" by (simp add: f32_isfinite_def)
  have "255 * 2 ^ 23 div 2 ^ 23 \<le> f32_mag b div 2 ^ 23"
    using ge unfolding f32_inf_mag_def by (rule div_le_mono)
  moreover have "f32_mag b div 2 ^ 23 < 256"
    using f32_mag_less [of b] by (simp add: less_mult_imp_div_less)
  ultimately have e: "f32_mag b div 8388608 = 255" by simp
  have "f64_inf_mag \<le> widen_mag (f32_mag b)"
    by (simp add: widen_mag_def e Let_def)
  moreover have "f32_mag b mod 2 ^ 22 * 2 ^ 29 < 2 ^ 51" by simp
  ultimately have "f64_inf_mag \<le> widen_mag (f32_mag b)" "widen_mag (f32_mag b) < 2 ^ 63"
    using e by (simp_all add: widen_mag_def Let_def f64_inf_mag_def mod_mod_cancel)
  then show ?thesis
    by (simp add: f64_wire_def widen_def f64_inf_mag_def flt_max_mag_def)
qed

lemma widen_wire_iff: "f64_wire (widen b) \<longleftrightarrow> f32_isfinite b"
  using widen_wire widen_nonfinite by blast


section \<open>Rounding keeps the order\<close>

lemma widen_mag_mono:
  assumes "m \<le> n" "n < f32_inf_mag"
  shows "widen_mag m \<le> widen_mag n"
proof (rule ccontr)
  assume "\<not> widen_mag m \<le> widen_mag n"
  then have lt: "widen_mag n < widen_mag m" by simp
  have m: "m < f32_inf_mag" using assms by simp
  have "narrow_mag (widen_mag n) \<le> narrow_mag (widen_mag m)"
    using lt widen_mag_le_flt_max [OF m] flt_max_less_63
    by (intro narrow_mag_mono) auto
  then have "n = m" using assms m by (simp add: narrow_widen_mag)
  with lt show False by simp
qed

definition round_mag :: "nat \<Rightarrow> nat" where
  "round_mag m = widen_mag (narrow_mag m)"

lemma round_mag_mono: "m \<le> n \<Longrightarrow> n \<le> flt_max_mag \<Longrightarrow> round_mag m \<le> round_mag n"
  unfolding round_mag_def
  by (intro widen_mag_mono narrow_mag_mono narrow_mag_flt_max flt_max_less_63)

lemma round_mag_0 [simp]: "round_mag 0 = 0"
  by (simp add: round_mag_def widen_mag_def narrow_mag_def)

lemma to_f32_parts:
  assumes "f64_wire x"
  shows "f64_mag (to_f32 x) = round_mag (f64_mag x)" "f64_neg (to_f32 x) = f64_neg x"
proof -
  have less: "narrow_mag (f64_mag x) < 2 ^ 31"
    using narrow_mag_flt_max [of "f64_mag x"] assms f32_inf_less_31 by (simp add: f64_wire_def)
  have fin: "f32_isfinite (narrow_bits x)" using assms by (rule narrow_bits_finite)
  show "f64_mag (to_f32 x) = round_mag (f64_mag x)" "f64_neg (to_f32 x) = f64_neg x"
    unfolding to_f32_def widen_parts [OF fin]
    using less by (simp_all add: narrow_bits_def round_mag_def del: power_numeral)
qed

lemma to_f32_not_nan: "f64_wire x \<Longrightarrow> \<not> isnan (to_f32 x)"
  by (simp add: f64_wire_finite)

theorem to_f32_mono:
  assumes "f64_wire x" "f64_wire y" "fle x y"
  shows "fle (to_f32 x) (to_f32 y)"
proof -
  have mono: "f64_mag x \<le> f64_mag y \<Longrightarrow> round_mag (f64_mag x) \<le> round_mag (f64_mag y)"
    "f64_mag y \<le> f64_mag x \<Longrightarrow> round_mag (f64_mag y) \<le> round_mag (f64_mag x)"
    using assms(1,2) by (auto simp: f64_wire_def intro: round_mag_mono)
  have zero: "int m \<le> - int n \<longleftrightarrow> m = 0 \<and> n = 0" for m n by auto
  have "f64_key (to_f32 x) \<le> f64_key (to_f32 y)"
    using assms mono zero [of "f64_mag x" "f64_mag y"]
    by (cases "f64_neg x"; cases "f64_neg y") (auto simp: fle_def f64_key_def to_f32_parts)
  then show ?thesis
    using assms by (simp add: fle_def to_f32_not_nan)
qed

lemma to_f32_nonneg: "f64_wire x \<Longrightarrow> \<not> flt x 0 \<Longrightarrow> \<not> flt (to_f32 x) 0"
  by (auto simp: flt_def to_f32_parts f64_wire_finite f64_key_def split: if_splits)

lemma to_f32_zero: "f64_wire x \<Longrightarrow> feq x 0 \<Longrightarrow> feq (to_f32 x) 0"
  by (auto simp: feq_def to_f32_parts f64_wire_finite f64_key_def split: if_splits)

lemma flt_iff_not_fle: "\<not> isnan x \<Longrightarrow> \<not> isnan y \<Longrightarrow> flt x y \<longleftrightarrow> \<not> fle y x"
  by (auto simp: flt_def fle_def)

lemma to_f32_not_greater:
  "f64_wire x \<Longrightarrow> f64_wire y \<Longrightarrow> \<not> flt y x \<Longrightarrow> \<not> flt (to_f32 y) (to_f32 x)"
  using to_f32_mono [of x y] by (simp add: flt_iff_not_fle f64_wire_finite)

end
