(* ===== verification/Wire_Struct.thy ===== *)
theory Wire_Struct
  imports PyFloat
begin

text \<open>
  Python's \<^verbatim>\<open>struct\<close> module for the little-endian standard-size formats the protocol uses,
  and the value guards of \<^verbatim>\<open>protocol.py\<close> (\<^verbatim>\<open>_uint\<close>, \<^verbatim>\<open>_finite\<close>, \<^verbatim>\<open>_enum_value\<close>,
  \<^verbatim>\<open>_mask\<close>, \<^verbatim>\<open>_decode_enum\<close>). A format is the list of its field codes, so \<^verbatim>\<open>"<BBHII"\<close> is
  \<^verbatim>\<open>[FB, FB, FH, FI, FI]\<close>. The two main lemmas say that unpacking undoes packing up to
  the rounding of floats to binary32, and that packing undoes unpacking where the format has
  no pad bytes. The interface of an \<^verbatim>\<open>IntEnum\<close> is a locale.
\<close>

section \<open>struct: pack and unpack\<close>

datatype fcode = FB | FH | FI | FF | FX

datatype sval = SInt int | SFlt f64

fun code_size :: "fcode \<Rightarrow> nat" where
  "code_size FB = 1"
| "code_size FH = 2"
| "code_size FI = 4"
| "code_size FF = 4"
| "code_size FX = 1"

definition struct_size :: "fcode list \<Rightarrow> nat" where
  "struct_size fmt = sum_list (map code_size fmt)"

fun le_bytes :: "nat \<Rightarrow> nat \<Rightarrow> bytes" where
  "le_bytes 0 v = []"
| "le_bytes (Suc n) v = of_nat v # le_bytes n (v div 256)"

fun le_nat :: "bytes \<Rightarrow> nat" where
  "le_nat [] = 0"
| "le_nat (b # bs) = unat b + 256 * le_nat bs"

definition pack_int :: "nat \<Rightarrow> int \<Rightarrow> bytes result" where
  "pack_int width n =
     (if 0 \<le> n \<and> n < 256 ^ width then Inr (le_bytes width (nat n)) else Inl StructError)"

definition pack_float :: "f64 \<Rightarrow> bytes result" where
  "pack_float x = bindR (narrow x) (\<lambda>b. Inr (le_bytes 4 (unat b)))"

fun pack_field :: "fcode \<Rightarrow> sval \<Rightarrow> bytes result" where
  "pack_field FF (SFlt x) = pack_float x"
| "pack_field FF (SInt n) = bindR (float_of_int n) pack_float"
| "pack_field c (SInt n) = pack_int (code_size c) n"
| "pack_field c (SFlt x) = Inl StructError"

text \<open>A pad byte takes no value and is written as zero.\<close>

fun pack :: "fcode list \<Rightarrow> sval list \<Rightarrow> bytes result" where
  "pack [] vs = (if vs = [] then Inr [] else Inl StructError)"
| "pack (c # fs) vs =
     (if c = FX then bindR (pack fs vs) (\<lambda>bs. Inr (0 # bs))
      else case vs of
        [] \<Rightarrow> Inl StructError
      | v # vs' \<Rightarrow> bindR (pack_field c v) (\<lambda>b. bindR (pack fs vs') (\<lambda>bs. Inr (b @ bs))))"

fun unpack_field :: "fcode \<Rightarrow> bytes \<Rightarrow> sval" where
  "unpack_field FF bs = SFlt (widen (of_nat (le_nat bs)))"
| "unpack_field c bs = SInt (int (le_nat bs))"

text \<open>Reading skips a pad byte whatever it holds.\<close>

fun unpack_fields :: "fcode list \<Rightarrow> bytes \<Rightarrow> sval list" where
  "unpack_fields [] bs = []"
| "unpack_fields (c # fs) bs =
     (if c = FX then [] else [unpack_field c (take (code_size c) bs)])
     @ unpack_fields fs (drop (code_size c) bs)"

definition unpack :: "fcode list \<Rightarrow> bytes \<Rightarrow> sval list result" where
  "unpack fmt data =
     (if length data = struct_size fmt then Inr (unpack_fields fmt data) else Inl StructError)"

definition unpack_from :: "fcode list \<Rightarrow> bytes \<Rightarrow> nat \<Rightarrow> sval list result" where
  "unpack_from fmt data offset =
     (if offset + struct_size fmt \<le> length data
      then Inr (unpack_fields fmt (drop offset data)) else Inl StructError)"

fun ival :: "sval \<Rightarrow> int" where
  "ival (SInt n) = n"
| "ival (SFlt x) = 0"

fun fval :: "sval \<Rightarrow> f64" where
  "fval (SFlt x) = x"
| "fval (SInt n) = 0"

section \<open>Guards of the codec\<close>

definition FLOAT32_MAX :: f64 where
  "FLOAT32_MAX = 0x47EFFFFFE0000000"

fun uint_guard :: "pyobj \<Rightarrow> nat \<Rightarrow> int result" where
  "uint_guard (PInt value) bits =
     (let maximum = 2 ^ bits - 1
      in if \<not> (0 \<le> value \<and> value \<le> maximum) then Inl (ProtocolError INVALID_VALUE)
         else Inr value)"
| "uint_guard _ bits = Inl (ProtocolError INVALID_VALUE)"

definition finite_range :: "f64 \<Rightarrow> f64 result" where
  "finite_range r =
     (if \<not> isfinite r \<or> flt FLOAT32_MAX (fabs r) then Inl (ProtocolError INVALID_VALUE)
      else Inr r)"

fun finite_guard :: "pyobj \<Rightarrow> f64 result" where
  "finite_guard (PInt n) = bindR (float_of_int n) finite_range"
| "finite_guard (PFloat x) = finite_range x"
| "finite_guard _ = Inl (ProtocolError INVALID_VALUE)"

text \<open>\<^verbatim>\<open>enum_type(value)\<close> of the source is the lookup of a value in an enumeration.\<close>

fun enum_value :: "(int \<Rightarrow> 'e option) \<Rightarrow> pyobj \<Rightarrow> int result" where
  "enum_value enum_of (PInt n) =
     (case enum_of n of None \<Rightarrow> Inl (ProtocolError INVALID_VALUE) | Some _ \<Rightarrow> Inr n)"
| "enum_value enum_of _ = Inl (ProtocolError INVALID_VALUE)"

definition decode_enum :: "(int \<Rightarrow> 'e option) \<Rightarrow> int \<Rightarrow> 'e result" where
  "decode_enum enum_of n =
     (case enum_of n of None \<Rightarrow> Inl (ProtocolError INVALID_VALUE) | Some e \<Rightarrow> Inr e)"

definition mask_guard :: "pyobj \<Rightarrow> int \<Rightarrow> int result" where
  "mask_guard value allowed =
     bindR (uint_guard value 16)
       (\<lambda>raw. if raw AND NOT allowed \<noteq> 0 then Inl (ProtocolError INVALID_VALUE) else Inr raw)"

text \<open>\<^verbatim>\<open>EnumType(value)\<close>: the first member with that value, in declaration order.\<close>

definition enum_lookup :: "('e \<Rightarrow> int) \<Rightarrow> 'e list \<Rightarrow> int \<Rightarrow> 'e option" where
  "enum_lookup val members n = find (\<lambda>e. val e = n) members"

section \<open>The interface of an enumeration\<close>

locale int_enum =
  fixes val :: "'e \<Rightarrow> int"
    and enum_of :: "int \<Rightarrow> 'e option"
  assumes of_val: "enum_of (val e) = Some e"
    and val_of: "enum_of n = Some e \<Longrightarrow> val e = n"
    and val_range: "0 \<le> val e \<and> val e < 256"
begin

lemma enum_value_member [simp]: "enum_value enum_of (PInt (val e)) = Inr (val e)"
  by (simp add: of_val)

lemma decode_enum_member [simp]: "decode_enum enum_of (val e) = Inr e"
  by (simp add: decode_enum_def of_val)

lemma decode_enum_Inr: "decode_enum enum_of n = Inr e \<longleftrightarrow> n = val e"
  using of_val val_of by (auto simp: decode_enum_def split: option.splits)

lemma decode_enum_Inl: "decode_enum enum_of n = Inl x \<Longrightarrow> x = ProtocolError INVALID_VALUE"
  by (auto simp: decode_enum_def split: option.splits)

lemma val_inject: "val a = val b \<longleftrightarrow> a = b"
  by (metis of_val option.inject)

lemma val_bounds [simp]: "0 \<le> val e" "val e < 256" "val e \<le> 255" "val e < 65536"
  using val_range [of e] by simp_all

end

section \<open>Guards: what they accept\<close>

lemma uint_guard_Inr [simp]: "uint_guard (PInt n) bits = Inr m \<longleftrightarrow> m = n \<and> 0 \<le> n \<and> n < 2 ^ bits"
  by (auto simp: Let_def)

lemma uint_guard_ok: "0 \<le> n \<Longrightarrow> n < 2 ^ bits \<Longrightarrow> uint_guard (PInt n) bits = Inr n"
  by simp

lemma uint_guard_Inl: "uint_guard v bits = Inl e \<Longrightarrow> e = ProtocolError INVALID_VALUE"
  by (cases v) (auto simp: Let_def split: if_splits)

declare uint_guard.simps(1) [simp del]

lemma fabs_parts: "f64_mag (fabs x) = f64_mag x" "\<not> f64_neg (fabs x)"
  using f64_mag_less [of x] by (simp_all add: fabs_def)

lemma finite_range_wire: "finite_range x = (if f64_wire x then Inr x else Inl (ProtocolError INVALID_VALUE))"
proof -
  have "f64_mag FLOAT32_MAX = flt_max_mag" "\<not> f64_neg FLOAT32_MAX"
    by (simp_all add: FLOAT32_MAX_def f64_mag_def f64_neg_def flt_max_mag_def)
  then show ?thesis
    by (auto simp: finite_range_def f64_wire_def isfinite_def flt_def isnan_def fabs_parts
        f64_key_def flt_max_mag_def f64_inf_mag_def)
qed

lemma finite_guard_float [simp]:
  "finite_guard (PFloat x) = (if f64_wire x then Inr x else Inl (ProtocolError INVALID_VALUE))"
  by (simp add: finite_range_wire)

declare finite_guard.simps(2) [simp del]

lemma mask_guard_Inr:
  "mask_guard (PInt n) allowed = Inr m \<longleftrightarrow> m = n \<and> 0 \<le> n \<and> n < 65536 \<and> n AND NOT allowed = 0"
  by (auto simp: mask_guard_def bindR_eq_Inr)

lemma mask_guard_Inl: "mask_guard v allowed = Inl e \<Longrightarrow> e = ProtocolError INVALID_VALUE"
  by (auto simp: mask_guard_def bindR_eq_Inl split: if_splits dest: uint_guard_Inl)

section \<open>Little-endian bytes\<close>

lemma length_le_bytes [simp, wire_sizes]: "length (le_bytes n v) = n"
  by (induction n arbitrary: v) auto

lemma le_nat_bound: "le_nat bs < 256 ^ length bs"
proof (induction bs)
  case (Cons b bs)
  have "unat b + 256 * le_nat bs < 256 + 256 * le_nat bs" by simp
  also have "\<dots> \<le> 256 * 256 ^ length bs" using Cons by simp
  finally show ?case by simp
qed simp

lemma le_nat_le_bytes: "v < 256 ^ n \<Longrightarrow> le_nat (le_bytes n v) = v"
proof (induction n arbitrary: v)
  case (Suc n)
  then have "v div 256 < 256 ^ n" by (simp add: less_mult_imp_div_less mult.commute)
  then show ?case using Suc.IH by (simp add: unat_of_nat take_bit_eq_mod)
qed simp

lemma byte_256_times: "(256 :: byte) * x = 0"
proof -
  have "(256 :: byte) = 0" by simp
  then show ?thesis by (simp only: mult_zero_left)
qed

lemma le_bytes_le_nat: "le_bytes (length bs) (le_nat bs) = bs"
  by (induction bs) (auto simp: of_nat_mult byte_256_times)

lemma le_bytes_le_nat_take: "n \<le> length bs \<Longrightarrow> le_bytes n (le_nat (take n bs)) = take n bs"
  using le_bytes_le_nat [of "take n bs"] by (simp add: min_absorb2)

section \<open>Packing and unpacking undo each other\<close>

lemma struct_size_simps [simp]:
  "struct_size [] = 0"
  "struct_size (c # fs) = code_size c + struct_size fs"
  by (simp_all add: struct_size_def)

fun fits :: "fcode \<Rightarrow> sval \<Rightarrow> bool" where
  "fits FF v = (\<exists>x. v = SFlt x \<and> f64_wire x)"
| "fits c v = (\<exists>n. v = SInt n \<and> 0 \<le> n \<and> n < 256 ^ code_size c)"

fun fits_all :: "fcode list \<Rightarrow> sval list \<Rightarrow> bool" where
  "fits_all [] vs = (vs = [])"
| "fits_all (c # fs) vs =
     (if c = FX then fits_all fs vs
      else case vs of [] \<Rightarrow> False | v # vs' \<Rightarrow> fits c v \<and> fits_all fs vs')"

fun round_sval :: "sval \<Rightarrow> sval" where
  "round_sval (SInt n) = SInt n"
| "round_sval (SFlt x) = SFlt (to_f32 x)"

lemma unpack_pack_field:
  assumes "fits c v" "c \<noteq> FX"
  shows "\<exists>b. pack_field c v = Inr b \<and> length b = code_size c \<and> unpack_field c b = round_sval v"
proof (cases "c = FF")
  case True
  with assms obtain x where x: "v = SFlt x" "f64_wire x" by auto
  have "unat (narrow_bits x) < 256 ^ 4" using unat_f32_less [of "narrow_bits x"] by simp
  with x True show ?thesis
    by (simp add: pack_float_def narrow_wire le_nat_le_bytes to_f32_def del: power_numeral)
next
  case False
  with assms obtain n where "v = SInt n" "0 \<le> n" "n < 256 ^ code_size c" by (cases c) auto
  moreover from this have "nat n < 256 ^ code_size c" by (simp add: nat_less_iff)
  ultimately show ?thesis
    using False assms(2) by (cases c) (auto simp: pack_int_def le_nat_le_bytes simp del: le_bytes.simps)
qed

lemma unpack_pack:
  "fits_all fmt vs \<Longrightarrow>
     \<exists>d. pack fmt vs = Inr d \<and> length d = struct_size fmt \<and> unpack_fields fmt d = map round_sval vs"
proof (induction fmt arbitrary: vs)
  case (Cons c fs)
  show ?case
  proof (cases "c = FX")
    case True
    with Cons.prems have "fits_all fs vs" by simp
    from Cons.IH [OF this] True show ?thesis by fastforce
  next
    case False
    with Cons.prems obtain v vs' where vs: "vs = v # vs'" "fits c v" "fits_all fs vs'"
      by (auto split: list.splits)
    from Cons.IH [OF vs(3)] unpack_pack_field [OF vs(2) False] False vs(1)
    show ?thesis by fastforce
  qed
qed simp

fun field_exact :: "sval \<Rightarrow> bool" where
  "field_exact (SInt n) = True"
| "field_exact (SFlt x) = f64_wire x"

lemma pack_unpack_field:
  assumes "c \<noteq> FX" "length b = code_size c" "field_exact (unpack_field c b)"
  shows "pack_field c (unpack_field c b) = Inr b"
proof -
  have bound: "le_nat b < 256 ^ code_size c" using le_nat_bound [of b] assms(2) by simp
  show ?thesis
  proof (cases "c = FF")
    case True
    define w :: f32 where "w = of_nat (le_nat b)"
    have "unat w = le_nat b"
      using bound True by (simp add: w_def unat_of_nat take_bit_eq_mod)
    moreover have "narrow (widen w) = Inr w"
      using assms(3) True by (simp add: w_def narrow_widen widen_wire_iff)
    ultimately show ?thesis
      using True assms(2) le_bytes_le_nat [of b] by (simp add: pack_float_def w_def del: le_bytes.simps)
  next
    case False
    then have "unpack_field c b = SInt (int (le_nat b))" by (cases c) auto
    moreover have "int (le_nat b) < 256 ^ code_size c"
      using bound by (metis of_nat_less_iff of_nat_numeral of_nat_power)
    ultimately show ?thesis
      using False assms(1,2) le_bytes_le_nat [of b]
      by (cases c) (auto simp: pack_int_def simp del: le_bytes.simps)
  qed
qed

lemma pack_unpack:
  "length d = struct_size fmt \<Longrightarrow> FX \<notin> set fmt \<Longrightarrow> list_all field_exact (unpack_fields fmt d) \<Longrightarrow>
     pack fmt (unpack_fields fmt d) = Inr d"
proof (induction fmt arbitrary: d)
  case (Cons c fs)
  have "pack_field c (unpack_field c (take (code_size c) d)) = Inr (take (code_size c) d)"
    using Cons.prems by (intro pack_unpack_field) auto
  moreover have "pack fs (unpack_fields fs (drop (code_size c) d)) = Inr (drop (code_size c) d)"
    using Cons.prems by (intro Cons.IH) auto
  moreover have "c \<noteq> FX" using Cons.prems by auto
  ultimately show ?case by simp
qed simp

lemma le_nat_take_bound: "le_nat (take n b) < 256 ^ n"
proof -
  have "le_nat (take n b) < 256 ^ length (take n b)" by (rule le_nat_bound)
  also have "\<dots> \<le> 256 ^ n" by (intro power_increasing) auto
  finally show ?thesis .
qed

section \<open>Chains of guards\<close>

text \<open>
  A codec is a chain of guards that all fail the same way; these rules turn the chain into one
  condition.
\<close>

abbreviation INVALID :: py_exn where
  "INVALID \<equiv> ProtocolError INVALID_VALUE"

lemma bindR_uint:
  "bindR (uint_guard (PInt n) b) f = (if 0 \<le> n \<and> n < 2 ^ b then f n else Inl INVALID)"
  by (auto simp: bindR_def split: sum.splits dest: uint_guard_Inl) (metis Inl_Inr_False uint_guard_ok)

lemma bindR_finite:
  "bindR (finite_guard (PFloat x)) f = (if f64_wire x then f x else Inl INVALID)"
  by simp

lemma bindR_mask:
  "bindR (mask_guard (PInt n) a) f =
     (if 0 \<le> n \<and> n < 65536 \<and> n AND NOT a = 0 then f n else Inl INVALID)"
proof (cases "mask_guard (PInt n) a")
  case (Inl e)
  then have "\<not> (0 \<le> n \<and> n < 65536 \<and> n AND NOT a = 0)" using mask_guard_Inr [of n a n] by auto
  with Inl mask_guard_Inl [OF Inl] show ?thesis by auto
next
  case (Inr m)
  then show ?thesis using mask_guard_Inr [of n a m] by simp
qed

lemma bindR_guard: "bindR (guardR b e) f = (if \<not> b then f () else Inl e)"
  by (simp add: guardR_def)

lemma if_chain: "(if a then (if b then x else e) else e) = (if a \<and> b then x else e)"
  by simp

context int_enum
begin

lemma bindR_enum: "bindR (enum_value enum_of (PInt (val e))) f = f (val e)"
  by (simp add: of_val)

lemma bindR_decode_enum:
  "bindR (decode_enum enum_of n) f = Inr q \<longleftrightarrow> (\<exists>e. n = val e \<and> f e = Inr q)"
  by (auto simp: bindR_eq_Inr decode_enum_Inr)

end

named_theorems guard_chain "chains of guards as one condition"

lemmas [guard_chain] = bindR_uint bindR_finite bindR_mask bindR_guard if_chain bindR_Inr

section \<open>Formats put together\<close>

fun arity :: "fcode list \<Rightarrow> nat" where
  "arity [] = 0"
| "arity (c # fs) = (if c = FX then arity fs else Suc (arity fs))"

lemma struct_size_append [simp]: "struct_size (f @ g) = struct_size f + struct_size g"
  by (induction f) auto

lemma fits_all_append:
  "length v = arity f \<Longrightarrow> fits_all (f @ g) (v @ w) \<longleftrightarrow> fits_all f v \<and> fits_all g w"
  by (induction f arbitrary: v) (auto split: list.splits)

lemma fits_all_arity: "fits_all f v \<Longrightarrow> length v = arity f"
  by (induction f arbitrary: v) (auto split: list.splits if_splits)

lemma length_unpack_fields [simp]: "length (unpack_fields f d) = arity f"
  by (induction f arbitrary: d) auto

lemma pack_append:
  "length v = arity f \<Longrightarrow>
     pack (f @ g) (v @ w) = bindR (pack f v) (\<lambda>a. bindR (pack g w) (\<lambda>b. Inr (a @ b)))"
proof (induction f arbitrary: v)
  case (Cons c f)
  show ?case
  proof (cases "c = FX")
    case True
    then show ?thesis using Cons.IH [of v] Cons.prems by (simp add: bindR_assoc)
  next
    case False
    then show ?thesis using Cons by (cases v) (auto simp: bindR_assoc)
  qed
qed (cases "pack g w"; simp)

lemma unpack_fields_append:
  "unpack_fields (f @ g) d = unpack_fields f d @ unpack_fields g (drop (struct_size f) d)"
  by (induction f arbitrary: d) (auto simp: add.commute)

lemma unpack_fields_take: "struct_size f \<le> n \<Longrightarrow> unpack_fields f (take n d) = unpack_fields f d"
proof (induction f arbitrary: n d)
  case (Cons c f)
  then have "unpack_fields f (take (n - code_size c) (drop (code_size c) d))
      = unpack_fields f (drop (code_size c) d)"
    by (intro Cons.IH) simp
  with Cons.prems show ?case by (simp add: drop_take min_absorb1)
qed simp

lemma fits_all_exact: "fits_all f v \<Longrightarrow> list_all field_exact v"
proof (induction f arbitrary: v)
  case (Cons c f)
  show ?case
  proof (cases "c = FX")
    case False
    with Cons.prems obtain x v' where "v = x # v'" "fits c x" "fits_all f v'"
      by (auto split: list.splits)
    with Cons.IH show ?thesis by (cases c) auto
  qed (use Cons in simp)
qed simp

text \<open>What is packed is read back rounded; a format without pad bytes is written one way.\<close>

lemma pack_fits:
  assumes "fits_all f v"
  obtains d where "pack f v = Inr d" "length d = struct_size f" "unpack_fields f d = map round_sval v"
  using unpack_pack [OF assms] by blast

lemma pack_unpack_fits:
  "length d = struct_size f \<Longrightarrow> FX \<notin> set f \<Longrightarrow> unpack_fields f d = v \<Longrightarrow> fits_all f v \<Longrightarrow> pack f v = Inr d"
  using pack_unpack [of d f] fits_all_exact [of f v] by simp

lemma unpack_Inr:
  "unpack f d = Inr vs \<longleftrightarrow> length d = struct_size f \<and> vs = unpack_fields f d"
  by (auto simp: unpack_def)

lemma errors_in_decode_enum [errors_intros]: "INVALID \<in> S \<Longrightarrow> errors_in S (decode_enum enum_of n)"
  by (auto simp: errors_in_def decode_enum_def split: option.splits)

lemma errors_in_unpack [errors_intros]: "length d = struct_size f \<Longrightarrow> errors_in S (unpack f d)"
  by (simp add: errors_in_def unpack_def)

lemma errors_in_unpack_from [errors_intros]:
  "offset + struct_size f \<le> length d \<Longrightarrow> errors_in S (unpack_from f d offset)"
  by (simp add: errors_in_def unpack_from_def)

end
