(* ===== verification/Protocol_Types.thy ===== *)
theory Protocol_Types
  imports Wire_Struct
begin

text \<open>
  The vocabulary of \<^verbatim>\<open>protocol.py\<close>: its enumerations with their wire values (each one an
  interpretation of the enumeration interface), the limits, the packet and the payload
  dataclasses as records, and the union of the typed payloads. Field types follow the source's
  annotations; integers are unbounded as in Python and floats are binary64 patterns. Where two
  enumerations share a member name the constructors carry a prefix (\<^verbatim>\<open>ControlMode.SAFE_STOP\<close> is
  \<^verbatim>\<open>CM_SAFE_STOP\<close>); flags of an \<^verbatim>\<open>IntFlag\<close> are integer constants.
\<close>

section \<open>Limits\<close>

definition PROTOCOL_VERSION :: int where
  "PROTOCOL_VERSION = 1"

definition MAX_PAYLOAD_SIZE :: nat where
  "MAX_PAYLOAD_SIZE = 128"

definition HEADER_fmt :: "fcode list" where
  "HEADER_fmt = [FB, FB, FH, FI, FI]"

definition CRC_fmt :: "fcode list" where
  "CRC_fmt = [FH]"

definition HEADER_SIZE :: nat where
  "HEADER_SIZE = struct_size HEADER_fmt"

definition CRC_SIZE :: nat where
  "CRC_SIZE = struct_size CRC_fmt"

definition MAX_RAW_PACKET_SIZE :: nat where
  "MAX_RAW_PACKET_SIZE = HEADER_SIZE + MAX_PAYLOAD_SIZE + CRC_SIZE"

definition MAX_ENCODED_FRAME_SIZE :: nat where
  "MAX_ENCODED_FRAME_SIZE = MAX_RAW_PACKET_SIZE + 1"

definition MAX_WIRE_FRAME_SIZE :: nat where
  "MAX_WIRE_FRAME_SIZE = MAX_ENCODED_FRAME_SIZE + 1"

definition MAX_ROUTE_POINTS_PER_CHUNK :: nat where
  "MAX_ROUTE_POINTS_PER_CHUNK = 5"

lemma limits [simp, wire_sizes]:
  "HEADER_SIZE = 12" "CRC_SIZE = 2" "MAX_RAW_PACKET_SIZE = 142"
  "MAX_ENCODED_FRAME_SIZE = 143" "MAX_WIRE_FRAME_SIZE = 144" "MAX_PAYLOAD_SIZE = 128"
  "MAX_ROUTE_POINTS_PER_CHUNK = 5"
  by (simp_all add: HEADER_SIZE_def CRC_SIZE_def MAX_RAW_PACKET_SIZE_def MAX_ENCODED_FRAME_SIZE_def
      MAX_WIRE_FRAME_SIZE_def MAX_PAYLOAD_SIZE_def HEADER_fmt_def CRC_fmt_def
      MAX_ROUTE_POINTS_PER_CHUNK_def)

section \<open>Enumerations\<close>

lemma enum_lookup_value: "enum_lookup val members n = Some e \<Longrightarrow> val e = n"
  by (auto simp: enum_lookup_def find_Some_iff)

datatype endpoint_role = ROLE_HOST | ROLE_CONTROLLER

fun EndpointRole_value :: "endpoint_role \<Rightarrow> int" where
  "EndpointRole_value ROLE_HOST = 1"
| "EndpointRole_value ROLE_CONTROLLER = 2"

definition EndpointRole_of :: "int \<Rightarrow> endpoint_role option" where
  "EndpointRole_of n = enum_lookup EndpointRole_value [ROLE_HOST, ROLE_CONTROLLER] n"

interpretation EndpointRole: int_enum EndpointRole_value EndpointRole_of
proof
  fix e :: endpoint_role and n :: int
  show "EndpointRole_of (EndpointRole_value e) = Some e"
    by (cases e) (simp_all add: EndpointRole_of_def enum_lookup_def)
  show "EndpointRole_of n = Some e \<Longrightarrow> EndpointRole_value e = n"
    unfolding EndpointRole_of_def by (rule enum_lookup_value)
  show "0 \<le> EndpointRole_value e \<and> EndpointRole_value e < 256"
    by (cases e) simp_all
qed

datatype hello_status = HS_OK | HS_VERSION_MISMATCH | HS_BUSY | HS_REJECTED

fun HelloStatus_value :: "hello_status \<Rightarrow> int" where
  "HelloStatus_value HS_OK = 0"
| "HelloStatus_value HS_VERSION_MISMATCH = 1"
| "HelloStatus_value HS_BUSY = 2"
| "HelloStatus_value HS_REJECTED = 3"

definition HelloStatus_of :: "int \<Rightarrow> hello_status option" where
  "HelloStatus_of n = enum_lookup HelloStatus_value [HS_OK, HS_VERSION_MISMATCH, HS_BUSY, HS_REJECTED] n"

interpretation HelloStatus: int_enum HelloStatus_value HelloStatus_of
proof
  fix e :: hello_status and n :: int
  show "HelloStatus_of (HelloStatus_value e) = Some e"
    by (cases e) (simp_all add: HelloStatus_of_def enum_lookup_def)
  show "HelloStatus_of n = Some e \<Longrightarrow> HelloStatus_value e = n"
    unfolding HelloStatus_of_def by (rule enum_lookup_value)
  show "0 \<le> HelloStatus_value e \<and> HelloStatus_value e < 256"
    by (cases e) simp_all
qed

datatype control_mode = CM_NEUTRAL | CM_TRACKING | CM_SAFE_STOP

fun ControlMode_value :: "control_mode \<Rightarrow> int" where
  "ControlMode_value CM_NEUTRAL = 0"
| "ControlMode_value CM_TRACKING = 1"
| "ControlMode_value CM_SAFE_STOP = 2"

definition ControlMode_of :: "int \<Rightarrow> control_mode option" where
  "ControlMode_of n = enum_lookup ControlMode_value [CM_NEUTRAL, CM_TRACKING, CM_SAFE_STOP] n"

interpretation ControlMode: int_enum ControlMode_value ControlMode_of
proof
  fix e :: control_mode and n :: int
  show "ControlMode_of (ControlMode_value e) = Some e"
    by (cases e) (simp_all add: ControlMode_of_def enum_lookup_def)
  show "ControlMode_of n = Some e \<Longrightarrow> ControlMode_value e = n"
    unfolding ControlMode_of_def by (rule enum_lookup_value)
  show "0 \<le> ControlMode_value e \<and> ControlMode_value e < 256"
    by (cases e) simp_all
qed

datatype runtime_state = RS_STARTUP | RS_SELF_TEST | RS_READY | RS_RUNNING | RS_DEGRADED | RS_SAFE_STOP | RS_FAULT

fun RuntimeState_value :: "runtime_state \<Rightarrow> int" where
  "RuntimeState_value RS_STARTUP = 0"
| "RuntimeState_value RS_SELF_TEST = 1"
| "RuntimeState_value RS_READY = 2"
| "RuntimeState_value RS_RUNNING = 3"
| "RuntimeState_value RS_DEGRADED = 4"
| "RuntimeState_value RS_SAFE_STOP = 5"
| "RuntimeState_value RS_FAULT = 6"

definition RuntimeState_of :: "int \<Rightarrow> runtime_state option" where
  "RuntimeState_of n = enum_lookup RuntimeState_value [RS_STARTUP, RS_SELF_TEST, RS_READY, RS_RUNNING, RS_DEGRADED, RS_SAFE_STOP, RS_FAULT] n"

interpretation RuntimeState: int_enum RuntimeState_value RuntimeState_of
proof
  fix e :: runtime_state and n :: int
  show "RuntimeState_of (RuntimeState_value e) = Some e"
    by (cases e) (simp_all add: RuntimeState_of_def enum_lookup_def)
  show "RuntimeState_of n = Some e \<Longrightarrow> RuntimeState_value e = n"
    unfolding RuntimeState_of_def by (rule enum_lookup_value)
  show "0 \<le> RuntimeState_value e \<and> RuntimeState_value e < 256"
    by (cases e) simp_all
qed

datatype navigation_mode = NM_UNAVAILABLE | NM_DEAD_RECKONING | NM_LANDMARK_AIDED | NM_GNSS_AIDED | NM_DEGRADED

fun NavigationMode_value :: "navigation_mode \<Rightarrow> int" where
  "NavigationMode_value NM_UNAVAILABLE = 0"
| "NavigationMode_value NM_DEAD_RECKONING = 1"
| "NavigationMode_value NM_LANDMARK_AIDED = 2"
| "NavigationMode_value NM_GNSS_AIDED = 3"
| "NavigationMode_value NM_DEGRADED = 4"

definition NavigationMode_of :: "int \<Rightarrow> navigation_mode option" where
  "NavigationMode_of n = enum_lookup NavigationMode_value [NM_UNAVAILABLE, NM_DEAD_RECKONING, NM_LANDMARK_AIDED, NM_GNSS_AIDED, NM_DEGRADED] n"

interpretation NavigationMode: int_enum NavigationMode_value NavigationMode_of
proof
  fix e :: navigation_mode and n :: int
  show "NavigationMode_of (NavigationMode_value e) = Some e"
    by (cases e) (simp_all add: NavigationMode_of_def enum_lookup_def)
  show "NavigationMode_of n = Some e \<Longrightarrow> NavigationMode_value e = n"
    unfolding NavigationMode_of_def by (rule enum_lookup_value)
  show "0 \<le> NavigationMode_value e \<and> NavigationMode_value e < 256"
    by (cases e) simp_all
qed

datatype safe_stop_reason = SSR_NONE | SSR_MANUAL | SSR_HOST_TIMEOUT | SSR_STALE_SENSOR | SSR_PROTOCOL_ERROR | SSR_INTERNAL_FAULT

fun SafeStopReason_value :: "safe_stop_reason \<Rightarrow> int" where
  "SafeStopReason_value SSR_NONE = 0"
| "SafeStopReason_value SSR_MANUAL = 1"
| "SafeStopReason_value SSR_HOST_TIMEOUT = 2"
| "SafeStopReason_value SSR_STALE_SENSOR = 3"
| "SafeStopReason_value SSR_PROTOCOL_ERROR = 4"
| "SafeStopReason_value SSR_INTERNAL_FAULT = 5"

definition SafeStopReason_of :: "int \<Rightarrow> safe_stop_reason option" where
  "SafeStopReason_of n = enum_lookup SafeStopReason_value [SSR_NONE, SSR_MANUAL, SSR_HOST_TIMEOUT, SSR_STALE_SENSOR, SSR_PROTOCOL_ERROR, SSR_INTERNAL_FAULT] n"

interpretation SafeStopReason: int_enum SafeStopReason_value SafeStopReason_of
proof
  fix e :: safe_stop_reason and n :: int
  show "SafeStopReason_of (SafeStopReason_value e) = Some e"
    by (cases e) (simp_all add: SafeStopReason_of_def enum_lookup_def)
  show "SafeStopReason_of n = Some e \<Longrightarrow> SafeStopReason_value e = n"
    unfolding SafeStopReason_of_def by (rule enum_lookup_value)
  show "0 \<le> SafeStopReason_value e \<and> SafeStopReason_value e < 256"
    by (cases e) simp_all
qed

datatype application_error_code = AE_NONE | AE_BAD_PAYLOAD | AE_UNSUPPORTED_MESSAGE | AE_ROUTE_REJECTED | AE_NOT_READY | AE_INTERNAL_FAULT | AE_DIAGNOSTIC

fun ApplicationErrorCode_value :: "application_error_code \<Rightarrow> int" where
  "ApplicationErrorCode_value AE_NONE = 0"
| "ApplicationErrorCode_value AE_BAD_PAYLOAD = 1"
| "ApplicationErrorCode_value AE_UNSUPPORTED_MESSAGE = 2"
| "ApplicationErrorCode_value AE_ROUTE_REJECTED = 3"
| "ApplicationErrorCode_value AE_NOT_READY = 4"
| "ApplicationErrorCode_value AE_INTERNAL_FAULT = 5"
| "ApplicationErrorCode_value AE_DIAGNOSTIC = 6"

definition ApplicationErrorCode_of :: "int \<Rightarrow> application_error_code option" where
  "ApplicationErrorCode_of n = enum_lookup ApplicationErrorCode_value [AE_NONE, AE_BAD_PAYLOAD, AE_UNSUPPORTED_MESSAGE, AE_ROUTE_REJECTED, AE_NOT_READY, AE_INTERNAL_FAULT, AE_DIAGNOSTIC] n"

interpretation ApplicationErrorCode: int_enum ApplicationErrorCode_value ApplicationErrorCode_of
proof
  fix e :: application_error_code and n :: int
  show "ApplicationErrorCode_of (ApplicationErrorCode_value e) = Some e"
    by (cases e) (simp_all add: ApplicationErrorCode_of_def enum_lookup_def)
  show "ApplicationErrorCode_of n = Some e \<Longrightarrow> ApplicationErrorCode_value e = n"
    unfolding ApplicationErrorCode_of_def by (rule enum_lookup_value)
  show "0 \<le> ApplicationErrorCode_value e \<and> ApplicationErrorCode_value e < 256"
    by (cases e) simp_all
qed

datatype message_type = MT_HELLO | MT_HELLO_ACK | MT_SENSOR_FRAME | MT_ROUTE_CHUNK | MT_CONTROL_COMMAND | MT_STATE_ESTIMATE | MT_HEALTH_STATUS | MT_HEARTBEAT | MT_ERROR | MT_SAFE_STOP

fun MessageType_value :: "message_type \<Rightarrow> int" where
  "MessageType_value MT_HELLO = 1"
| "MessageType_value MT_HELLO_ACK = 2"
| "MessageType_value MT_SENSOR_FRAME = 16"
| "MessageType_value MT_ROUTE_CHUNK = 17"
| "MessageType_value MT_CONTROL_COMMAND = 32"
| "MessageType_value MT_STATE_ESTIMATE = 33"
| "MessageType_value MT_HEALTH_STATUS = 34"
| "MessageType_value MT_HEARTBEAT = 35"
| "MessageType_value MT_ERROR = 126"
| "MessageType_value MT_SAFE_STOP = 127"

definition MessageType_of :: "int \<Rightarrow> message_type option" where
  "MessageType_of n = enum_lookup MessageType_value [MT_HELLO, MT_HELLO_ACK, MT_SENSOR_FRAME, MT_ROUTE_CHUNK, MT_CONTROL_COMMAND, MT_STATE_ESTIMATE, MT_HEALTH_STATUS, MT_HEARTBEAT, MT_ERROR, MT_SAFE_STOP] n"

interpretation MessageType: int_enum MessageType_value MessageType_of
proof
  fix e :: message_type and n :: int
  show "MessageType_of (MessageType_value e) = Some e"
    by (cases e) (simp_all add: MessageType_of_def enum_lookup_def)
  show "MessageType_of n = Some e \<Longrightarrow> MessageType_value e = n"
    unfolding MessageType_of_def by (rule enum_lookup_value)
  show "0 \<le> MessageType_value e \<and> MessageType_value e < 256"
    by (cases e) simp_all
qed

text \<open>\<^verbatim>\<open>ROUTE_REFERENCE\<close> is the alias the source keeps for \<^verbatim>\<open>ROUTE_CHUNK\<close>.\<close>

abbreviation (input) MT_ROUTE_REFERENCE :: message_type where
  "MT_ROUTE_REFERENCE \<equiv> MT_ROUTE_CHUNK"

fun message_type_guard :: "pyobj \<Rightarrow> message_type result" where
  "message_type_guard (PInt n) =
     (case MessageType_of n of
        None \<Rightarrow> Inl (ProtocolError UNKNOWN_MESSAGE_TYPE)
      | Some t \<Rightarrow> Inr t)"
| "message_type_guard _ = Inl (ProtocolError UNKNOWN_MESSAGE_TYPE)"

lemma message_type_guard_member: "message_type_guard (PInt (MessageType_value t)) = Inr t"
  by (simp add: MessageType.of_val)

section \<open>Flags\<close>

definition CAP_SENSOR_FRAME :: int where "CAP_SENSOR_FRAME = push_bit 0 1"
definition CAP_ROUTE_CHUNK :: int where "CAP_ROUTE_CHUNK = push_bit 1 1"
definition CAP_STATE_ESTIMATE :: int where "CAP_STATE_ESTIMATE = push_bit 2 1"
definition CAP_HEALTH_STATUS :: int where "CAP_HEALTH_STATUS = push_bit 3 1"
definition CAP_SAFE_STOP :: int where "CAP_SAFE_STOP = push_bit 4 1"

definition SM_IMU :: int where "SM_IMU = push_bit 0 1"
definition SM_WHEEL_SPEED :: int where "SM_WHEEL_SPEED = push_bit 1 1"
definition SM_GNSS :: int where "SM_GNSS = push_bit 2 1"
definition SM_LANDMARK :: int where "SM_LANDMARK = push_bit 3 1"

definition RF_CLEAR_EXISTING :: int where "RF_CLEAR_EXISTING = push_bit 0 1"
definition RF_FINAL_CHUNK :: int where "RF_FINAL_CHUNK = push_bit 1 1"
definition RF_LOOP_ROUTE :: int where "RF_LOOP_ROUTE = push_bit 2 1"

lemma flag_values:
  "CAP_SENSOR_FRAME = 1" "CAP_ROUTE_CHUNK = 2" "CAP_STATE_ESTIMATE = 4" "CAP_HEALTH_STATUS = 8"
  "CAP_SAFE_STOP = 16" "SM_IMU = 1" "SM_WHEEL_SPEED = 2" "SM_GNSS = 4" "SM_LANDMARK = 8"
  "RF_CLEAR_EXISTING = 1" "RF_FINAL_CHUNK = 2" "RF_LOOP_ROUTE = 4"
  by (simp_all add: CAP_SENSOR_FRAME_def CAP_ROUTE_CHUNK_def CAP_STATE_ESTIMATE_def
      CAP_HEALTH_STATUS_def CAP_SAFE_STOP_def SM_IMU_def SM_WHEEL_SPEED_def SM_GNSS_def
      SM_LANDMARK_def RF_CLEAR_EXISTING_def RF_FINAL_CHUNK_def RF_LOOP_ROUTE_def)

section \<open>Packets and payloads\<close>

record packet =
  message_type :: message_type
  sequence :: int
  step_id :: int
  payload :: bytes

record hello_payload =
  hello_role :: endpoint_role
  hello_min_version :: int
  hello_max_version :: int
  hello_capabilities :: int
  hello_max_payload :: int
  hello_heartbeat_timeout_ms :: int

definition HelloPayload :: "endpoint_role \<Rightarrow> hello_payload" where
  "HelloPayload role =
     \<lparr>hello_role = role, hello_min_version = PROTOCOL_VERSION,
      hello_max_version = PROTOCOL_VERSION, hello_capabilities = 0,
      hello_max_payload = int MAX_PAYLOAD_SIZE, hello_heartbeat_timeout_ms = 500\<rparr>"

record hello_ack_payload =
  ack_accepted_version :: int
  ack_status :: hello_status
  ack_role :: endpoint_role
  ack_capabilities :: int
  ack_max_payload :: int
  ack_heartbeat_timeout_ms :: int

record imu_sample =
  imu_sample_step_id :: int
  imu_timestamp_us :: int
  imu_longitudinal_acceleration_mps2 :: f64
  imu_yaw_rate_rps :: f64

record wheel_speed_sample =
  wheel_sample_step_id :: int
  wheel_timestamp_us :: int
  wheel_speed_mps :: f64

record gnss_sample =
  gnss_sample_step_id :: int
  gnss_timestamp_us :: int
  gnss_x_m :: f64
  gnss_y_m :: f64

record landmark_sample =
  lm_sample_step_id :: int
  lm_timestamp_us :: int
  lm_landmark_id :: int
  lm_landmark_x_m :: f64
  lm_landmark_y_m :: f64
  lm_range_m :: f64
  lm_bearing_rad :: f64

record sensor_frame_payload =
  sf_present_mask :: int
  sf_fault_mask :: int
  sf_imu :: imu_sample
  sf_wheel_speed :: wheel_speed_sample
  sf_gnss :: gnss_sample
  sf_landmark :: landmark_sample

definition ImuSample :: imu_sample where
  "ImuSample = \<lparr>imu_sample_step_id = 0, imu_timestamp_us = 0,
     imu_longitudinal_acceleration_mps2 = 0, imu_yaw_rate_rps = 0\<rparr>"

definition WheelSpeedSample :: wheel_speed_sample where
  "WheelSpeedSample = \<lparr>wheel_sample_step_id = 0, wheel_timestamp_us = 0, wheel_speed_mps = 0\<rparr>"

definition GnssSample :: gnss_sample where
  "GnssSample = \<lparr>gnss_sample_step_id = 0, gnss_timestamp_us = 0, gnss_x_m = 0, gnss_y_m = 0\<rparr>"

definition LandmarkSample :: landmark_sample where
  "LandmarkSample = \<lparr>lm_sample_step_id = 0, lm_timestamp_us = 0, lm_landmark_id = 0,
     lm_landmark_x_m = 0, lm_landmark_y_m = 0, lm_range_m = 0, lm_bearing_rad = 0\<rparr>"

definition SensorFramePayload :: sensor_frame_payload where
  "SensorFramePayload = \<lparr>sf_present_mask = 0, sf_fault_mask = 0, sf_imu = ImuSample,
     sf_wheel_speed = WheelSpeedSample, sf_gnss = GnssSample, sf_landmark = LandmarkSample\<rparr>"

record route_waypoint =
  wp_x_m :: f64
  wp_y_m :: f64
  wp_target_speed_mps :: f64
  wp_acceptance_radius_m :: f64

record route_chunk_payload =
  rc_route_id :: int
  rc_start_index :: int
  rc_total_count :: int
  rc_flags :: int
  rc_points :: "route_waypoint list"

record control_command_payload =
  cc_steering_rad :: f64
  cc_acceleration_mps2 :: f64
  cc_target_speed_mps :: f64
  cc_mode :: control_mode
  cc_flags :: int

record state_estimate_payload =
  se_x_m :: f64
  se_y_m :: f64
  se_heading_rad :: f64
  se_speed_mps :: f64
  se_yaw_rate_rps :: f64
  se_acceleration_bias_mps2 :: f64
  se_covariance_diagonal :: "f64 list"
  se_navigation_mode :: navigation_mode
  se_flags :: int

text \<open>
  The four NIS groups of \<^verbatim>\<open>HealthStatusPayload\<close> have the same four fields each
  (\<^verbatim>\<open>imu_yaw_nis_evaluated_count\<close>, \<^verbatim>\<open>imu_yaw_nis_gate_rejected_count\<close>, ...); the model groups
  them in one record each, and the twelve counters in another, in the encoder's order:
  \<^verbatim>\<open>uptime_ms\<close>, \<^verbatim>\<open>last_sensor_age_ms\<close>, \<^verbatim>\<open>rx_frames\<close>, \<^verbatim>\<open>rx_crc_errors\<close>,
  \<^verbatim>\<open>rx_decode_errors\<close>, \<^verbatim>\<open>rx_missing\<close>, \<^verbatim>\<open>rx_duplicates\<close>, \<^verbatim>\<open>rx_out_of_order\<close>,
  \<^verbatim>\<open>rx_stale\<close>, \<^verbatim>\<open>queue_overflows\<close>, \<^verbatim>\<open>scheduler_overruns\<close>, \<^verbatim>\<open>max_loop_us\<close>.
\<close>

record nis_summary =
  nis_evaluated_count :: int
  nis_gate_rejected_count :: int
  nis_sum :: f64
  nis_max :: f64

record health_counters =
  hc_uptime_ms :: int
  hc_last_sensor_age_ms :: int
  hc_rx_frames :: int
  hc_rx_crc_errors :: int
  hc_rx_decode_errors :: int
  hc_rx_missing :: int
  hc_rx_duplicates :: int
  hc_rx_out_of_order :: int
  hc_rx_stale :: int
  hc_queue_overflows :: int
  hc_scheduler_overruns :: int
  hc_max_loop_us :: int

record health_status_payload =
  hs_runtime_state :: runtime_state
  hs_navigation_mode :: navigation_mode
  hs_flags :: int
  hs_counters :: health_counters
  hs_imu_yaw_nis :: nis_summary
  hs_wheel_nis :: nis_summary
  hs_gnss_nis :: nis_summary
  hs_landmark_nis :: nis_summary

record heartbeat_payload =
  hb_uptime_ms :: int
  hb_monotonic_ms :: int
  hb_runtime_state :: runtime_state

record error_payload =
  er_code :: application_error_code
  er_detail :: int
  er_related_sequence :: int
  er_context :: int

record safe_stop_payload =
  ss_reason :: safe_stop_reason
  ss_latch :: bool
  ss_detail :: int

datatype typed_payload =
    P_Hello hello_payload
  | P_HelloAck hello_ack_payload
  | P_SensorFrame sensor_frame_payload
  | P_RouteChunk route_chunk_payload
  | P_ControlCommand control_command_payload
  | P_StateEstimate state_estimate_payload
  | P_HealthStatus health_status_payload
  | P_Heartbeat heartbeat_payload
  | P_Error error_payload
  | P_SafeStop safe_stop_payload

end
