(* ===== verification/Payload_Encode.thy ===== *)
theory Payload_Encode
  imports Protocol_Types
begin

text \<open>
  \<^verbatim>\<open>encode_typed_payload\<close> of \<^verbatim>\<open>protocol.py\<close>, one definition per message. For each message
  a specification follows the encoder: the format, the values written in it, and the condition
  under which the payload is legal. The lemmas \<^verbatim>\<open>encode_<message>\<close> say that the encoder is
  exactly \<open>pack\<close> of the values when the payload is legal, and an invalid-value error otherwise.
\<close>

section \<open>Formats\<close>

definition HELLO_fmt :: "fcode list" where
  "HELLO_fmt = [FB, FB, FB, FB, FI, FH, FH]"

definition HELLO_ACK_fmt :: "fcode list" where
  "HELLO_ACK_fmt = [FB, FB, FB, FB, FI, FH, FH]"

definition SENSOR_PREFIX_fmt :: "fcode list" where
  "SENSOR_PREFIX_fmt = [FH, FH]"

definition IMU_SAMPLE_fmt :: "fcode list" where
  "IMU_SAMPLE_fmt = [FI, FI, FF, FF]"

definition WHEEL_SAMPLE_fmt :: "fcode list" where
  "WHEEL_SAMPLE_fmt = [FI, FI, FF]"

definition GNSS_SAMPLE_fmt :: "fcode list" where
  "GNSS_SAMPLE_fmt = [FI, FI, FF, FF]"

definition LANDMARK_SAMPLE_fmt :: "fcode list" where
  "LANDMARK_SAMPLE_fmt = [FI, FI, FH, FH, FF, FF, FF, FF]"

definition ROUTE_PREFIX_fmt :: "fcode list" where
  "ROUTE_PREFIX_fmt = [FH, FH, FH, FB, FB]"

definition ROUTE_POINT_fmt :: "fcode list" where
  "ROUTE_POINT_fmt = [FF, FF, FF, FF]"

definition CONTROL_COMMAND_fmt :: "fcode list" where
  "CONTROL_COMMAND_fmt = [FF, FF, FF, FB, FB, FH]"

definition STATE_ESTIMATE_fmt :: "fcode list" where
  "STATE_ESTIMATE_fmt = replicate 12 FF @ [FB, FB, FH]"

definition HEALTH_STATUS_fmt :: "fcode list" where
  "HEALTH_STATUS_fmt = [FB, FB, FH] @ replicate 12 FI @ concat (replicate 4 [FI, FI, FF, FF])"

definition HEARTBEAT_fmt :: "fcode list" where
  "HEARTBEAT_fmt = [FI, FI, FB, FX, FX, FX]"

definition ERROR_fmt :: "fcode list" where
  "ERROR_fmt = [FH, FH, FI, FI]"

definition SAFE_STOP_fmt :: "fcode list" where
  "SAFE_STOP_fmt = [FB, FB, FH]"

lemmas fmt_defs = HELLO_fmt_def HELLO_ACK_fmt_def SENSOR_PREFIX_fmt_def IMU_SAMPLE_fmt_def
  WHEEL_SAMPLE_fmt_def GNSS_SAMPLE_fmt_def LANDMARK_SAMPLE_fmt_def ROUTE_PREFIX_fmt_def
  ROUTE_POINT_fmt_def CONTROL_COMMAND_fmt_def STATE_ESTIMATE_fmt_def HEALTH_STATUS_fmt_def
  HEARTBEAT_fmt_def ERROR_fmt_def SAFE_STOP_fmt_def

section \<open>Handshake\<close>

definition encode_hello :: "hello_payload \<Rightarrow> bytes result" where
  "encode_hello p =
     bindR (uint_guard (PInt (hello_min_version p)) 8) (\<lambda>minimum.
     bindR (uint_guard (PInt (hello_max_version p)) 8) (\<lambda>maximum.
     bindR (uint_guard (PInt (hello_max_payload p)) 16) (\<lambda>limit.
     bindR (uint_guard (PInt (hello_heartbeat_timeout_ms p)) 16) (\<lambda>timeout.
     bindR (guardR (minimum = 0 \<or> maximum < minimum) INVALID) (\<lambda>_.
     bindR (guardR (\<not> (1 \<le> limit \<and> limit \<le> int MAX_PAYLOAD_SIZE) \<or> timeout = 0) INVALID) (\<lambda>_.
     bindR (enum_value EndpointRole_of (PInt (EndpointRole_value (hello_role p)))) (\<lambda>role.
     bindR (uint_guard (PInt (hello_capabilities p)) 32) (\<lambda>capabilities.
     pack HELLO_fmt
       [SInt role, SInt minimum, SInt maximum, SInt 0, SInt capabilities, SInt limit,
        SInt timeout]))))))))"

definition hello_ok :: "hello_payload \<Rightarrow> bool" where
  "hello_ok p \<longleftrightarrow>
     1 \<le> hello_min_version p \<and> hello_min_version p \<le> hello_max_version p
     \<and> hello_max_version p < 2 ^ 8
     \<and> 1 \<le> hello_max_payload p \<and> hello_max_payload p \<le> 128
     \<and> 1 \<le> hello_heartbeat_timeout_ms p \<and> hello_heartbeat_timeout_ms p < 2 ^ 16
     \<and> 0 \<le> hello_capabilities p \<and> hello_capabilities p < 2 ^ 32"

definition hello_vals :: "hello_payload \<Rightarrow> sval list" where
  "hello_vals p =
     [SInt (EndpointRole_value (hello_role p)), SInt (hello_min_version p),
      SInt (hello_max_version p), SInt 0, SInt (hello_capabilities p), SInt (hello_max_payload p),
      SInt (hello_heartbeat_timeout_ms p)]"

lemma encode_hello:
  "encode_hello p = (if hello_ok p then pack HELLO_fmt (hello_vals p) else Inl INVALID)"
  unfolding encode_hello_def EndpointRole.bindR_enum guard_chain
  by (auto simp: hello_ok_def hello_vals_def)

lemma hello_fits: "hello_ok p \<Longrightarrow> fits_all HELLO_fmt (hello_vals p)"
  using EndpointRole.val_range [of "hello_role p"]
  by (simp add: HELLO_fmt_def hello_vals_def hello_ok_def)

definition encode_hello_ack :: "hello_ack_payload \<Rightarrow> bytes result" where
  "encode_hello_ack p =
     bindR (uint_guard (PInt (ack_accepted_version p)) 8) (\<lambda>accepted.
     bindR (enum_value HelloStatus_of (PInt (HelloStatus_value (ack_status p)))) (\<lambda>status.
     bindR (uint_guard (PInt (ack_max_payload p)) 16) (\<lambda>limit.
     bindR (uint_guard (PInt (ack_heartbeat_timeout_ms p)) 16) (\<lambda>timeout.
     let expected_version = if status = HelloStatus_value HS_OK then PROTOCOL_VERSION else 0 in
     bindR (guardR (accepted \<noteq> expected_version) INVALID) (\<lambda>_.
     bindR (guardR (\<not> (1 \<le> limit \<and> limit \<le> int MAX_PAYLOAD_SIZE) \<or> timeout = 0) INVALID) (\<lambda>_.
     bindR (enum_value EndpointRole_of (PInt (EndpointRole_value (ack_role p)))) (\<lambda>role.
     bindR (uint_guard (PInt (ack_capabilities p)) 32) (\<lambda>capabilities.
     bindR (uint_guard (PInt (ack_max_payload p)) 16) (\<lambda>limit'.
     bindR (uint_guard (PInt (ack_heartbeat_timeout_ms p)) 16) (\<lambda>timeout'.
     pack HELLO_ACK_fmt
       [SInt accepted, SInt status, SInt role, SInt 0, SInt capabilities, SInt limit',
        SInt timeout']))))))))))"

definition hello_ack_ok :: "hello_ack_payload \<Rightarrow> bool" where
  "hello_ack_ok p \<longleftrightarrow>
     ack_accepted_version p = (if ack_status p = HS_OK then 1 else 0)
     \<and> 1 \<le> ack_max_payload p \<and> ack_max_payload p \<le> 128
     \<and> 1 \<le> ack_heartbeat_timeout_ms p \<and> ack_heartbeat_timeout_ms p < 2 ^ 16
     \<and> 0 \<le> ack_capabilities p \<and> ack_capabilities p < 2 ^ 32"

definition hello_ack_vals :: "hello_ack_payload \<Rightarrow> sval list" where
  "hello_ack_vals p =
     [SInt (ack_accepted_version p), SInt (HelloStatus_value (ack_status p)),
      SInt (EndpointRole_value (ack_role p)), SInt 0, SInt (ack_capabilities p),
      SInt (ack_max_payload p), SInt (ack_heartbeat_timeout_ms p)]"

lemma encode_hello_ack:
  "encode_hello_ack p = (if hello_ack_ok p then pack HELLO_ACK_fmt (hello_ack_vals p) else Inl INVALID)"
  unfolding encode_hello_ack_def EndpointRole.bindR_enum HelloStatus.bindR_enum Let_def guard_chain
    HelloStatus.val_inject
  by (auto simp: hello_ack_ok_def hello_ack_vals_def PROTOCOL_VERSION_def)

lemma hello_ack_fits: "hello_ack_ok p \<Longrightarrow> fits_all HELLO_ACK_fmt (hello_ack_vals p)"
  using EndpointRole.val_range [of "ack_role p"] HelloStatus.val_range [of "ack_status p"]
  by (simp add: HELLO_ACK_fmt_def hello_ack_vals_def hello_ack_ok_def)

section \<open>Sensor frames\<close>

definition SENSOR_MASK_ALL :: int where
  "SENSOR_MASK_ALL = SM_IMU OR SM_WHEEL_SPEED OR SM_GNSS OR SM_LANDMARK"

definition encode_imu_sample :: "imu_sample \<Rightarrow> bytes result" where
  "encode_imu_sample s =
     bindR (uint_guard (PInt (imu_sample_step_id s)) 32) (\<lambda>step.
     bindR (uint_guard (PInt (imu_timestamp_us s)) 32) (\<lambda>timestamp.
     bindR (finite_guard (PFloat (imu_longitudinal_acceleration_mps2 s))) (\<lambda>accel.
     bindR (finite_guard (PFloat (imu_yaw_rate_rps s))) (\<lambda>yaw_rate.
     pack IMU_SAMPLE_fmt [SInt step, SInt timestamp, SFlt accel, SFlt yaw_rate]))))"

definition encode_wheel_sample :: "wheel_speed_sample \<Rightarrow> bytes result" where
  "encode_wheel_sample s =
     bindR (uint_guard (PInt (wheel_sample_step_id s)) 32) (\<lambda>step.
     bindR (uint_guard (PInt (wheel_timestamp_us s)) 32) (\<lambda>timestamp.
     bindR (finite_guard (PFloat (wheel_speed_mps s))) (\<lambda>speed.
     pack WHEEL_SAMPLE_fmt [SInt step, SInt timestamp, SFlt speed])))"

definition encode_gnss_sample :: "gnss_sample \<Rightarrow> bytes result" where
  "encode_gnss_sample s =
     bindR (uint_guard (PInt (gnss_sample_step_id s)) 32) (\<lambda>step.
     bindR (uint_guard (PInt (gnss_timestamp_us s)) 32) (\<lambda>timestamp.
     bindR (finite_guard (PFloat (gnss_x_m s))) (\<lambda>x.
     bindR (finite_guard (PFloat (gnss_y_m s))) (\<lambda>y.
     pack GNSS_SAMPLE_fmt [SInt step, SInt timestamp, SFlt x, SFlt y]))))"

definition encode_landmark_sample :: "landmark_sample \<Rightarrow> bytes result" where
  "encode_landmark_sample s =
     bindR (uint_guard (PInt (lm_sample_step_id s)) 32) (\<lambda>step.
     bindR (uint_guard (PInt (lm_timestamp_us s)) 32) (\<lambda>timestamp.
     bindR (uint_guard (PInt (lm_landmark_id s)) 16) (\<lambda>lm_id.
     bindR (finite_guard (PFloat (lm_landmark_x_m s))) (\<lambda>x.
     bindR (finite_guard (PFloat (lm_landmark_y_m s))) (\<lambda>y.
     bindR (finite_guard (PFloat (lm_range_m s))) (\<lambda>rng.
     bindR (finite_guard (PFloat (lm_bearing_rad s))) (\<lambda>bearing.
     pack LANDMARK_SAMPLE_fmt
       [SInt step, SInt timestamp, SInt lm_id, SInt 0, SFlt x, SFlt y, SFlt rng,
        SFlt bearing])))))))"

definition encode_sensor_frame :: "sensor_frame_payload \<Rightarrow> bytes result" where
  "encode_sensor_frame p =
     bindR (mask_guard (PInt (sf_present_mask p)) SENSOR_MASK_ALL) (\<lambda>present.
     bindR (mask_guard (PInt (sf_fault_mask p)) SENSOR_MASK_ALL) (\<lambda>fault.
     bindR (pack SENSOR_PREFIX_fmt [SInt present, SInt fault]) (\<lambda>prefix.
     bindR (encode_imu_sample (sf_imu p)) (\<lambda>imu.
     bindR (encode_wheel_sample (sf_wheel_speed p)) (\<lambda>wheel.
     bindR (encode_gnss_sample (sf_gnss p)) (\<lambda>gnss.
     bindR (encode_landmark_sample (sf_landmark p)) (\<lambda>landmark.
     Inr (prefix @ imu @ wheel @ gnss @ landmark))))))))"

definition u16 :: "int \<Rightarrow> bool" where
  "u16 n \<longleftrightarrow> 0 \<le> n \<and> n < 2 ^ 16"

definition u32 :: "int \<Rightarrow> bool" where
  "u32 n \<longleftrightarrow> 0 \<le> n \<and> n < 2 ^ 32"

definition mask_ok :: "int \<Rightarrow> int \<Rightarrow> bool" where
  "mask_ok allowed n \<longleftrightarrow> u16 n \<and> n AND NOT allowed = 0"

definition imu_ok :: "imu_sample \<Rightarrow> bool" where
  "imu_ok s \<longleftrightarrow> u32 (imu_sample_step_id s) \<and> u32 (imu_timestamp_us s)
     \<and> f64_wire (imu_longitudinal_acceleration_mps2 s) \<and> f64_wire (imu_yaw_rate_rps s)"

definition wheel_ok :: "wheel_speed_sample \<Rightarrow> bool" where
  "wheel_ok s \<longleftrightarrow> u32 (wheel_sample_step_id s) \<and> u32 (wheel_timestamp_us s)
     \<and> f64_wire (wheel_speed_mps s)"

definition gnss_ok :: "gnss_sample \<Rightarrow> bool" where
  "gnss_ok s \<longleftrightarrow> u32 (gnss_sample_step_id s) \<and> u32 (gnss_timestamp_us s)
     \<and> f64_wire (gnss_x_m s) \<and> f64_wire (gnss_y_m s)"

definition landmark_ok :: "landmark_sample \<Rightarrow> bool" where
  "landmark_ok s \<longleftrightarrow> u32 (lm_sample_step_id s) \<and> u32 (lm_timestamp_us s)
     \<and> u16 (lm_landmark_id s) \<and> f64_wire (lm_landmark_x_m s) \<and> f64_wire (lm_landmark_y_m s)
     \<and> f64_wire (lm_range_m s) \<and> f64_wire (lm_bearing_rad s)"

definition sensor_frame_ok :: "sensor_frame_payload \<Rightarrow> bool" where
  "sensor_frame_ok p \<longleftrightarrow> mask_ok SENSOR_MASK_ALL (sf_present_mask p)
     \<and> mask_ok SENSOR_MASK_ALL (sf_fault_mask p) \<and> imu_ok (sf_imu p)
     \<and> wheel_ok (sf_wheel_speed p) \<and> gnss_ok (sf_gnss p) \<and> landmark_ok (sf_landmark p)"

definition sensor_prefix_vals :: "sensor_frame_payload \<Rightarrow> sval list" where
  "sensor_prefix_vals p = [SInt (sf_present_mask p), SInt (sf_fault_mask p)]"

definition imu_vals :: "imu_sample \<Rightarrow> sval list" where
  "imu_vals s =
     [SInt (imu_sample_step_id s), SInt (imu_timestamp_us s),
      SFlt (imu_longitudinal_acceleration_mps2 s), SFlt (imu_yaw_rate_rps s)]"

definition wheel_vals :: "wheel_speed_sample \<Rightarrow> sval list" where
  "wheel_vals s =
     [SInt (wheel_sample_step_id s), SInt (wheel_timestamp_us s), SFlt (wheel_speed_mps s)]"

definition gnss_vals :: "gnss_sample \<Rightarrow> sval list" where
  "gnss_vals s =
     [SInt (gnss_sample_step_id s), SInt (gnss_timestamp_us s), SFlt (gnss_x_m s),
      SFlt (gnss_y_m s)]"

definition landmark_vals :: "landmark_sample \<Rightarrow> sval list" where
  "landmark_vals s =
     [SInt (lm_sample_step_id s), SInt (lm_timestamp_us s), SInt (lm_landmark_id s), SInt 0,
      SFlt (lm_landmark_x_m s), SFlt (lm_landmark_y_m s), SFlt (lm_range_m s),
      SFlt (lm_bearing_rad s)]"

definition SENSOR_FRAME_fmt :: "fcode list" where
  "SENSOR_FRAME_fmt = SENSOR_PREFIX_fmt @ IMU_SAMPLE_fmt @ WHEEL_SAMPLE_fmt @ GNSS_SAMPLE_fmt
     @ LANDMARK_SAMPLE_fmt"

definition sensor_frame_vals :: "sensor_frame_payload \<Rightarrow> sval list" where
  "sensor_frame_vals p = sensor_prefix_vals p @ imu_vals (sf_imu p) @ wheel_vals (sf_wheel_speed p)
     @ gnss_vals (sf_gnss p) @ landmark_vals (sf_landmark p)"

lemmas sensor_vals_defs = sensor_prefix_vals_def imu_vals_def wheel_vals_def gnss_vals_def
  landmark_vals_def

lemma encode_samples:
  "encode_imu_sample i = (if imu_ok i then pack IMU_SAMPLE_fmt (imu_vals i) else Inl INVALID)"
  "encode_wheel_sample w = (if wheel_ok w then pack WHEEL_SAMPLE_fmt (wheel_vals w) else Inl INVALID)"
  "encode_gnss_sample g = (if gnss_ok g then pack GNSS_SAMPLE_fmt (gnss_vals g) else Inl INVALID)"
  "encode_landmark_sample l = (if landmark_ok l then pack LANDMARK_SAMPLE_fmt (landmark_vals l) else Inl INVALID)"
  unfolding encode_imu_sample_def encode_wheel_sample_def encode_gnss_sample_def
    encode_landmark_sample_def guard_chain
  by (auto simp: sensor_vals_defs imu_ok_def wheel_ok_def gnss_ok_def landmark_ok_def u16_def u32_def)

lemma sample_fits:
  "imu_ok i \<Longrightarrow> fits_all IMU_SAMPLE_fmt (imu_vals i)"
  "wheel_ok w \<Longrightarrow> fits_all WHEEL_SAMPLE_fmt (wheel_vals w)"
  "gnss_ok g \<Longrightarrow> fits_all GNSS_SAMPLE_fmt (gnss_vals g)"
  "landmark_ok l \<Longrightarrow> fits_all LANDMARK_SAMPLE_fmt (landmark_vals l)"
  by (simp_all add: fmt_defs sensor_vals_defs imu_ok_def wheel_ok_def gnss_ok_def landmark_ok_def
      u16_def u32_def)

lemma sample_arity:
  "length (sensor_prefix_vals p) = arity SENSOR_PREFIX_fmt" "length (imu_vals i) = arity IMU_SAMPLE_fmt"
  "length (wheel_vals w) = arity WHEEL_SAMPLE_fmt" "length (gnss_vals g) = arity GNSS_SAMPLE_fmt"
  "length (landmark_vals l) = arity LANDMARK_SAMPLE_fmt"
  by (simp_all add: fmt_defs sensor_vals_defs)

lemma sensor_frame_fits: "sensor_frame_ok p \<Longrightarrow> fits_all SENSOR_FRAME_fmt (sensor_frame_vals p)"
proof -
  assume ok: "sensor_frame_ok p"
  then have "fits_all SENSOR_PREFIX_fmt (sensor_prefix_vals p)"
    by (simp add: sensor_frame_ok_def mask_ok_def u16_def SENSOR_PREFIX_fmt_def sensor_prefix_vals_def)
  with ok show ?thesis
    by (simp add: sensor_frame_ok_def SENSOR_FRAME_fmt_def sensor_frame_vals_def fits_all_append
        sample_arity sample_fits)
qed

lemma encode_sensor_frame:
  "encode_sensor_frame p =
     (if sensor_frame_ok p then pack SENSOR_FRAME_fmt (sensor_frame_vals p) else Inl INVALID)"
proof (cases "mask_ok SENSOR_MASK_ALL (sf_present_mask p) \<and> mask_ok SENSOR_MASK_ALL (sf_fault_mask p)")
  case True
  then have "fits_all SENSOR_PREFIX_fmt (sensor_prefix_vals p)"
    by (simp add: mask_ok_def u16_def SENSOR_PREFIX_fmt_def sensor_prefix_vals_def)
  then obtain d where d: "pack SENSOR_PREFIX_fmt (sensor_prefix_vals p) = Inr d"
    by (rule pack_fits)
  have split: "pack SENSOR_FRAME_fmt (sensor_frame_vals p) =
      bindR (pack SENSOR_PREFIX_fmt (sensor_prefix_vals p)) (\<lambda>prefix.
      bindR (pack IMU_SAMPLE_fmt (imu_vals (sf_imu p))) (\<lambda>imu.
      bindR (pack WHEEL_SAMPLE_fmt (wheel_vals (sf_wheel_speed p))) (\<lambda>wheel.
      bindR (pack GNSS_SAMPLE_fmt (gnss_vals (sf_gnss p))) (\<lambda>gnss.
      bindR (pack LANDMARK_SAMPLE_fmt (landmark_vals (sf_landmark p))) (\<lambda>landmark.
      Inr (prefix @ imu @ wheel @ gnss @ landmark))))))"
    unfolding SENSOR_FRAME_fmt_def sensor_frame_vals_def
    by (simp add: pack_append sample_arity bindR_assoc)
  obtain a b c e where
    "imu_ok (sf_imu p) \<Longrightarrow> pack IMU_SAMPLE_fmt (imu_vals (sf_imu p)) = Inr a"
    "wheel_ok (sf_wheel_speed p) \<Longrightarrow> pack WHEEL_SAMPLE_fmt (wheel_vals (sf_wheel_speed p)) = Inr b"
    "gnss_ok (sf_gnss p) \<Longrightarrow> pack GNSS_SAMPLE_fmt (gnss_vals (sf_gnss p)) = Inr c"
    "landmark_ok (sf_landmark p) \<Longrightarrow> pack LANDMARK_SAMPLE_fmt (landmark_vals (sf_landmark p)) = Inr e"
    using sample_fits pack_fits by metis
  with True d show ?thesis
    unfolding split encode_sensor_frame_def bindR_mask encode_samples
    by (simp add: sensor_frame_ok_def mask_ok_def u16_def sensor_prefix_vals_def)
next
  case False
  then show ?thesis
    unfolding encode_sensor_frame_def bindR_mask by (auto simp: sensor_frame_ok_def mask_ok_def u16_def)
qed

section \<open>Route chunks\<close>

definition ROUTE_FLAGS_ALL :: int where
  "ROUTE_FLAGS_ALL = RF_CLEAR_EXISTING OR RF_FINAL_CHUNK OR RF_LOOP_ROUTE"

definition encode_route_point :: "route_waypoint \<Rightarrow> bytes result" where
  "encode_route_point point =
     bindR (finite_guard (PFloat (wp_x_m point))) (\<lambda>x.
     bindR (finite_guard (PFloat (wp_y_m point))) (\<lambda>y.
     bindR (finite_guard (PFloat (wp_target_speed_mps point))) (\<lambda>speed.
     bindR (finite_guard (PFloat (wp_acceptance_radius_m point))) (\<lambda>radius.
     pack ROUTE_POINT_fmt [SFlt x, SFlt y, SFlt speed, SFlt radius]))))"

definition encode_route_chunk :: "route_chunk_payload \<Rightarrow> bytes result" where
  "encode_route_chunk p =
     bindR (guardR (MAX_ROUTE_POINTS_PER_CHUNK < length (rc_points p)) INVALID) (\<lambda>_.
     bindR (uint_guard (PInt (rc_route_id p)) 16) (\<lambda>route_id.
     bindR (uint_guard (PInt (rc_start_index p)) 16) (\<lambda>start_index.
     bindR (uint_guard (PInt (rc_total_count p)) 16) (\<lambda>total_count.
     bindR (mask_guard (PInt (rc_flags p)) ROUTE_FLAGS_ALL) (\<lambda>flags.
     let count = length (rc_points p) in
     bindR (guardR (count \<noteq> 0 \<and> (total_count = 0 \<or> total_count < start_index + int count)) INVALID) (\<lambda>_.
     bindR (guardR (count = 0 \<and> flags AND RF_CLEAR_EXISTING = 0) INVALID) (\<lambda>_.
     bindR (pack ROUTE_PREFIX_fmt
              [SInt route_id, SInt start_index, SInt total_count, SInt (int count), SInt flags]) (\<lambda>prefix.
     bindR (sequenceR (map encode_route_point (rc_points p))) (\<lambda>points.
     Inr (prefix @ concat points))))))))))"

definition point_ok :: "route_waypoint \<Rightarrow> bool" where
  "point_ok w \<longleftrightarrow> f64_wire (wp_x_m w) \<and> f64_wire (wp_y_m w) \<and> f64_wire (wp_target_speed_mps w)
     \<and> f64_wire (wp_acceptance_radius_m w)"

definition point_vals :: "route_waypoint \<Rightarrow> sval list" where
  "point_vals w =
     [SFlt (wp_x_m w), SFlt (wp_y_m w), SFlt (wp_target_speed_mps w), SFlt (wp_acceptance_radius_m w)]"

definition route_head_ok :: "route_chunk_payload \<Rightarrow> bool" where
  "route_head_ok p \<longleftrightarrow> length (rc_points p) \<le> 5 \<and> u16 (rc_route_id p) \<and> u16 (rc_start_index p)
     \<and> u16 (rc_total_count p) \<and> mask_ok ROUTE_FLAGS_ALL (rc_flags p)
     \<and> (rc_points p \<noteq> [] \<longrightarrow> rc_start_index p + int (length (rc_points p)) \<le> rc_total_count p)
     \<and> (rc_points p = [] \<longrightarrow> rc_flags p AND RF_CLEAR_EXISTING \<noteq> 0)"

definition route_chunk_ok :: "route_chunk_payload \<Rightarrow> bool" where
  "route_chunk_ok p \<longleftrightarrow> route_head_ok p \<and> list_all point_ok (rc_points p)"

definition route_prefix_vals :: "route_chunk_payload \<Rightarrow> sval list" where
  "route_prefix_vals p =
     [SInt (rc_route_id p), SInt (rc_start_index p), SInt (rc_total_count p),
      SInt (int (length (rc_points p))), SInt (rc_flags p)]"

definition ROUTE_CHUNK_fmt :: "nat \<Rightarrow> fcode list" where
  "ROUTE_CHUNK_fmt n = ROUTE_PREFIX_fmt @ concat (replicate n ROUTE_POINT_fmt)"

definition route_chunk_vals :: "route_chunk_payload \<Rightarrow> sval list" where
  "route_chunk_vals p = route_prefix_vals p @ concat (map point_vals (rc_points p))"

lemma encode_route_point:
  "encode_route_point w = (if point_ok w then pack ROUTE_POINT_fmt (point_vals w) else Inl INVALID)"
  unfolding encode_route_point_def guard_chain by (auto simp: point_ok_def point_vals_def)

lemma point_fits: "point_ok w \<Longrightarrow> fits_all ROUTE_POINT_fmt (point_vals w)"
  by (simp add: point_ok_def point_vals_def ROUTE_POINT_fmt_def)

lemma points_fits:
  "list_all point_ok ws \<Longrightarrow>
     fits_all (concat (replicate (length ws) ROUTE_POINT_fmt)) (concat (map point_vals ws))"
proof (induction ws)
  case (Cons w ws)
  then have "fits_all ROUTE_POINT_fmt (point_vals w)" by (simp add: point_fits)
  with Cons show ?case by (simp add: fits_all_append fits_all_arity)
qed simp

lemma encode_points:
  "sequenceR (map encode_route_point ws) =
     (if list_all point_ok ws then Inr (map (\<lambda>w. projr (pack ROUTE_POINT_fmt (point_vals w))) ws)
      else Inl INVALID)"
proof (induction ws)
  case (Cons w ws)
  show ?case
  proof (cases "point_ok w")
    case True
    from pack_fits [OF point_fits [OF True]] obtain d where "pack ROUTE_POINT_fmt (point_vals w) = Inr d"
      by blast
    then show ?thesis using Cons True by (simp add: encode_route_point)
  qed (simp add: encode_route_point)
qed simp

lemma pack_points:
  "list_all point_ok ws \<Longrightarrow>
     pack (concat (replicate (length ws) ROUTE_POINT_fmt)) (concat (map point_vals ws))
       = Inr (concat (map (\<lambda>w. projr (pack ROUTE_POINT_fmt (point_vals w))) ws))"
proof (induction ws)
  case (Cons w ws)
  then have ok: "point_ok w" by simp
  from pack_fits [OF point_fits [OF ok]] obtain d where "pack ROUTE_POINT_fmt (point_vals w) = Inr d"
    by blast
  with Cons fits_all_arity [OF point_fits [OF ok]] show ?case by (simp add: pack_append)
qed simp

lemma route_prefix_fits: "route_head_ok p \<Longrightarrow> fits_all ROUTE_PREFIX_fmt (route_prefix_vals p)"
proof -
  assume ok: "route_head_ok p"
  have "rc_flags p < 256"
  proof -
    have "rc_flags p = rc_flags p AND 7"
    proof -
      have "rc_flags p = (rc_flags p AND 7) OR (rc_flags p AND NOT 7)"
        by (simp add: bit.conj_disj_distrib [symmetric])
      moreover have "rc_flags p AND NOT 7 = 0"
        using ok by (simp add: route_head_ok_def mask_ok_def ROUTE_FLAGS_ALL_def flag_values)
      ultimately show ?thesis by simp
    qed
    also have "\<dots> \<le> 7" by simp
    finally show ?thesis by simp
  qed
  with ok show ?thesis
    by (simp add: route_head_ok_def mask_ok_def u16_def ROUTE_PREFIX_fmt_def route_prefix_vals_def)
qed

lemma route_chunk_fits:
  "route_chunk_ok p \<Longrightarrow> fits_all (ROUTE_CHUNK_fmt (length (rc_points p))) (route_chunk_vals p)"
  using route_prefix_fits [of p] points_fits [of "rc_points p"]
  by (simp add: route_chunk_ok_def ROUTE_CHUNK_fmt_def route_chunk_vals_def fits_all_append
      fits_all_arity)

lemma encode_route_chunk:
  "encode_route_chunk p =
     (if route_chunk_ok p then pack (ROUTE_CHUNK_fmt (length (rc_points p))) (route_chunk_vals p)
      else Inl INVALID)"
proof -
  have pos: "rc_points p \<noteq> [] \<Longrightarrow> 0 \<le> rc_start_index p \<Longrightarrow>
      rc_start_index p + int (length (rc_points p)) \<le> 0 \<Longrightarrow> False"
    by (cases "rc_points p") auto
  have "encode_route_chunk p =
      (if route_head_ok p then
         bindR (pack ROUTE_PREFIX_fmt (route_prefix_vals p)) (\<lambda>prefix.
         bindR (sequenceR (map encode_route_point (rc_points p))) (\<lambda>points.
         Inr (prefix @ concat points)))
       else Inl INVALID)"
    unfolding encode_route_chunk_def Let_def guard_chain
    by (rule if_cong)
      (use pos in \<open>auto simp: route_head_ok_def mask_ok_def u16_def route_prefix_vals_def\<close>)
  moreover have "pack (ROUTE_CHUNK_fmt (length (rc_points p))) (route_chunk_vals p) =
      bindR (pack ROUTE_PREFIX_fmt (route_prefix_vals p)) (\<lambda>prefix.
      bindR (pack (concat (replicate (length (rc_points p)) ROUTE_POINT_fmt))
               (concat (map point_vals (rc_points p)))) (\<lambda>points. Inr (prefix @ points)))"
    unfolding ROUTE_CHUNK_fmt_def route_chunk_vals_def
    by (rule pack_append) (simp add: route_prefix_vals_def ROUTE_PREFIX_fmt_def)
  moreover obtain d where "route_head_ok p \<Longrightarrow> pack ROUTE_PREFIX_fmt (route_prefix_vals p) = Inr d"
    using route_prefix_fits pack_fits by metis
  ultimately show ?thesis
    using pack_points [of "rc_points p"] by (simp add: encode_points route_chunk_ok_def)
qed

section \<open>Control commands and state estimates\<close>

definition encode_control_command :: "control_command_payload \<Rightarrow> bytes result" where
  "encode_control_command p =
     bindR (finite_guard (PFloat (cc_steering_rad p))) (\<lambda>steering.
     bindR (finite_guard (PFloat (cc_acceleration_mps2 p))) (\<lambda>acceleration.
     bindR (finite_guard (PFloat (cc_target_speed_mps p))) (\<lambda>target_speed.
     bindR (enum_value ControlMode_of (PInt (ControlMode_value (cc_mode p)))) (\<lambda>mode.
     bindR (uint_guard (PInt (cc_flags p)) 8) (\<lambda>flags.
     pack CONTROL_COMMAND_fmt
       [SFlt steering, SFlt acceleration, SFlt target_speed, SInt mode, SInt flags, SInt 0])))))"

definition control_command_ok :: "control_command_payload \<Rightarrow> bool" where
  "control_command_ok p \<longleftrightarrow> f64_wire (cc_steering_rad p) \<and> f64_wire (cc_acceleration_mps2 p)
     \<and> f64_wire (cc_target_speed_mps p) \<and> 0 \<le> cc_flags p \<and> cc_flags p < 2 ^ 8"

definition control_command_vals :: "control_command_payload \<Rightarrow> sval list" where
  "control_command_vals p =
     [SFlt (cc_steering_rad p), SFlt (cc_acceleration_mps2 p), SFlt (cc_target_speed_mps p),
      SInt (ControlMode_value (cc_mode p)), SInt (cc_flags p), SInt 0]"

lemma encode_control_command:
  "encode_control_command p =
     (if control_command_ok p then pack CONTROL_COMMAND_fmt (control_command_vals p) else Inl INVALID)"
  unfolding encode_control_command_def ControlMode.bindR_enum guard_chain
  by (auto simp: control_command_ok_def control_command_vals_def)

lemma control_command_fits:
  "control_command_ok p \<Longrightarrow> fits_all CONTROL_COMMAND_fmt (control_command_vals p)"
  using ControlMode.val_range [of "cc_mode p"]
  by (simp add: CONTROL_COMMAND_fmt_def control_command_vals_def control_command_ok_def)

definition encode_state_estimate :: "state_estimate_payload \<Rightarrow> bytes result" where
  "encode_state_estimate p =
     bindR (guardR (length (se_covariance_diagonal p) \<noteq> 6) INVALID) (\<lambda>_.
     bindR (sequenceR (map (\<lambda>v. finite_guard (PFloat v))
              ([se_x_m p, se_y_m p, se_heading_rad p, se_speed_mps p, se_yaw_rate_rps p,
                se_acceleration_bias_mps2 p] @ se_covariance_diagonal p))) (\<lambda>values.
     bindR (guardR (list_ex (\<lambda>v. flt v 0) (drop 6 values)) INVALID) (\<lambda>_.
     bindR (enum_value NavigationMode_of (PInt (NavigationMode_value (se_navigation_mode p)))) (\<lambda>mode.
     bindR (uint_guard (PInt (se_flags p)) 8) (\<lambda>flags.
     pack STATE_ESTIMATE_fmt (map SFlt values @ [SInt mode, SInt flags, SInt 0]))))))"

definition state_floats :: "state_estimate_payload \<Rightarrow> f64 list" where
  "state_floats p = [se_x_m p, se_y_m p, se_heading_rad p, se_speed_mps p, se_yaw_rate_rps p,
     se_acceleration_bias_mps2 p] @ se_covariance_diagonal p"

definition state_estimate_ok :: "state_estimate_payload \<Rightarrow> bool" where
  "state_estimate_ok p \<longleftrightarrow> length (se_covariance_diagonal p) = 6
     \<and> list_all f64_wire (state_floats p)
     \<and> list_all (\<lambda>v. \<not> flt v 0) (se_covariance_diagonal p)
     \<and> 0 \<le> se_flags p \<and> se_flags p < 2 ^ 8"

definition state_estimate_vals :: "state_estimate_payload \<Rightarrow> sval list" where
  "state_estimate_vals p = map SFlt (state_floats p)
     @ [SInt (NavigationMode_value (se_navigation_mode p)), SInt (se_flags p), SInt 0]"

lemma finite_list:
  "sequenceR (map (\<lambda>v. finite_guard (PFloat v)) xs) =
     (if list_all f64_wire xs then Inr xs else Inl INVALID)"
  by (induction xs) auto

lemma encode_state_estimate:
  "encode_state_estimate p =
     (if state_estimate_ok p then pack STATE_ESTIMATE_fmt (state_estimate_vals p) else Inl INVALID)"
proof -
  have "drop 6 (state_floats p) = se_covariance_diagonal p" by (simp add: state_floats_def)
  then show ?thesis
    unfolding encode_state_estimate_def NavigationMode.bindR_enum state_floats_def [symmetric]
      finite_list
    by (simp add: bindR_uint bindR_guard state_estimate_ok_def state_estimate_vals_def
        list_ex_iff list_all_iff)
qed

lemma fits_all_floats:
  "list_all f64_wire xs \<Longrightarrow> length xs = n \<Longrightarrow> fits_all (replicate n FF) (map SFlt xs)"
  by (induction xs arbitrary: n) auto

lemma state_estimate_fits:
  "state_estimate_ok p \<Longrightarrow> fits_all STATE_ESTIMATE_fmt (state_estimate_vals p)"
proof -
  assume ok: "state_estimate_ok p"
  have "fits_all (replicate 12 FF) (map SFlt (state_floats p))"
    using ok by (intro fits_all_floats) (simp_all add: state_estimate_ok_def state_floats_def)
  with fits_all_arity [OF this] ok NavigationMode.val_range [of "se_navigation_mode p"] show ?thesis
    unfolding STATE_ESTIMATE_fmt_def state_estimate_vals_def
    by (subst fits_all_append) (simp_all add: state_estimate_ok_def)
qed

section \<open>Health status\<close>

definition nis_summary_fields :: "nis_summary \<Rightarrow> (int \<times> int \<times> f64 \<times> f64) result" where
  "nis_summary_fields s =
     bindR (uint_guard (PInt (nis_evaluated_count s)) 32) (\<lambda>evaluated.
     bindR (uint_guard (PInt (nis_gate_rejected_count s)) 32) (\<lambda>rejected.
     bindR (finite_guard (PFloat (nis_sum s))) (\<lambda>total.
     bindR (finite_guard (PFloat (nis_max s))) (\<lambda>maximum.
     if evaluated < rejected then Inl INVALID
     else if flt total 0 \<or> flt maximum 0 then Inl INVALID
     else if evaluated = 0 then
       if rejected \<noteq> 0 \<or> \<not> feq total 0 \<or> \<not> feq maximum 0 then Inl INVALID
       else Inr (evaluated, rejected, total, maximum)
     else if flt total maximum then Inl INVALID
     else Inr (evaluated, rejected, total, maximum)))))"

fun nis_svals :: "int \<times> int \<times> f64 \<times> f64 \<Rightarrow> sval list" where
  "nis_svals (evaluated, rejected, nsum, nmax) =
     [SInt evaluated, SInt rejected, SFlt nsum, SFlt nmax]"

definition health_counter_list :: "health_counters \<Rightarrow> int list" where
  "health_counter_list c =
     [hc_uptime_ms c, hc_last_sensor_age_ms c, hc_rx_frames c, hc_rx_crc_errors c,
      hc_rx_decode_errors c, hc_rx_missing c, hc_rx_duplicates c, hc_rx_out_of_order c,
      hc_rx_stale c, hc_queue_overflows c, hc_scheduler_overruns c, hc_max_loop_us c]"

definition encode_health_status :: "health_status_payload \<Rightarrow> bytes result" where
  "encode_health_status p =
     bindR (enum_value RuntimeState_of (PInt (RuntimeState_value (hs_runtime_state p)))) (\<lambda>state.
     bindR (enum_value NavigationMode_of (PInt (NavigationMode_value (hs_navigation_mode p)))) (\<lambda>mode.
     bindR (uint_guard (PInt (hs_flags p)) 16) (\<lambda>flags.
     bindR (sequenceR (map (\<lambda>value. uint_guard (PInt value) 32)
              (health_counter_list (hs_counters p)))) (\<lambda>counters.
     bindR (nis_summary_fields (hs_imu_yaw_nis p)) (\<lambda>imu_yaw.
     bindR (nis_summary_fields (hs_wheel_nis p)) (\<lambda>wheel.
     bindR (nis_summary_fields (hs_gnss_nis p)) (\<lambda>gnss.
     bindR (nis_summary_fields (hs_landmark_nis p)) (\<lambda>landmark.
     pack HEALTH_STATUS_fmt
       ([SInt state, SInt mode, SInt flags] @ map SInt counters
        @ nis_svals imu_yaw @ nis_svals wheel @ nis_svals gnss @ nis_svals landmark)))))))))"

definition nis_ok :: "nis_summary \<Rightarrow> bool" where
  "nis_ok s \<longleftrightarrow> u32 (nis_evaluated_count s) \<and> u32 (nis_gate_rejected_count s)
     \<and> f64_wire (nis_sum s) \<and> f64_wire (nis_max s)
     \<and> nis_gate_rejected_count s \<le> nis_evaluated_count s
     \<and> \<not> flt (nis_sum s) 0 \<and> \<not> flt (nis_max s) 0
     \<and> (if nis_evaluated_count s = 0 then feq (nis_sum s) 0 \<and> feq (nis_max s) 0
        else \<not> flt (nis_sum s) (nis_max s))"

definition nis_fields :: "nis_summary \<Rightarrow> int \<times> int \<times> f64 \<times> f64" where
  "nis_fields s = (nis_evaluated_count s, nis_gate_rejected_count s, nis_sum s, nis_max s)"

definition health_status_ok :: "health_status_payload \<Rightarrow> bool" where
  "health_status_ok p \<longleftrightarrow> u16 (hs_flags p) \<and> list_all u32 (health_counter_list (hs_counters p))
     \<and> nis_ok (hs_imu_yaw_nis p) \<and> nis_ok (hs_wheel_nis p) \<and> nis_ok (hs_gnss_nis p)
     \<and> nis_ok (hs_landmark_nis p)"

definition health_status_vals :: "health_status_payload \<Rightarrow> sval list" where
  "health_status_vals p =
     [SInt (RuntimeState_value (hs_runtime_state p)),
      SInt (NavigationMode_value (hs_navigation_mode p)), SInt (hs_flags p)]
     @ map SInt (health_counter_list (hs_counters p))
     @ nis_svals (nis_fields (hs_imu_yaw_nis p)) @ nis_svals (nis_fields (hs_wheel_nis p))
     @ nis_svals (nis_fields (hs_gnss_nis p)) @ nis_svals (nis_fields (hs_landmark_nis p))"

lemma nis_summary_fields:
  "nis_summary_fields s = (if nis_ok s then Inr (nis_fields s) else Inl INVALID)"
  unfolding nis_summary_fields_def bindR_uint bindR_finite
  by (auto simp: nis_ok_def nis_fields_def u32_def)

lemma uint32_list:
  "sequenceR (map (\<lambda>v. uint_guard (PInt v) 32) xs) =
     (if list_all u32 xs then Inr xs else Inl INVALID)"
  by (induction xs) (auto simp: bindR_uint u32_def)

lemma encode_health_status:
  "encode_health_status p =
     (if health_status_ok p then pack HEALTH_STATUS_fmt (health_status_vals p) else Inl INVALID)"
  unfolding encode_health_status_def RuntimeState.bindR_enum NavigationMode.bindR_enum bindR_uint
    uint32_list nis_summary_fields
  by (simp add: health_status_ok_def health_status_vals_def u16_def)

lemma fits_all_u32: "list_all u32 xs \<Longrightarrow> length xs = n \<Longrightarrow> fits_all (replicate n FI) (map SInt xs)"
  by (induction xs arbitrary: n) (auto simp: u32_def)

lemma nis_fits: "nis_ok s \<Longrightarrow> fits_all [FI, FI, FF, FF] (nis_svals (nis_fields s))"
  by (simp add: nis_ok_def nis_fields_def u32_def)

lemma length_nis_svals [simp]: "length (nis_svals v) = 4"
  by (cases v) simp

lemma health_fmt_blocks:
  "HEALTH_STATUS_fmt = [FB, FB, FH] @ replicate 12 FI @ [FI, FI, FF, FF] @ [FI, FI, FF, FF]
     @ [FI, FI, FF, FF] @ [FI, FI, FF, FF]"
  by (simp add: HEALTH_STATUS_fmt_def numeral_eq_Suc)

lemma fits_all_appendI: "fits_all f v \<Longrightarrow> fits_all g w \<Longrightarrow> fits_all (f @ g) (v @ w)"
  by (simp add: fits_all_append fits_all_arity)

lemma fits_all_3I:
  "fits_all [FB, FB, FH] [SInt a, SInt b, SInt c] \<longleftrightarrow>
     0 \<le> a \<and> a < 256 \<and> 0 \<le> b \<and> b < 256 \<and> 0 \<le> c \<and> c < 65536"
  by auto

lemma health_status_fits: "health_status_ok p \<Longrightarrow> fits_all HEALTH_STATUS_fmt (health_status_vals p)"
proof -
  assume ok: "health_status_ok p"
  have "fits_all (replicate 12 FI) (map SInt (health_counter_list (hs_counters p)))"
    using ok by (intro fits_all_u32) (simp_all add: health_status_ok_def health_counter_list_def)
  moreover have "fits_all [FB, FB, FH] [SInt (RuntimeState_value (hs_runtime_state p)),
      SInt (NavigationMode_value (hs_navigation_mode p)), SInt (hs_flags p)]"
    unfolding fits_all_3I using ok RuntimeState.val_range [of "hs_runtime_state p"]
      NavigationMode.val_range [of "hs_navigation_mode p"]
    by (simp add: health_status_ok_def u16_def)
  moreover have "nis_ok (hs_imu_yaw_nis p)" "nis_ok (hs_wheel_nis p)" "nis_ok (hs_gnss_nis p)"
    "nis_ok (hs_landmark_nis p)"
    using ok by (simp_all add: health_status_ok_def)
  ultimately show ?thesis
    unfolding health_fmt_blocks health_status_vals_def by (intro fits_all_appendI nis_fits)
qed

section \<open>Heartbeat, error and safe stop\<close>

definition encode_heartbeat :: "heartbeat_payload \<Rightarrow> bytes result" where
  "encode_heartbeat p =
     bindR (uint_guard (PInt (hb_uptime_ms p)) 32) (\<lambda>uptime.
     bindR (uint_guard (PInt (hb_monotonic_ms p)) 32) (\<lambda>monotonic.
     bindR (enum_value RuntimeState_of (PInt (RuntimeState_value (hb_runtime_state p)))) (\<lambda>state.
     pack HEARTBEAT_fmt [SInt uptime, SInt monotonic, SInt state])))"

definition heartbeat_ok :: "heartbeat_payload \<Rightarrow> bool" where
  "heartbeat_ok p \<longleftrightarrow> u32 (hb_uptime_ms p) \<and> u32 (hb_monotonic_ms p)"

definition heartbeat_vals :: "heartbeat_payload \<Rightarrow> sval list" where
  "heartbeat_vals p = [SInt (hb_uptime_ms p), SInt (hb_monotonic_ms p),
     SInt (RuntimeState_value (hb_runtime_state p))]"

lemma encode_heartbeat:
  "encode_heartbeat p =
     (if heartbeat_ok p then pack HEARTBEAT_fmt (heartbeat_vals p) else Inl INVALID)"
  unfolding encode_heartbeat_def RuntimeState.bindR_enum guard_chain
  by (auto simp: heartbeat_ok_def heartbeat_vals_def u32_def)

lemma heartbeat_fits: "heartbeat_ok p \<Longrightarrow> fits_all HEARTBEAT_fmt (heartbeat_vals p)"
  using RuntimeState.val_range [of "hb_runtime_state p"]
  by (simp add: HEARTBEAT_fmt_def heartbeat_vals_def heartbeat_ok_def u32_def)

definition encode_error :: "error_payload \<Rightarrow> bytes result" where
  "encode_error p =
     bindR (enum_value ApplicationErrorCode_of (PInt (ApplicationErrorCode_value (er_code p)))) (\<lambda>code.
     bindR (uint_guard (PInt (er_detail p)) 16) (\<lambda>detail.
     bindR (uint_guard (PInt (er_related_sequence p)) 32) (\<lambda>related.
     bindR (uint_guard (PInt (er_context p)) 32) (\<lambda>ctxt.
     pack ERROR_fmt [SInt code, SInt detail, SInt related, SInt ctxt]))))"

definition error_ok :: "error_payload \<Rightarrow> bool" where
  "error_ok p \<longleftrightarrow> u16 (er_detail p) \<and> u32 (er_related_sequence p) \<and> u32 (er_context p)"

definition error_vals :: "error_payload \<Rightarrow> sval list" where
  "error_vals p = [SInt (ApplicationErrorCode_value (er_code p)), SInt (er_detail p),
     SInt (er_related_sequence p), SInt (er_context p)]"

lemma encode_error:
  "encode_error p = (if error_ok p then pack ERROR_fmt (error_vals p) else Inl INVALID)"
  unfolding encode_error_def ApplicationErrorCode.bindR_enum guard_chain
  by (auto simp: error_ok_def error_vals_def u16_def u32_def)

lemma error_fits: "error_ok p \<Longrightarrow> fits_all ERROR_fmt (error_vals p)"
  using ApplicationErrorCode.val_range [of "er_code p"]
  by (simp add: ERROR_fmt_def error_vals_def error_ok_def u16_def u32_def)

definition encode_safe_stop :: "safe_stop_payload \<Rightarrow> bytes result" where
  "encode_safe_stop p =
     bindR (enum_value SafeStopReason_of (PInt (SafeStopReason_value (ss_reason p)))) (\<lambda>reason.
     let latch = (if ss_latch p then 1 else 0) in
     bindR (uint_guard (PInt (ss_detail p)) 16) (\<lambda>detail.
     pack SAFE_STOP_fmt [SInt reason, SInt latch, SInt detail]))"

definition safe_stop_ok :: "safe_stop_payload \<Rightarrow> bool" where
  "safe_stop_ok p \<longleftrightarrow> u16 (ss_detail p)"

definition safe_stop_vals :: "safe_stop_payload \<Rightarrow> sval list" where
  "safe_stop_vals p = [SInt (SafeStopReason_value (ss_reason p)),
     SInt (if ss_latch p then 1 else 0), SInt (ss_detail p)]"

lemma encode_safe_stop:
  "encode_safe_stop p =
     (if safe_stop_ok p then pack SAFE_STOP_fmt (safe_stop_vals p) else Inl INVALID)"
  unfolding encode_safe_stop_def SafeStopReason.bindR_enum Let_def guard_chain
  by (auto simp: safe_stop_ok_def safe_stop_vals_def u16_def)

lemma safe_stop_fits: "safe_stop_ok p \<Longrightarrow> fits_all SAFE_STOP_fmt (safe_stop_vals p)"
  using SafeStopReason.val_range [of "ss_reason p"]
  by (simp add: SAFE_STOP_fmt_def safe_stop_vals_def safe_stop_ok_def u16_def)

section \<open>The dispatch\<close>

definition encode_typed_payload :: "message_type \<Rightarrow> typed_payload \<Rightarrow> bytes result" where
  "encode_typed_payload mt p =
     bindR (message_type_guard (PInt (MessageType_value mt))) (\<lambda>mt.
     case (mt, p) of
       (MT_HELLO, P_Hello x) \<Rightarrow> encode_hello x
     | (MT_HELLO_ACK, P_HelloAck x) \<Rightarrow> encode_hello_ack x
     | (MT_SENSOR_FRAME, P_SensorFrame x) \<Rightarrow> encode_sensor_frame x
     | (MT_ROUTE_CHUNK, P_RouteChunk x) \<Rightarrow> encode_route_chunk x
     | (MT_CONTROL_COMMAND, P_ControlCommand x) \<Rightarrow> encode_control_command x
     | (MT_STATE_ESTIMATE, P_StateEstimate x) \<Rightarrow> encode_state_estimate x
     | (MT_HEALTH_STATUS, P_HealthStatus x) \<Rightarrow> encode_health_status x
     | (MT_HEARTBEAT, P_Heartbeat x) \<Rightarrow> encode_heartbeat x
     | (MT_ERROR, P_Error x) \<Rightarrow> encode_error x
     | (MT_SAFE_STOP, P_SafeStop x) \<Rightarrow> encode_safe_stop x
     | _ \<Rightarrow> Inl INVALID)"

fun payload_type :: "typed_payload \<Rightarrow> message_type" where
  "payload_type (P_Hello x) = MT_HELLO"
| "payload_type (P_HelloAck x) = MT_HELLO_ACK"
| "payload_type (P_SensorFrame x) = MT_SENSOR_FRAME"
| "payload_type (P_RouteChunk x) = MT_ROUTE_CHUNK"
| "payload_type (P_ControlCommand x) = MT_CONTROL_COMMAND"
| "payload_type (P_StateEstimate x) = MT_STATE_ESTIMATE"
| "payload_type (P_HealthStatus x) = MT_HEALTH_STATUS"
| "payload_type (P_Heartbeat x) = MT_HEARTBEAT"
| "payload_type (P_Error x) = MT_ERROR"
| "payload_type (P_SafeStop x) = MT_SAFE_STOP"

fun payload_ok :: "typed_payload \<Rightarrow> bool" where
  "payload_ok (P_Hello x) = hello_ok x"
| "payload_ok (P_HelloAck x) = hello_ack_ok x"
| "payload_ok (P_SensorFrame x) = sensor_frame_ok x"
| "payload_ok (P_RouteChunk x) = route_chunk_ok x"
| "payload_ok (P_ControlCommand x) = control_command_ok x"
| "payload_ok (P_StateEstimate x) = state_estimate_ok x"
| "payload_ok (P_HealthStatus x) = health_status_ok x"
| "payload_ok (P_Heartbeat x) = heartbeat_ok x"
| "payload_ok (P_Error x) = error_ok x"
| "payload_ok (P_SafeStop x) = safe_stop_ok x"

fun payload_fmt :: "typed_payload \<Rightarrow> fcode list" where
  "payload_fmt (P_Hello x) = HELLO_fmt"
| "payload_fmt (P_HelloAck x) = HELLO_ACK_fmt"
| "payload_fmt (P_SensorFrame x) = SENSOR_FRAME_fmt"
| "payload_fmt (P_RouteChunk x) = ROUTE_CHUNK_fmt (length (rc_points x))"
| "payload_fmt (P_ControlCommand x) = CONTROL_COMMAND_fmt"
| "payload_fmt (P_StateEstimate x) = STATE_ESTIMATE_fmt"
| "payload_fmt (P_HealthStatus x) = HEALTH_STATUS_fmt"
| "payload_fmt (P_Heartbeat x) = HEARTBEAT_fmt"
| "payload_fmt (P_Error x) = ERROR_fmt"
| "payload_fmt (P_SafeStop x) = SAFE_STOP_fmt"

fun payload_vals :: "typed_payload \<Rightarrow> sval list" where
  "payload_vals (P_Hello x) = hello_vals x"
| "payload_vals (P_HelloAck x) = hello_ack_vals x"
| "payload_vals (P_SensorFrame x) = sensor_frame_vals x"
| "payload_vals (P_RouteChunk x) = route_chunk_vals x"
| "payload_vals (P_ControlCommand x) = control_command_vals x"
| "payload_vals (P_StateEstimate x) = state_estimate_vals x"
| "payload_vals (P_HealthStatus x) = health_status_vals x"
| "payload_vals (P_Heartbeat x) = heartbeat_vals x"
| "payload_vals (P_Error x) = error_vals x"
| "payload_vals (P_SafeStop x) = safe_stop_vals x"

lemmas encode_messages = encode_hello encode_hello_ack encode_sensor_frame encode_route_chunk
  encode_control_command encode_state_estimate encode_health_status encode_heartbeat encode_error
  encode_safe_stop

lemma payload_fits: "payload_ok p \<Longrightarrow> fits_all (payload_fmt p) (payload_vals p)"
  by (cases p) (simp_all add: hello_fits hello_ack_fits sensor_frame_fits route_chunk_fits
      control_command_fits state_estimate_fits health_status_fits heartbeat_fits error_fits
      safe_stop_fits)

lemma encode_typed:
  "encode_typed_payload mt p =
     (if payload_type p = mt \<and> payload_ok p then pack (payload_fmt p) (payload_vals p)
      else Inl INVALID)"
  unfolding encode_typed_payload_def message_type_guard_member bindR_Inr
  by (cases p; cases mt) (simp_all add: encode_messages)

lemma encode_typed_Inr:
  "encode_typed_payload mt p = Inr d \<Longrightarrow> payload_type p = mt \<and> payload_ok p
     \<and> length d = struct_size (payload_fmt p)
     \<and> unpack_fields (payload_fmt p) d = map round_sval (payload_vals p)"
  using pack_fits [OF payload_fits [of p]] by (auto simp: encode_typed split: if_splits)

lemma encode_typed_ok: "payload_ok p \<Longrightarrow> \<exists>d. encode_typed_payload (payload_type p) p = Inr d"
  using pack_fits [OF payload_fits [of p]] by (auto simp: encode_typed)

lemma encode_typed_Inl: "encode_typed_payload mt p = Inl e \<Longrightarrow> e = INVALID"
  using pack_fits [OF payload_fits [of p]] by (auto simp: encode_typed split: if_splits)

text \<open>Every payload fits in a packet.\<close>

lemma payload_size: "payload_ok p \<Longrightarrow> struct_size (payload_fmt p) \<le> 128"
proof (cases p)
  case (P_RouteChunk x)
  moreover assume "payload_ok p"
  moreover have "struct_size (concat (replicate n ROUTE_POINT_fmt)) = 16 * n" for n
    by (induction n) (simp_all add: ROUTE_POINT_fmt_def)
  ultimately show ?thesis
    by (simp add: ROUTE_CHUNK_fmt_def ROUTE_PREFIX_fmt_def route_chunk_ok_def route_head_ok_def)
qed (simp_all add: SENSOR_FRAME_fmt_def health_fmt_blocks fmt_defs numeral_eq_Suc)

end
