(* ===== verification/Payload_Decode.thy ===== *)
theory Payload_Decode
  imports Payload_Encode
begin

text \<open>
  \<^verbatim>\<open>decode_typed_payload\<close> of \<^verbatim>\<open>protocol.py\<close>, one definition per message. Each lemma
  \<^verbatim>\<open>decode_<message>\<close> says that the decoder returns a payload exactly when the data have the
  format's size and unpack to that payload's values; the re-encoding at the end of the source
  then adds that the payload is legal. From this follow, for every message, that decoding an
  encoded payload gives the payload with its floats rounded to binary32, and, for every message
  but the heartbeat, that the data are the only encoding of what they decode to.
\<close>

section \<open>One decoder per message\<close>

definition require_payload_size :: "bytes \<Rightarrow> nat \<Rightarrow> unit result" where
  "require_payload_size data expected =
     guardR (length data \<noteq> expected) (ProtocolError PAYLOAD_LENGTH_MISMATCH)"

definition decode_hello :: "bytes \<Rightarrow> hello_payload result" where
  "decode_hello data =
     bindR (require_payload_size data (struct_size HELLO_fmt)) (\<lambda>_.
     bindR (unpack HELLO_fmt data) (\<lambda>vs.
     let role = ival (vs ! 0); minimum = ival (vs ! 1); maximum = ival (vs ! 2);
         reserved = ival (vs ! 3); capabilities = ival (vs ! 4); limit = ival (vs ! 5);
         timeout = ival (vs ! 6) in
     bindR (guardR (reserved \<noteq> 0) INVALID) (\<lambda>_.
     bindR (decode_enum EndpointRole_of role) (\<lambda>r.
     Inr \<lparr>hello_role = r, hello_min_version = minimum, hello_max_version = maximum,
          hello_capabilities = capabilities, hello_max_payload = limit,
          hello_heartbeat_timeout_ms = timeout\<rparr>))))"

definition decode_hello_ack :: "bytes \<Rightarrow> hello_ack_payload result" where
  "decode_hello_ack data =
     bindR (require_payload_size data (struct_size HELLO_ACK_fmt)) (\<lambda>_.
     bindR (unpack HELLO_ACK_fmt data) (\<lambda>vs.
     let accepted = ival (vs ! 0); status = ival (vs ! 1); role = ival (vs ! 2);
         reserved = ival (vs ! 3); capabilities = ival (vs ! 4); limit = ival (vs ! 5);
         timeout = ival (vs ! 6) in
     bindR (guardR (reserved \<noteq> 0) INVALID) (\<lambda>_.
     bindR (decode_enum HelloStatus_of status) (\<lambda>s.
     bindR (decode_enum EndpointRole_of role) (\<lambda>r.
     Inr \<lparr>ack_accepted_version = accepted, ack_status = s, ack_role = r,
          ack_capabilities = capabilities, ack_max_payload = limit,
          ack_heartbeat_timeout_ms = timeout\<rparr>)))))"

definition decode_sensor_frame :: "bytes \<Rightarrow> sensor_frame_payload result" where
  "decode_sensor_frame data =
     (let expected = struct_size SENSOR_PREFIX_fmt + struct_size IMU_SAMPLE_fmt
        + struct_size WHEEL_SAMPLE_fmt + struct_size GNSS_SAMPLE_fmt
        + struct_size LANDMARK_SAMPLE_fmt in
     bindR (require_payload_size data expected) (\<lambda>_.
     let offset0 = 0 in
     bindR (unpack_from SENSOR_PREFIX_fmt data offset0) (\<lambda>ps.
     let offset1 = offset0 + struct_size SENSOR_PREFIX_fmt in
     bindR (unpack_from IMU_SAMPLE_fmt data offset1) (\<lambda>is.
     let offset2 = offset1 + struct_size IMU_SAMPLE_fmt in
     bindR (unpack_from WHEEL_SAMPLE_fmt data offset2) (\<lambda>ws.
     let offset3 = offset2 + struct_size WHEEL_SAMPLE_fmt in
     bindR (unpack_from GNSS_SAMPLE_fmt data offset3) (\<lambda>gs.
     let offset4 = offset3 + struct_size GNSS_SAMPLE_fmt in
     bindR (unpack_from LANDMARK_SAMPLE_fmt data offset4) (\<lambda>ls.
     bindR (guardR (ival (ls ! 3) \<noteq> 0) INVALID) (\<lambda>_.
     Inr \<lparr>sf_present_mask = ival (ps ! 0), sf_fault_mask = ival (ps ! 1),
          sf_imu = \<lparr>imu_sample_step_id = ival (is ! 0), imu_timestamp_us = ival (is ! 1),
             imu_longitudinal_acceleration_mps2 = fval (is ! 2), imu_yaw_rate_rps = fval (is ! 3)\<rparr>,
          sf_wheel_speed = \<lparr>wheel_sample_step_id = ival (ws ! 0), wheel_timestamp_us = ival (ws ! 1),
             wheel_speed_mps = fval (ws ! 2)\<rparr>,
          sf_gnss = \<lparr>gnss_sample_step_id = ival (gs ! 0), gnss_timestamp_us = ival (gs ! 1),
             gnss_x_m = fval (gs ! 2), gnss_y_m = fval (gs ! 3)\<rparr>,
          sf_landmark = \<lparr>lm_sample_step_id = ival (ls ! 0), lm_timestamp_us = ival (ls ! 1),
             lm_landmark_id = ival (ls ! 2), lm_landmark_x_m = fval (ls ! 4),
             lm_landmark_y_m = fval (ls ! 5), lm_range_m = fval (ls ! 6),
             lm_bearing_rad = fval (ls ! 7)\<rparr>\<rparr>))))))))"

definition waypoint_of :: "sval list \<Rightarrow> route_waypoint" where
  "waypoint_of vs = \<lparr>wp_x_m = fval (vs ! 0), wp_y_m = fval (vs ! 1),
     wp_target_speed_mps = fval (vs ! 2), wp_acceptance_radius_m = fval (vs ! 3)\<rparr>"

definition decode_route_chunk :: "bytes \<Rightarrow> route_chunk_payload result" where
  "decode_route_chunk data =
     bindR (guardR (length data < struct_size ROUTE_PREFIX_fmt) (ProtocolError PAYLOAD_LENGTH_MISMATCH)) (\<lambda>_.
     bindR (unpack_from ROUTE_PREFIX_fmt data 0) (\<lambda>vs.
     let route_id = ival (vs ! 0); start = ival (vs ! 1); total_count = ival (vs ! 2);
         count = ival (vs ! 3); flags = ival (vs ! 4) in
     bindR (guardR (int MAX_ROUTE_POINTS_PER_CHUNK < count) INVALID) (\<lambda>_.
     let expected = struct_size ROUTE_PREFIX_fmt + nat count * struct_size ROUTE_POINT_fmt in
     bindR (require_payload_size data expected) (\<lambda>_.
     bindR (sequenceR (map (\<lambda>index.
              unpack_from ROUTE_POINT_fmt data
                (struct_size ROUTE_PREFIX_fmt + index * struct_size ROUTE_POINT_fmt))
            [0..<nat count])) (\<lambda>points.
     Inr \<lparr>rc_route_id = route_id, rc_start_index = start, rc_total_count = total_count,
          rc_flags = flags, rc_points = map waypoint_of points\<rparr>)))))"

definition decode_control_command :: "bytes \<Rightarrow> control_command_payload result" where
  "decode_control_command data =
     bindR (require_payload_size data (struct_size CONTROL_COMMAND_fmt)) (\<lambda>_.
     bindR (unpack CONTROL_COMMAND_fmt data) (\<lambda>vs.
     let steering = fval (vs ! 0); acceleration = fval (vs ! 1); target_speed = fval (vs ! 2);
         mode = ival (vs ! 3); flags = ival (vs ! 4); reserved = ival (vs ! 5) in
     bindR (guardR (reserved \<noteq> 0) INVALID) (\<lambda>_.
     bindR (decode_enum ControlMode_of mode) (\<lambda>m.
     Inr \<lparr>cc_steering_rad = steering, cc_acceleration_mps2 = acceleration,
          cc_target_speed_mps = target_speed, cc_mode = m, cc_flags = flags\<rparr>))))"

definition decode_state_estimate :: "bytes \<Rightarrow> state_estimate_payload result" where
  "decode_state_estimate data =
     bindR (require_payload_size data (struct_size STATE_ESTIMATE_fmt)) (\<lambda>_.
     bindR (unpack STATE_ESTIMATE_fmt data) (\<lambda>values.
     bindR (guardR (ival (values ! 14) \<noteq> 0) INVALID) (\<lambda>_.
     bindR (decode_enum NavigationMode_of (ival (values ! 12))) (\<lambda>mode.
     Inr \<lparr>se_x_m = fval (values ! 0), se_y_m = fval (values ! 1), se_heading_rad = fval (values ! 2),
          se_speed_mps = fval (values ! 3), se_yaw_rate_rps = fval (values ! 4),
          se_acceleration_bias_mps2 = fval (values ! 5),
          se_covariance_diagonal = map fval (take 6 (drop 6 values)),
          se_navigation_mode = mode, se_flags = ival (values ! 13)\<rparr>))))"

definition nis_of :: "sval list \<Rightarrow> nis_summary" where
  "nis_of vs = \<lparr>nis_evaluated_count = ival (vs ! 0), nis_gate_rejected_count = ival (vs ! 1),
     nis_sum = fval (vs ! 2), nis_max = fval (vs ! 3)\<rparr>"

definition decode_health_status :: "bytes \<Rightarrow> health_status_payload result" where
  "decode_health_status data =
     bindR (require_payload_size data (struct_size HEALTH_STATUS_fmt)) (\<lambda>_.
     bindR (unpack HEALTH_STATUS_fmt data) (\<lambda>values.
     bindR (decode_enum RuntimeState_of (ival (values ! 0))) (\<lambda>state.
     bindR (decode_enum NavigationMode_of (ival (values ! 1))) (\<lambda>mode.
     Inr \<lparr>hs_runtime_state = state, hs_navigation_mode = mode, hs_flags = ival (values ! 2),
          hs_counters = \<lparr>hc_uptime_ms = ival (values ! 3), hc_last_sensor_age_ms = ival (values ! 4),
            hc_rx_frames = ival (values ! 5), hc_rx_crc_errors = ival (values ! 6),
            hc_rx_decode_errors = ival (values ! 7), hc_rx_missing = ival (values ! 8),
            hc_rx_duplicates = ival (values ! 9), hc_rx_out_of_order = ival (values ! 10),
            hc_rx_stale = ival (values ! 11), hc_queue_overflows = ival (values ! 12),
            hc_scheduler_overruns = ival (values ! 13), hc_max_loop_us = ival (values ! 14)\<rparr>,
          hs_imu_yaw_nis = nis_of (drop 15 values), hs_wheel_nis = nis_of (drop 19 values),
          hs_gnss_nis = nis_of (drop 23 values), hs_landmark_nis = nis_of (drop 27 values)\<rparr>))))"

definition decode_heartbeat :: "bytes \<Rightarrow> heartbeat_payload result" where
  "decode_heartbeat data =
     bindR (require_payload_size data (struct_size HEARTBEAT_fmt)) (\<lambda>_.
     bindR (unpack HEARTBEAT_fmt data) (\<lambda>vs.
     bindR (decode_enum RuntimeState_of (ival (vs ! 2))) (\<lambda>state.
     Inr \<lparr>hb_uptime_ms = ival (vs ! 0), hb_monotonic_ms = ival (vs ! 1),
          hb_runtime_state = state\<rparr>)))"

definition decode_error :: "bytes \<Rightarrow> error_payload result" where
  "decode_error data =
     bindR (require_payload_size data (struct_size ERROR_fmt)) (\<lambda>_.
     bindR (unpack ERROR_fmt data) (\<lambda>vs.
     bindR (decode_enum ApplicationErrorCode_of (ival (vs ! 0))) (\<lambda>code.
     Inr \<lparr>er_code = code, er_detail = ival (vs ! 1), er_related_sequence = ival (vs ! 2),
          er_context = ival (vs ! 3)\<rparr>)))"

definition decode_safe_stop :: "bytes \<Rightarrow> safe_stop_payload result" where
  "decode_safe_stop data =
     bindR (require_payload_size data (struct_size SAFE_STOP_fmt)) (\<lambda>_.
     bindR (unpack SAFE_STOP_fmt data) (\<lambda>vs.
     let reason = ival (vs ! 0); latch = ival (vs ! 1); detail = ival (vs ! 2) in
     bindR (guardR (1 < latch) INVALID) (\<lambda>_.
     bindR (decode_enum SafeStopReason_of reason) (\<lambda>r.
     Inr \<lparr>ss_reason = r, ss_latch = (latch \<noteq> 0), ss_detail = detail\<rparr>))))"

section \<open>What each decoder accepts\<close>

lemma bindR_guard_Inr: "bindR (guardR b e) f = Inr q \<longleftrightarrow> \<not> b \<and> f () = Inr q"
  by (simp add: guardR_def)

lemma bindR_unpack_Inr:
  "bindR (unpack f d) g = Inr q \<longleftrightarrow> length d = struct_size f \<and> g (unpack_fields f d) = Inr q"
  by (auto simp: unpack_def)

lemmas decode_unfold = require_payload_size_def bindR_guard_Inr bindR_unpack_Inr Let_def

lemma decode_hello:
  "decode_hello d = Inr p \<longleftrightarrow> length d = struct_size HELLO_fmt \<and> unpack_fields HELLO_fmt d = hello_vals p"
  unfolding decode_hello_def decode_unfold EndpointRole.bindR_decode_enum
  by (cases p) (auto simp: HELLO_fmt_def hello_vals_def)

lemma decode_hello_ack:
  "decode_hello_ack d = Inr p \<longleftrightarrow>
     length d = struct_size HELLO_ACK_fmt \<and> unpack_fields HELLO_ACK_fmt d = hello_ack_vals p"
  unfolding decode_hello_ack_def decode_unfold EndpointRole.bindR_decode_enum
    HelloStatus.bindR_decode_enum
  by (cases p) (auto simp: HELLO_ACK_fmt_def hello_ack_vals_def)

lemma decode_control_command:
  "decode_control_command d = Inr p \<longleftrightarrow>
     length d = struct_size CONTROL_COMMAND_fmt
     \<and> unpack_fields CONTROL_COMMAND_fmt d = control_command_vals p"
  unfolding decode_control_command_def decode_unfold ControlMode.bindR_decode_enum
  by (cases p) (auto simp: CONTROL_COMMAND_fmt_def control_command_vals_def)

lemma decode_heartbeat:
  "decode_heartbeat d = Inr p \<longleftrightarrow>
     length d = struct_size HEARTBEAT_fmt \<and> unpack_fields HEARTBEAT_fmt d = heartbeat_vals p"
  unfolding decode_heartbeat_def decode_unfold RuntimeState.bindR_decode_enum
  by (cases p) (auto simp: HEARTBEAT_fmt_def heartbeat_vals_def)

lemma decode_error:
  "decode_error d = Inr p \<longleftrightarrow>
     length d = struct_size ERROR_fmt \<and> unpack_fields ERROR_fmt d = error_vals p"
  unfolding decode_error_def decode_unfold ApplicationErrorCode.bindR_decode_enum
  by (cases p) (auto simp: ERROR_fmt_def error_vals_def)

lemma decode_safe_stop:
  "decode_safe_stop d = Inr p \<longleftrightarrow>
     length d = struct_size SAFE_STOP_fmt \<and> unpack_fields SAFE_STOP_fmt d = safe_stop_vals p"
  unfolding decode_safe_stop_def decode_unfold SafeStopReason.bindR_decode_enum
  by (cases p) (auto simp: SAFE_STOP_fmt_def safe_stop_vals_def)

lemma fval_SFlt [simp]: "map (fval \<circ> SFlt) xs = xs"
  by (induction xs) auto

lemma state_fmt_list:
  "STATE_ESTIMATE_fmt = [FF, FF, FF, FF, FF, FF, FF, FF, FF, FF, FF, FF, FB, FB, FH]"
  by (simp add: STATE_ESTIMATE_fmt_def numeral_eq_Suc)

lemma decode_state_estimate:
  "decode_state_estimate d = Inr p \<longleftrightarrow>
     length d = struct_size STATE_ESTIMATE_fmt
     \<and> unpack_fields STATE_ESTIMATE_fmt d = state_estimate_vals p"
  (is "?L \<longleftrightarrow> ?R")
proof
  assume ?L
  then show ?R
    unfolding decode_state_estimate_def decode_unfold NavigationMode.bindR_decode_enum
    by (auto simp: state_fmt_list state_estimate_vals_def state_floats_def)
next
  assume r: ?R
  then have "length (unpack_fields STATE_ESTIMATE_fmt d) = length (state_estimate_vals p)" by simp
  then have "length (se_covariance_diagonal p) = 6"
    by (simp add: state_fmt_list state_estimate_vals_def state_floats_def)
  with r show ?L
    unfolding decode_state_estimate_def decode_unfold NavigationMode.bindR_decode_enum
    by (cases p) (auto simp: state_estimate_vals_def state_floats_def nth_append)
qed

lemma health_fmt_list:
  "HEALTH_STATUS_fmt = [FB, FB, FH, FI, FI, FI, FI, FI, FI, FI, FI, FI, FI, FI, FI,
     FI, FI, FF, FF, FI, FI, FF, FF, FI, FI, FF, FF, FI, FI, FF, FF]"
  by (simp add: health_fmt_blocks numeral_eq_Suc)

lemma health_status_vals_list:
  "health_status_vals \<lparr>hs_runtime_state = rs, hs_navigation_mode = nm, hs_flags = fl,
      hs_counters = \<lparr>hc_uptime_ms = c1, hc_last_sensor_age_ms = c2, hc_rx_frames = c3,
        hc_rx_crc_errors = c4, hc_rx_decode_errors = c5, hc_rx_missing = c6, hc_rx_duplicates = c7,
        hc_rx_out_of_order = c8, hc_rx_stale = c9, hc_queue_overflows = c10,
        hc_scheduler_overruns = c11, hc_max_loop_us = c12\<rparr>,
      hs_imu_yaw_nis = \<lparr>nis_evaluated_count = i1, nis_gate_rejected_count = i2, nis_sum = i3, nis_max = i4\<rparr>,
      hs_wheel_nis = \<lparr>nis_evaluated_count = w1, nis_gate_rejected_count = w2, nis_sum = w3, nis_max = w4\<rparr>,
      hs_gnss_nis = \<lparr>nis_evaluated_count = g1, nis_gate_rejected_count = g2, nis_sum = g3, nis_max = g4\<rparr>,
      hs_landmark_nis = \<lparr>nis_evaluated_count = l1, nis_gate_rejected_count = l2, nis_sum = l3, nis_max = l4\<rparr>\<rparr>
    = [SInt (RuntimeState_value rs), SInt (NavigationMode_value nm), SInt fl, SInt c1, SInt c2,
       SInt c3, SInt c4, SInt c5, SInt c6, SInt c7, SInt c8, SInt c9, SInt c10, SInt c11, SInt c12,
       SInt i1, SInt i2, SFlt i3, SFlt i4, SInt w1, SInt w2, SFlt w3, SFlt w4,
       SInt g1, SInt g2, SFlt g3, SFlt g4, SInt l1, SInt l2, SFlt l3, SFlt l4]"
  by (simp add: health_status_vals_def nis_fields_def health_counter_list_def)

lemma unpack_health:
  obtains v0 v1 v2 c1 c2 c3 c4 c5 c6 c7 c8 c9 c10 c11 c12 i1 i2 i3 i4 w1 w2 w3 w4 g1 g2 g3 g4
    l1 l2 l3 l4
  where "unpack_fields HEALTH_STATUS_fmt d = [SInt v0, SInt v1, SInt v2, SInt c1, SInt c2,
       SInt c3, SInt c4, SInt c5, SInt c6, SInt c7, SInt c8, SInt c9, SInt c10, SInt c11, SInt c12,
       SInt i1, SInt i2, SFlt i3, SFlt i4, SInt w1, SInt w2, SFlt w3, SFlt w4,
       SInt g1, SInt g2, SFlt g3, SFlt g4, SInt l1, SInt l2, SFlt l3, SFlt l4]"
  by (simp add: health_fmt_list)

lemma decode_health_status:
  "decode_health_status d = Inr p \<longleftrightarrow>
     length d = struct_size HEALTH_STATUS_fmt
     \<and> unpack_fields HEALTH_STATUS_fmt d = health_status_vals p"
proof -
  obtain v0 v1 v2 c1 c2 c3 c4 c5 c6 c7 c8 c9 c10 c11 c12 i1 i2 i3 i4 w1 w2 w3 w4 g1 g2 g3 g4
    l1 l2 l3 l4
  where u: "unpack_fields HEALTH_STATUS_fmt d = [SInt v0, SInt v1, SInt v2, SInt c1, SInt c2,
       SInt c3, SInt c4, SInt c5, SInt c6, SInt c7, SInt c8, SInt c9, SInt c10, SInt c11, SInt c12,
       SInt i1, SInt i2, SFlt i3, SFlt i4, SInt w1, SInt w2, SFlt w3, SFlt w4,
       SInt g1, SInt g2, SFlt g3, SFlt g4, SInt l1, SInt l2, SFlt l3, SFlt l4]"
    by (rule unpack_health)
  obtain rs nm fl c i w g l where p: "p = \<lparr>hs_runtime_state = rs, hs_navigation_mode = nm,
      hs_flags = fl, hs_counters = c, hs_imu_yaw_nis = i, hs_wheel_nis = w, hs_gnss_nis = g,
      hs_landmark_nis = l\<rparr>"
    by (cases p)
  show ?thesis
    unfolding decode_health_status_def decode_unfold NavigationMode.bindR_decode_enum
      RuntimeState.bindR_decode_enum u p
    by (cases c; cases i; cases w; cases g; cases l)
      (auto simp: health_status_vals_list nis_of_def)
qed

lemma bindR_unpack_from_Inr:
  "bindR (unpack_from f d offset) g = Inr q \<longleftrightarrow>
     offset + struct_size f \<le> length d \<and> g (unpack_fields f (drop offset d)) = Inr q"
  by (simp add: unpack_from_def)

lemma decode_sensor_frame:
  "decode_sensor_frame d = Inr p \<longleftrightarrow>
     length d = struct_size SENSOR_FRAME_fmt
     \<and> unpack_fields SENSOR_FRAME_fmt d = sensor_frame_vals p"
proof -
  obtain pm fm i w g l where p: "p = \<lparr>sf_present_mask = pm, sf_fault_mask = fm, sf_imu = i,
      sf_wheel_speed = w, sf_gnss = g, sf_landmark = l\<rparr>"
    by (cases p)
  show ?thesis
    unfolding decode_sensor_frame_def decode_unfold bindR_unpack_from_Inr p
    by (cases i; cases w; cases g; cases l)
      (auto simp: SENSOR_FRAME_fmt_def fmt_defs sensor_frame_vals_def sensor_vals_defs)
qed

lemma struct_size_points [simp]: "struct_size (concat (replicate n ROUTE_POINT_fmt)) = 16 * n"
  by (induction n) (simp_all add: ROUTE_POINT_fmt_def)

lemma unpack_points:
  "unpack_fields (concat (replicate n ROUTE_POINT_fmt)) e
     = concat (map (\<lambda>i. unpack_fields ROUTE_POINT_fmt (drop (16 * i) e)) [0..<n])"
proof (induction n arbitrary: e)
  case (Suc n)
  have s: "struct_size ROUTE_POINT_fmt = 16" by (simp add: ROUTE_POINT_fmt_def)
  have "[0..<Suc n] = 0 # map Suc [0..<n]" by (simp add: map_Suc_upt upt_conv_Cons)
  then show ?case using Suc.IH [of "drop 16 e"]
    by (simp add: unpack_fields_append s comp_def add.commute del: upt_Suc)
qed simp

lemma waypoint_point [simp]: "waypoint_of (point_vals w) = w"
  by (cases w) (simp add: waypoint_of_def point_vals_def)

lemma point_waypoint: "point_vals (waypoint_of (unpack_fields ROUTE_POINT_fmt e)) = unpack_fields ROUTE_POINT_fmt e"
  by (simp add: waypoint_of_def point_vals_def ROUTE_POINT_fmt_def)

lemma unpack_points_eq:
  assumes "length ws = n"
  shows "unpack_fields (concat (replicate n ROUTE_POINT_fmt)) e = concat (map point_vals ws) \<longleftrightarrow>
    ws = map (\<lambda>i. waypoint_of (unpack_fields ROUTE_POINT_fmt (drop (16 * i) e))) [0..<n]"
proof
  assume "unpack_fields (concat (replicate n ROUTE_POINT_fmt)) e = concat (map point_vals ws)"
  then have "concat (map (\<lambda>i. unpack_fields ROUTE_POINT_fmt (drop (16 * i) e)) [0..<n])
      = concat (map point_vals ws)"
    by (simp add: unpack_points)
  then have "map (\<lambda>i. unpack_fields ROUTE_POINT_fmt (drop (16 * i) e)) [0..<n] = map point_vals ws"
    by (rule concat_injective)
      (auto simp: assms point_vals_def ROUTE_POINT_fmt_def set_zip)
  then have "map waypoint_of (map point_vals ws)
      = map waypoint_of (map (\<lambda>i. unpack_fields ROUTE_POINT_fmt (drop (16 * i) e)) [0..<n])"
    by simp
  then show "ws = map (\<lambda>i. waypoint_of (unpack_fields ROUTE_POINT_fmt (drop (16 * i) e))) [0..<n]"
    by (simp add: comp_def)
next
  assume "ws = map (\<lambda>i. waypoint_of (unpack_fields ROUTE_POINT_fmt (drop (16 * i) e))) [0..<n]"
  then show "unpack_fields (concat (replicate n ROUTE_POINT_fmt)) e = concat (map point_vals ws)"
    by (simp add: unpack_points comp_def point_waypoint)
qed

lemma decode_points:
  "length d = 8 + 16 * n \<Longrightarrow>
     sequenceR (map (\<lambda>i. unpack_from ROUTE_POINT_fmt d (8 + i * 16)) [0..<n])
       = Inr (map (\<lambda>i. unpack_fields ROUTE_POINT_fmt (drop (8 + 16 * i) d)) [0..<n])"
proof -
  assume len: "length d = 8 + 16 * n"
  have "map (\<lambda>i. unpack_from ROUTE_POINT_fmt d (8 + i * 16)) [0..<n]
      = map (\<lambda>i. Inr (unpack_fields ROUTE_POINT_fmt (drop (8 + 16 * i) d))) [0..<n]"
    using len by (intro map_cong) (auto simp: unpack_from_def ROUTE_POINT_fmt_def mult.commute)
  then show ?thesis by (simp only: sequenceR_map_Inr)
qed

lemma route_sizes [simp]: "struct_size ROUTE_PREFIX_fmt = 8" "struct_size ROUTE_POINT_fmt = 16"
  by (simp_all add: ROUTE_PREFIX_fmt_def ROUTE_POINT_fmt_def)

lemma decode_route_chunk:
  "decode_route_chunk d = Inr p \<longleftrightarrow>
     length (rc_points p) \<le> 5 \<and> length d = struct_size (ROUTE_CHUNK_fmt (length (rc_points p)))
     \<and> unpack_fields (ROUTE_CHUNK_fmt (length (rc_points p))) d = route_chunk_vals p"
proof -
  obtain a s t c f where u: "unpack_fields ROUTE_PREFIX_fmt d = [SInt a, SInt s, SInt t, SInt (int c), SInt f]"
    by (simp add: ROUTE_PREFIX_fmt_def)
  have vals: "unpack_fields (ROUTE_CHUNK_fmt n) d = route_chunk_vals p \<longleftrightarrow>
      rc_route_id p = a \<and> rc_start_index p = s \<and> rc_total_count p = t \<and> n = c \<and> rc_flags p = f
      \<and> rc_points p = map (\<lambda>i. waypoint_of (unpack_fields ROUTE_POINT_fmt (drop (8 + 16 * i) d))) [0..<n]"
    if n: "length (rc_points p) = n" for n
    using unpack_points_eq [OF n, of "drop 8 d"] n
    by (auto simp: ROUTE_CHUNK_fmt_def unpack_fields_append u route_chunk_vals_def route_prefix_vals_def
        add.commute)
  have "decode_route_chunk d = Inr p \<longleftrightarrow>
      c \<le> 5 \<and> length d = 8 + 16 * c \<and>
      p = \<lparr>rc_route_id = a, rc_start_index = s, rc_total_count = t, rc_flags = f,
        rc_points = map (\<lambda>i. waypoint_of (unpack_fields ROUTE_POINT_fmt (drop (8 + 16 * i) d))) [0..<c]\<rparr>"
    unfolding decode_route_chunk_def decode_unfold bindR_unpack_from_Inr drop_0 u
    by (auto simp: decode_points mult.commute comp_def)
  also have "\<dots> \<longleftrightarrow> length (rc_points p) \<le> 5
      \<and> length d = struct_size (ROUTE_CHUNK_fmt (length (rc_points p)))
      \<and> unpack_fields (ROUTE_CHUNK_fmt (length (rc_points p))) d = route_chunk_vals p"
    unfolding vals [OF refl] by (cases p) (auto simp: ROUTE_CHUNK_fmt_def)
  finally show ?thesis .
qed

section \<open>The dispatch\<close>

definition decode_raw_payload :: "message_type \<Rightarrow> bytes \<Rightarrow> typed_payload result" where
  "decode_raw_payload mt data =
     (case mt of
        MT_HELLO \<Rightarrow> bindR (decode_hello data) (\<lambda>x. Inr (P_Hello x))
      | MT_HELLO_ACK \<Rightarrow> bindR (decode_hello_ack data) (\<lambda>x. Inr (P_HelloAck x))
      | MT_SENSOR_FRAME \<Rightarrow> bindR (decode_sensor_frame data) (\<lambda>x. Inr (P_SensorFrame x))
      | MT_ROUTE_CHUNK \<Rightarrow> bindR (decode_route_chunk data) (\<lambda>x. Inr (P_RouteChunk x))
      | MT_CONTROL_COMMAND \<Rightarrow> bindR (decode_control_command data) (\<lambda>x. Inr (P_ControlCommand x))
      | MT_STATE_ESTIMATE \<Rightarrow> bindR (decode_state_estimate data) (\<lambda>x. Inr (P_StateEstimate x))
      | MT_HEALTH_STATUS \<Rightarrow> bindR (decode_health_status data) (\<lambda>x. Inr (P_HealthStatus x))
      | MT_HEARTBEAT \<Rightarrow> bindR (decode_heartbeat data) (\<lambda>x. Inr (P_Heartbeat x))
      | MT_ERROR \<Rightarrow> bindR (decode_error data) (\<lambda>x. Inr (P_Error x))
      | MT_SAFE_STOP \<Rightarrow> bindR (decode_safe_stop data) (\<lambda>x. Inr (P_SafeStop x)))"

text \<open>The decoder re-encodes what it read and drops the bytes: the check is the point.\<close>

definition decode_typed_payload :: "message_type \<Rightarrow> bytes \<Rightarrow> typed_payload result" where
  "decode_typed_payload mt data =
     bindR (message_type_guard (PInt (MessageType_value mt))) (\<lambda>mt.
     bindR (decode_raw_payload mt data) (\<lambda>p.
     bindR (encode_typed_payload mt p) (\<lambda>_. Inr p)))"

definition make_packet :: "message_type \<Rightarrow> int \<Rightarrow> int \<Rightarrow> typed_payload \<Rightarrow> packet result" where
  "make_packet mt seq sid p =
     bindR (message_type_guard (PInt (MessageType_value mt))) (\<lambda>t.
     bindR (encode_typed_payload mt p) (\<lambda>data.
     Inr \<lparr>message_type = t, sequence = seq, step_id = sid, payload = data\<rparr>))"

definition decode_packet_payload :: "packet \<Rightarrow> typed_payload result" where
  "decode_packet_payload pkt = decode_typed_payload (message_type pkt) (payload pkt)"

lemmas decode_messages = decode_hello decode_hello_ack decode_sensor_frame decode_route_chunk
  decode_control_command decode_state_estimate decode_health_status decode_heartbeat decode_error
  decode_safe_stop

lemma decode_raw_payload:
  "decode_raw_payload mt d = Inr q \<longleftrightarrow>
     payload_type q = mt \<and> length d = struct_size (payload_fmt q)
     \<and> unpack_fields (payload_fmt q) d = payload_vals q
     \<and> (\<forall>x. q = P_RouteChunk x \<longrightarrow> length (rc_points x) \<le> 5)"
  by (cases mt; cases q) (auto simp: decode_raw_payload_def bindR_eq_Inr decode_messages)

lemma payload_ok_route: "payload_ok q \<Longrightarrow> q = P_RouteChunk x \<Longrightarrow> length (rc_points x) \<le> 5"
  by (simp add: route_chunk_ok_def route_head_ok_def)

lemma decode_typed:
  "decode_typed_payload mt d = Inr q \<longleftrightarrow>
     payload_type q = mt \<and> payload_ok q \<and> length d = struct_size (payload_fmt q)
     \<and> unpack_fields (payload_fmt q) d = payload_vals q"
proof -
  have "decode_typed_payload mt d = Inr q \<longleftrightarrow>
      decode_raw_payload mt d = Inr q \<and> (\<exists>e. encode_typed_payload mt q = Inr e)"
    unfolding decode_typed_payload_def message_type_guard_member by (auto simp: bindR_eq_Inr)
  then show ?thesis
    unfolding decode_raw_payload
    using encode_typed_ok [of q] encode_typed_Inr [of mt q] payload_ok_route [of q] by blast
qed

section \<open>Round trips\<close>

text \<open>What a payload is on the wire: every float rounded to binary32, everything else as it is.\<close>

definition round_imu :: "imu_sample \<Rightarrow> imu_sample" where
  "round_imu s = s\<lparr>imu_longitudinal_acceleration_mps2 := to_f32 (imu_longitudinal_acceleration_mps2 s),
     imu_yaw_rate_rps := to_f32 (imu_yaw_rate_rps s)\<rparr>"

definition round_wheel :: "wheel_speed_sample \<Rightarrow> wheel_speed_sample" where
  "round_wheel s = s\<lparr>wheel_speed_mps := to_f32 (wheel_speed_mps s)\<rparr>"

definition round_gnss :: "gnss_sample \<Rightarrow> gnss_sample" where
  "round_gnss s = s\<lparr>gnss_x_m := to_f32 (gnss_x_m s), gnss_y_m := to_f32 (gnss_y_m s)\<rparr>"

definition round_landmark :: "landmark_sample \<Rightarrow> landmark_sample" where
  "round_landmark s = s\<lparr>lm_landmark_x_m := to_f32 (lm_landmark_x_m s),
     lm_landmark_y_m := to_f32 (lm_landmark_y_m s), lm_range_m := to_f32 (lm_range_m s),
     lm_bearing_rad := to_f32 (lm_bearing_rad s)\<rparr>"

definition round_waypoint :: "route_waypoint \<Rightarrow> route_waypoint" where
  "round_waypoint w = \<lparr>wp_x_m = to_f32 (wp_x_m w), wp_y_m = to_f32 (wp_y_m w),
     wp_target_speed_mps = to_f32 (wp_target_speed_mps w),
     wp_acceptance_radius_m = to_f32 (wp_acceptance_radius_m w)\<rparr>"

definition round_nis :: "nis_summary \<Rightarrow> nis_summary" where
  "round_nis s = s\<lparr>nis_sum := to_f32 (nis_sum s), nis_max := to_f32 (nis_max s)\<rparr>"

fun round_payload :: "typed_payload \<Rightarrow> typed_payload" where
  "round_payload (P_SensorFrame x) = P_SensorFrame (x\<lparr>sf_imu := round_imu (sf_imu x),
     sf_wheel_speed := round_wheel (sf_wheel_speed x), sf_gnss := round_gnss (sf_gnss x),
     sf_landmark := round_landmark (sf_landmark x)\<rparr>)"
| "round_payload (P_RouteChunk x) =
     P_RouteChunk (x\<lparr>rc_points := map round_waypoint (rc_points x)\<rparr>)"
| "round_payload (P_ControlCommand x) = P_ControlCommand (x\<lparr>
     cc_steering_rad := to_f32 (cc_steering_rad x),
     cc_acceleration_mps2 := to_f32 (cc_acceleration_mps2 x),
     cc_target_speed_mps := to_f32 (cc_target_speed_mps x)\<rparr>)"
| "round_payload (P_StateEstimate x) = P_StateEstimate (x\<lparr>
     se_x_m := to_f32 (se_x_m x), se_y_m := to_f32 (se_y_m x),
     se_heading_rad := to_f32 (se_heading_rad x), se_speed_mps := to_f32 (se_speed_mps x),
     se_yaw_rate_rps := to_f32 (se_yaw_rate_rps x),
     se_acceleration_bias_mps2 := to_f32 (se_acceleration_bias_mps2 x),
     se_covariance_diagonal := map to_f32 (se_covariance_diagonal x)\<rparr>)"
| "round_payload (P_HealthStatus x) = P_HealthStatus (x\<lparr>
     hs_imu_yaw_nis := round_nis (hs_imu_yaw_nis x), hs_wheel_nis := round_nis (hs_wheel_nis x),
     hs_gnss_nis := round_nis (hs_gnss_nis x), hs_landmark_nis := round_nis (hs_landmark_nis x)\<rparr>)"
| "round_payload p = p"

lemma round_payload_type [simp]: "payload_type (round_payload p) = payload_type p"
  by (cases p) simp_all

lemma round_payload_fmt [simp]: "payload_fmt (round_payload p) = payload_fmt p"
  by (cases p) simp_all

lemma round_nis_vals: "nis_svals (nis_fields (round_nis s)) = map round_sval (nis_svals (nis_fields s))"
  by (simp add: round_nis_def nis_fields_def)

lemma round_payload_vals: "payload_vals (round_payload p) = map round_sval (payload_vals p)"
proof (cases p)
  case (P_RouteChunk x)
  have "point_vals (round_waypoint w) = map round_sval (point_vals w)" for w
    by (simp add: round_waypoint_def point_vals_def)
  then have "concat (map point_vals (map round_waypoint ws)) = map round_sval (concat (map point_vals ws))" for ws
    by (induction ws) simp_all
  then show ?thesis using P_RouteChunk by (simp add: route_chunk_vals_def route_prefix_vals_def)
qed (simp_all add: hello_vals_def hello_ack_vals_def sensor_frame_vals_def sensor_vals_defs
  round_imu_def round_wheel_def round_gnss_def round_landmark_def control_command_vals_def
  state_estimate_vals_def state_floats_def health_status_vals_def health_counter_list_def
  round_nis_vals heartbeat_vals_def error_vals_def safe_stop_vals_def comp_def)

lemma round_nis_ok: "nis_ok s \<Longrightarrow> nis_ok (round_nis s)"
  by (auto simp: nis_ok_def round_nis_def to_f32_nonneg to_f32_zero to_f32_not_greater split: if_splits)

text \<open>Rounding keeps a payload legal: signs, zeros and the order of sum and maximum survive.\<close>

lemma round_payload_ok: "payload_ok p \<Longrightarrow> payload_ok (round_payload p)"
proof (cases p)
  case (P_StateEstimate x)
  assume "payload_ok p"
  with P_StateEstimate show ?thesis
    by (auto simp: state_estimate_ok_def state_floats_def list_all_iff to_f32_nonneg)
qed (auto simp: sensor_frame_ok_def imu_ok_def wheel_ok_def gnss_ok_def landmark_ok_def
  round_imu_def round_wheel_def round_gnss_def round_landmark_def route_chunk_ok_def
  route_head_ok_def point_ok_def round_waypoint_def list_all_iff control_command_ok_def
  health_status_ok_def round_nis_ok)

lemma decode_encode_typed:
  assumes "encode_typed_payload mt p = Inr d"
  shows "decode_typed_payload mt d = Inr (round_payload p)"
  using encode_typed_Inr [OF assms]
  by (simp add: decode_typed round_payload_vals round_payload_ok)

lemma payload_fmt_no_pad: "payload_type p \<noteq> MT_HEARTBEAT \<Longrightarrow> FX \<notin> set (payload_fmt p)"
  by (cases p) (auto simp: SENSOR_FRAME_fmt_def ROUTE_CHUNK_fmt_def fmt_defs split: if_splits)

lemma encode_decode_typed:
  assumes "decode_typed_payload mt d = Inr p" "mt \<noteq> MT_HEARTBEAT"
  shows "encode_typed_payload mt p = Inr d"
  using assms pack_unpack_fits [of d "payload_fmt p" "payload_vals p"] payload_fits [of p]
    payload_fmt_no_pad [of p]
  by (simp add: decode_typed encode_typed)

section \<open>Errors\<close>

text \<open>A payload that is refused is refused for its length or for a value in it.\<close>

abbreviation payload_errors :: "py_exn set" where
  "payload_errors \<equiv> {INVALID, ProtocolError PAYLOAD_LENGTH_MISMATCH}"

lemma errors_in_require_size [errors_intros]:
  "ProtocolError PAYLOAD_LENGTH_MISMATCH \<in> S \<Longrightarrow> errors_in S (require_payload_size d n)"
  by (simp add: require_payload_size_def errors_intros)

lemma require_size_Inr: "require_payload_size d n = Inr u \<longleftrightarrow> length d = n"
  by (simp add: require_payload_size_def)

lemmas decode_defs = decode_hello_def decode_hello_ack_def decode_sensor_frame_def
  decode_control_command_def decode_state_estimate_def decode_health_status_def
  decode_heartbeat_def decode_error_def decode_safe_stop_def

lemma decode_message_errors:
  "errors_in payload_errors (decode_hello d)"
  "errors_in payload_errors (decode_hello_ack d)"
  "errors_in payload_errors (decode_sensor_frame d)"
  "errors_in payload_errors (decode_control_command d)"
  "errors_in payload_errors (decode_state_estimate d)"
  "errors_in payload_errors (decode_health_status d)"
  "errors_in payload_errors (decode_heartbeat d)"
  "errors_in payload_errors (decode_error d)"
  "errors_in payload_errors (decode_safe_stop d)"
  unfolding decode_defs Let_def by (intro errors_intros; simp add: require_size_Inr)+

lemma decode_route_errors: "errors_in payload_errors (decode_route_chunk d)"
  unfolding decode_route_chunk_def Let_def
  by (intro errors_intros) (auto simp: require_size_Inr intro!: errors_in_unpack_from)

lemma decode_typed_errors: "errors_in payload_errors (decode_typed_payload mt d)"
proof -
  have "errors_in payload_errors (decode_raw_payload mt d)"
    unfolding decode_raw_payload_def
    by (cases mt) (simp_all add: errors_intros decode_message_errors decode_route_errors)
  moreover have "errors_in payload_errors (encode_typed_payload mt p)" for p
    using encode_typed_Inl [of mt p] by (auto simp: errors_in_def)
  ultimately show ?thesis
    unfolding decode_typed_payload_def message_type_guard_member bindR_Inr
    by (intro errors_in_bindR) (auto intro: errors_intros)
qed

section \<open>Properties\<close>

definition sample_command :: typed_payload where
  "sample_command = P_ControlCommand \<lparr>cc_steering_rad = 0x3FB999999999999A,
     cc_acceleration_mps2 = 0xBFF0000000000000, cc_target_speed_mps = 0x4000000000000000,
     cc_mode = CM_TRACKING, cc_flags = 3\<rparr>"

lemma sample_command_ok: "payload_ok sample_command" "payload_type sample_command = MT_CONTROL_COMMAND"
  by (simp_all add: sample_command_def control_command_ok_def f64_wire_def f64_mag_def flt_max_mag_def)

text \<open>a payload is encoded exactly when it belongs to the message and satisfies the
  message's legality condition (ranges, masks, non-negative covariances, consistent NIS
  summaries, route indices within the route); every other one is refused with an invalid-value
  error, and every encoded one fits in a packet.\<close>

theorem encode_typed_payload_cases:
  "if payload_type p = mt \<and> payload_ok p
   then \<exists>d. encode_typed_payload mt p = Inr d \<and> length d = struct_size (payload_fmt p)
          \<and> length d \<le> MAX_PAYLOAD_SIZE
   else encode_typed_payload mt p = Inl INVALID"
proof (cases "payload_type p = mt \<and> payload_ok p")
  case True
  then obtain d where "encode_typed_payload mt p = Inr d" using encode_typed_ok by blast
  with True encode_typed_Inr [OF this] payload_size [of p] show ?thesis by auto
next
  case False
  then show ?thesis using encode_typed [of mt p] by auto
qed

text \<open>C7: an encoded payload decodes to the payload with every float rounded to binary32 and
  nothing else changed; the rounded payload is itself legal.\<close>

theorem payload_roundtrip:
  assumes "encode_typed_payload mt p = Inr d"
  shows "decode_typed_payload mt d = Inr (round_payload p) \<and> payload_ok (round_payload p)"
  using decode_encode_typed [OF assms] encode_typed_Inr [OF assms] round_payload_ok by blast

theorem payload_roundtrip_witness:
  "\<exists>d. encode_typed_payload MT_CONTROL_COMMAND sample_command = Inr d
     \<and> decode_typed_payload MT_CONTROL_COMMAND d = Inr (round_payload sample_command)"
proof -
  obtain d where "encode_typed_payload MT_CONTROL_COMMAND sample_command = Inr d"
    using encode_typed_ok [OF sample_command_ok(1)] sample_command_ok(2) by auto
  with payload_roundtrip [OF this] show ?thesis by blast
qed

text \<open>For every message but the heartbeat, data that decode are the encoding of what they
  decode to, so a payload has one spelling.\<close>

theorem payload_canonical:
  assumes "decode_typed_payload mt d = Inr p" "mt \<noteq> MT_HEARTBEAT"
  shows "encode_typed_payload mt p = Inr d"
  using assms by (rule encode_decode_typed)

theorem payload_canonical_witness:
  "encode_typed_payload MT_SAFE_STOP (P_SafeStop \<lparr>ss_reason = SSR_MANUAL, ss_latch = True, ss_detail = 513\<rparr>)
     = Inr [1, 1, 1, 2]"
  by (rule payload_canonical)
    (simp_all add: decode_typed safe_stop_ok_def u16_def SAFE_STOP_fmt_def safe_stop_vals_def)

text \<open>the heartbeat decoder ignores its three reserved bytes: two different payloads decode
  to the same heartbeat, and the second is not what the encoder writes for it.\<close>

theorem heartbeat_reserved_ignored:
  "decode_typed_payload MT_HEARTBEAT [1, 0, 0, 0, 2, 0, 0, 0, 3, 0, 0, 0]
     = decode_typed_payload MT_HEARTBEAT [1, 0, 0, 0, 2, 0, 0, 0, 3, 7, 8, 9]
   \<and> decode_typed_payload MT_HEARTBEAT [1, 0, 0, 0, 2, 0, 0, 0, 3, 7, 8, 9]
     = Inr (P_Heartbeat \<lparr>hb_uptime_ms = 1, hb_monotonic_ms = 2, hb_runtime_state = RS_RUNNING\<rparr>)"
proof -
  have "decode_typed_payload MT_HEARTBEAT [1, 0, 0, 0, 2, 0, 0, 0, 3, 0, 0, 0]
      = Inr (P_Heartbeat \<lparr>hb_uptime_ms = 1, hb_monotonic_ms = 2, hb_runtime_state = RS_RUNNING\<rparr>)"
    "decode_typed_payload MT_HEARTBEAT [1, 0, 0, 0, 2, 0, 0, 0, 3, 7, 8, 9]
      = Inr (P_Heartbeat \<lparr>hb_uptime_ms = 1, hb_monotonic_ms = 2, hb_runtime_state = RS_RUNNING\<rparr>)"
    unfolding decode_typed
    by (simp_all add: heartbeat_ok_def u32_def HEARTBEAT_fmt_def heartbeat_vals_def)
  then show ?thesis by simp
qed

text \<open>the payload decoder returns a legal payload of the message asked for or raises a
  protocol error, for the length or for a value; it raises nothing else.\<close>

theorem decode_typed_payload_total:
  "(\<exists>p. decode_typed_payload mt d = Inr p \<and> payload_type p = mt \<and> payload_ok p)
   \<or> decode_typed_payload mt d = Inl INVALID
   \<or> decode_typed_payload mt d = Inl (ProtocolError PAYLOAD_LENGTH_MISMATCH)"
proof (cases "decode_typed_payload mt d")
  case (Inl e)
  then show ?thesis using errors_inD [OF decode_typed_errors Inl] by auto
next
  case (Inr p)
  then have "payload_type p = mt" "payload_ok p" by (simp_all add: decode_typed)
  with Inr show ?thesis by blast
qed

end
