(* ===== verification/Cobs.thy ===== *)
theory Cobs
  imports Prelude
begin

text \<open>
  The COBS framing of \<^verbatim>\<open>protocol.py\<close>: \<^verbatim>\<open>cobs_encode\<close> with its growing output, the index of
  the open code byte and the running code; \<^verbatim>\<open>cobs_decode\<close> as the index loop of the source. Both
  are related to structural reference functions, and the lemmas give the round trip, that the
  output holds no zero, its length, and that a short zero-free frame is the encoding of what it
  decodes to (so a frame has one encoding).
\<close>

section \<open>The encoder\<close>

type_synonym cobs_state = "bytes \<times> nat \<times> nat"

definition cobs_encode_step :: "cobs_state \<Rightarrow> byte \<Rightarrow> cobs_state" where
  "cobs_encode_step st value =
     (case st of (encoded, code_index, code) \<Rightarrow>
        if value = 0 then
          (encoded[code_index := of_nat code] @ [0], length encoded, 1)
        else
          let encoded' = encoded @ [value]; code' = code + 1
          in if code' = 0xFF then
               (encoded'[code_index := of_nat code'] @ [0], length encoded', 1)
             else (encoded', code_index, code'))"

definition cobs_encode :: "bytes \<Rightarrow> bytes" where
  "cobs_encode data =
     (case foldl cobs_encode_step ([0], 0, 1) data of
        (encoded, code_index, code) \<Rightarrow> encoded[code_index := of_nat code])"

section \<open>The decoder\<close>

function cobs_decode_loop :: "bytes \<Rightarrow> nat \<Rightarrow> bytes \<Rightarrow> bytes result" where
  "cobs_decode_loop data index decoded =
     (if index < length data then
        let code = unat (data ! index)
        in if code = 0 then Inl (ProtocolError COBS_MALFORMED)
           else
             let index' = index + 1; block_end = index' + code - 1
             in if length data < block_end then Inl (ProtocolError COBS_MALFORMED)
                else
                  let decoded' = decoded @ take (block_end - index') (drop index' data)
                  in cobs_decode_loop data block_end
                       (if code \<noteq> 0xFF \<and> block_end < length data then decoded' @ [0] else decoded')
      else Inr decoded)"
  by pat_completeness auto
termination
  by (relation "measure (\<lambda>(data, index, decoded). length data - index)") auto

declare cobs_decode_loop.simps [simp del]

definition cobs_decode :: "bytes \<Rightarrow> bytes result" where
  "cobs_decode data =
     (if data = [] then Inl (ProtocolError COBS_MALFORMED) else cobs_decode_loop data 0 [])"

section \<open>Reference functions\<close>

text \<open>The encoder with the open block held apart from the finished output.\<close>

fun cobs_blocks :: "bytes \<Rightarrow> bytes \<Rightarrow> bytes" where
  "cobs_blocks blk [] = of_nat (Suc (length blk)) # blk"
| "cobs_blocks blk (v # vs) =
     (if v = 0 then of_nat (Suc (length blk)) # blk @ cobs_blocks [] vs
      else if length blk = 253 then 255 # blk @ v # cobs_blocks [] vs
      else cobs_blocks (blk @ [v]) vs)"

function cobs_unblock :: "bytes \<Rightarrow> bytes option" where
  "cobs_unblock [] = Some []"
| "cobs_unblock (c # rest) =
     (if c = 0 \<or> length rest < unat c - 1 then None
      else map_option (\<lambda>d. take (unat c - 1) rest
             @ (if c \<noteq> 255 \<and> drop (unat c - 1) rest \<noteq> [] then [0] else []) @ d)
           (cobs_unblock (drop (unat c - 1) rest)))"
  by pat_completeness auto
termination by (relation "measure length") auto

lemma cobs_encode_fold:
  assumes "length blk < 254"
  shows "(case foldl cobs_encode_step (done @ 0 # blk, length done, Suc (length blk)) data of
           (encoded, code_index, code) \<Rightarrow> encoded[code_index := of_nat code])
         = done @ cobs_blocks blk data"
  using assms
proof (induction data arbitrary: "done" blk)
  case Nil
  then show ?case by simp
next
  case (Cons v vs)
  show ?case
  proof (cases "v = 0")
    case True
    then have "cobs_encode_step (done @ 0 # blk, length done, Suc (length blk)) v
        = ((done @ of_nat (Suc (length blk)) # blk) @ 0 # [],
           length (done @ of_nat (Suc (length blk)) # blk), Suc (length []))"
      by (simp add: cobs_encode_step_def)
    then show ?thesis
      using True Cons.IH [of "[]" "done @ of_nat (Suc (length blk)) # blk"] by simp
  next
    case nz: False
    show ?thesis
    proof (cases "length blk = 253")
      case True
      then have "cobs_encode_step (done @ 0 # blk, length done, Suc (length blk)) v
          = ((done @ 255 # blk @ [v]) @ 0 # [], length (done @ 255 # blk @ [v]), Suc (length []))"
        using nz by (simp add: cobs_encode_step_def Let_def)
      then show ?thesis
        using True nz Cons.IH [of "[]" "done @ 255 # blk @ [v]"] by simp
    next
      case False
      then have "cobs_encode_step (done @ 0 # blk, length done, Suc (length blk)) v
          = (done @ 0 # (blk @ [v]), length done, Suc (length (blk @ [v])))"
        using nz by (simp add: cobs_encode_step_def Let_def)
      then show ?thesis
        using False nz Cons.prems Cons.IH [of "blk @ [v]" "done"] by simp
    qed
  qed
qed

lemma cobs_encode_blocks: "cobs_encode data = cobs_blocks [] data"
  using cobs_encode_fold [of "[]" "[]" data] by (simp add: cobs_encode_def)

lemma cobs_decode_loop_unblock:
  "cobs_decode_loop data index decoded =
     (case cobs_unblock (drop index data) of
        None \<Rightarrow> Inl (ProtocolError COBS_MALFORMED) | Some d \<Rightarrow> Inr (decoded @ d))"
proof (induction data index decoded rule: cobs_decode_loop.induct)
  case (1 data index decoded)
  show ?case
  proof (cases "index < length data")
    case False
    then show ?thesis by (simp add: cobs_decode_loop.simps [of data index])
  next
    case lt: True
    define c where "c = data ! index"
    have d: "drop index data = c # drop (Suc index) data"
      using lt by (simp add: c_def Cons_nth_drop_Suc)
    show ?thesis
    proof (cases "unat c = 0 \<or> length data < Suc index + unat c - 1")
      case True
      then have "c = 0 \<or> length (drop (Suc index) data) < unat c - 1"
        using lt by (auto simp: unat_eq_zero)
      then show ?thesis
        using True lt by (auto simp: cobs_decode_loop.simps [of data index] d c_def Let_def)
    next
      case False
      have s: "drop (Suc index + unat c - 1) data = drop (unat c - 1) (drop (Suc index) data)"
        using False by (simp add: add.commute)
      have ff: "(unat c \<noteq> 0xFF) = (c \<noteq> 255)"
        by (simp add: word_unat_eq_iff)
      have ne: "(Suc index + unat c - 1 < length data)
          = (drop (unat c - 1) (drop (Suc index) data) \<noteq> [])"
        using False by auto
      have nz: "\<not> (c = 0 \<or> length (drop (Suc index) data) < unat c - 1)"
        using False lt by auto
      have "cobs_decode_loop data index decoded =
          cobs_decode_loop data (Suc index + unat c - 1)
            (if unat c \<noteq> 0xFF \<and> Suc index + unat c - 1 < length data
             then (decoded @ take (unat c - 1) (drop (Suc index) data)) @ [0]
             else decoded @ take (unat c - 1) (drop (Suc index) data))"
        using lt False by (simp add: cobs_decode_loop.simps [of data index] c_def Let_def)
      also have "\<dots> = (case cobs_unblock (drop (Suc index + unat c - 1) data) of
          None \<Rightarrow> Inl (ProtocolError COBS_MALFORMED)
        | Some e \<Rightarrow> Inr ((if unat c \<noteq> 0xFF \<and> Suc index + unat c - 1 < length data
             then (decoded @ take (unat c - 1) (drop (Suc index) data)) @ [0]
             else decoded @ take (unat c - 1) (drop (Suc index) data)) @ e))"
      proof -
        have p: "unat (data ! index) \<noteq> 0" "\<not> length data < index + 1 + unat (data ! index) - 1"
          using False by (simp_all add: c_def)
        have t: "index + 1 + unat c - 1 = Suc index + unat c - 1"
          "Suc index + unat c - 1 - (index + 1) = unat c - 1" "index + 1 = Suc index"
          using False by simp_all
        show ?thesis
          using "1.IH" [OF lt refl p(1) refl refl p(2) refl, folded c_def, unfolded t(1), unfolded t(2),
              unfolded t(3)] .
      qed
      finally show ?thesis
        unfolding d s ff ne using nz by (simp add: option.case_eq_if option.map_sel)
    qed
  qed
qed

lemma cobs_decode_unblock:
  "cobs_decode data =
     (if data = [] then Inl (ProtocolError COBS_MALFORMED)
      else case cobs_unblock data of
        None \<Rightarrow> Inl (ProtocolError COBS_MALFORMED) | Some d \<Rightarrow> Inr d)"
  by (auto simp: cobs_decode_def cobs_decode_loop_unblock split: option.splits)

section \<open>Round trip, length, zero-freeness\<close>

lemma cobs_blocks_nonempty [simp]: "cobs_blocks blk data \<noteq> []"
  by (induction blk data rule: cobs_blocks.induct) auto

lemma unat_code: "length blk < 254 \<Longrightarrow> unat (of_nat (Suc (length blk)) :: byte) = Suc (length blk)"
  by (rule unat_of_nat_byte) simp

lemma code_not_0: "length blk < 254 \<Longrightarrow> (of_nat (Suc (length blk)) :: byte) \<noteq> 0"
  using unat_code [of blk] by (metis nat.distinct(1) unat_0)

lemma code_not_255: "length blk < 254 \<Longrightarrow> (of_nat (Suc (length blk)) :: byte) \<noteq> 255"
proof
  assume l: "length blk < 254" and "(of_nat (Suc (length blk)) :: byte) = 255"
  then have "Suc (length blk) = unat (255 :: byte)" using unat_code [OF l] by simp
  with l show False by simp
qed

lemma cobs_unblock_blocks:
  "length blk < 254 \<Longrightarrow> cobs_unblock (cobs_blocks blk data) = Some (blk @ data)"
proof (induction blk data rule: cobs_blocks.induct)
  case (1 blk)
  then show ?case using unat_code [OF 1] code_not_0 [OF 1] by simp
next
  case (2 blk v vs)
  show ?case
  proof (cases "v = 0")
    case True
    with 2 show ?thesis
      using unat_code [OF "2.prems"] code_not_0 [OF "2.prems"] code_not_255 [OF "2.prems"] by simp
  next
    case nz: False
    show ?thesis
    proof (cases "length blk = 253")
      case True
      with 2 nz show ?thesis by simp
    next
      case False
      with 2 nz show ?thesis by simp
    qed
  qed
qed

theorem cobs_decode_encode: "cobs_decode (cobs_encode data) = Inr data"
  by (simp add: cobs_decode_unblock cobs_encode_blocks cobs_unblock_blocks)

lemma cobs_blocks_no_zero:
  "length blk < 254 \<Longrightarrow> 0 \<notin> set blk \<Longrightarrow> 0 \<notin> set (cobs_blocks blk data)"
proof (induction blk data rule: cobs_blocks.induct)
  case (1 blk)
  then show ?case using code_not_0 [of blk] by auto
next
  case (2 blk v vs)
  then show ?case using code_not_0 [of blk] by auto
qed

theorem cobs_encode_no_zero: "0 \<notin> set (cobs_encode data)"
  by (simp add: cobs_encode_blocks cobs_blocks_no_zero)

lemma length_cobs_blocks_short:
  "length blk + length data < 254 \<Longrightarrow> length (cobs_blocks blk data) = Suc (length blk + length data)"
  by (induction blk data rule: cobs_blocks.induct) auto

text \<open>Below 254 bytes COBS adds exactly one code byte.\<close>

lemma length_cobs_encode_short:
  "length data < 254 \<Longrightarrow> length (cobs_encode data) = Suc (length data)"
  by (simp add: cobs_encode_blocks length_cobs_blocks_short)

lemma length_cobs_blocks:
  "length blk < 254 \<Longrightarrow>
     length (cobs_blocks blk data) \<le> Suc (length blk + length data) + (length blk + length data) div 254"
proof (induction blk data rule: cobs_blocks.induct)
  case (2 blk v vs)
  then show ?case
    by (cases "v = 0"; cases "length blk = 253") (auto simp: algebra_simps)
qed simp

lemma length_cobs_encode:
  "length (cobs_encode data) \<le> Suc (length data) + length data div 254"
  using length_cobs_blocks [of "[]" data] by (simp add: cobs_encode_blocks)

section \<open>A short zero-free frame has one reading\<close>

lemma cobs_blocks_zero:
  "0 \<notin> set xs \<Longrightarrow> length blk + length xs < 254 \<Longrightarrow>
     cobs_blocks blk (xs @ 0 # ys)
       = of_nat (Suc (length (blk @ xs))) # (blk @ xs) @ cobs_blocks [] ys"
  by (induction xs arbitrary: blk) auto

lemma cobs_blocks_run:
  "0 \<notin> set xs \<Longrightarrow> length blk + length xs < 254 \<Longrightarrow>
     cobs_blocks blk xs = of_nat (Suc (length (blk @ xs))) # blk @ xs"
  by (induction xs arbitrary: blk) auto

lemma cobs_blocks_unblock:
  "cobs_unblock enc = Some d \<Longrightarrow> enc \<noteq> [] \<Longrightarrow> 0 \<notin> set enc \<Longrightarrow> length enc < 255 \<Longrightarrow>
     cobs_blocks [] d = enc"
proof (induction enc arbitrary: d rule: cobs_unblock.induct)
  case (2 c rest)
  define n where "n = unat c - 1"
  have c: "c \<noteq> 0" and n: "n \<le> length rest" using 2 by (auto simp: n_def split: if_splits)
  have "0 < unat c" using c by (simp add: unat_gt_0)
  then have code: "of_nat (Suc n) = c" by (simp add: n_def)
  from n 2 have n254: "n < 254" by simp
  have nz: "0 \<notin> set (take n rest)" using "2.prems" by (auto dest: in_set_takeD)
  show ?case
  proof (cases "drop n rest = []")
    case True
    then have "d = take n rest" using 2 c n by (auto simp: n_def split: if_splits)
    with True nz n n254 code show ?thesis
      using cobs_blocks_run [of "take n rest" "[]"] by simp
  next
    case False
    have "unat c < 255" using n254 n_def by (metis less_diff_conv2 One_nat_def Suc_leI \<open>0 < unat c\<close>
        eval_nat_numeral(3) less_Suc_eq_le not_less_eq Suc_diff_1 nat_less_le Suc_mono)
    then have c255: "c \<noteq> 255" by auto
    from 2 c n False c255 obtain e where e: "cobs_unblock (drop n rest) = Some e"
      and d: "d = take n rest @ 0 # e"
      by (auto simp: n_def split: if_splits)
    have "cobs_blocks [] e = drop n rest"
    proof -
      have "0 \<notin> set (drop (unat c - Suc 0) rest)" using "2.prems" by (auto dest: in_set_dropD)
      then show ?thesis using 2 c n False e by (auto simp: n_def)
    qed
    with nz n n254 code d show ?thesis
      using cobs_blocks_zero [of "take n rest" "[]" e] by simp
  qed
qed simp

theorem cobs_encode_decode:
  assumes "cobs_decode enc = Inr d" "0 \<notin> set enc" "length enc < 255"
  shows "cobs_encode d = enc"
  using assms cobs_blocks_unblock [of enc d]
  by (auto simp: cobs_decode_unblock cobs_encode_blocks split: if_splits option.splits)

lemma cobs_decode_Inl: "cobs_decode enc = Inl e \<Longrightarrow> e = ProtocolError COBS_MALFORMED"
  by (auto simp: cobs_decode_unblock split: if_splits option.splits)

section \<open>Property\<close>

text \<open>Byte stuffing is undone by the decoder for every input, never leaves a zero byte in
  its output, and costs at most one byte in 254 (plus one).\<close>

theorem cobs_codec:
  "cobs_decode (cobs_encode data) = Inr data \<and> 0 \<notin> set (cobs_encode data)
     \<and> length (cobs_encode data) \<le> length data + 1 + length data div 254"
  using cobs_decode_encode [of data] cobs_encode_no_zero [of data] length_cobs_encode [of data] by simp

end
