(* ===== verification/Crc.thy ===== *)
theory Crc
  imports Prelude
begin

text \<open>
  \<^verbatim>\<open>crc16_ccitt\<close> of \<^verbatim>\<open>protocol.py\<close>. The register is a 16-bit word, so the source's
  \<^verbatim>\<open>& 0xFFFF\<close> is the width of the type. The lemmas are what the packet layer relies on: one
  step of the register is injective, hence two messages of equal length that differ only in
  one byte never have the same checksum, wherever that byte is.
\<close>

section \<open>The checksum\<close>

definition crc_shift :: "16 word \<Rightarrow> 16 word" where
  "crc_shift crc =
     (if crc AND 0x8000 \<noteq> 0 then push_bit 1 crc XOR 0x1021 else push_bit 1 crc)"

definition crc_byte :: "16 word \<Rightarrow> byte \<Rightarrow> 16 word" where
  "crc_byte crc value = (crc_shift ^^ 8) (crc XOR push_bit 8 (ucast value))"

definition crc16_ccitt :: "bytes \<Rightarrow> 16 word" where
  "crc16_ccitt data = foldl crc_byte 0xFFFF data"

lemma crc16_append: "crc16_ccitt (xs @ ys) = foldl crc_byte (crc16_ccitt xs) ys"
  by (simp add: crc16_ccitt_def)

section \<open>One step is injective\<close>

lemma bit_shl1: "bit (push_bit 1 (x :: 16 word)) n \<longleftrightarrow> 0 < n \<and> n < 16 \<and> bit x (n - 1)"
  unfolding bit_push_bit_iff by auto

lemma bit_top: "bit (0x8000 :: 16 word) n \<longleftrightarrow> n = 15"
proof -
  have "(0x8000 :: 16 word) = 2 ^ 15" by simp
  then show ?thesis by (simp only: bit_exp_iff) auto
qed

lemma top_bit_mask: "(x AND 0x8000 \<noteq> (0 :: 16 word)) \<longleftrightarrow> bit x 15"
proof
  assume "x AND 0x8000 \<noteq> 0"
  then obtain n where "bit (x AND 0x8000) n" by (metis bit_eqI bit_0_eq bot_apply bot_bool_def)
  then show "bit x 15" unfolding bit_and_iff bit_top by auto
next
  assume "bit x 15"
  then have "bit (x AND 0x8000) 15" by (simp only: bit_and_iff bit_top)
  then show "x AND 0x8000 \<noteq> 0" by (metis bit_0_eq bot_apply bot_bool_def)
qed

lemma crc_shift_eq: "crc_shift x = push_bit 1 x XOR (if bit x 15 then 0x1021 else 0)"
  unfolding crc_shift_def top_bit_mask by (cases "bit x 15") simp_all

lemma bit_crc_shift:
  "bit (crc_shift x) n \<longleftrightarrow> (0 < n \<and> n < 16 \<and> bit x (n - 1)) \<noteq> (bit x 15 \<and> bit (0x1021 :: 16 word) n)"
  unfolding crc_shift_eq bit_xor_iff bit_shl1 by (cases "bit x 15") simp_all

lemma bit0_crc_shift: "bit (crc_shift x) 0 \<longleftrightarrow> bit x 15"
  unfolding bit_crc_shift by (simp add: bit_0)

lemma inj_crc_shift: "inj crc_shift"
proof (rule injI)
  fix x y assume eq: "crc_shift x = crc_shift y"
  then have top: "bit x 15 = bit y 15" using bit0_crc_shift by metis
  show "x = y"
  proof (rule bit_word_eqI)
    fix n assume n: "n < LENGTH(16)"
    show "bit x n = bit y n"
    proof (cases "n = 15")
      case False
      then have "Suc n < 16" using n by simp
      moreover have "bit (crc_shift x) (Suc n) = bit (crc_shift y) (Suc n)" using eq by simp
      ultimately show ?thesis unfolding bit_crc_shift top by auto
    qed (use top in simp)
  qed
qed

definition crc_shift8 :: "16 word \<Rightarrow> 16 word" where
  "crc_shift8 = crc_shift ^^ 8"

lemma crc_byte_shift8: "crc_byte crc value = crc_shift8 (crc XOR push_bit 8 (ucast value))"
  by (simp only: crc_byte_def crc_shift8_def)

lemma crc_shift8_inject: "crc_shift8 x = crc_shift8 y \<longleftrightarrow> x = y"
  unfolding crc_shift8_def using inj_fn [OF inj_crc_shift, of 8] by (auto dest: injD)

lemma xor_right_cancel: "a XOR c = b XOR c \<longleftrightarrow> a = (b :: 16 word)"
proof
  assume "a XOR c = b XOR c"
  then have "a XOR (c XOR c) = b XOR (c XOR c)" by (simp only: xor.assoc [symmetric])
  then show "a = b" by simp
qed simp

lemma crc_byte_inj_crc: "crc_byte c v = crc_byte c' v \<Longrightarrow> c = c'"
  unfolding crc_byte_shift8 crc_shift8_inject by (rule xor_right_cancel [THEN iffD1])

lemma unat_push_8: "unat (push_bit 8 (ucast v :: 16 word)) = 256 * unat (v :: byte)"
proof -
  have v: "unat v < 256" by simp
  then have "unat v mod 65536 = unat v" by (intro mod_less) linarith
  then have "unat (ucast v :: 16 word) = unat v"
    by (simp add: unsigned_ucast_eq take_bit_eq_mod)
  moreover have "unat (push_bit 8 (ucast v :: 16 word)) = take_bit LENGTH(16) (push_bit 8 (unat (ucast v :: 16 word)))"
    by (rule unsigned_push_bit_eq)
  ultimately show ?thesis using v by (simp add: take_bit_eq_mod push_bit_eq_mult)
qed

lemma push_8_inj:
  fixes v w :: byte
  assumes "push_bit 8 (ucast v :: 16 word) = push_bit 8 (ucast w)"
  shows "v = w"
proof -
  have "256 * unat v = 256 * unat w"
    unfolding unat_push_8 [symmetric] using assms by (rule arg_cong)
  then show ?thesis by (simp add: word_unat_eq_iff)
qed

lemma xor_left_cancel: "c XOR a = c XOR b \<longleftrightarrow> a = (b :: 16 word)"
  using xor_right_cancel [of a c b] by (metis xor.commute)

lemma crc_byte_inj_value: "crc_byte c v = crc_byte c w \<Longrightarrow> v = w"
  by (rule push_8_inj) (simp only: crc_byte_shift8 crc_shift8_inject xor_left_cancel)

lemma foldl_crc_inj: "foldl crc_byte c data = foldl crc_byte c' data \<Longrightarrow> c = c'"
proof (induction data arbitrary: c c')
  case (Cons v vs)
  then have "crc_byte c v = crc_byte c' v" by (intro Cons.IH [of "crc_byte c v" "crc_byte c' v"]) simp
  then show ?case by (rule crc_byte_inj_crc)
qed simp

section \<open>Errors it detects\<close>

lemma crc_detects_one_byte:
  assumes "v \<noteq> w"
  shows "crc16_ccitt (pre @ v # post) \<noteq> crc16_ccitt (pre @ w # post)"
proof
  assume "crc16_ccitt (pre @ v # post) = crc16_ccitt (pre @ w # post)"
  then have "foldl crc_byte (crc_byte (crc16_ccitt pre) v) post
      = foldl crc_byte (crc_byte (crc16_ccitt pre) w) post"
    by (simp only: crc16_append foldl_Cons)
  then have "crc_byte (crc16_ccitt pre) v = crc_byte (crc16_ccitt pre) w"
    by (rule foldl_crc_inj)
  with assms crc_byte_inj_value show False by blast
qed

end
