(* ===== verification/Packet_Codec.thy ===== *)
theory Packet_Codec
  imports Protocol_Types Cobs Crc
begin

text \<open>
  \<^verbatim>\<open>encode_packet\<close> and \<^verbatim>\<open>decode_packet\<close> of \<^verbatim>\<open>protocol.py\<close>: header, payload and CRC,
  byte-stuffed and delimited. An encoded packet decodes to itself, a frame that decodes is the
  encoding of its packet (so the decoder accepts no second spelling of a packet), a change of
  any one byte of the raw packet is refused, and the decoder fails with protocol errors only.
\<close>

section \<open>Encoder\<close>

definition encode_packet :: "packet \<Rightarrow> bytes result" where
  "encode_packet pkt =
     bindR (message_type_guard (PInt (MessageType_value (message_type pkt)))) (\<lambda>mt.
     let payload_size = length (payload pkt) in
     bindR (guardR (MAX_PAYLOAD_SIZE < payload_size) (ProtocolError PAYLOAD_TOO_LARGE)) (\<lambda>_.
     bindR (uint_guard (PInt (sequence pkt)) 32) (\<lambda>seq.
     bindR (uint_guard (PInt (step_id pkt)) 32) (\<lambda>sid.
     bindR (pack HEADER_fmt
              [SInt PROTOCOL_VERSION, SInt (MessageType_value mt), SInt (int payload_size),
               SInt seq, SInt sid]) (\<lambda>header.
     let packet_without_crc = header @ payload pkt in
     bindR (pack CRC_fmt [SInt (uint (crc16_ccitt packet_without_crc))]) (\<lambda>crc.
     let raw_packet = packet_without_crc @ crc in
     Inr (cobs_encode raw_packet @ [0])))))))"

section \<open>Decoder\<close>

text \<open>\<^verbatim>\<open>encoded[:-1]\<close> when the frame ends with the delimiter.\<close>

definition strip_delimiter :: "bytes \<Rightarrow> bytes" where
  "strip_delimiter frame = (if frame \<noteq> [] \<and> last frame = 0 then butlast frame else frame)"

definition decode_raw :: "bytes \<Rightarrow> packet result" where
  "decode_raw raw_packet =
     bindR (guardR (length raw_packet < HEADER_SIZE + CRC_SIZE) (ProtocolError PACKET_TOO_SHORT)) (\<lambda>_.
     bindR (guardR (MAX_RAW_PACKET_SIZE < length raw_packet) (ProtocolError PAYLOAD_TOO_LARGE)) (\<lambda>_.
     let body_end = length raw_packet - CRC_SIZE;
         packet_without_crc = take body_end raw_packet in
     bindR (unpack CRC_fmt (drop body_end raw_packet)) (\<lambda>crc_fields.
     let received_crc = ival (crc_fields ! 0);
         calculated_crc = uint (crc16_ccitt packet_without_crc) in
     bindR (guardR (received_crc \<noteq> calculated_crc) (ProtocolError CRC_MISMATCH)) (\<lambda>_.
     bindR (unpack HEADER_fmt (take HEADER_SIZE raw_packet)) (\<lambda>vs.
     let version = ival (vs ! 0); type_value = ival (vs ! 1); payload_size = ival (vs ! 2);
         seq = ival (vs ! 3); sid = ival (vs ! 4) in
     bindR (guardR (version \<noteq> PROTOCOL_VERSION) (ProtocolError UNSUPPORTED_VERSION)) (\<lambda>_.
     bindR (guardR (int MAX_PAYLOAD_SIZE < payload_size) (ProtocolError PAYLOAD_TOO_LARGE)) (\<lambda>_.
     let body = drop HEADER_SIZE packet_without_crc in
     bindR (guardR (int (length body) \<noteq> payload_size) (ProtocolError PAYLOAD_LENGTH_MISMATCH)) (\<lambda>_.
     case MessageType_of type_value of
       None \<Rightarrow> Inl (ProtocolError UNKNOWN_MESSAGE_TYPE)
     | Some t \<Rightarrow>
         Inr \<lparr>message_type = t, sequence = seq, step_id = sid, payload = body\<rparr>))))))))"

definition decode_packet :: "bytes \<Rightarrow> packet result" where
  "decode_packet frame =
     (let encoded = strip_delimiter frame in
      bindR (guardR (encoded = []) (ProtocolError EMPTY_FRAME)) (\<lambda>_.
      bindR (guardR (0 \<in> set encoded) (ProtocolError UNEXPECTED_DELIMITER)) (\<lambda>_.
      bindR (guardR (MAX_ENCODED_FRAME_SIZE < length encoded) (ProtocolError OVERSIZED_FRAME)) (\<lambda>_.
      bindR (cobs_decode encoded) decode_raw))))"

section \<open>What the encoder writes\<close>

definition valid_packet :: "packet \<Rightarrow> bool" where
  "valid_packet p \<longleftrightarrow> length (payload p) \<le> 128
     \<and> 0 \<le> sequence p \<and> sequence p < 2 ^ 32 \<and> 0 \<le> step_id p \<and> step_id p < 2 ^ 32"

definition header_values :: "packet \<Rightarrow> sval list" where
  "header_values p =
     [SInt 1, SInt (MessageType_value (message_type p)), SInt (int (length (payload p))),
      SInt (sequence p), SInt (step_id p)]"

definition raw_header :: "packet \<Rightarrow> bytes" where
  "raw_header p = projr (pack HEADER_fmt (header_values p))"

definition crc_bytes :: "16 word \<Rightarrow> bytes" where
  "crc_bytes c = le_bytes 2 (unat c)"

definition raw_packet :: "packet \<Rightarrow> bytes" where
  "raw_packet p = (raw_header p @ payload p) @ crc_bytes (crc16_ccitt (raw_header p @ payload p))"

lemma header_fits: "valid_packet p \<Longrightarrow> fits_all HEADER_fmt (header_values p)"
  using MessageType.val_range [of "message_type p"]
  by (simp add: HEADER_fmt_def header_values_def valid_packet_def)

lemma raw_header:
  assumes "valid_packet p"
  shows "pack HEADER_fmt (header_values p) = Inr (raw_header p)"
    and "length (raw_header p) = 12"
    and "unpack_fields HEADER_fmt (raw_header p) = header_values p"
proof -
  obtain d where "pack HEADER_fmt (header_values p) = Inr d" "length d = struct_size HEADER_fmt"
    "unpack_fields HEADER_fmt d = map round_sval (header_values p)"
    using unpack_pack [OF header_fits [OF assms]] by blast
  moreover have "map round_sval (header_values p) = header_values p"
    by (simp add: header_values_def)
  ultimately show "pack HEADER_fmt (header_values p) = Inr (raw_header p)"
    "length (raw_header p) = 12" "unpack_fields HEADER_fmt (raw_header p) = header_values p"
    by (simp_all add: raw_header_def HEADER_fmt_def)
qed

lemma length_crc_bytes [simp]: "length (crc_bytes c) = 2"
  by (simp add: crc_bytes_def del: le_bytes.simps)

lemma unat_word16_less: "unat (c :: 16 word) < 65536"
proof -
  have "unat c < 2 ^ LENGTH(16)" by (rule unsigned_less)
  then show ?thesis by simp
qed

lemma uint_word16_unat: "uint (c :: 16 word) = int (unat c)"
  by (rule uint_nat)

lemma pack_crc: "pack CRC_fmt [SInt (uint c)] = Inr (crc_bytes (c :: 16 word))"
proof -
  have "uint c < 65536" using uint_word16_unat [of c] unat_word16_less [of c] by linarith
  moreover have "nat (uint c) = unat c" using uint_word16_unat [of c] by simp
  ultimately show ?thesis
    by (simp add: CRC_fmt_def pack_int_def crc_bytes_def del: le_bytes.simps)
qed

lemma unpack_crc:
  assumes "length b = 2"
  shows "unpack CRC_fmt b = Inr [SInt (int (le_nat b))]"
  using assms by (simp add: CRC_fmt_def unpack_def)

lemma le_nat_crc_bytes: "le_nat (crc_bytes c) = unat c"
  unfolding crc_bytes_def using unat_word16_less [of c] by (intro le_nat_le_bytes) simp

lemma le_nat_crc_iff:
  assumes "length b = 2"
  shows "le_nat b = unat c \<longleftrightarrow> b = crc_bytes c"
proof
  assume "le_nat b = unat c"
  then show "b = crc_bytes c" unfolding crc_bytes_def using le_bytes_le_nat [of b] assms by simp
qed (simp add: le_nat_crc_bytes)

lemma encode_packet_Inr:
  "encode_packet p = Inr f \<longleftrightarrow> valid_packet p \<and> f = cobs_encode (raw_packet p) @ [0]"
proof -
  note t = message_type_guard_member [of "message_type p"]
  show ?thesis
  proof (cases "valid_packet p")
    case True
    then have "uint_guard (PInt (sequence p)) 32 = Inr (sequence p)"
      "uint_guard (PInt (step_id p)) 32 = Inr (step_id p)"
      by (simp_all add: valid_packet_def)
    moreover have "pack HEADER_fmt [SInt PROTOCOL_VERSION, SInt (MessageType_value (message_type p)),
        SInt (int (length (payload p))), SInt (sequence p), SInt (step_id p)] = Inr (raw_header p)"
      using raw_header(1) [OF True] by (simp add: header_values_def PROTOCOL_VERSION_def)
    moreover have "\<not> MAX_PAYLOAD_SIZE < length (payload p)" using True by (simp add: valid_packet_def)
    ultimately show ?thesis
      using True unfolding encode_packet_def t
      by (simp only: Let_def bindR_guardR bindR_Inr if_False pack_crc raw_packet_def) auto
  next
    case False
    then show ?thesis
      unfolding encode_packet_def t
      by (auto simp: Let_def bindR_guardR valid_packet_def bindR_eq_Inr split: if_splits)
  qed
qed

lemma length_raw_packet: "valid_packet p \<Longrightarrow> length (raw_packet p) = 14 + length (payload p)"
  by (simp add: raw_packet_def raw_header)

section \<open>What the decoder accepts\<close>

lemma decode_raw_split:
  assumes "length hdr = 12" "length c = 2" "length body \<le> 128"
  shows "decode_raw (hdr @ body @ c) =
    (let vs = unpack_fields HEADER_fmt hdr in
     if c \<noteq> crc_bytes (crc16_ccitt (hdr @ body)) then Inl (ProtocolError CRC_MISMATCH)
     else if ival (vs ! 0) \<noteq> 1 then Inl (ProtocolError UNSUPPORTED_VERSION)
     else if 128 < ival (vs ! 2) then Inl (ProtocolError PAYLOAD_TOO_LARGE)
     else if ival (vs ! 2) \<noteq> int (length body) then Inl (ProtocolError PAYLOAD_LENGTH_MISMATCH)
     else case MessageType_of (ival (vs ! 1)) of
       None \<Rightarrow> Inl (ProtocolError UNKNOWN_MESSAGE_TYPE)
     | Some t \<Rightarrow> Inr \<lparr>message_type = t, sequence = ival (vs ! 3), step_id = ival (vs ! 4),
                      payload = body\<rparr>)"
proof -
  have u: "unpack HEADER_fmt hdr = Inr (unpack_fields HEADER_fmt hdr)"
    using assms by (simp add: unpack_def HEADER_fmt_def)
  have c: "int (le_nat c) = uint w \<longleftrightarrow> c = crc_bytes w" for w :: "16 word"
    unfolding uint_word16_unat of_nat_eq_iff by (rule le_nat_crc_iff [OF assms(2)])
  define raw where "raw = hdr @ body @ c"
  have cut: "drop 12 (hdr @ body) = body" "take (12 + length body) raw = hdr @ body"
    "drop (12 + length body) raw = c" "take 12 raw = hdr" "length raw = 14 + length body"
    using assms by (simp_all add: raw_def)
  show ?thesis
    unfolding raw_def [symmetric] using assms
    by (simp add: decode_raw_def Let_def bindR_guardR unpack_crc u PROTOCOL_VERSION_def c cut
        eq_commute [of "int (length body)"] del: append_assoc split: option.split)
qed

lemma raw_split:
  assumes "14 \<le> length raw" "length raw \<le> 142"
  shows "\<exists>hdr body c. length hdr = 12 \<and> length c = 2 \<and> length body \<le> 128 \<and> raw = hdr @ body @ c"
proof -
  have "take (length raw - 14) (drop 12 raw) @ drop (length raw - 2) raw = drop 12 raw"
    using assms append_take_drop_id [of "length raw - 14" "drop 12 raw"] by simp
  then have "raw = take 12 raw @ take (length raw - 14) (drop 12 raw) @ drop (length raw - 2) raw"
    by simp
  moreover have "length (take 12 raw) = 12" "length (take (length raw - 14) (drop 12 raw)) \<le> 128"
    "length (drop (length raw - 2) raw) = 2"
    using assms by simp_all
  ultimately show ?thesis by blast
qed

lemma decode_raw_Inr:
  "decode_raw raw = Inr p \<longleftrightarrow> valid_packet p \<and> raw = raw_packet p"
proof
  assume d: "decode_raw raw = Inr p"
  obtain hdr body c where l: "length hdr = 12" "length c = 2" "length body \<le> 128"
    and raw: "raw = hdr @ body @ c"
  proof -
    have "14 \<le> length raw" "length raw \<le> 142"
      using d by (auto simp: decode_raw_def bindR_guardR split: if_splits)
    then show ?thesis using that raw_split by blast
  qed
  define vs where "vs = unpack_fields HEADER_fmt hdr"
  note dd = d [unfolded raw decode_raw_split [OF l], folded vs_def, unfolded Let_def]
  from dd obtain t where
    t: "MessageType_of (ival (vs ! 1)) = Some t" and
    p: "p = \<lparr>message_type = t, sequence = ival (vs ! 3), step_id = ival (vs ! 4), payload = body\<rparr>" and
    cs: "c = crc_bytes (crc16_ccitt (hdr @ body))" "ival (vs ! 0) = 1"
      "ival (vs ! 2) = int (length body)"
    by (auto split: if_splits option.splits)
  have vs: "vs = [SInt (ival (vs ! 0)), SInt (ival (vs ! 1)), SInt (ival (vs ! 2)),
      SInt (ival (vs ! 3)), SInt (ival (vs ! 4))]"
    by (simp add: vs_def HEADER_fmt_def)
  have hv: "header_values p = vs"
    using vs cs p MessageType.val_of [OF t] by (simp add: header_values_def)
  have b: "0 \<le> ival (vs ! 3)" "0 \<le> ival (vs ! 4)" "ival (vs ! 3) < 256 ^ 4" "ival (vs ! 4) < 256 ^ 4"
    using le_nat_take_bound [of 4 "drop 4 hdr"] le_nat_take_bound [of 4 "drop 8 hdr"]
    by (simp_all add: vs_def HEADER_fmt_def del: le_nat.simps)
  then have v: "valid_packet p" using l by (simp add: valid_packet_def p)
  have "pack HEADER_fmt vs = Inr hdr"
    unfolding vs_def using l by (intro pack_unpack) (simp_all add: HEADER_fmt_def)
  then have "raw_header p = hdr" by (simp add: raw_header_def hv)
  then have "raw = raw_packet p" by (simp add: raw_packet_def raw cs p)
  with v show "valid_packet p \<and> raw = raw_packet p" by simp
next
  assume v: "valid_packet p \<and> raw = raw_packet p"
  note h = raw_header [OF conjunct1 [OF v]]
  have "decode_raw (raw_header p @ payload p @ crc_bytes (crc16_ccitt (raw_header p @ payload p))) = Inr p"
    using v h by (subst decode_raw_split) (simp_all add: valid_packet_def header_values_def MessageType.of_val)
  then show "decode_raw raw = Inr p" using v by (simp add: raw_packet_def)
qed

lemma decode_raw_Inl: "decode_raw raw = Inl e \<Longrightarrow> \<exists>c. e = ProtocolError c"
proof (cases "14 \<le> length raw \<and> length raw \<le> 142")
  case True
  then obtain hdr body c where l: "length hdr = 12" "length c = 2" "length body \<le> 128"
    and raw: "raw = hdr @ body @ c"
    using raw_split by blast
  assume "decode_raw raw = Inl e"
  then show ?thesis
    unfolding raw decode_raw_split [OF l] Let_def by (auto split: if_splits option.splits)
next
  case False
  assume "decode_raw raw = Inl e"
  with False show ?thesis by (auto simp: decode_raw_def bindR_guardR split: if_splits)
qed

lemma raw_packet_inject:
  "valid_packet p \<Longrightarrow> valid_packet q \<Longrightarrow> raw_packet p = raw_packet q \<longleftrightarrow> p = q"
  by (metis decode_raw_Inr sum.inject(2))

lemma strip_delimiter_snoc [simp]: "strip_delimiter (f @ [0]) = f"
  by (simp add: strip_delimiter_def)

lemma cobs_encode_not_Nil [simp]: "cobs_encode raw \<noteq> []"
  by (simp add: cobs_encode_blocks)

lemma strip_delimiter_id: "0 \<notin> set f \<Longrightarrow> strip_delimiter f = f"
  by (auto simp: strip_delimiter_def) (metis last_in_set)

lemma decode_packet_encoded:
  assumes "length raw < 143"
  shows "decode_packet (cobs_encode raw @ [0]) = decode_raw raw"
    and "decode_packet (cobs_encode raw) = decode_raw raw"
  using assms length_cobs_encode_short [of raw]
  by (simp_all add: decode_packet_def Let_def bindR_guardR cobs_encode_no_zero cobs_decode_encode
      strip_delimiter_id)

lemma decode_packet_Inl: "decode_packet f = Inl e \<Longrightarrow> \<exists>c. e = ProtocolError c"
  by (auto simp: decode_packet_def Let_def bindR_eq_Inl dest: cobs_decode_Inl decode_raw_Inl)

lemma decode_packet_valid: "decode_packet f = Inr p \<Longrightarrow> valid_packet p"
proof -
  assume "decode_packet f = Inr p"
  then obtain raw where "decode_raw raw = Inr p"
    by (auto simp: decode_packet_def Let_def bindR_eq_Inr)
  then show ?thesis by (simp add: decode_raw_Inr)
qed

lemma append_split: "h @ b @ c = m @ d \<Longrightarrow> length (h @ b) = length m \<Longrightarrow> h @ b = m \<and> c = d"
  using append_eq_append_conv [of "h @ b" m c d] by simp

section \<open>Properties\<close>

definition sample_packet :: packet where
  "sample_packet = \<lparr>message_type = MT_SAFE_STOP, sequence = 7, step_id = 9, payload = [1, 1, 0, 0]\<rparr>"

lemma sample_packet_encodes:
  "encode_packet sample_packet = Inr (cobs_encode (raw_packet sample_packet) @ [0])"
  by (simp add: encode_packet_Inr) (simp add: valid_packet_def sample_packet_def)

text \<open>The encoder succeeds exactly on packets whose payload has at most 128 bytes and whose
  numbers fit in 32 bits; otherwise it raises the error of the first check that fails, the
  payload's size before the numbers.\<close>

theorem encode_packet_cases:
  "encode_packet p =
     (if 128 < length (payload p) then Inl (ProtocolError PAYLOAD_TOO_LARGE)
      else if (0 \<le> sequence p \<and> sequence p < 2 ^ 32) \<and> (0 \<le> step_id p \<and> step_id p < 2 ^ 32)
        then Inr (cobs_encode (raw_packet p) @ [0])
      else Inl INVALID)"
proof (cases "valid_packet p")
  case True
  then have "encode_packet p = Inr (cobs_encode (raw_packet p) @ [0])" by (simp add: encode_packet_Inr)
  with True show ?thesis by (simp add: valid_packet_def)
next
  case False
  then show ?thesis
    unfolding encode_packet_def Let_def message_type_guard_member bindR_Inr bindR_guard bindR_uint
    by (auto simp: valid_packet_def)
qed

text \<open>C3: an encoded packet decodes to the packet, its frame has no zero but the final delimiter
  and is at most 144 bytes long.\<close>

theorem packet_roundtrip:
  assumes "encode_packet p = Inr f"
  shows "decode_packet f = Inr p \<and> f = butlast f @ [0] \<and> 0 \<notin> set (butlast f)
    \<and> length f \<le> MAX_WIRE_FRAME_SIZE"
proof -
  have v: "valid_packet p" and f: "f = cobs_encode (raw_packet p) @ [0]"
    using assms by (auto simp: encode_packet_Inr)
  have l: "length (raw_packet p) < 143" using v by (simp add: length_raw_packet valid_packet_def)
  then have "decode_packet f = Inr p"
    using decode_packet_encoded(1) [OF l] v by (simp add: f decode_raw_Inr)
  then show ?thesis using l length_cobs_encode_short [of "raw_packet p"]
    by (simp add: f cobs_encode_no_zero)
qed

theorem packet_roundtrip_witness:
  "decode_packet (cobs_encode (raw_packet sample_packet) @ [0]) = Inr sample_packet"
  using packet_roundtrip [OF sample_packet_encodes] by blast

text \<open>a frame that decodes is the encoding of the packet it decodes to, with or without its
  delimiter: no two frames decode to the same packet.\<close>

theorem packet_canonical:
  assumes "decode_packet f = Inr p"
  shows "encode_packet p = Inr (strip_delimiter f @ [0])"
proof -
  let ?e = "strip_delimiter f"
  have e: "?e \<noteq> []" "0 \<notin> set ?e" "length ?e \<le> 143" "bindR (cobs_decode ?e) decode_raw = Inr p"
    using assms by (auto simp: decode_packet_def Let_def bindR_guardR split: if_splits)
  then obtain raw where raw: "cobs_decode ?e = Inr raw" "decode_raw raw = Inr p"
    by (auto simp: bindR_eq_Inr)
  have "cobs_encode raw = ?e" using raw(1) e by (intro cobs_encode_decode) auto
  with raw(2) show ?thesis by (auto simp: decode_raw_Inr encode_packet_Inr)
qed

theorem packet_canonical_witness:
  "encode_packet sample_packet = Inr (strip_delimiter (cobs_encode (raw_packet sample_packet)) @ [0])"
proof (rule packet_canonical)
  have v: "valid_packet sample_packet" by (simp add: valid_packet_def sample_packet_def)
  then have "length (raw_packet sample_packet) < 143" by (simp add: length_raw_packet sample_packet_def)
  from decode_packet_encoded(2) [OF this] v
  show "decode_packet (cobs_encode (raw_packet sample_packet)) = Inr sample_packet"
    by (simp add: decode_raw_Inr)
qed

text \<open>C13: if any one byte of a valid raw packet (header, payload or checksum) is changed before
  it is stuffed, the decoder refuses the frame with a checksum mismatch.\<close>

theorem packet_byte_corruption:
  assumes "encode_packet p = Inr f" "i < length (raw_packet p)" "b \<noteq> raw_packet p ! i"
  shows "decode_packet (cobs_encode ((raw_packet p)[i := b]) @ [0]) = Inl (ProtocolError CRC_MISMATCH)"
proof -
  have v: "valid_packet p" using assms(1) by (simp add: encode_packet_Inr)
  note h = raw_header [OF v]
  let ?m = "raw_header p @ payload p"
  let ?raw = "(raw_packet p)[i := b]"
  have len: "length ?raw < 143" using v by (simp add: length_raw_packet valid_packet_def)
  have mlen: "length ?m = 12 + length (payload p)" using h by simp
  obtain hdr body c where l: "length hdr = 12" "length c = 2" "length body \<le> 128"
    and raw: "?raw = hdr @ body @ c"
    using raw_split [of ?raw] v by (auto simp: length_raw_packet valid_packet_def)
  have hl: "length (hdr @ body) = length ?m"
    using arg_cong [OF raw, of length] l v mlen by (simp add: length_raw_packet)
  have "c \<noteq> crc_bytes (crc16_ccitt (hdr @ body))"
  proof (cases "i < length ?m")
    case True
    then have "hdr @ body @ c = ?m[i := b] @ crc_bytes (crc16_ccitt ?m)"
      by (simp only: raw [symmetric] raw_packet_def list_update_append if_True)
    from append_split [OF this] hl
    have eq: "hdr @ body = ?m[i := b]" "c = crc_bytes (crc16_ccitt ?m)"
      by (simp_all only: length_list_update)
    have "?m ! i \<noteq> b" using assms(3) True by (simp only: raw_packet_def nth_append if_True)
    then have "crc16_ccitt (take i ?m @ b # drop (Suc i) ?m) \<noteq> crc16_ccitt (take i ?m @ ?m ! i # drop (Suc i) ?m)"
      by (intro crc_detects_one_byte) simp
    then have "crc16_ccitt (?m[i := b]) \<noteq> crc16_ccitt ?m"
      by (simp only: upd_conv_take_nth_drop [OF True] id_take_nth_drop [OF True, symmetric] not_False_eq_True)
    then show ?thesis unfolding eq using le_nat_crc_bytes by (metis word_unat_eq_iff)
  next
    case False
    then have "hdr @ body @ c = ?m @ (crc_bytes (crc16_ccitt ?m))[i - length ?m := b]"
      by (simp only: raw [symmetric] raw_packet_def list_update_append if_False)
    from append_split [OF this hl]
    have eq: "hdr @ body = ?m" "c = (crc_bytes (crc16_ccitt ?m))[i - length ?m := b]"
      by simp_all
    have i: "i - length ?m < 2" using assms(2) mlen v by (simp add: length_raw_packet)
    have "crc_bytes (crc16_ccitt ?m) ! (i - length ?m) \<noteq> b"
      using assms(3) False by (simp only: raw_packet_def nth_append if_False)
    then show ?thesis unfolding eq using i by (metis length_crc_bytes nth_list_update_eq)
  qed
  then have "decode_raw ?raw = Inl (ProtocolError CRC_MISMATCH)"
    unfolding raw decode_raw_split [OF l] by (simp add: Let_def)
  then show ?thesis by (simp only: decode_packet_encoded(1) [OF len])
qed

theorem packet_byte_corruption_witness:
  "decode_packet (cobs_encode ((raw_packet sample_packet)[12 := 2]) @ [0]) = Inl (ProtocolError CRC_MISMATCH)"
proof (rule packet_byte_corruption [OF sample_packet_encodes])
  have v: "valid_packet sample_packet" by (simp add: valid_packet_def sample_packet_def)
  then show "12 < length (raw_packet sample_packet)" by (simp add: length_raw_packet)
  show "2 \<noteq> raw_packet sample_packet ! 12"
    using raw_header(2) [OF v] by (simp add: raw_packet_def nth_append sample_packet_def)
qed

text \<open>Whatever bytes it is given, the frame decoder returns a packet or raises a protocol
  error; a packet it returns has its payload within the limit and its numbers within 32 bits.\<close>

theorem decode_packet_total:
  "(\<exists>c. decode_packet f = Inl (ProtocolError c)) \<or> (\<exists>p. decode_packet f = Inr p \<and> valid_packet p)"
proof (cases "decode_packet f")
  case (Inl e)
  then show ?thesis using decode_packet_Inl by blast
next
  case (Inr p)
  then show ?thesis using decode_packet_valid by blast
qed

end
