(* ===== verification/Stream_Parser.thy ===== *)
theory Stream_Parser
  imports Packet_Codec
begin

text \<open>
  \<^verbatim>\<open>StreamParser\<close> of \<^verbatim>\<open>protocol.py\<close>: the incremental parser that finds frames in a byte stream.
  Its specification cuts the stream at the zero delimiters and decodes every piece on its own;
  the refinement lemma says that feeding the parser, in any chunks, reports exactly what the
  specification reports. From it follow that chunking does not matter, that a stream of encoded
  packets is delivered as it was sent, and that a delimiter resynchronises the parser from any
  state. The invariant bounds the buffer and balances the counters.
\<close>

section \<open>State\<close>

record parser_stats =
  ps_bytes_received :: nat
  ps_frames_received :: nat
  ps_packets_accepted :: nat
  ps_empty_delimiters :: nat
  ps_oversized_frames :: nat
  ps_truncated_frames :: nat
  ps_cobs_errors :: nat
  ps_crc_errors :: nat
  ps_version_errors :: nat
  ps_type_errors :: nat
  ps_length_errors :: nat
  ps_other_errors :: nat

definition ParserStats :: parser_stats where
  "ParserStats = \<lparr>ps_bytes_received = 0, ps_frames_received = 0, ps_packets_accepted = 0,
     ps_empty_delimiters = 0, ps_oversized_frames = 0, ps_truncated_frames = 0,
     ps_cobs_errors = 0, ps_crc_errors = 0, ps_version_errors = 0, ps_type_errors = 0,
     ps_length_errors = 0, ps_other_errors = 0\<rparr>"

record stream_parser =
  sp_stats :: parser_stats
  sp_encoded :: bytes
  sp_discard_until_delimiter :: bool

text \<open>A failure is its code; the text of the exception is left out.\<close>

record parse_batch =
  pb_packets :: "packet list"
  pb_errors :: "protocol_error_code list"

definition ParseBatch :: parse_batch where
  "ParseBatch = \<lparr>pb_packets = [], pb_errors = []\<rparr>"

definition StreamParser :: stream_parser where
  "StreamParser = \<lparr>sp_stats = ParserStats, sp_encoded = [], sp_discard_until_delimiter = False\<rparr>"

section \<open>Operations\<close>

definition parser_reset :: "bool \<Rightarrow> stream_parser \<Rightarrow> stream_parser" where
  "parser_reset clear_stats s =
     (let s' = s\<lparr>sp_encoded := [], sp_discard_until_delimiter := False\<rparr>
      in if clear_stats then s'\<lparr>sp_stats := ParserStats\<rparr> else s')"

fun count_error :: "protocol_error_code \<Rightarrow> parser_stats \<Rightarrow> parser_stats" where
  "count_error COBS_MALFORMED st = st\<lparr>ps_cobs_errors := ps_cobs_errors st + 1\<rparr>"
| "count_error CRC_MISMATCH st = st\<lparr>ps_crc_errors := ps_crc_errors st + 1\<rparr>"
| "count_error UNSUPPORTED_VERSION st = st\<lparr>ps_version_errors := ps_version_errors st + 1\<rparr>"
| "count_error UNKNOWN_MESSAGE_TYPE st = st\<lparr>ps_type_errors := ps_type_errors st + 1\<rparr>"
| "count_error PACKET_TOO_SHORT st = st\<lparr>ps_length_errors := ps_length_errors st + 1\<rparr>"
| "count_error PAYLOAD_LENGTH_MISMATCH st = st\<lparr>ps_length_errors := ps_length_errors st + 1\<rparr>"
| "count_error PAYLOAD_TOO_LARGE st = st\<lparr>ps_length_errors := ps_length_errors st + 1\<rparr>"
| "count_error _ st = st\<lparr>ps_other_errors := ps_other_errors st + 1\<rparr>"

text \<open>
  One turn of the loop of \<^verbatim>\<open>feed\<close>; the accumulator is the pair of local lists
  \<^verbatim>\<open>packets\<close> and \<^verbatim>\<open>errors\<close>. Only protocol errors are caught.
\<close>

definition feed_byte ::
  "byte \<Rightarrow> parse_batch \<Rightarrow> (stream_parser, parse_batch) meth" where
  "feed_byte value acc s =
     (if value = 0 then
        if sp_discard_until_delimiter s then
          (Inr acc, s\<lparr>sp_discard_until_delimiter := False, sp_encoded := []\<rparr>)
        else if sp_encoded s = [] then
          (Inr acc, s\<lparr>sp_stats := (sp_stats s)
             \<lparr>ps_empty_delimiters := ps_empty_delimiters (sp_stats s) + 1\<rparr>\<rparr>)
        else
          let st = (sp_stats s)\<lparr>ps_frames_received := ps_frames_received (sp_stats s) + 1\<rparr>;
              s1 = s\<lparr>sp_stats := st, sp_encoded := []\<rparr>
          in case decode_packet (sp_encoded s) of
               Inl (ProtocolError code) \<Rightarrow>
                 (Inr (acc\<lparr>pb_errors := pb_errors acc @ [code]\<rparr>),
                  s1\<lparr>sp_stats := count_error code st\<rparr>)
             | Inl e \<Rightarrow> (Inl e, s1)
             | Inr packet \<Rightarrow>
                 (Inr (acc\<lparr>pb_packets := pb_packets acc @ [packet]\<rparr>),
                  s1\<lparr>sp_stats := st\<lparr>ps_packets_accepted := ps_packets_accepted st + 1\<rparr>\<rparr>)
      else if sp_discard_until_delimiter s then (Inr acc, s)
      else if MAX_ENCODED_FRAME_SIZE \<le> length (sp_encoded s) then
        (Inr (acc\<lparr>pb_errors := pb_errors acc @ [OVERSIZED_FRAME]\<rparr>),
         s\<lparr>sp_encoded := [], sp_discard_until_delimiter := True,
           sp_stats := (sp_stats s)\<lparr>ps_oversized_frames := ps_oversized_frames (sp_stats s) + 1\<rparr>\<rparr>)
      else (Inr acc, s\<lparr>sp_encoded := sp_encoded s @ [value]\<rparr>))"

fun feed_loop :: "bytes \<Rightarrow> parse_batch \<Rightarrow> (stream_parser, parse_batch) meth" where
  "feed_loop [] acc = returnM acc"
| "feed_loop (value # data) acc = bindM (feed_byte value acc) (feed_loop data)"

definition feed :: "bytes \<Rightarrow> (stream_parser, parse_batch) meth" where
  "feed data =
     bindM (modifyM (\<lambda>s. s\<lparr>sp_stats := (sp_stats s)
              \<lparr>ps_bytes_received := ps_bytes_received (sp_stats s) + length data\<rparr>\<rparr>))
       (\<lambda>_. feed_loop data ParseBatch)"

definition parser_finish :: "stream_parser \<Rightarrow> parse_batch \<times> stream_parser" where
  "parser_finish s =
     (if sp_encoded s = [] \<and> \<not> sp_discard_until_delimiter s then (ParseBatch, s)
      else (\<lparr>pb_packets = [], pb_errors = [TRUNCATED_FRAME]\<rparr>,
            s\<lparr>sp_encoded := [], sp_discard_until_delimiter := False,
              sp_stats := (sp_stats s)\<lparr>ps_truncated_frames := ps_truncated_frames (sp_stats s) + 1\<rparr>\<rparr>))"

section \<open>Specification: cut at the delimiters\<close>

text \<open>The pieces before each delimiter, and what follows the last one.\<close>

fun cut :: "bytes \<Rightarrow> bytes \<Rightarrow> bytes list \<times> bytes" where
  "cut acc [] = ([], acc)"
| "cut acc (v # vs) =
     (if v = 0 then (let (pieces, rest) = cut [] vs in (acc # pieces, rest)) else cut (acc @ [v]) vs)"

definition piece_packets :: "bytes \<Rightarrow> packet list" where
  "piece_packets piece =
     (if piece = [] \<or> 143 < length piece then []
      else case decode_packet piece of Inl _ \<Rightarrow> [] | Inr p \<Rightarrow> [p])"

definition oversize :: "bytes \<Rightarrow> protocol_error_code list" where
  "oversize piece = (if 143 < length piece then [OVERSIZED_FRAME] else [])"

definition piece_errors :: "bytes \<Rightarrow> protocol_error_code list" where
  "piece_errors piece =
     (if piece = [] then []
      else if 143 < length piece then [OVERSIZED_FRAME]
      else case decode_packet piece of Inl (ProtocolError c) \<Rightarrow> [c] | _ \<Rightarrow> [])"

text \<open>How the parser holds a piece it has not seen the end of.\<close>

definition holds :: "stream_parser \<Rightarrow> bytes \<Rightarrow> bool" where
  "holds s piece \<longleftrightarrow> 0 \<notin> set piece \<and>
     (if 143 < length piece then sp_discard_until_delimiter s \<and> sp_encoded s = []
      else \<not> sp_discard_until_delimiter s \<and> sp_encoded s = piece)"

definition parser_inv :: "stream_parser \<Rightarrow> bool" where
  "parser_inv s \<longleftrightarrow> length (sp_encoded s) \<le> 143 \<and> 0 \<notin> set (sp_encoded s)
     \<and> (sp_discard_until_delimiter s \<longrightarrow> sp_encoded s = [])"

text \<open>Every finished frame is accepted or counted in one error counter.\<close>

definition balanced :: "parser_stats \<Rightarrow> bool" where
  "balanced st \<longleftrightarrow> ps_frames_received st = ps_packets_accepted st + ps_cobs_errors st
     + ps_crc_errors st + ps_version_errors st + ps_type_errors st + ps_length_errors st
     + ps_other_errors st"

section \<open>The parser implements the specification\<close>

lemma holds_inv: "parser_inv s \<longleftrightarrow> (\<exists>piece. holds s piece)"
proof
  assume inv: "parser_inv s"
  show "\<exists>piece. holds s piece"
  proof (cases "sp_discard_until_delimiter s")
    case True
    then have "holds s (replicate 144 1)" using inv by (simp add: holds_def parser_inv_def)
    then show ?thesis ..
  next
    case False
    then have "holds s (sp_encoded s)" using inv by (simp add: holds_def parser_inv_def)
    then show ?thesis ..
  qed
qed (auto simp: holds_def parser_inv_def split: if_splits)

definition batch_add :: "parse_batch \<Rightarrow> packet list \<Rightarrow> protocol_error_code list \<Rightarrow> parse_batch" where
  "batch_add acc ps es = \<lparr>pb_packets = pb_packets acc @ ps, pb_errors = pb_errors acc @ es\<rparr>"

lemma batch_add_simps [simp]:
  "pb_packets (batch_add acc ps es) = pb_packets acc @ ps"
  "pb_errors (batch_add acc ps es) = pb_errors acc @ es"
  "batch_add acc [] [] = acc"
  "batch_add (batch_add acc ps es) ps' es' = batch_add acc (ps @ ps') (es @ es')"
  by (simp_all add: batch_add_def)

lemma batch_updates:
  "acc\<lparr>pb_packets := pb_packets acc @ ps\<rparr> = batch_add acc ps []"
  "acc\<lparr>pb_errors := pb_errors acc @ es\<rparr> = batch_add acc [] es"
  by (simp_all add: batch_add_def)

lemma balanced_count_error:
  "balanced st \<Longrightarrow> balanced (count_error c (st\<lparr>ps_frames_received := ps_frames_received st + 1\<rparr>))"
  by (cases c) (simp_all add: balanced_def)

lemma feed_byte_delimiter:
  assumes "holds s piece"
  shows "\<exists>s'. feed_byte 0 acc s =
      (Inr (batch_add acc (piece_packets piece) (if 143 < length piece then [] else piece_errors piece)), s')
    \<and> holds s' [] \<and> (balanced (sp_stats s) \<longrightarrow> balanced (sp_stats s'))"
proof (cases "143 < length piece \<or> piece = []")
  case True
  then show ?thesis
    using assms by (auto simp: feed_byte_def holds_def piece_packets_def piece_errors_def balanced_def)
next
  case False
  then have h: "\<not> sp_discard_until_delimiter s" "sp_encoded s = piece" "piece \<noteq> []"
    "\<not> 143 < length piece"
    using assms by (auto simp: holds_def)
  show ?thesis
  proof (cases "decode_packet piece")
    case (Inl e)
    then obtain c where "e = ProtocolError c" using decode_packet_Inl by blast
    with Inl h show ?thesis
      using balanced_count_error [of "sp_stats s" c]
      by (simp add: feed_byte_def Let_def piece_packets_def piece_errors_def batch_updates holds_def)
  next
    case (Inr p)
    with h show ?thesis
      by (simp add: feed_byte_def Let_def piece_packets_def piece_errors_def batch_updates holds_def
          balanced_def)
  qed
qed

lemma feed_byte_data:
  assumes "holds s piece" "v \<noteq> 0"
  shows "\<exists>s'. feed_byte v acc s =
      (Inr (batch_add acc [] (if length piece = 143 then [OVERSIZED_FRAME] else [])), s')
    \<and> holds s' (piece @ [v]) \<and> (balanced (sp_stats s) \<longrightarrow> balanced (sp_stats s'))"
  using assms by (auto simp: feed_byte_def holds_def batch_updates balanced_def split: if_splits)

text \<open>
  The refinement. What had already been reported of the piece under way comes first on the
  left; what has been reported of the piece that is left over comes last on the right.
\<close>

lemma feed_loop_spec:
  assumes "holds s piece" "cut piece data = (pieces, rest)"
  shows "\<exists>s' es. feed_loop data acc s =
        (Inr (batch_add acc (concat (map piece_packets pieces)) es), s')
      \<and> oversize piece @ es = concat (map piece_errors pieces) @ oversize rest
      \<and> holds s' rest \<and> (balanced (sp_stats s) \<longrightarrow> balanced (sp_stats s'))"
  using assms
proof (induction data arbitrary: s piece pieces rest acc)
  case Nil
  then show ?case by (intro exI [of _ s] exI [of _ "[]"]) auto
next
  case (Cons v vs)
  show ?case
  proof (cases "v = 0")
    case True
    obtain pieces' where cut: "cut [] vs = (pieces', rest)" "pieces = piece # pieces'"
      using Cons.prems(2) True by (auto split: prod.splits)
    let ?e = "if 143 < length piece then [] else piece_errors piece"
    obtain s1 where s1: "feed_byte v acc s = (Inr (batch_add acc (piece_packets piece) ?e), s1)"
      "holds s1 []" "balanced (sp_stats s) \<longrightarrow> balanced (sp_stats s1)"
      using feed_byte_delimiter [OF Cons.prems(1)] True by blast
    from Cons.IH [OF s1(2) cut(1), of "batch_add acc (piece_packets piece) ?e"]
    obtain s2 es where s2: "feed_loop vs (batch_add acc (piece_packets piece) ?e) s1 =
        (Inr (batch_add (batch_add acc (piece_packets piece) ?e) (concat (map piece_packets pieces')) es), s2)"
      "oversize [] @ es = concat (map piece_errors pieces') @ oversize rest"
      "holds s2 rest" "balanced (sp_stats s1) \<longrightarrow> balanced (sp_stats s2)"
      by blast
    have "oversize piece @ ?e @ es = piece_errors piece @ es"
      by (auto simp: oversize_def piece_errors_def)
    then show ?thesis
      using s1 s2 cut
      by (intro exI [of _ s2] exI [of _ "?e @ es"]) (simp add: bindM_def oversize_def [of "[]"])
  next
    case False
    let ?e = "if length piece = 143 then [OVERSIZED_FRAME] else []"
    obtain s1 where s1: "feed_byte v acc s = (Inr (batch_add acc [] ?e), s1)"
      "holds s1 (piece @ [v])" "balanced (sp_stats s) \<longrightarrow> balanced (sp_stats s1)"
      using feed_byte_data [OF Cons.prems(1) False] by blast
    have cut: "cut (piece @ [v]) vs = (pieces, rest)" using Cons.prems(2) False by simp
    from Cons.IH [OF s1(2) cut, of "batch_add acc [] ?e"]
    obtain s2 es where s2: "feed_loop vs (batch_add acc [] ?e) s1 =
        (Inr (batch_add (batch_add acc [] ?e) (concat (map piece_packets pieces)) es), s2)"
      "oversize (piece @ [v]) @ es = concat (map piece_errors pieces) @ oversize rest"
      "holds s2 rest" "balanced (sp_stats s1) \<longrightarrow> balanced (sp_stats s2)"
      by blast
    have "oversize piece @ ?e = oversize (piece @ [v])" by (auto simp: oversize_def)
    then have "oversize piece @ ?e @ es = oversize (piece @ [v]) @ es" by (metis append_assoc)
    then show ?thesis
      using s1 s2 by (intro exI [of _ s2] exI [of _ "?e @ es"]) (simp add: bindM_def)
  qed
qed

section \<open>Feeding\<close>

definition add_bytes :: "nat \<Rightarrow> stream_parser \<Rightarrow> stream_parser" where
  "add_bytes n s = s\<lparr>sp_stats := (sp_stats s)
     \<lparr>ps_bytes_received := ps_bytes_received (sp_stats s) + n\<rparr>\<rparr>"

lemma feed_unfold: "feed data s = feed_loop data ParseBatch (add_bytes (length data) s)"
  by (simp add: feed_def add_bytes_def)

lemma add_bytes_simps [simp]:
  "holds (add_bytes n s) piece = holds s piece"
  "balanced (sp_stats (add_bytes n s)) = balanced (sp_stats s)"
  "parser_inv (add_bytes n s) = parser_inv s"
  by (simp_all add: add_bytes_def holds_def balanced_def parser_inv_def)

lemma feed_spec:
  assumes "holds s piece" "cut piece data = (pieces, rest)"
  shows "\<exists>s' es. feed data s =
        (Inr \<lparr>pb_packets = concat (map piece_packets pieces), pb_errors = es\<rparr>, s')
      \<and> oversize piece @ es = concat (map piece_errors pieces) @ oversize rest
      \<and> holds s' rest \<and> (balanced (sp_stats s) \<longrightarrow> balanced (sp_stats s'))"
  using feed_loop_spec [of "add_bytes (length data) s" piece data pieces rest ParseBatch] assms
  by (auto simp: feed_unfold ParseBatch_def batch_add_def)

lemma feed_total:
  assumes "parser_inv s"
  shows "\<exists>b s'. feed data s = (Inr b, s') \<and> parser_inv s'
    \<and> (balanced (sp_stats s) \<longrightarrow> balanced (sp_stats s'))"
proof -
  obtain piece where h: "holds s piece" using assms holds_inv by blast
  obtain pieces rest where "cut piece data = (pieces, rest)" by fastforce
  from feed_spec [OF h this] show ?thesis using holds_inv by blast
qed

lemma holds_fresh: "holds s [] \<longleftrightarrow> \<not> sp_discard_until_delimiter s \<and> sp_encoded s = []"
  by (simp add: holds_def)

lemma cut_piece:
  "0 \<notin> set x \<Longrightarrow> cut [] d = (pieces, rest) \<Longrightarrow> cut acc (x @ 0 # d) = ((acc @ x) # pieces, rest)"
  by (induction x arbitrary: acc) auto

lemma cut_append:
  "cut acc a = (p1, r1) \<Longrightarrow> cut r1 b = (p2, r2) \<Longrightarrow> cut acc (a @ b) = (p1 @ p2, r2)"
proof (induction a arbitrary: acc p1)
  case (Cons v a)
  show ?case
  proof (cases "v = 0")
    case True
    then obtain q where q: "cut [] a = (q, r1)" "p1 = acc # q"
      using Cons.prems by (auto split: prod.splits)
    from Cons.IH [OF q(1) Cons.prems(2)] q True show ?thesis by simp
  qed (use Cons in simp)
qed simp

section \<open>Chunking\<close>

definition batch_append :: "parse_batch \<Rightarrow> parse_batch \<Rightarrow> parse_batch" where
  "batch_append a b = batch_add a (pb_packets b) (pb_errors b)"

lemma feed_byte_acc:
  "feed_byte v acc s = (case feed_byte v ParseBatch s of
     (Inl e, s') \<Rightarrow> (Inl e, s') | (Inr b, s') \<Rightarrow> (Inr (batch_append acc b), s'))"
  by (simp add: feed_byte_def batch_append_def batch_add_def ParseBatch_def Let_def
      split: sum.splits py_exn.splits)

lemma batch_append_assoc: "batch_append (batch_append a b) c = batch_append a (batch_append b c)"
  by (simp add: batch_append_def batch_add_def)

lemma batch_append_empty [simp]: "batch_append a ParseBatch = a" "batch_append ParseBatch a = a"
  by (simp_all add: batch_append_def batch_add_def ParseBatch_def)

lemma feed_loop_acc:
  "feed_loop d acc s = (case feed_loop d ParseBatch s of
     (Inl e, s') \<Rightarrow> (Inl e, s') | (Inr b, s') \<Rightarrow> (Inr (batch_append acc b), s'))"
proof (induction d arbitrary: acc s)
  case (Cons v d)
  obtain r s1 where r: "feed_byte v ParseBatch s = (r, s1)" by fastforce
  show ?case
  proof (cases r)
    case (Inl e)
    then show ?thesis using r feed_byte_acc [of v acc s] by (simp add: bindM_def)
  next
    case (Inr b)
    then show ?thesis
      using r feed_byte_acc [of v acc s] Cons.IH [of "batch_append acc b" s1] Cons.IH [of b s1]
      by (simp add: bindM_def batch_append_assoc split: prod.splits sum.splits)
  qed
qed simp

lemma feed_loop_append: "feed_loop (a @ b) acc s = bindM (feed_loop a acc) (feed_loop b) s"
  by (induction a arbitrary: acc s) (auto simp: bindM_def split: prod.splits sum.splits)

lemma count_error_bytes:
  "count_error c (st\<lparr>ps_bytes_received := n\<rparr>) = (count_error c st)\<lparr>ps_bytes_received := n\<rparr>"
  by (cases c) simp_all

lemma count_error_bytes_received [simp]: "ps_bytes_received (count_error c st) = ps_bytes_received st"
  by (cases c) simp_all

lemma feed_byte_bytes: "feed_byte v acc (add_bytes n s) = apsnd (add_bytes n) (feed_byte v acc s)"
proof -
  have "count_error c (sp_stats (add_bytes n s)\<lparr>ps_frames_received := k\<rparr>)
      = (count_error c (sp_stats s\<lparr>ps_frames_received := k\<rparr>))
          \<lparr>ps_bytes_received := ps_bytes_received (sp_stats s) + n\<rparr>" for c k
    by (cases c) (simp_all add: add_bytes_def)
  then show ?thesis
    by (auto simp: feed_byte_def add_bytes_def Let_def split: sum.splits py_exn.splits)
qed

lemma feed_loop_bytes: "feed_loop d acc (add_bytes n s) = apsnd (add_bytes n) (feed_loop d acc s)"
proof (induction d arbitrary: acc s)
  case (Cons v d)
  then show ?case by (auto simp: bindM_def feed_byte_bytes split: prod.splits sum.splits)
qed simp

lemma feed_append:
  assumes "feed a s = (Inr ba, s1)" "feed b s1 = (Inr bb, s2)"
  shows "feed (a @ b) s = (Inr (batch_append ba bb), s2)"
proof -
  have "feed_loop (a @ b) ParseBatch (add_bytes (length a + length b) s)
      = bindM (feed_loop a ParseBatch) (feed_loop b) (add_bytes (length b) (add_bytes (length a) s))"
    by (simp add: feed_loop_append add_bytes_def add.assoc)
  also have "\<dots> = feed_loop b ba (add_bytes (length b) s1)"
    using assms(1) by (simp add: feed_unfold bindM_def feed_loop_bytes [of a])
  also have "\<dots> = (Inr (batch_append ba bb), s2)"
    using assms(2) feed_loop_acc [of b ba] by (simp add: feed_unfold)
  finally show ?thesis by (simp add: feed_unfold)
qed

section \<open>Streams of encoded packets\<close>

lemma encoded_piece:
  assumes "encode_packet p = Inr f"
  obtains x where "f = x @ [0]" "0 \<notin> set x" "piece_packets x = [p]" "piece_errors x = []" "length x \<le> 143"
proof -
  have v: "valid_packet p" and f: "f = cobs_encode (raw_packet p) @ [0]"
    using assms by (auto simp: encode_packet_Inr)
  have l: "length (raw_packet p) < 143" using v by (simp add: length_raw_packet valid_packet_def)
  then have len: "length (cobs_encode (raw_packet p)) \<le> 143" using length_cobs_encode_short by simp
  have "decode_packet (cobs_encode (raw_packet p)) = Inr p"
    using decode_packet_encoded(2) [OF l] v by (simp add: decode_raw_Inr)
  with len show ?thesis
    by (intro that [of "cobs_encode (raw_packet p)"])
      (simp_all add: f cobs_encode_no_zero piece_packets_def piece_errors_def)
qed

lemma cut_encoded:
  "list_all2 (\<lambda>p f. encode_packet p = Inr f) ps fs \<Longrightarrow>
     \<exists>pieces. cut [] (concat fs) = (pieces, []) \<and> concat (map piece_packets pieces) = ps
       \<and> concat (map piece_errors pieces) = []"
proof (induction ps fs rule: list_all2_induct)
  case Nil
  then show ?case by simp
next
  case (Cons p ps f fs)
  then obtain pieces where pieces: "cut [] (concat fs) = (pieces, [])"
    "concat (map piece_packets pieces) = ps" "concat (map piece_errors pieces) = []" by blast
  from Cons.hyps obtain x where x: "f = x @ [0]" "0 \<notin> set x" "piece_packets x = [p]"
    "piece_errors x = []"
    by (elim encoded_piece) blast
  show ?case
    using pieces x cut_piece [OF x(2) pieces(1), of "[]"] by (intro exI [of _ "x # pieces"]) simp
qed

lemma cut_delimited: "\<exists>pieces. cut acc (d @ [0]) = (pieces, [])"
proof -
  obtain p r where "cut acc d = (p, r)" by fastforce
  from cut_append [OF this, of "[0]" "[r]" "[]"] show ?thesis by simp
qed

section \<open>Properties\<close>

text \<open>C5: a fresh parser reports exactly what cutting the input at its zero bytes and decoding
  every piece separately reports: the packets in order, and one error for every piece that is
  refused or is longer than a frame can be.\<close>

theorem stream_parser_refines:
  "fst (feed data StreamParser) =
     (let (pieces, rest) = cut [] data in
      Inr \<lparr>pb_packets = concat (map piece_packets pieces),
           pb_errors = concat (map piece_errors pieces) @ oversize rest\<rparr>)"
proof -
  obtain pieces rest where c: "cut [] data = (pieces, rest)" by fastforce
  have "holds StreamParser []" by (simp add: holds_def StreamParser_def)
  from feed_spec [OF this c] c show ?thesis by (auto simp: oversize_def [of "[]"])
qed

text \<open>from any reachable parser state, feeding never raises, keeps the buffer within one
  frame and free of zeros, and keeps the frame counter equal to the accepted packets plus the
  errors counted.\<close>

theorem stream_parser_invariant:
  assumes "parser_inv s" "balanced (sp_stats s)"
  shows "\<exists>b s'. feed data s = (Inr b, s') \<and> length (sp_encoded s') \<le> MAX_ENCODED_FRAME_SIZE
    \<and> parser_inv s' \<and> balanced (sp_stats s')
    \<and> parser_inv (snd (parser_finish s)) \<and> balanced (sp_stats (snd (parser_finish s)))"
proof -
  have "parser_inv (snd (parser_finish s)) \<and> balanced (sp_stats (snd (parser_finish s)))"
    using assms by (simp add: parser_finish_def parser_inv_def balanced_def)
  then show ?thesis using feed_total [OF assms(1), of data] assms(2) by (auto simp: parser_inv_def)
qed

theorem stream_parser_invariant_witness:
  "\<exists>b s'. feed [1, 2, 0, 3] StreamParser = (Inr b, s')
    \<and> length (sp_encoded s') \<le> MAX_ENCODED_FRAME_SIZE"
proof -
  have "parser_inv StreamParser" "balanced (sp_stats StreamParser)"
    by (simp_all add: parser_inv_def balanced_def StreamParser_def ParserStats_def)
  from stream_parser_invariant [OF this] show ?thesis by blast
qed

text \<open>C15: how the input is cut into reads does not matter: feeding two chunks one after the
  other reports what feeding them together reports and leaves the same parser, counters
  included.\<close>

theorem stream_parser_chunking:
  assumes "parser_inv s"
  shows "\<exists>ba s1 bb s2. feed a s = (Inr ba, s1) \<and> feed b s1 = (Inr bb, s2)
    \<and> feed (a @ b) s = (Inr \<lparr>pb_packets = pb_packets ba @ pb_packets bb,
                             pb_errors = pb_errors ba @ pb_errors bb\<rparr>, s2)"
proof -
  obtain ba s1 where a: "feed a s = (Inr ba, s1)" "parser_inv s1" using feed_total [OF assms] by blast
  obtain bb s2 where b: "feed b s1 = (Inr bb, s2)" using feed_total [OF a(2)] by blast
  from feed_append [OF a(1) b] a b show ?thesis by (auto simp: batch_append_def batch_add_def)
qed

theorem stream_parser_chunking_witness:
  "\<exists>ba s1 bb s2. feed [5] StreamParser = (Inr ba, s1) \<and> feed [0, 6] s1 = (Inr bb, s2)
    \<and> feed ([5] @ [0, 6]) StreamParser = (Inr \<lparr>pb_packets = pb_packets ba @ pb_packets bb,
                             pb_errors = pb_errors ba @ pb_errors bb\<rparr>, s2)"
  by (rule stream_parser_chunking) (simp add: parser_inv_def StreamParser_def)

text \<open>C14: whatever came before it, garbage or half a frame, once a delimiter has passed the next
  encoded packets are delivered in order and without error.\<close>

theorem stream_parser_resync:
  assumes "parser_inv s" "list_all2 (\<lambda>p f. encode_packet p = Inr f) ps fs"
  shows "\<exists>b s1 s2. feed (garbage @ [0]) s = (Inr b, s1)
    \<and> feed (concat fs) s1 = (Inr \<lparr>pb_packets = ps, pb_errors = []\<rparr>, s2)
    \<and> sp_encoded s2 = [] \<and> \<not> sp_discard_until_delimiter s2"
proof -
  obtain piece where h: "holds s piece" using assms(1) holds_inv by blast
  obtain pieces where "cut piece (garbage @ [0]) = (pieces, [])" using cut_delimited by blast
  from feed_spec [OF h this] obtain b s1 where 1: "feed (garbage @ [0]) s = (Inr b, s1)" "holds s1 []"
    by blast
  obtain qs where q: "cut [] (concat fs) = (qs, [])" "concat (map piece_packets qs) = ps"
    "concat (map piece_errors qs) = []"
    using cut_encoded [OF assms(2)] by blast
  from feed_spec [OF 1(2) q(1)] q show ?thesis using 1 by (auto simp: oversize_def holds_fresh)
qed

theorem stream_parser_resync_witness:
  "\<exists>b s1 s2. feed ([1, 2, 3] @ [0]) StreamParser = (Inr b, s1)
    \<and> feed (concat [cobs_encode (raw_packet sample_packet) @ [0]]) s1
        = (Inr \<lparr>pb_packets = [sample_packet], pb_errors = []\<rparr>, s2)
    \<and> sp_encoded s2 = [] \<and> \<not> sp_discard_until_delimiter s2"
  by (rule stream_parser_resync)
    (simp_all add: parser_inv_def StreamParser_def sample_packet_encodes)

end
