(* ===== verification/Sequence_Tracker.thy ===== *)
theory Sequence_Tracker
  imports Wire_Struct
begin

text \<open>
  \<^verbatim>\<open>SequenceTracker\<close> of \<^verbatim>\<open>protocol.py\<close>: the classification of a wrapping 32-bit sequence
  stream. The source computes distances with \<^verbatim>\<open>& 0xFFFFFFFF\<close> on Python integers; the lemmas
  restate them as a forward distance modulo \<open>2 ^ 32\<close>, and show what is accepted, that nothing
  else moves the tracker, and that what was missed is counted exactly.
\<close>

section \<open>State\<close>

datatype sequence_disposition =
  SD_FIRST | SD_IN_ORDER | SD_GAP | SD_DUPLICATE | SD_OUT_OF_ORDER | SD_STALE

record sequence_result =
  sr_disposition :: sequence_disposition
  sr_accepted :: bool
  sr_missing :: int

definition SequenceResult :: "sequence_disposition \<Rightarrow> bool \<Rightarrow> sequence_result" where
  "SequenceResult d a = \<lparr>sr_disposition = d, sr_accepted = a, sr_missing = 0\<rparr>"

record sequence_stats =
  ss_accepted :: int
  ss_missing :: int
  ss_duplicates :: int
  ss_out_of_order :: int
  ss_stale :: int

definition SequenceStats :: sequence_stats where
  "SequenceStats = \<lparr>ss_accepted = 0, ss_missing = 0, ss_duplicates = 0, ss_out_of_order = 0, ss_stale = 0\<rparr>"

record sequence_tracker =
  tr_reorder_window :: int
  tr_stats :: sequence_stats
  tr_last_sequence :: "int option"
  tr_last_step_id :: "int option"

section \<open>Operations\<close>

definition SequenceTracker :: "int \<Rightarrow> sequence_tracker result" where
  "SequenceTracker reorder_window =
     (if \<not> (1 \<le> reorder_window \<and> reorder_window < 0x80000000) then Inl INVALID
      else Inr \<lparr>tr_reorder_window = reorder_window, tr_stats = SequenceStats,
                tr_last_sequence = None, tr_last_step_id = None\<rparr>)"

definition is_older :: "int \<Rightarrow> int \<Rightarrow> bool" where
  "is_older value reference =
     (let delta = (value - reference) AND 0xFFFFFFFF
      in 0x80000000 \<le> delta \<and> value \<noteq> reference)"

definition tracker_reset :: "bool \<Rightarrow> sequence_tracker \<Rightarrow> sequence_tracker" where
  "tracker_reset clear_stats s =
     (let s' = s\<lparr>tr_last_sequence := None, tr_last_step_id := None\<rparr>
      in if clear_stats then s'\<lparr>tr_stats := SequenceStats\<rparr> else s')"

definition observe_valid :: "int \<Rightarrow> int option \<Rightarrow> sequence_tracker \<Rightarrow> sequence_result \<times> sequence_tracker" where
  "observe_valid seq step s =
     (let stats = tr_stats s in
      case tr_last_sequence s of
        None \<Rightarrow>
          (SequenceResult SD_FIRST True,
           s\<lparr>tr_last_sequence := Some seq, tr_last_step_id := step,
             tr_stats := stats\<lparr>ss_accepted := ss_accepted stats + 1\<rparr>\<rparr>)
      | Some last_sequence \<Rightarrow>
          let delta = (seq - last_sequence) AND 0xFFFFFFFF in
          if delta = 0 then
            (SequenceResult SD_DUPLICATE False,
             s\<lparr>tr_stats := stats\<lparr>ss_duplicates := ss_duplicates stats + 1\<rparr>\<rparr>)
          else if delta < 0x80000000 then
            if (case (step, tr_last_step_id s) of
                  (Some step', Some last_step) \<Rightarrow> is_older step' last_step
                | _ \<Rightarrow> False)
            then (SequenceResult SD_STALE False,
                  s\<lparr>tr_stats := stats\<lparr>ss_stale := ss_stale stats + 1\<rparr>\<rparr>)
            else
              let missing = delta - 1;
                  disposition = (if missing = 0 then SD_IN_ORDER else SD_GAP)
              in (\<lparr>sr_disposition = disposition, sr_accepted = True, sr_missing = missing\<rparr>,
                  s\<lparr>tr_last_sequence := Some seq,
                    tr_last_step_id := (case step of None \<Rightarrow> tr_last_step_id s | Some _ \<Rightarrow> step),
                    tr_stats := stats\<lparr>ss_accepted := ss_accepted stats + 1,
                                      ss_missing := ss_missing stats + missing\<rparr>\<rparr>)
          else
            let backwards = (last_sequence - seq) AND 0xFFFFFFFF in
            if backwards \<le> tr_reorder_window s then
              (SequenceResult SD_OUT_OF_ORDER False,
               s\<lparr>tr_stats := stats\<lparr>ss_out_of_order := ss_out_of_order stats + 1\<rparr>\<rparr>)
            else
              (SequenceResult SD_STALE False,
               s\<lparr>tr_stats := stats\<lparr>ss_stale := ss_stale stats + 1\<rparr>\<rparr>))"

definition observe :: "int \<Rightarrow> int option \<Rightarrow> (sequence_tracker, sequence_result) meth" where
  "observe seq step s =
     (case uint_guard (PInt seq) 32 of
        Inl e \<Rightarrow> (Inl e, s)
      | Inr seq' \<Rightarrow>
          (case step of
             None \<Rightarrow> (let (r, s') = observe_valid seq' None s in (Inr r, s'))
           | Some st \<Rightarrow>
               (case uint_guard (PInt st) 32 of
                  Inl e \<Rightarrow> (Inl e, s)
                | Inr st' \<Rightarrow> (let (r, s') = observe_valid seq' (Some st') s in (Inr r, s')))))"

section \<open>Distances\<close>

definition forward :: "int \<Rightarrow> int \<Rightarrow> int" where
  "forward a b = (b - a) mod 2 ^ 32"

lemma and_mask32: "n AND 0xFFFFFFFF = n mod (2 :: int) ^ 32"
proof -
  have "(0xFFFFFFFF :: int) = mask 32" by (simp add: mask_eq_exp_minus_1)
  then show ?thesis by (simp only: take_bit_eq_mask [symmetric] take_bit_eq_mod)
qed

lemma forward_range: "0 \<le> forward a b" "forward a b < 2 ^ 32"
  by (simp_all add: forward_def)

lemma forward_opposite: "forward a b \<noteq> 0 \<Longrightarrow> forward b a = 2 ^ 32 - forward a b"
  unfolding forward_def by (smt (verit) mod_minus_eq zmod_zminus1_eq_if minus_diff_eq)

lemma forward_eq_0: "0 \<le> a \<Longrightarrow> a < 2 ^ 32 \<Longrightarrow> 0 \<le> b \<Longrightarrow> b < 2 ^ 32 \<Longrightarrow> forward a b = 0 \<longleftrightarrow> a = b"
  using mod_eq_dvd_iff [of b "2 ^ 32" a] mod_pos_pos_trivial [of a "2 ^ 32"]
    mod_pos_pos_trivial [of b "2 ^ 32"]
  by (auto simp: forward_def dvd_eq_mod_eq_0)

definition u32_option :: "int option \<Rightarrow> bool" where
  "u32_option x \<longleftrightarrow> (\<forall>n. x = Some n \<longrightarrow> 0 \<le> n \<and> n < 2 ^ 32)"

text \<open>Sequence numbers in the tracker are in range and the counters are not negative.\<close>

definition tracker_inv :: "sequence_tracker \<Rightarrow> bool" where
  "tracker_inv s \<longleftrightarrow> 1 \<le> tr_reorder_window s \<and> tr_reorder_window s < 2 ^ 31
     \<and> u32_option (tr_last_sequence s) \<and> u32_option (tr_last_step_id s)
     \<and> 0 \<le> ss_accepted (tr_stats s) \<and> 0 \<le> ss_missing (tr_stats s)
     \<and> 0 \<le> ss_duplicates (tr_stats s) \<and> 0 \<le> ss_out_of_order (tr_stats s)
     \<and> 0 \<le> ss_stale (tr_stats s)"

lemma observe_eq:
  "observe seq step s =
     (if (0 \<le> seq \<and> seq < 2 ^ 32) \<and> u32_option step
      then (Inr (fst (observe_valid seq step s)), snd (observe_valid seq step s))
      else (Inl INVALID, s))"
proof -
  have g: "uint_guard (PInt n) 32 = (if 0 \<le> n \<and> n < 2 ^ 32 then Inr n else Inl INVALID)" for n
    using uint_guard_Inl [of "PInt n" 32] uint_guard_ok [of n 32]
    by (cases "uint_guard (PInt n) 32") auto
  show ?thesis
    by (auto simp: observe_def g u32_option_def case_prod_beta split: option.splits)
qed

text \<open>The classification, in terms of the forward distance from the last accepted number.\<close>

lemma observe_valid_Some:
  assumes "tr_last_sequence s = Some l"
  shows "observe_valid seq step s =
    (let d = forward l seq;
         stale_step = (case (step, tr_last_step_id s) of
             (Some a, Some b) \<Rightarrow> 2 ^ 31 \<le> forward b a \<and> a \<noteq> b | _ \<Rightarrow> False);
         st = tr_stats s in
     if d = 0 then (SequenceResult SD_DUPLICATE False, s\<lparr>tr_stats := st\<lparr>ss_duplicates := ss_duplicates st + 1\<rparr>\<rparr>)
     else if d < 2 ^ 31 then
       if stale_step then (SequenceResult SD_STALE False, s\<lparr>tr_stats := st\<lparr>ss_stale := ss_stale st + 1\<rparr>\<rparr>)
       else (\<lparr>sr_disposition = (if d = 1 then SD_IN_ORDER else SD_GAP), sr_accepted = True, sr_missing = d - 1\<rparr>,
             s\<lparr>tr_last_sequence := Some seq,
               tr_last_step_id := (case step of None \<Rightarrow> tr_last_step_id s | Some _ \<Rightarrow> step),
               tr_stats := st\<lparr>ss_accepted := ss_accepted st + 1, ss_missing := ss_missing st + (d - 1)\<rparr>\<rparr>)
     else if 2 ^ 32 - d \<le> tr_reorder_window s
       then (SequenceResult SD_OUT_OF_ORDER False, s\<lparr>tr_stats := st\<lparr>ss_out_of_order := ss_out_of_order st + 1\<rparr>\<rparr>)
       else (SequenceResult SD_STALE False, s\<lparr>tr_stats := st\<lparr>ss_stale := ss_stale st + 1\<rparr>\<rparr>))"
proof -
  have d: "(seq - l) AND 0xFFFFFFFF = forward l seq" "(l - seq) AND 0xFFFFFFFF = forward seq l"
    by (simp_all only: and_mask32 forward_def)
  have o: "is_older a b \<longleftrightarrow> 2 ^ 31 \<le> forward b a \<and> a \<noteq> b" for a b
    by (simp add: is_older_def and_mask32 forward_def Let_def)
  show ?thesis
    using forward_opposite [of l seq]
    by (auto simp: observe_valid_def assms d o Let_def split: option.splits)
qed

lemma observe_valid_None:
  "tr_last_sequence s = None \<Longrightarrow> observe_valid seq step s =
    (SequenceResult SD_FIRST True,
     s\<lparr>tr_last_sequence := Some seq, tr_last_step_id := step,
       tr_stats := (tr_stats s)\<lparr>ss_accepted := ss_accepted (tr_stats s) + 1\<rparr>\<rparr>)"
  by (simp add: observe_valid_def Let_def)

lemma observe_keeps: "keeps tracker_inv (observe seq step)"
proof (rule keepsI)
  fix s assume inv: "tracker_inv s"
  show "tracker_inv (snd (observe seq step s))"
  proof (cases "tr_last_sequence s")
    case None
    with inv show ?thesis
      by (auto simp: observe_eq observe_valid_None tracker_inv_def u32_option_def)
  next
    case (Some l)
    with inv forward_range [of l seq] show ?thesis
      by (auto simp: observe_eq observe_valid_Some [OF Some] tracker_inv_def u32_option_def Let_def
          split: option.splits)
  qed
qed

section \<open>Runs\<close>

fun observe_all ::
  "(int \<times> int option) list \<Rightarrow> sequence_tracker \<Rightarrow> sequence_result result list \<times> sequence_tracker" where
  "observe_all [] s = ([], s)"
| "observe_all ((seq, step) # obs) s =
     (let (r, s') = observe seq step s; (rs, s'') = observe_all obs s' in (r # rs, s''))"

text \<open>
  What the counters say about where the tracker is: the last accepted number is the first one
  advanced by every further acceptance and every number counted missing.
\<close>

definition on_course :: "int \<Rightarrow> sequence_tracker \<Rightarrow> bool" where
  "on_course first s \<longleftrightarrow> tr_last_sequence s =
     Some ((first + (ss_accepted (tr_stats s) - 1) + ss_missing (tr_stats s)) mod 2 ^ 32)"

lemma forward_add: "0 \<le> b \<Longrightarrow> b < 2 ^ 32 \<Longrightarrow> (a + forward a b) mod 2 ^ 32 = b"
  by (simp add: forward_def mod_simps)

lemma observe_on_course:
  assumes "on_course first s"
  shows "on_course first (snd (observe seq step s))"
proof -
  obtain l where l: "tr_last_sequence s = Some l"
    and le: "l = (first + (ss_accepted (tr_stats s) - 1) + ss_missing (tr_stats s)) mod 2 ^ 32"
    using assms by (auto simp: on_course_def)
  have adv: "seq = (first + ss_accepted (tr_stats s) + (ss_missing (tr_stats s) + (forward l seq - 1))) mod 2 ^ 32"
    if "0 \<le> seq" "seq < 2 ^ 32"
  proof -
    have "seq = (l + forward l seq) mod 2 ^ 32" using forward_add [OF that, of l] by simp
    also have "\<dots> = ((first + (ss_accepted (tr_stats s) - 1) + ss_missing (tr_stats s)) + forward l seq) mod 2 ^ 32"
      unfolding le by (rule mod_add_left_eq)
    finally show ?thesis by (simp add: algebra_simps)
  qed
  show ?thesis
    using assms adv unfolding observe_eq observe_valid_Some [OF l] Let_def
    by (auto simp: on_course_def l)
qed

lemma observe_all_on_course:
  "on_course first s \<Longrightarrow> on_course first (snd (observe_all obs s))"
proof (induction obs arbitrary: s)
  case (Cons x obs)
  obtain seq step where x: "x = (seq, step)" by fastforce
  from Cons.IH [OF observe_on_course [OF Cons.prems, of seq step]] show ?case
    by (simp add: x case_prod_beta Let_def)
qed simp

lemma observe_all_keeps: "tracker_inv s \<Longrightarrow> tracker_inv (snd (observe_all obs s))"
proof (induction obs arbitrary: s)
  case (Cons x obs)
  obtain seq step where x: "x = (seq, step)" by fastforce
  have "tracker_inv (snd (observe seq step s))"
    using observe_keeps [of seq step] Cons.prems by (simp add: keeps_def)
  from Cons.IH [OF this] show ?case by (simp add: x case_prod_beta Let_def)
qed simp

text \<open>A sender that counts up, wrapping, with step numbers that never go back.\<close>

fun counting_up :: "int \<Rightarrow> int list \<Rightarrow> (int \<times> int option) list" where
  "counting_up n [] = []"
| "counting_up n (step # steps) = (n, Some step) # counting_up ((n + 1) mod 2 ^ 32) steps"

definition in_order :: sequence_result where
  "in_order = SequenceResult SD_IN_ORDER True"

lemma observe_next:
  assumes "tr_last_sequence s = Some l" "tr_last_step_id s = Some b" "b \<le> a" "0 \<le> b" "a < 2 ^ 31"
  shows "\<exists>s'. observe ((l + 1) mod 2 ^ 32) (Some a) s = (Inr in_order, s')
     \<and> tr_last_sequence s' = Some ((l + 1) mod 2 ^ 32) \<and> tr_last_step_id s' = Some a"
proof -
  have "forward l ((l + 1) mod 2 ^ 32) = 1" by (simp add: forward_def mod_simps)
  moreover have "forward b a < 2 ^ 31" using assms by (simp add: forward_def)
  ultimately show ?thesis
    unfolding observe_eq observe_valid_Some [OF assms(1)]
    using assms by (simp add: Let_def u32_option_def in_order_def SequenceResult_def)
qed

lemma counting_up_accepted:
  "tr_last_sequence s = Some l \<Longrightarrow> tr_last_step_id s = Some b \<Longrightarrow> sorted (b # steps) \<Longrightarrow> 0 \<le> b \<Longrightarrow>
     (\<forall>a \<in> set steps. a < 2 ^ 31) \<Longrightarrow>
     fst (observe_all (counting_up ((l + 1) mod 2 ^ 32) steps) s) = map (\<lambda>_. Inr in_order) steps"
proof (induction steps arbitrary: s l b)
  case (Cons a steps)
  from Cons.prems observe_next [OF Cons.prems(1,2), of a]
  obtain s' where s': "observe ((l + 1) mod 2 ^ 32) (Some a) s = (Inr in_order, s')"
    "tr_last_sequence s' = Some ((l + 1) mod 2 ^ 32)" "tr_last_step_id s' = Some a" by auto
  have "0 \<le> a" using Cons.prems by simp
  with Cons.IH [OF s'(2,3)] Cons.prems s'(1) show ?case by (simp add: case_prod_beta)
qed simp

section \<open>Properties\<close>

definition sample_tracker :: sequence_tracker where
  "sample_tracker = \<lparr>tr_reorder_window = 32, tr_stats = SequenceStats\<lparr>ss_accepted := 1\<rparr>,
     tr_last_sequence = Some 4294967295, tr_last_step_id = Some 10\<rparr>"

text \<open>C12: an observation is accepted exactly when the number is ahead of the last accepted one by
  less than half the ring and its step is not older; it is in order when it is the successor and
  a gap otherwise, missing the numbers in between. Everything else is a duplicate, out of order
  within the window, or stale, and leaves the tracker's position where it was.\<close>

theorem observe_classification:
  assumes "tr_last_sequence s = Some l" "0 \<le> seq \<and> seq < 2 ^ 32" "u32_option step"
  shows "\<exists>r s'. observe seq step s = (Inr r, s') \<and>
    (let d = (seq - l) mod 2 ^ 32;
         old_step = (\<exists>a b. step = Some a \<and> tr_last_step_id s = Some b \<and> 2 ^ 31 \<le> (a - b) mod 2 ^ 32 \<and> a \<noteq> b) in
     sr_disposition r =
       (if d = 0 then SD_DUPLICATE
        else if d < 2 ^ 31 then (if old_step then SD_STALE else if d = 1 then SD_IN_ORDER else SD_GAP)
        else if 2 ^ 32 - d \<le> tr_reorder_window s then SD_OUT_OF_ORDER else SD_STALE)
     \<and> sr_accepted r = (sr_disposition r \<in> {SD_IN_ORDER, SD_GAP})
     \<and> sr_missing r = (if sr_accepted r then d - 1 else 0)
     \<and> tr_last_sequence s' = (if sr_accepted r then Some seq else Some l)
     \<and> (\<not> sr_accepted r \<longrightarrow> tr_last_step_id s' = tr_last_step_id s))"
  using assms unfolding observe_eq observe_valid_Some [OF assms(1)]
  by (auto simp: Let_def forward_def SequenceResult_def split: option.splits)

theorem observe_classification_witness:
  "\<exists>r s'. observe 1 (Some 11) sample_tracker = (Inr r, s') \<and> sr_disposition r = SD_GAP
     \<and> sr_missing r = 1 \<and> tr_last_sequence s' = Some 1"
  using observe_classification [of sample_tracker 4294967295 1 "Some 11"]
  by (auto simp: sample_tracker_def u32_option_def Let_def)

text \<open>along any run of observations, good or bad, the last accepted number is the first one
  advanced (modulo 2^32) by the further acceptances and by everything counted missing; the
  counters stay non-negative and the stored numbers in range.\<close>

theorem tracker_counts_exactly:
  assumes "tracker_inv s" "tr_last_sequence s = None" "0 \<le> first" "first < 2 ^ 32"
    "tr_stats s = SequenceStats" "u32_option step"
  shows "(let s' = snd (observe_all ((first, step) # obs) s) in
     tracker_inv s'
     \<and> tr_last_sequence s' = Some ((first + (ss_accepted (tr_stats s') - 1) + ss_missing (tr_stats s')) mod 2 ^ 32))"
proof -
  have "on_course first (snd (observe first step s))"
    using assms by (simp add: observe_eq observe_valid_None on_course_def SequenceStats_def)
  then have "on_course first (snd (observe_all ((first, step) # obs) s))"
    using observe_all_on_course by (simp add: case_prod_beta Let_def)
  then show ?thesis
    using observe_all_keeps [OF assms(1)] by (simp add: Let_def on_course_def del: observe_all.simps)
qed

theorem tracker_counts_exactly_witness:
  "\<exists>t. SequenceTracker 32 = Inr t \<and> tracker_inv (snd (observe_all [(5, None), (9, None), (5, Some 1)] t))"
proof -
  define t where "t = \<lparr>tr_reorder_window = 32, tr_stats = SequenceStats, tr_last_sequence = None,
      tr_last_step_id = None\<rparr>"
  have "SequenceTracker 32 = Inr t" by (simp add: SequenceTracker_def t_def)
  moreover have "tracker_inv t" by (simp add: t_def tracker_inv_def u32_option_def SequenceStats_def)
  ultimately show ?thesis
    using tracker_counts_exactly [of t 5 None "[(9, None), (5, Some 1)]"]
    by (simp add: t_def u32_option_def Let_def)
qed

text \<open>a sender that counts up by one, across the wrap from 2^32 - 1 to 0, and whose step
  numbers do not decrease, has every packet classified as in order.\<close>

theorem counting_sender_accepted:
  assumes "tr_last_sequence s = Some l" "tr_last_step_id s = Some b" "sorted (b # steps)" "0 \<le> b"
    "\<forall>a \<in> set steps. a < 2 ^ 31"
  shows "fst (observe_all (counting_up ((l + 1) mod 2 ^ 32) steps) s) = map (\<lambda>_. Inr in_order) steps"
  using assms by (rule counting_up_accepted)

theorem counting_sender_accepted_witness:
  "fst (observe_all (counting_up ((4294967295 + 1) mod 2 ^ 32) [10, 10, 12]) sample_tracker)
     = map (\<lambda>_. Inr in_order) [10, 10, 12 :: int]"
  by (rule counting_sender_accepted [of _ _ 10]) (simp_all add: sample_tracker_def)

end
