(* ===== verification/Transport.thy ===== *)
theory Transport
  imports Prelude
begin

text \<open>
  \<^verbatim>\<open>ByteTransport\<close> and \<^verbatim>\<open>InMemoryEndpoint\<close> of \<^verbatim>\<open>transport.py\<close>. The protocol class is a
  record of operations on a transport state; what a caller may rely on is the locale
  \<^verbatim>\<open>byte_transport\<close>, and the locale \<^verbatim>\<open>finite_transport\<close> adds that only finitely many bytes can be
  read before more arrive. The in-memory link is an interpretation of both; its refinement
  lemmas say that it is a byte queue.
\<close>

section \<open>The interface\<close>

record 't byte_transport_ops =
  bt_is_open :: "'t \<Rightarrow> bool"
  bt_write :: "bytes \<Rightarrow> ('t, int) meth"
  bt_read :: "int \<Rightarrow> ('t, bytes) meth"
  bt_close :: "('t, unit) meth"

locale byte_transport =
  fixes ops :: "'t byte_transport_ops"
    and tinv :: "'t \<Rightarrow> bool"
  assumes write_keeps: "tinv t \<Longrightarrow> bt_write ops d t = (r, t') \<Longrightarrow> tinv t'"
    and write_count: "tinv t \<Longrightarrow> bt_write ops d t = (Inr n, t') \<Longrightarrow> 0 \<le> n \<and> n \<le> int (length d)"
    and write_error: "tinv t \<Longrightarrow> bt_write ops d t = (Inl e, t') \<Longrightarrow> e = TransportError"
    and read_keeps: "tinv t \<Longrightarrow> 0 < m \<Longrightarrow> bt_read ops m t = (q, t') \<Longrightarrow> tinv t'"
    and read_bound: "tinv t \<Longrightarrow> 0 < m \<Longrightarrow> bt_read ops m t = (Inr d, t') \<Longrightarrow> int (length d) \<le> m"
    and read_error: "tinv t \<Longrightarrow> 0 < m \<Longrightarrow> bt_read ops m t = (Inl e, t') \<Longrightarrow> e = TransportError"
    and close_keeps: "tinv t \<Longrightarrow> bt_close ops t = (u, t') \<Longrightarrow> tinv t'"

locale finite_transport = byte_transport +
  fixes backlog :: "'a \<Rightarrow> nat"
  assumes read_progress:
    "tinv t \<Longrightarrow> 0 < m \<Longrightarrow> bt_read ops m t = (Inr d, t') \<Longrightarrow> d \<noteq> [] \<Longrightarrow> backlog t' < backlog t"

section \<open>The in-memory link\<close>

record in_memory_endpoint =
  ep_chunks :: "bytes list"
  ep_open :: bool
  ep_read_limit :: "int option"

text \<open>An endpoint and its \<^verbatim>\<open>_peer\<close>.\<close>

type_synonym memory_link = "in_memory_endpoint \<times> in_memory_endpoint option"

definition InMemoryEndpoint :: "int option \<Rightarrow> in_memory_endpoint result" where
  "InMemoryEndpoint read_limit =
     (if (case read_limit of None \<Rightarrow> False | Some n \<Rightarrow> n \<le> 0) then Inl ValueError
      else Inr \<lparr>ep_chunks = [], ep_open = True, ep_read_limit = read_limit\<rparr>)"

definition endpoint_pair ::
  "int option \<Rightarrow> int option \<Rightarrow> (in_memory_endpoint \<times> in_memory_endpoint) result" where
  "endpoint_pair first_read_limit second_read_limit =
     bindR (InMemoryEndpoint first_read_limit) (\<lambda>first.
     bindR (InMemoryEndpoint second_read_limit) (\<lambda>second. Inr (first, second)))"

definition pending_bytes :: "in_memory_endpoint \<Rightarrow> nat" where
  "pending_bytes e = sum_list (map length (ep_chunks e))"

definition link_write :: "bytes \<Rightarrow> (memory_link, int) meth" where
  "link_write data l =
     (case l of (self, peer) \<Rightarrow>
        if \<not> ep_open self then (Inl TransportError, l)
        else if data = [] then (Inr 0, l)
        else (case peer of
          None \<Rightarrow> (Inl TransportError, l)
        | Some p \<Rightarrow>
            if \<not> ep_open p then (Inl TransportError, l)
            else (Inr (int (length data)), (self, Some (p\<lparr>ep_chunks := ep_chunks p @ [data]\<rparr>)))))"

definition endpoint_inject :: "bytes \<Rightarrow> (in_memory_endpoint, unit) meth" where
  "endpoint_inject data e =
     (if \<not> ep_open e then (Inl TransportError, e)
      else if data \<noteq> [] then (Inr (), e\<lparr>ep_chunks := ep_chunks e @ [data]\<rparr>)
      else (Inr (), e))"

text \<open>The loop of \<^verbatim>\<open>read\<close>: the bytes gathered and the chunks that are left.\<close>

function read_loop :: "nat \<Rightarrow> bytes \<Rightarrow> bytes list \<Rightarrow> bytes \<times> bytes list" where
  "read_loop limit gathered chunks =
     (if chunks \<noteq> [] \<and> length gathered < limit then
        let chunk = hd chunks;
            taken = min (limit - length gathered) (length chunk);
            gathered' = gathered @ take taken chunk;
            rest = drop taken chunk
        in read_loop limit gathered' (if rest = [] then tl chunks else rest # tl chunks)
      else (gathered, chunks))"
  by pat_completeness auto
termination
proof (relation "measure (\<lambda>(limit, gathered, chunks). sum_list (map length chunks) + length chunks)", goal_cases)
  case 1
  then show ?case by simp
next
  case (2 limit gathered chunks chunk taken gathered' rest)
  then show ?case by (cases chunks; cases "hd chunks") (auto simp: min_def split: if_splits)
qed

definition endpoint_read :: "int \<Rightarrow> (in_memory_endpoint, bytes) meth" where
  "endpoint_read max_bytes e =
     (if \<not> ep_open e then (Inl TransportError, e)
      else if max_bytes \<le> 0 then (Inl ValueError, e)
      else if ep_chunks e = [] then (Inr [], e)
      else
        let limit = (case ep_read_limit e of None \<Rightarrow> max_bytes | Some n \<Rightarrow> min max_bytes n);
            (gathered, chunks) = read_loop (nat limit) [] (ep_chunks e)
        in (Inr gathered, e\<lparr>ep_chunks := chunks\<rparr>))"

definition link_read :: "int \<Rightarrow> (memory_link, bytes) meth" where
  "link_read max_bytes l =
     (case l of (self, peer) \<Rightarrow>
        (case endpoint_read max_bytes self of (r, self') \<Rightarrow> (r, (self', peer))))"

definition endpoint_close :: "in_memory_endpoint \<Rightarrow> in_memory_endpoint" where
  "endpoint_close e = e\<lparr>ep_open := False, ep_chunks := []\<rparr>"

definition memory_ops :: "memory_link byte_transport_ops" where
  "memory_ops = \<lparr>bt_is_open = (\<lambda>l. ep_open (fst l)), bt_write = link_write, bt_read = link_read,
     bt_close = (\<lambda>l. (Inr (), (endpoint_close (fst l), snd l)))\<rparr>"

section \<open>It is a byte queue\<close>

definition queued :: "in_memory_endpoint \<Rightarrow> bytes" where
  "queued e = concat (ep_chunks e)"

definition limit_ok :: "in_memory_endpoint \<Rightarrow> bool" where
  "limit_ok e \<longleftrightarrow> (\<forall>n. ep_read_limit e = Some n \<longrightarrow> 0 < n)"

definition memory_inv :: "memory_link \<Rightarrow> bool" where
  "memory_inv l \<longleftrightarrow> limit_ok (fst l)"

declare read_loop.simps [simp del]

lemma read_loop_queue:
  "length gathered \<le> limit \<Longrightarrow> read_loop limit gathered chunks = (out, chunks') \<Longrightarrow>
     out = gathered @ take (limit - length gathered) (concat chunks)
     \<and> concat chunks' = drop (limit - length gathered) (concat chunks)"
proof (induction limit gathered chunks arbitrary: out chunks' rule: read_loop.induct)
  case (1 limit gathered chunks)
  show ?case
  proof (cases "chunks \<noteq> [] \<and> length gathered < limit")
    case True
    then obtain chunk tail where c: "chunks = chunk # tail" by (cases chunks) auto
    define taken where "taken = min (limit - length gathered) (length chunk)"
    define nxt where "nxt = (if drop taken chunk = [] then tail else drop taken chunk # tail)"
    have step: "read_loop limit gathered chunks = read_loop limit (gathered @ take taken chunk) nxt"
      unfolding c taken_def nxt_def
      by (subst read_loop.simps) (use True c in \<open>simp add: Let_def\<close>)
    have nx: "concat nxt = drop taken chunk @ concat tail" by (simp add: nxt_def)
    have "read_loop limit (gathered @ take taken chunk) nxt = (out, chunks')"
      using 1(3) step by simp
    then have ih: "out = (gathered @ take taken chunk) @ take (limit - length (gathered @ take taken chunk)) (concat nxt)
        \<and> concat chunks' = drop (limit - length (gathered @ take taken chunk)) (concat nxt)"
      using 1(1) [OF True refl refl refl refl] 1(2) True
      unfolding c taken_def nxt_def by (simp add: min_def split: if_splits)
    show ?thesis
      using ih True unfolding nx c taken_def by (auto simp: min_def split: if_splits)
  next
    case False
    then show ?thesis using 1(2,3) by (subst (asm) read_loop.simps) auto
  qed
qed

lemma endpoint_read_queue:
  assumes "ep_open e" "0 < m" "limit_ok e"
  shows "\<exists>e'. endpoint_read m e = (Inr (take (nat (case ep_read_limit e of None \<Rightarrow> m | Some n \<Rightarrow> min m n)) (queued e)), e')
    \<and> queued e' = drop (nat (case ep_read_limit e of None \<Rightarrow> m | Some n \<Rightarrow> min m n)) (queued e)
    \<and> ep_open e' \<and> ep_read_limit e' = ep_read_limit e"
proof (cases "ep_chunks e = []")
  case True
  then show ?thesis using assms by (simp add: endpoint_read_def queued_def)
next
  case False
  let ?l = "nat (case ep_read_limit e of None \<Rightarrow> m | Some n \<Rightarrow> min m n)"
  obtain out chunks where r: "read_loop ?l [] (ep_chunks e) = (out, chunks)" by fastforce
  from read_loop_queue [OF _ r] r False assms show ?thesis
    by (simp add: endpoint_read_def queued_def Let_def)
qed

lemma pending_queued: "pending_bytes e = length (queued e)"
  by (simp add: pending_bytes_def queued_def length_concat)

lemma endpoint_read_cases:
  assumes "limit_ok e" "0 < m" "endpoint_read m e = (r, e')"
  shows "(r = Inl TransportError \<and> e' = e) \<or>
    (\<exists>n. 0 < n \<and> int n \<le> m \<and> r = Inr (take n (queued e)) \<and> queued e' = drop n (queued e)
      \<and> ep_read_limit e' = ep_read_limit e)"
proof (cases "ep_open e")
  case True
  let ?n = "nat (case ep_read_limit e of None \<Rightarrow> m | Some n \<Rightarrow> min m n)"
  have "0 < ?n" "int ?n \<le> m" using assms(1,2) by (auto simp: limit_ok_def split: option.splits)
  with endpoint_read_queue [OF True assms(2,1)] assms(3) show ?thesis
    by (intro disjI2 exI [of _ ?n]) auto
next
  case False
  with assms(3) show ?thesis by (simp add: endpoint_read_def)
qed

interpretation memory: finite_transport memory_ops memory_inv "\<lambda>l. pending_bytes (fst l)"
proof
  fix l d r l' n e and m :: int
  assume inv: "memory_inv l"
  show "memory_inv l'" if "bt_write memory_ops d l = (r, l')"
    using inv that by (auto simp: memory_ops_def link_write_def memory_inv_def split: prod.splits option.splits if_splits)
  show "0 \<le> n \<and> n \<le> int (length d)" if "bt_write memory_ops d l = (Inr n, l')"
    using that by (auto simp: memory_ops_def link_write_def split: prod.splits option.splits if_splits)
  show "e = TransportError" if "bt_write memory_ops d l = (Inl e, l')"
    using that by (auto simp: memory_ops_def link_write_def split: prod.splits option.splits if_splits)
  show "memory_inv l'" if "bt_close memory_ops l = (u, l')" for u
    using inv that by (auto simp: memory_ops_def memory_inv_def limit_ok_def endpoint_close_def)
  assume m: "0 < m"
  have cases: "(q = Inl TransportError \<and> l' = l) \<or>
      (\<exists>k. 0 < k \<and> int k \<le> m \<and> q = Inr (take k (queued (fst l))) \<and> queued (fst l') = drop k (queued (fst l))
        \<and> memory_inv l')" if "bt_read memory_ops m l = (q, l')" for q
  proof -
    have "endpoint_read m (fst l) = (q, fst l')" and p: "snd l' = snd l"
      using that by (auto simp: memory_ops_def link_read_def split: prod.splits)
    from endpoint_read_cases [OF _ m this(1)] inv p show ?thesis
      unfolding memory_inv_def limit_ok_def by (metis prod.collapse)
  qed
  show "memory_inv l'" if "bt_read memory_ops m l = (q, l')" for q
    using cases [OF that] inv by auto
  show "int (length d) \<le> m" if "bt_read memory_ops m l = (Inr d, l')"
    using cases [OF that] by auto
  show "e = TransportError" if "bt_read memory_ops m l = (Inl e, l')"
    using cases [OF that] by auto
  show "pending_bytes (fst l') < pending_bytes (fst l)"
    if "bt_read memory_ops m l = (Inr d, l')" "d \<noteq> []"
    using cases [OF that(1)] that(2) by (auto simp: pending_queued)
qed

section \<open>Property\<close>

text \<open>the in-memory link is a byte queue: a write appends all its bytes to what the peer has
  queued, and a read of the peer takes from the front of that queue as many bytes as were asked
  for, capped by the endpoint's read limit, leaving the rest in order.\<close>

theorem memory_link_is_a_queue:
  assumes "ep_open a" "ep_open b" "limit_ok b" "0 < m" "d \<noteq> []"
  shows "\<exists>b'. link_write d (a, Some b) = (Inr (int (length d)), (a, Some b'))
    \<and> queued b' = queued b @ d
    \<and> (let n = nat (case ep_read_limit b of None \<Rightarrow> m | Some k \<Rightarrow> min m k) in
       \<exists>b''. link_read m (b', Some a) = (Inr (take n (queued b @ d)), (b'', Some a))
         \<and> queued b'' = drop n (queued b @ d))"
proof -
  let ?b = "b\<lparr>ep_chunks := ep_chunks b @ [d]\<rparr>"
  have "ep_open ?b" "limit_ok ?b" "queued ?b = queued b @ d" "ep_read_limit ?b = ep_read_limit b"
    using assms by (simp_all add: limit_ok_def queued_def)
  with endpoint_read_queue [of ?b m] assms show ?thesis
    by (intro exI [of _ ?b]) (auto simp: link_write_def link_read_def Let_def)
qed

theorem memory_link_is_a_queue_witness:
  "\<exists>b' b''. link_write [4, 5] (\<lparr>ep_chunks = [], ep_open = True, ep_read_limit = None\<rparr>,
        Some \<lparr>ep_chunks = [[1, 2], [3]], ep_open = True, ep_read_limit = Some 4\<rparr>)
      = (Inr 2, (\<lparr>ep_chunks = [], ep_open = True, ep_read_limit = None\<rparr>, Some b'))
    \<and> link_read 512 (b', Some \<lparr>ep_chunks = [], ep_open = True, ep_read_limit = None\<rparr>)
      = (Inr [1, 2, 3, 4], (b'', Some \<lparr>ep_chunks = [], ep_open = True, ep_read_limit = None\<rparr>))"
  using memory_link_is_a_queue [of "\<lparr>ep_chunks = [], ep_open = True, ep_read_limit = None\<rparr>"
      "\<lparr>ep_chunks = [[1, 2], [3]], ep_open = True, ep_read_limit = Some 4\<rparr>" 512 "[4, 5]"]
  by (auto simp: limit_ok_def queued_def Let_def)

end
