(* ===== verification/Session.thy ===== *)
theory Session
  imports Payload_Decode Stream_Parser Sequence_Tracker Transport
begin

text \<open>
  \<^verbatim>\<open>HostSession\<close> of \<^verbatim>\<open>session.py\<close>: handshake, sending, polling, timeout and close, over any
  transport (a record of operations). Every method returns its result or its exception together
  with the session it leaves behind. The lemmas are proved in the context of the transport
  contract: the session invariant and that every method keeps it, which exceptions a method can
  raise, when a session becomes active and when it times out, and how a route is cut in chunks.
\<close>

section \<open>Constants\<close>

definition SUPPORTED_CAPABILITIES :: int where
  "SUPPORTED_CAPABILITIES = CAP_SENSOR_FRAME OR CAP_ROUTE_CHUNK OR CAP_STATE_ESTIMATE
     OR CAP_HEALTH_STATUS OR CAP_SAFE_STOP"

definition payload_length :: "packet result \<Rightarrow> int" where
  "payload_length r = (case r of Inl _ \<Rightarrow> 0 | Inr p \<Rightarrow> int (length (payload p)))"

definition SENSOR_FRAME_PAYLOAD_SIZE :: int where
  "SENSOR_FRAME_PAYLOAD_SIZE =
     payload_length (make_packet MT_SENSOR_FRAME 0 0 (P_SensorFrame SensorFramePayload))"

text \<open>The acceptance radius \<^verbatim>\<open>0.1\<close> of the probe waypoint is its binary64 pattern.\<close>

definition ROUTE_PREFIX_PAYLOAD_SIZE :: int where
  "ROUTE_PREFIX_PAYLOAD_SIZE =
     payload_length (make_packet MT_ROUTE_CHUNK 0 0 (P_RouteChunk
       \<lparr>rc_route_id = 0, rc_start_index = 0, rc_total_count = 1,
        rc_flags = RF_CLEAR_EXISTING OR RF_FINAL_CHUNK,
        rc_points = [\<lparr>wp_x_m = 0, wp_y_m = 0, wp_target_speed_mps = 0,
                      wp_acceptance_radius_m = 0x3FB999999999999A\<rparr>]\<rparr>)) - 16"

section \<open>State\<close>

datatype session_state =
    ST_DISCONNECTED | ST_HELLO_SENT | ST_ACTIVE | ST_TIMED_OUT | ST_SAFE_STOP | ST_ERROR | ST_CLOSED

record session_config =
  sc_timeout_ms :: int
  sc_max_reads_per_poll :: int
  sc_max_tx_buffer :: int
  sc_required_capabilities :: int

definition SessionConfig :: "int \<Rightarrow> int \<Rightarrow> int \<Rightarrow> int \<Rightarrow> session_config result" where
  "SessionConfig timeout_ms max_reads max_tx required =
     (if timeout_ms \<le> 0 then Inl ValueError
      else if max_reads \<le> 0 then Inl ValueError
      else if max_tx < 256 then Inl ValueError
      else if required < 0 \<or> required AND NOT SUPPORTED_CAPABILITIES \<noteq> 0 then Inl ValueError
      else Inr \<lparr>sc_timeout_ms = timeout_ms, sc_max_reads_per_poll = max_reads,
                sc_max_tx_buffer = max_tx, sc_required_capabilities = required\<rparr>)"

record session_stats =
  sx_tx_packets :: nat
  sx_tx_bytes :: int
  sx_rx_packets :: nat
  sx_rx_bytes :: nat
  sx_rx_rejected :: nat
  sx_rx_payload_errors :: nat
  sx_timeouts :: nat
  sx_reconnects :: nat
  sx_transport_errors :: nat

definition SessionStats :: session_stats where
  "SessionStats = \<lparr>sx_tx_packets = 0, sx_tx_bytes = 0, sx_rx_packets = 0, sx_rx_bytes = 0,
     sx_rx_rejected = 0, sx_rx_payload_errors = 0, sx_timeouts = 0, sx_reconnects = 0,
     sx_transport_errors = 0\<rparr>"

record session_event =
  ev_packet :: packet
  ev_payload :: typed_payload
  ev_sequence_disposition :: sequence_disposition

record 't host_session =
  sn_transport :: 't
  sn_config :: session_config
  sn_state :: session_state
  sn_stats :: session_stats
  sn_parser :: stream_parser
  sn_rx_sequence :: sequence_tracker
  sn_tx_sequence :: int
  sn_tx_buffer :: bytes
  sn_last_rx_ms :: "int option"
  sn_last_now_ms :: "int option"
  sn_peer_capabilities :: "int option"
  sn_negotiated_max_payload :: "int option"
  sn_negotiated_timeout_ms :: "int option"

definition HostSession :: "'t \<Rightarrow> session_config \<Rightarrow> 't host_session result" where
  "HostSession transport config =
     bindR (SequenceTracker 32) (\<lambda>tracker.
     Inr \<lparr>sn_transport = transport, sn_config = config, sn_state = ST_DISCONNECTED,
          sn_stats = SessionStats, sn_parser = StreamParser, sn_rx_sequence = tracker,
          sn_tx_sequence = 0, sn_tx_buffer = [], sn_last_rx_ms = None, sn_last_now_ms = None,
          sn_peer_capabilities = None, sn_negotiated_max_payload = None,
          sn_negotiated_timeout_ms = None\<rparr>)"

section \<open>Sending\<close>

text \<open>\<^verbatim>\<open>_flush_tx\<close>: a turn that goes on has taken bytes off the buffer.\<close>

function flush_tx :: "'t byte_transport_ops \<Rightarrow> ('t host_session, unit) meth" where
  "flush_tx ops s =
     (if sn_tx_buffer s = [] then (Inr (), s)
      else
        case bt_write ops (sn_tx_buffer s) (sn_transport s) of
          (Inl e, t) \<Rightarrow>
            if e = TransportError then
              (Inl e, s\<lparr>sn_transport := t, sn_state := ST_ERROR, sn_stats := (sn_stats s)
                 \<lparr>sx_transport_errors := sx_transport_errors (sn_stats s) + 1\<rparr>\<rparr>)
            else (Inl e, s\<lparr>sn_transport := t\<rparr>)
        | (Inr written, t) \<Rightarrow>
            if written < 0 \<or> int (length (sn_tx_buffer s)) < written then
              (Inl SessionError, s\<lparr>sn_transport := t, sn_state := ST_ERROR\<rparr>)
            else if written = 0 then (Inr (), s\<lparr>sn_transport := t\<rparr>)
            else
              flush_tx ops (s\<lparr>sn_transport := t, sn_tx_buffer := drop (nat written) (sn_tx_buffer s),
                sn_stats := (sn_stats s)\<lparr>sx_tx_bytes := sx_tx_bytes (sn_stats s) + written\<rparr>\<rparr>))"
  by pat_completeness auto
termination
  by (relation "measure (\<lambda>(ops, s). length (sn_tx_buffer s))") auto

declare flush_tx.simps [simp del]

definition send ::
  "'t byte_transport_ops \<Rightarrow> message_type \<Rightarrow> int \<Rightarrow> typed_payload \<Rightarrow> ('t host_session, unit) meth" where
  "send ops mt step p s =
     (case make_packet mt (sn_tx_sequence s) step p of
        Inl e \<Rightarrow> (Inl e, s)
      | Inr pkt \<Rightarrow>
          if mt \<noteq> MT_HELLO
             \<and> (case sn_negotiated_max_payload s of None \<Rightarrow> False | Some n \<Rightarrow> n < int (length (payload pkt)))
          then (Inl SessionError, s)
          else
            (case encode_packet pkt of
              Inl e \<Rightarrow> (Inl e, s)
            | Inr frame \<Rightarrow>
                if sc_max_tx_buffer (sn_config s) < int (length (sn_tx_buffer s)) + int (length frame)
                then (Inl SessionError, s)
                else
                  flush_tx ops (s\<lparr>sn_tx_buffer := sn_tx_buffer s @ frame,
                    sn_tx_sequence := (sn_tx_sequence s + 1) AND 0xFFFFFFFF,
                    sn_stats := (sn_stats s)\<lparr>sx_tx_packets := sx_tx_packets (sn_stats s) + 1\<rparr>\<rparr>)))"

definition require_active :: "('t host_session, unit) meth" where
  "require_active s = (if sn_state s \<noteq> ST_ACTIVE then (Inl SessionError, s) else (Inr (), s))"

definition validate_now :: "int \<Rightarrow> ('t host_session, unit) meth" where
  "validate_now now_ms s =
     (if now_ms < 0 then (Inl ValueError, s)
      else if (case sn_last_now_ms s of None \<Rightarrow> False | Some n \<Rightarrow> now_ms < n) then (Inl ValueError, s)
      else (Inr (), s\<lparr>sn_last_now_ms := Some now_ms\<rparr>))"

definition hello_message :: "session_config \<Rightarrow> typed_payload" where
  "hello_message config =
     P_Hello ((HelloPayload ROLE_HOST)\<lparr>hello_capabilities := SUPPORTED_CAPABILITIES,
       hello_heartbeat_timeout_ms := sc_timeout_ms config\<rparr>)"

definition session_start :: "'t byte_transport_ops \<Rightarrow> int \<Rightarrow> ('t host_session, unit) meth" where
  "session_start ops now_ms =
     bindM (validate_now now_ms) (\<lambda>_ s.
       if sn_state s = ST_CLOSED then (Inl SessionError, s)
       else
         bindM (send ops MT_HELLO 0 (hello_message (sn_config s)))
           (\<lambda>_. modifyM (\<lambda>s. s\<lparr>sn_state := ST_HELLO_SENT\<rparr>))
           (s\<lparr>sn_parser := parser_reset False (sn_parser s),
             sn_rx_sequence := tracker_reset False (sn_rx_sequence s),
             sn_tx_buffer := [], sn_tx_sequence := 0, sn_last_rx_ms := Some now_ms,
             sn_peer_capabilities := None, sn_negotiated_max_payload := None,
             sn_negotiated_timeout_ms := None\<rparr>))"

definition session_reconnect :: "'t byte_transport_ops \<Rightarrow> int \<Rightarrow> ('t host_session, unit) meth" where
  "session_reconnect ops now_ms s =
     (if sn_state s = ST_CLOSED then (Inl SessionError, s)
      else session_start ops now_ms (s\<lparr>sn_stats := (sn_stats s)
             \<lparr>sx_reconnects := sx_reconnects (sn_stats s) + 1\<rparr>, sn_tx_buffer := []\<rparr>))"

definition send_sensor ::
  "'t byte_transport_ops \<Rightarrow> int \<Rightarrow> sensor_frame_payload \<Rightarrow> ('t host_session, unit) meth" where
  "send_sensor ops step p =
     bindM require_active (\<lambda>_. send ops MT_SENSOR_FRAME step (P_SensorFrame p))"

definition send_heartbeat ::
  "'t byte_transport_ops \<Rightarrow> int \<Rightarrow> int \<Rightarrow> int \<Rightarrow> runtime_state \<Rightarrow> ('t host_session, unit) meth" where
  "send_heartbeat ops step uptime_ms monotonic_ms state =
     bindM require_active (\<lambda>_. send ops MT_HEARTBEAT step
       (P_Heartbeat \<lparr>hb_uptime_ms = uptime_ms, hb_monotonic_ms = monotonic_ms,
                     hb_runtime_state = state\<rparr>))"

text \<open>\<^verbatim>\<open>range(0, n, k)\<close> for a positive \<open>k\<close>.\<close>

definition py_range :: "nat \<Rightarrow> nat \<Rightarrow> nat list" where
  "py_range n k = map (\<lambda>i. i * k) [0..<(n + k - 1) div k]"

definition route_chunk_at ::
  "int \<Rightarrow> route_waypoint list \<Rightarrow> bool \<Rightarrow> nat \<Rightarrow> nat \<Rightarrow> route_chunk_payload" where
  "route_chunk_at route_id points loop_route k start =
     (let chunk = take k (drop start points);
          flags = (if start = 0 then RF_CLEAR_EXISTING else 0);
          flags = (if start + length chunk = length points then flags OR RF_FINAL_CHUNK else flags);
          flags = (if loop_route then flags OR RF_LOOP_ROUTE else flags)
      in \<lparr>rc_route_id = route_id, rc_start_index = int start, rc_total_count = int (length points),
          rc_flags = flags, rc_points = chunk\<rparr>)"

fun send_chunks ::
  "'t byte_transport_ops \<Rightarrow> int \<Rightarrow> route_chunk_payload list \<Rightarrow> ('t host_session, unit) meth" where
  "send_chunks ops step [] = returnM ()"
| "send_chunks ops step (c # cs) =
     bindM (send ops MT_ROUTE_CHUNK step (P_RouteChunk c)) (\<lambda>_. send_chunks ops step cs)"

definition points_per_chunk :: "int \<Rightarrow> int" where
  "points_per_chunk limit =
     min (int MAX_ROUTE_POINTS_PER_CHUNK) ((limit - ROUTE_PREFIX_PAYLOAD_SIZE) div 16)"

definition send_route ::
  "'t byte_transport_ops \<Rightarrow> int \<Rightarrow> route_waypoint list \<Rightarrow> int \<Rightarrow> bool \<Rightarrow> ('t host_session, unit) meth" where
  "send_route ops route_id points step loop_route =
     bindM require_active (\<lambda>_ s.
       if points = [] then (Inl ValueError, s)
       else if 0xFFFF < length points then (Inl ValueError, s)
       else
         case sn_negotiated_max_payload s of
           None \<Rightarrow> (Inl SessionError, s)
         | Some limit \<Rightarrow>
             if points_per_chunk limit \<le> 0 then (Inl SessionError, s)
             else
               let k = nat (points_per_chunk limit) in
               send_chunks ops step
                 (map (route_chunk_at route_id points loop_route k) (py_range (length points) k)) s)"

definition request_safe_stop ::
  "'t byte_transport_ops \<Rightarrow> safe_stop_reason \<Rightarrow> int \<Rightarrow> int \<Rightarrow> ('t host_session, unit) meth" where
  "request_safe_stop ops reason detail step s =
     (if sn_state s \<in> {ST_CLOSED, ST_ERROR} then (Inl SessionError, s)
      else
        bindM (send ops MT_SAFE_STOP step
                (P_SafeStop \<lparr>ss_reason = reason, ss_latch = True, ss_detail = detail\<rparr>))
          (\<lambda>_. modifyM (\<lambda>s. s\<lparr>sn_state := ST_SAFE_STOP\<rparr>)) s)"

section \<open>Receiving\<close>

definition minimum_peer_payload :: "int \<Rightarrow> int" where
  "minimum_peer_payload required =
     (let minimum = 1;
          minimum = (if required AND CAP_SENSOR_FRAME \<noteq> 0
                     then max minimum SENSOR_FRAME_PAYLOAD_SIZE else minimum);
          minimum = (if required AND CAP_ROUTE_CHUNK \<noteq> 0
                     then max minimum (ROUTE_PREFIX_PAYLOAD_SIZE + 16) else minimum)
      in minimum)"

definition handle_session_packet :: "message_type \<Rightarrow> typed_payload \<Rightarrow> 't host_session \<Rightarrow> 't host_session" where
  "handle_session_packet mt p s =
     (if mt = MT_HELLO_ACK then
        case p of
          P_HelloAck a \<Rightarrow>
            let required = sc_required_capabilities (sn_config s);
                minimum_payload = minimum_peer_payload required in
            if \<not> (sn_state s = ST_HELLO_SENT
                  \<and> ack_status a = HS_OK
                  \<and> ack_accepted_version a = 1
                  \<and> ack_role a = ROLE_CONTROLLER
                  \<and> ack_capabilities a AND required = required
                  \<and> (minimum_payload \<le> ack_max_payload a \<and> ack_max_payload a \<le> int MAX_PAYLOAD_SIZE)
                  \<and> 0 < ack_heartbeat_timeout_ms a)
            then s\<lparr>sn_state := ST_ERROR\<rparr>
            else s\<lparr>sn_peer_capabilities := Some (ack_capabilities a),
                   sn_negotiated_max_payload := Some (ack_max_payload a),
                   sn_negotiated_timeout_ms :=
                     Some (min (sc_timeout_ms (sn_config s)) (ack_heartbeat_timeout_ms a)),
                   sn_state := ST_ACTIVE\<rparr>
        | _ \<Rightarrow> s\<lparr>sn_state := ST_ERROR\<rparr>
      else s)"

text \<open>One packet of the batch: the event it gives rise to, if any.\<close>

definition handle_packet :: "int \<Rightarrow> packet \<Rightarrow> ('t host_session, session_event option) meth" where
  "handle_packet now_ms pkt s =
     (case observe (sequence pkt)
             (if message_type pkt \<in> {MT_CONTROL_COMMAND, MT_STATE_ESTIMATE}
              then Some (step_id pkt) else None) (sn_rx_sequence s) of
        (Inl e, tr) \<Rightarrow> (Inl e, s\<lparr>sn_rx_sequence := tr\<rparr>)
      | (Inr r, tr) \<Rightarrow>
          let s1 = s\<lparr>sn_rx_sequence := tr\<rparr>; st = sn_stats s in
          if \<not> sr_accepted r then
            (Inr None, s1\<lparr>sn_stats := st\<lparr>sx_rx_rejected := sx_rx_rejected st + 1\<rparr>\<rparr>)
          else
            (case decode_packet_payload pkt of
               Inl (ProtocolError _) \<Rightarrow>
                 (Inr None, s1\<lparr>sn_stats := st\<lparr>sx_rx_payload_errors := sx_rx_payload_errors st + 1,
                                              sx_rx_rejected := sx_rx_rejected st + 1\<rparr>,
                              sn_state := (if message_type pkt = MT_HELLO_ACK then ST_ERROR else sn_state s1)\<rparr>)
             | Inl e \<Rightarrow> (Inl e, s1)
             | Inr p \<Rightarrow>
                 (Inr (Some \<lparr>ev_packet = pkt, ev_payload = p, ev_sequence_disposition = sr_disposition r\<rparr>),
                  handle_session_packet (message_type pkt) p
                    (s1\<lparr>sn_stats := st\<lparr>sx_rx_packets := sx_rx_packets st + 1\<rparr>,
                        sn_last_rx_ms := Some now_ms\<rparr>))))"

fun handle_packets ::
  "int \<Rightarrow> packet list \<Rightarrow> session_event list \<Rightarrow> ('t host_session, session_event list) meth" where
  "handle_packets now_ms [] events = returnM events"
| "handle_packets now_ms (pkt # pkts) events =
     bindM (handle_packet now_ms pkt)
       (\<lambda>e. handle_packets now_ms pkts (case e of None \<Rightarrow> events | Some ev \<Rightarrow> events @ [ev]))"

text \<open>The reads of one poll; the count-down is \<^verbatim>\<open>range(max_reads_per_poll)\<close>. The source calls
  \<^verbatim>\<open>read\<close> with its default of 512 bytes.\<close>

fun poll_reads ::
  "'t byte_transport_ops \<Rightarrow> int \<Rightarrow> nat \<Rightarrow> session_event list \<Rightarrow> ('t host_session, session_event list) meth" where
  "poll_reads ops now_ms 0 events s = (Inr events, s)"
| "poll_reads ops now_ms (Suc n) events s =
     (case bt_read ops 512 (sn_transport s) of
        (Inl e, t) \<Rightarrow>
          if e = TransportError then
            (Inl e, s\<lparr>sn_transport := t, sn_state := ST_ERROR, sn_stats := (sn_stats s)
               \<lparr>sx_transport_errors := sx_transport_errors (sn_stats s) + 1\<rparr>\<rparr>)
          else (Inl e, s\<lparr>sn_transport := t\<rparr>)
      | (Inr data, t) \<Rightarrow>
          if data = [] then (Inr events, s\<lparr>sn_transport := t\<rparr>)
          else
            let st = (sn_stats s)\<lparr>sx_rx_bytes := sx_rx_bytes (sn_stats s) + length data\<rparr>;
                s1 = s\<lparr>sn_transport := t, sn_stats := st\<rparr>
            in (case feed data (sn_parser s1) of
                 (Inl e, p) \<Rightarrow> (Inl e, s1\<lparr>sn_parser := p\<rparr>)
               | (Inr batch, p) \<Rightarrow>
                   bindM (handle_packets now_ms (pb_packets batch) events) (poll_reads ops now_ms n)
                     (s1\<lparr>sn_parser := p, sn_stats := st
                        \<lparr>sx_rx_rejected := sx_rx_rejected st + length (pb_errors batch)\<rparr>\<rparr>)))"

definition current_timeout_ms :: "('t host_session, int) meth" where
  "current_timeout_ms s =
     (if sn_state s = ST_ACTIVE then
        (case sn_negotiated_timeout_ms s of None \<Rightarrow> (Inl SessionError, s) | Some n \<Rightarrow> (Inr n, s))
      else (Inr (sc_timeout_ms (sn_config s)), s))"

definition check_timeout :: "int \<Rightarrow> ('t host_session, unit) meth" where
  "check_timeout now_ms s =
     (if sn_state s \<in> {ST_HELLO_SENT, ST_ACTIVE} then
        (case sn_last_rx_ms s of
           None \<Rightarrow> (Inr (), s)
         | Some last_rx \<Rightarrow>
             bindM current_timeout_ms (\<lambda>limit s.
               if limit < now_ms - last_rx then
                 (Inr (), s\<lparr>sn_state := ST_TIMED_OUT, sn_stats := (sn_stats s)
                    \<lparr>sx_timeouts := sx_timeouts (sn_stats s) + 1\<rparr>\<rparr>)
               else (Inr (), s)) s)
      else (Inr (), s))"

definition poll :: "'t byte_transport_ops \<Rightarrow> int \<Rightarrow> ('t host_session, session_event list) meth" where
  "poll ops now_ms =
     bindM (validate_now now_ms) (\<lambda>_ s.
       if sn_state s = ST_CLOSED then (Inr [], s)
       else
         bindM (flush_tx ops) (\<lambda>_ s.
         bindM (poll_reads ops now_ms (nat (sc_max_reads_per_poll (sn_config s))) []) (\<lambda>events.
         bindM (check_timeout now_ms) (\<lambda>_. returnM events)) s) s)"

definition session_close :: "'t byte_transport_ops \<Rightarrow> ('t host_session, unit) meth" where
  "session_close ops s =
     (case bt_close ops (sn_transport s) of
        (Inl e, t) \<Rightarrow> (Inl e, s\<lparr>sn_transport := t\<rparr>)
      | (Inr _, t) \<Rightarrow> (Inr (), s\<lparr>sn_transport := t, sn_tx_buffer := [], sn_state := ST_CLOSED\<rparr>))"

section \<open>The invariant\<close>

definition config_ok :: "session_config \<Rightarrow> bool" where
  "config_ok c \<longleftrightarrow> 0 < sc_timeout_ms c \<and> 0 < sc_max_reads_per_poll c \<and> 256 \<le> sc_max_tx_buffer c
     \<and> 0 \<le> sc_required_capabilities c
     \<and> sc_required_capabilities c AND NOT SUPPORTED_CAPABILITIES = 0"

text \<open>What an active session has agreed with the controller.\<close>

definition negotiated :: "'t host_session \<Rightarrow> bool" where
  "negotiated s \<longleftrightarrow> (\<exists>cap limit timeout.
     sn_peer_capabilities s = Some cap \<and> sn_negotiated_max_payload s = Some limit
     \<and> sn_negotiated_timeout_ms s = Some timeout
     \<and> cap AND sc_required_capabilities (sn_config s) = sc_required_capabilities (sn_config s)
     \<and> minimum_peer_payload (sc_required_capabilities (sn_config s)) \<le> limit \<and> limit \<le> 128
     \<and> 1 \<le> timeout \<and> timeout \<le> sc_timeout_ms (sn_config s))"

text \<open>The clock of the session: the last reception is not later than the last call.\<close>

definition clock_ok :: "'t host_session \<Rightarrow> bool" where
  "clock_ok s \<longleftrightarrow> (\<forall>n. sn_last_now_ms s = Some n \<longrightarrow> 0 \<le> n)
     \<and> (\<forall>l. sn_last_rx_ms s = Some l \<longrightarrow> 0 \<le> l \<and> (\<exists>n. sn_last_now_ms s = Some n \<and> l \<le> n))
     \<and> (sn_state s \<in> {ST_HELLO_SENT, ST_ACTIVE} \<longrightarrow> sn_last_rx_ms s \<noteq> None)"

definition session_ok :: "'t host_session \<Rightarrow> bool" where
  "session_ok s \<longleftrightarrow> config_ok (sn_config s)
     \<and> int (length (sn_tx_buffer s)) \<le> sc_max_tx_buffer (sn_config s)
     \<and> 0 \<le> sn_tx_sequence s \<and> sn_tx_sequence s < 2 ^ 32
     \<and> parser_inv (sn_parser s) \<and> tracker_inv (sn_rx_sequence s)
     \<and> clock_ok s
     \<and> (sn_state s = ST_ACTIVE \<longrightarrow> negotiated s)
     \<and> (sn_state s \<in> {ST_HELLO_SENT, ST_ACTIVE} \<longrightarrow> sc_timeout_ms (sn_config s) < 2 ^ 16)"

definition session_inv :: "('t \<Rightarrow> bool) \<Rightarrow> 't host_session \<Rightarrow> bool" where
  "session_inv I s \<longleftrightarrow> I (sn_transport s) \<and> session_ok s"

lemma config_ok: "SessionConfig t r x q = Inr c \<Longrightarrow> config_ok c"
  by (auto simp: SessionConfig_def config_ok_def split: if_splits)

lemma tracker_start: "\<exists>tr. SequenceTracker 32 = Inr tr \<and> tracker_inv tr"
  by (simp add: SequenceTracker_def tracker_inv_def u32_option_def SequenceStats_def)

lemma session_ok_new: "config_ok c \<Longrightarrow> HostSession t c = Inr s \<Longrightarrow> session_ok s \<and> sn_transport s = t"
  using tracker_start
  by (auto simp: HostSession_def session_ok_def clock_ok_def config_ok_def parser_inv_def StreamParser_def
      tracker_inv_def)

lemma and_mask32_range: "0 \<le> n AND 0xFFFFFFFF \<and> n AND 0xFFFFFFFF < (2 :: int) ^ 32"
  unfolding and_mask32 by simp

section \<open>Constants of the handshake\<close>

lemma make_packet_eq:
  "make_packet mt n step p = bindR (encode_typed_payload mt p)
     (\<lambda>d. Inr \<lparr>message_type = mt, sequence = n, step_id = step, payload = d\<rparr>)"
  unfolding make_packet_def message_type_guard_member bindR_Inr by (rule refl)

lemma sensor_size: "SENSOR_FRAME_PAYLOAD_SIZE = 76"
proof -
  have "payload_ok (P_SensorFrame SensorFramePayload)"
    by (simp add: sensor_frame_ok_def SensorFramePayload_def mask_ok_def u16_def imu_ok_def wheel_ok_def
        gnss_ok_def landmark_ok_def u32_def f64_wire_def ImuSample_def WheelSpeedSample_def
        GnssSample_def LandmarkSample_def)
  then obtain d where d: "encode_typed_payload MT_SENSOR_FRAME (P_SensorFrame SensorFramePayload) = Inr d"
    using encode_typed_ok by fastforce
  with encode_typed_Inr [OF d] have "length d = 76" by (simp add: SENSOR_FRAME_fmt_def fmt_defs)
  with d show ?thesis
    by (simp add: SENSOR_FRAME_PAYLOAD_SIZE_def payload_length_def make_packet_eq)
qed

lemma route_prefix_size: "ROUTE_PREFIX_PAYLOAD_SIZE = 8"
proof -
  let ?p = "\<lparr>rc_route_id = 0, rc_start_index = 0, rc_total_count = 1, rc_flags = RF_CLEAR_EXISTING OR RF_FINAL_CHUNK,
    rc_points = [\<lparr>wp_x_m = 0, wp_y_m = 0, wp_target_speed_mps = 0, wp_acceptance_radius_m = 0x3FB999999999999A\<rparr>]\<rparr>"
  have "payload_ok (P_RouteChunk ?p)"
    by (simp add: route_chunk_ok_def route_head_ok_def u16_def mask_ok_def ROUTE_FLAGS_ALL_def flag_values
        point_ok_def f64_wire_def f64_mag_def flt_max_mag_def)
  then obtain d where d: "encode_typed_payload MT_ROUTE_CHUNK (P_RouteChunk ?p) = Inr d"
    using encode_typed_ok by fastforce
  with encode_typed_Inr [OF d] have "length d = 24"
    by (simp add: ROUTE_CHUNK_fmt_def ROUTE_PREFIX_fmt_def ROUTE_POINT_fmt_def)
  with d show ?thesis
    by (simp add: ROUTE_PREFIX_PAYLOAD_SIZE_def payload_length_def make_packet_eq)
qed

text \<open>A packet that was made is encoded unless its numbers are out of range.\<close>

lemma make_packet_Inr:
  assumes "make_packet mt n step p = Inr pkt"
  shows "message_type pkt = mt \<and> sequence pkt = n \<and> step_id pkt = step
    \<and> encode_typed_payload mt p = Inr (payload pkt) \<and> length (payload pkt) \<le> 128"
proof -
  obtain d where d: "encode_typed_payload mt p = Inr d"
    "pkt = \<lparr>message_type = mt, sequence = n, step_id = step, payload = d\<rparr>"
    using assms by (auto simp: make_packet_eq bindR_eq_Inr)
  with encode_typed_Inr [OF d(1)] payload_size [of p] show ?thesis by simp
qed

lemma make_packet_Inl: "make_packet mt n step p = Inl e \<Longrightarrow> e = INVALID"
  by (auto simp: make_packet_eq bindR_eq_Inl dest: encode_typed_Inl)

lemma encode_packet_errors: "length (payload p) \<le> 128 \<Longrightarrow> encode_packet p = Inl e \<Longrightarrow> e = INVALID"
  unfolding encode_packet_def Let_def message_type_guard_member bindR_Inr bindR_guard bindR_uint
proof -
  assume len: "length (payload p) \<le> 128"
  assume e: "(if \<not> MAX_PAYLOAD_SIZE < length (payload p)
     then if 0 \<le> sequence p \<and> sequence p < 2 ^ 32
          then if 0 \<le> step_id p \<and> step_id p < 2 ^ 32
               then bindR (pack HEADER_fmt
                      [SInt PROTOCOL_VERSION, SInt (MessageType_value (message_type p)),
                       SInt (int (length (payload p))), SInt (sequence p), SInt (step_id p)])
                     (\<lambda>header. bindR (pack CRC_fmt [SInt (uint (crc16_ccitt (header @ payload p)))])
                       (\<lambda>crc. Inr (cobs_encode ((header @ payload p) @ crc) @ [0])))
               else Inl INVALID else Inl INVALID else Inl (ProtocolError PAYLOAD_TOO_LARGE)) = Inl e"
  show "e = INVALID"
  proof (cases "valid_packet p")
    case True
    then show ?thesis
      using e raw_header(1) [OF True] by (simp add: valid_packet_def header_values_def PROTOCOL_VERSION_def pack_crc)
  next
    case False
    with e len show ?thesis by (auto simp: valid_packet_def split: if_splits)
  qed
qed

lemma frame_size: "encode_packet p = Inr f \<Longrightarrow> length f \<le> 144"
  using length_cobs_encode_short [of "raw_packet p"]
  by (auto simp: encode_packet_Inr length_raw_packet valid_packet_def)

lemma hello_encodes:
  assumes "0 < sc_timeout_ms c" "sc_timeout_ms c < 2 ^ 16"
  shows "\<exists>pkt f. make_packet MT_HELLO 0 0 (hello_message c) = Inr pkt \<and> encode_packet pkt = Inr f"
proof -
  have ok: "payload_ok (hello_message c)"
    using assms by (simp add: hello_message_def hello_ok_def HelloPayload_def PROTOCOL_VERSION_def
        SUPPORTED_CAPABILITIES_def flag_values)
  have "payload_type (hello_message c) = MT_HELLO" by (simp add: hello_message_def)
  then obtain d where d: "encode_typed_payload MT_HELLO (hello_message c) = Inr d"
    using encode_typed_ok [OF ok] by auto
  then have "make_packet MT_HELLO 0 0 (hello_message c)
      = Inr \<lparr>message_type = MT_HELLO, sequence = 0, step_id = 0, payload = d\<rparr>"
    by (simp add: make_packet_eq)
  moreover from make_packet_Inr [OF this]
  have "valid_packet \<lparr>message_type = MT_HELLO, sequence = 0, step_id = 0, payload = d\<rparr>"
    by (simp add: valid_packet_def)
  ultimately show ?thesis by (auto simp: encode_packet_Inr)
qed

text \<open>A session whose timeout does not fit the HELLO field can never send its HELLO.\<close>

lemma hello_refused:
  "2 ^ 16 \<le> sc_timeout_ms c \<Longrightarrow> make_packet MT_HELLO 0 0 (hello_message c) = Inl INVALID"
  by (simp add: make_packet_eq encode_typed hello_message_def hello_ok_def)

section \<open>Packets the parser delivers\<close>

lemma piece_packets_valid: "p \<in> set (piece_packets x) \<Longrightarrow> valid_packet p"
  by (auto simp: piece_packets_def split: if_splits sum.splits intro: decode_packet_valid)

lemma feed_valid:
  assumes "parser_inv s" "feed d s = (Inr b, s')" "p \<in> set (pb_packets b)"
  shows "valid_packet p"
proof -
  obtain piece where h: "holds s piece" using assms(1) holds_inv by blast
  obtain pieces rest where "cut piece d = (pieces, rest)" by fastforce
  from feed_spec [OF h this] assms(2,3) piece_packets_valid show ?thesis by auto
qed

lemma feed_never_raises: "parser_inv s \<Longrightarrow> feed d s = (r, s') \<Longrightarrow> (\<exists>b. r = Inr b) \<and> parser_inv s'"
  using feed_total [of s d] by auto

section \<open>Under a lawful transport\<close>

lemma session_ok_simps [simp]:
  "session_ok (s\<lparr>sn_transport := t\<rparr>) = session_ok s"
  "session_ok (s\<lparr>sn_stats := st\<rparr>) = session_ok s"
  by (simp_all add: session_ok_def clock_ok_def negotiated_def)

text \<open>Leaving the handshake and the active state needs nothing more.\<close>

lemma session_ok_quiet [simp]:
  "st \<notin> {ST_HELLO_SENT, ST_ACTIVE} \<Longrightarrow> session_ok s \<Longrightarrow> session_ok (s\<lparr>sn_state := st\<rparr>)"
  by (simp add: session_ok_def clock_ok_def)

lemma session_ok_buffer [simp]:
  "int (length buf) \<le> sc_max_tx_buffer (sn_config s) \<Longrightarrow> session_ok s \<Longrightarrow> session_ok (s\<lparr>sn_tx_buffer := buf\<rparr>)"
  by (simp add: session_ok_def clock_ok_def negotiated_def)

lemma session_ok_no_buffer [simp]: "session_ok s \<Longrightarrow> session_ok (s\<lparr>sn_tx_buffer := []\<rparr>)"
  by (rule session_ok_buffer) (simp_all add: session_ok_def config_ok_def)

lemma observe_valid_packet:
  assumes "valid_packet p" "tracker_inv tr"
  shows "\<exists>r tr'. observe (sequence p) (if b then Some (step_id p) else None) tr = (Inr r, tr') \<and> tracker_inv tr'"
proof -
  let ?o = "observe (sequence p) (if b then Some (step_id p) else None)"
  have "tracker_inv (snd (?o tr))" using observe_keeps assms(2) unfolding keeps_def by blast
  moreover have "\<exists>r. fst (?o tr) = Inr r"
    using assms(1) by (simp add: observe_eq valid_packet_def u32_option_def)
  ultimately show ?thesis by (metis prod.collapse)
qed

text \<open>A HELLO_ACK activates the session exactly when everything it announces is acceptable.\<close>

definition acceptable_ack :: "'t host_session \<Rightarrow> hello_ack_payload \<Rightarrow> bool" where
  "acceptable_ack s a \<longleftrightarrow> sn_state s = ST_HELLO_SENT \<and> ack_status a = HS_OK
     \<and> ack_accepted_version a = 1 \<and> ack_role a = ROLE_CONTROLLER
     \<and> ack_capabilities a AND sc_required_capabilities (sn_config s) = sc_required_capabilities (sn_config s)
     \<and> minimum_peer_payload (sc_required_capabilities (sn_config s)) \<le> ack_max_payload a
     \<and> ack_max_payload a \<le> 128 \<and> 0 < ack_heartbeat_timeout_ms a"

lemma handle_ack:
  "handle_session_packet MT_HELLO_ACK (P_HelloAck a) s =
     (if acceptable_ack s a
      then s\<lparr>sn_peer_capabilities := Some (ack_capabilities a),
             sn_negotiated_max_payload := Some (ack_max_payload a),
             sn_negotiated_timeout_ms := Some (min (sc_timeout_ms (sn_config s)) (ack_heartbeat_timeout_ms a)),
             sn_state := ST_ACTIVE\<rparr>
      else s\<lparr>sn_state := ST_ERROR\<rparr>)"
  unfolding handle_session_packet_def acceptable_ack_def Let_def by simp

lemma handle_other: "mt \<noteq> MT_HELLO_ACK \<Longrightarrow> handle_session_packet mt p s = s"
  by (simp add: handle_session_packet_def)

lemma handle_not_ack:
  "\<forall>a. p \<noteq> P_HelloAck a \<Longrightarrow> handle_session_packet MT_HELLO_ACK p s = s\<lparr>sn_state := ST_ERROR\<rparr>"
  by (cases p) (simp_all add: handle_session_packet_def)

lemma handle_session_packet_ok:
  assumes "session_ok s"
  shows "session_ok (handle_session_packet mt p s)"
proof (cases "mt = MT_HELLO_ACK \<and> (\<exists>a. p = P_HelloAck a)")
  case True
  then obtain a where a: "mt = MT_HELLO_ACK" "p = P_HelloAck a" by blast
  show ?thesis
  proof (cases "acceptable_ack s a")
    case True
    then have "negotiated (handle_session_packet mt p s)"
      using assms unfolding a handle_ack
      by (auto simp: acceptable_ack_def negotiated_def session_ok_def config_ok_def)
    with True assms show ?thesis
      unfolding a handle_ack by (simp add: session_ok_def clock_ok_def acceptable_ack_def)
  next
    case False
    with assms show ?thesis unfolding a handle_ack by simp
  qed
next
  case False
  then show ?thesis using assms handle_other [of mt p s] handle_not_ack [of p s] by (cases "mt = MT_HELLO_ACK") auto
qed

lemma handle_session_packet_frame [simp]:
  "sn_transport (handle_session_packet mt p s) = sn_transport s"
  "sn_last_now_ms (handle_session_packet mt p s) = sn_last_now_ms s"
  "sn_config (handle_session_packet mt p s) = sn_config s"
  "sn_last_rx_ms (handle_session_packet mt p s) = sn_last_rx_ms s"
  unfolding handle_session_packet_def by (simp_all add: Let_def split: typed_payload.split)

lemma session_ok_received:
  "session_ok s \<Longrightarrow> sn_last_now_ms s = Some now \<Longrightarrow> session_ok (s\<lparr>sn_last_rx_ms := Some now\<rparr>)"
  by (simp add: session_ok_def clock_ok_def negotiated_def)

lemma handle_packet_law:
  assumes "session_ok s" "sn_last_now_ms s = Some now" "valid_packet p"
  shows "\<exists>e s'. handle_packet now p s = (Inr e, s') \<and> session_ok s' \<and> sn_last_now_ms s' = Some now
    \<and> sn_transport s' = sn_transport s \<and> sn_config s' = sn_config s"
proof -
  have tr: "tracker_inv (sn_rx_sequence s)" using assms(1) by (simp add: session_ok_def)
  let ?b = "message_type p \<in> {MT_CONTROL_COMMAND, MT_STATE_ESTIMATE}"
  obtain r tr' where o: "observe (sequence p) (if ?b then Some (step_id p) else None) (sn_rx_sequence s) = (Inr r, tr')"
    "tracker_inv tr'" using observe_valid_packet [OF assms(3) tr] by blast
  let ?s1 = "s\<lparr>sn_rx_sequence := tr'\<rparr>"
  have s1: "session_ok ?s1" using assms(1) o(2) by (simp add: session_ok_def clock_ok_def negotiated_def)
  show ?thesis
  proof (cases "sr_accepted r")
    case False
    with o s1 assms(2) show ?thesis by (simp add: handle_packet_def Let_def)
  next
    case True
    show ?thesis
    proof (cases "decode_packet_payload p")
      case (Inl e)
      then obtain c where c: "e = ProtocolError c"
        using errors_inD [OF decode_typed_errors, of _ _ e] by (auto simp: decode_packet_payload_def)
      let ?st = "(sn_stats s)\<lparr>sx_rx_payload_errors := sx_rx_payload_errors (sn_stats s) + 1,
          sx_rx_rejected := sx_rx_rejected (sn_stats s) + 1\<rparr>"
      have "session_ok (?s1\<lparr>sn_stats := ?st, sn_state := ST_ERROR\<rparr>)"
        using session_ok_quiet [of ST_ERROR "?s1\<lparr>sn_stats := ?st\<rparr>"] s1 by simp
      moreover note s1
      ultimately show ?thesis
        using True o Inl c assms(2) by (simp add: handle_packet_def Let_def)
    next
      case (Inr q)
      let ?s2 = "?s1\<lparr>sn_stats := (sn_stats s)\<lparr>sx_rx_packets := sx_rx_packets (sn_stats s) + 1\<rparr>,
          sn_last_rx_ms := Some now\<rparr>"
      have "session_ok ?s2"
        using session_ok_received [of "?s1\<lparr>sn_stats := (sn_stats s)\<lparr>sx_rx_packets := sx_rx_packets (sn_stats s) + 1\<rparr>\<rparr>" now]
          s1 assms(2) by simp
      then have "session_ok (handle_session_packet (message_type p) q ?s2)" by (rule handle_session_packet_ok)
      with True o Inr assms(2) show ?thesis by (simp add: handle_packet_def Let_def)
    qed
  qed
qed

lemma handle_packets_law:
  "session_ok s \<Longrightarrow> sn_last_now_ms s = Some now \<Longrightarrow> \<forall>p \<in> set pkts. valid_packet p \<Longrightarrow>
     \<exists>evs s'. handle_packets now pkts events s = (Inr evs, s') \<and> session_ok s' \<and> sn_last_now_ms s' = Some now
       \<and> sn_transport s' = sn_transport s \<and> sn_config s' = sn_config s"
proof (induction pkts arbitrary: events s)
  case (Cons p pkts)
  from handle_packet_law [OF Cons.prems(1,2), of p] Cons.prems(3) obtain e s1 where
    s1: "handle_packet now p s = (Inr e, s1)" "session_ok s1" "sn_last_now_ms s1 = Some now"
    "sn_transport s1 = sn_transport s" "sn_config s1 = sn_config s" by auto
  from Cons.IH [OF s1(2,3), of "case e of None \<Rightarrow> events | Some ev \<Rightarrow> events @ [ev]"] Cons.prems(3) s1
  show ?case by (simp add: bindM_def)
qed simp

lemma validate_now_law:
  assumes "session_ok s" "validate_now now s = (r, s')"
  shows "(r = Inl ValueError \<and> s' = s) \<or>
    (r = Inr () \<and> s' = s\<lparr>sn_last_now_ms := Some now\<rparr> \<and> session_ok s' \<and> 0 \<le> now)"
proof -
  have "session_ok (s\<lparr>sn_last_now_ms := Some now\<rparr>)"
    if "0 \<le> now" "\<And>n. sn_last_now_ms s = Some n \<Longrightarrow> n \<le> now"
    using assms(1) that by (fastforce simp: session_ok_def clock_ok_def negotiated_def)
  then show ?thesis using assms(2) by (auto simp: validate_now_def split: if_splits option.splits)
qed

text \<open>The deadline that applies, and how the end of a poll enforces it.\<close>

definition deadline :: "'t host_session \<Rightarrow> int" where
  "deadline s = (if sn_state s = ST_ACTIVE then the (sn_negotiated_timeout_ms s) else sc_timeout_ms (sn_config s))"

definition overdue :: "int \<Rightarrow> 't host_session \<Rightarrow> bool" where
  "overdue now s \<longleftrightarrow> sn_state s \<in> {ST_HELLO_SENT, ST_ACTIVE} \<and> deadline s < now - the (sn_last_rx_ms s)"

lemma check_timeout_eq:
  assumes "session_ok s"
  shows "check_timeout now s =
    (Inr (), if overdue now s
             then s\<lparr>sn_state := ST_TIMED_OUT, sn_stats := (sn_stats s)\<lparr>sx_timeouts := sx_timeouts (sn_stats s) + 1\<rparr>\<rparr>
             else s)"
proof (cases "sn_state s \<in> {ST_HELLO_SENT, ST_ACTIVE}")
  case True
  then obtain l where "sn_last_rx_ms s = Some l" using assms by (auto simp: session_ok_def clock_ok_def)
  moreover have "sn_state s = ST_ACTIVE \<Longrightarrow> \<exists>n. sn_negotiated_timeout_ms s = Some n"
    using assms by (auto simp: session_ok_def negotiated_def)
  ultimately show ?thesis
    using True by (auto simp: check_timeout_def overdue_def deadline_def current_timeout_ms_def bindM_def)
next
  case False
  then show ?thesis by (auto simp: check_timeout_def overdue_def)
qed

lemma session_inv_sent:
  assumes "session_ok s" "I t" "int (length buf) \<le> sc_max_tx_buffer (sn_config s)"
  shows "session_inv I (s\<lparr>sn_transport := t, sn_stats := st, sn_tx_buffer := buf,
         sn_tx_sequence := n AND 0xFFFFFFFF, sn_state := (if b then sn_state s else ST_ERROR)\<rparr>)"
  using assms and_mask32_range [of n]
  by (cases b) (simp_all add: session_inv_def session_ok_def clock_ok_def negotiated_def)

lemma buffer_drop: "session_ok s \<Longrightarrow> int (length (sn_tx_buffer s) - k) \<le> sc_max_tx_buffer (sn_config s)"
  unfolding session_ok_def by (meson diff_le_self of_nat_le_iff order_trans)

context byte_transport
begin

lemma flush_law:
  "tinv (sn_transport s) \<Longrightarrow> flush_tx ops s = (r, s') \<Longrightarrow>
     \<exists>t st k. s' = s\<lparr>sn_transport := t, sn_stats := st, sn_tx_buffer := drop k (sn_tx_buffer s),
         sn_state := (if r = Inr () then sn_state s else ST_ERROR)\<rparr>
       \<and> tinv t \<and> (\<forall>e. r = Inl e \<longrightarrow> e = TransportError)"
proof (induction "length (sn_tx_buffer s)" arbitrary: s rule: less_induct)
  case less
  note unfold = flush_tx.simps [of ops s]
  show ?case
  proof (cases "sn_tx_buffer s = []")
    case True
    with less.prems show ?thesis
      by (intro exI [of _ "sn_transport s"] exI [of _ "sn_stats s"] exI [of _ 0]) (auto simp: unfold)
  next
    case False
    obtain w t where w: "bt_write ops (sn_tx_buffer s) (sn_transport s) = (w, t)" by fastforce
    have t: "tinv t" using write_keeps [OF less.prems(1) w] .
    show ?thesis
    proof (cases w)
      case (Inl e)
      with w write_error [OF less.prems(1)] have "e = TransportError" by blast
      with Inl w less.prems(2) False t show ?thesis
        by (intro exI [of _ t] exI [of _ "(sn_stats s)\<lparr>sx_transport_errors := sx_transport_errors (sn_stats s) + 1\<rparr>"]
            exI [of _ 0]) (auto simp: unfold)
    next
      case (Inr n)
      then have n: "0 \<le> n" "n \<le> int (length (sn_tx_buffer s))" using write_count [OF less.prems(1)] w by blast+
      show ?thesis
      proof (cases "n = 0")
        case True
        with Inr w less.prems(2) False t n show ?thesis
          by (auto simp: unfold intro!: exI [of _ "sn_stats s"] exI [of _ 0])
      next
        case nz: False
        let ?s = "s\<lparr>sn_transport := t, sn_tx_buffer := drop (nat n) (sn_tx_buffer s),
            sn_stats := (sn_stats s)\<lparr>sx_tx_bytes := sx_tx_bytes (sn_stats s) + n\<rparr>\<rparr>"
        have f: "flush_tx ops ?s = (r, s')" using Inr w less.prems(2) False n nz by (simp add: unfold)
        have "length (sn_tx_buffer ?s) < length (sn_tx_buffer s)" using n nz False by simp
        from less.hyps [OF this _ f] t obtain t' st k where
          "s' = ?s\<lparr>sn_transport := t', sn_stats := st, sn_tx_buffer := drop k (sn_tx_buffer ?s),
             sn_state := (if r = Inr () then sn_state ?s else ST_ERROR)\<rparr>"
          "tinv t'" "\<forall>e. r = Inl e \<longrightarrow> e = TransportError" by auto
        then show ?thesis
          by (intro exI [of _ t'] exI [of _ st] exI [of _ "k + nat n"]) simp
      qed
    qed
  qed
qed

text \<open>A send either refuses and leaves the session as it was, or has queued the frame; then it
  can only fail in the transport, and the session is in error.\<close>

lemma send_law:
  assumes "tinv (sn_transport s)" "send ops mt step p s = (r, s')" "0 \<le> sn_tx_sequence s"
  shows "(s' = s \<and> (r = Inl INVALID \<or> r = Inl SessionError)) \<or>
    (\<exists>t st buf pkt. s' = s\<lparr>sn_transport := t, sn_stats := st, sn_tx_buffer := buf,
         sn_tx_sequence := (sn_tx_sequence s + 1) AND 0xFFFFFFFF,
         sn_state := (if r = Inr () then sn_state s else ST_ERROR)\<rparr>
       \<and> make_packet mt (sn_tx_sequence s) step p = Inr pkt
       \<and> tinv t \<and> int (length buf) \<le> sc_max_tx_buffer (sn_config s)
       \<and> (\<forall>e. r = Inl e \<longrightarrow> e = TransportError))"
proof (cases "make_packet mt (sn_tx_sequence s) step p")
  case (Inl e)
  with assms(2) make_packet_Inl [OF Inl] show ?thesis by (simp add: send_def)
next
  case (Inr pkt)
  note pk = make_packet_Inr [OF Inr]
  show ?thesis
  proof (cases "mt \<noteq> MT_HELLO \<and> (case sn_negotiated_max_payload s of None \<Rightarrow> False | Some n \<Rightarrow> n < int (length (payload pkt)))")
    case True
    with assms(2) Inr show ?thesis by (simp add: send_def)
  next
    case limit: False
    show ?thesis
    proof (cases "encode_packet pkt")
      case (Inl e)
      with assms(2) Inr limit encode_packet_errors [OF _ Inl] pk show ?thesis by (auto simp: send_def)
    next
      case enc: (Inr f)
      show ?thesis
      proof (cases "sc_max_tx_buffer (sn_config s) < int (length (sn_tx_buffer s)) + int (length f)")
        case True
        with assms(2) Inr limit enc show ?thesis by (auto simp: send_def)
      next
        case False
        let ?s = "s\<lparr>sn_tx_buffer := sn_tx_buffer s @ f,
            sn_tx_sequence := (sn_tx_sequence s + 1) AND 0xFFFFFFFF,
            sn_stats := (sn_stats s)\<lparr>sx_tx_packets := sx_tx_packets (sn_stats s) + 1\<rparr>\<rparr>"
        have "flush_tx ops ?s = (r, s')" using assms(2) Inr limit enc False by (auto simp: send_def)
        from flush_law [OF _ this] assms(1) obtain t st k where k:
          "s' = ?s\<lparr>sn_transport := t, sn_stats := st, sn_tx_buffer := drop k (sn_tx_buffer ?s),
             sn_state := (if r = Inr () then sn_state ?s else ST_ERROR)\<rparr>"
          "tinv t" "\<forall>e. r = Inl e \<longrightarrow> e = TransportError" by auto
        have "int (length (drop k (sn_tx_buffer ?s))) \<le> sc_max_tx_buffer (sn_config s)" using False by simp
        with k Inr show ?thesis
          by (intro disjI2 exI [of _ t] exI [of _ st] exI [of _ "drop k (sn_tx_buffer ?s)"] exI [of _ pkt])
            simp
      qed
    qed
  qed
qed

lemma send_keeps:
  assumes "session_inv tinv s" "send ops mt step p s = (r, s')"
  shows "session_inv tinv s' \<and> (\<forall>e. r = Inl e \<longrightarrow> e \<in> {INVALID, SessionError, TransportError})
    \<and> (r = Inr () \<longrightarrow> sn_state s' = sn_state s) \<and> (r \<noteq> Inr () \<longrightarrow> s' = s \<or> sn_state s' = ST_ERROR)
    \<and> sn_config s' = sn_config s \<and> sn_negotiated_max_payload s' = sn_negotiated_max_payload s"
proof -
  have inv: "tinv (sn_transport s)" "session_ok s" "0 \<le> sn_tx_sequence s"
    using assms(1) by (simp_all add: session_inv_def session_ok_def)
  consider (refused) "s' = s" "r = Inl INVALID \<or> r = Inl SessionError"
    | (sent) t st buf where "s' = s\<lparr>sn_transport := t, sn_stats := st, sn_tx_buffer := buf,
         sn_tx_sequence := (sn_tx_sequence s + 1) AND 0xFFFFFFFF,
         sn_state := (if r = Inr () then sn_state s else ST_ERROR)\<rparr>"
      "tinv t" "int (length buf) \<le> sc_max_tx_buffer (sn_config s)" "\<forall>e. r = Inl e \<longrightarrow> e = TransportError"
    using send_law [OF inv(1) assms(2) inv(3)] by blast
  then show ?thesis
  proof cases
    case refused
    with assms(1) show ?thesis by auto
  next
    case sent
    have "session_inv tinv s'"
      unfolding sent(1) by (rule session_inv_sent [where I = tinv, OF inv(2) sent(2,3)])
    moreover have "r = Inr () \<or> r = Inl TransportError" using sent(4) by (cases r) auto
    ultimately show ?thesis using sent(1) by auto
  qed
qed

definition starting :: "int \<Rightarrow> 't host_session \<Rightarrow> bool" where
  "starting now s \<longleftrightarrow> tinv (sn_transport s) \<and> config_ok (sn_config s) \<and> parser_inv (sn_parser s)
     \<and> tracker_inv (sn_rx_sequence s) \<and> sn_tx_buffer s = [] \<and> sn_tx_sequence s = 0
     \<and> sn_last_rx_ms s = Some now \<and> sn_last_now_ms s = Some now \<and> 0 \<le> now
     \<and> (sn_state s \<in> {ST_HELLO_SENT, ST_ACTIVE} \<longrightarrow> sc_timeout_ms (sn_config s) < 2 ^ 16)"

text \<open>If the HELLO can be written at all, sending it can only fail in the transport.\<close>

lemma hello_not_refused:
  assumes "starting now s" "send ops MT_HELLO 0 (hello_message (sn_config s)) s = (r, s')"
    "sc_timeout_ms (sn_config s) < 2 ^ 16"
  shows "r \<noteq> Inl INVALID \<and> r \<noteq> Inl SessionError"
proof -
  have c: "config_ok (sn_config s)" using assms(1) by (simp add: starting_def)
  then have "0 < sc_timeout_ms (sn_config s)" by (simp add: config_ok_def)
  from hello_encodes [OF this assms(3)] obtain pkt f where
    f: "make_packet MT_HELLO 0 0 (hello_message (sn_config s)) = Inr pkt" "encode_packet pkt = Inr f"
    by blast
  have "\<not> sc_max_tx_buffer (sn_config s) < int (length f)"
    using frame_size [OF f(2)] c by (simp add: config_ok_def)
  with f assms(1,2) obtain x where "flush_tx ops x = (r, s')" "sn_transport x = sn_transport s"
    by (auto simp: send_def starting_def)
  with flush_law [of x r s'] assms(1) show ?thesis by (auto simp: starting_def)
qed

lemma start_from:
  assumes st: "starting now s"
    and b: "bindM (send ops MT_HELLO 0 (hello_message (sn_config s))) (\<lambda>_. modifyM (\<lambda>s. s\<lparr>sn_state := ST_HELLO_SENT\<rparr>)) s = (r, s')"
  shows "session_inv tinv s' \<and> (\<forall>e. r = Inl e \<longrightarrow> e \<in> {INVALID, SessionError, TransportError})
    \<and> (r = Inr () \<longrightarrow> sn_state s' = ST_HELLO_SENT)"
proof -
  obtain q s3 where q: "send ops MT_HELLO 0 (hello_message (sn_config s)) s = (q, s3)" by fastforce
  have big: "r = q" "q = Inr () \<Longrightarrow> s' = s3\<lparr>sn_state := ST_HELLO_SENT\<rparr>" "q \<noteq> Inr () \<Longrightarrow> s' = s3"
    using b q by (auto simp: bindM_def split: sum.splits)
  have t: "tinv (sn_transport s)" "0 \<le> sn_tx_sequence s" using st by (simp_all add: starting_def)
  from send_law [OF t(1) q t(2)] consider
    (refused) "s3 = s" "q = Inl INVALID \<or> q = Inl SessionError"
    | (sent) tr ss buf pkt where "s3 = s\<lparr>sn_transport := tr, sn_stats := ss, sn_tx_buffer := buf,
             sn_tx_sequence := (sn_tx_sequence s + 1) AND 0xFFFFFFFF,
             sn_state := (if q = Inr () then sn_state s else ST_ERROR)\<rparr>"
      "make_packet MT_HELLO (sn_tx_sequence s) 0 (hello_message (sn_config s)) = Inr pkt"
      "tinv tr" "int (length buf) \<le> sc_max_tx_buffer (sn_config s)"
      "\<forall>e. q = Inl e \<longrightarrow> e = TransportError"
    by blast
  then show ?thesis
  proof cases
    case refused
    have "\<not> sc_timeout_ms (sn_config s) < 2 ^ 16" using hello_not_refused [OF st q] refused(2) by blast
    then have "sn_state s \<notin> {ST_HELLO_SENT, ST_ACTIVE}" using st by (auto simp: starting_def)
    with refused big st show ?thesis
      by (auto simp: session_inv_def session_ok_def clock_ok_def config_ok_def starting_def)
  next
    case sent
    have "sc_timeout_ms (sn_config s) < 2 ^ 16"
    proof (rule ccontr)
      assume "\<not> sc_timeout_ms (sn_config s) < 2 ^ 16"
      with hello_refused [of "sn_config s"] sent(2) st show False by (simp add: starting_def)
    qed
    with sent big st and_mask32_range [of 1] show ?thesis
      by (cases "q = Inr ()") (auto simp: session_inv_def session_ok_def clock_ok_def starting_def)
  qed
qed

lemma start_keeps:
  assumes "session_inv tinv s" "session_start ops now s = (r, s')"
  shows "session_inv tinv s' \<and> (\<forall>e. r = Inl e \<longrightarrow> e \<in> {ValueError, INVALID, SessionError, TransportError})
    \<and> (r = Inr () \<longrightarrow> sn_state s' = ST_HELLO_SENT)"
proof -
  obtain v s1 where v: "validate_now now s = (v, s1)" by fastforce
  have ok: "session_ok s" and t: "tinv (sn_transport s)" using assms(1) by (simp_all add: session_inv_def)
  consider "v = Inl ValueError" "s1 = s"
    | "v = Inr ()" "s1 = s\<lparr>sn_last_now_ms := Some now\<rparr>" "session_ok s1" "0 \<le> now"
    using validate_now_law [OF ok v] by blast
  then show ?thesis
  proof cases
    case 1
    with v assms show ?thesis by (auto simp: session_start_def bindM_def)
  next
    case 2
    show ?thesis
    proof (cases "sn_state s = ST_CLOSED")
      case True
      with 2 v assms show ?thesis by (auto simp: session_start_def bindM_def session_inv_def)
    next
      case False
      define s2 where "s2 = s1\<lparr>sn_parser := parser_reset False (sn_parser s1),
             sn_rx_sequence := tracker_reset False (sn_rx_sequence s1),
             sn_tx_buffer := [], sn_tx_sequence := 0, sn_last_rx_ms := Some now,
             sn_peer_capabilities := None, sn_negotiated_max_payload := None,
             sn_negotiated_timeout_ms := None\<rparr>"
      have "starting now s2"
        using ok t 2 unfolding s2_def starting_def
        by (simp add: session_ok_def parser_reset_def parser_inv_def tracker_reset_def
            tracker_inv_def u32_option_def)
      moreover have "sn_config s2 = sn_config s1" by (simp add: s2_def)
      then have "bindM (send ops MT_HELLO 0 (hello_message (sn_config s2)))
          (\<lambda>_. modifyM (\<lambda>s. s\<lparr>sn_state := ST_HELLO_SENT\<rparr>)) s2 = (r, s')"
        using assms(2) v 2 False unfolding session_start_def s2_def by (simp add: bindM_def)
      ultimately show ?thesis using start_from by blast
    qed
  qed
qed

lemma reconnect_keeps:
  assumes "session_inv tinv s" "session_reconnect ops now s = (r, s')"
  shows "session_inv tinv s' \<and> (\<forall>e. r = Inl e \<longrightarrow> e \<in> {ValueError, INVALID, SessionError, TransportError})
    \<and> (r = Inr () \<longrightarrow> sn_state s' = ST_HELLO_SENT)"
proof (cases "sn_state s = ST_CLOSED")
  case True
  with assms show ?thesis by (auto simp: session_reconnect_def)
next
  case False
  let ?s = "s\<lparr>sn_stats := (sn_stats s)\<lparr>sx_reconnects := sx_reconnects (sn_stats s) + 1\<rparr>, sn_tx_buffer := []\<rparr>"
  have "session_inv tinv ?s"
    using assms(1) by (simp add: session_inv_def)
  moreover have "session_start ops now ?s = (r, s')" using assms(2) False by (simp add: session_reconnect_def)
  ultimately show ?thesis by (rule start_keeps)
qed

lemma poll_reads_law:
  "session_inv tinv s \<Longrightarrow> sn_last_now_ms s = Some now \<Longrightarrow> poll_reads ops now n events s = (r, s') \<Longrightarrow>
     session_inv tinv s' \<and> sn_last_now_ms s' = Some now \<and> sn_config s' = sn_config s
       \<and> (\<forall>e. r = Inl e \<longrightarrow> e = TransportError \<and> sn_state s' = ST_ERROR)"
proof (induction n arbitrary: events s)
  case 0
  then show ?case by auto
next
  case (Suc n)
  have t: "tinv (sn_transport s)" and ok: "session_ok s" using Suc.prems(1) by (simp_all add: session_inv_def)
  obtain d t' where d: "bt_read ops 512 (sn_transport s) = (d, t')" by fastforce
  have t': "tinv t'" using read_keeps [OF t _ d] by simp
  show ?case
  proof (cases d)
    case (Inl e)
    with d read_error [OF t, of 512] have "e = TransportError" by auto
    then have "r = Inl TransportError" "s' = s\<lparr>sn_transport := t', sn_state := ST_ERROR, sn_stats := (sn_stats s)
               \<lparr>sx_transport_errors := sx_transport_errors (sn_stats s) + 1\<rparr>\<rparr>"
      using Inl d Suc.prems(3) by auto
    with Suc.prems(2) ok t' show ?thesis by (simp add: session_inv_def)
  next
    case (Inr data)
    show ?thesis
    proof (cases "data = []")
      case True
      with Inr d Suc.prems ok t' show ?thesis by (auto simp: session_inv_def)
    next
      case False
      define st where "st = (sn_stats s)\<lparr>sx_rx_bytes := sx_rx_bytes (sn_stats s) + length data\<rparr>"
      have p: "parser_inv (sn_parser s)" using ok by (simp add: session_ok_def)
      obtain b p' where b: "feed data (sn_parser s) = (Inr b, p')" "parser_inv p'"
        using feed_never_raises [OF p, of data] by (metis prod.collapse)
      define s1 where "s1 = s\<lparr>sn_transport := t', sn_parser := p', sn_stats := st
          \<lparr>sx_rx_rejected := sx_rx_rejected st + length (pb_errors b)\<rparr>\<rparr>"
      have s1: "session_ok s1" "sn_last_now_ms s1 = Some now" "sn_config s1 = sn_config s" "sn_transport s1 = t'"
        using ok b(2) Suc.prems(2) by (simp_all add: s1_def session_ok_def clock_ok_def negotiated_def)
      from handle_packets_law [OF s1(1,2), of "pb_packets b" events] feed_valid [OF p b(1)]
      obtain evs s2 where s2: "handle_packets now (pb_packets b) events s1 = (Inr evs, s2)" "session_ok s2"
        "sn_last_now_ms s2 = Some now" "sn_transport s2 = t'" "sn_config s2 = sn_config s"
        using s1 by auto
      have "poll_reads ops now n evs s2 = (r, s')"
        using Suc.prems(3) d Inr False b(1) s2(1) unfolding s1_def st_def by (simp add: Let_def bindM_def)
      from Suc.IH [OF _ s2(3) this] s2 t' show ?thesis by (simp add: session_inv_def)
    qed
  qed
qed

text \<open>The outcome of a poll.\<close>

lemma poll_law:
  assumes "session_inv tinv s" "poll ops now s = (r, s')"
  shows "session_inv tinv s' \<and>
    (r = Inl ValueError \<and> s' = s
     \<or> r = Inl TransportError \<and> sn_state s' = ST_ERROR
     \<or> (\<exists>evs. r = Inr evs) \<and> \<not> overdue now s')"
proof -
  obtain v s1 where v: "validate_now now s = (v, s1)" by fastforce
  have ok: "session_ok s" and t: "tinv (sn_transport s)" using assms(1) by (simp_all add: session_inv_def)
  consider "v = Inl ValueError" "s1 = s"
    | "v = Inr ()" "s1 = s\<lparr>sn_last_now_ms := Some now\<rparr>" "session_ok s1" "0 \<le> now"
    using validate_now_law [OF ok v] by blast
  then show ?thesis
  proof cases
    case 1
    with v assms show ?thesis by (auto simp: poll_def bindM_def)
  next
    case now: 2
    show ?thesis
    proof (cases "sn_state s = ST_CLOSED")
      case True
      with now v assms(2) have "r = Inr []" "s' = s1" by (simp_all add: poll_def bindM_def)
      with True now t show ?thesis by (simp add: session_inv_def overdue_def)
    next
      case False
      obtain f s2 where f: "flush_tx ops s1 = (f, s2)" by fastforce
      have "tinv (sn_transport s1)" using t now(2) by simp
      from flush_law [OF this f] obtain tr st k where s2: "s2 = s1\<lparr>sn_transport := tr, sn_stats := st,
          sn_tx_buffer := drop k (sn_tx_buffer s1), sn_state := (if f = Inr () then sn_state s1 else ST_ERROR)\<rparr>"
        "tinv tr" "\<forall>e. f = Inl e \<longrightarrow> e = TransportError" by auto
      have inv2: "session_inv tinv s2"
        using s2(2) now(3) unfolding s2(1) by (cases "f = Inr ()") (simp_all add: session_inv_def buffer_drop)
      have now2: "sn_last_now_ms s2 = Some now" using s2(1) now(2) by simp
      show ?thesis
      proof (cases f)
        case (Inl e)
        then have "e = TransportError" using s2(3) by blast
        with Inl f False now(1,2) v assms(2) s2(1) inv2 show ?thesis by (auto simp: poll_def bindM_def)
      next
        case (Inr u)
        obtain q s3 where q: "poll_reads ops now (nat (sc_max_reads_per_poll (sn_config s2))) [] s2 = (q, s3)"
          by fastforce
        note law = poll_reads_law [OF inv2 now2 q]
        show ?thesis
        proof (cases q)
          case (Inl e)
          with law f Inr q False now(1,2) v assms(2) show ?thesis by (auto simp: poll_def bindM_def)
        next
          case ev: (Inr evs)
          have ok3: "session_ok s3" using law by (simp add: session_inv_def)
          have "s' = snd (check_timeout now s3)" "r = Inr evs"
            using ev f Inr q False now(1,2) v assms(2) check_timeout_eq [OF ok3, of now]
            by (auto simp: poll_def bindM_def)
          with law check_timeout_eq [OF ok3, of now] show ?thesis
            by (cases "overdue now s3") (simp_all add: session_inv_def overdue_def)
        qed
      qed
    qed
  qed
qed

lemma send_chunks_keeps:
  "session_inv tinv s \<Longrightarrow> send_chunks ops step cs s = (r, s') \<Longrightarrow>
     session_inv tinv s' \<and> (\<forall>e. r = Inl e \<longrightarrow> e \<in> {INVALID, SessionError, TransportError})"
proof (induction cs arbitrary: s)
  case (Cons c cs)
  obtain q s1 where q: "send ops MT_ROUTE_CHUNK step (P_RouteChunk c) s = (q, s1)" by fastforce
  from send_keeps [OF Cons.prems(1) q] Cons.IH [of s1] Cons.prems(2) q show ?case
    by (cases q) (auto simp: bindM_def)
qed auto

lemma send_route_keeps:
  assumes "session_inv tinv s" "send_route ops route_id points step loop s = (r, s')"
  shows "session_inv tinv s' \<and> (\<forall>e. r = Inl e \<longrightarrow> e \<in> {ValueError, INVALID, SessionError, TransportError})"
  using assms send_chunks_keeps [OF assms(1)]
  by (fastforce simp: send_route_def bindM_def require_active_def Let_def split: if_splits option.splits)

lemma active_send_keeps:
  assumes "session_inv tinv s" "bindM require_active (\<lambda>_. send ops mt step p) s = (r, s')"
  shows "session_inv tinv s' \<and> (\<forall>e. r = Inl e \<longrightarrow> e \<in> {INVALID, SessionError, TransportError})"
  using assms send_keeps [OF assms(1)]
  by (fastforce simp: bindM_def require_active_def split: if_splits)

lemma safe_stop_keeps:
  assumes "session_inv tinv s" "request_safe_stop ops reason detail step s = (r, s')"
  shows "session_inv tinv s' \<and> (\<forall>e. r = Inl e \<longrightarrow> e \<in> {INVALID, SessionError, TransportError})
    \<and> (r = Inr () \<longrightarrow> sn_state s' = ST_SAFE_STOP)"
proof (cases "sn_state s \<in> {ST_CLOSED, ST_ERROR}")
  case True
  with assms show ?thesis by (auto simp: request_safe_stop_def)
next
  case False
  obtain q s1 where q: "send ops MT_SAFE_STOP step
      (P_SafeStop \<lparr>ss_reason = reason, ss_latch = True, ss_detail = detail\<rparr>) s = (q, s1)" by fastforce
  note k = send_keeps [OF assms(1) q]
  show ?thesis
  proof (cases q)
    case (Inl e)
    with q False assms(2) have "r = Inl e" "s' = s1" by (simp_all add: request_safe_stop_def bindM_def)
    with Inl k show ?thesis by simp
  next
    case (Inr u)
    with q False assms(2) have "r = Inr ()" "s' = s1\<lparr>sn_state := ST_SAFE_STOP\<rparr>"
      by (simp_all add: request_safe_stop_def bindM_def)
    with k show ?thesis by (simp add: session_inv_def)
  qed
qed

lemma session_close_keeps:
  assumes "session_inv tinv s" "session_close ops s = (r, s')"
  shows "session_inv tinv s' \<and> (r = Inr () \<longrightarrow> sn_state s' = ST_CLOSED \<and> sn_tx_buffer s' = [])"
proof -
  obtain q t' where q: "bt_close ops (sn_transport s) = (q, t')" by fastforce
  have "tinv t'" using close_keeps [OF _ q] assms(1) by (simp add: session_inv_def)
  with q assms show ?thesis
    by (cases q) (auto simp: session_close_def session_inv_def)
qed

end

end
