(* ===== verification/Session_Runs.thy ===== *)
theory Session_Runs
  imports Session
begin

text \<open>
  Runs of a \<^verbatim>\<open>HostSession\<close>: the calls a client can make, as a step relation over sessions.
  By rule induction every session that a client can reach, over any lawful transport, satisfies
  the session invariant; the state diagram of the session is a table of the edges a call can take.
\<close>

section \<open>Calls and steps\<close>

datatype session_call =
    Call_start int
  | Call_reconnect int
  | Call_send_sensor int sensor_frame_payload
  | Call_send_heartbeat int int int runtime_state
  | Call_send_route int "route_waypoint list" int bool
  | Call_request_safe_stop safe_stop_reason int int
  | Call_poll int
  | Call_close

definition after :: "('t host_session, 'a) meth \<Rightarrow> 't host_session \<Rightarrow> py_exn option \<times> 't host_session" where
  "after m s = (case m s of (Inl e, s') \<Rightarrow> (Some e, s') | (Inr _, s') \<Rightarrow> (None, s'))"

text \<open>The exception a call raises, if any, and the session it leaves behind.\<close>

fun perform :: "'t byte_transport_ops \<Rightarrow> session_call \<Rightarrow> 't host_session \<Rightarrow> py_exn option \<times> 't host_session" where
  "perform ops (Call_start now) s = after (session_start ops now) s"
| "perform ops (Call_reconnect now) s = after (session_reconnect ops now) s"
| "perform ops (Call_send_sensor step p) s = after (send_sensor ops step p) s"
| "perform ops (Call_send_heartbeat step up mt st) s = after (send_heartbeat ops step up mt st) s"
| "perform ops (Call_send_route route points step loop) s = after (send_route ops route points step loop) s"
| "perform ops (Call_request_safe_stop reason detail step) s = after (request_safe_stop ops reason detail step) s"
| "perform ops (Call_poll now) s = after (poll ops now) s"
| "perform ops Call_close s = after (session_close ops) s"

inductive session_run :: "'t byte_transport_ops \<Rightarrow> 't host_session \<Rightarrow> 't host_session \<Rightarrow> bool"
  for ops where
  run_new: "session_run ops s s"
| run_call: "session_run ops s t \<Longrightarrow> session_run ops s (snd (perform ops c t))"

text \<open>What holds of every outcome of a method holds after the call.\<close>

lemma afterI:
  "(\<And>x s'. m s = (x, s') \<Longrightarrow> P s') \<Longrightarrow> (\<And>x s'. m s = (x, s') \<Longrightarrow> Q s')
   \<Longrightarrow> P (snd (after m s)) \<and> Q (snd (after m s))"
  by (auto simp: after_def split: prod.split sum.split)

section \<open>The state diagram\<close>

definition receives :: "session_state \<Rightarrow> session_state \<Rightarrow> bool" where
  "receives a b \<longleftrightarrow> b = a \<or> b = ST_ERROR \<or> a = ST_HELLO_SENT \<and> b = ST_ACTIVE"

lemma receives_refl [simp]: "receives a a"
  by (simp add: receives_def)

lemma receives_trans: "receives a b \<Longrightarrow> receives b c \<Longrightarrow> receives a c"
  by (auto simp: receives_def)

text \<open>The states a call can lead to.\<close>

fun session_edge :: "session_call \<Rightarrow> session_state \<Rightarrow> session_state \<Rightarrow> bool" where
  "session_edge (Call_start _) a b \<longleftrightarrow> b = a \<or> a \<noteq> ST_CLOSED \<and> b \<in> {ST_HELLO_SENT, ST_ERROR}"
| "session_edge (Call_reconnect _) a b \<longleftrightarrow> b = a \<or> a \<noteq> ST_CLOSED \<and> b \<in> {ST_HELLO_SENT, ST_ERROR}"
| "session_edge (Call_send_sensor _ _) a b \<longleftrightarrow> b = a \<or> a = ST_ACTIVE \<and> b = ST_ERROR"
| "session_edge (Call_send_heartbeat _ _ _ _) a b \<longleftrightarrow> b = a \<or> a = ST_ACTIVE \<and> b = ST_ERROR"
| "session_edge (Call_send_route _ _ _ _) a b \<longleftrightarrow> b = a \<or> a = ST_ACTIVE \<and> b = ST_ERROR"
| "session_edge (Call_request_safe_stop _ _ _) a b \<longleftrightarrow>
     b = a \<or> a \<notin> {ST_CLOSED, ST_ERROR} \<and> b \<in> {ST_SAFE_STOP, ST_ERROR}"
| "session_edge (Call_poll _) a b \<longleftrightarrow>
     b = a \<or> a \<noteq> ST_CLOSED \<and> (b = ST_ERROR \<or> a = ST_HELLO_SENT \<and> b \<in> {ST_ACTIVE, ST_TIMED_OUT}
       \<or> a = ST_ACTIVE \<and> b = ST_TIMED_OUT)"
| "session_edge Call_close a b \<longleftrightarrow> b = a \<or> b = ST_CLOSED"

lemma handle_session_packet_receives: "receives (sn_state s) (sn_state (handle_session_packet mt p s))"
  by (auto simp: handle_session_packet_def receives_def Let_def split: typed_payload.split)

lemma handle_packet_receives: "receives (sn_state s) (sn_state (snd (handle_packet now p s)))"
proof -
  obtain x tr where "observe (sequence p)
             (if message_type p \<in> {MT_CONTROL_COMMAND, MT_STATE_ESTIMATE}
              then Some (step_id p) else None) (sn_rx_sequence s) = (x, tr)" by fastforce
  moreover have "receives (sn_state s) (sn_state (handle_session_packet mt q (s\<lparr>sn_rx_sequence := t,
      sn_stats := u, sn_last_rx_ms := v\<rparr>)))" for mt q t u v
    using handle_session_packet_receives [of "s\<lparr>sn_rx_sequence := t, sn_stats := u, sn_last_rx_ms := v\<rparr>" mt q]
    by simp
  ultimately show ?thesis
    by (auto simp: handle_packet_def Let_def receives_def [of _ ST_ERROR] split: sum.split py_exn.split)
qed

lemma handle_packets_receives: "receives (sn_state s) (sn_state (snd (handle_packets now ps evs s)))"
proof (induction ps arbitrary: evs s)
  case (Cons p ps)
  obtain x s1 where x: "handle_packet now p s = (x, s1)" by fastforce
  have r: "receives (sn_state s) (sn_state s1)" using handle_packet_receives [of s now p] x by simp
  show ?case
    using x r Cons.IH [of s1] receives_trans [OF r] by (cases x) (auto simp: bindM_def)
qed simp

lemma poll_reads_receives: "receives (sn_state s) (sn_state (snd (poll_reads ops now n evs s)))"
proof (induction n arbitrary: evs s)
  case (Suc n)
  obtain x t where x: "bt_read ops 512 (sn_transport s) = (x, t)" by fastforce
  show ?case
  proof (cases "\<exists>d. x = Inr d \<and> d \<noteq> []")
    case False
    with x show ?thesis by (cases x) (auto simp: receives_def)
  next
    case True
    then obtain d where d: "x = Inr d" "d \<noteq> []" by blast
    obtain y p where y: "feed d (sn_parser s) = (y, p)" by fastforce
    show ?thesis
    proof (cases y)
      case (Inl e)
      with x d y show ?thesis by (simp add: Let_def)
    next
      case (Inr b)
      define s1 where "s1 = s\<lparr>sn_transport := t, sn_parser := p, sn_stats := (sn_stats s)
         \<lparr>sx_rx_bytes := sx_rx_bytes (sn_stats s) + length d,
          sx_rx_rejected := sx_rx_rejected (sn_stats s) + length (pb_errors b)\<rparr>\<rparr>"
      obtain z s2 where z: "handle_packets now (pb_packets b) evs s1 = (z, s2)" by fastforce
      have r: "receives (sn_state s) (sn_state s2)"
        using handle_packets_receives [of s1 now "pb_packets b" evs] z by (simp add: s1_def)
      have "poll_reads ops now (Suc n) evs s = (case z of Inl e \<Rightarrow> (Inl e, s2) | Inr v \<Rightarrow> poll_reads ops now n v s2)"
        using x d y Inr z unfolding s1_def by (simp add: Let_def bindM_def split: sum.split)
      with r Suc.IH [of s2] receives_trans [OF r] show ?thesis by (cases z) auto
    qed
  qed
qed simp

lemma validate_now_state [simp]: "validate_now now s = (r, s') \<Longrightarrow> sn_state s' = sn_state s"
  by (auto simp: validate_now_def split: if_splits option.splits)

lemma check_timeout_state:
  "sn_state (snd (check_timeout now s)) = sn_state s
   \<or> sn_state s \<in> {ST_HELLO_SENT, ST_ACTIVE} \<and> sn_state (snd (check_timeout now s)) = ST_TIMED_OUT"
  by (auto simp: check_timeout_def current_timeout_ms_def bindM_def split: option.split)

context byte_transport
begin

lemma flush_state:
  "tinv (sn_transport s) \<Longrightarrow> flush_tx ops s = (r, s') \<Longrightarrow> sn_state s' = sn_state s \<or> sn_state s' = ST_ERROR"
  using flush_law by fastforce

lemma active_send_edge:
  assumes "session_inv tinv s" "bindM require_active (\<lambda>_. send ops mt step p) s = (r, s')"
  shows "sn_state s' = sn_state s \<or> sn_state s = ST_ACTIVE \<and> sn_state s' = ST_ERROR"
proof (cases "sn_state s = ST_ACTIVE")
  case True
  then have "send ops mt step p s = (r, s')" using assms(2) by (simp add: bindM_def require_active_def)
  from send_keeps [OF assms(1) this] True show ?thesis by auto
next
  case False
  with assms(2) show ?thesis by (simp add: bindM_def require_active_def)
qed

lemma send_chunks_edge:
  "session_inv tinv s \<Longrightarrow> send_chunks ops step cs s = (r, s') \<Longrightarrow> sn_state s' = sn_state s \<or> sn_state s' = ST_ERROR"
proof (induction cs arbitrary: s)
  case (Cons c cs)
  obtain q s1 where q: "send ops MT_ROUTE_CHUNK step (P_RouteChunk c) s = (q, s1)" by fastforce
  from send_keeps [OF Cons.prems(1) q] Cons.IH [of s1] Cons.prems(2) q show ?case
    by (cases q) (auto simp: bindM_def)
qed auto

lemma send_route_edge:
  assumes "session_inv tinv s" "send_route ops route_id points step loop s = (r, s')"
  shows "sn_state s' = sn_state s \<or> sn_state s = ST_ACTIVE \<and> sn_state s' = ST_ERROR"
proof (cases "sn_state s = ST_ACTIVE")
  case True
  with assms(2) send_chunks_edge [OF assms(1)] show ?thesis
    by (fastforce simp: send_route_def bindM_def require_active_def Let_def split: if_splits option.splits)
next
  case False
  with assms(2) show ?thesis by (simp add: send_route_def bindM_def require_active_def)
qed

lemma poll_edge:
  assumes "session_inv tinv s" "poll ops now s = (r, s')"
  shows "session_edge (Call_poll now) (sn_state s) (sn_state s')"
proof -
  obtain v s1 where v: "validate_now now s = (v, s1)" by fastforce
  have t: "tinv (sn_transport s1)"
    using assms(1) v by (auto simp: validate_now_def session_inv_def split: if_splits option.splits)
  obtain f s2 where f: "flush_tx ops s1 = (f, s2)" by fastforce
  have s2: "sn_state s2 = sn_state s \<or> sn_state s2 = ST_ERROR" using flush_state [OF t f] v by simp
  obtain q s3 where q: "poll_reads ops now (nat (sc_max_reads_per_poll (sn_config s2))) [] s2 = (q, s3)"
    by fastforce
  have s3: "receives (sn_state s2) (sn_state s3)" using poll_reads_receives [of s2 ops now] q by (metis snd_conv)
  obtain z s4 where z: "check_timeout now s3 = (z, s4)" by fastforce
  have s4: "sn_state s4 = sn_state s3 \<or> sn_state s3 \<in> {ST_HELLO_SENT, ST_ACTIVE} \<and> sn_state s4 = ST_TIMED_OUT"
    using check_timeout_state [of now s3] z by simp
  have "s' = s1 \<or> sn_state s \<noteq> ST_CLOSED \<and> s' \<in> {s2, s3, s4}"
    using assms(2) v f q z by (auto simp: poll_def bindM_def split: sum.splits if_splits)
  then show ?thesis using s2 s3 s4 v by (auto simp: receives_def)
qed

lemma start_edge:
  assumes "session_inv tinv s" "session_start ops now s = (r, s')"
  shows "session_edge (Call_start now) (sn_state s) (sn_state s')"
proof -
  obtain v s1 where v: "validate_now now s = (v, s1)" by fastforce
  then have st1: "sn_state s1 = sn_state s" by simp
  show ?thesis
  proof (cases "sn_state s = ST_CLOSED \<or> v \<noteq> Inr ()")
    case True
    with assms(2) v st1 show ?thesis by (cases v) (auto simp: session_start_def bindM_def)
  next
    case False
    define s2 where "s2 = s1\<lparr>sn_parser := parser_reset False (sn_parser s1),
               sn_rx_sequence := tracker_reset False (sn_rx_sequence s1),
               sn_tx_buffer := [], sn_tx_sequence := 0, sn_last_rx_ms := Some now,
               sn_peer_capabilities := None, sn_negotiated_max_payload := None,
               sn_negotiated_timeout_ms := None\<rparr>"
    obtain q s3 where q: "send ops MT_HELLO 0 (hello_message (sn_config s1)) s2 = (q, s3)" by fastforce
    have t: "tinv (sn_transport s2)" "0 \<le> sn_tx_sequence s2"
      using assms(1) v by (auto simp: s2_def validate_now_def session_inv_def split: if_splits option.splits)
    have "sn_state s3 = sn_state s2 \<or> sn_state s3 = ST_ERROR" using send_law [OF t(1) q t(2)] by auto
    moreover have "s' = s3 \<or> s' = s3\<lparr>sn_state := ST_HELLO_SENT\<rparr>"
      using assms(2) False v q unfolding session_start_def s2_def by (auto simp: bindM_def split: sum.splits)
    moreover have "sn_state s2 = sn_state s" using st1 by (simp add: s2_def)
    ultimately show ?thesis using False by auto
  qed
qed

lemma reconnect_edge:
  assumes "session_inv tinv s" "session_reconnect ops now s = (r, s')"
  shows "session_edge (Call_reconnect now) (sn_state s) (sn_state s')"
proof (cases "sn_state s = ST_CLOSED")
  case True
  with assms(2) show ?thesis by (simp add: session_reconnect_def)
next
  case False
  let ?s = "s\<lparr>sn_stats := (sn_stats s)\<lparr>sx_reconnects := sx_reconnects (sn_stats s) + 1\<rparr>, sn_tx_buffer := []\<rparr>"
  have "session_inv tinv ?s" using assms(1) by (simp add: session_inv_def)
  moreover have "session_start ops now ?s = (r, s')" using assms(2) False by (simp add: session_reconnect_def)
  ultimately show ?thesis using start_edge by fastforce
qed

lemma safe_stop_edge:
  assumes "session_inv tinv s" "request_safe_stop ops reason detail step s = (r, s')"
  shows "session_edge (Call_request_safe_stop reason detail step) (sn_state s) (sn_state s')"
proof (cases "sn_state s \<in> {ST_CLOSED, ST_ERROR}")
  case True
  with assms(2) show ?thesis by (auto simp: request_safe_stop_def)
next
  case False
  obtain q s1 where q: "send ops MT_SAFE_STOP step
      (P_SafeStop \<lparr>ss_reason = reason, ss_latch = True, ss_detail = detail\<rparr>) s = (q, s1)" by fastforce
  with assms(2) False have "s' = s1 \<and> q \<noteq> Inr () \<or> s' = s1\<lparr>sn_state := ST_SAFE_STOP\<rparr>"
    by (cases q) (auto simp: request_safe_stop_def bindM_def)
  with send_keeps [OF assms(1) q] False show ?thesis by auto
qed

lemma close_edge: "session_close ops s = (r, s') \<Longrightarrow> session_edge Call_close (sn_state s) (sn_state s')"
  by (auto simp: session_close_def split: prod.splits sum.splits)

text \<open>Every call keeps the invariant and follows an edge of the diagram.\<close>

lemma perform_law:
  assumes "session_inv tinv s"
  shows "session_inv tinv (snd (perform ops c s)) \<and> session_edge c (sn_state s) (sn_state (snd (perform ops c s)))"
proof (cases c)
  case (Call_start now)
  show ?thesis
    unfolding Call_start perform.simps by (rule afterI) (erule start_keeps [OF assms, THEN conjunct1], erule start_edge [OF assms])
next
  case (Call_reconnect now)
  show ?thesis
    unfolding Call_reconnect perform.simps by (rule afterI) (erule reconnect_keeps [OF assms, THEN conjunct1], erule reconnect_edge [OF assms])
next
  case (Call_send_sensor step p)
  show ?thesis
    unfolding Call_send_sensor perform.simps session_edge.simps send_sensor_def by (rule afterI) (erule active_send_keeps [OF assms, THEN conjunct1], erule active_send_edge [OF assms])
next
  case (Call_send_heartbeat step up mt st)
  show ?thesis
    unfolding Call_send_heartbeat perform.simps session_edge.simps send_heartbeat_def by (rule afterI) (erule active_send_keeps [OF assms, THEN conjunct1], erule active_send_edge [OF assms])
next
  case (Call_send_route route points step loop)
  show ?thesis
    unfolding Call_send_route perform.simps session_edge.simps by (rule afterI) (erule send_route_keeps [OF assms, THEN conjunct1], erule send_route_edge [OF assms])
next
  case (Call_request_safe_stop reason detail step)
  show ?thesis
    unfolding Call_request_safe_stop perform.simps by (rule afterI) (erule safe_stop_keeps [OF assms, THEN conjunct1], erule safe_stop_edge [OF assms])
next
  case (Call_poll now)
  show ?thesis
    unfolding Call_poll perform.simps by (rule afterI) (erule poll_law [OF assms, THEN conjunct1], erule poll_edge [OF assms])
next
  case Call_close
  show ?thesis
    unfolding Call_close perform.simps by (rule afterI) (erule session_close_keeps [OF assms, THEN conjunct1], erule close_edge)
qed

lemmas perform_keeps = perform_law [THEN conjunct1]

lemma run_keeps: "session_run ops s t \<Longrightarrow> session_inv tinv s \<Longrightarrow> session_inv tinv t"
  by (induction rule: session_run.induct) (auto intro: perform_keeps)

end

section \<open>Over the in-memory link\<close>

lemma memory_flush:
  assumes "flush_tx memory_ops s = (Inr (), s')" "sn_tx_buffer s \<noteq> []"
  shows "\<exists>a b st. sn_transport s = (a, Some b) \<and> ep_open a \<and> ep_open b
    \<and> s' = s\<lparr>sn_transport := (a, Some (b\<lparr>ep_chunks := ep_chunks b @ [sn_tx_buffer s]\<rparr>)),
             sn_tx_buffer := [], sn_stats := st\<rparr>"
proof -
  obtain a peer where l: "sn_transport s = (a, peer)" by fastforce
  show ?thesis
  proof (cases "ep_open a \<and> (\<exists>b. peer = Some b \<and> ep_open b)")
    case True
    then obtain b where b: "peer = Some b" "ep_open b" by blast
    have w: "bt_write memory_ops (sn_tx_buffer s) (sn_transport s)
        = (Inr (int (length (sn_tx_buffer s))), (a, Some (b\<lparr>ep_chunks := ep_chunks b @ [sn_tx_buffer s]\<rparr>)))"
      using True b l assms(2) by (simp add: memory_ops_def link_write_def)
    have "s' = s\<lparr>sn_transport := (a, Some (b\<lparr>ep_chunks := ep_chunks b @ [sn_tx_buffer s]\<rparr>)), sn_tx_buffer := [],
        sn_stats := (sn_stats s)\<lparr>sx_tx_bytes := sx_tx_bytes (sn_stats s) + int (length (sn_tx_buffer s))\<rparr>\<rparr>"
      using assms by (subst (asm) flush_tx.simps) (simp add: w flush_tx.simps)
    with True b l show ?thesis by blast
  next
    case False
    then have "bt_write memory_ops (sn_tx_buffer s) (sn_transport s) = (Inl TransportError, sn_transport s)"
      using l assms(2) by (auto simp: memory_ops_def link_write_def split: option.split)
    with assms show ?thesis by (subst (asm) flush_tx.simps) simp
  qed
qed

lemma memory_send:
  assumes "send memory_ops mt step p s = (Inr (), s')"
  shows "\<exists>pkt f a b st. make_packet mt (sn_tx_sequence s) step p = Inr pkt \<and> encode_packet pkt = Inr f
    \<and> sn_transport s = (a, Some b) \<and> ep_open a \<and> ep_open b
    \<and> s' = s\<lparr>sn_transport := (a, Some (b\<lparr>ep_chunks := ep_chunks b @ [sn_tx_buffer s @ f]\<rparr>)),
             sn_tx_buffer := [], sn_tx_sequence := (sn_tx_sequence s + 1) AND 0xFFFFFFFF, sn_stats := st\<rparr>"
proof -
  obtain pkt where pkt: "make_packet mt (sn_tx_sequence s) step p = Inr pkt"
    using assms by (cases "make_packet mt (sn_tx_sequence s) step p") (auto simp: send_def)
  obtain f where f: "encode_packet pkt = Inr f"
    using assms pkt by (cases "encode_packet pkt") (auto simp: send_def split: if_splits)
  let ?s = "s\<lparr>sn_tx_buffer := sn_tx_buffer s @ f, sn_tx_sequence := (sn_tx_sequence s + 1) AND 0xFFFFFFFF,
      sn_stats := (sn_stats s)\<lparr>sx_tx_packets := sx_tx_packets (sn_stats s) + 1\<rparr>\<rparr>"
  have "flush_tx memory_ops ?s = (Inr (), s')" using assms pkt f by (auto simp: send_def split: if_splits)
  moreover have "f \<noteq> []" using f by (auto simp: encode_packet_Inr)
  ultimately obtain a b st where "sn_transport ?s = (a, Some b)" "ep_open a" "ep_open b"
    "s' = ?s\<lparr>sn_transport := (a, Some (b\<lparr>ep_chunks := ep_chunks b @ [sn_tx_buffer ?s]\<rparr>)), sn_tx_buffer := [], sn_stats := st\<rparr>"
    using memory_flush [of ?s s'] by auto
  then show ?thesis
    using pkt f by (intro exI [of _ pkt] exI [of _ f] exI [of _ a] exI [of _ b] exI [of _ st]) simp
qed

lemma feed_frame:
  assumes "holds ps []" "encode_packet pkt = Inr f"
  shows "\<exists>ps'. feed f ps = (Inr \<lparr>pb_packets = [pkt], pb_errors = []\<rparr>, ps') \<and> holds ps' []"
proof -
  have "list_all2 (\<lambda>p f. encode_packet p = Inr f) [pkt] [f]" using assms(2) by simp
  from cut_encoded [OF this] obtain qs where q: "cut [] f = (qs, [])" "concat (map piece_packets qs) = [pkt]"
    "concat (map piece_errors qs) = []" by auto
  from feed_spec [OF assms(1) q(1)] q show ?thesis by (auto simp: oversize_def)
qed

lemma decode_made_packet:
  "make_packet mt n step p = Inr pkt \<Longrightarrow> decode_packet_payload pkt = Inr (round_payload p)"
  using make_packet_Inr [of mt n step p pkt] decode_encode_typed by (auto simp: decode_packet_payload_def)

lemma link_read_all:
  assumes "ep_open b" "ep_read_limit b = None" "length (queued b) \<le> 512"
  shows "\<exists>b'. link_read 512 (b, peer) = (Inr (queued b), (b', peer)) \<and> queued b' = [] \<and> ep_open b'
    \<and> ep_read_limit b' = None"
proof -
  have "limit_ok b" using assms(2) by (simp add: limit_ok_def)
  from endpoint_read_queue [OF assms(1) _ this, of 512] assms show ?thesis
    by (auto simp: link_read_def)
qed

lemma poll_reads_one:
  assumes "bt_read ops 512 (sn_transport s) = (Inr d, t)" "d \<noteq> []"
    and "feed d (sn_parser s) = (Inr \<lparr>pb_packets = [pkt], pb_errors = []\<rparr>, ps)"
    and "handle_packet now pkt (s\<lparr>sn_transport := t, sn_parser := ps, sn_stats := (sn_stats s)
           \<lparr>sx_rx_bytes := sx_rx_bytes (sn_stats s) + length d\<rparr>\<rparr>) = (Inr (Some ev), s2)"
    and "bt_read ops 512 (sn_transport s2) = (Inr [], t')"
  shows "\<exists>t''. poll_reads ops now (Suc n) [] s = (Inr [ev], s2\<lparr>sn_transport := t''\<rparr>)"
proof -
  have "poll_reads ops now (Suc n) [] s = poll_reads ops now n [ev] s2"
    using assms(1-4) by (simp add: Let_def bindM_def)
  also have "\<exists>t''. \<dots> = (Inr [ev], s2\<lparr>sn_transport := t''\<rparr>)"
    using assms(5) by (cases n) (auto intro: exI [of _ "sn_transport s2"])
  finally show ?thesis .
qed

lemma observe_first:
  assumes "tr_last_sequence tr = None" "valid_packet p"
  shows "\<exists>tr'. observe (sequence p) (if b then Some (step_id p) else None) tr = (Inr (SequenceResult SD_FIRST True), tr')"
  using assms by (simp add: observe_eq observe_valid_def valid_packet_def u32_option_def Let_def)

text \<open>A session whose HELLO is out and that has received nothing yet.\<close>

definition awaiting :: "memory_link host_session \<Rightarrow> bool" where
  "awaiting s \<longleftrightarrow> session_ok s \<and> sn_state s = ST_HELLO_SENT \<and> holds (sn_parser s) []
     \<and> tr_last_sequence (sn_rx_sequence s) = None \<and> sn_tx_buffer s = []"

lemma start_awaits:
  assumes "session_inv memory_inv s" "session_start memory_ops now s = (Inr (), s')"
  shows "awaiting s' \<and> sn_last_now_ms s' = Some now"
proof -
  obtain s1 where v: "validate_now now s = (Inr (), s1)"
    using assms(2) by (cases "validate_now now s"; cases "fst (validate_now now s)") (auto simp: session_start_def bindM_def)
  then have s1: "sn_last_now_ms s1 = Some now" by (auto simp: validate_now_def split: if_splits option.splits)
  have "sn_state s1 \<noteq> ST_CLOSED" using assms(2) v by (auto simp: session_start_def bindM_def)
  define s2 where "s2 = s1\<lparr>sn_parser := parser_reset False (sn_parser s1),
             sn_rx_sequence := tracker_reset False (sn_rx_sequence s1),
             sn_tx_buffer := [], sn_tx_sequence := 0, sn_last_rx_ms := Some now,
             sn_peer_capabilities := None, sn_negotiated_max_payload := None,
             sn_negotiated_timeout_ms := None\<rparr>"
  obtain s3 where s3: "send memory_ops MT_HELLO 0 (hello_message (sn_config s1)) s2 = (Inr (), s3)"
    "s' = s3\<lparr>sn_state := ST_HELLO_SENT\<rparr>"
    using assms(2) v \<open>sn_state s1 \<noteq> ST_CLOSED\<close> unfolding session_start_def s2_def
    by (auto simp: bindM_def split: prod.splits sum.splits)
  have "session_ok s'" using memory.start_keeps [OF assms] by (simp add: session_inv_def)
  moreover have "holds (parser_reset False ps) []" for ps by (simp add: holds_def parser_reset_def)
  ultimately show ?thesis
    using memory_send [OF s3(1)] s3(2) s1 unfolding awaiting_def s2_def
    by (auto simp: tracker_reset_def)
qed

lemma handle_first_ack:
  assumes "session_ok s" "sn_state s = ST_HELLO_SENT" "tr_last_sequence (sn_rx_sequence s) = None"
    and "make_packet MT_HELLO_ACK n step (P_HelloAck a) = Inr pkt" "valid_packet pkt"
  shows "\<exists>s'. handle_packet now pkt s =
      (Inr (Some \<lparr>ev_packet = pkt, ev_payload = P_HelloAck a, ev_sequence_disposition = SD_FIRST\<rparr>), s')
    \<and> sn_transport s' = sn_transport s \<and> sn_last_rx_ms s' = Some now
    \<and> (if acceptable_ack s a
       then sn_state s' = ST_ACTIVE \<and> sn_peer_capabilities s' = Some (ack_capabilities a)
         \<and> sn_negotiated_max_payload s' = Some (ack_max_payload a)
         \<and> sn_negotiated_timeout_ms s' = Some (min (sc_timeout_ms (sn_config s)) (ack_heartbeat_timeout_ms a))
       else sn_state s' = ST_ERROR)"
proof -
  have mt: "message_type pkt = MT_HELLO_ACK" using make_packet_Inr [OF assms(4)] by simp
  have d: "decode_packet_payload pkt = Inr (P_HelloAck a)" using decode_made_packet [OF assms(4)] by simp
  obtain tr where tr: "observe (sequence pkt) None (sn_rx_sequence s) = (Inr (SequenceResult SD_FIRST True), tr)"
    using observe_first [OF assms(3,5), of False] by auto
  let ?s = "s\<lparr>sn_rx_sequence := tr, sn_stats := (sn_stats s)\<lparr>sx_rx_packets := sx_rx_packets (sn_stats s) + 1\<rparr>,
      sn_last_rx_ms := Some now\<rparr>"
  have "handle_packet now pkt s =
    (Inr (Some \<lparr>ev_packet = pkt, ev_payload = P_HelloAck a, ev_sequence_disposition = SD_FIRST\<rparr>),
     handle_session_packet MT_HELLO_ACK (P_HelloAck a) ?s)"
    using d tr mt by (simp add: handle_packet_def SequenceResult_def Let_def)
  moreover have "acceptable_ack ?s a = acceptable_ack s a" by (simp add: acceptable_ack_def)
  ultimately show ?thesis unfolding handle_ack by auto
qed

lemma poll_handshake:
  assumes aw: "awaiting s" and now: "sn_last_now_ms s = Some t" "t \<le> now"
    and link: "sn_transport s = (a, peer)" "ep_open a" "ep_read_limit a = None" "queued a = f"
    and frame: "make_packet MT_HELLO_ACK n step (P_HelloAck ack) = Inr pkt" "encode_packet pkt = Inr f"
  shows "\<exists>s'. poll memory_ops now s =
      (Inr [\<lparr>ev_packet = pkt, ev_payload = P_HelloAck ack, ev_sequence_disposition = SD_FIRST\<rparr>], s')
    \<and> (if acceptable_ack s ack
       then sn_state s' = ST_ACTIVE \<and> sn_peer_capabilities s' = Some (ack_capabilities ack)
         \<and> sn_negotiated_max_payload s' = Some (ack_max_payload ack)
         \<and> sn_negotiated_timeout_ms s' = Some (min (sc_timeout_ms (sn_config s)) (ack_heartbeat_timeout_ms ack))
       else sn_state s' = ST_ERROR)"
proof -
  let ?ev = "\<lparr>ev_packet = pkt, ev_payload = P_HelloAck ack, ev_sequence_disposition = SD_FIRST\<rparr>"
  let ?s1 = "s\<lparr>sn_last_now_ms := Some now\<rparr>"
  have ok: "session_ok s" and st: "sn_state s = ST_HELLO_SENT" and buf: "sn_tx_buffer s = []"
    and ps: "holds (sn_parser s) []" and tr: "tr_last_sequence (sn_rx_sequence s) = None"
    using aw by (simp_all add: awaiting_def)
  have "0 \<le> t" using ok now(1) by (simp add: session_ok_def clock_ok_def)
  then have v: "validate_now now s = (Inr (), ?s1)" using now by (simp add: validate_now_def)
  then have ok1: "session_ok ?s1" using validate_now_law [OF ok v] by simp
  have fl: "flush_tx memory_ops ?s1 = (Inr (), ?s1)" using buf by (simp add: flush_tx.simps)
  have f: "f \<noteq> []" "length f \<le> 144" using frame(2) frame_size by (auto simp: encode_packet_Inr)
  obtain a' where a': "bt_read memory_ops 512 (sn_transport ?s1) = (Inr f, (a', peer))"
    "queued a' = []" "ep_open a'" "ep_read_limit a' = None"
    using link_read_all [OF link(2,3), of peer] link f by (auto simp: memory_ops_def)
  obtain ps' where p: "feed f (sn_parser ?s1) = (Inr \<lparr>pb_packets = [pkt], pb_errors = []\<rparr>, ps')" "holds ps' []"
    using feed_frame [OF ps frame(2)] by auto
  define s2 where "s2 = ?s1\<lparr>sn_transport := (a', peer), sn_parser := ps', sn_stats := (sn_stats s)
           \<lparr>sx_rx_bytes := sx_rx_bytes (sn_stats s) + length f\<rparr>\<rparr>"
  have pinv: "parser_inv ps'" using p(2) holds_inv by blast
  have s2: "session_ok s2" "sn_state s2 = ST_HELLO_SENT" "tr_last_sequence (sn_rx_sequence s2) = None"
    "sn_last_now_ms s2 = Some now" "sn_transport s2 = (a', peer)" "sn_config s2 = sn_config s"
    using ok1 st tr pinv by (simp_all add: s2_def session_ok_def clock_ok_def negotiated_def)
  have valid: "valid_packet pkt" using frame(2) by (simp add: encode_packet_Inr)
  obtain s3 where s3: "handle_packet now pkt s2 = (Inr (Some ?ev), s3)" "sn_transport s3 = (a', peer)"
    "sn_last_rx_ms s3 = Some now"
    and res: "if acceptable_ack s2 ack
       then sn_state s3 = ST_ACTIVE \<and> sn_peer_capabilities s3 = Some (ack_capabilities ack)
         \<and> sn_negotiated_max_payload s3 = Some (ack_max_payload ack)
         \<and> sn_negotiated_timeout_ms s3 = Some (min (sc_timeout_ms (sn_config s2)) (ack_heartbeat_timeout_ms ack))
       else sn_state s3 = ST_ERROR"
    using handle_first_ack [OF s2(1-3) frame(1) valid, of now] s2(5) by metis
  have ok3: "session_ok s3" using handle_packet_law [OF s2(1,4) valid] s3(1) by auto
  obtain k where k: "nat (sc_max_reads_per_poll (sn_config ?s1)) = Suc k"
    using ok by (cases "nat (sc_max_reads_per_poll (sn_config ?s1))") (auto simp: session_ok_def config_ok_def)
  obtain a'' where "bt_read memory_ops 512 (sn_transport s3) = (Inr [], (a'', peer))"
    using link_read_all [OF a'(3,4), of peer] a'(2) s3(2) by (auto simp: memory_ops_def)
  from poll_reads_one [OF a'(1) f(1) p(1) _ this, of now ?ev k] s3(1)
  obtain t'' where reads: "poll_reads memory_ops now (Suc k) [] ?s1 = (Inr [?ev], s3\<lparr>sn_transport := t''\<rparr>)"
    unfolding s2_def by auto
  let ?s4 = "s3\<lparr>sn_transport := t''\<rparr>"
  have acc: "acceptable_ack s2 ack = acceptable_ack s ack" using s2 st by (simp add: acceptable_ack_def)
  have "\<not> overdue now ?s4"
    using ok3 s3(3) by (auto simp: overdue_def deadline_def session_ok_def negotiated_def config_ok_def)
  then have "check_timeout now ?s4 = (Inr (), ?s4)" using check_timeout_eq [of ?s4 now] ok3 by simp
  then have "poll memory_ops now s = (Inr [?ev], ?s4)"
    using v st fl reads k by (simp add: poll_def bindM_def)
  with res show ?thesis unfolding acc s2(6) by auto
qed

section \<open>Routes in chunks\<close>

definition route_chunks :: "int \<Rightarrow> route_waypoint list \<Rightarrow> bool \<Rightarrow> nat \<Rightarrow> route_chunk_payload list" where
  "route_chunks route_id points loop k = map (route_chunk_at route_id points loop k) (py_range (length points) k)"

lemma chunks_concat: "concat (map (\<lambda>i. take k (drop (i * k) xs)) [0..<n]) = take (n * k) xs"
proof (induction n)
  case (Suc n)
  have "Suc n * k = n * k + k" by simp
  then have "take (Suc n * k) xs = take (n * k) xs @ take k (drop (n * k) xs)" by (simp only: take_add)
  with Suc show ?case by simp
qed simp

lemma py_range_covers: "0 < (k :: nat) \<Longrightarrow> n \<le> (n + k - 1) div k * k"
proof -
  assume k: "0 < k"
  have "n + k - 1 = (n + k - 1) div k * k + (n + k - 1) mod k" by simp
  moreover have "(n + k - 1) mod k \<le> k - 1" using k by (simp add: Suc_leI less_Suc_eq_le [symmetric])
  ultimately show ?thesis using k by linarith
qed

lemma py_range_within: "0 < (k :: nat) \<Longrightarrow> i < (n + k - 1) div k \<Longrightarrow> i * k < n"
proof -
  assume k: "0 < k" and i: "i < (n + k - 1) div k"
  then have "Suc i * k \<le> (n + k - 1) div k * k" by (intro mult_le_mono1) simp
  also have "\<dots> \<le> n + k - 1" by simp
  finally show ?thesis using k by simp
qed

lemma rc_points_chunk: "rc_points (route_chunk_at r xs l k start) = take k (drop start xs)"
  and rc_start_chunk: "rc_start_index (route_chunk_at r xs l k start) = int start"
  and rc_total_chunk: "rc_total_count (route_chunk_at r xs l k start) = int (length xs)"
  by (simp_all add: route_chunk_at_def Let_def)

lemma rc_flags_chunk:
  "rc_flags (route_chunk_at r xs l k start) =
     (if start = 0 then RF_CLEAR_EXISTING else 0)
     + (if start + length (take k (drop start xs)) = length xs then RF_FINAL_CHUNK else 0)
     + (if l then RF_LOOP_ROUTE else 0)"
  by (simp add: route_chunk_at_def Let_def flag_values)

lemma route_chunks_points: "0 < k \<Longrightarrow> concat (map rc_points (route_chunks r xs l k)) = xs"
  using chunks_concat [of k xs "(length xs + k - 1) div k"] py_range_covers [of k "length xs"]
  by (simp add: route_chunks_def py_range_def rc_points_chunk o_def)

lemma route_chunk_last:
  assumes "0 < k" "i < (length xs + k - 1) div k"
  shows "i * k + length (take k (drop (i * k) xs)) = length xs \<longleftrightarrow> Suc i = (length xs + k - 1) div k"
proof -
  have i: "i * k < length xs" using py_range_within [OF assms] .
  have last: "(length xs + k - 1) div k = Suc i \<longleftrightarrow> length xs \<le> Suc i * k"
  proof
    assume "(length xs + k - 1) div k = Suc i"
    then show "length xs \<le> Suc i * k" using py_range_covers [OF assms(1), of "length xs"] by simp
  next
    assume "length xs \<le> Suc i * k"
    moreover have "Suc i \<le> (length xs + k - 1) div k" using assms(2) by simp
    moreover have "(length xs + k - 1) div k \<le> Suc i" if "length xs \<le> Suc i * k"
    proof -
      have "length xs + k - 1 < Suc (Suc i) * k" using that assms(1) by simp
      then have "(length xs + k - 1) div k < Suc (Suc i)" by (simp add: less_mult_imp_div_less)
      then show ?thesis by simp
    qed
    ultimately show "(length xs + k - 1) div k = Suc i" by simp
  qed
  show ?thesis using i last by (auto simp: min_def)
qed

lemma memory_send_chunks:
  "send_chunks memory_ops step cs s = (Inr (), s') \<Longrightarrow> sn_tx_buffer s = [] \<Longrightarrow> sn_transport s = (a, Some b) \<Longrightarrow>
   \<exists>pkts fs b'. sn_transport s' = (a, Some b') \<and> queued b' = queued b @ concat fs \<and> sn_tx_buffer s' = []
     \<and> list_all2 (\<lambda>p f. encode_packet p = Inr f) pkts fs
     \<and> list_all2 (\<lambda>c p. \<exists>n. make_packet MT_ROUTE_CHUNK n step (P_RouteChunk c) = Inr p) cs pkts"
proof (induction cs arbitrary: s b)
  case Nil
  then show ?case by (intro exI [of _ "[]"]) auto
next
  case (Cons c cs)
  obtain s1 where s1: "send memory_ops MT_ROUTE_CHUNK step (P_RouteChunk c) s = (Inr (), s1)"
    "send_chunks memory_ops step cs s1 = (Inr (), s')"
    using Cons.prems(1) by (auto simp: bindM_eq_Inr)
  obtain pkt f st where p: "make_packet MT_ROUTE_CHUNK (sn_tx_sequence s) step (P_RouteChunk c) = Inr pkt"
    "encode_packet pkt = Inr f"
    "s1 = s\<lparr>sn_transport := (a, Some (b\<lparr>ep_chunks := ep_chunks b @ [sn_tx_buffer s @ f]\<rparr>)),
             sn_tx_buffer := [], sn_tx_sequence := (sn_tx_sequence s + 1) AND 0xFFFFFFFF, sn_stats := st\<rparr>"
    using memory_send [OF s1(1)] Cons.prems(3) by auto
  from Cons.IH [OF s1(2), of "b\<lparr>ep_chunks := ep_chunks b @ [sn_tx_buffer s @ f]\<rparr>"] p(3) obtain pkts fs b' where
    "sn_transport s' = (a, Some b')" "queued b' = queued b @ f @ concat fs" "sn_tx_buffer s' = []"
    "list_all2 (\<lambda>p f. encode_packet p = Inr f) pkts fs"
    "list_all2 (\<lambda>c p. \<exists>n. make_packet MT_ROUTE_CHUNK n step (P_RouteChunk c) = Inr p) cs pkts"
    using Cons.prems(2) by (auto simp: queued_def)
  with p(1,2) show ?case
    by (intro exI [of _ "pkt # pkts"] exI [of _ "f # fs"] exI [of _ b']) auto
qed

lemma memory_send_route:
  assumes "send_route memory_ops route_id points step loop s = (Inr (), s')"
    "sn_tx_buffer s = []" "sn_transport s = (a, Some b)"
  shows "\<exists>limit k pkts fs b'. sn_negotiated_max_payload s = Some limit \<and> k = nat (points_per_chunk limit) \<and> 0 < k
    \<and> points \<noteq> []
    \<and> sn_transport s' = (a, Some b') \<and> queued b' = queued b @ concat fs
    \<and> list_all2 (\<lambda>p f. encode_packet p = Inr f) pkts fs
    \<and> list_all2 (\<lambda>c p. \<exists>n. make_packet MT_ROUTE_CHUNK n step (P_RouteChunk c) = Inr p)
        (route_chunks route_id points loop k) pkts"
proof -
  obtain limit where l: "points \<noteq> []" "sn_negotiated_max_payload s = Some limit" "0 < points_per_chunk limit"
    "send_chunks memory_ops step (route_chunks route_id points loop (nat (points_per_chunk limit))) s = (Inr (), s')"
    using assms(1) by (auto simp: send_route_def bindM_def require_active_def route_chunks_def Let_def
        split: if_splits option.splits)
  from memory_send_chunks [OF l(4) assms(2,3)] l show ?thesis
    by (intro exI [of _ limit] exI [of _ "nat (points_per_chunk limit)"]) auto
qed

section \<open>A session to run\<close>

lemma memory_send_ok:
  assumes "sn_transport s = (a, Some b)" "ep_open a" "ep_open b"
    "make_packet mt (sn_tx_sequence s) step p = Inr pkt" "encode_packet pkt = Inr f"
    "int (length (sn_tx_buffer s)) + 144 \<le> sc_max_tx_buffer (sn_config s)"
    "mt = MT_HELLO \<or> (\<forall>n. sn_negotiated_max_payload s = Some n \<longrightarrow> 128 \<le> n)"
  shows "\<exists>s'. send memory_ops mt step p s = (Inr (), s')"
proof -
  define s1 where "s1 = s\<lparr>sn_tx_buffer := sn_tx_buffer s @ f, sn_tx_sequence := (sn_tx_sequence s + 1) AND 0xFFFFFFFF,
      sn_stats := (sn_stats s)\<lparr>sx_tx_packets := sx_tx_packets (sn_stats s) + 1\<rparr>\<rparr>"
  have len: "length f \<le> 144" "length (payload pkt) \<le> 128"
    using frame_size [OF assms(5)] make_packet_Inr [OF assms(4)] by simp_all
  have fits: "\<not> (mt \<noteq> MT_HELLO \<and> (case sn_negotiated_max_payload s of None \<Rightarrow> False
      | Some n \<Rightarrow> n < int (length (payload pkt))))"
    using assms(7) len(2) by (auto split: option.split)
  have "send memory_ops mt step p s = flush_tx memory_ops s1"
    using assms(4,5,6) fits len(1) unfolding send_def s1_def by auto
  moreover have "\<exists>s'. flush_tx memory_ops s1 = (Inr (), s')"
  proof -
    have "sn_tx_buffer s1 \<noteq> []" using assms(5) by (auto simp: s1_def encode_packet_Inr)
    moreover have "bt_write memory_ops (sn_tx_buffer s1) (sn_transport s1)
        = (Inr (int (length (sn_tx_buffer s1))), (a, Some (b\<lparr>ep_chunks := ep_chunks b @ [sn_tx_buffer s1]\<rparr>)))"
      using calculation assms(1-3) by (auto simp: memory_ops_def link_write_def s1_def)
    ultimately show ?thesis by (subst flush_tx.simps) (simp add: flush_tx.simps)
  qed
  ultimately show ?thesis by simp
qed

definition demo_endpoint :: in_memory_endpoint where
  "demo_endpoint = \<lparr>ep_chunks = [], ep_open = True, ep_read_limit = None\<rparr>"

text \<open>The default configuration.\<close>

definition demo_config :: session_config where
  "demo_config = \<lparr>sc_timeout_ms = 500, sc_max_reads_per_poll = 32, sc_max_tx_buffer = 4096,
     sc_required_capabilities = SUPPORTED_CAPABILITIES\<rparr>"

definition demo_tracker :: sequence_tracker where
  "demo_tracker = \<lparr>tr_reorder_window = 32, tr_stats = SequenceStats, tr_last_sequence = None, tr_last_step_id = None\<rparr>"

definition demo_session :: "memory_link host_session" where
  "demo_session = \<lparr>sn_transport = (demo_endpoint, Some demo_endpoint), sn_config = demo_config,
     sn_state = ST_DISCONNECTED, sn_stats = SessionStats, sn_parser = StreamParser, sn_rx_sequence = demo_tracker,
     sn_tx_sequence = 0, sn_tx_buffer = [], sn_last_rx_ms = None, sn_last_now_ms = None,
     sn_peer_capabilities = None, sn_negotiated_max_payload = None, sn_negotiated_timeout_ms = None\<rparr>"

lemma demo_config: "SessionConfig 500 32 4096 SUPPORTED_CAPABILITIES = Inr demo_config"
  by (simp add: SessionConfig_def demo_config_def SUPPORTED_CAPABILITIES_def flag_values)

lemma demo_new: "HostSession (demo_endpoint, Some demo_endpoint) demo_config = Inr demo_session"
  by (simp add: HostSession_def SequenceTracker_def demo_session_def demo_tracker_def)

lemma demo_inv: "session_inv memory_inv demo_session"
  using session_ok_new [OF config_ok [OF demo_config] demo_new]
  by (simp add: session_inv_def memory_inv_def limit_ok_def demo_endpoint_def)

lemma demo_starts: "\<exists>s. session_start memory_ops 0 demo_session = (Inr (), s) \<and> sn_config s = demo_config
  \<and> (\<exists>b. sn_transport s = (demo_endpoint, b))"
proof -
  define s1 where "s1 = demo_session\<lparr>sn_last_now_ms := Some 0, sn_parser := parser_reset False StreamParser,
             sn_rx_sequence := tracker_reset False demo_tracker,
             sn_tx_buffer := [], sn_tx_sequence := 0, sn_last_rx_ms := Some 0,
             sn_peer_capabilities := None, sn_negotiated_max_payload := None,
             sn_negotiated_timeout_ms := None\<rparr>"
  obtain pkt f where "make_packet MT_HELLO 0 0 (hello_message demo_config) = Inr pkt" "encode_packet pkt = Inr f"
    using hello_encodes [of demo_config] by (auto simp: demo_config_def)
  then have "\<exists>s'. send memory_ops MT_HELLO 0 (hello_message demo_config) s1 = (Inr (), s')"
    by (intro memory_send_ok) (auto simp: s1_def demo_session_def demo_endpoint_def demo_config_def)
  then obtain s' where s': "send memory_ops MT_HELLO 0 (hello_message demo_config) s1 = (Inr (), s')" by blast
  have v: "validate_now 0 demo_session = (Inr (), demo_session\<lparr>sn_last_now_ms := Some 0\<rparr>)"
    by (simp add: validate_now_def demo_session_def)
  have fields: "sn_state demo_session = ST_DISCONNECTED" "sn_config demo_session = demo_config"
    "sn_parser demo_session = StreamParser" "sn_rx_sequence demo_session = demo_tracker"
    by (simp_all add: demo_session_def)
  have "session_start memory_ops 0 demo_session = bindM (send memory_ops MT_HELLO 0 (hello_message demo_config))
      (\<lambda>_. modifyM (\<lambda>s. s\<lparr>sn_state := ST_HELLO_SENT\<rparr>)) s1"
    unfolding session_start_def s1_def by (simp add: bindM_def [of "validate_now 0"] v fields)
  then have "session_start memory_ops 0 demo_session = (Inr (), s'\<lparr>sn_state := ST_HELLO_SENT\<rparr>)"
    using s' by (simp add: bindM_def)
  moreover from memory_send [OF s'] have "sn_config s' = demo_config \<and> (\<exists>b. sn_transport s' = (demo_endpoint, b))"
    by (auto simp: s1_def demo_session_def)
  ultimately show ?thesis by auto
qed

section \<open>Properties\<close>

text \<open>C11: whatever transport that keeps its contract carries it, and whatever calls a client makes in
  whatever order with whatever arguments, a session that was created with an accepted configuration
  satisfies the session invariant: the transmit buffer within its limit, the sequence number in 32
  bits, the parser and tracker invariants, the clock ordered, and an active session with
  negotiated values that fit its configuration.\<close>

theorem session_reachable_invariant:
  assumes "byte_transport ops tinv" "tinv t" "SessionConfig timeout reads buffer required = Inr c"
    "HostSession t c = Inr s0" "session_run ops s0 s"
  shows "session_inv tinv s"
proof -
  have "session_inv tinv s0"
    using session_ok_new [OF config_ok [OF assms(3)] assms(4)] assms(2) by (simp add: session_inv_def)
  with byte_transport.run_keeps [OF assms(1,5)] show ?thesis by blast
qed

theorem session_reachable_invariant_witness:
  "session_inv memory_inv (snd (perform memory_ops (Call_poll 700) (snd (perform memory_ops (Call_start 0) demo_session))))"
proof -
  have "session_run memory_ops demo_session
      (snd (perform memory_ops (Call_poll 700) (snd (perform memory_ops (Call_start 0) demo_session))))"
    by (intro run_call run_new)
  moreover have "memory_inv (demo_endpoint, Some demo_endpoint)"
    by (simp add: memory_inv_def limit_ok_def demo_endpoint_def)
  ultimately show ?thesis
    using session_reachable_invariant [OF memory.byte_transport_axioms _ demo_config demo_new] by blast
qed



text \<open>a poll refuses a clock that runs backwards or is negative and changes nothing, or fails
  with a transport error and leaves the session in ERROR, or returns its events; then a session that
  is still waiting or active is within its deadline.\<close>

theorem poll_outcomes:
  assumes "byte_transport ops tinv" "session_inv tinv s" "poll ops now s = (r, s')"
  shows "(r = Inl ValueError \<and> s' = s)
    \<or> (r = Inl TransportError \<and> sn_state s' = ST_ERROR)
    \<or> (\<exists>evs. r = Inr evs)
      \<and> (sn_state s' \<in> {ST_HELLO_SENT, ST_ACTIVE} \<longrightarrow> now - the (sn_last_rx_ms s') \<le> deadline s')"
  using byte_transport.poll_law [OF assms] by (auto simp: overdue_def)

theorem poll_outcomes_witness:
  "fst (poll memory_ops (- 1) demo_session) = Inl ValueError \<and> snd (poll memory_ops (- 1) demo_session) = demo_session"
proof -
  have p: "poll memory_ops (- 1) demo_session = (Inl ValueError, demo_session)"
    unfolding poll_def bindM_def [of "validate_now (- 1)"] by (simp add: validate_now_def)
  from poll_outcomes [OF memory.byte_transport_axioms demo_inv p] show ?thesis unfolding p by simp
qed

text \<open>C21: the handshake over the in-memory link: after a start, a poll that finds exactly the peer's
  HELLO_ACK frame returns it as its one event, and the session is ACTIVE with the smaller of the two
  timeouts and the peer's payload limit if the answer is acceptable, and in ERROR otherwise.\<close>

theorem handshake_completes:
  assumes "session_inv memory_inv s0" "session_start memory_ops t0 s0 = (Inr (), s1)" "t0 \<le> t1"
    and "sn_transport s1 = (a, peer)" "ep_open a" "ep_read_limit a = None" "queued a = []"
    and "make_packet MT_HELLO_ACK n step (P_HelloAck ack) = Inr pkt" "encode_packet pkt = Inr f"
    and "endpoint_inject f a = (Inr (), a')"
  shows "\<exists>s2. poll memory_ops t1 (s1\<lparr>sn_transport := (a', peer)\<rparr>) =
      (Inr [\<lparr>ev_packet = pkt, ev_payload = P_HelloAck ack, ev_sequence_disposition = SD_FIRST\<rparr>], s2)
    \<and> (if acceptable_ack s1 ack
       then sn_state s2 = ST_ACTIVE \<and> sn_peer_capabilities s2 = Some (ack_capabilities ack)
         \<and> sn_negotiated_max_payload s2 = Some (ack_max_payload ack)
         \<and> sn_negotiated_timeout_ms s2 = Some (min (sc_timeout_ms (sn_config s1)) (ack_heartbeat_timeout_ms ack))
       else sn_state s2 = ST_ERROR)"
proof -
  let ?s = "s1\<lparr>sn_transport := (a', peer)\<rparr>"
  have "f \<noteq> []" using assms(9) by (auto simp: encode_packet_Inr)
  then have a': "a' = a\<lparr>ep_chunks := ep_chunks a @ [f]\<rparr>"
    using assms(5,10) by (auto simp: endpoint_inject_def)
  have q: "queued a' = f" "ep_open a'" "ep_read_limit a' = None"
    using assms(5,6,7) by (simp_all add: a' queued_def)
  have aw: "awaiting ?s" "sn_last_now_ms ?s = Some t0"
    using start_awaits [OF assms(1,2)] by (simp_all add: awaiting_def)
  have "acceptable_ack ?s ack = acceptable_ack s1 ack" "sn_config ?s = sn_config s1"
    by (simp_all add: acceptable_ack_def)
  moreover have "sn_transport ?s = (a', peer)" by simp
  ultimately show ?thesis using poll_handshake [OF aw assms(3) _ q(2,3,1) assms(8,9), of peer] by (simp only:)
qed

definition demo_ack :: hello_ack_payload where
  "demo_ack = \<lparr>ack_accepted_version = 1, ack_status = HS_OK, ack_role = ROLE_CONTROLLER,
     ack_capabilities = SUPPORTED_CAPABILITIES, ack_max_payload = 128, ack_heartbeat_timeout_ms = 300\<rparr>"

lemma made_encodes:
  assumes "payload_ok p" "0 \<le> n \<and> n < 2 ^ 32" "0 \<le> step \<and> step < 2 ^ 32"
  shows "\<exists>pkt f. make_packet (payload_type p) n step p = Inr pkt \<and> encode_packet pkt = Inr f"
proof -
  obtain d where d: "encode_typed_payload (payload_type p) p = Inr d" using encode_typed_ok [OF assms(1)] by blast
  then have m: "make_packet (payload_type p) n step p
      = Inr \<lparr>message_type = payload_type p, sequence = n, step_id = step, payload = d\<rparr>"
    by (simp add: make_packet_eq)
  from make_packet_Inr [OF m] assms(2,3) have "valid_packet
      \<lparr>message_type = payload_type p, sequence = n, step_id = step, payload = d\<rparr>"
    by (simp add: valid_packet_def)
  then obtain f where "encode_packet \<lparr>message_type = payload_type p, sequence = n, step_id = step, payload = d\<rparr> = Inr f"
    by (auto simp: encode_packet_Inr)
  with m show ?thesis by blast
qed

lemma demo_ack_ok: "payload_ok (P_HelloAck demo_ack)"
  by (simp add: hello_ack_ok_def demo_ack_def mask_ok_def SUPPORTED_CAPABILITIES_def flag_values)

theorem handshake_completes_witness:
  "\<exists>s1 s2 pkt f a a' peer. session_start memory_ops 0 demo_session = (Inr (), s1)
    \<and> sn_transport s1 = (a, peer) \<and> endpoint_inject f a = (Inr (), a')
    \<and> make_packet MT_HELLO_ACK 0 0 (P_HelloAck demo_ack) = Inr pkt \<and> encode_packet pkt = Inr f
    \<and> poll memory_ops 20 (s1\<lparr>sn_transport := (a', peer)\<rparr>) =
        (Inr [\<lparr>ev_packet = pkt, ev_payload = P_HelloAck demo_ack, ev_sequence_disposition = SD_FIRST\<rparr>], s2)
    \<and> sn_state s2 = ST_ACTIVE \<and> sn_negotiated_timeout_ms s2 = Some 300"
proof -
  obtain s1 peer where s1: "session_start memory_ops 0 demo_session = (Inr (), s1)" "sn_config s1 = demo_config"
    "sn_transport s1 = (demo_endpoint, peer)" using demo_starts by auto
  obtain pkt f where p: "make_packet MT_HELLO_ACK 0 0 (P_HelloAck demo_ack) = Inr pkt" "encode_packet pkt = Inr f"
    using made_encodes [OF demo_ack_ok, of 0 0] by auto
  have d: "ep_open demo_endpoint" "ep_read_limit demo_endpoint = None" "queued demo_endpoint = []"
    by (simp_all add: demo_endpoint_def queued_def)
  obtain a' where a': "endpoint_inject f demo_endpoint = (Inr (), a')"
    by (cases "f = []") (auto simp: endpoint_inject_def d(1))
  have "sn_state s1 = ST_HELLO_SENT" using memory.start_keeps [OF demo_inv s1(1)] by simp
  then have acc: "acceptable_ack s1 demo_ack"
    by (simp add: acceptable_ack_def s1(2) demo_config_def demo_ack_def minimum_peer_payload_def
        SUPPORTED_CAPABILITIES_def flag_values sensor_size route_prefix_size)
  have min: "min (sc_timeout_ms (sn_config s1)) (ack_heartbeat_timeout_ms demo_ack) = 300"
    by (simp add: s1(2) demo_config_def demo_ack_def)
  obtain s2 where "poll memory_ops 20 (s1\<lparr>sn_transport := (a', peer)\<rparr>) =
        (Inr [\<lparr>ev_packet = pkt, ev_payload = P_HelloAck demo_ack, ev_sequence_disposition = SD_FIRST\<rparr>], s2)"
    "sn_state s2 = ST_ACTIVE" "sn_negotiated_timeout_ms s2 = Some 300"
    using handshake_completes [OF demo_inv s1(1) _ s1(3) d p a', of 20] acc min by auto
  with s1 p a' show ?thesis by blast
qed


definition demo_stop :: typed_payload where
  "demo_stop = P_SafeStop \<lparr>ss_reason = SSR_MANUAL, ss_latch = True, ss_detail = 513\<rparr>"


text \<open>C23: a route that a session sends over the in-memory link arrives in packets that decode, in
  order, to its chunks; the chunks are as long as the negotiated payload allows, at most five points,
  their points put together are the route, the first one and only that one clears the existing
  route, the last one and only that one is final, and each says where it starts.\<close>

theorem route_transfer:
  assumes "send_route memory_ops route_id points step loop s = (Inr (), s')" "sn_tx_buffer s = []"
    and "sn_transport s = (a, Some b)" "queued b = []" "holds ps []"
  shows "\<exists>limit k pkts b' ps'. sn_negotiated_max_payload s = Some limit
    \<and> k = nat (points_per_chunk limit) \<and> 0 < k \<and> k \<le> 5 \<and> 8 + 16 * int k \<le> limit
    \<and> sn_transport s' = (a, Some b')
    \<and> feed (queued b') ps = (Inr \<lparr>pb_packets = pkts, pb_errors = []\<rparr>, ps')
    \<and> (let chunks = route_chunks route_id points loop k in
       map decode_packet_payload pkts = map (\<lambda>c. Inr (round_payload (P_RouteChunk c))) chunks
       \<and> concat (map rc_points chunks) = points
       \<and> (\<forall>i < length chunks. rc_start_index (chunks ! i) = int (i * k)
            \<and> rc_flags (chunks ! i) =
                (if i = 0 then RF_CLEAR_EXISTING else 0) + (if Suc i = length chunks then RF_FINAL_CHUNK else 0)
                + (if loop then RF_LOOP_ROUTE else 0)))"
proof -
  obtain limit k pkts fs b' where m: "sn_negotiated_max_payload s = Some limit" "k = nat (points_per_chunk limit)"
    "0 < k" "points \<noteq> []" "sn_transport s' = (a, Some b')" "queued b' = concat fs"
    "list_all2 (\<lambda>p f. encode_packet p = Inr f) pkts fs"
    "list_all2 (\<lambda>c p. \<exists>n. make_packet MT_ROUTE_CHUNK n step (P_RouteChunk c) = Inr p)
        (route_chunks route_id points loop k) pkts"
    using memory_send_route [OF assms(1-3)] assms(4) by auto
  obtain qs where q: "cut [] (concat fs) = (qs, [])" "concat (map piece_packets qs) = pkts"
    "concat (map piece_errors qs) = []"
    using cut_encoded [OF m(7)] by blast
  obtain ps' where f: "feed (queued b') ps = (Inr \<lparr>pb_packets = pkts, pb_errors = []\<rparr>, ps')"
    using feed_spec [OF assms(5) q(1)] q m(6) by (auto simp: oversize_def)
  let ?cs = "route_chunks route_id points loop k"
  have d: "map decode_packet_payload pkts = map (\<lambda>c. Inr (round_payload (P_RouteChunk c))) ?cs"
    using m(8) by (induction rule: list_all2_induct) (auto dest: decode_made_packet)
  have k: "k \<le> 5" "8 + 16 * int k \<le> limit"
    using m(2,3) by (auto simp: points_per_chunk_def route_prefix_size MAX_ROUTE_POINTS_PER_CHUNK_def)
  have c: "rc_start_index (?cs ! i) = int (i * k) \<and> rc_flags (?cs ! i) =
                (if i = 0 then RF_CLEAR_EXISTING else 0) + (if Suc i = length ?cs then RF_FINAL_CHUNK else 0)
                + (if loop then RF_LOOP_ROUTE else 0)" if "i < length ?cs" for i
  proof -
    have "i < (length points + k - 1) div k" "length ?cs = (length points + k - 1) div k"
      using that by (simp_all add: route_chunks_def py_range_def)
    with route_chunk_last [OF m(3) this(1)] m(3) show ?thesis
      by (simp add: route_chunks_def py_range_def rc_start_chunk rc_flags_chunk)
  qed
  show ?thesis
    using m(1-3,5) k f d route_chunks_points [OF m(3)] c
    by (intro exI [of _ limit] exI [of _ k] exI [of _ pkts] exI [of _ b'] exI [of _ ps']) (simp add: Let_def)
qed

definition demo_point :: route_waypoint where
  "demo_point = \<lparr>wp_x_m = 0, wp_y_m = 0, wp_target_speed_mps = 0, wp_acceptance_radius_m = 0x3FB999999999999A\<rparr>"

definition demo_active :: "memory_link host_session" where
  "demo_active = demo_session\<lparr>sn_state := ST_ACTIVE, sn_negotiated_max_payload := Some 128\<rparr>"

lemma demo_chunk: "route_chunks 1 [demo_point] False 5
    = [\<lparr>rc_route_id = 1, rc_start_index = 0, rc_total_count = 1, rc_flags = 3, rc_points = [demo_point]\<rparr>]"
  by (simp add: route_chunks_def py_range_def route_chunk_at_def Let_def flag_values)

lemma demo_chunk_ok: "payload_ok (P_RouteChunk \<lparr>rc_route_id = 1, rc_start_index = 0, rc_total_count = 1,
    rc_flags = 3, rc_points = [demo_point]\<rparr>)"
  by (simp add: route_chunk_ok_def route_head_ok_def u16_def mask_ok_def ROUTE_FLAGS_ALL_def flag_values
        point_ok_def f64_wire_def f64_mag_def flt_max_mag_def demo_point_def)

theorem route_transfer_witness:
  "\<exists>s' b' pkts ps'. send_route memory_ops 1 [demo_point] 3 False demo_active = (Inr (), s')
    \<and> sn_transport s' = (demo_endpoint, Some b')
    \<and> feed (queued b') StreamParser = (Inr \<lparr>pb_packets = pkts, pb_errors = []\<rparr>, ps') \<and> length pkts = 1"
proof -
  let ?c = "\<lparr>rc_route_id = 1, rc_start_index = 0, rc_total_count = 1, rc_flags = 3, rc_points = [demo_point]\<rparr>"
  obtain pkt f where p: "make_packet MT_ROUTE_CHUNK 0 3 (P_RouteChunk ?c) = Inr pkt" "encode_packet pkt = Inr f"
    using made_encodes [OF demo_chunk_ok, of 0 3] by auto
  have a: "sn_transport demo_active = (demo_endpoint, Some demo_endpoint)" "sn_tx_sequence demo_active = 0"
    "sn_state demo_active = ST_ACTIVE" "sn_negotiated_max_payload demo_active = Some 128"
    "sn_tx_buffer demo_active = []" "sn_config demo_active = demo_config"
    by (simp_all add: demo_active_def demo_session_def)
  have e: "ep_open demo_endpoint" "queued demo_endpoint = []" by (simp_all add: demo_endpoint_def queued_def)
  have "\<exists>s'. send memory_ops MT_ROUTE_CHUNK 3 (P_RouteChunk ?c) demo_active = (Inr (), s')"
    using memory_send_ok [OF a(1) e(1) e(1) _ p(2), of MT_ROUTE_CHUNK 3 "P_RouteChunk ?c"] p(1)
    by (simp add: a(2,4,5,6) demo_config_def)
  then obtain s' where "send memory_ops MT_ROUTE_CHUNK 3 (P_RouteChunk ?c) demo_active = (Inr (), s')"
    by blast
  moreover have pc: "points_per_chunk 128 = 5"
    by (simp add: points_per_chunk_def route_prefix_size MAX_ROUTE_POINTS_PER_CHUNK_def)
  ultimately have s': "send_route memory_ops 1 [demo_point] 3 False demo_active = (Inr (), s')"
    using demo_chunk a by (simp add: send_route_def bindM_def require_active_def route_chunks_def Let_def)
  from route_transfer [OF s' a(5) a(1) e(2), of StreamParser] obtain limit k pkts b' ps' where
    t: "Some 128 = Some limit" "k = nat (points_per_chunk limit)" "sn_transport s' = (demo_endpoint, Some b')"
    "feed (queued b') StreamParser = (Inr \<lparr>pb_packets = pkts, pb_errors = []\<rparr>, ps')"
    "map decode_packet_payload pkts = map (\<lambda>c. Inr (round_payload (P_RouteChunk c))) (route_chunks 1 [demo_point] False k)"
    by (auto simp: a(4) Let_def holds_def StreamParser_def)
  have "k = 5" using t(1,2) pc by simp
  with arg_cong [OF t(5), of length] demo_chunk have "length pkts = 1" by simp
  with s' t(3,4) show ?thesis by blast
qed



end
