(* ===== verification/Fault_Transport.thy ===== *)
theory Fault_Transport
  imports Transport
begin

text \<open>
  \<^verbatim>\<open>DeterministicFaultTransport\<close> of \<^verbatim>\<open>transport.py\<close>: step-driven faults on whole frames in
  both directions of a wrapped transport. The wrapped transport is a parameter, a record of
  operations. The lemmas account for every frame (forwarded, dropped, or still delayed), say
  what corruption does to a frame, that a healthy link is transparent, and that a delayed frame
  is not released early; the locale at the end shows that wrapping a lawful transport with a
  finite backlog gives a lawful transport again.
\<close>

section \<open>State\<close>

record link_fault_state =
  lf_packet_loss :: bool
  lf_packet_corruption :: bool
  lf_delay_steps :: int
  lf_stale_frame :: bool
  lf_disconnected :: bool

text \<open>The dataclass refuses a negative delay; \<^verbatim>\<open>healthy\<close> is its default value.\<close>

definition LinkFaultState :: "bool \<Rightarrow> bool \<Rightarrow> int \<Rightarrow> bool \<Rightarrow> bool \<Rightarrow> link_fault_state result" where
  "LinkFaultState loss corruption delay stale disconnected =
     (if delay < 0 then Inl ValueError
      else Inr \<lparr>lf_packet_loss = loss, lf_packet_corruption = corruption, lf_delay_steps = delay,
                lf_stale_frame = stale, lf_disconnected = disconnected\<rparr>)"

definition healthy :: link_fault_state where
  "healthy = \<lparr>lf_packet_loss = False, lf_packet_corruption = False, lf_delay_steps = 0,
     lf_stale_frame = False, lf_disconnected = False\<rparr>"

text \<open>The counters of one direction; the object has one record for each.\<close>

record link_fault_stats =
  fs_forwarded :: nat
  fs_dropped :: nat
  fs_corrupted :: nat
  fs_delayed :: nat
  fs_stale_replayed :: nat
  fs_disconnect_drops :: nat

definition LinkFaultStats :: link_fault_stats where
  "LinkFaultStats = \<lparr>fs_forwarded = 0, fs_dropped = 0, fs_corrupted = 0, fs_delayed = 0,
     fs_stale_replayed = 0, fs_disconnect_drops = 0\<rparr>"

record 't fault_transport =
  ft_inner :: 't
  ft_state :: link_fault_state
  ft_rx_state :: link_fault_state
  ft_tx_stats :: link_fault_stats
  ft_rx_stats :: link_fault_stats
  ft_step_id :: int
  ft_tx_input :: bytes
  ft_rx_input :: bytes
  ft_rx_ready :: bytes
  ft_tx_delayed :: "(int \<times> bytes) list"
  ft_rx_delayed :: "(int \<times> bytes) list"
  ft_tx_previous_frame :: "bytes option"
  ft_rx_previous_frame :: "bytes option"

definition DeterministicFaultTransport :: "'t \<Rightarrow> 't fault_transport" where
  "DeterministicFaultTransport inner =
     \<lparr>ft_inner = inner, ft_state = healthy, ft_rx_state = healthy,
      ft_tx_stats = LinkFaultStats, ft_rx_stats = LinkFaultStats, ft_step_id = 0,
      ft_tx_input = [], ft_rx_input = [], ft_rx_ready = [], ft_tx_delayed = [],
      ft_rx_delayed = [], ft_tx_previous_frame = None, ft_rx_previous_frame = None\<rparr>"

section \<open>Frames\<close>

text \<open>The complete frames of a buffer, delimiters included, and what follows the last one.\<close>

fun split_frames :: "bytes \<Rightarrow> bytes \<Rightarrow> bytes list \<times> bytes" where
  "split_frames current [] = ([], current)"
| "split_frames current (b # bs) =
     (if b = 0 then (let (frames, rest) = split_frames [] bs in ((current @ [b]) # frames, rest))
      else split_frames (current @ [b]) bs)"

definition take_complete_frames :: "bytes \<Rightarrow> bytes list \<times> bytes" where
  "take_complete_frames buffer = split_frames [] buffer"

definition corrupt :: "int \<Rightarrow> bytes \<Rightarrow> int \<Rightarrow> bytes" where
  "corrupt step_id frame direction_salt =
     (let index = nat (1 + (step_id * direction_salt) mod (int (length frame) - 2))
      in frame[index := frame ! index XOR 0x01])"

section \<open>Operations\<close>

text \<open>\<^verbatim>\<open>_forward_tx\<close>: every turn writes at least a byte or raises, so the loop is bounded by the
  frame's length.\<close>

function forward_loop :: "'t byte_transport_ops \<Rightarrow> bytes \<Rightarrow> nat \<Rightarrow> ('t, unit) meth" where
  "forward_loop ops frame offset t =
     (if offset < length frame then
        (case bt_write ops (drop offset frame) t of
           (Inl e, t') \<Rightarrow> (Inl e, t')
         | (Inr written, t') \<Rightarrow>
             if written \<le> 0 then (Inl TransportError, t')
             else forward_loop ops frame (offset + nat written) t')
      else (Inr (), t))"
  by pat_completeness auto
termination
  by (relation "measure (\<lambda>(ops, frame, offset, t). length frame - offset)") auto

definition forward_tx :: "'t byte_transport_ops \<Rightarrow> bytes \<Rightarrow> ('t fault_transport, unit) meth" where
  "forward_tx ops frame s =
     (case forward_loop ops frame 0 (ft_inner s) of
        (Inl e, t) \<Rightarrow> (Inl e, s\<lparr>ft_inner := t\<rparr>)
      | (Inr _, t) \<Rightarrow>
          (Inr (), s\<lparr>ft_inner := t, ft_tx_stats := (ft_tx_stats s)
             \<lparr>fs_forwarded := fs_forwarded (ft_tx_stats s) + 1\<rparr>\<rparr>))"

definition forward_rx :: "bytes \<Rightarrow> 't fault_transport \<Rightarrow> 't fault_transport" where
  "forward_rx frame s =
     s\<lparr>ft_rx_ready := ft_rx_ready s @ frame,
       ft_rx_stats := (ft_rx_stats s)\<lparr>fs_forwarded := fs_forwarded (ft_rx_stats s) + 1\<rparr>\<rparr>"

text \<open>The decision both directions share: the counters, and the frame that is to be forwarded
  now, queued for later, or neither.\<close>

datatype fate = Drop | Queue_Until int bytes | Forward bytes

definition fault_decision ::
  "link_fault_state \<Rightarrow> int \<Rightarrow> int \<Rightarrow> bytes option \<Rightarrow> bytes \<Rightarrow> link_fault_stats \<Rightarrow> fate \<times> link_fault_stats" where
  "fault_decision st step_id salt previous frame stats =
     (if lf_disconnected st then (Drop, stats\<lparr>fs_disconnect_drops := fs_disconnect_drops stats + 1\<rparr>)
      else if lf_packet_loss st then (Drop, stats\<lparr>fs_dropped := fs_dropped stats + 1\<rparr>)
      else
        let (current, stats) =
              (case previous of
                 Some p \<Rightarrow> if lf_stale_frame st
                   then (p, stats\<lparr>fs_stale_replayed := fs_stale_replayed stats + 1\<rparr>) else (frame, stats)
               | None \<Rightarrow> (frame, stats));
            (current, stats) =
              (if lf_packet_corruption st \<and> 2 < length current
               then (corrupt step_id current salt, stats\<lparr>fs_corrupted := fs_corrupted stats + 1\<rparr>)
               else (current, stats))
        in if lf_delay_steps st \<noteq> 0
           then (Queue_Until (step_id + lf_delay_steps st) current,
                 stats\<lparr>fs_delayed := fs_delayed stats + 1\<rparr>)
           else (Forward current, stats))"

definition apply_tx_fault :: "'t byte_transport_ops \<Rightarrow> bytes \<Rightarrow> ('t fault_transport, unit) meth" where
  "apply_tx_fault ops frame s =
     (case fault_decision (ft_state s) (ft_step_id s) 17 (ft_tx_previous_frame s) frame (ft_tx_stats s) of
        (fate, stats) \<Rightarrow>
          let s1 = s\<lparr>ft_tx_previous_frame := Some frame, ft_tx_stats := stats\<rparr> in
          (case fate of
             Drop \<Rightarrow> (Inr (), s1)
           | Queue_Until due f \<Rightarrow> (Inr (), s1\<lparr>ft_tx_delayed := ft_tx_delayed s1 @ [(due, f)]\<rparr>)
           | Forward f \<Rightarrow> forward_tx ops f s1))"

definition apply_rx_fault :: "bytes \<Rightarrow> 't fault_transport \<Rightarrow> 't fault_transport" where
  "apply_rx_fault frame s =
     (case fault_decision (ft_rx_state s) (ft_step_id s) 29 (ft_rx_previous_frame s) frame (ft_rx_stats s) of
        (fate, stats) \<Rightarrow>
          let s1 = s\<lparr>ft_rx_previous_frame := Some frame, ft_rx_stats := stats\<rparr> in
          (case fate of
             Drop \<Rightarrow> s1
           | Queue_Until due f \<Rightarrow> s1\<lparr>ft_rx_delayed := ft_rx_delayed s1 @ [(due, f)]\<rparr>
           | Forward f \<Rightarrow> forward_rx f s1))"

fun apply_tx_faults :: "'t byte_transport_ops \<Rightarrow> bytes list \<Rightarrow> ('t fault_transport, unit) meth" where
  "apply_tx_faults ops [] = returnM ()"
| "apply_tx_faults ops (f # fs) = bindM (apply_tx_fault ops f) (\<lambda>_. apply_tx_faults ops fs)"

text \<open>Releasing what is due, from the head of the queue; the recursion is on the queue.\<close>

fun release_tx_queue ::
  "'t byte_transport_ops \<Rightarrow> (int \<times> bytes) list \<Rightarrow> ('t fault_transport, unit) meth" where
  "release_tx_queue ops [] s = (Inr (), s\<lparr>ft_tx_delayed := []\<rparr>)"
| "release_tx_queue ops ((due, frame) # queue) s =
     (if due \<le> ft_step_id s then
        if lf_disconnected (ft_state s) then
          release_tx_queue ops queue (s\<lparr>ft_tx_delayed := queue, ft_tx_stats := (ft_tx_stats s)
            \<lparr>fs_disconnect_drops := fs_disconnect_drops (ft_tx_stats s) + 1\<rparr>\<rparr>)
        else bindM (forward_tx ops frame) (\<lambda>_. release_tx_queue ops queue) (s\<lparr>ft_tx_delayed := queue\<rparr>)
      else (Inr (), s\<lparr>ft_tx_delayed := (due, frame) # queue\<rparr>))"

definition release_due_tx :: "'t byte_transport_ops \<Rightarrow> ('t fault_transport, unit) meth" where
  "release_due_tx ops s = release_tx_queue ops (ft_tx_delayed s) s"

fun release_rx_queue :: "(int \<times> bytes) list \<Rightarrow> 't fault_transport \<Rightarrow> 't fault_transport" where
  "release_rx_queue [] s = s\<lparr>ft_rx_delayed := []\<rparr>"
| "release_rx_queue ((due, frame) # queue) s =
     (if due \<le> ft_step_id s then
        release_rx_queue queue
          (if lf_disconnected (ft_rx_state s)
           then s\<lparr>ft_rx_delayed := queue, ft_rx_stats := (ft_rx_stats s)
             \<lparr>fs_disconnect_drops := fs_disconnect_drops (ft_rx_stats s) + 1\<rparr>\<rparr>
           else forward_rx frame (s\<lparr>ft_rx_delayed := queue\<rparr>))
      else s\<lparr>ft_rx_delayed := (due, frame) # queue\<rparr>)"

definition release_due_rx :: "'t fault_transport \<Rightarrow> 't fault_transport" where
  "release_due_rx s = release_rx_queue (ft_rx_delayed s) s"

definition fault_configure ::
  "'t byte_transport_ops \<Rightarrow> int \<Rightarrow> link_fault_state \<Rightarrow> link_fault_state option \<Rightarrow>
     ('t fault_transport, unit) meth" where
  "fault_configure ops step_id st rx s =
     (if step_id < ft_step_id s then (Inl ValueError, s)
      else bindM (release_due_tx ops) (\<lambda>_. modifyM release_due_rx)
             (s\<lparr>ft_step_id := step_id, ft_state := st,
                ft_rx_state := (case rx of None \<Rightarrow> healthy | Some r \<Rightarrow> r)\<rparr>))"

definition fault_write :: "'t byte_transport_ops \<Rightarrow> bytes \<Rightarrow> ('t fault_transport, int) meth" where
  "fault_write ops data s =
     (if data = [] then (Inr 0, s)
      else
        let (frames, rest) = take_complete_frames (ft_tx_input s @ data)
        in bindM (apply_tx_faults ops frames) (\<lambda>_. returnM (int (length data)))
             (s\<lparr>ft_tx_input := rest\<rparr>))"

text \<open>The loop of \<^verbatim>\<open>read\<close> asks the inner transport until a frame is ready or nothing comes; it
  ends only if the inner transport runs dry.\<close>

partial_function (option) fault_read_loop ::
  "'t byte_transport_ops \<Rightarrow> int \<Rightarrow> 't fault_transport \<Rightarrow> (unit result \<times> 't fault_transport) option" where
  "fault_read_loop ops max_bytes s =
     (if ft_rx_ready s \<noteq> [] then Some (Inr (), s)
      else
        case bt_read ops max_bytes (ft_inner s) of
          (Inl e, t) \<Rightarrow> Some (Inl e, s\<lparr>ft_inner := t\<rparr>)
        | (Inr incoming, t) \<Rightarrow>
            if incoming = [] then Some (Inr (), s\<lparr>ft_inner := t\<rparr>)
            else
              fault_read_loop ops max_bytes
                (case take_complete_frames (ft_rx_input s @ incoming) of
                   (frames, rest) \<Rightarrow>
                     fold apply_rx_fault frames (s\<lparr>ft_inner := t, ft_rx_input := rest\<rparr>)))"

definition fault_read :: "'t byte_transport_ops \<Rightarrow> int \<Rightarrow> ('t fault_transport, bytes) meth" where
  "fault_read ops max_bytes s =
     (if max_bytes \<le> 0 then (Inl ValueError, s)
      else
        case fault_read_loop ops max_bytes (release_due_rx s) of
          None \<Rightarrow> (Inl Nontermination, s)
        | Some (Inl e, s') \<Rightarrow> (Inl e, s')
        | Some (Inr _, s') \<Rightarrow>
            (Inr (take (nat max_bytes) (ft_rx_ready s')),
             s'\<lparr>ft_rx_ready := drop (nat max_bytes) (ft_rx_ready s')\<rparr>))"

definition fault_close :: "'t byte_transport_ops \<Rightarrow> ('t fault_transport, unit) meth" where
  "fault_close ops s =
     (case bt_close ops (ft_inner s) of
        (r, t) \<Rightarrow> (r, s\<lparr>ft_tx_input := [], ft_rx_input := [], ft_rx_ready := [], ft_tx_delayed := [],
                        ft_rx_delayed := [], ft_inner := t\<rparr>))"

definition pending_delayed_frames :: "'t fault_transport \<Rightarrow> nat" where
  "pending_delayed_frames s = length (ft_tx_delayed s) + length (ft_rx_delayed s)"

definition fault_ops :: "'t byte_transport_ops \<Rightarrow> 't fault_transport byte_transport_ops" where
  "fault_ops ops = \<lparr>bt_is_open = (\<lambda>s. bt_is_open ops (ft_inner s)), bt_write = fault_write ops,
     bt_read = fault_read ops, bt_close = fault_close ops\<rparr>"

declare forward_loop.simps [simp del]

section \<open>Frames and corruption\<close>

lemma split_frames_concat:
  "split_frames current buffer = (frames, rest) \<Longrightarrow> concat frames @ rest = current @ buffer"
  by (induction current buffer arbitrary: frames rule: split_frames.induct)
    (auto split: if_splits prod.splits)

lemma split_frames_shape:
  "split_frames current buffer = (frames, rest) \<Longrightarrow> 0 \<notin> set current \<Longrightarrow>
     0 \<notin> set rest \<and> (\<forall>f \<in> set frames. \<exists>x. f = x @ [0] \<and> 0 \<notin> set x)"
  by (induction current buffer arbitrary: frames rule: split_frames.induct)
    (auto split: if_splits prod.splits)

lemma corrupt_one_byte:
  assumes "2 < length f"
  shows "\<exists>i. 1 \<le> i \<and> i < length f - 1 \<and> corrupt step_id f salt = f[i := f ! i XOR 1]"
proof -
  let ?m = "(step_id * salt) mod (int (length f) - 2)"
  have "0 \<le> ?m" "?m < int (length f) - 2" using assms by simp_all
  then have "1 \<le> nat (1 + ?m) \<and> nat (1 + ?m) < length f - 1" by linarith
  then show ?thesis unfolding corrupt_def Let_def by blast
qed

lemma xor_one_neq: "(b :: byte) XOR 1 \<noteq> b"
proof
  assume "b XOR 1 = b"
  then have "b XOR (b XOR 1) = 0" by simp
  moreover have "b XOR (b XOR 1) = 1" by (simp add: xor.assoc [symmetric])
  ultimately show False by simp
qed

lemma length_corrupt [simp]: "length (corrupt step_id f salt) = length f"
  by (simp add: corrupt_def Let_def)

section \<open>Every frame is accounted for\<close>

definition tx_total :: "'t fault_transport \<Rightarrow> nat" where
  "tx_total s = fs_forwarded (ft_tx_stats s) + fs_dropped (ft_tx_stats s)
     + fs_disconnect_drops (ft_tx_stats s) + length (ft_tx_delayed s)"

definition rx_total :: "'t fault_transport \<Rightarrow> nat" where
  "rx_total s = fs_forwarded (ft_rx_stats s) + fs_dropped (ft_rx_stats s)
     + fs_disconnect_drops (ft_rx_stats s) + length (ft_rx_delayed s)"

lemma fault_decision_counts:
  assumes "fault_decision st step_id salt prev frame stats = (fate, stats')"
  shows "fs_forwarded stats' + fs_dropped stats' + fs_disconnect_drops stats'
      = fs_forwarded stats + fs_dropped stats + fs_disconnect_drops stats + (if fate = Drop then 1 else 0)"
  using assms by (auto simp: fault_decision_def Let_def split: if_splits option.splits)

lemma forward_tx_total:
  "forward_tx ops f s = (Inr u, s') \<Longrightarrow> tx_total s' = Suc (tx_total s) \<and> rx_total s' = rx_total s
     \<and> ft_step_id s' = ft_step_id s \<and> ft_state s' = ft_state s \<and> ft_tx_delayed s' = ft_tx_delayed s"
  by (auto simp: forward_tx_def tx_total_def rx_total_def split: prod.splits sum.splits)

lemma apply_tx_fault_total:
  assumes "apply_tx_fault ops f s = (Inr u, s')"
  shows "tx_total s' = Suc (tx_total s) \<and> rx_total s' = rx_total s"
proof -
  obtain fate stats where d: "fault_decision (ft_state s) (ft_step_id s) 17 (ft_tx_previous_frame s) f (ft_tx_stats s)
      = (fate, stats)" by fastforce
  show ?thesis
    using assms fault_decision_counts [OF d] forward_tx_total
    by (cases fate) (fastforce simp: apply_tx_fault_def d tx_total_def rx_total_def)+
qed

lemma apply_tx_faults_total:
  "apply_tx_faults ops fs s = (Inr u, s') \<Longrightarrow> tx_total s' = tx_total s + length fs \<and> rx_total s' = rx_total s"
proof (induction fs arbitrary: s)
  case (Cons f fs)
  then obtain s1 where "apply_tx_fault ops f s = (Inr (), s1)" "apply_tx_faults ops fs s1 = (Inr u, s')"
    by (auto simp: bindM_eq_Inr)
  with Cons.IH [OF this(2)] apply_tx_fault_total [OF this(1)] show ?case by simp
qed simp

lemma apply_rx_fault_total:
  "rx_total (apply_rx_fault f s) = Suc (rx_total s) \<and> tx_total (apply_rx_fault f s) = tx_total s"
proof -
  obtain fate stats where d: "fault_decision (ft_rx_state s) (ft_step_id s) 29 (ft_rx_previous_frame s) f (ft_rx_stats s)
      = (fate, stats)" by fastforce
  show ?thesis
    using fault_decision_counts [OF d]
    by (cases fate) (auto simp: apply_rx_fault_def d forward_rx_def tx_total_def rx_total_def)
qed

lemma release_tx_total:
  "release_tx_queue ops queue s = (Inr u, s') \<Longrightarrow> ft_tx_delayed s = queue \<Longrightarrow>
     tx_total s' = tx_total s \<and> rx_total s' = rx_total s \<and> ft_step_id s' = ft_step_id s
     \<and> ft_tx_delayed s' = dropWhile (\<lambda>(due, _). due \<le> ft_step_id s) queue"
proof (induction queue arbitrary: s)
  case (Cons q queue)
  obtain due frame where q: "q = (due, frame)" by fastforce
  consider "\<not> due \<le> ft_step_id s" | "due \<le> ft_step_id s" "lf_disconnected (ft_state s)"
    | "due \<le> ft_step_id s" "\<not> lf_disconnected (ft_state s)" by blast
  then show ?case
  proof cases
    case 1
    then show ?thesis using Cons.prems by (auto simp: q tx_total_def rx_total_def)
  next
    case 2
    from Cons.prems Cons.IH [of "s\<lparr>ft_tx_delayed := queue, ft_tx_stats := (ft_tx_stats s)
            \<lparr>fs_disconnect_drops := fs_disconnect_drops (ft_tx_stats s) + 1\<rparr>\<rparr>"] 2
    show ?thesis by (auto simp: q tx_total_def rx_total_def)
  next
    case 3
    then obtain s1 where s1: "forward_tx ops frame (s\<lparr>ft_tx_delayed := queue\<rparr>) = (Inr (), s1)"
      "release_tx_queue ops queue s1 = (Inr u, s')"
      using Cons.prems(1) by (auto simp: q bindM_eq_Inr)
    from Cons.IH [OF s1(2)] forward_tx_total [OF s1(1)] 3 Cons.prems(2) show ?thesis
      by (auto simp: q tx_total_def rx_total_def)
  qed
qed (auto simp: tx_total_def rx_total_def)

lemma release_rx_total:
  "ft_rx_delayed s = queue \<Longrightarrow>
     rx_total (release_rx_queue queue s) = rx_total s \<and> tx_total (release_rx_queue queue s) = tx_total s
     \<and> ft_step_id (release_rx_queue queue s) = ft_step_id s
     \<and> ft_tx_delayed (release_rx_queue queue s) = ft_tx_delayed s
     \<and> ft_rx_delayed (release_rx_queue queue s) = dropWhile (\<lambda>(due, _). due \<le> ft_step_id s) queue"
proof (induction queue arbitrary: s)
  case (Cons q queue)
  obtain due frame where q: "q = (due, frame)" by fastforce
  show ?case
    using Cons.prems Cons.IH [of "s\<lparr>ft_rx_delayed := queue, ft_rx_stats := (ft_rx_stats s)
             \<lparr>fs_disconnect_drops := fs_disconnect_drops (ft_rx_stats s) + 1\<rparr>\<rparr>"]
      Cons.IH [of "forward_rx frame (s\<lparr>ft_rx_delayed := queue\<rparr>)"]
    by (auto simp: q tx_total_def rx_total_def forward_rx_def)
qed (simp add: tx_total_def rx_total_def)

section \<open>A lawful transport, wrapped, is lawful\<close>

lemma inner_simps [simp]:
  "ft_inner (release_rx_queue queue s) = ft_inner s"
  "ft_inner (apply_rx_fault f s) = ft_inner s"
  "ft_inner (fold apply_rx_fault frames s) = ft_inner s"
proof -
  show rel: "ft_inner (release_rx_queue queue s) = ft_inner s" for queue and s :: "'a fault_transport"
    by (induction queue arbitrary: s) (auto simp: forward_rx_def)
  have a: "ft_inner (apply_rx_fault f s) = ft_inner s" for f and s :: "'a fault_transport"
    by (auto simp: apply_rx_fault_def forward_rx_def Let_def split: prod.splits fate.splits)
  then show "ft_inner (apply_rx_fault f s) = ft_inner s" .
  show "ft_inner (fold apply_rx_fault frames s) = ft_inner s"
    by (induction frames arbitrary: s) (simp_all add: a)
qed

context byte_transport
begin

lemma forward_loop_law:
  "tinv t \<Longrightarrow> forward_loop ops frame offset t = (r, t') \<Longrightarrow>
     tinv t' \<and> (\<forall>e. r = Inl e \<longrightarrow> e = TransportError)"
proof (induction "length frame - offset" arbitrary: offset t rule: less_induct)
  case less
  show ?case
  proof (cases "offset < length frame")
    case True
    obtain w t1 where w: "bt_write ops (drop offset frame) t = (w, t1)" by fastforce
    have t1: "tinv t1" using write_keeps [OF less.prems(1) w] .
    show ?thesis
    proof (cases w)
      case (Inl e)
      with w write_error [OF less.prems(1)] t1 less.prems(2) True show ?thesis
        by (auto simp: forward_loop.simps [of ops frame offset t])
    next
      case (Inr n)
      show ?thesis
      proof (cases "n \<le> 0")
        case True
        with Inr w t1 less.prems(2) \<open>offset < length frame\<close> show ?thesis
          by (auto simp: forward_loop.simps [of ops frame offset t])
      next
        case False
        with Inr w less.prems(2) \<open>offset < length frame\<close>
        have "forward_loop ops frame (offset + nat n) t1 = (r, t')"
          by (simp add: forward_loop.simps [of ops frame offset t])
        moreover have "length frame - (offset + nat n) < length frame - offset"
          using False \<open>offset < length frame\<close> by simp
        ultimately show ?thesis using less.hyps [OF _ t1] by blast
      qed
    qed
  next
    case False
    with less.prems show ?thesis by (auto simp: forward_loop.simps [of ops frame offset t])
  qed
qed

definition lawful_method :: "('t fault_transport, 'x) meth \<Rightarrow> bool" where
  "lawful_method m \<longleftrightarrow> (\<forall>s r s'. tinv (ft_inner s) \<longrightarrow> m s = (r, s') \<longrightarrow>
     tinv (ft_inner s') \<and> (\<forall>e. r = Inl e \<longrightarrow> e = TransportError))"

lemma lawful_methodD:
  "lawful_method m \<Longrightarrow> m s = (r, s') \<Longrightarrow> tinv (ft_inner s) \<Longrightarrow>
     tinv (ft_inner s') \<and> (\<forall>e. r = Inl e \<longrightarrow> e = TransportError)"
  by (simp add: lawful_method_def)

lemma lawful_methodI:
  "(\<And>s r s'. tinv (ft_inner s) \<Longrightarrow> m s = (r, s') \<Longrightarrow>
     tinv (ft_inner s') \<and> (\<forall>e. r = Inl e \<longrightarrow> e = TransportError)) \<Longrightarrow> lawful_method m"
  unfolding lawful_method_def by blast

lemma lawful_bindM:
  assumes "lawful_method m" "\<And>v. lawful_method (f v)"
  shows "lawful_method (bindM m f)"
proof (rule lawful_methodI)
  fix s r s' assume inv: "tinv (ft_inner s)" and b: "bindM m f s = (r, s')"
  obtain x s1 where x: "m s = (x, s1)" by fastforce
  show "tinv (ft_inner s') \<and> (\<forall>e. r = Inl e \<longrightarrow> e = TransportError)"
  proof (cases x)
    case (Inl e)
    with lawful_methodD [OF assms(1) x inv] b x show ?thesis by (auto simp: bindM_def)
  next
    case (Inr v)
    with b x have "f v s1 = (r, s')" by (simp add: bindM_def)
    with lawful_methodD [OF assms(2) this] lawful_methodD [OF assms(1) x inv] show ?thesis by simp
  qed
qed

lemma lawful_returnM: "lawful_method (returnM v)"
  by (simp add: lawful_method_def)

lemma lawful_forward_tx: "lawful_method (forward_tx ops frame)"
proof (rule lawful_methodI)
  fix s r s' assume inv: "tinv (ft_inner s)" and f: "forward_tx ops frame s = (r, s')"
  obtain q t where q: "forward_loop ops frame 0 (ft_inner s) = (q, t)" by fastforce
  from forward_loop_law [OF inv q] f q show "tinv (ft_inner s') \<and> (\<forall>e. r = Inl e \<longrightarrow> e = TransportError)"
    by (cases q) (auto simp: forward_tx_def)
qed

lemma lawful_apply_tx_fault: "lawful_method (apply_tx_fault ops frame)"
proof (rule lawful_methodI)
  fix s r s' assume inv: "tinv (ft_inner s)" and a: "apply_tx_fault ops frame s = (r, s')"
  obtain fate stats where d: "fault_decision (ft_state s) (ft_step_id s) 17 (ft_tx_previous_frame s)
      frame (ft_tx_stats s) = (fate, stats)" by fastforce
  show "tinv (ft_inner s') \<and> (\<forall>e. r = Inl e \<longrightarrow> e = TransportError)"
  proof (cases fate)
    case (Forward f)
    with a d have "forward_tx ops f (s\<lparr>ft_tx_previous_frame := Some frame, ft_tx_stats := stats\<rparr>) = (r, s')"
      by (simp add: apply_tx_fault_def Let_def)
    from lawful_methodD [OF lawful_forward_tx this] inv show ?thesis by simp
  qed (use a d inv in \<open>auto simp: apply_tx_fault_def Let_def\<close>)
qed

lemma lawful_apply_tx_faults: "lawful_method (apply_tx_faults ops fs)"
proof (induction fs)
  case Nil
  show ?case unfolding apply_tx_faults.simps by (rule lawful_returnM)
next
  case (Cons f fs)
  show ?case unfolding apply_tx_faults.simps by (intro lawful_bindM lawful_apply_tx_fault Cons.IH)
qed

lemma fault_write_law: "lawful_method (fault_write ops d)"
proof (rule lawful_methodI)
  fix s r s' assume inv: "tinv (ft_inner s)" and w: "fault_write ops d s = (r, s')"
  obtain fs rest where fs: "take_complete_frames (ft_tx_input s @ d) = (fs, rest)" by fastforce
  have l: "lawful_method (bindM (apply_tx_faults ops fs) (\<lambda>_. returnM (int (length d))))"
    by (intro lawful_bindM lawful_apply_tx_faults lawful_returnM)
  show "tinv (ft_inner s') \<and> (\<forall>e. r = Inl e \<longrightarrow> e = TransportError)"
  proof (cases "d = []")
    case True
    with w inv show ?thesis by (auto simp: fault_write_def)
  next
    case False
    with w fs have "bindM (apply_tx_faults ops fs) (\<lambda>_. returnM (int (length d))) (s\<lparr>ft_tx_input := rest\<rparr>) = (r, s')"
      by (simp add: fault_write_def)
    from lawful_methodD [OF l this] inv show ?thesis by simp
  qed
qed

lemma fault_write_count: "fault_write ops d s = (Inr n, s') \<Longrightarrow> n = int (length d)"
  by (auto simp: fault_write_def Let_def bindM_eq_Inr split: if_splits prod.splits)

end

context finite_transport
begin

text \<open>With a finite backlog the read loop ends.\<close>

lemma fault_read_loop_law:
  "tinv (ft_inner s) \<Longrightarrow> 0 < m \<Longrightarrow>
     \<exists>r s'. fault_read_loop ops m s = Some (r, s') \<and> tinv (ft_inner s')
       \<and> (\<forall>e. r = Inl e \<longrightarrow> e = TransportError)"
proof (induction "backlog (ft_inner s)" arbitrary: s rule: less_induct)
  case less
  show ?case
  proof (cases "ft_rx_ready s = []")
    case True
    obtain r t where rd: "bt_read ops m (ft_inner s) = (r, t)" by fastforce
    have t: "tinv t" using read_keeps [OF less.prems rd] .
    show ?thesis
    proof (cases r)
      case (Inl e)
      then show ?thesis
        using True rd t read_error [OF less.prems] by (simp add: fault_read_loop.simps [of ops m s])
    next
      case (Inr incoming)
      show ?thesis
      proof (cases "incoming = []")
        case True
        then show ?thesis
          using \<open>ft_rx_ready s = []\<close> rd t Inr by (simp add: fault_read_loop.simps [of ops m s])
      next
        case False
        obtain frames rest where fr: "take_complete_frames (ft_rx_input s @ incoming) = (frames, rest)"
          by fastforce
        define s1 where "s1 = fold apply_rx_fault frames (s\<lparr>ft_inner := t, ft_rx_input := rest\<rparr>)"
        have s1: "ft_inner s1 = t" by (simp add: s1_def)
        have "backlog (ft_inner s1) < backlog (ft_inner s)"
          using read_progress [OF less.prems] rd Inr False s1 by blast
        moreover have "fault_read_loop ops m s = fault_read_loop ops m s1"
          using True rd Inr False fr by (subst fault_read_loop.simps) (simp add: s1_def)
        ultimately show ?thesis using less.hyps [of s1] less.prems(2) t s1 by simp
      qed
    qed
  next
    case False
    then show ?thesis using less.prems by (simp add: fault_read_loop.simps [of ops m s])
  qed
qed

lemma fault_read_law:
  assumes "tinv (ft_inner s)" "0 < m" "fault_read ops m s = (r, s')"
  shows "tinv (ft_inner s') \<and> (\<forall>e. r = Inl e \<longrightarrow> e = TransportError)
    \<and> (\<forall>d. r = Inr d \<longrightarrow> int (length d) \<le> m)"
proof -
  have "tinv (ft_inner (release_due_rx s))" using assms(1) by (simp add: release_due_rx_def)
  from fault_read_loop_law [OF this assms(2)] assms(2,3) show ?thesis
    by (auto simp: fault_read_def split: sum.splits)
qed

end

sublocale finite_transport \<subseteq> fault: byte_transport "fault_ops ops" "\<lambda>s. tinv (ft_inner s)"
proof
  fix s :: "'a fault_transport" and d r s' n e u and m :: int
  assume inv: "tinv (ft_inner s)"
  show "tinv (ft_inner s')" if "bt_write (fault_ops ops) d s = (r, s')"
    using fault_write_law [of d] inv that by (auto simp: fault_ops_def lawful_method_def)
  show "0 \<le> n \<and> n \<le> int (length d)" if "bt_write (fault_ops ops) d s = (Inr n, s')"
    using fault_write_count [of d s n s'] that by (simp add: fault_ops_def)
  show "e = TransportError" if "bt_write (fault_ops ops) d s = (Inl e, s')"
    using fault_write_law [of d] inv that by (auto simp: fault_ops_def lawful_method_def)
  show "tinv (ft_inner s')" if "bt_close (fault_ops ops) s = (u, s')"
    using close_keeps [OF inv] that by (auto simp: fault_ops_def fault_close_def split: prod.splits)
  assume m: "0 < m"
  show "tinv (ft_inner s')" if "bt_read (fault_ops ops) m s = (q, s')" for q
    using fault_read_law [OF inv m] that by (auto simp: fault_ops_def)
  show "int (length d) \<le> m" if "bt_read (fault_ops ops) m s = (Inr d, s')"
    using fault_read_law [OF inv m] that by (auto simp: fault_ops_def)
  show "e = TransportError" if "bt_read (fault_ops ops) m s = (Inl e, s')"
    using fault_read_law [OF inv m] that by (auto simp: fault_ops_def)
qed

context finite_transport
begin

lemma fault_lawful: "byte_transport (fault_ops ops) (\<lambda>s. tinv (ft_inner s))"
  by (rule fault.byte_transport_axioms)

end

section \<open>Over the in-memory link\<close>

definition link_ready :: "memory_link \<Rightarrow> bool" where
  "link_ready l \<longleftrightarrow> ep_open (fst l) \<and> (\<exists>p. snd l = Some p \<and> ep_open p)"

definition peer_queue :: "memory_link \<Rightarrow> bytes" where
  "peer_queue l = (case snd l of None \<Rightarrow> [] | Some p \<Rightarrow> queued p)"

lemma forward_memory:
  assumes "link_ready l"
  shows "\<exists>l'. forward_loop memory_ops frame 0 l = (Inr (), l') \<and> link_ready l'
    \<and> peer_queue l' = peer_queue l @ frame \<and> fst l' = fst l"
proof (cases "frame = []")
  case True
  then show ?thesis using assms by (simp add: forward_loop.simps)
next
  case False
  obtain a b where l: "l = (a, Some b)" "ep_open a" "ep_open b"
    using assms by (cases l) (auto simp: link_ready_def)
  have "forward_loop memory_ops frame 0 l = (Inr (), (a, Some (b\<lparr>ep_chunks := ep_chunks b @ [frame]\<rparr>)))"
    using False l
    by (subst forward_loop.simps) (simp add: memory_ops_def link_write_def, subst forward_loop.simps, simp)
  then show ?thesis using l by (simp add: link_ready_def peer_queue_def queued_def)
qed

lemma forward_tx_memory:
  assumes "link_ready (ft_inner s)"
  shows "\<exists>s'. forward_tx memory_ops f s = (Inr (), s') \<and> link_ready (ft_inner s')
    \<and> peer_queue (ft_inner s') = peer_queue (ft_inner s) @ f
    \<and> ft_state s' = ft_state s \<and> ft_tx_input s' = ft_tx_input s \<and> ft_step_id s' = ft_step_id s
    \<and> ft_tx_delayed s' = ft_tx_delayed s"
  using forward_memory [OF assms, of f] by (auto simp: forward_tx_def)

lemma healthy_decision [simp]: "fault_decision healthy step_id salt prev f stats = (Forward f, stats)"
  by (simp add: fault_decision_def healthy_def Let_def split: option.splits)

lemma apply_tx_faults_healthy:
  "link_ready (ft_inner s) \<Longrightarrow> ft_state s = healthy \<Longrightarrow>
     \<exists>s'. apply_tx_faults memory_ops fs s = (Inr (), s') \<and> link_ready (ft_inner s')
       \<and> peer_queue (ft_inner s') = peer_queue (ft_inner s) @ concat fs
       \<and> ft_state s' = healthy \<and> ft_tx_input s' = ft_tx_input s"
proof (induction fs arbitrary: s)
  case (Cons f fs)
  obtain s1 where s1: "apply_tx_fault memory_ops f s = (Inr (), s1)" "link_ready (ft_inner s1)"
    "peer_queue (ft_inner s1) = peer_queue (ft_inner s) @ f" "ft_state s1 = healthy"
    "ft_tx_input s1 = ft_tx_input s"
    using forward_tx_memory [of "s\<lparr>ft_tx_previous_frame := Some f, ft_tx_stats := ft_tx_stats s\<rparr>" f] Cons.prems
    by (auto simp: apply_tx_fault_def)
  from Cons.IH [OF s1(2,4)] s1 show ?case by (auto simp: bindM_def)
qed simp

lemma fault_write_healthy:
  assumes "link_ready (ft_inner s)" "ft_state s = healthy"
  shows "\<exists>s'. fault_write memory_ops d s = (Inr (int (length d)), s') \<and> link_ready (ft_inner s')
    \<and> ft_state s' = healthy
    \<and> peer_queue (ft_inner s') @ ft_tx_input s' = peer_queue (ft_inner s) @ ft_tx_input s @ d"
proof (cases "d = []")
  case True
  then show ?thesis using assms by (simp add: fault_write_def)
next
  case False
  obtain fs rest where fs: "take_complete_frames (ft_tx_input s @ d) = (fs, rest)" by fastforce
  then have c: "concat fs @ rest = ft_tx_input s @ d"
    using split_frames_concat by (fastforce simp: take_complete_frames_def)
  from apply_tx_faults_healthy [of "s\<lparr>ft_tx_input := rest\<rparr>" fs] assms
  obtain s' where "apply_tx_faults memory_ops fs (s\<lparr>ft_tx_input := rest\<rparr>) = (Inr (), s')"
    "link_ready (ft_inner s')" "peer_queue (ft_inner s') = peer_queue (ft_inner s) @ concat fs"
    "ft_state s' = healthy" "ft_tx_input s' = rest" by auto
  with False fs c show ?thesis by (auto simp: fault_write_def bindM_def)
qed

lemma release_tx_memory:
  "link_ready (ft_inner s) \<Longrightarrow> \<not> lf_disconnected (ft_state s) \<Longrightarrow>
     \<exists>s'. release_tx_queue memory_ops queue s = (Inr (), s') \<and> link_ready (ft_inner s')
       \<and> peer_queue (ft_inner s') = peer_queue (ft_inner s)
            @ concat (map snd (takeWhile (\<lambda>(due, _). due \<le> ft_step_id s) queue))"
proof (induction queue arbitrary: s)
  case (Cons q queue)
  obtain due frame where q: "q = (due, frame)" by fastforce
  show ?case
  proof (cases "due \<le> ft_step_id s")
    case True
    obtain s1 where s1: "forward_tx memory_ops frame (s\<lparr>ft_tx_delayed := queue\<rparr>) = (Inr (), s1)"
      "link_ready (ft_inner s1)" "peer_queue (ft_inner s1) = peer_queue (ft_inner s) @ frame"
      "ft_state s1 = ft_state s" "ft_step_id s1 = ft_step_id s"
      using forward_tx_memory [of "s\<lparr>ft_tx_delayed := queue\<rparr>" frame] Cons.prems by auto
    from Cons.IH [OF s1(2)] s1 True Cons.prems show ?thesis by (auto simp: q bindM_def)
  qed (use Cons.prems in \<open>simp add: q\<close>)
qed simp

text \<open>Reading through a healthy link: nothing is lost, added or reordered, and an empty read
  means there is no complete frame to be had.\<close>

definition rx_stream :: "memory_link fault_transport \<Rightarrow> bytes" where
  "rx_stream s = ft_rx_ready s @ ft_rx_input s @ queued (fst (ft_inner s))"

definition rx_clear :: "memory_link fault_transport \<Rightarrow> bool" where
  "rx_clear s \<longleftrightarrow> ft_rx_state s = healthy \<and> ft_rx_delayed s = [] \<and> ep_open (fst (ft_inner s))
     \<and> limit_ok (fst (ft_inner s))"

lemma apply_rx_faults_healthy:
  "ft_rx_state s = healthy \<Longrightarrow>
     ft_rx_ready (fold apply_rx_fault fs s) = ft_rx_ready s @ concat fs
     \<and> ft_rx_input (fold apply_rx_fault fs s) = ft_rx_input s
     \<and> ft_rx_state (fold apply_rx_fault fs s) = healthy
     \<and> ft_rx_delayed (fold apply_rx_fault fs s) = ft_rx_delayed s"
proof (induction fs arbitrary: s)
  case (Cons f fs)
  have "ft_rx_state (apply_rx_fault f s) = healthy" "ft_rx_ready (apply_rx_fault f s) = ft_rx_ready s @ f"
    "ft_rx_input (apply_rx_fault f s) = ft_rx_input s" "ft_rx_delayed (apply_rx_fault f s) = ft_rx_delayed s"
    using Cons.prems by (simp_all add: apply_rx_fault_def forward_rx_def)
  with Cons.IH [of "apply_rx_fault f s"] show ?case by simp
qed simp

lemma fault_read_loop_healthy:
  "rx_clear s \<Longrightarrow> 0 < m \<Longrightarrow>
     \<exists>s'. fault_read_loop memory_ops m s = Some (Inr (), s') \<and> rx_clear s' \<and> rx_stream s' = rx_stream s
       \<and> (ft_rx_ready s' = [] \<longrightarrow> queued (fst (ft_inner s')) = [])"
proof (induction "length (queued (fst (ft_inner s)))" arbitrary: s rule: less_induct)
  case less
  show ?case
  proof (cases "ft_rx_ready s = []")
    case False
    then show ?thesis using less.prems by (simp add: fault_read_loop.simps [of memory_ops m s])
  next
    case True
    let ?e = "fst (ft_inner s)"
    let ?n = "nat (case ep_read_limit ?e of None \<Rightarrow> m | Some n \<Rightarrow> min m n)"
    have n: "0 < ?n" using less.prems by (auto simp: rx_clear_def limit_ok_def split: option.splits)
    obtain e' where e': "endpoint_read m ?e = (Inr (take ?n (queued ?e)), e')"
      "queued e' = drop ?n (queued ?e)" "ep_open e'" "ep_read_limit e' = ep_read_limit ?e"
      using endpoint_read_queue [of ?e m] less.prems by (auto simp: rx_clear_def)
    have rd: "bt_read memory_ops m (ft_inner s) = (Inr (take ?n (queued ?e)), (e', snd (ft_inner s)))"
      using e'(1) by (simp add: memory_ops_def link_read_def case_prod_beta)
    show ?thesis
    proof (cases "queued ?e = []")
      case empty: True
      then have "fault_read_loop memory_ops m s = Some (Inr (), s\<lparr>ft_inner := (e', snd (ft_inner s))\<rparr>)"
        using True rd by (simp add: fault_read_loop.simps [of memory_ops m s])
      then show ?thesis
        using less.prems e' empty by (simp add: rx_clear_def rx_stream_def limit_ok_def)
    next
      case False
      obtain fs rest where fs: "take_complete_frames (ft_rx_input s @ take ?n (queued ?e)) = (fs, rest)"
        by fastforce
      then have c: "concat fs @ rest = ft_rx_input s @ take ?n (queued ?e)"
        using split_frames_concat by (fastforce simp: take_complete_frames_def)
      define s1 where "s1 = fold apply_rx_fault fs (s\<lparr>ft_inner := (e', snd (ft_inner s)), ft_rx_input := rest\<rparr>)"
      have s1: "ft_rx_ready s1 = concat fs" "ft_rx_input s1 = rest" "ft_inner s1 = (e', snd (ft_inner s))"
        "rx_clear s1"
        using apply_rx_faults_healthy [of "s\<lparr>ft_inner := (e', snd (ft_inner s)), ft_rx_input := rest\<rparr>" fs]
          True less.prems e' by (simp_all add: s1_def rx_clear_def limit_ok_def)
      have "rx_stream s1 = (concat fs @ rest) @ drop ?n (queued ?e)" using s1 e' by (simp add: rx_stream_def)
      then have "rx_stream s1 = rx_stream s" unfolding c using True by (simp add: rx_stream_def)
      moreover have "fault_read_loop memory_ops m s = fault_read_loop memory_ops m s1"
        using True rd False n fs by (subst fault_read_loop.simps) (simp add: s1_def)
      moreover have "length (queued (fst (ft_inner s1))) < length (queued ?e)"
        using s1 e' n False by simp
      ultimately show ?thesis using less.hyps [of s1] s1 less.prems by simp
    qed
  qed
qed

lemma fault_read_healthy:
  assumes "rx_clear s" "0 < m"
  shows "\<exists>d s'. fault_read memory_ops m s = (Inr d, s') \<and> rx_clear s' \<and> d @ rx_stream s' = rx_stream s
    \<and> (d = [] \<longrightarrow> queued (fst (ft_inner s')) = [] \<and> ft_rx_ready s' = [])"
proof -
  have "release_due_rx s = s" using assms by (simp add: release_due_rx_def rx_clear_def)
  with fault_read_loop_healthy [OF assms] obtain s' where s':
    "fault_read_loop memory_ops m (release_due_rx s) = Some (Inr (), s')" "rx_clear s'"
    "rx_stream s' = rx_stream s" "ft_rx_ready s' = [] \<longrightarrow> queued (fst (ft_inner s')) = []" by auto
  let ?s = "s'\<lparr>ft_rx_ready := drop (nat m) (ft_rx_ready s')\<rparr>"
  have "fault_read memory_ops m s = (Inr (take (nat m) (ft_rx_ready s')), ?s)"
    using assms(2) s'(1) by (simp add: fault_read_def)
  moreover have "rx_clear ?s" using s' by (simp add: rx_clear_def)
  moreover have "take (nat m) (ft_rx_ready s') @ rx_stream ?s = rx_stream s'"
    by (simp add: rx_stream_def append_assoc [symmetric] del: append_assoc)
  then have "take (nat m) (ft_rx_ready s') @ rx_stream ?s = rx_stream s" using s'(3) by simp
  ultimately show ?thesis using s'(4) assms(2) by (auto simp: take_eq_Nil)
qed

section \<open>Properties\<close>

definition sample_endpoint :: in_memory_endpoint where
  "sample_endpoint = \<lparr>ep_chunks = [], ep_open = True, ep_read_limit = Some 3\<rparr>"

definition sample_fault :: "memory_link fault_transport" where
  "sample_fault = DeterministicFaultTransport (sample_endpoint, Some sample_endpoint)"

text \<open>C19: every complete frame that reaches the fault layer on the write side is forwarded,
  dropped by one of the two drop faults, or waiting in the delay queue, and is counted once;
  changing the fault step moves frames between these but neither creates nor loses one.\<close>

theorem fault_frames_conserved:
  "(\<forall>n s'. fault_write ops d s = (Inr n, s') \<longrightarrow>
      tx_total s' = tx_total s + length (fst (take_complete_frames (if d = [] then [] else ft_tx_input s @ d))))
   \<and> (\<forall>s'. fault_configure ops step_id st rx s = (Inr (), s') \<longrightarrow>
      tx_total s' = tx_total s \<and> rx_total s' = rx_total s)"
proof (intro conjI allI impI)
  fix n s' assume w: "fault_write ops d s = (Inr n, s')"
  show "tx_total s' = tx_total s + length (fst (take_complete_frames (if d = [] then [] else ft_tx_input s @ d)))"
  proof (cases "d = []")
    case True
    then show ?thesis using w by (simp add: fault_write_def take_complete_frames_def)
  next
    case False
    obtain fs rest where fs: "take_complete_frames (ft_tx_input s @ d) = (fs, rest)" by fastforce
    with w False have "apply_tx_faults ops fs (s\<lparr>ft_tx_input := rest\<rparr>) = (Inr (), s')"
      by (auto simp: fault_write_def bindM_eq_Inr)
    from apply_tx_faults_total [OF this] False fs show ?thesis by (simp add: tx_total_def)
  qed
next
  fix s' assume c: "fault_configure ops step_id st rx s = (Inr (), s')"
  let ?s = "s\<lparr>ft_step_id := step_id, ft_state := st, ft_rx_state := (case rx of None \<Rightarrow> healthy | Some r \<Rightarrow> r)\<rparr>"
  from c obtain s1 where s1: "release_due_tx ops ?s = (Inr (), s1)" "s' = release_due_rx s1"
    by (auto simp: fault_configure_def bindM_eq_Inr split: if_splits)
  have "tx_total s1 = tx_total ?s \<and> rx_total s1 = rx_total ?s"
    using release_tx_total [OF s1(1) [unfolded release_due_tx_def] refl] by blast
  moreover have "tx_total s' = tx_total s1 \<and> rx_total s' = rx_total s1"
    using release_rx_total [OF refl, of s1] by (simp add: s1 release_due_rx_def)
  ultimately show "tx_total s' = tx_total s" "rx_total s' = rx_total s"
    by (simp_all add: tx_total_def rx_total_def)
qed

theorem fault_frames_conserved_witness:
  "\<exists>s'. fault_write memory_ops [1, 2, 0, 5] sample_fault = (Inr 4, s') \<and> tx_total s' = 1"
proof -
  have "link_ready (ft_inner sample_fault)" "ft_state sample_fault = healthy"
    by (simp_all add: sample_fault_def sample_endpoint_def DeterministicFaultTransport_def link_ready_def)
  from fault_write_healthy [OF this, of "[1, 2, 0, 5]"]
  obtain s' where "fault_write memory_ops [1, 2, 0, 5] sample_fault = (Inr 4, s')" by auto
  with fault_frames_conserved [of memory_ops "[1, 2, 0, 5]" sample_fault 0 healthy None] show ?thesis
    by (simp add: take_complete_frames_def sample_fault_def DeterministicFaultTransport_def tx_total_def
        LinkFaultStats_def)
qed

text \<open>The corruption fault flips the lowest bit of exactly one byte, never the first byte of
  the frame nor its delimiter, and keeps the length; the frame always changes.\<close>

theorem corruption_changes_one_byte:
  assumes "2 < length f"
  shows "length (corrupt step_id f salt) = length f
    \<and> (\<exists>i. 1 \<le> i \<and> i < length f - 1 \<and> corrupt step_id f salt ! i = f ! i XOR 1
        \<and> corrupt step_id f salt ! i \<noteq> f ! i
        \<and> (\<forall>j < length f. j \<noteq> i \<longrightarrow> corrupt step_id f salt ! j = f ! j))"
proof -
  obtain i where i: "1 \<le> i" "i < length f - 1" "corrupt step_id f salt = f[i := f ! i XOR 1]"
    using corrupt_one_byte [OF assms] by blast
  then show ?thesis using xor_one_neq by (auto intro!: exI [of _ i])
qed

theorem corruption_changes_one_byte_witness:
  "\<exists>i. i < 4 \<and> corrupt 3 [9, 8, 7, 0] 17 ! i \<noteq> [9, 8, 7, 0] ! i"
proof -
  have "2 < length [9, 8, 7, 0 :: byte]" by simp
  from corruption_changes_one_byte [OF this, of 3 17] obtain i
    where "i < length [9, 8, 7, 0 :: byte] - 1" "corrupt 3 [9, 8, 7, 0] 17 ! i \<noteq> [9, 8, 7, 0] ! i"
    by blast
  then show ?thesis by (intro exI [of _ i]) simp
qed

text \<open>C20: with no fault configured the layer is transparent to writes and to reads over the
  in-memory link: what the peer has received followed by the incomplete frame held back is what
  was written, and what the reader gets followed by what is buffered is what was sent, whatever
  the sizes of the reads; an empty read means nothing complete is left.\<close>

theorem healthy_link_transparent:
  assumes "link_ready (ft_inner s)" "ft_state s = healthy" "rx_clear s" "0 < m"
  shows "(\<exists>s'. fault_write memory_ops d s = (Inr (int (length d)), s') \<and> ft_state s' = healthy
      \<and> peer_queue (ft_inner s') @ ft_tx_input s' = peer_queue (ft_inner s) @ ft_tx_input s @ d)
    \<and> (\<exists>r s'. fault_read memory_ops m s = (Inr r, s') \<and> rx_clear s' \<and> r @ rx_stream s' = rx_stream s
      \<and> (r = [] \<longrightarrow> queued (fst (ft_inner s')) = [] \<and> ft_rx_ready s' = []))"
  using fault_write_healthy [OF assms(1,2)] fault_read_healthy [OF assms(3,4)] by blast

theorem healthy_link_transparent_witness:
  "\<exists>s'. fault_write memory_ops [1, 2, 0, 5] sample_fault = (Inr 4, s')
     \<and> peer_queue (ft_inner s') @ ft_tx_input s' = [1, 2, 0, 5]"
proof -
  have "link_ready (ft_inner sample_fault)" "ft_state sample_fault = healthy" "rx_clear sample_fault"
    by (simp_all add: sample_fault_def sample_endpoint_def DeterministicFaultTransport_def link_ready_def
        rx_clear_def limit_ok_def)
  from healthy_link_transparent [OF this, of 512 "[1, 2, 0, 5]"] show ?thesis
    by (auto simp: sample_fault_def sample_endpoint_def DeterministicFaultTransport_def peer_queue_def
        queued_def)
qed

text \<open>a delayed frame leaves the queue only when the step has reached its release step:
  moving to a step forwards exactly the due frames at the head of the queue, in order, and
  keeps the rest.\<close>

theorem delayed_frames_released_when_due:
  assumes "link_ready (ft_inner s)" "\<not> lf_disconnected st" "ft_step_id s \<le> step_id"
  shows "\<exists>s'. fault_configure memory_ops step_id st rx s = (Inr (), s')
    \<and> peer_queue (ft_inner s') = peer_queue (ft_inner s)
        @ concat (map snd (takeWhile (\<lambda>(due, _). due \<le> step_id) (ft_tx_delayed s)))
    \<and> ft_tx_delayed s' = dropWhile (\<lambda>(due, _). due \<le> step_id) (ft_tx_delayed s)"
proof -
  let ?s = "s\<lparr>ft_step_id := step_id, ft_state := st, ft_rx_state := (case rx of None \<Rightarrow> healthy | Some r \<Rightarrow> r)\<rparr>"
  obtain s1 where s1: "release_tx_queue memory_ops (ft_tx_delayed s) ?s = (Inr (), s1)"
    "peer_queue (ft_inner s1) = peer_queue (ft_inner s)
        @ concat (map snd (takeWhile (\<lambda>(due, _). due \<le> step_id) (ft_tx_delayed s)))"
    using release_tx_memory [of ?s "ft_tx_delayed s"] assms by auto
  have "ft_tx_delayed s1 = dropWhile (\<lambda>(due, _). due \<le> step_id) (ft_tx_delayed s)"
    using release_tx_total [OF s1(1)] by simp
  moreover have "ft_tx_delayed (release_due_rx s1) = ft_tx_delayed s1"
    using release_rx_total [OF refl, of s1] by (simp add: release_due_rx_def)
  ultimately show ?thesis
    using s1 assms(3) by (simp add: fault_configure_def release_due_tx_def bindM_def release_due_rx_def)
qed

theorem delayed_frames_released_when_due_witness:
  "\<exists>s'. fault_configure memory_ops 5 healthy None
      (sample_fault\<lparr>ft_tx_delayed := [(4, [1, 0]), (5, [2, 0]), (7, [3, 0])]\<rparr>) = (Inr (), s')
    \<and> peer_queue (ft_inner s') = [1, 0, 2, 0] \<and> ft_tx_delayed s' = [(7, [3, 0])]"
proof -
  let ?s = "sample_fault\<lparr>ft_tx_delayed := [(4, [1, 0]), (5, [2, 0]), (7, [3, 0])]\<rparr>"
  have "link_ready (ft_inner ?s)" "\<not> lf_disconnected healthy" "ft_step_id ?s \<le> 5"
    by (simp_all add: sample_fault_def sample_endpoint_def DeterministicFaultTransport_def link_ready_def
        healthy_def)
  from delayed_frames_released_when_due [OF this] show ?thesis
    by (simp add: sample_fault_def sample_endpoint_def DeterministicFaultTransport_def peer_queue_def
        queued_def)
qed

text \<open>C16: wrapping a lawful transport whose backlog is finite in the fault layer gives a lawful
  transport: write counts within the data, reads within the size asked for, transport errors
  only, and a read that ends.\<close>

theorem fault_transport_lawful:
  assumes "finite_transport ops tinv backlog"
  shows "byte_transport (fault_ops ops) (\<lambda>s. tinv (ft_inner s))"
  using finite_transport.fault_lawful [OF assms] .

theorem fault_transport_lawful_witness:
  "byte_transport (fault_ops memory_ops) (\<lambda>s. memory_inv (ft_inner s))"
  by (rule fault_transport_lawful [OF memory.finite_transport_axioms])

end
