(* ===== verification/PyFloat_Arith.thy ===== *)
theory PyFloat_Arith
  imports PyFloat
begin

text \<open>
  Arithmetic on Python floats: sums, differences and products of binary64 patterns, rounded to
  nearest even as IEEE 754 prescribes (an overflow gives an infinity, Python raises nothing), the
  truncation \<^verbatim>\<open>int(x)\<close>, and the comparison of a float with an int. A finite pattern is read as an
  integer number of units of \<^verbatim>\<open>2^-1074\<close>, the least positive float. All definitions compute.
\<close>

section \<open>Values in units of the least float\<close>

definition f64_units_mag :: "nat \<Rightarrow> nat" where
  "f64_units_mag m =
     (let e = m div 2 ^ 52; f = m mod 2 ^ 52 in if e = 0 then f else (2 ^ 52 + f) * 2 ^ (e - 1))"

definition f64_units :: "f64 \<Rightarrow> int" where
  "f64_units x = (if f64_neg x then - 1 else 1) * int (f64_units_mag (f64_mag x))"

text \<open>
  The pattern nearest to \<open>n\<close> units of \<^verbatim>\<open>2^-(1074+k)\<close>: all but 53 bits are rounded away, and at
  least \<open>k\<close>. A carry out of the fraction moves to the next exponent.
\<close>

definition f64_round_mag :: "nat \<Rightarrow> nat \<Rightarrow> nat" where
  "f64_round_mag n k =
     (let lost = max k (bit_len n - 53)
      in min f64_inf_mag ((lost - k) * 2 ^ 52 + round_half_even n lost))"

definition f64_round :: "bool \<Rightarrow> nat \<Rightarrow> nat \<Rightarrow> f64" where
  "f64_round negative n k = f64_of negative (f64_round_mag n k)"

definition f64_nan :: f64 where
  "f64_nan = f64_of False (f64_inf_mag + 2 ^ 51)"

section \<open>Operations\<close>

text \<open>The sum of two opposite values is a positive zero, the sum of two negative zeros a negative one.\<close>

definition fadd :: "f64 \<Rightarrow> f64 \<Rightarrow> f64" where
  "fadd x y =
     (if isnan x \<or> isnan y then f64_nan
      else if \<not> isfinite x then (if \<not> isfinite y \<and> f64_neg x \<noteq> f64_neg y then f64_nan else x)
      else if \<not> isfinite y then y
      else
        let s = f64_units x + f64_units y
        in if s = 0 then f64_of (f64_neg x \<and> f64_neg y) 0
           else f64_round (s < 0) (nat \<bar>s\<bar>) 0)"

definition fsub :: "f64 \<Rightarrow> f64 \<Rightarrow> f64" where
  "fsub x y = fadd x (fneg y)"

definition fmul :: "f64 \<Rightarrow> f64 \<Rightarrow> f64" where
  "fmul x y =
     (let negative = (f64_neg x \<noteq> f64_neg y)
      in if isnan x \<or> isnan y then f64_nan
         else if \<not> isfinite x \<or> \<not> isfinite y then
           (if f64_mag x = 0 \<or> f64_mag y = 0 then f64_nan else f64_of negative f64_inf_mag)
         else f64_round negative (f64_units_mag (f64_mag x) * f64_units_mag (f64_mag y)) 1074)"

text \<open>
  The quotient \<^verbatim>\<open>x / n\<close> by a positive int that is a float (\<^verbatim>\<open>len\<close> of a list): the integer quotient to
  far more than 53 bits, with one more bit that says whether anything was left over.
\<close>

definition fdiv_nat :: "f64 \<Rightarrow> nat \<Rightarrow> f64" where
  "fdiv_nat x n =
     (if isnan x \<or> \<not> isfinite x then x
      else
        let a = f64_units_mag (f64_mag x) * 2 ^ 128
        in if a = 0 then x
           else f64_round (f64_neg x) (2 * (a div n) + (if a mod n = 0 then 0 else 1)) 129)"

text \<open>\<^verbatim>\<open>math.fsum\<close> of finite floats: the exact sum, rounded once; a sum beyond the largest float raises.\<close>

definition fsum :: "f64 list \<Rightarrow> f64 result" where
  "fsum xs =
     (let s = sum_list (map f64_units xs); r = f64_round (s < 0) (nat \<bar>s\<bar>) 0
      in if isfinite r then Inr r else Inl OverflowError)"

text \<open>\<^verbatim>\<open>int(x)\<close> drops the fraction.\<close>

definition int_of_float :: "f64 \<Rightarrow> int result" where
  "int_of_float x =
     (if isnan x then Inl ValueError
      else if \<not> isfinite x then Inl OverflowError
      else Inr ((if f64_neg x then - 1 else 1) * int (f64_units_mag (f64_mag x) div 2 ^ 1074)))"

text \<open>Python compares a float with an int exactly.\<close>

definition flt_int :: "f64 \<Rightarrow> int \<Rightarrow> bool" where
  "flt_int x n \<longleftrightarrow> (if isfinite x then f64_units x < n * 2 ^ 1074 else \<not> isnan x \<and> f64_neg x)"

definition fgt_int :: "f64 \<Rightarrow> int \<Rightarrow> bool" where
  "fgt_int x n \<longleftrightarrow> (if isfinite x then n * 2 ^ 1074 < f64_units x else \<not> isnan x \<and> \<not> f64_neg x)"

section \<open>Rounding\<close>

lemma round_half_even_bound: "n < 2 ^ (d + 53) \<Longrightarrow> round_half_even n d \<le> 2 ^ 53"
proof -
  assume "n < 2 ^ (d + 53)"
  then have "n div 2 ^ d < 2 ^ 53" by (simp add: less_mult_imp_div_less power_add mult.commute)
  then show ?thesis using round_half_even_le [of n d] by linarith
qed

lemma bit_len_mono: "m \<le> n \<Longrightarrow> bit_len m \<le> bit_len n"
proof (cases "m = 0")
  case True
  then show ?thesis by (simp add: bit_len.simps [of 0])
next
  case False
  assume "m \<le> n"
  with False bit_len_bounds [of n] have "m < 2 ^ bit_len n" by simp
  with False show ?thesis by (intro bit_len_less) auto
qed

lemma bit_len_unique: "2 ^ k \<le> n \<Longrightarrow> n < 2 ^ Suc k \<Longrightarrow> bit_len n = Suc k"
proof -
  assume n: "2 ^ k \<le> n" "n < 2 ^ Suc k"
  then have pos: "0 < n" by (metis gr0I not_le zero_less_numeral zero_less_power)
  then have "bit_len n \<le> Suc k" using n(2) by (rule bit_len_less)
  moreover have "k < bit_len n"
    using n(1) bit_len_bounds [OF pos] by (metis le_less_trans nat_power_less_imp_less zero_less_numeral)
  ultimately show ?thesis by simp
qed

lemma f64_units_mag_normal:
  assumes "m = e * 2 ^ 52 + f" "0 < e" "f < 2 ^ 52" "c = 2 ^ 52 + f" "k = e - 1"
  shows "f64_units_mag m = c * 2 ^ k"
proof -
  have "m div 2 ^ 52 = e" "m mod 2 ^ 52 = f" using assms(1,3) by simp_all
  then show ?thesis using assms(2,4,5) unfolding f64_units_mag_def Let_def by simp
qed

text \<open>A value that is exact in 53 bits is its own rounding.\<close>

lemma f64_round_units:
  assumes "m < f64_inf_mag"
  shows "f64_round_mag (f64_units_mag m) 0 = m"
proof -
  define e f where "e = m div 2 ^ 52" and "f = m mod 2 ^ 52"
  have m: "m = e * 2 ^ 52 + f" "f < 2 ^ 52" by (simp_all add: e_def f_def)
  show ?thesis
  proof (cases "e = 0")
    case True
    then have u: "f64_units_mag m = f" unfolding f64_units_mag_def e_def f_def by (simp add: Let_def)
    have "bit_len f \<le> 52" using m(2) by (cases "f = 0") (auto simp: bit_len.simps [of 0] intro: bit_len_less)
    then have "f64_round_mag f 0 = min f64_inf_mag f"
      by (simp add: f64_round_mag_def round_half_even_def)
    with True m(1) assms u show ?thesis by simp
  next
    case False
    then have u: "f64_units_mag m = (2 ^ 52 + f) * 2 ^ (e - 1)"
      unfolding f64_units_mag_def e_def f_def by (simp add: Let_def)
    have "(2 :: nat) ^ (52 + (e - 1)) \<le> (2 ^ 52 + f) * 2 ^ (e - 1)" by (simp add: power_add)
    moreover have "(2 ^ 52 + f) * 2 ^ (e - 1) < (2 ^ 53 :: nat) * 2 ^ (e - 1)" using m(2) by simp
    then have "(2 ^ 52 + f) * 2 ^ (e - 1) < (2 :: nat) ^ (53 + (e - 1))" by (simp add: power_add)
    ultimately have "bit_len ((2 ^ 52 + f) * 2 ^ (e - 1)) = Suc (52 + (e - 1))"
      by (intro bit_len_unique) simp_all
    then have "f64_round_mag (f64_units_mag m) 0 = min f64_inf_mag ((e - 1) * 2 ^ 52 + (2 ^ 52 + f))"
      by (simp add: f64_round_mag_def u round_half_even_exact Let_def)
    also have "(e - 1) * 2 ^ 52 + (2 ^ 52 + f) = m" using False m(1) by (simp add: algebra_simps)
    finally show ?thesis using assms by simp
  qed
qed

text \<open>Rounding is monotone, and unbounded values round to an infinity.\<close>

lemma f64_round_mag_mono: "n \<le> n' \<Longrightarrow> f64_round_mag n k \<le> f64_round_mag n' k"
proof -
  assume n: "n \<le> n'"
  define l l' where "l = max k (bit_len n - 53)" and "l' = max k (bit_len n' - 53)"
  have ll: "l \<le> l'" "k \<le> l" using bit_len_mono [OF n] by (auto simp: l_def l'_def)
  have "(l - k) * 2 ^ 52 + round_half_even n l \<le> (l' - k) * 2 ^ 52 + round_half_even n' l'"
  proof (cases "l = l'")
    case True
    with n round_half_even_mono show ?thesis by simp
  next
    case False
    then have big: "l' = bit_len n' - 53" "53 < bit_len n'" "0 < n'"
      using ll by (auto simp: l'_def l_def max_def intro: gr0I simp: bit_len.simps [of 0] split: if_splits)
    have "n < 2 ^ (l + 53)"
    proof (cases "n = 0")
      case False
      then have "n < 2 ^ bit_len n" using bit_len_bounds by simp
      also have "\<dots> \<le> 2 ^ (l + 53)" by (rule power_increasing) (simp_all add: l_def)
      finally show ?thesis .
    qed simp
    then have lo: "round_half_even n l \<le> 2 ^ 53" by (rule round_half_even_bound)
    have "2 ^ (52 + l') \<le> n'" using bit_len_bounds [OF big(3)] big(1,2) by simp
    then have "2 ^ 52 \<le> n' div 2 ^ l'" by (simp add: less_eq_div_iff_mult_less_eq power_add)
    then have hi: "2 ^ 52 \<le> round_half_even n' l'" using round_half_even_ge le_trans by blast
    have "(l - k + 1) * 2 ^ 52 \<le> (l' - k) * (2 :: nat) ^ 52" using False ll by (intro mult_le_mono1) simp
    with lo hi show ?thesis by simp
  qed
  then show ?thesis unfolding f64_round_mag_def l_def l'_def by (simp add: Let_def min_def)
qed

lemma f64_units_mag_mono: "m \<le> m' \<Longrightarrow> f64_units_mag m \<le> f64_units_mag m'"
proof -
  assume m: "m \<le> m'"
  define e f e' f' where d: "e = m div 2 ^ 52" "f = m mod 2 ^ 52" "e' = m' div 2 ^ 52" "f' = m' mod 2 ^ 52"
  have v: "m = e * 2 ^ 52 + f" "m' = e' * 2 ^ 52 + f'" "f < 2 ^ 52" by (simp_all add: d)
  have e: "e \<le> e'" unfolding d using m by (rule div_le_mono)
  have u: "f64_units_mag m = (if e = 0 then f else (2 ^ 52 + f) * 2 ^ (e - 1))"
    "f64_units_mag m' = (if e' = 0 then f' else (2 ^ 52 + f') * 2 ^ (e' - 1))"
    unfolding f64_units_mag_def Let_def d by simp_all
  show ?thesis
  proof (cases "e = e'")
    case True
    with m v have "f \<le> f'" by simp
    with True show ?thesis unfolding u by simp
  next
    case False
    with e have less: "e \<le> e' - 1" "e' \<noteq> 0" by simp_all
    have "f64_units_mag m \<le> 2 ^ 52 * 2 ^ e"
    proof (cases "e = 0")
      case False
      then have "2 ^ 52 * (2 :: nat) ^ e = 2 ^ 53 * 2 ^ (e - 1)" by (cases e) simp_all
      with False v(3) show ?thesis unfolding u by simp
    qed (use v(3) in \<open>simp add: u\<close>)
    also have "\<dots> \<le> 2 ^ 52 * 2 ^ (e' - 1)" using less(1) by simp
    also have "\<dots> \<le> f64_units_mag m'" using less(2) unfolding u by simp
    finally show ?thesis .
  qed
qed

lemma f64_round_mag_top: "2 ^ 2100 \<le> n \<Longrightarrow> f64_round_mag n 0 = f64_inf_mag"
proof -
  assume n: "2 ^ 2100 \<le> n"
  then have "0 < n" by (metis gr0I not_le zero_less_numeral zero_less_power)
  then have "2100 < bit_len n"
    using n bit_len_bounds by (metis le_less_trans nat_power_less_imp_less zero_less_numeral)
  then have "2047 * 2 ^ 52 \<le> (bit_len n - 53) * (2 :: nat) ^ 52" by (intro mult_le_mono1) simp
  then show ?thesis by (simp add: f64_round_mag_def f64_inf_mag_def Let_def min_def)
qed

lemma f64_round_key: "f64_key (f64_round False n k) = int (f64_round_mag n k)"
proof -
  have "f64_round_mag n k < 2 ^ 63" by (simp add: f64_round_mag_def f64_inf_mag_def Let_def min_def)
  then show ?thesis by (simp add: f64_key_def f64_round_def)
qed

lemma f64_round_not_nan: "\<not> isnan (f64_round s n k)"
proof -
  have m: "f64_round_mag n k \<le> f64_inf_mag" by (simp add: f64_round_mag_def Let_def)
  then have "f64_round_mag n k < 2 ^ 63" by (simp add: f64_inf_mag_def)
  with m show ?thesis by (simp add: isnan_def f64_round_def)
qed

text \<open>Trailing zeros do not matter to rounding; with this products of constants are computed by hand.\<close>

lemma bit_len_shift: "0 < n \<Longrightarrow> bit_len (n * 2 ^ k) = bit_len n + k"
proof -
  assume n: "0 < n"
  then obtain l where l: "bit_len n = Suc l" by (cases "bit_len n") (auto simp: bit_len.simps [of n])
  with bit_len_bounds [OF n] have "2 ^ (l + k) \<le> n * 2 ^ k" "n * 2 ^ k < 2 ^ Suc (l + k)"
    by (simp_all add: power_add)
  then show ?thesis using l bit_len_unique by fastforce
qed

lemma round_half_even_scale: "round_half_even (n * 2 ^ k) (d + k) = round_half_even n d"
proof (induction k)
  case (Suc k)
  have "round_half_even (n * 2 ^ Suc k) (d + Suc k) = round_half_even (2 * (n * 2 ^ k)) (Suc (d + k))"
    by (simp add: mult.left_commute)
  also have "\<dots> = round_half_even (n * 2 ^ k) (d + k)" by (rule round_half_even_double)
  finally show ?case using Suc by simp
qed simp

lemma f64_round_mag_scale:
  assumes "0 < n" "j \<le> d + k" "bit_len n = d + 53"
  shows "f64_round_mag (n * 2 ^ k) j = min f64_inf_mag ((d + k - j) * 2 ^ 52 + round_half_even n d)"
  using assms by (simp add: f64_round_mag_def bit_len_shift round_half_even_scale Let_def max_def)

lemma fmul_normal:
  assumes "f64_units_mag (f64_mag x) = a * 2 ^ k" "f64_units_mag (f64_mag y) = b * 2 ^ l"
    "isfinite x" "isfinite y" "n = a * b" "0 < n" "bit_len n = d + 53" "1074 \<le> d + k + l"
  shows "fmul x y = f64_of (f64_neg x \<noteq> f64_neg y)
    (min f64_inf_mag ((d + k + l - 1074) * 2 ^ 52 + round_half_even n d))"
proof -
  have "f64_units_mag (f64_mag x) * f64_units_mag (f64_mag y) = n * 2 ^ (k + l)"
    unfolding assms(1,2,5) by (simp add: power_add ac_simps)
  moreover have "f64_round_mag (n * 2 ^ (k + l)) 1074 = min f64_inf_mag ((d + k + l - 1074) * 2 ^ 52 + round_half_even n d)"
    using f64_round_mag_scale [OF assms(6) _ assms(7), of 1074 "k + l"] assms(8) by (simp add: add.assoc)
  ultimately show ?thesis
    using assms(3,4) isfinite_not_nan unfolding fmul_def f64_round_def Let_def by simp
qed

lemma int_of_float_normal:
  assumes "f64_units_mag (f64_mag x) = c * 2 ^ k" "isfinite x" "\<not> f64_neg x" "k + j = 1074"
  shows "int_of_float x = Inr (int (c div 2 ^ j))"
proof -
  have "c * 2 ^ k div 2 ^ (k + j) = c div 2 ^ j"
    unfolding power_add by (metis div_mult_mult1 mult.commute power_not_zero zero_neq_numeral)
  then show ?thesis
    using assms isfinite_not_nan unfolding int_of_float_def assms(4) [symmetric] by simp
qed

text \<open>Seconds to whole milliseconds: \<^verbatim>\<open>int(x * 1000.0)\<close> of at least half a second is at least 500.\<close>

lemma half_second_in_ms:
  assumes "fle 0x3FE0000000000000 x" "int_of_float (fmul x 0x408F400000000000) = Inr n"
  shows "500 \<le> n"
proof -
  have "f64_key 0x3FE0000000000000 = 0x3FE0000000000000"
    by (simp add: f64_key_def f64_neg_def f64_mag_def)
  then have key: "\<not> isnan x" "0x3FE0000000000000 \<le> f64_key x" using assms(1) by (simp_all add: fle_def)
  then have x: "\<not> isnan x" "\<not> f64_neg x" "0x3FE0000000000000 \<le> f64_mag x"
    by (simp_all add: f64_key_def split: if_splits)
  have u: "f64_units_mag (f64_mag 0x408F400000000000) = 8796093022208000 * 2 ^ 1031"
    by (rule f64_units_mag_normal [where e = 1032 and f = 4292493394837504]) (simp_all add: f64_mag_def)
  have h: "f64_units_mag 0x3FE0000000000000 = 4503599627370496 * 2 ^ 1021"
    by (rule f64_units_mag_normal [where e = 1022 and f = 0]) simp_all
  have k: "isfinite 0x408F400000000000" "\<not> f64_neg 0x408F400000000000" "f64_mag 0x408F400000000000 \<noteq> 0"
    by (simp_all add: isfinite_def f64_neg_def f64_mag_def f64_inf_mag_def)
  have fin: "isfinite x" "isfinite (fmul x 0x408F400000000000)"
    using assms(2) x k isfinite_not_nan
    by (auto simp: int_of_float_def fmul_def f64_round_not_nan isfinite_def f64_inf_mag_def Let_def split: if_splits)
  define r where "r = f64_round_mag (f64_units_mag (f64_mag x) * f64_units_mag (f64_mag 0x408F400000000000)) 1074"
  have m: "fmul x 0x408F400000000000 = f64_of False r"
    using fin(1) k x isfinite_not_nan by (simp add: fmul_def f64_round_def r_def Let_def)
  have "f64_round_mag ((4503599627370496 * 2 ^ 1021) * (8796093022208000 * 2 ^ 1031)) 1074 \<le> r"
    unfolding r_def u h [symmetric] by (intro f64_round_mag_mono mult_le_mono1 f64_units_mag_mono x(3))
  moreover have "(4503599627370496 * 2 ^ 1021) * (8796093022208000 * 2 ^ 1031) = (39614081257132168796771975168000 :: nat) * 2 ^ 2052"
    by (simp add: power_add)
  moreover have b: "bit_len 39614081257132168796771975168000 = 52 + 53"
    using bit_len_unique [of 104 39614081257132168796771975168000] by simp
  then have "f64_round_mag (39614081257132168796771975168000 * 2 ^ 2052) 1074 = 0x407F400000000000"
    using f64_round_mag_scale [OF _ _ b, of 1074 2052] by (simp add: f64_inf_mag_def round_half_even_def)
  ultimately have r: "0x407F400000000000 \<le> r" by simp
  have "r < 2 ^ 63" by (simp add: r_def f64_round_mag_def f64_inf_mag_def Let_def min_def)
  then have f: "f64_mag (f64_of False r) = r" "\<not> f64_neg (f64_of False r)" by simp_all
  have "f64_units_mag 0x407F400000000000 = 500 * 2 ^ 1074"
    using f64_units_mag_normal [where m = "0x407F400000000000" and e = 1031 and f = 4292493394837504 and k = 1030]
    by (simp add: power_add [of 2 44 1030, simplified])
  then have "500 * 2 ^ 1074 \<le> f64_units_mag r" using f64_units_mag_mono [OF r] by simp
  then have "500 \<le> f64_units_mag r div 2 ^ 1074" by (simp add: less_eq_div_iff_mult_less_eq)
  moreover have "n = int (f64_units_mag r div 2 ^ 1074)"
    using assms(2) fin(2) f isfinite_not_nan by (simp add: int_of_float_def m)
  ultimately show ?thesis by simp
qed

end
