(* ===== verification/Py_Value.thy ===== *)
theory Py_Value
  imports PyFloat_Arith "HOL-Library.AList" "HOL-Library.Char_ord" "HOL-Library.List_Lexorder"
begin

text \<open>
  Dynamically typed Python values, as the reports, summaries and JSON files of the host hold them:
  a dict has string keys and keeps the order of insertion, so it is an association list without
  duplicate keys. \<^verbatim>\<open>V_Other\<close> is any other object, such as a dict with a key that is not a
  string. Formatting of integers for f-strings, \<^verbatim>\<open>sorted(set(...))\<close> of strings, and the
  dict operations the host uses.
\<close>

datatype pyval =
    V_None
  | V_Bool bool
  | V_Int int
  | V_Float f64
  | V_Str string
  | V_List "pyval list"
  | V_Dict "(string \<times> pyval) list"
  | V_Other

type_synonym pydict = "(string \<times> pyval) list"

section \<open>Dicts\<close>

definition dict_get :: "string \<Rightarrow> pydict \<Rightarrow> pyval option" where
  "dict_get k d = map_of d k"

definition dict_set :: "string \<Rightarrow> pyval \<Rightarrow> pydict \<Rightarrow> pydict" where
  "dict_set k v d = AList.update k v d"

text \<open>\<^verbatim>\<open>{**a, **b}\<close> and \<^verbatim>\<open>a.update(b)\<close>.\<close>

definition dict_update :: "pydict \<Rightarrow> pydict \<Rightarrow> pydict" where
  "dict_update a b = fold (\<lambda>(k, v). dict_set k v) b a"

lemma dict_get_set [simp]: "dict_get k (dict_set k' v d) = (if k = k' then Some v else dict_get k d)"
  by (simp add: dict_get_def dict_set_def update_conv')

lemma distinct_dict_set: "distinct (map fst d) \<Longrightarrow> distinct (map fst (dict_set k v d))"
  unfolding dict_set_def by (rule distinct_update)

lemma dict_get_Nil [simp]: "dict_get k [] = None"
  and dict_get_Cons [simp]: "dict_get k ((k', v) # d) = (if k = k' then Some v else dict_get k d)"
  by (simp_all add: dict_get_def)

lemma dict_get_append [simp]:
  "dict_get k (d @ e) = (case dict_get k d of Some v \<Rightarrow> Some v | None \<Rightarrow> dict_get k e)"
  by (simp add: dict_get_def map_add_def split: option.split)

lemma dict_get_update:
  "dict_get k (dict_update a b) = (case dict_get k (rev b) of Some v \<Rightarrow> Some v | None \<Rightarrow> dict_get k a)"
proof (induction b arbitrary: a)
  case (Cons x b)
  obtain k' v where x: "x = (k', v)" by fastforce
  show ?case
    using Cons.IH [of "dict_set k' v a"] by (simp add: x dict_update_def split: option.splits)
qed (simp add: dict_update_def)

lemma distinct_dict_update: "distinct (map fst a) \<Longrightarrow> distinct (map fst (dict_update a b))"
proof (induction b arbitrary: a)
  case (Cons p b)
  then show ?case using distinct_dict_set [of a] by (simp add: dict_update_def case_prod_beta)
qed (simp add: dict_update_def)

section \<open>Numbers as text\<close>

fun show_nat :: "nat \<Rightarrow> string" where
  "show_nat n =
     (if n < 10 then [char_of (48 + n)] else show_nat (n div 10) @ [char_of (48 + n mod 10)])"

declare show_nat.simps [simp del]

definition show_int :: "int \<Rightarrow> string" where
  "show_int n = (if n < 0 then CHR ''-'' # show_nat (nat (- n)) else show_nat (nat n))"

text \<open>\<^verbatim>\<open>text.encode("ascii")\<close>\<close>

definition ascii :: "string \<Rightarrow> bytes" where
  "ascii s = map (\<lambda>c. of_nat (of_char c)) s"

text \<open>The value of a string of digits; it undoes the formatting.\<close>

definition nat_of_digits :: "string \<Rightarrow> nat" where
  "nat_of_digits s = foldl (\<lambda>n c. 10 * n + (of_char c - 48)) 0 s"

lemma nat_of_digits_show: "nat_of_digits (show_nat n) = n"
proof (induction n rule: show_nat.induct)
  case (1 n)
  show ?case
  proof (cases "n < 10")
    case True
    then show ?thesis by (simp add: show_nat.simps [of n] nat_of_digits_def)
  next
    case False
    with 1 show ?thesis by (simp add: show_nat.simps [of n] nat_of_digits_def)
  qed
qed

lemma show_nat_inj: "show_nat m = show_nat n \<Longrightarrow> m = n"
  by (metis nat_of_digits_show)

text \<open>\<^verbatim>\<open>f"{n:08d}"\<close>: zeros on the left up to the width, after the sign.\<close>

definition pad_int :: "nat \<Rightarrow> int \<Rightarrow> string" where
  "pad_int width n =
     (let digits = show_nat (nat \<bar>n\<bar>); sign = (if n < 0 then ''-'' else '''')
      in sign @ replicate (width - length sign - length digits) (CHR ''0'') @ digits)"

lemma nat_of_digits_zeros: "nat_of_digits (replicate k (CHR ''0'') @ s) = nat_of_digits s"
  by (induction k) (simp_all add: nat_of_digits_def)

lemma pad_int_value: "0 \<le> n \<Longrightarrow> nat_of_digits (pad_int w n) = nat n"
  by (simp add: pad_int_def Let_def nat_of_digits_zeros nat_of_digits_show)

lemma pad_int_inj: "0 \<le> m \<Longrightarrow> 0 \<le> n \<Longrightarrow> pad_int w m = pad_int w n \<Longrightarrow> m = n"
  using pad_int_value [of m w] pad_int_value [of n w] by simp

section \<open>Sets of strings\<close>

text \<open>\<^verbatim>\<open>sorted(set(names))\<close>; strings are ordered by code point.\<close>

definition sorted_set :: "string list \<Rightarrow> string list" where
  "sorted_set xs = sort (remdups xs)"

lemma set_sorted_set [simp]: "set (sorted_set xs) = set xs"
  and sorted_sorted_set: "sorted (sorted_set xs)"
  and distinct_sorted_set: "distinct (sorted_set xs)"
  by (simp_all add: sorted_set_def)

lemma sorted_set_eq: "set xs = set ys \<Longrightarrow> sorted_set xs = sorted_set ys"
  by (metis distinct_sorted_set set_sorted_set sorted_distinct_set_unique sorted_sorted_set)

lemma sorted_set_idem [simp]: "sorted_set (sorted_set xs) = sorted_set xs"
  by (rule sorted_set_eq) simp

lemma sorted_set_Nil [simp]: "sorted_set xs = [] \<longleftrightarrow> xs = []"
  by (metis set_empty set_sorted_set)

end
