(* ===== verification/Hardware_Report.thy ===== *)
theory Hardware_Report
  imports Session Py_Value
begin

text \<open>
  The part of \<^verbatim>\<open>hardware.py\<close> that judges a board without touching the link: the evidence that
  diagnostic frames leave in \<^verbatim>\<open>_DiagnosticStatus\<close>, the accumulated responses of an exchange, the
  checks made on them and the reports. The text of an error is the source's string.
\<close>

section \<open>Configuration and results\<close>

datatype hardware_exit_code =
    HX_SUCCESS | HX_PORT_OPEN_FAILED | HX_HANDSHAKE_FAILED | HX_EXCHANGE_FAILED | HX_WATCHDOG_FAILED
  | HX_DIAGNOSTIC_FAILED

fun HardwareExitCode_value :: "hardware_exit_code \<Rightarrow> int" where
  "HardwareExitCode_value HX_SUCCESS = 0"
| "HardwareExitCode_value HX_PORT_OPEN_FAILED = 10"
| "HardwareExitCode_value HX_HANDSHAKE_FAILED = 20"
| "HardwareExitCode_value HX_EXCHANGE_FAILED = 30"
| "HardwareExitCode_value HX_WATCHDOG_FAILED = 40"
| "HardwareExitCode_value HX_DIAGNOSTIC_FAILED = 50"

text \<open>The delay is checked at run time, so it is a dynamic value.\<close>

record hardware_config =
  hw_port :: string
  hw_baud :: int
  hw_watchdog_check :: bool
  hw_startup_delay_s :: pyobj

fun pyobj_value :: "pyobj \<Rightarrow> pyval" where
  "pyobj_value (PBool b) = V_Bool b"
| "pyobj_value (PInt n) = V_Int n"
| "pyobj_value (PFloat x) = V_Float x"
| "pyobj_value POther = V_None"

record hardware_validation_result =
  hr_exit_code :: hardware_exit_code
  hr_phase :: string
  hr_message :: string
  hr_summary :: pydict

definition hr_succeeded :: "hardware_validation_result \<Rightarrow> bool" where
  "hr_succeeded r \<longleftrightarrow> hr_exit_code r = HX_SUCCESS"

definition hr_to_dict :: "hardware_validation_result \<Rightarrow> pydict" where
  "hr_to_dict r = dict_update
     [(''status'', V_Str (if hr_succeeded r then ''success'' else ''error'')),
      (''exit_code'', V_Int (HardwareExitCode_value (hr_exit_code r))),
      (''phase'', V_Str (hr_phase r)),
      (''message'', V_Str (hr_message r))]
     (hr_summary r)"

definition hw_failure ::
  "hardware_exit_code \<Rightarrow> string \<Rightarrow> string \<Rightarrow> pydict \<Rightarrow> hardware_validation_result" where
  "hw_failure exit_code phase message summary =
     \<lparr>hr_exit_code = exit_code, hr_phase = phase, hr_message = message, hr_summary = summary\<rparr>"

text \<open>The float constants are binary64 patterns: 3.0, 0.020, 0.005, 0.6, 0.5.\<close>

definition SESSION_TIMEOUT_MS :: int where "SESSION_TIMEOUT_MS = 500"
definition HANDSHAKE_DEADLINE_S :: f64 where "HANDSHAKE_DEADLINE_S = 0x4008000000000000"
definition FRAME_PERIOD_S :: f64 where "FRAME_PERIOD_S = 0x3F947AE147AE147B"
definition NORMAL_FRAME_COUNT :: nat where "NORMAL_FRAME_COUNT = 10"
definition POLL_PERIOD_S :: f64 where "POLL_PERIOD_S = 0x3F747AE147AE147B"
definition WATCHDOG_QUIET_S :: f64 where "WATCHDOG_QUIET_S = 0x3FE3333333333333"
definition WATCHDOG_MINIMUM_S :: f64 where "WATCHDOG_MINIMUM_S = 0x3FE0000000000000"
definition MAXIMUM_RESPONSE_LAG_STEPS :: int where "MAXIMUM_RESPONSE_LAG_STEPS = 5"
definition DIAGNOSTIC_DEADLINE_S :: f64 where "DIAGNOSTIC_DEADLINE_S = 0x4008000000000000"
definition DIAGNOSTIC_MAGIC :: int where "DIAGNOSTIC_MAGIC = 0x4E424447"
definition DIAGNOSTIC_USB_PROBE :: bytes where "DIAGNOSTIC_USB_PROBE = [1, 0]"

section \<open>Names of the enumerations\<close>

fun HelloStatus_name :: "hello_status \<Rightarrow> string" where
  "HelloStatus_name HS_OK = ''OK''"
| "HelloStatus_name HS_VERSION_MISMATCH = ''VERSION_MISMATCH''"
| "HelloStatus_name HS_BUSY = ''BUSY''"
| "HelloStatus_name HS_REJECTED = ''REJECTED''"

fun EndpointRole_name :: "endpoint_role \<Rightarrow> string" where
  "EndpointRole_name ROLE_HOST = ''HOST''"
| "EndpointRole_name ROLE_CONTROLLER = ''CONTROLLER''"

fun ControlMode_name :: "control_mode \<Rightarrow> string" where
  "ControlMode_name CM_NEUTRAL = ''NEUTRAL''"
| "ControlMode_name CM_TRACKING = ''TRACKING''"
| "ControlMode_name CM_SAFE_STOP = ''SAFE_STOP''"

fun RuntimeState_name :: "runtime_state \<Rightarrow> string" where
  "RuntimeState_name RS_STARTUP = ''STARTUP''"
| "RuntimeState_name RS_SELF_TEST = ''SELF_TEST''"
| "RuntimeState_name RS_READY = ''READY''"
| "RuntimeState_name RS_RUNNING = ''RUNNING''"
| "RuntimeState_name RS_DEGRADED = ''DEGRADED''"
| "RuntimeState_name RS_SAFE_STOP = ''SAFE_STOP''"
| "RuntimeState_name RS_FAULT = ''FAULT''"

fun NavigationMode_name :: "navigation_mode \<Rightarrow> string" where
  "NavigationMode_name NM_UNAVAILABLE = ''UNAVAILABLE''"
| "NavigationMode_name NM_DEAD_RECKONING = ''DEAD_RECKONING''"
| "NavigationMode_name NM_LANDMARK_AIDED = ''LANDMARK_AIDED''"
| "NavigationMode_name NM_GNSS_AIDED = ''GNSS_AIDED''"
| "NavigationMode_name NM_DEGRADED = ''DEGRADED''"

fun ApplicationErrorCode_name :: "application_error_code \<Rightarrow> string" where
  "ApplicationErrorCode_name AE_NONE = ''NONE''"
| "ApplicationErrorCode_name AE_BAD_PAYLOAD = ''BAD_PAYLOAD''"
| "ApplicationErrorCode_name AE_UNSUPPORTED_MESSAGE = ''UNSUPPORTED_MESSAGE''"
| "ApplicationErrorCode_name AE_ROUTE_REJECTED = ''ROUTE_REJECTED''"
| "ApplicationErrorCode_name AE_NOT_READY = ''NOT_READY''"
| "ApplicationErrorCode_name AE_INTERNAL_FAULT = ''INTERNAL_FAULT''"
| "ApplicationErrorCode_name AE_DIAGNOSTIC = ''DIAGNOSTIC''"

fun SessionState_name :: "session_state \<Rightarrow> string" where
  "SessionState_name ST_DISCONNECTED = ''DISCONNECTED''"
| "SessionState_name ST_HELLO_SENT = ''HELLO_SENT''"
| "SessionState_name ST_ACTIVE = ''ACTIVE''"
| "SessionState_name ST_TIMED_OUT = ''TIMED_OUT''"
| "SessionState_name ST_SAFE_STOP = ''SAFE_STOP''"
| "SessionState_name ST_ERROR = ''ERROR''"
| "SessionState_name ST_CLOSED = ''CLOSED''"

section \<open>Statistics as dicts\<close>

definition session_stats_dict :: "session_stats \<Rightarrow> pydict" where
  "session_stats_dict s =
     [(''tx_packets'', V_Int (int (sx_tx_packets s))),
      (''tx_bytes'', V_Int (sx_tx_bytes s)),
      (''rx_packets'', V_Int (int (sx_rx_packets s))),
      (''rx_bytes'', V_Int (int (sx_rx_bytes s))),
      (''rx_rejected'', V_Int (int (sx_rx_rejected s))),
      (''rx_payload_errors'', V_Int (int (sx_rx_payload_errors s))),
      (''timeouts'', V_Int (int (sx_timeouts s))),
      (''reconnects'', V_Int (int (sx_reconnects s))),
      (''transport_errors'', V_Int (int (sx_transport_errors s)))]"

definition parser_stats_dict :: "parser_stats \<Rightarrow> pydict" where
  "parser_stats_dict s =
     [(''bytes_received'', V_Int (int (ps_bytes_received s))),
      (''frames_received'', V_Int (int (ps_frames_received s))),
      (''packets_accepted'', V_Int (int (ps_packets_accepted s))),
      (''empty_delimiters'', V_Int (int (ps_empty_delimiters s))),
      (''oversized_frames'', V_Int (int (ps_oversized_frames s))),
      (''truncated_frames'', V_Int (int (ps_truncated_frames s))),
      (''cobs_errors'', V_Int (int (ps_cobs_errors s))),
      (''crc_errors'', V_Int (int (ps_crc_errors s))),
      (''version_errors'', V_Int (int (ps_version_errors s))),
      (''type_errors'', V_Int (int (ps_type_errors s))),
      (''length_errors'', V_Int (int (ps_length_errors s))),
      (''other_errors'', V_Int (int (ps_other_errors s)))]"

definition sequence_stats_dict :: "sequence_stats \<Rightarrow> pydict" where
  "sequence_stats_dict s =
     [(''accepted'', V_Int (ss_accepted s)),
      (''missing'', V_Int (ss_missing s)),
      (''duplicates'', V_Int (ss_duplicates s)),
      (''out_of_order'', V_Int (ss_out_of_order s)),
      (''stale'', V_Int (ss_stale s))]"

definition session_summary :: "'t host_session \<Rightarrow> pydict" where
  "session_summary s =
     [(''session_state'', V_Str (SessionState_name (sn_state s))),
      (''session_statistics'', V_Dict (session_stats_dict (sn_stats s))),
      (''parser_statistics'', V_Dict (parser_stats_dict (sp_stats (sn_parser s)))),
      (''sequence_statistics'', V_Dict (sequence_stats_dict (tr_stats (sn_rx_sequence s))))]"

section \<open>Diagnostic evidence\<close>

record diagnostic_status =
  dg_beacon_seen :: bool
  dg_tx_proven :: bool
  dg_write_diagnostic_seen :: bool
  dg_uptime_ms :: int
  dg_serial_rx_bytes :: int
  dg_parser_frames_received :: int
  dg_parser_status :: int
  dg_parser_errors :: int
  dg_hello_result :: int
  dg_hello_packets :: int
  dg_response_frames_created :: int
  dg_response_frames_dropped :: int
  dg_response_frames_pending :: int
  dg_serial_tx_bytes :: int
  dg_last_write_requested :: int
  dg_last_write_result :: int
  dg_diagnostic_frames :: nat
  dg_hello_ack :: "hello_ack_payload option"

definition DiagnosticStatus :: diagnostic_status where
  "DiagnosticStatus = \<lparr>dg_beacon_seen = False, dg_tx_proven = False, dg_write_diagnostic_seen = False,
     dg_uptime_ms = 0, dg_serial_rx_bytes = 0, dg_parser_frames_received = 0, dg_parser_status = 0,
     dg_parser_errors = 0, dg_hello_result = 0, dg_hello_packets = 0, dg_response_frames_created = 0,
     dg_response_frames_dropped = 0, dg_response_frames_pending = 0, dg_serial_tx_bytes = 0,
     dg_last_write_requested = 0, dg_last_write_result = 0, dg_diagnostic_frames = 0, dg_hello_ack = None\<rparr>"

definition hello_names :: "(int \<times> string) list" where
  "hello_names = [(0, ''NOT_SEEN''), (1, ''ACCEPTED''), (2, ''PAYLOAD_DECODE_ERROR''), (3, ''WRONG_ROLE''),
     (4, ''VERSION_MISMATCH''), (5, ''CAPABILITY_MISMATCH''), (6, ''PAYLOAD_LIMIT''), (7, ''TIMEOUT_MISMATCH'')]"

definition parser_names :: "(int \<times> string) list" where
  "parser_names = [(0, ''OK''), (1, ''NULL_ARGUMENT''), (2, ''BUFFER_TOO_SMALL''), (3, ''EMPTY_FRAME''),
     (4, ''UNEXPECTED_DELIMITER''), (5, ''COBS_MALFORMED''), (6, ''PACKET_TOO_SHORT''), (7, ''CRC_MISMATCH''),
     (8, ''UNSUPPORTED_VERSION''), (9, ''UNKNOWN_MESSAGE_TYPE''), (10, ''PAYLOAD_LENGTH_MISMATCH''),
     (11, ''PAYLOAD_TOO_LARGE''), (12, ''INVALID_VALUE''), (13, ''OVERSIZED_FRAME''), (14, ''TRUNCATED_FRAME'')]"

definition code_name :: "(int \<times> string) list \<Rightarrow> int \<Rightarrow> string" where
  "code_name names n = (case map_of names n of Some s \<Rightarrow> s | None \<Rightarrow> ''UNKNOWN_'' @ show_int n)"

definition hello_ack_dict :: "hello_ack_payload \<Rightarrow> pydict" where
  "hello_ack_dict a =
     [(''status'', V_Str (HelloStatus_name (ack_status a))),
      (''accepted_version'', V_Int (ack_accepted_version a)),
      (''role'', V_Str (EndpointRole_name (ack_role a))),
      (''capabilities'', V_Int (ack_capabilities a)),
      (''max_payload'', V_Int (ack_max_payload a)),
      (''heartbeat_timeout_ms'', V_Int (ack_heartbeat_timeout_ms a))]"

definition diagnostic_summary :: "diagnostic_status \<Rightarrow> pydict" where
  "diagnostic_summary s =
     [(''beacon_seen'', V_Bool (dg_beacon_seen s)),
      (''tx_proven'', V_Bool (dg_tx_proven s)),
      (''write_diagnostic_seen'', V_Bool (dg_write_diagnostic_seen s)),
      (''uptime_ms'', V_Int (dg_uptime_ms s)),
      (''serial_rx_bytes'', V_Int (dg_serial_rx_bytes s)),
      (''parser_frames_received'', V_Int (dg_parser_frames_received s)),
      (''parser_status'', V_Str (code_name parser_names (dg_parser_status s))),
      (''parser_errors'', V_Int (dg_parser_errors s)),
      (''hello_result'', V_Str (code_name hello_names (dg_hello_result s))),
      (''hello_packets'', V_Int (dg_hello_packets s)),
      (''response_frames_created'', V_Int (dg_response_frames_created s)),
      (''response_frames_dropped'', V_Int (dg_response_frames_dropped s)),
      (''response_frames_pending'', V_Int (dg_response_frames_pending s)),
      (''serial_tx_bytes'', V_Int (dg_serial_tx_bytes s)),
      (''last_write_requested'', V_Int (dg_last_write_requested s)),
      (''last_write_result'', V_Int (dg_last_write_result s)),
      (''diagnostic_frames'', V_Int (int (dg_diagnostic_frames s))),
      (''hello_ack'', (case dg_hello_ack s of Some a \<Rightarrow> V_Dict (hello_ack_dict a) | None \<Rightarrow> V_None))]"

text \<open>What an ERROR payload with the diagnostic code adds to the status.\<close>

definition apply_diagnostic :: "error_payload \<Rightarrow> diagnostic_status \<Rightarrow> diagnostic_status" where
  "apply_diagnostic p s0 =
     (let s = s0\<lparr>dg_diagnostic_frames := dg_diagnostic_frames s0 + 1\<rparr>;
          seq = er_related_sequence p; context = er_context p
      in if er_detail p = 1 \<and> seq = DIAGNOSTIC_MAGIC then
           s\<lparr>dg_beacon_seen := True, dg_tx_proven := True, dg_uptime_ms := context\<rparr>
         else if er_detail p = 2 then
           s\<lparr>dg_serial_rx_bytes := max (dg_serial_rx_bytes s) seq,
             dg_parser_frames_received := max (dg_parser_frames_received s) context\<rparr>
         else if er_detail p = 3 then
           (let hello_packets = seq AND 0xFFFF
            in if dg_hello_packets s \<le> hello_packets then
                 s\<lparr>dg_hello_result := drop_bit 24 seq AND 0xFF,
                   dg_parser_status := drop_bit 16 seq AND 0xFF,
                   dg_hello_packets := hello_packets,
                   dg_parser_errors := max (dg_parser_errors s) context\<rparr>
               else s)
         else if er_detail p = 4 then
           s\<lparr>dg_write_diagnostic_seen := True,
             dg_last_write_requested := drop_bit 16 seq AND 0xFFFF,
             dg_last_write_result := seq AND 0xFFFF,
             dg_serial_tx_bytes := max (dg_serial_tx_bytes s) context\<rparr>
         else if er_detail p = 5 then
           s\<lparr>dg_response_frames_created := max (dg_response_frames_created s) seq,
             dg_response_frames_dropped := max (dg_response_frames_dropped s) (drop_bit 16 context AND 0xFFFF),
             dg_response_frames_pending := context AND 0xFFFF\<rparr>
         else s)"

text \<open>A packet of the batch; only a \<^verbatim>\<open>ValueError\<close> of the decoder is passed over.\<close>

definition diagnostic_packet :: "packet \<Rightarrow> (diagnostic_status, unit) meth" where
  "diagnostic_packet pkt s =
     (case decode_packet_payload pkt of
        Inl e \<Rightarrow> if is_ValueError e then (Inr (), s) else (Inl e, s)
      | Inr (P_HelloAck a) \<Rightarrow> (Inr (), s\<lparr>dg_hello_ack := Some a\<rparr>)
      | Inr (P_Error p) \<Rightarrow>
          if er_code p = AE_DIAGNOSTIC then (Inr (), apply_diagnostic p s) else (Inr (), s)
      | Inr _ \<Rightarrow> (Inr (), s))"

fun diagnostic_packets :: "packet list \<Rightarrow> (diagnostic_status, unit) meth" where
  "diagnostic_packets [] = returnM ()"
| "diagnostic_packets (p # ps) = bindM (diagnostic_packet p) (\<lambda>_. diagnostic_packets ps)"

definition diagnostic_hello_error ::
  "hello_ack_payload option \<Rightarrow> diagnostic_status \<Rightarrow> int \<Rightarrow> int \<Rightarrow> string option" where
  "diagnostic_hello_error ack s minimum_rx minimum_parser_frames =
     (if dg_serial_rx_bytes s < minimum_rx then
        Some ''firmware RX counter did not include the complete HELLO frame''
      else if dg_hello_result s \<noteq> 1 \<or> dg_parser_status s \<noteq> 0 then
        Some ''firmware diagnostic did not report an accepted HELLO''
      else if dg_hello_packets s \<noteq> 1 then
        Some ''firmware diagnostic did not report exactly one HELLO packet''
      else if dg_parser_frames_received s < minimum_parser_frames then
        Some ''firmware parser did not report accepting the HELLO frame''
      else if dg_response_frames_created s \<noteq> 1 then
        Some ''firmware did not report exactly one HELLO response''
      else if dg_response_frames_dropped s \<noteq> 0 then
        Some ''firmware dropped a HELLO response frame''
      else if dg_response_frames_pending s \<noteq> 0 then
        Some ''firmware HELLO response remained pending''
      else if (dg_write_diagnostic_seen s \<and> (dg_last_write_requested s \<noteq> 0 \<or> dg_last_write_result s \<noteq> 0))
              \<and> (dg_last_write_requested s = 0 \<or> dg_last_write_result s \<noteq> dg_last_write_requested s) then
        Some ''firmware reported an incomplete serial write''
      else
        (case ack of
           None \<Rightarrow> Some ''HELLO_ACK was not observed''
         | Some a \<Rightarrow>
             if \<not> (ack_status a = HS_OK
                   \<and> ack_accepted_version a = PROTOCOL_VERSION
                   \<and> ack_role a = ROLE_CONTROLLER
                   \<and> ack_capabilities a AND SUPPORTED_CAPABILITIES = SUPPORTED_CAPABILITIES
                   \<and> 116 \<le> ack_max_payload a
                   \<and> ack_heartbeat_timeout_ms a = SESSION_TIMEOUT_MS)
             then Some ''HELLO_ACK fields are incompatible with the host''
             else None))"

definition host_parser_error_snapshot :: "stream_parser \<Rightarrow> nat list" where
  "host_parser_error_snapshot parser =
     (let stats = sp_stats parser in
      [ps_cobs_errors stats, ps_crc_errors stats, ps_version_errors stats, ps_type_errors stats,
       ps_length_errors stats, ps_oversized_frames stats, ps_truncated_frames stats, ps_other_errors stats])"

definition diagnostic_report :: "hardware_config \<Rightarrow> stream_parser \<Rightarrow> diagnostic_status \<Rightarrow> pydict" where
  "diagnostic_report config parser s =
     [(''port'', V_Str (hw_port config)),
      (''baud'', V_Int (hw_baud config)),
      (''startup_delay_s'', pyobj_value (hw_startup_delay_s config)),
      (''diagnostic'', V_Dict (diagnostic_summary s)),
      (''host_parser_statistics'', V_Dict (parser_stats_dict (sp_stats parser)))]"

definition diagnostic_success ::
  "hardware_config \<Rightarrow> string \<Rightarrow> stream_parser \<Rightarrow> diagnostic_status \<Rightarrow> hardware_validation_result" where
  "diagnostic_success config mode parser s =
     \<lparr>hr_exit_code = HX_SUCCESS, hr_phase = ''diagnostic_'' @ mode,
      hr_message = ''diagnostic '' @ mode @ '' path verified'',
      hr_summary = diagnostic_report config parser s\<rparr>"

definition diagnostic_failure ::
  "hardware_config \<Rightarrow> string \<Rightarrow> string \<Rightarrow> stream_parser \<Rightarrow> diagnostic_status \<Rightarrow> hardware_validation_result" where
  "diagnostic_failure config mode message parser s =
     hw_failure HX_DIAGNOSTIC_FAILED (''diagnostic_'' @ mode) message (diagnostic_report config parser s)"

section \<open>The responses of an exchange\<close>

record response_accumulator =
  ra_command :: "control_command_payload option"
  ra_estimate :: "state_estimate_payload option"
  ra_health :: "health_status_payload option"
  ra_command_count :: nat
  ra_estimate_count :: nat
  ra_health_count :: nat

definition ResponseAccumulator :: response_accumulator where
  "ResponseAccumulator = \<lparr>ra_command = None, ra_estimate = None, ra_health = None,
     ra_command_count = 0, ra_estimate_count = 0, ra_health_count = 0\<rparr>"

definition record_response :: "typed_payload \<Rightarrow> response_accumulator \<Rightarrow> response_accumulator" where
  "record_response p r =
     (case p of
        P_ControlCommand c \<Rightarrow> r\<lparr>ra_command := Some c, ra_command_count := ra_command_count r + 1\<rparr>
      | P_StateEstimate e \<Rightarrow> r\<lparr>ra_estimate := Some e, ra_estimate_count := ra_estimate_count r + 1\<rparr>
      | P_HealthStatus h \<Rightarrow> r\<lparr>ra_health := Some h, ra_health_count := ra_health_count r + 1\<rparr>
      | _ \<Rightarrow> r)"

definition event_error :: "int \<Rightarrow> session_event \<Rightarrow> string option" where
  "event_error current_step_id ev =
     (case ev_payload ev of
        P_Error e \<Rightarrow> Some (''firmware ERROR '' @ ApplicationErrorCode_name (er_code e)
                           @ '' detail='' @ show_int (er_detail e))
      | _ \<Rightarrow>
          if message_type (ev_packet ev) \<in> {MT_CONTROL_COMMAND, MT_STATE_ESTIMATE} then
            if current_step_id < step_id (ev_packet ev) then
              Some ''controller response step_id is in the future''
            else if MAXIMUM_RESPONSE_LAG_STEPS < current_step_id - step_id (ev_packet ev) then
              Some ''controller response step_id is stale''
            else None
          else None)"

text \<open>\<^verbatim>\<open>consume\<close> stops at the first event it refuses; what it recorded before stays.\<close>

fun consume :: "int \<Rightarrow> session_event list \<Rightarrow> response_accumulator \<Rightarrow> string option \<times> response_accumulator" where
  "consume current_step_id [] r = (None, r)"
| "consume current_step_id (ev # evs) r =
     (case event_error current_step_id ev of
        Some e \<Rightarrow> (Some e, r)
      | None \<Rightarrow> consume current_step_id evs (record_response (ev_payload ev) r))"

definition optional_dict :: "('a \<Rightarrow> pydict) \<Rightarrow> 'a option \<Rightarrow> pyval" where
  "optional_dict f x = (case x of Some v \<Rightarrow> V_Dict (f v) | None \<Rightarrow> V_None)"

definition command_dict :: "control_command_payload \<Rightarrow> pydict" where
  "command_dict c =
     [(''mode'', V_Str (ControlMode_name (cc_mode c))),
      (''steering_rad'', V_Float (cc_steering_rad c)),
      (''acceleration_mps2'', V_Float (cc_acceleration_mps2 c)),
      (''target_speed_mps'', V_Float (cc_target_speed_mps c)),
      (''flags'', V_Int (cc_flags c))]"

definition estimate_dict :: "state_estimate_payload \<Rightarrow> pydict" where
  "estimate_dict e =
     [(''x_m'', V_Float (se_x_m e)),
      (''y_m'', V_Float (se_y_m e)),
      (''heading_rad'', V_Float (se_heading_rad e)),
      (''speed_mps'', V_Float (se_speed_mps e)),
      (''navigation_mode'', V_Str (NavigationMode_name (se_navigation_mode e)))]"

definition health_dict :: "health_status_payload \<Rightarrow> pydict" where
  "health_dict h =
     [(''runtime_state'', V_Str (RuntimeState_name (hs_runtime_state h))),
      (''navigation_mode'', V_Str (NavigationMode_name (hs_navigation_mode h))),
      (''last_sensor_age_ms'', V_Int (hc_last_sensor_age_ms (hs_counters h))),
      (''rx_frames'', V_Int (hc_rx_frames (hs_counters h))),
      (''rx_crc_errors'', V_Int (hc_rx_crc_errors (hs_counters h))),
      (''rx_decode_errors'', V_Int (hc_rx_decode_errors (hs_counters h))),
      (''rx_stale'', V_Int (hc_rx_stale (hs_counters h))),
      (''queue_overflows'', V_Int (hc_queue_overflows (hs_counters h)))]"

definition responses_summary :: "response_accumulator \<Rightarrow> pydict" where
  "responses_summary r =
     [(''control_command_count'', V_Int (int (ra_command_count r))),
      (''state_estimate_count'', V_Int (int (ra_estimate_count r))),
      (''health_status_count'', V_Int (int (ra_health_count r))),
      (''last_control_command'', optional_dict command_dict (ra_command r)),
      (''last_state_estimate'', optional_dict estimate_dict (ra_estimate r)),
      (''last_health_status'', optional_dict health_dict (ra_health r))]"

text \<open>The frame of a vehicle at rest; \<^verbatim>\<open>int(_FRAME_PERIOD_S * 1_000_000.0)\<close> is computed in floats.\<close>

definition frame_period_in :: "f64 \<Rightarrow> int" where
  "frame_period_in scale = (case int_of_float (fmul FRAME_PERIOD_S scale) of Inr n \<Rightarrow> n | Inl _ \<Rightarrow> 0)"

definition stationary_sensor_frame :: "int \<Rightarrow> sensor_frame_payload" where
  "stationary_sensor_frame step =
     (let timestamp_us = step * frame_period_in 0x412E848000000000 in
      SensorFramePayload
        \<lparr>sf_present_mask := SM_IMU OR SM_WHEEL_SPEED OR SM_GNSS,
         sf_imu := \<lparr>imu_sample_step_id = step, imu_timestamp_us = timestamp_us,
                    imu_longitudinal_acceleration_mps2 = 0, imu_yaw_rate_rps = 0\<rparr>,
         sf_wheel_speed := \<lparr>wheel_sample_step_id = step, wheel_timestamp_us = timestamp_us, wheel_speed_mps = 0\<rparr>,
         sf_gnss := \<lparr>gnss_sample_step_id = step, gnss_timestamp_us = timestamp_us, gnss_x_m = 0, gnss_y_m = 0\<rparr>\<rparr>)"

definition normal_exchange_error :: "'t host_session \<Rightarrow> response_accumulator \<Rightarrow> string option" where
  "normal_exchange_error s r =
     (case (ra_command r, ra_estimate r, ra_health r) of
        (None, _, _) \<Rightarrow> Some ''CONTROL_COMMAND was not received''
      | (_, None, _) \<Rightarrow> Some ''STATE_ESTIMATE was not received''
      | (_, _, None) \<Rightarrow> Some ''HEALTH_STATUS was not received''
      | (Some c, Some e, Some h) \<Rightarrow>
          if cc_mode c = CM_SAFE_STOP then Some ''normal exchange unexpectedly returned SAFE_STOP''
          else if se_navigation_mode e \<noteq> NM_GNSS_AIDED then
            Some ''normal exchange did not reach GNSS_AIDED navigation''
          else if hs_runtime_state h \<noteq> RS_RUNNING then
            Some ''normal exchange did not reach RUNNING state''
          else
            let parser = sp_stats (sn_parser s) in
            if ps_cobs_errors parser \<noteq> 0 \<or> ps_crc_errors parser \<noteq> 0 \<or> ps_length_errors parser \<noteq> 0
               \<or> ps_oversized_frames parser \<noteq> 0 \<or> ps_truncated_frames parser \<noteq> 0
               \<or> sx_rx_payload_errors (sn_stats s) \<noteq> 0 \<or> sx_rx_rejected (sn_stats s) \<noteq> 0
            then Some ''normal exchange contained rejected, corrupt, or stale responses''
            else None)"

definition event_evidence :: "int \<Rightarrow> session_event \<Rightarrow> string list" where
  "event_evidence current_step_id ev =
     (if current_step_id < step_id (ev_packet ev)
         \<or> MAXIMUM_RESPONSE_LAG_STEPS < current_step_id - step_id (ev_packet ev) then []
      else
        (case ev_payload ev of
           P_ControlCommand c \<Rightarrow>
             if cc_mode c = CM_SAFE_STOP then [''CONTROL_COMMAND.mode=SAFE_STOP''] else []
         | P_HealthStatus h \<Rightarrow>
             if hs_runtime_state h = RS_SAFE_STOP then [''HEALTH_STATUS.runtime_state=SAFE_STOP''] else []
         | _ \<Rightarrow> []))"

definition safe_stop_evidence :: "session_event list \<Rightarrow> int \<Rightarrow> string list" where
  "safe_stop_evidence events current_step_id = concat (map (event_evidence current_step_id) events)"

section \<open>Lemmas\<close>

lemma frame_units: "f64_units_mag (f64_mag FRAME_PERIOD_S) = 5764607523034235 * 2 ^ 1016"
  by (rule f64_units_mag_normal [where e = 1017 and f = 1261007895663739]) (simp_all add: f64_mag_def FRAME_PERIOD_S_def)

lemma frame_finite: "isfinite FRAME_PERIOD_S" "\<not> f64_neg FRAME_PERIOD_S"
  by (simp_all add: isfinite_def f64_neg_def f64_mag_def f64_inf_mag_def FRAME_PERIOD_S_def)

lemma frame_period_us: "frame_period_in 0x412E848000000000 = 20000"
proof -
  have b: "bit_len 49517601571415212026757120000000 = 53 + 53"
    using bit_len_unique [of 105 49517601571415212026757120000000] by simp
  have u: "f64_units_mag (f64_mag 0x412E848000000000) = 8589934592000000 * 2 ^ 1041"
    by (rule f64_units_mag_normal [where e = 1042 and f = 4086334964629504]) (simp_all add: f64_mag_def)
  have "isfinite 0x412E848000000000" "\<not> f64_neg 0x412E848000000000"
    by (simp_all add: isfinite_def f64_neg_def f64_mag_def f64_inf_mag_def)
  with fmul_normal [OF frame_units u frame_finite(1) _ _ _ b] frame_finite(2)
  have m: "fmul FRAME_PERIOD_S 0x412E848000000000 = f64_of False 4671226772094713856"
    by (simp add: f64_inf_mag_def round_half_even_def)
  have "f64_units_mag 4671226772094713856 = 5497558138880000 * 2 ^ 1036"
    by (rule f64_units_mag_normal [where e = 1037 and f = 993958511509504]) simp_all
  then have "int_of_float (f64_of False 4671226772094713856) = Inr (int (5497558138880000 div 2 ^ 38))"
    by (intro int_of_float_normal) (simp_all add: isfinite_def f64_inf_mag_def)
  then show ?thesis by (simp add: frame_period_in_def m)
qed

lemma frame_period_ms: "frame_period_in 0x408F400000000000 = 20"
proof -
  have b: "bit_len 50706024009129177115399290880000 = 53 + 53"
    using bit_len_unique [of 105 50706024009129177115399290880000] by simp
  have u: "f64_units_mag (f64_mag 0x408F400000000000) = 8796093022208000 * 2 ^ 1031"
    by (rule f64_units_mag_normal [where e = 1032 and f = 4292493394837504]) (simp_all add: f64_mag_def)
  have "isfinite 0x408F400000000000" "\<not> f64_neg 0x408F400000000000"
    by (simp_all add: isfinite_def f64_neg_def f64_mag_def f64_inf_mag_def)
  with fmul_normal [OF frame_units u frame_finite(1) _ _ _ b] frame_finite(2)
  have m: "fmul FRAME_PERIOD_S 0x408F400000000000 = f64_of False 4626322717216342016"
    by (simp add: f64_inf_mag_def round_half_even_def)
  have "f64_units_mag 4626322717216342016 = 5629499534213120 * 2 ^ 1026"
    by (rule f64_units_mag_normal [where e = 1027 and f = 1125899906842624]) simp_all
  then have "int_of_float (f64_of False 4626322717216342016) = Inr (int (5629499534213120 div 2 ^ 48))"
    by (intro int_of_float_normal) (simp_all add: isfinite_def f64_inf_mag_def)
  then show ?thesis by (simp add: frame_period_in_def m)
qed

text \<open>The counters of a diagnostic never go back, and what was proven stays proven.\<close>

definition diagnostic_grows :: "diagnostic_status \<Rightarrow> diagnostic_status \<Rightarrow> bool" where
  "diagnostic_grows s t \<longleftrightarrow>
     (dg_beacon_seen s \<longrightarrow> dg_beacon_seen t) \<and> (dg_tx_proven s \<longrightarrow> dg_tx_proven t)
     \<and> (dg_write_diagnostic_seen s \<longrightarrow> dg_write_diagnostic_seen t)
     \<and> dg_serial_rx_bytes s \<le> dg_serial_rx_bytes t
     \<and> dg_parser_frames_received s \<le> dg_parser_frames_received t
     \<and> dg_parser_errors s \<le> dg_parser_errors t \<and> dg_hello_packets s \<le> dg_hello_packets t
     \<and> dg_response_frames_created s \<le> dg_response_frames_created t
     \<and> dg_response_frames_dropped s \<le> dg_response_frames_dropped t
     \<and> dg_serial_tx_bytes s \<le> dg_serial_tx_bytes t
     \<and> dg_diagnostic_frames s \<le> dg_diagnostic_frames t
     \<and> (dg_hello_ack s \<noteq> None \<longrightarrow> dg_hello_ack t \<noteq> None)"

lemma diagnostic_grows_refl [simp]: "diagnostic_grows s s"
  by (simp add: diagnostic_grows_def)

lemma diagnostic_grows_trans: "diagnostic_grows s t \<Longrightarrow> diagnostic_grows t u \<Longrightarrow> diagnostic_grows s u"
  unfolding diagnostic_grows_def by (intro conjI; elim conjE) simp_all

lemma apply_diagnostic_grows: "diagnostic_grows s (apply_diagnostic p s)"
  by (simp add: apply_diagnostic_def diagnostic_grows_def Let_def)

lemma apply_diagnostic_proven:
  "dg_tx_proven s = dg_beacon_seen s \<Longrightarrow> dg_tx_proven (apply_diagnostic p s) = dg_beacon_seen (apply_diagnostic p s)"
  by (simp add: apply_diagnostic_def Let_def)

lemma diagnostic_ack_grows: "diagnostic_grows s (s\<lparr>dg_hello_ack := Some a\<rparr>)"
  by (simp add: diagnostic_grows_def)

lemma diagnostic_packet_law:
  "\<exists>t. diagnostic_packet pkt s = (Inr (), t) \<and> diagnostic_grows s t \<and> (dg_tx_proven s = dg_beacon_seen s \<longrightarrow> dg_tx_proven t = dg_beacon_seen t)"
proof (cases "decode_packet_payload pkt")
  case (Inl e)
  then obtain c where "e = ProtocolError c"
    using errors_inD [OF decode_typed_errors, of _ _ e] by (auto simp: decode_packet_payload_def)
  with Inl show ?thesis by (simp add: diagnostic_packet_def)
next
  case (Inr p)
  then show ?thesis
    by (cases p) (simp_all add: diagnostic_packet_def apply_diagnostic_grows apply_diagnostic_proven
        diagnostic_ack_grows)
qed

lemma diagnostic_packets_law:
  "\<exists>t. diagnostic_packets ps s = (Inr (), t) \<and> diagnostic_grows s t \<and> (dg_tx_proven s = dg_beacon_seen s \<longrightarrow> dg_tx_proven t = dg_beacon_seen t)"
proof (induction ps arbitrary: s)
  case (Cons p ps)
  obtain t where t: "diagnostic_packet p s = (Inr (), t)" "diagnostic_grows s t"
    "dg_tx_proven s = dg_beacon_seen s \<longrightarrow> dg_tx_proven t = dg_beacon_seen t"
    using diagnostic_packet_law by blast
  from Cons.IH [of t] t diagnostic_grows_trans [OF t(2)] show ?case by (auto simp: bindM_def)
qed simp

end
