(* ===== verification/Run_Monad.thy ===== *)
theory Run_Monad
  imports Prelude
begin

text \<open>
  Methods that may not return: \<^verbatim>\<open>None\<close> is a call that runs for ever. Sequencing, \<^verbatim>\<open>try/except\<close>
  and \<^verbatim>\<open>try/finally\<close> over them, and the rules that compose their returning.
\<close>

type_synonym ('s, 'a) run = "'s \<Rightarrow> ('a result \<times> 's) option"

definition liftL :: "('s, 'a) meth \<Rightarrow> ('s, 'a) run" where
  "liftL m s = Some (m s)"

definition bindL :: "('s, 'a) run \<Rightarrow> ('a \<Rightarrow> ('s, 'b) run) \<Rightarrow> ('s, 'b) run" where
  "bindL m f s =
     (case m s of
        None \<Rightarrow> None
      | Some (Inl e, s') \<Rightarrow> Some (Inl e, s')
      | Some (Inr v, s') \<Rightarrow> f v s')"

text \<open>\<^verbatim>\<open>try: m except <caught> as e: h(e)\<close>\<close>

definition catchL :: "('s, 'a) run \<Rightarrow> (py_exn \<Rightarrow> bool) \<Rightarrow> (py_exn \<Rightarrow> ('s, 'a) run) \<Rightarrow> ('s, 'a) run" where
  "catchL m caught h s =
     (case m s of
        None \<Rightarrow> None
      | Some (Inl e, s') \<Rightarrow> (if caught e then h e s' else Some (Inl e, s'))
      | Some (Inr v, s') \<Rightarrow> Some (Inr v, s'))"

text \<open>\<^verbatim>\<open>try: m finally: f\<close>: an exception of \<open>f\<close> replaces the outcome of \<open>m\<close>.\<close>

definition finallyL :: "('s, 'a) run \<Rightarrow> ('s, unit) meth \<Rightarrow> ('s, 'a) run" where
  "finallyL m f s =
     (case m s of
        None \<Rightarrow> None
      | Some (r, s') \<Rightarrow> (case f s' of (Inl e, s'') \<Rightarrow> Some (Inl e, s'') | (Inr _, s'') \<Rightarrow> Some (r, s'')))"

lemma liftL_apply [simp]: "liftL m s = Some (m s)"
  by (simp add: liftL_def)

lemma bindL_None: "bindL m f s = None \<longleftrightarrow> m s = None \<or> (\<exists>v s'. m s = Some (Inr v, s') \<and> f v s' = None)"
  by (auto simp: bindL_def split: option.splits sum.splits)

lemma bindL_Inr:
  "bindL m f s = Some (Inr w, s') \<longleftrightarrow> (\<exists>v t. m s = Some (Inr v, t) \<and> f v t = Some (Inr w, s'))"
  by (auto simp: bindL_def split: option.splits sum.splits)

lemma catchL_None: "catchL m c h s = None \<longleftrightarrow> m s = None \<or> (\<exists>e s'. m s = Some (Inl e, s') \<and> c e \<and> h e s' = None)"
  by (auto simp: catchL_def split: option.splits sum.splits)

lemma catchL_Inr:
  "catchL m c h s = Some (Inr w, s') \<longleftrightarrow>
     m s = Some (Inr w, s') \<or> (\<exists>e t. m s = Some (Inl e, t) \<and> c e \<and> h e t = Some (Inr w, s'))"
  by (auto simp: catchL_def split: option.splits sum.splits)

lemma finallyL_None [simp]: "finallyL m f s = None \<longleftrightarrow> m s = None"
  by (auto simp: finallyL_def split: option.splits sum.splits prod.splits)

text \<open>A run whose exceptions are all caught by a handler that returns raises nothing caught.\<close>

lemma catchL_Inl:
  "catchL m c (\<lambda>e s. Some (Inr (h e s), s)) s = Some (Inl e, s') \<Longrightarrow> \<not> c e"
  by (auto simp: catchL_def split: option.splits sum.splits if_splits)

section \<open>Outcomes\<close>

text \<open>
  What is known of a run if it returns: \<open>Q\<close> of its value and \<open>E\<close> of its exception, with the state
  it leaves. The rules follow the shape of a program.
\<close>

definition outcomes :: "('a result \<times> 's) option \<Rightarrow> ('a \<Rightarrow> 's \<Rightarrow> bool) \<Rightarrow> (py_exn \<Rightarrow> 's \<Rightarrow> bool) \<Rightarrow> bool" where
  "outcomes x Q E =
     (case x of None \<Rightarrow> True | Some (Inr v, s) \<Rightarrow> Q v s | Some (Inl e, s) \<Rightarrow> E e s)"

lemma outcomes_simps [simp]:
  "outcomes None Q E" "outcomes (Some (Inr v, s)) Q E = Q v s" "outcomes (Some (Inl e, s)) Q E = E e s"
  by (simp_all add: outcomes_def)

lemma outcomes_Some: "outcomes (Some x) Q E = (case x of (Inr v, s) \<Rightarrow> Q v s | (Inl e, s) \<Rightarrow> E e s)"
  by (simp add: outcomes_def)

lemma outcomes_mono:
  assumes "outcomes x Q E" "\<And>v t. Q v t \<Longrightarrow> Q' v t" "\<And>e t. E e t \<Longrightarrow> E' e t"
  shows "outcomes x Q' E'"
  using assms by (auto simp: outcomes_def split: option.splits sum.splits)

lemma outcomes_any: "(\<And>v t. Q v t) \<Longrightarrow> (\<And>e t. E e t) \<Longrightarrow> outcomes x Q E"
  by (simp add: outcomes_def split: option.split sum.split)

lemma outcomes_bindL:
  "outcomes (m s) (\<lambda>v t. outcomes (f v t) Q E) E \<Longrightarrow> outcomes (bindL m f s) Q E"
  by (auto simp: outcomes_def bindL_def split: option.splits sum.splits)

lemma outcomes_catchL:
  "outcomes (m s) Q (\<lambda>e t. if c e then outcomes (h e t) Q E else E e t) \<Longrightarrow> outcomes (catchL m c h s) Q E"
proof (cases "m s")
  case (Some x)
  obtain r t where x: "x = (r, t)" by fastforce
  assume "outcomes (m s) Q (\<lambda>e t. if c e then outcomes (h e t) Q E else E e t)"
  with Some x show ?thesis by (cases r) (auto simp: outcomes_def catchL_def)
qed (simp add: outcomes_def catchL_def)

lemma outcomes_finallyL:
  assumes "outcomes (m s) (\<lambda>v t. case f t of (Inl e, u) \<Rightarrow> E e u | (Inr _, u) \<Rightarrow> Q v u)
                       (\<lambda>x t. case f t of (Inl e, u) \<Rightarrow> E e u | (Inr _, u) \<Rightarrow> E x u)"
  shows "outcomes (finallyL m f s) Q E"
proof (cases "m s")
  case (Some x)
  obtain r t where x: "x = (r, t)" by fastforce
  show ?thesis
    using assms Some x by (cases r; cases "f t") (auto simp: outcomes_def finallyL_def split: sum.splits)
qed (simp add: outcomes_def finallyL_def)

end
