(* ===== verification/Hardware.thy ===== *)
theory Hardware
  imports Hardware_Report Run_Monad
begin

text \<open>
  The runs of \<^verbatim>\<open>hardware.py\<close> over a serial link: the diagnostic of a board and the validation of
  handshake, normal exchange and watchdog. The transport, the clock, \<^verbatim>\<open>sleep\<close>, the opening of the
  port and the text of a caught exception are parameters (a record of operations on the state of
  the world); times are binary64 floats. A loop that waits for the clock may run for ever, so a run
  is an option.
\<close>

section \<open>The world\<close>

record serial_config =
  sl_device :: string
  sl_baud :: int

definition BAUD_CONSTANTS :: "int list" where
  "BAUD_CONSTANTS = [9600, 19200, 38400, 57600, 115200, 230400]"

definition SerialConfig :: "string \<Rightarrow> int \<Rightarrow> serial_config result" where
  "SerialConfig device baud =
     (if device = [] \<or> CHR 0x00 \<in> set device then Inl ValueError
      else if baud \<notin> set BAUD_CONSTANTS then Inl ValueError
      else Inr \<lparr>sl_device = device, sl_baud = baud\<rparr>)"

record 'w hardware_env =
  he_ops :: "'w byte_transport_ops"
  he_clock :: "'w \<Rightarrow> f64 \<times> 'w"
  he_sleep :: "pyobj \<Rightarrow> 'w \<Rightarrow> 'w"
  he_reset_input :: "('w, unit) meth option"
  he_open :: "serial_config \<Rightarrow> ('w, unit) meth"
  he_text :: "py_exn \<Rightarrow> string"

text \<open>
  The loops of the module wait in the same way: read the clock, stop if the guard on the reading
  and the state fails, else run a body that may return early (\<^verbatim>\<open>Some\<close>), raise, or go round again.
\<close>

partial_function (option) clock_loop ::
  "('s \<Rightarrow> f64 \<times> 's) \<Rightarrow> (f64 \<Rightarrow> 's \<Rightarrow> bool) \<Rightarrow> ('s, 'r option) meth \<Rightarrow> 's \<Rightarrow> ('r option result \<times> 's) option" where
  "clock_loop clock guard body s =
     (case clock s of
        (t, s1) \<Rightarrow>
          if guard t s1 then
            (case body s1 of
               (Inl e, s2) \<Rightarrow> Some (Inl e, s2)
             | (Inr (Some r), s2) \<Rightarrow> Some (Inr (Some r), s2)
             | (Inr None, s2) \<Rightarrow> clock_loop clock guard body s2)
          else Some (Inr None, s1))"

section \<open>The serial diagnostic\<close>

record 'w diagnosis =
  dx_world :: 'w
  dx_parser :: stream_parser
  dx_status :: diagnostic_status

definition dx_clock :: "'w hardware_env \<Rightarrow> 'w diagnosis \<Rightarrow> f64 \<times> 'w diagnosis" where
  "dx_clock env s = (case he_clock env (dx_world s) of (t, w) \<Rightarrow> (t, s\<lparr>dx_world := w\<rparr>))"

definition dx_sleep :: "'w hardware_env \<Rightarrow> f64 \<Rightarrow> 'w diagnosis \<Rightarrow> 'w diagnosis" where
  "dx_sleep env d s = s\<lparr>dx_world := he_sleep env (PFloat d) (dx_world s)\<rparr>"

text \<open>\<^verbatim>\<open>_poll_diagnostic\<close> reads at most 32 times.\<close>

fun poll_diagnostic :: "'w hardware_env \<Rightarrow> nat \<Rightarrow> ('w diagnosis, unit) meth" where
  "poll_diagnostic env 0 s = (Inr (), s)"
| "poll_diagnostic env (Suc n) s =
     (case bt_read (he_ops env) 512 (dx_world s) of
        (Inl e, w) \<Rightarrow> (Inl e, s\<lparr>dx_world := w\<rparr>)
      | (Inr data, w) \<Rightarrow>
          if data = [] then (Inr (), s\<lparr>dx_world := w\<rparr>)
          else
            (case feed data (dx_parser s) of
               (Inl e, p) \<Rightarrow> (Inl e, s\<lparr>dx_world := w, dx_parser := p\<rparr>)
             | (Inr batch, p) \<Rightarrow>
                 (case diagnostic_packets (pb_packets batch) (dx_status s) of
                    (Inl e, st) \<Rightarrow> (Inl e, s\<lparr>dx_world := w, dx_parser := p, dx_status := st\<rparr>)
                  | (Inr _, st) \<Rightarrow>
                      poll_diagnostic env n (s\<lparr>dx_world := w, dx_parser := p, dx_status := st\<rparr>))))"

partial_function (option) write_loop ::
  "'w hardware_env \<Rightarrow> bytes \<Rightarrow> f64 \<Rightarrow> nat \<Rightarrow> 'w \<Rightarrow> (unit result \<times> 'w) option" where
  "write_loop env data due offset w =
     (if offset < length data then
        (case bt_write (he_ops env) (drop offset data) w of
           (Inl e, w1) \<Rightarrow> Some (Inl e, w1)
         | (Inr written, w1) \<Rightarrow>
             if written < 0 \<or> int (length data) - int offset < written then Some (Inl TransportError, w1)
             else if offset + nat written = length data then Some (Inr (), w1)
             else
               (case he_clock env w1 of
                  (t, w2) \<Rightarrow>
                    if flt due t then Some (Inl TransportError, w2)
                    else write_loop env data due (offset + nat written)
                           (he_sleep env (PFloat POLL_PERIOD_S) w2)))
      else Some (Inr (), w))"

text \<open>The write deadline is one second.\<close>

definition write_all :: "'w hardware_env \<Rightarrow> bytes \<Rightarrow> ('w diagnosis, unit) run" where
  "write_all env data s =
     (case he_clock env (dx_world s) of
        (t, w) \<Rightarrow>
          (case write_loop env data (fadd t 0x3FF0000000000000) 0 w of
             None \<Rightarrow> None
           | Some (r, w') \<Rightarrow> Some (r, s\<lparr>dx_world := w'\<rparr>)))"

definition beacon_body :: "'w hardware_env \<Rightarrow> ('w diagnosis, unit option) meth" where
  "beacon_body env =
     bindM (poll_diagnostic env 32) (\<lambda>_ s. (Inr None, dx_sleep env POLL_PERIOD_S s))"

definition beacon_loop :: "'w hardware_env \<Rightarrow> f64 \<Rightarrow> ('w diagnosis, unit option) run" where
  "beacon_loop env due =
     clock_loop (dx_clock env) (\<lambda>t s. fle t due \<and> \<not> dg_beacon_seen (dx_status s)) (beacon_body env)"

definition usb_body ::
  "'w hardware_env \<Rightarrow> hardware_config \<Rightarrow> string \<Rightarrow> int \<Rightarrow> int \<Rightarrow> ('w diagnosis, hardware_validation_result option) meth" where
  "usb_body env config mode baseline_rx baseline_errors =
     bindM (poll_diagnostic env 32) (\<lambda>_ s.
       if baseline_rx + int (length DIAGNOSTIC_USB_PROBE) \<le> dg_serial_rx_bytes (dx_status s)
          \<and> baseline_errors < dg_parser_errors (dx_status s)
       then (Inr (Some (diagnostic_success config mode (dx_parser s) (dx_status s))), s)
       else (Inr None, dx_sleep env POLL_PERIOD_S s))"

definition usb_loop ::
  "'w hardware_env \<Rightarrow> hardware_config \<Rightarrow> string \<Rightarrow> int \<Rightarrow> int \<Rightarrow> f64
     \<Rightarrow> ('w diagnosis, hardware_validation_result option) run" where
  "usb_loop env config mode baseline_rx baseline_errors due =
     clock_loop (dx_clock env) (\<lambda>t s. fle t due) (usb_body env config mode baseline_rx baseline_errors)"

text \<open>The loop of the protocol mode carries the last error with it.\<close>

definition hello_body ::
  "'w hardware_env \<Rightarrow> hardware_config \<Rightarrow> string \<Rightarrow> int \<Rightarrow> int \<Rightarrow> nat list
     \<Rightarrow> ('w diagnosis \<times> string, hardware_validation_result option) meth" where
  "hello_body env config mode minimum_rx minimum_parser_frames baseline_host_errors x =
     (case x of (s0, last_error) \<Rightarrow>
        (case poll_diagnostic env 32 s0 of
           (Inl e, s) \<Rightarrow> (Inl e, (s, last_error))
         | (Inr _, s) \<Rightarrow>
             let status = dx_status s in
             if dg_hello_ack status \<noteq> None \<or> dg_hello_result status \<noteq> 0 then
               (let error = diagnostic_hello_error (dg_hello_ack status) status minimum_rx minimum_parser_frames
                in if host_parser_error_snapshot (dx_parser s) \<noteq> baseline_host_errors then
                     (Inr None, (dx_sleep env POLL_PERIOD_S s,
                       ''host parser observed a new invalid frame during the HELLO exchange''))
                   else (case error of
                           None \<Rightarrow> (Inr (Some (diagnostic_success config mode (dx_parser s) status)), (s, last_error))
                         | Some e \<Rightarrow> (Inr None, (dx_sleep env POLL_PERIOD_S s, e))))
             else (Inr None, (dx_sleep env POLL_PERIOD_S s, last_error))))"

definition hello_loop ::
  "'w hardware_env \<Rightarrow> hardware_config \<Rightarrow> string \<Rightarrow> int \<Rightarrow> int \<Rightarrow> nat list \<Rightarrow> f64
     \<Rightarrow> ('w diagnosis \<times> string, hardware_validation_result option) run" where
  "hello_loop env config mode minimum_rx minimum_parser_frames baseline due =
     clock_loop (\<lambda>(s, last). case dx_clock env s of (t, s') \<Rightarrow> (t, (s', last))) (\<lambda>t s. fle t due)
       (hello_body env config mode minimum_rx minimum_parser_frames baseline)"

definition usb_diagnostic ::
  "'w hardware_env \<Rightarrow> hardware_config \<Rightarrow> string \<Rightarrow> ('w diagnosis, hardware_validation_result) run" where
  "usb_diagnostic env config mode s0 =
     bindL (write_all env DIAGNOSTIC_USB_PROBE) (\<lambda>_ s1.
       (case dx_clock env s1 of (t, s2) \<Rightarrow>
          bindL (usb_loop env config mode (dg_serial_rx_bytes (dx_status s0)) (dg_parser_errors (dx_status s0))
                   (fadd t DIAGNOSTIC_DEADLINE_S))
            (\<lambda>r s. Some (Inr (case r of
                Some result \<Rightarrow> result
              | None \<Rightarrow> diagnostic_failure config mode
                  ''UART bridge RX byte counter did not observe the binary probe'' (dx_parser s) (dx_status s)), s)) s2)) s0"

definition diagnostic_hello :: typed_payload where
  "diagnostic_hello = P_Hello ((HelloPayload ROLE_HOST)
     \<lparr>hello_capabilities := SUPPORTED_CAPABILITIES, hello_heartbeat_timeout_ms := SESSION_TIMEOUT_MS\<rparr>)"

definition protocol_diagnostic ::
  "'w hardware_env \<Rightarrow> hardware_config \<Rightarrow> string \<Rightarrow> ('w diagnosis, hardware_validation_result) run" where
  "protocol_diagnostic env config mode s0 =
     (case bindR (make_packet MT_HELLO 0 0 diagnostic_hello) encode_packet of
        Inl e \<Rightarrow> Some (Inl e, s0)
      | Inr hello_frame \<Rightarrow>
          bindL (write_all env hello_frame) (\<lambda>_ s1.
            (case dx_clock env s1 of (t, s2) \<Rightarrow>
               (case hello_loop env config mode
                       (dg_serial_rx_bytes (dx_status s0) + int (length hello_frame))
                       (dg_parser_frames_received (dx_status s0) + 1)
                       (host_parser_error_snapshot (dx_parser s0)) (fadd t DIAGNOSTIC_DEADLINE_S)
                       (s2, ''HELLO parse result and HELLO_ACK were not both observed'') of
                  None \<Rightarrow> None
                | Some (Inl e, (s, _)) \<Rightarrow> Some (Inl e, s)
                | Some (Inr (Some result), (s, _)) \<Rightarrow> Some (Inr result, s)
                | Some (Inr None, (s, last_error)) \<Rightarrow>
                    Some (Inr (diagnostic_failure config mode last_error (dx_parser s) (dx_status s)), s)))) s0)"

definition diagnose ::
  "'w hardware_env \<Rightarrow> hardware_config \<Rightarrow> string \<Rightarrow> ('w diagnosis, hardware_validation_result) run" where
  "diagnose env config mode s0 =
     (case dx_clock env s0 of (t, s1) \<Rightarrow>
        bindL (beacon_loop env (fadd t DIAGNOSTIC_DEADLINE_S)) (\<lambda>_ s.
          if \<not> dg_beacon_seen (dx_status s) then
            Some (Inr (diagnostic_failure config mode ''a valid diagnostic beacon was not received''
                         (dx_parser s) (dx_status s)), s)
          else if mode = ''usb'' then usb_diagnostic env config mode s
          else protocol_diagnostic env config mode s) s1)"

definition validate_serial_diagnostic ::
  "'w hardware_env \<Rightarrow> hardware_config \<Rightarrow> string \<Rightarrow> ('w, hardware_validation_result) run" where
  "validate_serial_diagnostic env config mode w =
     (case diagnose env config mode \<lparr>dx_world = w, dx_parser = StreamParser, dx_status = DiagnosticStatus\<rparr> of
        None \<Rightarrow> None
      | Some (r, s) \<Rightarrow> Some (r, dx_world s))"

end
