(* ===== verification/Hardware_Validation.thy ===== *)
theory Hardware_Validation
  imports Hardware
begin

text \<open>
  \<^verbatim>\<open>validate_transport\<close> of \<^verbatim>\<open>hardware.py\<close>: handshake, ten sensor frames with their responses and,
  if asked for, the watchdog, through a \<^verbatim>\<open>HostSession\<close>; then the two entry points that open the port,
  run a validation and close the port whatever happens.
\<close>

section \<open>Clock and sleep of a session's world\<close>

definition sess_clock :: "'w hardware_env \<Rightarrow> 'w host_session \<Rightarrow> f64 \<times> 'w host_session" where
  "sess_clock env s = (case he_clock env (sn_transport s) of (t, w) \<Rightarrow> (t, s\<lparr>sn_transport := w\<rparr>))"

definition sess_sleep :: "'w hardware_env \<Rightarrow> f64 \<Rightarrow> 'w host_session \<Rightarrow> 'w host_session" where
  "sess_sleep env d s = s\<lparr>sn_transport := he_sleep env (PFloat d) (sn_transport s)\<rparr>"

definition elapsed_ms :: "f64 \<Rightarrow> int result" where
  "elapsed_ms x = (if \<not> isfinite x \<or> flt x 0 then Inl ValueError else int_of_float (fmul x 0x408F400000000000))"

definition now_ms :: "'w hardware_env \<Rightarrow> f64 \<Rightarrow> ('w host_session, int) meth" where
  "now_ms env started s = (case sess_clock env s of (t, s') \<Rightarrow> (elapsed_ms (fsub t started), s'))"

definition poll_now :: "'w hardware_env \<Rightarrow> f64 \<Rightarrow> ('w host_session, session_event list) meth" where
  "poll_now env started = bindM (now_ms env started) (poll (he_ops env))"

definition session_caught :: "py_exn \<Rightarrow> bool" where
  "session_caught e \<longleftrightarrow> e = SessionError \<or> e = TransportError \<or> is_ValueError e"

definition config_dict :: "hardware_config \<Rightarrow> pydict" where
  "config_dict config =
     [(''port'', V_Str (hw_port config)), (''baud'', V_Int (hw_baud config)),
      (''startup_delay_s'', pyobj_value (hw_startup_delay_s config))]"

section \<open>Handshake\<close>

definition handshake_failure ::
  "hardware_config \<Rightarrow> string \<Rightarrow> 'w host_session \<Rightarrow> hardware_validation_result" where
  "handshake_failure config message s =
     hw_failure HX_HANDSHAKE_FAILED ''handshake'' message (config_dict config @ session_summary s)"

text \<open>An early return is a failure (\<^verbatim>\<open>Some\<close>) or the \<^verbatim>\<open>break\<close> (\<^verbatim>\<open>None\<close>).\<close>

definition handshake_body ::
  "'w hardware_env \<Rightarrow> hardware_config \<Rightarrow> f64 \<Rightarrow> ('w host_session, hardware_validation_result option option) meth" where
  "handshake_body env config started =
     bindM (poll_now env started) (\<lambda>_ s.
       if sn_state s = ST_ACTIVE then (Inr (Some None), s)
       else if sn_state s = ST_ERROR then
         (Inr (Some (Some (handshake_failure config ''HELLO_ACK was rejected by Protocol v1 session policy'' s))), s)
       else
         bindM (if sn_state s = ST_TIMED_OUT
                then bindM (now_ms env started) (session_reconnect (he_ops env)) else returnM ())
           (\<lambda>_ s. (Inr None, sess_sleep env POLL_PERIOD_S s)) s)"

definition handshake_loop ::
  "'w hardware_env \<Rightarrow> hardware_config \<Rightarrow> f64 \<Rightarrow> f64 \<Rightarrow> ('w host_session, hardware_validation_result option option) run" where
  "handshake_loop env config started due =
     clock_loop (sess_clock env) (\<lambda>t s. fle t due) (handshake_body env config started)"

text \<open>\<^verbatim>\<open>None\<close> is a session that became active.\<close>

definition handshake_phase ::
  "'w hardware_env \<Rightarrow> hardware_config \<Rightarrow> f64 \<Rightarrow> ('w host_session, hardware_validation_result option) run" where
  "handshake_phase env config started =
     catchL
       (bindL (liftL (bindM (now_ms env started) (session_start (he_ops env)))) (\<lambda>_ s.
          (case sess_clock env s of (t, s1) \<Rightarrow>
             bindL (handshake_loop env config started (fadd t HANDSHAKE_DEADLINE_S)) (\<lambda>r s.
               (case r of
                  Some (Some failure) \<Rightarrow> Some (Inr (Some failure), s)
                | _ \<Rightarrow>
                    if sn_state s \<noteq> ST_ACTIVE then
                      Some (Inr (Some (handshake_failure config
                        ''compatible HELLO_ACK was not received before the deadline'' s)), s)
                    else Some (Inr None, s))) s1)))
       session_caught
       (\<lambda>e s. Some (Inr (Some (handshake_failure config (he_text env e) s)), s))"

section \<open>Normal exchange\<close>

definition optional_int :: "int option \<Rightarrow> pyval" where
  "optional_int x = (case x of Some n \<Rightarrow> V_Int n | None \<Rightarrow> V_None)"

definition handshake_dict :: "'w host_session \<Rightarrow> pydict" where
  "handshake_dict s =
     [(''accepted_version'', V_Int PROTOCOL_VERSION),
      (''peer_capabilities'', optional_int (sn_peer_capabilities s)),
      (''negotiated_max_payload'', optional_int (sn_negotiated_max_payload s)),
      (''negotiated_timeout_ms'', optional_int (sn_negotiated_timeout_ms s))]"

record 'w exchange =
  xc_session :: "'w host_session"
  xc_responses :: response_accumulator
  xc_last_sensor_sent_s :: f64

definition on_session :: "('w host_session, 'a) meth \<Rightarrow> ('w exchange, 'a) meth" where
  "on_session m x = (case m (xc_session x) of (r, s) \<Rightarrow> (r, x\<lparr>xc_session := s\<rparr>))"

definition exchange_clock :: "'w hardware_env \<Rightarrow> 'w exchange \<Rightarrow> f64 \<times> 'w exchange" where
  "exchange_clock env x = (case sess_clock env (xc_session x) of (t, s) \<Rightarrow> (t, x\<lparr>xc_session := s\<rparr>))"

text \<open>A poll whose events go to the accumulator; a refused response is the text of the
  \<^verbatim>\<open>SessionError\<close> that the source raises with it.\<close>

definition poll_responses :: "'w hardware_env \<Rightarrow> f64 \<Rightarrow> int \<Rightarrow> ('w exchange, string option) meth" where
  "poll_responses env started step x =
     (case on_session (poll_now env started) x of
        (Inl e, x1) \<Rightarrow> (Inl e, x1)
      | (Inr events, x1) \<Rightarrow>
          (case consume step events (xc_responses x1) of
             (error, r) \<Rightarrow> (Inr error, x1\<lparr>xc_responses := r\<rparr>)))"

definition response_body :: "'w hardware_env \<Rightarrow> f64 \<Rightarrow> int \<Rightarrow> f64 \<Rightarrow> ('w exchange, string option) meth" where
  "response_body env started step due x =
     (case poll_responses env started step x of
        (Inl e, x1) \<Rightarrow> (Inl e, x1)
      | (Inr (Some error), x1) \<Rightarrow> (Inr (Some error), x1)
      | (Inr None, x1) \<Rightarrow>
          (case exchange_clock env x1 of
             (t, x2) \<Rightarrow>
               (Inr None, x2\<lparr>xc_session :=
                  sess_sleep env (fmin POLL_PERIOD_S (fmax 0 (fsub due t))) (xc_session x2)\<rparr>)))"

text \<open>One sensor frame and its period.\<close>

definition exchange_step :: "'w hardware_env \<Rightarrow> f64 \<Rightarrow> int \<Rightarrow> ('w exchange, string option) run" where
  "exchange_step env started step x =
     (case exchange_clock env x of (t, x1) \<Rightarrow>
        bindL (liftL (on_session (send_sensor (he_ops env) step (stationary_sensor_frame step))))
          (\<lambda>_ x2. case exchange_clock env x2 of (t2, x3) \<Rightarrow>
             (let due = fadd t2 FRAME_PERIOD_S in
              bindL (clock_loop (exchange_clock env) (\<lambda>t x. flt t due) (response_body env started step due))
                (\<lambda>r. case r of
                   Some error \<Rightarrow> (\<lambda>x. Some (Inr (Some error), x))
                 | None \<Rightarrow> liftL (poll_responses env started step)) x3))
          (x1\<lparr>xc_last_sensor_sent_s := t\<rparr>))"

fun exchange_steps :: "'w hardware_env \<Rightarrow> f64 \<Rightarrow> nat list \<Rightarrow> ('w exchange, string option) run" where
  "exchange_steps env started [] x = Some (Inr None, x)"
| "exchange_steps env started (n # ns) x =
     bindL (exchange_step env started (int n))
       (\<lambda>r. case r of
          Some error \<Rightarrow> (\<lambda>x. Some (Inr (Some error), x))
        | None \<Rightarrow> exchange_steps env started ns) x"

definition validation_route :: "route_waypoint list" where
  "validation_route =
     [\<lparr>wp_x_m = 0, wp_y_m = 0, wp_target_speed_mps = 0, wp_acceptance_radius_m = 0x3FD0000000000000\<rparr>,
      \<lparr>wp_x_m = 0x3FF0000000000000, wp_y_m = 0, wp_target_speed_mps = 0,
       wp_acceptance_radius_m = 0x3FD0000000000000\<rparr>]"

definition exchange_failure :: "pydict \<Rightarrow> 'w exchange \<Rightarrow> string \<Rightarrow> hardware_validation_result" where
  "exchange_failure handshake x message =
     hw_failure HX_EXCHANGE_FAILED ''normal_exchange'' message
       ((''handshake'', V_Dict handshake) # session_summary (xc_session x))"

definition exchange_phase ::
  "'w hardware_env \<Rightarrow> f64 \<Rightarrow> pydict \<Rightarrow> ('w exchange, hardware_validation_result option) run" where
  "exchange_phase env started handshake =
     catchL
       (bindL (liftL (on_session (send_route (he_ops env) 1 validation_route 0 False))) (\<lambda>_.
          bindL (exchange_steps env started [1..<NORMAL_FRAME_COUNT + 1]) (\<lambda>r x.
            (case r of
               Some error \<Rightarrow> Some (Inr (Some (exchange_failure handshake x error)), x)
             | None \<Rightarrow> Some (Inr None, x)))))
       session_caught
       (\<lambda>e x. Some (Inr (Some (exchange_failure handshake x (he_text env e))), x))"

definition exchange_verdict :: "pydict \<Rightarrow> 'w exchange \<Rightarrow> hardware_validation_result option" where
  "exchange_verdict handshake x =
     (case normal_exchange_error (xc_session x) (xc_responses x) of
        None \<Rightarrow> None
      | Some error \<Rightarrow> Some (hw_failure HX_EXCHANGE_FAILED ''normal_exchange'' error
            ([(''handshake'', V_Dict handshake), (''responses'', V_Dict (responses_summary (xc_responses x)))]
             @ session_summary (xc_session x))))"

definition validation_summary :: "hardware_config \<Rightarrow> pydict \<Rightarrow> 'w exchange \<Rightarrow> pydict" where
  "validation_summary config handshake x =
     dict_update
       (config_dict config @
        [(''handshake'', V_Dict handshake),
         (''normal_exchange'', V_Dict
            [(''sensor_frames_sent'', V_Int (int NORMAL_FRAME_COUNT)),
             (''frame_period_ms'', V_Int (frame_period_in 0x408F400000000000)),
             (''responses'', V_Dict (responses_summary (xc_responses x)))])])
       (session_summary (xc_session x))"

section \<open>Watchdog\<close>

record 'w watchdog =
  wd_session :: "'w host_session"
  wd_evidence :: "string list"
  wd_observed_ms :: "int option"

definition watchdog_clock :: "'w hardware_env \<Rightarrow> 'w watchdog \<Rightarrow> f64 \<times> 'w watchdog" where
  "watchdog_clock env x = (case sess_clock env (wd_session x) of (t, s) \<Rightarrow> (t, x\<lparr>wd_session := s\<rparr>))"

text \<open>The events of a poll that came late enough are searched for evidence of a safe stop.\<close>

definition note_evidence :: "f64 \<Rightarrow> session_event list \<Rightarrow> ('w watchdog, unit) meth" where
  "note_evidence elapsed_s events x =
     (let evidence = safe_stop_evidence events (int NORMAL_FRAME_COUNT)
      in if evidence \<noteq> [] \<and> wd_observed_ms x = None then
           (case int_of_float (fmul elapsed_s 0x408F400000000000) of
              Inl e \<Rightarrow> (Inl e, x)
            | Inr n \<Rightarrow> (Inr (), x\<lparr>wd_observed_ms := Some n, wd_evidence := wd_evidence x @ evidence\<rparr>))
         else (Inr (), x\<lparr>wd_evidence := wd_evidence x @ evidence\<rparr>))"

definition watchdog_poll :: "'w hardware_env \<Rightarrow> f64 \<Rightarrow> ('w watchdog, session_event list) meth" where
  "watchdog_poll env started x =
     (case poll_now env started (wd_session x) of (r, s) \<Rightarrow> (r, x\<lparr>wd_session := s\<rparr>))"

definition watchdog_body ::
  "'w hardware_env \<Rightarrow> f64 \<Rightarrow> f64 \<Rightarrow> ('w watchdog, unit option) meth" where
  "watchdog_body env started quiet_started x =
     (case watchdog_clock env x of (t, x1) \<Rightarrow>
        let elapsed_s = fsub t quiet_started in
        bindM (watchdog_poll env started) (\<lambda>events.
          bindM (if fle WATCHDOG_MINIMUM_S elapsed_s then note_evidence elapsed_s events else returnM ())
            (\<lambda>_ x2. case watchdog_clock env x2 of (t2, x3) \<Rightarrow>
               (Inr None, x3\<lparr>wd_session := sess_sleep env
                  (fmin POLL_PERIOD_S (fmax 0 (fsub WATCHDOG_QUIET_S (fsub t2 quiet_started)))) (wd_session x3)\<rparr>))) x1)"

definition watchdog_watch :: "'w hardware_env \<Rightarrow> f64 \<Rightarrow> f64 \<Rightarrow> ('w watchdog, unit) run" where
  "watchdog_watch env started quiet_started =
     bindL (clock_loop (watchdog_clock env) (\<lambda>t x. flt (fsub t quiet_started) WATCHDOG_QUIET_S)
              (watchdog_body env started quiet_started)) (\<lambda>_ x.
       (case watchdog_clock env x of (t, x1) \<Rightarrow>
          let elapsed_s = fsub t quiet_started in
          if fle WATCHDOG_MINIMUM_S elapsed_s then
            liftL (bindM (watchdog_poll env started) (note_evidence elapsed_s)) x1
          else Some (Inr (), x1)))"

definition watchdog_dict :: "int option \<Rightarrow> string list \<Rightarrow> pydict" where
  "watchdog_dict observed evidence =
     [(''quiet_period_ms'', V_Int (case int_of_float (fmul WATCHDOG_QUIET_S 0x408F400000000000) of
          Inr n \<Rightarrow> n | Inl _ \<Rightarrow> 0)),
      (''observed_after_ms'', optional_int observed),
      (''evidence'', V_List (map V_Str (sorted_set evidence)))]"

definition watchdog_phase ::
  "'w hardware_env \<Rightarrow> f64 \<Rightarrow> f64 \<Rightarrow> pydict \<Rightarrow> ('w watchdog, hardware_validation_result) run" where
  "watchdog_phase env started quiet_started summary =
     catchL
       (bindL (watchdog_watch env started quiet_started) (\<lambda>_ x.
          if wd_evidence x = [] then
            Some (Inr (hw_failure HX_WATCHDOG_FAILED ''watchdog_check''
                ''SAFE_STOP was not proven after 600 ms without sensor traffic''
                ((''watchdog'', V_Dict (watchdog_dict None [])) # summary)), x)
          else
            Some (Inr \<lparr>hr_exit_code = HX_SUCCESS, hr_phase = ''complete'',
                hr_message = ''handshake, normal exchange, and watchdog SAFE_STOP verified'',
                hr_summary = dict_update
                  (dict_set ''watchdog'' (V_Dict (watchdog_dict (wd_observed_ms x) (wd_evidence x))) summary)
                  (session_summary (wd_session x))\<rparr>, x)))
       session_caught
       (\<lambda>e x. Some (Inr (hw_failure HX_WATCHDOG_FAILED ''watchdog_check'' (he_text env e) summary), x))"

section \<open>The whole validation\<close>

definition zoom :: "('s \<Rightarrow> 't) \<Rightarrow> (('a result \<times> 's) option) \<Rightarrow> ('a result \<times> 't) option" where
  "zoom f r = map_option (\<lambda>(v, s). (v, f s)) r"

definition after_handshake ::
  "'w hardware_env \<Rightarrow> hardware_config \<Rightarrow> f64 \<Rightarrow> ('w host_session, hardware_validation_result) run" where
  "after_handshake env config started s =
     (let handshake = handshake_dict s in
      case sess_clock env s of (t, s1) \<Rightarrow>
        zoom xc_session
          (bindL (exchange_phase env started handshake) (\<lambda>failed x.
             (case failed of
                Some result \<Rightarrow> Some (Inr result, x)
              | None \<Rightarrow>
                  (case exchange_verdict handshake x of
                     Some result \<Rightarrow> Some (Inr result, x)
                   | None \<Rightarrow>
                       let summary = validation_summary config handshake x in
                       if \<not> hw_watchdog_check config then
                         Some (Inr \<lparr>hr_exit_code = HX_SUCCESS, hr_phase = ''complete'',
                            hr_message = ''handshake and normal binary exchange verified'',
                            hr_summary = summary\<rparr>, x)
                       else
                         zoom (\<lambda>w. x\<lparr>xc_session := wd_session w\<rparr>)
                           (watchdog_phase env started (xc_last_sensor_sent_s x) summary
                              \<lparr>wd_session = xc_session x, wd_evidence = [], wd_observed_ms = None\<rparr>))))
             \<lparr>xc_session = s1, xc_responses = ResponseAccumulator, xc_last_sensor_sent_s = t\<rparr>))"

definition validate_transport ::
  "'w hardware_env \<Rightarrow> hardware_config \<Rightarrow> ('w, hardware_validation_result) run" where
  "validate_transport env config w =
     (case he_clock env w of (started, w1) \<Rightarrow>
        (case bindR (SessionConfig SESSION_TIMEOUT_MS 32 4096 SUPPORTED_CAPABILITIES) (HostSession w1) of
           Inl e \<Rightarrow> Some (Inl e, w1)
         | Inr session \<Rightarrow>
             zoom sn_transport
               (bindL (handshake_phase env config started) (\<lambda>failed s.
                  (case failed of
                     Some result \<Rightarrow> Some (Inr result, s)
                   | None \<Rightarrow> after_handshake env config started s)) session)))"

section \<open>Entry points\<close>

definition io_caught :: "py_exn \<Rightarrow> bool" where
  "io_caught e \<longleftrightarrow> e = OSError \<or> e = TransportError \<or> e = TypeError \<or> is_ValueError e"

text \<open>The check of the delay: \<^verbatim>\<open>math.isfinite\<close> converts an int to a float first.\<close>

fun startup_delay_refused :: "pyobj \<Rightarrow> bool result" where
  "startup_delay_refused (PInt n) = bindR (float_of_int n) (\<lambda>_. Inr (n < 0 \<or> 30 < n))"
| "startup_delay_refused (PFloat x) = Inr (\<not> isfinite x \<or> flt x 0 \<or> flt 0x403E000000000000 x)"
| "startup_delay_refused _ = Inr True"

fun startup_delay_positive :: "pyobj \<Rightarrow> bool" where
  "startup_delay_positive (PInt n) \<longleftrightarrow> 0 < n"
| "startup_delay_positive (PFloat x) \<longleftrightarrow> flt 0 x"
| "startup_delay_positive _ \<longleftrightarrow> False"

definition prepare_port :: "'w hardware_env \<Rightarrow> hardware_config \<Rightarrow> ('w, unit) meth" where
  "prepare_port env config w =
     (let w1 = (if startup_delay_positive (hw_startup_delay_s config)
                then he_sleep env (hw_startup_delay_s config) w else w)
      in case he_reset_input env of None \<Rightarrow> (Inr (), w1) | Some reset \<Rightarrow> reset w1)"

definition port_dict :: "hardware_config \<Rightarrow> pydict" where
  "port_dict config = [(''port'', V_Str (hw_port config)), (''baud'', V_Int (hw_baud config))]"

text \<open>What both entry points do with an open port; \<open>exit_code\<close> and \<open>phase\<close> are those of an exception.\<close>

definition with_port ::
  "'w hardware_env \<Rightarrow> hardware_config \<Rightarrow> hardware_exit_code \<Rightarrow> string
     \<Rightarrow> ('w, hardware_validation_result) run \<Rightarrow> ('w, hardware_validation_result) run" where
  "with_port env config exit_code phase validation =
     finallyL
       (catchL
          (bindL (liftL (prepare_port env config)) (\<lambda>_. validation))
          io_caught
          (\<lambda>e w. Some (Inr (hw_failure exit_code phase (he_text env e) (config_dict config)), w)))
       (bt_close (he_ops env))"

definition open_port ::
  "'w hardware_env \<Rightarrow> hardware_config \<Rightarrow> ('w, hardware_validation_result option) run" where
  "open_port env config =
     catchL
       (liftL (bindM (liftM (SerialConfig (hw_port config) (hw_baud config)))
          (\<lambda>c. bindM (he_open env c) (\<lambda>_. returnM None))))
       io_caught
       (\<lambda>e w. Some (Inr (Some (hw_failure HX_PORT_OPEN_FAILED ''port_open'' (he_text env e) (port_dict config))), w))"

definition startup_delay_message :: string where
  "startup_delay_message = ''startup delay must be finite and between 0 and 30 seconds''"

definition run_physical_validation ::
  "'w hardware_env \<Rightarrow> hardware_config \<Rightarrow> ('w, hardware_validation_result) run" where
  "run_physical_validation env config =
     bindL (liftL (liftM (startup_delay_refused (hw_startup_delay_s config)))) (\<lambda>refused w.
       if refused then
         Some (Inr (hw_failure HX_PORT_OPEN_FAILED ''port_open'' startup_delay_message (port_dict config)), w)
       else
         bindL (open_port env config) (\<lambda>failed.
           (case failed of
              Some result \<Rightarrow> (\<lambda>w. Some (Inr result, w))
            | None \<Rightarrow> with_port env config HX_PORT_OPEN_FAILED ''port_prepare''
                        (validate_transport env config))) w)"

definition run_serial_diagnostic ::
  "'w hardware_env \<Rightarrow> hardware_config \<Rightarrow> string \<Rightarrow> ('w, hardware_validation_result) run" where
  "run_serial_diagnostic env config mode =
     (if mode \<noteq> ''usb'' \<and> mode \<noteq> ''protocol'' then
        (\<lambda>w. Some (Inr (hw_failure HX_DIAGNOSTIC_FAILED ''diagnostic''
            (''diagnostic mode must be '' @ CHR 0x27 # ''usb'' @ CHR 0x27 # '' or '' @ CHR 0x27 # ''protocol'' @ [CHR 0x27])
            []), w))
      else
        bindL (liftL (liftM (startup_delay_refused (hw_startup_delay_s config)))) (\<lambda>refused w.
          if refused then
            Some (Inr (hw_failure HX_PORT_OPEN_FAILED ''port_open'' startup_delay_message []), w)
          else
            bindL (open_port env config) (\<lambda>failed.
              (case failed of
                 Some result \<Rightarrow> (\<lambda>w. Some (Inr result, w))
               | None \<Rightarrow> with_port env config HX_DIAGNOSTIC_FAILED ''diagnostic''
                           (validate_serial_diagnostic env config mode))) w))"

end
