(* ===== verification/Hardware_Laws.thy ===== *)
theory Hardware_Laws
  imports Hardware_Validation
begin

text \<open>
  What the verdicts of the hardware runs rest on, whatever the transport, the clock and the board
  do: which exceptions can leave a run, what a success reports, which phase a failure names.
\<close>

section \<open>Loops that wait for the clock\<close>

lemma clock_loop_returns:
  assumes step: "\<And>k s t s1 s2. J k s \<Longrightarrow> clock s = (t, s1) \<Longrightarrow> guard t s1 \<Longrightarrow> body s1 = (Inr None, s2) \<Longrightarrow>
      0 < k \<and> J (k - 1 :: nat) s2"
  shows "J k s \<Longrightarrow> clock_loop clock guard body s \<noteq> None"
proof (induction k arbitrary: s rule: less_induct)
  case (less k)
  obtain t s1 where c: "clock s = (t, s1)" by fastforce
  obtain r s2 where b: "body s1 = (r, s2)" by fastforce
  show ?case
  proof (cases "guard t s1 \<and> r = Inr None")
    case True
    then have "0 < k" "J (k - 1) s2" using step [OF less.prems c] b by auto
    with less.IH [of "k - 1" s2] have "clock_loop clock guard body s2 \<noteq> None" by simp
    with True c b show ?thesis by (simp add: clock_loop.simps [of clock guard body s])
  next
    case False
    with c b show ?thesis
      by (auto simp: clock_loop.simps [of clock guard body s] split: sum.split option.split)
  qed
qed

text \<open>Every outcome of a loop comes from its body, or from its guard failing in a state of the invariant.\<close>

lemma clock_loop_outcomes:
  assumes clock: "\<And>s t s1. P s \<Longrightarrow> clock s = (t, s1) \<Longrightarrow> P s1"
    and body: "\<And>s. P s \<Longrightarrow> case body s of
        (Inl e, s2) \<Rightarrow> E e s2 | (Inr (Some x), s2) \<Rightarrow> Q (Some x) s2 | (Inr None, s2) \<Rightarrow> P s2"
    and exit: "\<And>s t. P s \<Longrightarrow> \<not> guard t s \<Longrightarrow> Q None s"
  shows "P s \<Longrightarrow> outcomes (clock_loop clock guard body s) Q E"
proof -
  let ?ok = "\<lambda>c g b s y. c = clock \<longrightarrow> g = guard \<longrightarrow> b = body \<longrightarrow> P s \<longrightarrow>
      (case y of (Inr v, t) \<Rightarrow> Q v t | (Inl e, t) \<Rightarrow> E e t)"
  have "?ok clock guard body s y" if "clock_loop clock guard body s = Some y" for y
  proof (rule clock_loop.raw_induct [of ?ok, OF _ that], intro impI, goal_cases)
    case (1 loop c g b s y)
    obtain t s1 where c: "clock s = (t, s1)" by fastforce
    obtain r s2 where b: "body s1 = (r, s2)" by fastforce
    from clock [OF \<open>P s\<close> c] have P1: "P s1" .
    from 1(1) [of clock guard body s2 y]
    have loop: "loop clock guard body s2 = Some y \<Longrightarrow> P s2 \<Longrightarrow> case y of (Inr v, t) \<Rightarrow> Q v t | (Inl e, t) \<Rightarrow> E e t"
      by simp
    from body [OF P1] b 1(2-) c exit [OF P1, of t] loop show ?case
      by (auto split: if_splits sum.splits option.splits)
  qed
  then show "P s \<Longrightarrow> ?thesis" by (auto simp: outcomes_def split: option.split sum.split)
qed

section \<open>The serial diagnostic\<close>

definition status_proven :: "diagnostic_status \<Rightarrow> bool" where
  "status_proven s \<longleftrightarrow> dg_tx_proven s = dg_beacon_seen s"

lemma poll_diagnostic_law:
  "poll_diagnostic env n s = (r, s') \<Longrightarrow> status_proven (dx_status s) \<Longrightarrow>
     diagnostic_grows (dx_status s) (dx_status s') \<and> status_proven (dx_status s')"
proof (induction n arbitrary: s)
  case (Suc n)
  obtain q w where q: "bt_read (he_ops env) 512 (dx_world s) = (q, w)" by fastforce
  define f p where "f = (\<lambda>d. fst (feed d (dx_parser s)))" and "p = (\<lambda>d. snd (feed d (dx_parser s)))"
  then have f: "feed d (dx_parser s) = (f d, p d)" for d by simp
  show ?case
  proof (cases "\<exists>d b. q = Inr d \<and> d \<noteq> [] \<and> f d = Inr b")
    case False
    with q f Suc.prems show ?thesis by (auto split: sum.splits if_splits)
  next
    case True
    then obtain d b where d: "q = Inr d" "d \<noteq> []" "f d = Inr b" by blast
    obtain t where t: "diagnostic_packets (pb_packets b) (dx_status s) = (Inr (), t)"
      "diagnostic_grows (dx_status s) t" "status_proven t"
      using diagnostic_packets_law [of "pb_packets b" "dx_status s"] Suc.prems(2) by (auto simp: status_proven_def)
    with Suc.prems q f d
    have "poll_diagnostic env n (s\<lparr>dx_world := w, dx_parser := p d, dx_status := t\<rparr>) = (r, s')" by simp
    from Suc.IH [OF this] t diagnostic_grows_trans show ?thesis by auto
  qed
qed simp

text \<open>What holds from the first poll on, and the state that later loops start from.\<close>

definition dx_from :: "diagnostic_status \<Rightarrow> 'w diagnosis \<Rightarrow> bool" where
  "dx_from base s \<longleftrightarrow> diagnostic_grows base (dx_status s) \<and> status_proven (dx_status s)"

lemma dx_from_poll: "poll_diagnostic env n s = (r, s') \<Longrightarrow> dx_from base s \<Longrightarrow> dx_from base s'"
  unfolding dx_from_def using poll_diagnostic_law diagnostic_grows_trans by blast

lemma dx_from_world [simp]: "dx_from base (s\<lparr>dx_world := w\<rparr>) = dx_from base s"
  by (simp add: dx_from_def)

lemma dx_from_clock: "dx_from base s \<Longrightarrow> dx_clock env s = (t, s') \<Longrightarrow> dx_from base s'"
  by (auto simp: dx_clock_def split: prod.splits)

lemma dx_from_sleep [simp]: "dx_from base (dx_sleep env d s) = dx_from base s"
  by (simp add: dx_sleep_def)

lemma write_all_outcomes: "dx_from base s \<Longrightarrow> outcomes (write_all env data s) (\<lambda>_. dx_from base) (\<lambda>_ _. True)"
  by (auto simp: write_all_def outcomes_def split: prod.split option.split sum.split)

lemma beacon_loop_outcomes:
  "dx_from base s \<Longrightarrow> outcomes (beacon_loop env due s) (\<lambda>_. dx_from base) (\<lambda>_ _. True)"
  unfolding beacon_loop_def
proof (rule clock_loop_outcomes [where P = "dx_from base"])
  fix s :: "'a diagnosis"
  assume s: "dx_from base s"
  obtain r s2 where p: "poll_diagnostic env 32 s = (r, s2)" by fastforce
  with s show "case beacon_body env s of (Inl e, s2) \<Rightarrow> True | (Inr (Some x), s2) \<Rightarrow> dx_from base s2
      | (Inr None, s2) \<Rightarrow> dx_from base s2"
    by (auto simp: beacon_body_def bindM_def dest: dx_from_poll split: sum.split)
qed (auto dest: dx_from_clock)

text \<open>The two verdicts of success.\<close>

lemma usb_loop_outcomes:
  "dx_from base s \<Longrightarrow> outcomes (usb_loop env config mode rx errors due s)
     (\<lambda>r s'. case r of None \<Rightarrow> True | Some v \<Rightarrow> \<exists>p st. v = diagnostic_success config mode p st
        \<and> diagnostic_grows base st \<and> status_proven st \<and> rx + 2 \<le> dg_serial_rx_bytes st \<and> errors < dg_parser_errors st)
     (\<lambda>_ _. True)"
  unfolding usb_loop_def
proof (rule clock_loop_outcomes [where P = "dx_from base"])
  fix s :: "'a diagnosis"
  assume s: "dx_from base s"
  obtain r s2 where p: "poll_diagnostic env 32 s = (r, s2)" by fastforce
  then have "dx_from base s2" using s by (rule dx_from_poll)
  with p show "case usb_body env config mode rx errors s of (Inl e, s2) \<Rightarrow> True
      | (Inr (Some x), s2) \<Rightarrow> (case Some x of None \<Rightarrow> True | Some v \<Rightarrow> \<exists>p st. v = diagnostic_success config mode p st
        \<and> diagnostic_grows base st \<and> status_proven st \<and> rx + 2 \<le> dg_serial_rx_bytes st \<and> errors < dg_parser_errors st)
      | (Inr None, s2) \<Rightarrow> dx_from base s2"
    by (auto simp: usb_body_def bindM_def dx_from_def DIAGNOSTIC_USB_PROBE_def dx_sleep_def split: sum.split)
qed (auto dest: dx_from_clock)

lemma hello_loop_outcomes:
  "dx_from base (fst x) \<Longrightarrow> outcomes (hello_loop env config mode rx frames snapshot due x)
     (\<lambda>r _. case r of None \<Rightarrow> True | Some v \<Rightarrow> \<exists>p st. v = diagnostic_success config mode p st
        \<and> diagnostic_grows base st \<and> status_proven st \<and> host_parser_error_snapshot p = snapshot
        \<and> diagnostic_hello_error (dg_hello_ack st) st rx frames = None)
     (\<lambda>_ _. True)"
  unfolding hello_loop_def
proof (rule clock_loop_outcomes [where P = "\<lambda>x. dx_from base (fst x)"])
  fix x :: "'a diagnosis \<times> string"
  assume s: "dx_from base (fst x)"
  obtain s0 l where x: "x = (s0, l)" by fastforce
  obtain r s2 where p: "poll_diagnostic env 32 s0 = (r, s2)" by fastforce
  with s x have "dx_from base s2" using dx_from_poll by (metis fst_conv)
  with p x show "case hello_body env config mode rx frames snapshot x of (Inl e, s2) \<Rightarrow> True
      | (Inr (Some x), s2) \<Rightarrow> (case Some x of None \<Rightarrow> True | Some v \<Rightarrow> \<exists>p st. v = diagnostic_success config mode p st
        \<and> diagnostic_grows base st \<and> status_proven st \<and> host_parser_error_snapshot p = snapshot
        \<and> diagnostic_hello_error (dg_hello_ack st) st rx frames = None)
      | (Inr None, s2) \<Rightarrow> dx_from base (fst s2)"
    by (auto simp: hello_body_def dx_from_def dx_sleep_def Let_def split: sum.split option.split)
qed (auto dest: dx_from_clock split: prod.splits)

text \<open>
  The verdict of a diagnostic: a success carries the status it rests on. In usb mode the firmware
  counted the probe and its parser refused it; in protocol mode it accepted exactly one HELLO, sent
  exactly one response and the host decoded a compatible acknowledgement.
\<close>

definition usb_path_proven :: "diagnostic_status \<Rightarrow> bool" where
  "usb_path_proven s \<longleftrightarrow> 2 \<le> dg_serial_rx_bytes s \<and> 0 < dg_parser_errors s"

definition protocol_path_proven :: "diagnostic_status \<Rightarrow> bool" where
  "protocol_path_proven s \<longleftrightarrow>
     dg_hello_result s = 1 \<and> dg_parser_status s = 0 \<and> dg_hello_packets s = 1
     \<and> 1 \<le> dg_parser_frames_received s \<and> 1 \<le> dg_serial_rx_bytes s
     \<and> dg_response_frames_created s = 1 \<and> dg_response_frames_dropped s = 0 \<and> dg_response_frames_pending s = 0
     \<and> (case dg_hello_ack s of None \<Rightarrow> False
        | Some a \<Rightarrow> ack_status a = HS_OK \<and> ack_accepted_version a = PROTOCOL_VERSION
            \<and> ack_role a = ROLE_CONTROLLER \<and> 116 \<le> ack_max_payload a \<and> ack_heartbeat_timeout_ms a = 500
            \<and> ack_capabilities a AND SUPPORTED_CAPABILITIES = SUPPORTED_CAPABILITIES)"

definition diagnostic_verdict :: "hardware_config \<Rightarrow> string \<Rightarrow> hardware_validation_result \<Rightarrow> bool" where
  "diagnostic_verdict config mode r \<longleftrightarrow>
     (if hr_succeeded r then
        \<exists>p st. r = diagnostic_success config mode p st \<and> dg_beacon_seen st \<and> dg_tx_proven st
          \<and> (if mode = ''usb'' then usb_path_proven st else protocol_path_proven st)
      else hr_exit_code r = HX_DIAGNOSTIC_FAILED \<and> hr_phase r = ''diagnostic_'' @ mode)"

lemma diagnostic_failure_verdict [simp]:
  "diagnostic_verdict config mode (diagnostic_failure config mode message p s)"
  by (simp add: diagnostic_verdict_def diagnostic_failure_def hw_failure_def hr_succeeded_def)

lemma hello_error_None:
  assumes "diagnostic_hello_error (dg_hello_ack s) s rx frames = None" "1 \<le> rx" "1 \<le> frames"
  shows "protocol_path_proven s"
  using assms unfolding diagnostic_hello_error_def
  by (auto simp: protocol_path_proven_def SESSION_TIMEOUT_MS_def split: if_splits option.splits)

lemma success_verdict:
  assumes "dg_beacon_seen base" "diagnostic_grows base st" "status_proven st"
    "if mode = ''usb'' then usb_path_proven st else protocol_path_proven st"
  shows "diagnostic_verdict config mode (diagnostic_success config mode p st)"
proof -
  have "dg_beacon_seen st" "dg_tx_proven st"
    using assms(1-3) by (auto simp: diagnostic_grows_def status_proven_def)
  with assms(4) show ?thesis
    unfolding diagnostic_verdict_def
    by (intro iffD2 [OF if_P] exI [of _ p] exI [of _ st]) (auto simp: diagnostic_success_def hr_succeeded_def)
qed

lemma usb_diagnostic_outcomes:
  assumes "dx_from DiagnosticStatus s" "dg_beacon_seen (dx_status s)" "mode = ''usb''"
  shows "outcomes (usb_diagnostic env config mode s) (\<lambda>r _. diagnostic_verdict config mode r) (\<lambda>_ _. True)"
  unfolding usb_diagnostic_def
proof (rule outcomes_bindL, rule outcomes_mono [OF write_all_outcomes [where base = "dx_status s"]], goal_cases)
  case 1
  show "dx_from (dx_status s) s" using assms(1) by (simp add: dx_from_def)
next
  case (2 v s1)
  have base: "0 \<le> dg_serial_rx_bytes (dx_status s)" "0 \<le> dg_parser_errors (dx_status s)"
    using assms(1) by (simp_all add: dx_from_def diagnostic_grows_def DiagnosticStatus_def)
  obtain t s2 where c: "dx_clock env s1 = (t, s2)" by fastforce
  with 2 have "dx_from (dx_status s) s2" by (rule dx_from_clock)
  from usb_loop_outcomes [OF this] show ?case unfolding c prod.case
    by (rule outcomes_bindL [OF outcomes_mono])
      (use base in \<open>auto intro!: success_verdict [OF assms(2)] simp: assms(3) usb_path_proven_def
        split: option.split_asm option.split\<close>)
qed simp

lemma protocol_diagnostic_outcomes:
  assumes "dx_from DiagnosticStatus s" "dg_beacon_seen (dx_status s)" "mode \<noteq> ''usb''"
  shows "outcomes (protocol_diagnostic env config mode s) (\<lambda>r _. diagnostic_verdict config mode r) (\<lambda>_ _. True)"
proof (cases "bindR (make_packet MT_HELLO 0 0 diagnostic_hello) encode_packet")
  case (Inr frame)
  have base: "0 \<le> dg_serial_rx_bytes (dx_status s)" "0 \<le> dg_parser_frames_received (dx_status s)"
    using assms(1) by (simp_all add: dx_from_def diagnostic_grows_def DiagnosticStatus_def)
  have "frame \<noteq> []" using Inr by (auto simp: bindR_def encode_packet_Inr split: sum.splits)
  then have "1 \<le> int (length frame)" by (cases frame) simp_all
  with base have minimum: "1 \<le> dg_serial_rx_bytes (dx_status s) + int (length frame)"
    "1 \<le> dg_parser_frames_received (dx_status s) + 1" by simp_all
  show ?thesis unfolding protocol_diagnostic_def Inr sum.case
  proof (rule outcomes_bindL, rule outcomes_mono [OF write_all_outcomes [where base = "dx_status s"]], goal_cases)
    case 1
    show "dx_from (dx_status s) s" using assms(1) by (simp add: dx_from_def)
  next
    case (2 v s1)
    obtain t s2 where c: "dx_clock env s1 = (t, s2)" by fastforce
    with 2 have "dx_from (dx_status s) (fst (s2, l))" for l :: string using dx_from_clock by fastforce
    from hello_loop_outcomes [OF this, of env config mode "dg_serial_rx_bytes (dx_status s) + int (length frame)"
        "dg_parser_frames_received (dx_status s) + 1" "host_parser_error_snapshot (dx_parser s)"
        "fadd t DIAGNOSTIC_DEADLINE_S" "''HELLO parse result and HELLO_ACK were not both observed''"]
    show ?case unfolding c prod.case outcomes_def
      by (auto intro!: success_verdict [OF assms(2)] hello_error_None [OF _ minimum] simp: assms(3)
          split: option.split_asm option.split sum.split_asm sum.split)
  qed simp
qed (simp add: protocol_diagnostic_def)

lemma diagnose_outcomes:
  assumes "dx_status s = DiagnosticStatus"
  shows "outcomes (diagnose env config mode s) (\<lambda>r _. diagnostic_verdict config mode r) (\<lambda>_ _. True)"
proof -
  obtain t s1 where c: "dx_clock env s = (t, s1)" by fastforce
  have "dx_from DiagnosticStatus s"
    by (simp add: dx_from_def assms status_proven_def) (simp add: DiagnosticStatus_def)
  then have "dx_from DiagnosticStatus s1" using c by (rule dx_from_clock)
  from beacon_loop_outcomes [OF this] show ?thesis unfolding diagnose_def c prod.case
    by (rule outcomes_bindL [OF outcomes_mono]) (auto intro: usb_diagnostic_outcomes protocol_diagnostic_outcomes)
qed


section \<open>The validation of a transport\<close>

text \<open>A value of a report, by its path.\<close>

fun report_field :: "string list \<Rightarrow> pydict \<Rightarrow> pyval option" where
  "report_field [] d = Some (V_Dict d)"
| "report_field [k] d = dict_get k d"
| "report_field (k # ks) d =
     (case dict_get k d of Some (V_Dict e) \<Rightarrow> report_field ks e | _ \<Rightarrow> None)"

text \<open>What the report of a successful validation shows.\<close>

definition exchange_proven :: "pydict \<Rightarrow> bool" where
  "exchange_proven d \<longleftrightarrow>
     report_field [''normal_exchange'', ''responses'', ''last_control_command'', ''mode''] d
       \<in> {Some (V_Str ''NEUTRAL''), Some (V_Str ''TRACKING'')}
     \<and> report_field [''normal_exchange'', ''responses'', ''last_state_estimate'', ''navigation_mode''] d
       = Some (V_Str ''GNSS_AIDED'')
     \<and> report_field [''normal_exchange'', ''responses'', ''last_health_status'', ''runtime_state''] d
       = Some (V_Str ''RUNNING'')
     \<and> report_field [''normal_exchange'', ''sensor_frames_sent''] d = Some (V_Int 10)
     \<and> report_field [''normal_exchange'', ''frame_period_ms''] d = Some (V_Int 20)"

definition link_clean :: "pydict \<Rightarrow> bool" where
  "link_clean d \<longleftrightarrow>
     report_field [''parser_statistics'', ''cobs_errors''] d = Some (V_Int 0)
     \<and> report_field [''parser_statistics'', ''crc_errors''] d = Some (V_Int 0)
     \<and> report_field [''parser_statistics'', ''length_errors''] d = Some (V_Int 0)
     \<and> report_field [''parser_statistics'', ''oversized_frames''] d = Some (V_Int 0)
     \<and> report_field [''parser_statistics'', ''truncated_frames''] d = Some (V_Int 0)
     \<and> report_field [''session_statistics'', ''rx_payload_errors''] d = Some (V_Int 0)
     \<and> report_field [''session_statistics'', ''rx_rejected''] d = Some (V_Int 0)"

definition watchdog_proven :: "pydict \<Rightarrow> bool" where
  "watchdog_proven d \<longleftrightarrow>
     (case report_field [''watchdog'', ''observed_after_ms''] d of Some (V_Int n) \<Rightarrow> 500 \<le> n | _ \<Rightarrow> False)
     \<and> report_field [''watchdog'', ''evidence''] d
       \<in> {Some (V_List [V_Str ''CONTROL_COMMAND.mode=SAFE_STOP'']),
          Some (V_List [V_Str ''HEALTH_STATUS.runtime_state=SAFE_STOP'']),
          Some (V_List [V_Str ''CONTROL_COMMAND.mode=SAFE_STOP'', V_Str ''HEALTH_STATUS.runtime_state=SAFE_STOP''])}"

definition validation_verdict :: "hardware_config \<Rightarrow> hardware_validation_result \<Rightarrow> bool" where
  "validation_verdict config r =
     (case hr_exit_code r of
        HX_SUCCESS \<Rightarrow> hr_phase r = ''complete'' \<and> exchange_proven (hr_summary r)
          \<and> (if hw_watchdog_check config then watchdog_proven (hr_summary r) else link_clean (hr_summary r))
      | HX_HANDSHAKE_FAILED \<Rightarrow> hr_phase r = ''handshake''
      | HX_EXCHANGE_FAILED \<Rightarrow> hr_phase r = ''normal_exchange''
      | HX_WATCHDOG_FAILED \<Rightarrow> hr_phase r = ''watchdog_check'' \<and> hw_watchdog_check config
      | _ \<Rightarrow> False)"

definition uncaught :: "py_exn \<Rightarrow> 'w \<Rightarrow> bool" where
  "uncaught e w \<longleftrightarrow> \<not> session_caught e"

lemma handshake_failure_verdict [simp]: "validation_verdict config (handshake_failure config message s)"
  by (simp add: validation_verdict_def handshake_failure_def hw_failure_def)

lemma handshake_loop_outcomes:
  "outcomes (handshake_loop env config started due s)
     (\<lambda>r _. case r of Some (Some v) \<Rightarrow> validation_verdict config v | _ \<Rightarrow> True) (\<lambda>_ _. True)"
  unfolding handshake_loop_def
  by (rule clock_loop_outcomes [where P = "\<lambda>_. True"])
    (auto simp: handshake_body_def bindM_def split: prod.split sum.split option.split)

lemma handshake_phase_outcomes:
  "outcomes (handshake_phase env config started s)
     (\<lambda>r s'. case r of Some v \<Rightarrow> validation_verdict config v | None \<Rightarrow> sn_state s' = ST_ACTIVE) uncaught"
proof -
  let ?Q = "\<lambda>r s'. case r of Some v \<Rightarrow> validation_verdict config v | None \<Rightarrow> sn_state s' = ST_ACTIVE"
  have body: "outcomes (bindL (handshake_loop env config started due) (\<lambda>r s.
               (case r of
                  Some (Some failure) \<Rightarrow> Some (Inr (Some failure), s)
                | _ \<Rightarrow>
                    if sn_state s \<noteq> ST_ACTIVE then
                      Some (Inr (Some (handshake_failure config
                        ''compatible HELLO_ACK was not received before the deadline'' s)), s)
                    else Some (Inr None, s))) s) ?Q (\<lambda>_ _. True)" for due s
    by (rule outcomes_bindL, rule outcomes_mono [OF handshake_loop_outcomes])
      (auto split: option.split option.split_asm)
  show ?thesis
    unfolding handshake_phase_def
    by (intro outcomes_catchL outcomes_bindL)
      (auto simp: outcomes_Some uncaught_def intro!: outcomes_mono [OF body] split: prod.split sum.split)
qed

lemma exchange_failure_verdict [simp]: "validation_verdict config (exchange_failure handshake x message)"
  by (simp add: validation_verdict_def exchange_failure_def hw_failure_def)

lemma exchange_phase_outcomes:
  "outcomes (exchange_phase env started handshake x)
     (\<lambda>r _. case r of Some v \<Rightarrow> validation_verdict config v | None \<Rightarrow> True) uncaught"
proof -
  have steps: "outcomes (bindL (exchange_steps env started ns) (\<lambda>r x.
            (case r of
               Some error \<Rightarrow> Some (Inr (Some (exchange_failure handshake x error)), x)
             | None \<Rightarrow> Some (Inr None, x))) x)
       (\<lambda>r _. case r of Some v \<Rightarrow> validation_verdict config v | None \<Rightarrow> True) (\<lambda>_ _. True)" for ns x
    by (rule outcomes_bindL, rule outcomes_any) (simp_all split: option.split)
  show ?thesis
    unfolding exchange_phase_def
    by (intro outcomes_catchL outcomes_bindL)
      (auto simp: outcomes_Some uncaught_def intro!: outcomes_mono [OF steps] split: prod.split sum.split)
qed

text \<open>A clean exchange is what the verdict demands, and its report says so.\<close>

lemma normal_exchange_None:
  assumes "normal_exchange_error s r = None"
  shows "\<exists>c e h. ra_command r = Some c \<and> cc_mode c \<noteq> CM_SAFE_STOP
    \<and> ra_estimate r = Some e \<and> se_navigation_mode e = NM_GNSS_AIDED
    \<and> ra_health r = Some h \<and> hs_runtime_state h = RS_RUNNING"
  and "ps_cobs_errors (sp_stats (sn_parser s)) = 0" "ps_crc_errors (sp_stats (sn_parser s)) = 0"
    "ps_length_errors (sp_stats (sn_parser s)) = 0" "ps_oversized_frames (sp_stats (sn_parser s)) = 0"
    "ps_truncated_frames (sp_stats (sn_parser s)) = 0" "sx_rx_payload_errors (sn_stats s) = 0"
    "sx_rx_rejected (sn_stats s) = 0"
  using assms unfolding normal_exchange_error_def
  by (auto simp: Let_def split: option.splits if_splits)

lemma summary_fields:
  "dict_get ''normal_exchange'' (validation_summary config handshake x) = Some (V_Dict
     [(''sensor_frames_sent'', V_Int 10), (''frame_period_ms'', V_Int 20),
      (''responses'', V_Dict (responses_summary (xc_responses x)))])"
  "dict_get ''parser_statistics'' (validation_summary config handshake x)
     = Some (V_Dict (parser_stats_dict (sp_stats (sn_parser (xc_session x)))))"
  "dict_get ''session_statistics'' (validation_summary config handshake x)
     = Some (V_Dict (session_stats_dict (sn_stats (xc_session x))))"
  by (simp_all add: validation_summary_def dict_get_update session_summary_def config_dict_def
      frame_period_ms NORMAL_FRAME_COUNT_def)

lemma summary_proven:
  assumes "normal_exchange_error (xc_session x) (xc_responses x) = None"
  shows "exchange_proven (validation_summary config handshake x)" "link_clean (validation_summary config handshake x)"
proof -
  obtain c e h where r: "ra_command (xc_responses x) = Some c" "cc_mode c \<noteq> CM_SAFE_STOP"
    "ra_estimate (xc_responses x) = Some e" "se_navigation_mode e = NM_GNSS_AIDED"
    "ra_health (xc_responses x) = Some h" "hs_runtime_state h = RS_RUNNING"
    using normal_exchange_None(1) [OF assms] by blast
  show "exchange_proven (validation_summary config handshake x)"
    using r(2,4,6)
    by (cases "cc_mode c") (simp_all add: exchange_proven_def summary_fields responses_summary_def
        optional_dict_def r(1,3,5) command_dict_def estimate_dict_def health_dict_def)
  show "link_clean (validation_summary config handshake x)"
    using normal_exchange_None(2-) [OF assms]
    by (simp add: link_clean_def summary_fields parser_stats_dict_def session_stats_dict_def)
qed

section \<open>The watchdog\<close>

definition evidence_texts :: "string list" where
  "evidence_texts = [''CONTROL_COMMAND.mode=SAFE_STOP'', ''HEALTH_STATUS.runtime_state=SAFE_STOP'']"

text \<open>Evidence is noted with the time of its first observation, never before half a second of silence.\<close>

definition watchdog_noted :: "'w watchdog \<Rightarrow> bool" where
  "watchdog_noted x \<longleftrightarrow>
     set (wd_evidence x) \<subseteq> set evidence_texts
     \<and> (case wd_observed_ms x of None \<Rightarrow> wd_evidence x = [] | Some n \<Rightarrow> 500 \<le> n \<and> wd_evidence x \<noteq> [])"

lemma safe_stop_evidence_texts: "set (safe_stop_evidence evs n) \<subseteq> set evidence_texts"
  by (auto simp: safe_stop_evidence_def event_evidence_def evidence_texts_def split: typed_payload.splits if_splits)

lemma note_evidence_law:
  assumes "watchdog_noted x" "fle WATCHDOG_MINIMUM_S elapsed" "note_evidence elapsed events x = (r, x')"
  shows "r = Inr () \<Longrightarrow> watchdog_noted x'"
proof -
  assume r: "r = Inr ()"
  let ?ev = "safe_stop_evidence events (int NORMAL_FRAME_COUNT)"
  have ev: "set ?ev \<subseteq> set evidence_texts" by (rule safe_stop_evidence_texts)
  show ?thesis
  proof (cases "?ev \<noteq> [] \<and> wd_observed_ms x = None")
    case True
    with assms(3) r obtain n where n: "int_of_float (fmul elapsed 0x408F400000000000) = Inr n"
      and x': "x' = x\<lparr>wd_observed_ms := Some n, wd_evidence := wd_evidence x @ ?ev\<rparr>"
      by (auto simp: note_evidence_def Let_def split: sum.splits)
    have "500 \<le> n" using half_second_in_ms [OF _ n] assms(2) by (simp add: WATCHDOG_MINIMUM_S_def)
    with True ev assms(1) show ?thesis by (simp add: watchdog_noted_def x')
  next
    case False
    with assms(3) have x': "x' = x\<lparr>wd_evidence := wd_evidence x @ ?ev\<rparr>" by (auto simp: note_evidence_def Let_def)
    with False ev assms(1) show ?thesis by (auto simp: watchdog_noted_def split: option.splits)
  qed
qed

lemma watchdog_noted_session [simp]: "watchdog_noted (x\<lparr>wd_session := s\<rparr>) = watchdog_noted x"
  by (simp add: watchdog_noted_def split: option.split)

lemma watchdog_clock_noted: "watchdog_noted x \<Longrightarrow> watchdog_clock env x = (t, x') \<Longrightarrow> watchdog_noted x'"
  by (auto simp: watchdog_clock_def split: prod.splits)

lemma watchdog_poll_noted: "watchdog_noted x \<Longrightarrow> watchdog_poll env started x = (r, x') \<Longrightarrow> watchdog_noted x'"
  by (auto simp: watchdog_poll_def split: prod.splits)

lemma watchdog_body_noted:
  assumes "watchdog_noted x"
  shows "case watchdog_body env started quiet x of
    (Inl e, _) \<Rightarrow> True | (Inr (Some v), _) \<Rightarrow> True | (Inr None, x') \<Rightarrow> watchdog_noted x'"
proof -
  obtain t x1 where c: "watchdog_clock env x = (t, x1)" by fastforce
  obtain p x2 where p: "watchdog_poll env started x1 = (p, x2)" by fastforce
  have x2: "watchdog_noted x2" using watchdog_poll_noted watchdog_clock_noted assms c p by blast
  define m :: "('a watchdog, unit) meth" where
    "m = (if fle WATCHDOG_MINIMUM_S (fsub t quiet) then note_evidence (fsub t quiet) (projr p) else returnM ())"
  obtain n x3 where n: "m x2 = (n, x3)" by fastforce
  have x3: "n = Inr () \<Longrightarrow> watchdog_noted x3"
    using note_evidence_law [OF x2] n x2 by (auto simp: m_def split: if_splits)
  obtain t3 x4 where c3: "watchdog_clock env x3 = (t3, x4)" by fastforce
  have "n = Inr () \<Longrightarrow> watchdog_noted x4" using x3 c3 by (blast intro: watchdog_clock_noted)
  with c p n c3 show ?thesis
    by (cases p; cases n) (auto simp: watchdog_body_def bindM_def m_def Let_def)
qed

lemma watchdog_watch_outcomes:
  assumes "watchdog_noted x"
  shows "outcomes (watchdog_watch env started quiet x) (\<lambda>_. watchdog_noted) (\<lambda>_ _. True)"
proof -
  have "outcomes (clock_loop (watchdog_clock env) (\<lambda>t x. flt (fsub t quiet) WATCHDOG_QUIET_S)
      (watchdog_body env started quiet) x) (\<lambda>_. watchdog_noted :: 'a watchdog \<Rightarrow> bool) (\<lambda>_ _. True)"
  proof (rule clock_loop_outcomes [where P = watchdog_noted])
    fix s :: "'a watchdog"
    assume "watchdog_noted s"
    note watchdog_body_noted [OF this, of env started quiet]
    then show "case watchdog_body env started quiet s of (Inl e, s2) \<Rightarrow> True
        | (Inr (Some x), s2) \<Rightarrow> watchdog_noted s2 | (Inr None, s2) \<Rightarrow> watchdog_noted s2"
      by (auto simp: watchdog_body_def Let_def bindM_def split: prod.splits sum.splits option.splits)
  qed (auto intro: watchdog_clock_noted assms)
  moreover have "outcomes (case watchdog_clock env x of (t, x1) \<Rightarrow>
          let elapsed_s = fsub t quiet in
          if fle WATCHDOG_MINIMUM_S elapsed_s then
            liftL (bindM (watchdog_poll env started) (note_evidence elapsed_s)) x1
          else Some (Inr (), x1)) (\<lambda>_. watchdog_noted) (\<lambda>_ _. True)" if "watchdog_noted x" for x :: "'a watchdog"
  proof -
    obtain t x1 where c: "watchdog_clock env x = (t, x1)" by fastforce
    with that have x1: "watchdog_noted x1" by (auto intro: watchdog_clock_noted)
    obtain p x2 where p: "watchdog_poll env started x1 = (p, x2)" by fastforce
    with x1 have x2: "watchdog_noted x2" by (auto intro: watchdog_poll_noted)
    show ?thesis
      using x1 c p note_evidence_law [OF x2]
      by (cases p) (auto simp: outcomes_Some bindM_def Let_def split: prod.split sum.split)
  qed
  ultimately show ?thesis unfolding watchdog_watch_def by (intro outcomes_bindL) (auto elim: outcomes_mono)
qed

lemma pair_subsets: "A \<subseteq> {c, h} \<Longrightarrow> A \<noteq> {} \<Longrightarrow> A = {c} \<or> A = {h} \<or> A = {c, h}"
  by (cases "c \<in> A"; cases "h \<in> A") auto

lemma evidence_sorted:
  assumes "set ev \<subseteq> set evidence_texts" "ev \<noteq> []"
  shows "sorted_set ev \<in> {[''CONTROL_COMMAND.mode=SAFE_STOP''], [''HEALTH_STATUS.runtime_state=SAFE_STOP''],
    [''CONTROL_COMMAND.mode=SAFE_STOP'', ''HEALTH_STATUS.runtime_state=SAFE_STOP'']}"
proof -
  define c h :: string where "c = ''CONTROL_COMMAND.mode=SAFE_STOP''" and "h = ''HEALTH_STATUS.runtime_state=SAFE_STOP''"
  have ch: "c \<le> h" "c \<noteq> h" by (simp_all add: c_def h_def less_char_def)
  have texts: "evidence_texts = [c, h]" by (simp add: evidence_texts_def c_def h_def)
  have "set ev \<subseteq> {c, h}" "set ev \<noteq> {}" using assms unfolding texts by simp_all
  from pair_subsets [OF this] have "set ev = set [c] \<or> set ev = set [h] \<or> set ev = set [c, h]" by simp
  then have "sorted_set ev \<in> {sorted_set [c], sorted_set [h], sorted_set [c, h]}"
    using sorted_set_eq by blast
  moreover have "sorted_set [c] = [c]" "sorted_set [h] = [h]" "sorted_set [c, h] = [c, h]"
    using ch by (simp_all add: sorted_set_def)
  ultimately show ?thesis by (simp add: c_def h_def)
qed

lemma watchdog_report:
  assumes "watchdog_noted x" "wd_evidence x \<noteq> []"
  shows "watchdog_proven (dict_update
    (dict_set ''watchdog'' (V_Dict (watchdog_dict (wd_observed_ms x) (wd_evidence x))) d) (session_summary s))"
proof -
  obtain n where n: "wd_observed_ms x = Some n" "500 \<le> n"
    using assms by (auto simp: watchdog_noted_def split: option.splits)
  have "set (wd_evidence x) \<subseteq> set evidence_texts" using assms(1) by (simp add: watchdog_noted_def)
  from evidence_sorted [OF this assms(2)] show ?thesis
    by (auto simp: watchdog_proven_def dict_get_update session_summary_def watchdog_dict_def n optional_int_def)
qed

lemma exchange_proven_kept:
  "exchange_proven d \<Longrightarrow> exchange_proven (dict_update (dict_set ''watchdog'' v d) (session_summary s))"
  by (simp add: exchange_proven_def dict_get_update session_summary_def)

lemma watchdog_phase_outcomes:
  assumes "watchdog_noted x" "exchange_proven summary" "hw_watchdog_check config"
  shows "outcomes (watchdog_phase env started quiet summary x) (\<lambda>r _. validation_verdict config r) uncaught"
  unfolding watchdog_phase_def
proof (rule outcomes_catchL, rule outcomes_bindL, rule outcomes_mono [OF watchdog_watch_outcomes [OF assms(1)]], goal_cases)
  case (1 v t)
  then show ?case
    using assms(2,3) by (simp add: validation_verdict_def hw_failure_def watchdog_report exchange_proven_kept)
qed (use assms(3) in \<open>simp add: uncaught_def validation_verdict_def hw_failure_def\<close>)

lemma outcomes_zoom: "outcomes (zoom f x) Q E = outcomes x (\<lambda>v s. Q v (f s)) (\<lambda>e s. E e (f s))"
  by (auto simp: outcomes_def zoom_def split: option.split sum.split)

lemma exchange_verdict_verdict: "exchange_verdict handshake x = Some r \<Longrightarrow> validation_verdict config r"
  by (auto simp: exchange_verdict_def validation_verdict_def hw_failure_def split: option.splits)

lemma exchange_verdict_None: "exchange_verdict handshake x = None \<Longrightarrow> normal_exchange_error (xc_session x) (xc_responses x) = None"
  by (auto simp: exchange_verdict_def split: option.splits)

lemma after_handshake_outcomes:
  "outcomes (after_handshake env config started s) (\<lambda>r _. validation_verdict config r) uncaught"
proof -
  obtain t s1 where c: "sess_clock env s = (t, s1)" by fastforce
  have verdict: "outcomes (case exchange_verdict handshake x of
                     Some result \<Rightarrow> Some (Inr result, x)
                   | None \<Rightarrow>
                       let summary = validation_summary config handshake x in
                       if \<not> hw_watchdog_check config then
                         Some (Inr \<lparr>hr_exit_code = HX_SUCCESS, hr_phase = ''complete'',
                            hr_message = ''handshake and normal binary exchange verified'',
                            hr_summary = summary\<rparr>, x)
                       else
                         zoom (\<lambda>w. x\<lparr>xc_session := wd_session w\<rparr>)
                           (watchdog_phase env started (xc_last_sensor_sent_s x) summary
                              \<lparr>wd_session = xc_session x, wd_evidence = [], wd_observed_ms = None\<rparr>))
          (\<lambda>r _. validation_verdict config r) uncaught" for handshake x
  proof (cases "exchange_verdict handshake x")
    case None
    note ok = summary_proven [OF exchange_verdict_None [OF None], of config handshake]
    have "watchdog_noted \<lparr>wd_session = xc_session x, wd_evidence = [], wd_observed_ms = None\<rparr>"
      by (simp add: watchdog_noted_def)
    note watchdog = watchdog_phase_outcomes [OF this ok(1), of config]
    from None ok show ?thesis
      by (auto simp: Let_def outcomes_zoom validation_verdict_def [of config "\<lparr>hr_exit_code = _, hr_phase = _, hr_message = _, hr_summary = _\<rparr>"]
          uncaught_def intro!: outcomes_mono [OF watchdog])
  qed (simp add: exchange_verdict_verdict)
  show ?thesis
    unfolding after_handshake_def c Let_def prod.case outcomes_zoom
  proof (rule outcomes_bindL, rule outcomes_mono [OF exchange_phase_outcomes [where config = config]], goal_cases)
    case (1 v x)
    then show ?case
      using outcomes_mono [OF verdict [unfolded Let_def], where Q' = "\<lambda>r _. validation_verdict config r"
          and E' = "\<lambda>e _. \<not> session_caught e"]
      by (cases v) (simp_all add: uncaught_def)
  qed (simp add: uncaught_def)
qed


end
