(* ===== verification/Hardware_Waiting.thy ===== *)
theory Hardware_Waiting
  imports Hardware_Laws
begin

text \<open>
  The waits of the hardware runs end, and an opened port is closed. The locale \<^verbatim>\<open>waiting_world\<close> is
  the contract of clock and sleep: a sleep brings the clock closer to passing any finite deadline,
  and nothing else moves it back. In it every waiting loop with a finite deadline returns. The world
  of a memory link with a counter of ticks satisfies the contract.
\<close>

section \<open>The contract of clock and sleep\<close>

text \<open>\<open>ticks d w\<close> bounds the sleeps after which the clock has passed \<open>d\<close>.\<close>

locale waiting_world = byte_transport "he_ops env" tinv
  for env :: "'w hardware_env" and tinv :: "'w \<Rightarrow> bool" +
  fixes ticks :: "f64 \<Rightarrow> 'w \<Rightarrow> nat"
  assumes clock_keeps: "tinv w \<Longrightarrow> he_clock env w = (t, w') \<Longrightarrow> tinv w' \<and> ticks d w' \<le> ticks d w \<and> \<not> isnan t"
    and clock_pending: "tinv w \<Longrightarrow> he_clock env w = (t, w') \<Longrightarrow> isfinite d \<Longrightarrow> fle t d \<Longrightarrow> 0 < ticks d w'"
    and sleep_keeps: "tinv w \<Longrightarrow> tinv (he_sleep env x w)"
    and sleep_progress: "tinv w \<Longrightarrow> isfinite d \<Longrightarrow> ticks d (he_sleep env x w) \<le> ticks d w - 1"
    and write_ticks: "tinv w \<Longrightarrow> bt_write (he_ops env) b w = (r, w') \<Longrightarrow> ticks d w' \<le> ticks d w"
    and read_ticks: "tinv w \<Longrightarrow> 0 < m \<Longrightarrow> bt_read (he_ops env) m w = (q, w') \<Longrightarrow> ticks d w' \<le> ticks d w"
    and close_ticks: "tinv w \<Longrightarrow> bt_close (he_ops env) w = (u, w') \<Longrightarrow> ticks d w' \<le> ticks d w"

lemma fle_of_flt: "flt x y \<Longrightarrow> fle x y"
  by (simp add: flt_def fle_def)

lemma fle_of_not_flt: "\<not> isnan x \<Longrightarrow> \<not> isnan y \<Longrightarrow> \<not> flt y x \<Longrightarrow> fle x y"
  by (simp add: flt_def fle_def)

context waiting_world
begin

text \<open>The time left is part of an invariant of the transport, so every law of a session bounds it.\<close>

definition within :: "f64 \<Rightarrow> nat \<Rightarrow> 'w \<Rightarrow> bool" where
  "within d k w \<longleftrightarrow> tinv w \<and> ticks d w \<le> k"

lemma within_transport: "byte_transport (he_ops env) (within d k)"
  by unfold_locales
    (auto simp: within_def dest: write_keeps write_count write_error read_keeps read_bound read_error close_keeps
      write_ticks [where d = d] read_ticks [where d = d] close_ticks [where d = d] intro: order_trans)

lemma within_clock: "within d k w \<Longrightarrow> he_clock env w = (t, w') \<Longrightarrow> within d k w'"
  unfolding within_def using clock_keeps order_trans by blast

lemma within_sleep: "within d k w \<Longrightarrow> isfinite d \<Longrightarrow> within d (k - 1) (he_sleep env x w)"
  unfolding within_def using sleep_keeps sleep_progress [of w d x] by (auto intro: order_trans)

lemma within_pending: "within d k w \<Longrightarrow> he_clock env w = (t, w') \<Longrightarrow> isfinite d \<Longrightarrow> fle t d \<Longrightarrow> 0 < k \<and> within d k w'"
  using within_clock [of d k w t w'] clock_pending [of w t w' d] unfolding within_def by linarith

lemma within_read: "within d k w \<Longrightarrow> bt_read (he_ops env) 512 w = (q, w') \<Longrightarrow> within d k w'"
  unfolding within_def using read_keeps [of w 512 q w'] read_ticks [of w 512 q w' d] by simp

lemma within_write: "within d k w \<Longrightarrow> bt_write (he_ops env) b w = (q, w') \<Longrightarrow> within d k w'"
  unfolding within_def using write_keeps [of w b q w'] write_ticks [of w b q w' d] by simp

section \<open>The loops of the diagnostic\<close>

lemma within_poll_diagnostic:
  "within d k (dx_world s) \<Longrightarrow> poll_diagnostic env n s = (r, s') \<Longrightarrow> within d k (dx_world s')"
proof (induction n arbitrary: s)
  case (Suc n)
  obtain q w where q: "bt_read (he_ops env) 512 (dx_world s) = (q, w)" by fastforce
  have w: "within d k w" using within_read [OF Suc.prems(1) q] .
  from Suc.prems(2) q w show ?case
    by (auto split: sum.splits if_splits prod.splits intro: Suc.IH [rotated])
qed simp

lemma within_dx_clock:
  assumes "within d k (dx_world s)" "dx_clock env s = (t, s')" "isfinite d" "fle t d"
  shows "0 < k \<and> within d k (dx_world s')"
proof -
  obtain w where "he_clock env (dx_world s) = (t, w)" "s' = s\<lparr>dx_world := w\<rparr>"
    using assms(2) by (auto simp: dx_clock_def split: prod.splits)
  with within_pending [OF assms(1) _ assms(3,4)] show ?thesis by simp
qed

lemma within_dx_sleep: "within d k (dx_world s) \<Longrightarrow> isfinite d \<Longrightarrow> within d (k - 1) (dx_world (dx_sleep env x s))"
  using within_sleep [of d k "dx_world s"] by (simp add: dx_sleep_def)

lemma beacon_loop_returns:
  assumes "within d k (dx_world s)" "isfinite d"
  shows "beacon_loop env d s \<noteq> None"
  unfolding beacon_loop_def
proof (rule clock_loop_returns [where J = "\<lambda>k s. within d k (dx_world s)", OF _ assms(1)], goal_cases)
  case (1 k s t s1 s2)
  obtain r s3 where p: "poll_diagnostic env 32 s1 = (r, s3)" by fastforce
  have k: "0 < k" "within d k (dx_world s1)" using within_dx_clock [OF 1(1,2) assms(2)] 1(3) by simp_all
  have "within d k (dx_world s3)" using within_poll_diagnostic [OF k(2) p] .
  moreover have "s2 = dx_sleep env POLL_PERIOD_S s3" using 1(4) p by (auto simp: beacon_body_def bindM_def split: sum.splits)
  ultimately show ?case using k(1) within_dx_sleep assms(2) by simp
qed

lemma usb_loop_returns:
  assumes "within d k (dx_world s)" "isfinite d"
  shows "usb_loop env config mode rx errors d s \<noteq> None"
  unfolding usb_loop_def
proof (rule clock_loop_returns [where J = "\<lambda>k s. within d k (dx_world s)", OF _ assms(1)], goal_cases)
  case (1 k s t s1 s2)
  obtain r s3 where p: "poll_diagnostic env 32 s1 = (r, s3)" by fastforce
  have k: "0 < k" "within d k (dx_world s1)" using within_dx_clock [OF 1(1,2) assms(2)] 1(3) by simp_all
  have "within d k (dx_world s3)" using within_poll_diagnostic [OF k(2) p] .
  moreover have "s2 = dx_sleep env POLL_PERIOD_S s3"
    using 1(4) p by (auto simp: usb_body_def bindM_def split: sum.splits if_splits)
  ultimately show ?case using k(1) within_dx_sleep assms(2) by simp
qed

lemma hello_loop_returns:
  assumes "within d k (dx_world s)" "isfinite d"
  shows "hello_loop env config mode rx frames snapshot d (s, l) \<noteq> None"
  unfolding hello_loop_def
proof (rule clock_loop_returns [where J = "\<lambda>k x. within d k (dx_world (fst x))" and k = k], goal_cases)
  case (1 k x t x1 x2)
  obtain s s1 l where x: "x = (s, l)" "x1 = (s1, l)" "dx_clock env s = (t, s1)"
    using 1(2) by (cases x) (auto split: prod.splits)
  obtain r s3 where p: "poll_diagnostic env 32 s1 = (r, s3)" by fastforce
  have k: "0 < k" "within d k (dx_world s1)"
    using within_dx_clock [OF _ x(3) assms(2) 1(3)] 1(1) x(1) by simp_all
  have "within d k (dx_world s3)" using within_poll_diagnostic [OF k(2) p] .
  moreover have "fst x2 = dx_sleep env POLL_PERIOD_S s3"
    using 1(4) p x(2) by (auto simp: hello_body_def Let_def split: sum.splits if_splits option.splits)
  ultimately show ?case using k(1) within_dx_sleep assms(2) by simp
qed (use assms(1) in simp)

lemma write_loop_returns:
  assumes "isfinite d"
  shows "within d k w \<Longrightarrow> write_loop env data d offset w \<noteq> None"
proof (induction k arbitrary: offset w rule: less_induct)
  case (less k)
  obtain r w1 where w1: "bt_write (he_ops env) (drop offset data) w = (r, w1)" by fastforce
  have in1: "within d k w1" using within_write [OF less.prems w1] .
  obtain t w2 where w2: "he_clock env w1 = (t, w2)" by fastforce
  have t: "\<not> isnan t" using clock_keeps [OF _ w2] in1 by (simp add: within_def)
  note loop = write_loop.simps [of env data d offset w]
  show ?case
  proof (cases "\<exists>n. r = Inr n \<and> \<not> (n < 0 \<or> int (length data) - int offset < n) \<and> offset + nat n \<noteq> length data
      \<and> offset < length data \<and> \<not> flt d t")
    case True
    then obtain n where n: "r = Inr n" "\<not> (n < 0 \<or> int (length data) - int offset < n)"
      "offset + nat n \<noteq> length data" "offset < length data" "\<not> flt d t" by blast
    have "fle t d" using fle_of_not_flt [OF t _ n(5)] isfinite_not_nan assms by blast
    then have k: "0 < k" "within d k w2" using within_pending [OF in1 w2 assms] by simp_all
    have "write_loop env data d (offset + nat n) (he_sleep env (PFloat POLL_PERIOD_S) w2) \<noteq> None"
      by (rule less.IH [of "k - 1"]) (use k within_sleep [OF k(2) assms] in auto)
    with w1 w2 n show ?thesis by (simp add: loop)
  next
    case False
    with w1 w2 show ?thesis by (cases r) (auto simp: loop)
  qed
qed

section \<open>The loops of the validation\<close>

lemma within_sess_clock:
  assumes "session_inv (within d k) s" "sess_clock env s = (t, s')"
  shows "session_inv (within d k) s' \<and> (isfinite d \<longrightarrow> fle t d \<longrightarrow> 0 < k)"
proof -
  obtain w where w: "he_clock env (sn_transport s) = (t, w)" "s' = s\<lparr>sn_transport := w\<rparr>"
    using assms(2) by (auto simp: sess_clock_def split: prod.splits)
  with assms(1) within_clock [of d k "sn_transport s" t w] within_pending [of d k "sn_transport s" t w]
  show ?thesis by (simp add: session_inv_def)
qed

lemma within_sess_sleep:
  "session_inv (within d k) s \<Longrightarrow> isfinite d \<Longrightarrow> session_inv (within d (k - 1)) (sess_sleep env x s)"
  using within_sleep [of d k "sn_transport s"] by (simp add: session_inv_def sess_sleep_def)

lemma within_now_ms:
  "session_inv (within d k) s \<Longrightarrow> now_ms env started s = (r, s') \<Longrightarrow> session_inv (within d k) s'"
  using within_sess_clock by (auto simp: now_ms_def split: prod.splits)

lemma within_poll_now:
  assumes "session_inv (within d k) s" "poll_now env started s = (r, s')"
  shows "session_inv (within d k) s'"
proof -
  obtain n s1 where n: "now_ms env started s = (n, s1)" by fastforce
  have s1: "session_inv (within d k) s1" using within_now_ms [OF assms(1) n] .
  show ?thesis
    using assms(2) n s1 byte_transport.poll_law [OF within_transport s1]
    by (cases n) (auto simp: poll_now_def bindM_def)
qed

lemma handshake_loop_returns:
  assumes "session_inv (within d k) s" "isfinite d"
  shows "handshake_loop env config started d s \<noteq> None"
  unfolding handshake_loop_def
proof (rule clock_loop_returns [where J = "\<lambda>k. session_inv (within d k)", OF _ assms(1)], goal_cases)
  case (1 k s t s1 s2)
  have k: "0 < k" "session_inv (within d k) s1" using within_sess_clock [OF 1(1,2)] assms(2) 1(3) by simp_all
  obtain r s3 where p: "poll_now env started s1 = (r, s3)" by fastforce
  have s3: "session_inv (within d k) s3" using within_poll_now [OF k(2) p] .
  define again :: "('w host_session, unit) meth" where
    "again = (if sn_state s3 = ST_TIMED_OUT then bindM (now_ms env started) (session_reconnect (he_ops env)) else returnM ())"
  obtain q s4 where q: "again s3 = (q, s4)" by fastforce
  have "session_inv (within d k) s4"
  proof (cases "sn_state s3 = ST_TIMED_OUT")
    case True
    obtain n s5 where n: "now_ms env started s3 = (n, s5)" by fastforce
    have s5: "session_inv (within d k) s5" using within_now_ms [OF s3 n] .
    with q n True byte_transport.reconnect_keeps [OF within_transport s5] show ?thesis
      by (cases n) (auto simp: again_def bindM_def)
  qed (use q s3 in \<open>simp add: again_def\<close>)
  moreover have "s2 = sess_sleep env POLL_PERIOD_S s4"
    using 1(4) p q by (auto simp: handshake_body_def bindM_def again_def split: sum.splits if_splits)
  ultimately show ?case using k(1) within_sess_sleep assms(2) by simp
qed

lemma response_loop_returns:
  assumes "session_inv (within d k) (xc_session x)" "isfinite d"
  shows "clock_loop (exchange_clock env) (\<lambda>t x. flt t d) (response_body env started step d) x \<noteq> None"
proof (rule clock_loop_returns [where J = "\<lambda>k x. session_inv (within d k) (xc_session x)", OF _ assms(1)], goal_cases)
  case (1 k x t x1 x2)
  obtain s1 where s1: "sess_clock env (xc_session x) = (t, s1)" "x1 = x\<lparr>xc_session := s1\<rparr>"
    using 1(2) by (auto simp: exchange_clock_def split: prod.splits)
  have k: "0 < k" "session_inv (within d k) s1"
    using within_sess_clock [OF 1(1) s1(1)] assms(2) fle_of_flt [OF 1(3)] by simp_all
  obtain r s3 where p: "poll_now env started s1 = (r, s3)" by fastforce
  have s3: "session_inv (within d k) s3" using within_poll_now [OF k(2) p] .
  obtain u s4 where u: "sess_clock env s3 = (u, s4)" by fastforce
  have s4: "session_inv (within d k) s4" using within_sess_clock [OF s3 u] by simp
  have "xc_session x2 = sess_sleep env (fmin POLL_PERIOD_S (fmax 0 (fsub d u))) s4"
    using 1(4) p s1(2) u
    by (auto simp: response_body_def poll_responses_def on_session_def exchange_clock_def
        split: sum.splits option.splits prod.splits)
  with k(1) within_sess_sleep [OF s4 assms(2)] show ?case by simp
qed

end

section \<open>A clock that counts sleeps\<close>

text \<open>The world of a transport with a counter: a sleep advances it by one tick of \<^verbatim>\<open>2^-10\<close> seconds.\<close>

definition tick_reading :: "nat \<Rightarrow> f64" where
  "tick_reading n = f64_round False (n * 2 ^ 1064) 0"

definition clocked :: "('w, 'a) meth \<Rightarrow> ('w \<times> nat, 'a) meth" where
  "clocked m w = (case m (fst w) of (r, v) \<Rightarrow> (r, (v, snd w)))"

definition clocked_env :: "'w byte_transport_ops \<Rightarrow> ('w \<times> nat) hardware_env" where
  "clocked_env ops =
     \<lparr>he_ops = \<lparr>bt_is_open = (\<lambda>w. bt_is_open ops (fst w)), bt_write = (\<lambda>d. clocked (bt_write ops d)),
               bt_read = (\<lambda>m. clocked (bt_read ops m)), bt_close = clocked (bt_close ops)\<rparr>,
      he_clock = (\<lambda>w. (tick_reading (snd w), w)),
      he_sleep = (\<lambda>_ w. (fst w, snd w + 1)),
      he_reset_input = None,
      he_open = (\<lambda>_. returnM ()),
      he_text = (\<lambda>_. [])\<rparr>"

definition ticks_left :: "f64 \<Rightarrow> 'w \<times> nat \<Rightarrow> nat" where
  "ticks_left d w = (LEAST n. \<not> fle (tick_reading n) d) - snd w"

lemma tick_reading_mono: "m \<le> n \<Longrightarrow> f64_key (tick_reading m) \<le> f64_key (tick_reading n)"
  unfolding tick_reading_def f64_round_key by (intro zle_int [THEN iffD2] f64_round_mag_mono mult_le_mono1)

lemma tick_reading_passes:
  assumes "isfinite d"
  shows "\<exists>n. \<not> fle (tick_reading n) d"
proof -
  have "f64_round_mag (2 ^ 1036 * 2 ^ 1064) 0 = f64_inf_mag"
    by (rule f64_round_mag_top) (simp flip: power_add)
  then have "f64_key (tick_reading (2 ^ 1036)) = int f64_inf_mag"
    unfolding tick_reading_def f64_round_key by simp
  moreover have "f64_key d < int f64_inf_mag" using assms by (simp add: isfinite_def f64_key_def)
  ultimately have "\<not> fle (tick_reading (2 ^ 1036)) d" unfolding fle_def by linarith
  then show ?thesis by blast
qed

lemma ticks_left_pending:
  assumes "isfinite d" "fle (tick_reading (snd w)) d"
  shows "0 < ticks_left d w"
proof -
  let ?n = "LEAST n. \<not> fle (tick_reading n) d"
  have "\<not> fle (tick_reading ?n) d" by (rule LeastI_ex [OF tick_reading_passes [OF assms(1)]])
  moreover have "\<not> isnan (tick_reading ?n)" "\<not> isnan d"
    using assms(1) isfinite_not_nan by (simp_all add: tick_reading_def f64_round_not_nan)
  ultimately have "f64_key d < f64_key (tick_reading ?n)" by (simp add: fle_def)
  moreover have "f64_key (tick_reading (snd w)) \<le> f64_key d" using assms(2) by (simp add: fle_def)
  ultimately have "\<not> ?n \<le> snd w" using tick_reading_mono [of ?n "snd w"] by linarith
  then show ?thesis by (simp add: ticks_left_def)
qed

lemma clocked_transport:
  assumes "byte_transport ops tinv"
  shows "byte_transport (he_ops (clocked_env ops)) (\<lambda>w. tinv (fst w))"
proof
  fix w w' :: "'a \<times> nat" and d r n e q u and m :: int
  assume w: "tinv (fst w)"
  show "tinv (fst w')" if "bt_write (he_ops (clocked_env ops)) d w = (r, w')"
    using that byte_transport.write_keeps [OF assms w]
    by (auto simp: clocked_env_def clocked_def split: prod.splits)
  show "0 \<le> n \<and> n \<le> int (length d)" if "bt_write (he_ops (clocked_env ops)) d w = (Inr n, w')"
    using that byte_transport.write_count [OF assms w]
    by (auto simp: clocked_env_def clocked_def split: prod.splits)
  show "e = TransportError" if "bt_write (he_ops (clocked_env ops)) d w = (Inl e, w')"
    using that byte_transport.write_error [OF assms w]
    by (auto simp: clocked_env_def clocked_def split: prod.splits)
  show "tinv (fst w')" if "bt_close (he_ops (clocked_env ops)) w = (u, w')"
    using that byte_transport.close_keeps [OF assms w]
    by (auto simp: clocked_env_def clocked_def split: prod.splits)
  assume m: "0 < m"
  show "tinv (fst w')" if "bt_read (he_ops (clocked_env ops)) m w = (q, w')"
    using that byte_transport.read_keeps [OF assms w m]
    by (auto simp: clocked_env_def clocked_def split: prod.splits)
  show "int (length d) \<le> m" if "bt_read (he_ops (clocked_env ops)) m w = (Inr d, w')"
    using that byte_transport.read_bound [OF assms w m]
    by (auto simp: clocked_env_def clocked_def split: prod.splits)
  show "e = TransportError" if "bt_read (he_ops (clocked_env ops)) m w = (Inl e, w')"
    using that byte_transport.read_error [OF assms w m]
    by (auto simp: clocked_env_def clocked_def split: prod.splits)
qed

lemma clocked_waiting_world:
  assumes "byte_transport ops tinv"
  shows "waiting_world (clocked_env ops) (\<lambda>w. tinv (fst w)) ticks_left"
proof (intro waiting_world.intro clocked_transport [OF assms] waiting_world_axioms.intro)
  show "0 < ticks_left d w'"
    if "he_clock (clocked_env ops) w = (t, w')" "isfinite d" "fle t d" for w t w' d
    using that ticks_left_pending [of d w'] by (auto simp: clocked_env_def)
qed (auto simp: clocked_env_def clocked_def ticks_left_def tick_reading_def f64_round_not_nan split: prod.splits)

interpretation clocked_memory: waiting_world "clocked_env memory_ops" "\<lambda>w. memory_inv (fst w)" ticks_left
  by (rule clocked_waiting_world) (rule memory.byte_transport_axioms)

section \<open>Properties\<close>

definition idle_link :: memory_link where
  "idle_link = (\<lparr>ep_chunks = [], ep_open = True, ep_read_limit = None\<rparr>, None)"

lemma idle_inv: "memory_inv idle_link"
  by (simp add: memory_inv_def limit_ok_def idle_link_def)



lemma with_port_closes:
  assumes "\<And>w. closed (snd (bt_close (he_ops env) w))"
  shows "outcomes (with_port env config code phase validation w) (\<lambda>_. closed) (\<lambda>_. closed)"
proof -
  have "case bt_close (he_ops env) t of (Inl e, u) \<Rightarrow> closed u | (Inr _, u) \<Rightarrow> closed u" for t
    using assms [of t] by (auto split: prod.split sum.split)
  then show ?thesis unfolding with_port_def by (intro outcomes_finallyL outcomes_any) simp_all
qed

lemma open_port_outcomes:
  assumes "\<And>c w e w'. he_open env c w = (Inl e, w') \<Longrightarrow> closed w'" "closed w"
  shows "outcomes (open_port env config w) (\<lambda>r w'. r = None \<or> closed w') (\<lambda>_. closed)"
  unfolding open_port_def
  by (intro outcomes_catchL)
    (auto simp: outcomes_Some bindM_def liftM_def SerialConfig_def assms split: prod.split sum.split dest: assms(1))

lemma startup_delay_outcomes: "outcomes (liftL (liftM r) w) (\<lambda>_ w'. w' = w) (\<lambda>_ w'. w' = w)"
  by (cases r) (simp_all add: liftM_def)

text \<open>
  C26: Neither entry point leaks the serial port: whether the validation returns a verdict, fails, or
  raises something it does not catch, the port is closed when it ends. Nothing is assumed of the link,
  the clock or the board but that closing closes and that a failed open leaves nothing open.
\<close>

theorem port_always_closed:
  assumes "\<And>w. closed (snd (bt_close (he_ops env) w))"
    and "\<And>c w e w'. he_open env c w = (Inl e, w') \<Longrightarrow> closed w'"
    and "closed w"
  shows "outcomes (run_physical_validation env config w) (\<lambda>_. closed) (\<lambda>_. closed)
    \<and> outcomes (run_serial_diagnostic env config mode w) (\<lambda>_. closed) (\<lambda>_. closed)"
proof -
  have run: "outcomes (bindL (open_port env config) (\<lambda>failed. case failed of
        Some result \<Rightarrow> (\<lambda>w. Some (Inr result, w)) | None \<Rightarrow> with_port env config code phase validation) w)
      (\<lambda>_. closed) (\<lambda>_. closed)" for code phase validation
  proof (rule outcomes_bindL, rule outcomes_mono [OF open_port_outcomes [where closed = closed]])
    fix failed :: "hardware_validation_result option" and w'
    assume "failed = None \<or> closed w'"
    then show "outcomes ((case failed of Some result \<Rightarrow> (\<lambda>w. Some (Inr result, w))
        | None \<Rightarrow> with_port env config code phase validation) w') (\<lambda>_. closed) (\<lambda>_. closed)"
      using with_port_closes [of closed, OF assms(1)] by (cases failed) simp_all
  qed (use assms(2,3) in auto)
  show ?thesis
    using run assms(3) unfolding run_physical_validation_def run_serial_diagnostic_def
    by (auto intro!: outcomes_bindL outcomes_mono [OF startup_delay_outcomes])
qed

text \<open>A device that is open unless closed; no board answers, the clock runs by sleeping.\<close>

theorem port_always_closed_witness:
  "outcomes (run_physical_validation (clocked_env memory_ops) \<lparr>hw_port = ''p'', hw_baud = 9600,
       hw_watchdog_check = False, hw_startup_delay_s = PInt 1\<rparr>
       ((\<lparr>ep_chunks = [], ep_open = False, ep_read_limit = None\<rparr>, None), 0))
     (\<lambda>_ w. \<not> ep_open (fst (fst w))) (\<lambda>_ w. \<not> ep_open (fst (fst w)))"
proof -
  have "\<not> ep_open (fst (fst (snd (bt_close (he_ops (clocked_env memory_ops)) w))))" for w
    by (simp add: clocked_env_def clocked_def memory_ops_def endpoint_close_def split: prod.split)
  moreover have "he_open (clocked_env memory_ops) c w = (Inl e, w') \<Longrightarrow> \<not> ep_open (fst (fst w'))" for c w e w'
    by (simp add: clocked_env_def)
  ultimately show ?thesis
    using port_always_closed [of "\<lambda>w. \<not> ep_open (fst (fst w))" "clocked_env memory_ops"] by simp
qed

end
