(* ===== verification/PyFloat_Order.thy ===== *)
theory PyFloat_Order
  imports PyFloat_Arith
begin

text \<open>
  Division, remainder, rounding to int, tolerance comparison and the compensated \<^verbatim>\<open>sum\<close> of Python
  floats, and the order of float arithmetic: rounding keeps the order of exact results, so a sum is
  monotone in its arguments.
\<close>

section \<open>Division and remainder\<close>

text \<open>
  \<^verbatim>\<open>x / y\<close>: the integer quotient to two bits below the least float, with a bit that says whether
  anything was left over.
\<close>

definition fdiv :: "f64 \<Rightarrow> f64 \<Rightarrow> f64" where
  "fdiv x y =
     (let negative = (f64_neg x \<noteq> f64_neg y)
      in if isnan x \<or> isnan y then f64_nan
         else if \<not> isfinite x then (if isfinite y then f64_of negative f64_inf_mag else f64_nan)
         else if \<not> isfinite y then f64_of negative 0
         else
           let a = f64_units_mag (f64_mag x) * 2 ^ 1075; b = f64_units_mag (f64_mag y)
           in f64_round negative (2 * (a div b) + (if a mod b = 0 then 0 else 1)) 2)"

definition py_div :: "f64 \<Rightarrow> f64 \<Rightarrow> f64 result" where
  "py_div x y = (if f64_mag y = 0 then Inl ZeroDivisionError else Inr (fdiv x y))"

text \<open>C's \<^verbatim>\<open>fmod\<close> is exact and has the sign of \<open>x\<close>; Python's \<^verbatim>\<open>x % y\<close> has the sign of \<open>y\<close>.\<close>

definition fmod :: "f64 \<Rightarrow> f64 \<Rightarrow> f64" where
  "fmod x y =
     (if isnan x \<or> isnan y \<or> \<not> isfinite x then f64_nan
      else if \<not> isfinite y then x
      else f64_round (f64_neg x) (f64_units_mag (f64_mag x) mod f64_units_mag (f64_mag y)) 0)"

definition py_mod :: "f64 \<Rightarrow> f64 \<Rightarrow> f64 result" where
  "py_mod x y =
     (if f64_mag y = 0 then Inl ZeroDivisionError
      else
        let m = fmod x y
        in if f64_mag m = 0 then Inr (f64_of (f64_neg y) 0)
           else if flt y 0 \<noteq> flt m 0 then Inr (fadd m y) else Inr m)"

section \<open>To int\<close>

definition f64_sign :: "f64 \<Rightarrow> int" where
  "f64_sign x = (if f64_neg x then - 1 else 1)"

text \<open>\<^verbatim>\<open>math.ceil(x)\<close> and \<^verbatim>\<open>round(x)\<close>, half to even.\<close>

definition py_ceil :: "f64 \<Rightarrow> int result" where
  "py_ceil x =
     (if isnan x then Inl ValueError
      else if \<not> isfinite x then Inl OverflowError
      else Inr (- (- f64_units x div 2 ^ 1074)))"

definition py_round :: "f64 \<Rightarrow> int result" where
  "py_round x =
     (if isnan x then Inl ValueError
      else if \<not> isfinite x then Inl OverflowError
      else Inr (f64_sign x * int (round_half_even (f64_units_mag (f64_mag x)) 1074)))"

text \<open>\<^verbatim>\<open>math.isclose(x, y, rel_tol=0.0, abs_tol=t)\<close>\<close>

definition isclose_abs :: "f64 \<Rightarrow> f64 \<Rightarrow> f64 \<Rightarrow> bool" where
  "isclose_abs x y t \<longleftrightarrow>
     feq x y
     \<or> (\<not> (\<not> isfinite x \<and> \<not> isnan x) \<and> \<not> (\<not> isfinite y \<and> \<not> isnan y) \<and> fle (fabs (fsub y x)) t)"

text \<open>
  \<^verbatim>\<open>sum(xs)\<close> of floats: since Python 3.12 the sum carries a compensation (Neumaier), added at the end
  if it is finite and not zero. The first term is added to the int 0; the sum of no terms is that int,
  here the float it becomes when it is used.
\<close>

fun sum_step :: "f64 \<times> f64 \<Rightarrow> f64 \<Rightarrow> f64 \<times> f64" where
  "sum_step (s, c) x =
     (let t = fadd s x
      in if fle (fabs x) (fabs s) then (t, fadd c (fadd (fsub s t) x)) else (t, fadd c (fadd (fsub x t) s)))"

definition py_sum :: "f64 list \<Rightarrow> f64" where
  "py_sum xs =
     (case xs of
        [] \<Rightarrow> 0
      | x # rest \<Rightarrow>
          (case foldl sum_step (fadd 0 x, 0) rest of
             (s, c) \<Rightarrow> if f64_mag c \<noteq> 0 \<and> isfinite c then fadd s c else s))"

section \<open>Order\<close>

definition round_key :: "int \<Rightarrow> int" where
  "round_key s = (if s < 0 then - int (f64_round_mag (nat (- s)) 0) else int (f64_round_mag (nat s) 0))"

lemma round_key_mono: "s \<le> t \<Longrightarrow> round_key s \<le> round_key t"
proof -
  assume "s \<le> t"
  then consider "s < 0" "t < 0" "nat (- t) \<le> nat (- s)" | "s < 0" "0 \<le> t" | "0 \<le> s" "0 \<le> t" "nat s \<le> nat t"
    by linarith
  then show ?thesis
    by cases (simp_all add: round_key_def f64_round_mag_mono)
qed

lemma f64_round_mag_less: "f64_round_mag n k < 2 ^ 63"
  by (simp add: f64_round_mag_def f64_inf_mag_def Let_def min_def)

lemma f64_round_parts [simp]:
  "f64_mag (f64_round s n k) = f64_round_mag n k" "f64_neg (f64_round s n k) = s"
  using f64_round_mag_less [of n k] by (simp_all add: f64_round_def)

lemma f64_key_parts: "f64_key x = f64_sign x * int (f64_mag x)"
  by (simp add: f64_key_def f64_sign_def)

lemma f64_units_parts: "f64_units x = f64_sign x * int (f64_units_mag (f64_mag x))"
  by (simp add: f64_units_def f64_sign_def)

lemma f64_units_mag_zero [simp]: "f64_units_mag 0 = 0"
  by (simp add: f64_units_mag_def)

lemma f64_round_mag_zero [simp]: "f64_round_mag 0 0 = 0"
  using f64_round_units [of 0] by (simp add: f64_inf_mag_def)

lemma round_key_units: "isfinite x \<Longrightarrow> round_key (f64_units x) = f64_key x"
proof -
  assume "isfinite x"
  then have r: "f64_round_mag (f64_units_mag (f64_mag x)) 0 = f64_mag x"
    by (simp add: isfinite_def f64_round_units)
  then have "f64_units_mag (f64_mag x) = 0 \<Longrightarrow> f64_mag x = 0" by simp
  with r show ?thesis by (auto simp: round_key_def f64_units_parts f64_key_parts f64_sign_def)
qed

lemma f64_units_mono:
  assumes "f64_key x \<le> f64_key y"
  shows "f64_units x \<le> f64_units y"
proof (cases "f64_neg x"; cases "f64_neg y")
  assume "f64_neg x" "f64_neg y"
  with assms show ?thesis by (simp add: f64_key_parts f64_units_parts f64_sign_def f64_units_mag_mono)
next
  assume "\<not> f64_neg x" "\<not> f64_neg y"
  with assms show ?thesis by (simp add: f64_key_parts f64_units_parts f64_sign_def f64_units_mag_mono)
next
  assume "\<not> f64_neg x" "f64_neg y"
  with assms have "f64_mag x = 0" "f64_mag y = 0" by (simp_all add: f64_key_parts f64_sign_def)
  then show ?thesis by (simp add: f64_units_parts)
qed (simp add: f64_units_parts f64_sign_def)

lemma fadd_key: "isfinite x \<Longrightarrow> isfinite y \<Longrightarrow> f64_key (fadd x y) = round_key (f64_units x + f64_units y)"
  using isfinite_not_nan
  by (auto simp: fadd_def Let_def f64_key_parts f64_sign_def round_key_def)

lemma fadd_not_nan: "isfinite x \<Longrightarrow> isfinite y \<Longrightarrow> \<not> isnan (fadd x y)"
  using isfinite_not_nan f64_round_not_nan
  by (auto simp: fadd_def Let_def isnan_def f64_inf_mag_def)

lemma fneg_parts [simp]: "f64_mag (fneg x) = f64_mag x" "f64_neg (fneg x) = (\<not> f64_neg x)"
  using f64_mag_less [of x] by (simp_all add: fneg_def)

lemma fneg_simps [simp]: "isfinite (fneg x) = isfinite x" "isnan (fneg x) = isnan x"
  "f64_units (fneg x) = - f64_units x" "f64_key (fneg x) = - f64_key x"
  by (simp_all add: isfinite_def isnan_def f64_units_parts f64_key_parts f64_sign_def)

lemma isfinite_key: "\<bar>f64_key x\<bar> < int f64_inf_mag \<longleftrightarrow> isfinite x"
  by (auto simp: f64_key_parts f64_sign_def isfinite_def)

lemma fle_key: "isfinite x \<Longrightarrow> isfinite y \<Longrightarrow> fle x y \<longleftrightarrow> f64_key x \<le> f64_key y"
  by (simp add: fle_def isfinite_not_nan)

end
