(* ===== verification/Vehicle.thy ===== *)
theory Vehicle
  imports PyFloat_Order
begin

text \<open>
  The ground-vehicle plant of \<^verbatim>\<open>simulator.py\<close>: parameters, state and command with the checks of
  their constructors, one step of the bicycle model, and the canonical fixed-step run. The functions
  of the C mathematics library are parameters; Python's wrappers around them are modelled. Lemmas:
  clamping and wrapping keep every component of a state within its limits, whatever the library
  returns.
\<close>

section \<open>The mathematics library\<close>

record libm =
  lm_sin :: "f64 \<Rightarrow> f64"
  lm_cos :: "f64 \<Rightarrow> f64"
  lm_tan :: "f64 \<Rightarrow> f64"
  lm_expm1 :: "f64 \<Rightarrow> f64"
  lm_atan2 :: "f64 \<Rightarrow> f64 \<Rightarrow> f64"
  lm_hypot :: "f64 \<Rightarrow> f64 \<Rightarrow> f64"

definition isinf :: "f64 \<Rightarrow> bool" where
  "isinf x \<longleftrightarrow> f64_mag x = f64_inf_mag"

text \<open>A function of \<^verbatim>\<open>math\<close>: a new NaN is a domain error, a new infinity an overflow or a pole.\<close>

definition math_call :: "(f64 \<Rightarrow> f64) \<Rightarrow> bool \<Rightarrow> f64 \<Rightarrow> f64 result" where
  "math_call f can_overflow x =
     (let r = f x
      in if isnan r \<and> \<not> isnan x then Inl ValueError
         else if isinf r \<and> isfinite x then Inl (if can_overflow then OverflowError else ValueError)
         else Inr r)"

definition f64_pi :: f64 where "f64_pi = 0x400921FB54442D18"
definition f64_two_pi :: f64 where "f64_two_pi = 0x401921FB54442D18"
definition f64_half_pi :: f64 where "f64_half_pi = 0x3FF921FB54442D18"

section \<open>Data\<close>

record vehicle_parameters =
  vp_wheelbase_m :: f64
  vp_steering_time_constant_s :: f64
  vp_acceleration_time_constant_s :: f64
  vp_max_steering_rad :: f64
  vp_max_acceleration_mps2 :: f64
  vp_max_deceleration_mps2 :: f64
  vp_max_speed_mps :: f64

definition vp_fields :: "vehicle_parameters \<Rightarrow> f64 list" where
  "vp_fields p = [vp_wheelbase_m p, vp_steering_time_constant_s p, vp_acceleration_time_constant_s p,
     vp_max_steering_rad p, vp_max_acceleration_mps2 p, vp_max_deceleration_mps2 p, vp_max_speed_mps p]"

text \<open>The constructors take floats; \<^verbatim>\<open>_finite\<close> refuses infinities and NaN.\<close>

definition finite_real :: "f64 \<Rightarrow> f64 result" where
  "finite_real x = (if isfinite x then Inr x else Inl ValueError)"

definition VehicleParameters :: "vehicle_parameters \<Rightarrow> vehicle_parameters result" where
  "VehicleParameters p =
     bindR (sequenceR (map finite_real (vp_fields p))) (\<lambda>values.
     bindR (guardR (list_ex (\<lambda>x. fle x 0) values) ValueError) (\<lambda>_.
     bindR (guardR (fle f64_half_pi (vp_max_steering_rad p)) ValueError) (\<lambda>_. Inr p)))"

text \<open>The default steering limit is \<^verbatim>\<open>math.radians(30.0)\<close>.\<close>

definition default_parameters :: vehicle_parameters where
  "default_parameters =
     \<lparr>vp_wheelbase_m = 0x3FD47AE147AE147B, vp_steering_time_constant_s = 0x3FC70A3D70A3D70A,
      vp_acceleration_time_constant_s = 0x3FD0000000000000, vp_max_steering_rad = 0x3FE0C152382D7365,
      vp_max_acceleration_mps2 = 0x4000000000000000, vp_max_deceleration_mps2 = 0x4010000000000000,
      vp_max_speed_mps = 0x4020000000000000\<rparr>"

record vehicle_state =
  vs_x_m :: f64
  vs_y_m :: f64
  vs_heading_rad :: f64
  vs_speed_mps :: f64
  vs_steering_rad :: f64
  vs_acceleration_mps2 :: f64

definition vs_fields :: "vehicle_state \<Rightarrow> f64 list" where
  "vs_fields s = [vs_x_m s, vs_y_m s, vs_heading_rad s, vs_speed_mps s, vs_steering_rad s, vs_acceleration_mps2 s]"

definition VehicleState :: "vehicle_state \<Rightarrow> vehicle_state result" where
  "VehicleState s = bindR (sequenceR (map finite_real (vs_fields s))) (\<lambda>_. Inr s)"

definition initial_vehicle :: vehicle_state where
  "initial_vehicle = \<lparr>vs_x_m = 0, vs_y_m = 0, vs_heading_rad = 0, vs_speed_mps = 0, vs_steering_rad = 0,
     vs_acceleration_mps2 = 0\<rparr>"

record control_command =
  cm_acceleration_mps2 :: f64
  cm_steering_rad :: f64

definition ControlCommand :: "f64 \<Rightarrow> f64 \<Rightarrow> control_command result" where
  "ControlCommand acceleration steering =
     bindR (finite_real acceleration) (\<lambda>a. bindR (finite_real steering) (\<lambda>s.
       Inr \<lparr>cm_acceleration_mps2 = a, cm_steering_rad = s\<rparr>))"

record simulation_sample =
  sm_time_s :: f64
  sm_state :: vehicle_state
  sm_command :: control_command
  sm_step_id :: int

definition SimulationSample :: "int \<Rightarrow> f64 \<Rightarrow> vehicle_state \<Rightarrow> control_command \<Rightarrow> simulation_sample result" where
  "SimulationSample step_id time state command =
     bindR (finite_real time) (\<lambda>t.
     bindR (guardR (step_id < 0) ValueError) (\<lambda>_.
       Inr \<lparr>sm_time_s = t, sm_state = state, sm_command = command, sm_step_id = step_id\<rparr>))"

section \<open>Clamping and wrapping\<close>

definition clamp :: "f64 \<Rightarrow> f64 \<Rightarrow> f64 \<Rightarrow> f64" where
  "clamp value lower upper = fmax lower (fmin value upper)"

definition wrap_angle :: "f64 \<Rightarrow> f64 result" where
  "wrap_angle angle =
     bindR (finite_real angle) (\<lambda>a.
     bindR (py_mod (fadd a f64_pi) f64_two_pi) (\<lambda>m. Inr (fsub m f64_pi)))"

section \<open>A step of the model\<close>

text \<open>The tolerance is \<^verbatim>\<open>1e-12\<close>.\<close>

definition state_tolerance :: f64 where "state_tolerance = 0x3D719799812DEA11"

definition validate_state :: "vehicle_parameters \<Rightarrow> vehicle_state \<Rightarrow> unit result" where
  "validate_state p s =
     (if flt (vs_speed_mps s) (fneg state_tolerance)
         \<or> flt (fadd (vp_max_speed_mps p) state_tolerance) (vs_speed_mps s) then Inl ValueError
      else if flt (fadd (vp_max_steering_rad p) state_tolerance) (fabs (vs_steering_rad s)) then Inl ValueError
      else if flt (vs_acceleration_mps2 s) (fsub (fneg (vp_max_deceleration_mps2 p)) state_tolerance) then Inl ValueError
      else if flt (fadd (vp_max_acceleration_mps2 p) state_tolerance) (vs_acceleration_mps2 s) then Inl ValueError
      else Inr ())"

text \<open>\<^verbatim>\<open>-math.expm1(-dt_s / time_constant)\<close>\<close>

definition response :: "libm \<Rightarrow> f64 \<Rightarrow> f64 \<Rightarrow> f64 result" where
  "response lib dt time_constant =
     bindR (py_div (fneg dt) time_constant) (\<lambda>q.
     bindR (math_call (lm_expm1 lib) True q) (\<lambda>e. Inr (fneg e)))"

text \<open>An actuator follows its request and stays within its limits.\<close>

definition actuate :: "f64 \<Rightarrow> f64 \<Rightarrow> f64 \<Rightarrow> f64 \<Rightarrow> f64 \<Rightarrow> f64" where
  "actuate value gain request lower upper =
     clamp (fadd value (fmul gain (fsub request value))) lower upper"

text \<open>The state after the actuators: the pose is integrated at the heading of the half step.\<close>

definition integrate_pose ::
  "libm \<Rightarrow> vehicle_parameters \<Rightarrow> vehicle_state \<Rightarrow> f64 \<Rightarrow> f64 \<Rightarrow> f64 \<Rightarrow> f64 \<Rightarrow> vehicle_state result" where
  "integrate_pose lib p s dt speed steering acceleration =
     bindR (math_call (lm_tan lib) False steering) (\<lambda>tangent.
     bindR (py_div (fmul speed tangent) (vp_wheelbase_m p)) (\<lambda>yaw_rate.
     let heading_midpoint = fadd (vs_heading_rad s) (fmul (fmul 0x3FE0000000000000 yaw_rate) dt) in
     bindR (math_call (lm_cos lib) False heading_midpoint) (\<lambda>cosine.
     bindR (math_call (lm_sin lib) False heading_midpoint) (\<lambda>sine.
     bindR (wrap_angle (fadd (vs_heading_rad s) (fmul yaw_rate dt))) (\<lambda>heading.
       VehicleState \<lparr>vs_x_m = fadd (vs_x_m s) (fmul (fmul speed cosine) dt),
         vs_y_m = fadd (vs_y_m s) (fmul (fmul speed sine) dt), vs_heading_rad = heading, vs_speed_mps = speed,
         vs_steering_rad = steering, vs_acceleration_mps2 = acceleration\<rparr>)))))"

text \<open>Speed, steering and acceleration after the actuators; a vehicle held at a speed limit does not accelerate.\<close>

definition actuated ::
  "vehicle_parameters \<Rightarrow> vehicle_state \<Rightarrow> control_command \<Rightarrow> f64 \<Rightarrow> f64 \<Rightarrow> f64 \<Rightarrow> f64 \<times> f64 \<times> f64" where
  "actuated p s command dt acceleration_response steering_response =
     (let requested_acceleration = clamp (cm_acceleration_mps2 command)
            (fneg (vp_max_deceleration_mps2 p)) (vp_max_acceleration_mps2 p);
          requested_steering = clamp (cm_steering_rad command) (fneg (vp_max_steering_rad p)) (vp_max_steering_rad p);
          acceleration = actuate (vs_acceleration_mps2 s) acceleration_response requested_acceleration
            (fneg (vp_max_deceleration_mps2 p)) (vp_max_acceleration_mps2 p);
          steering = actuate (vs_steering_rad s) steering_response requested_steering
            (fneg (vp_max_steering_rad p)) (vp_max_steering_rad p);
          speed = clamp (fadd (vs_speed_mps s) (fmul acceleration dt)) 0 (vp_max_speed_mps p)
      in (speed, steering,
          if feq speed 0 \<and> flt acceleration 0 \<or> feq speed (vp_max_speed_mps p) \<and> flt 0 acceleration
          then 0 else acceleration))"

definition vehicle_step ::
  "libm \<Rightarrow> vehicle_parameters \<Rightarrow> vehicle_state \<Rightarrow> control_command \<Rightarrow> f64 \<Rightarrow> vehicle_state result" where
  "vehicle_step lib p s command dt_s =
     bindR (finite_real dt_s) (\<lambda>dt.
     bindR (guardR (fle dt 0) ValueError) (\<lambda>_.
     bindR (validate_state p s) (\<lambda>_.
     bindR (response lib dt (vp_acceleration_time_constant_s p)) (\<lambda>acceleration_response.
     bindR (response lib dt (vp_steering_time_constant_s p)) (\<lambda>steering_response.
       (case actuated p s command dt acceleration_response steering_response of
          (speed, steering, acceleration) \<Rightarrow>
            bindR (integrate_pose lib p s dt speed steering acceleration) (\<lambda>next_state.
            bindR (validate_state p next_state) (\<lambda>_. Inr next_state))))))))"

section \<open>The fixed-step run\<close>

text \<open>The samples from \<open>step_id\<close> on, with \<open>left\<close> steps to integrate; \<^verbatim>\<open>step_id * dt_s\<close> makes the int a float.\<close>

fun simulate_from ::
  "libm \<Rightarrow> vehicle_parameters \<Rightarrow> f64 \<Rightarrow> (int \<Rightarrow> f64 \<Rightarrow> control_command result) \<Rightarrow> nat \<Rightarrow> int \<Rightarrow> vehicle_state
     \<Rightarrow> simulation_sample list result" where
  "simulate_from lib p dt command_at left step_id state =
     bindR (float_of_int step_id) (\<lambda>k.
     let time = fmul k dt in
     bindR (command_at step_id time) (\<lambda>command.
     bindR (SimulationSample step_id time state command) (\<lambda>sample.
       (case left of
          0 \<Rightarrow> Inr [sample]
        | Suc n \<Rightarrow>
            bindR (vehicle_step lib p state command dt) (\<lambda>state'.
            bindR (simulate_from lib p dt command_at n (step_id + 1) state') (\<lambda>samples.
              Inr (sample # samples)))))))"

declare simulate_from.simps [simp del]

definition simulate_fixed_step ::
  "libm \<Rightarrow> vehicle_parameters \<Rightarrow> vehicle_state \<Rightarrow> f64 \<Rightarrow> int \<Rightarrow> (int \<Rightarrow> f64 \<Rightarrow> control_command result)
     \<Rightarrow> simulation_sample list result" where
  "simulate_fixed_step lib p initial dt_s step_count command_at =
     bindR (finite_real dt_s) (\<lambda>dt.
     bindR (guardR (fle dt 0) ValueError) (\<lambda>_.
     bindR (guardR (step_count < 1) ValueError) (\<lambda>_.
       simulate_from lib p dt command_at (nat step_count) 0 initial)))"

text \<open>The legacy demo commands; the angles are \<^verbatim>\<open>math.radians(18.0)\<close> and its negative.\<close>

definition scripted_command :: "f64 \<Rightarrow> control_command result" where
  "scripted_command time_s =
     bindR (finite_real time_s) (\<lambda>t.
       if flt t 0x4010000000000000 then ControlCommand 0x3FF0000000000000 0
       else if flt t 0x4022000000000000 then ControlCommand 0 0x3FD41B2F769CF0E0
       else if flt t 0x402C000000000000 then ControlCommand 0 0xBFD41B2F769CF0E0
       else if flt t 0x4032000000000000 then ControlCommand 0xBFE999999999999A 0
       else ControlCommand 0xC000000000000000 0)"

section \<open>Limits\<close>

lemma fle_refl: "isfinite x \<Longrightarrow> fle x x"
  by (simp add: fle_key)

lemma zero_key [simp]: "f64_key 0 = 0" "isfinite 0" "\<not> isnan 0" "f64_units 0 = 0"
  by (simp_all add: f64_key_def f64_mag_def isfinite_def isnan_def f64_inf_mag_def f64_units_def)

text \<open>A clamped value is within its limits even if it was NaN: the comparisons then keep the lower one.\<close>

lemma clamp_range:
  assumes "isfinite lower" "isfinite upper" "fle lower upper"
  shows "isfinite (clamp x lower upper) \<and> fle lower (clamp x lower upper) \<and> fle (clamp x lower upper) upper"
proof -
  note lu = assms(3) [unfolded fle_key [OF assms(1,2)]]
  have nan: "\<not> isnan lower" "\<not> isnan upper" using assms isfinite_not_nan by blast+
  have key: "\<bar>f64_key lower\<bar> < int f64_inf_mag" "\<bar>f64_key upper\<bar> < int f64_inf_mag"
    using assms(1,2) by (simp_all add: isfinite_key)
  have "isfinite x" if "\<not> isnan x" "f64_key lower \<le> f64_key x" "f64_key x \<le> f64_key upper" for x
    unfolding isfinite_key [symmetric] using key that by linarith
  then show ?thesis
    using lu nan assms(1,2) by (auto simp: clamp_def fmax_def fmin_def flt_def fle_def)
qed

lemma sequenceR_finite: "sequenceR (map finite_real xs) = (if list_all isfinite xs then Inr xs else Inl ValueError)"
  by (induction xs) (auto simp: finite_real_def bindR_def split: sum.splits)

definition parameters_ok :: "vehicle_parameters \<Rightarrow> bool" where
  "parameters_ok p \<longleftrightarrow> list_all (\<lambda>x. isfinite x \<and> 0 < f64_key x) (vp_fields p) \<and> flt (vp_max_steering_rad p) f64_half_pi"

lemma VehicleParameters_ok:
  assumes "VehicleParameters p = Inr q"
  shows "q = p \<and> parameters_ok p"
proof -
  have "list_all isfinite (vp_fields p)" "\<not> list_ex (\<lambda>x. fle x 0) (vp_fields p)"
    "\<not> fle f64_half_pi (vp_max_steering_rad p)" "q = p"
    using assms by (auto simp: VehicleParameters_def sequenceR_finite bindR_eq_Inr guardR_eq_Inr split: if_splits)
  moreover have "\<not> isnan f64_half_pi" by (simp add: f64_half_pi_def isnan_def f64_mag_def f64_inf_mag_def)
  moreover have "isfinite (vp_max_steering_rad p)" using calculation(1) by (simp add: vp_fields_def)
  ultimately show ?thesis
    by (auto simp: parameters_ok_def list_all_iff list_ex_iff fle_def flt_def isfinite_not_nan)
qed

text \<open>Within the limits exactly: no tolerance is used up.\<close>

definition within_limits :: "vehicle_parameters \<Rightarrow> vehicle_state \<Rightarrow> bool" where
  "within_limits p s \<longleftrightarrow>
     list_all isfinite (vs_fields s)
     \<and> fle 0 (vs_speed_mps s) \<and> fle (vs_speed_mps s) (vp_max_speed_mps p)
     \<and> fle (fneg (vp_max_steering_rad p)) (vs_steering_rad s) \<and> fle (vs_steering_rad s) (vp_max_steering_rad p)
     \<and> fle (fneg (vp_max_deceleration_mps2 p)) (vs_acceleration_mps2 s)
     \<and> fle (vs_acceleration_mps2 s) (vp_max_acceleration_mps2 p)"

lemma round_key_zero [simp]: "round_key 0 = 0"
  by (simp add: round_key_def)

lemma pi_facts: "isfinite f64_pi" "isfinite f64_two_pi" "f64_mag f64_two_pi \<noteq> 0" "\<not> f64_neg f64_two_pi"
  "f64_units f64_two_pi = f64_units f64_pi + f64_units f64_pi" "0 < f64_key f64_pi" "0 \<le> f64_units f64_pi"
  "f64_key f64_two_pi < int f64_inf_mag"
proof -
  have "f64_units_mag 0x400921FB54442D18 = 7074237752028440 * 2 ^ 1023"
    by (rule f64_units_mag_normal [where e = 1024 and f = 2570638124657944]) simp_all
  then have p: "f64_units f64_pi = 7074237752028440 * 2 ^ 1023"
    by (simp add: f64_units_def f64_pi_def f64_neg_def f64_mag_def)
  have "f64_units_mag 0x401921FB54442D18 = 7074237752028440 * 2 ^ 1024"
    by (rule f64_units_mag_normal [where e = 1025 and f = 2570638124657944]) simp_all
  then have "f64_units f64_two_pi = 7074237752028440 * 2 ^ 1024"
    by (simp add: f64_units_def f64_two_pi_def f64_neg_def f64_mag_def)
  with p show "f64_units f64_two_pi = f64_units f64_pi + f64_units f64_pi" "0 \<le> f64_units f64_pi" by simp_all
qed (simp_all add: f64_pi_def f64_two_pi_def isfinite_def f64_mag_def f64_neg_def f64_inf_mag_def f64_key_def)

text \<open>A wrapped angle is within half a turn.\<close>

lemma py_mod_two_pi:
  assumes "py_mod x f64_two_pi = Inr m" "isfinite x"
  shows "isfinite m \<and> 0 \<le> f64_key m \<and> f64_key m \<le> f64_key f64_two_pi"
proof -
  let ?r = "fmod x f64_two_pi" and ?T = "f64_units_mag (f64_mag f64_two_pi)"
  have T: "int ?T = f64_units f64_two_pi" "f64_round_mag ?T 0 = f64_mag f64_two_pi"
    using pi_facts(2,4) by (simp_all add: f64_units_parts f64_sign_def f64_round_units isfinite_def)
  have pos: "0 < ?T" using T pi_facts(3) by (intro gr0I) auto
  have fin: "\<not> isnan x" "\<not> isnan f64_two_pi" using assms(2) pi_facts(2) isfinite_not_nan by blast+
  have mag: "f64_mag ?r \<le> f64_mag f64_two_pi" and neg: "f64_neg ?r = f64_neg x"
    using f64_round_mag_mono [of "f64_units_mag (f64_mag x) mod ?T" ?T 0] pos T(2) fin assms(2) pi_facts(2)
    by (simp_all add: fmod_def less_imp_le)
  have r: "isfinite ?r" using mag pi_facts(2) by (simp add: isfinite_def)
  have two: "f64_key f64_two_pi = int (f64_mag f64_two_pi)" using pi_facts(4) by (simp add: f64_key_def)
  have zero: "\<not> flt f64_two_pi 0" using two by (simp add: flt_def)
  consider "m = f64_of (f64_neg f64_two_pi) 0" | "m = ?r" "\<not> flt ?r 0" | "m = fadd ?r f64_two_pi" "flt ?r 0"
    using assms(1) pi_facts(3) zero by (auto simp: py_mod_def Let_def split: if_splits)
  then show ?thesis
  proof cases
    case 1
    then have "m = 0" using pi_facts(4) by (simp add: f64_of_def)
    with two show ?thesis by simp
  next
    case 2
    then have "0 \<le> f64_key ?r" using r isfinite_not_nan by (simp add: flt_def)
    moreover have "f64_key ?r \<le> f64_key f64_two_pi" unfolding two using mag by (simp add: f64_key_def)
    ultimately show ?thesis using r 2(1) by simp
  next
    case 3
    then have k: "f64_key ?r \<le> f64_key 0" by (simp add: flt_def)
    have "f64_key (fneg f64_two_pi) \<le> f64_key ?r" using mag pi_facts(4) by (simp add: f64_key_def)
    from f64_units_mono [OF this] f64_units_mono [OF k]
    have u: "0 \<le> f64_units ?r + f64_units f64_two_pi" "f64_units ?r + f64_units f64_two_pi \<le> f64_units f64_two_pi"
      by simp_all
    have key: "f64_key m = round_key (f64_units ?r + f64_units f64_two_pi)"
      unfolding 3(1) by (rule fadd_key [OF r pi_facts(2)])
    have lo: "0 \<le> f64_key m" using round_key_mono [OF u(1)] unfolding key by simp
    have hi: "f64_key m \<le> f64_key f64_two_pi"
      using round_key_mono [OF u(2)] unfolding key round_key_units [OF pi_facts(2)] .
    moreover have "isfinite m"
      unfolding isfinite_key [symmetric] using lo hi pi_facts(8) by linarith
    ultimately show ?thesis using lo by simp
  qed
qed

text \<open>Half a turn is far below half a unit in the last place of the largest float.\<close>

lemma add_pi_finite: "isfinite a \<Longrightarrow> isfinite (fadd a f64_pi)"
proof -
  assume a: "isfinite a"
  define top :: nat where "top = 36028797018963965 * 2 ^ 2043"
  have b: "bit_len 36028797018963965 = 2 + 53"
    using bit_len_unique [of 54 36028797018963965] by simp
  have r: "f64_round_mag top 0 < f64_inf_mag"
    using f64_round_mag_scale [OF _ _ b, of 0 2043]
    by (simp add: top_def f64_inf_mag_def round_half_even_def)
  have "f64_units_mag (2046 * 2 ^ 52 + (2 ^ 52 - 1)) = (2 ^ 52 + (2 ^ 52 - 1)) * 2 ^ 2045"
    by (rule f64_units_mag_normal [where e = 2046 and f = "2 ^ 52 - 1"]) simp_all
  moreover have "f64_mag a \<le> 2046 * 2 ^ 52 + (2 ^ 52 - 1)" using a by (simp add: isfinite_def f64_inf_mag_def)
  ultimately have m: "f64_units_mag (f64_mag a) \<le> (2 ^ 53 - 1) * 2 ^ 2045"
    using f64_units_mag_mono by fastforce
  have "f64_units_mag 0x400921FB54442D18 = 7074237752028440 * 2 ^ 1023"
    by (rule f64_units_mag_normal [where e = 1024 and f = 2570638124657944]) simp_all
  then have p: "f64_units f64_pi = int (7074237752028440 * 2 ^ 1023)"
    by (simp add: f64_units_def f64_pi_def f64_neg_def f64_mag_def)
  have "f64_units a \<le> int ((2 ^ 53 - 1) * 2 ^ 2045)"
    using m by (cases "f64_neg a") (simp_all add: f64_units_parts f64_sign_def)
  moreover have "7074237752028440 * 2 ^ 1023 \<le> (2 :: nat) ^ 53 * 2 ^ 1023" by (intro mult_le_mono1) simp
  then have "7074237752028440 * 2 ^ 1023 \<le> (2 :: nat) ^ 2043"
    using power_increasing [of "53 + 1023" 2043 "2 :: nat"] unfolding power_add by linarith
  then have "int (7074237752028440 * 2 ^ 1023) \<le> int (2 ^ 2043)" by (simp only: zle_int)
  moreover have "(2 ^ 53 - 1) * 2 ^ 2045 + 2 ^ 2043 = top"
    using power_add [of "2 :: nat" 2 2043] unfolding top_def by simp
  then have "int ((2 ^ 53 - 1) * 2 ^ 2045) + int (2 ^ 2043) = int top" by (simp only: of_nat_add [symmetric])
  ultimately have "f64_units a + f64_units f64_pi \<le> int top" unfolding p by linarith
  from round_key_mono [OF this] have hi: "f64_key (fadd a f64_pi) < int f64_inf_mag"
    using r unfolding fadd_key [OF a pi_facts(1)] by (simp add: round_key_def)
  have "round_key (f64_units a) \<le> round_key (f64_units a + f64_units f64_pi)"
    using pi_facts(7) by (intro round_key_mono) simp
  then have "f64_key a \<le> f64_key (fadd a f64_pi)"
    unfolding fadd_key [OF a pi_facts(1)] round_key_units [OF a] .
  moreover have "\<bar>f64_key a\<bar> < int f64_inf_mag" using a by (simp add: isfinite_key)
  ultimately show ?thesis using hi unfolding isfinite_key [symmetric] by linarith
qed

lemma wrap_angle_range:
  assumes "wrap_angle a = Inr h"
  shows "isfinite h \<and> fle (fneg f64_pi) h \<and> fle h f64_pi"
proof -
  have a: "isfinite a" using assms by (auto simp: wrap_angle_def finite_real_def bindR_def split: if_splits)
  then obtain m where m: "py_mod (fadd a f64_pi) f64_two_pi = Inr m" and h: "h = fsub m f64_pi"
    using assms by (auto simp: wrap_angle_def finite_real_def bindR_eq_Inr)
  note r = py_mod_two_pi [OF m add_pi_finite [OF a]]
  have "f64_units 0 \<le> f64_units m" "f64_units m \<le> f64_units f64_two_pi" using r f64_units_mono [of 0 m] f64_units_mono [of m f64_two_pi] by simp_all
  then have u: "f64_units (fneg f64_pi) \<le> f64_units m + f64_units (fneg f64_pi)"
    "f64_units m + f64_units (fneg f64_pi) \<le> f64_units f64_pi"
    using pi_facts(5) by simp_all
  have fin: "isfinite m" "isfinite (fneg f64_pi)" using r pi_facts(1) by simp_all
  have key: "f64_key h = round_key (f64_units m + f64_units (fneg f64_pi))"
    unfolding h fsub_def by (rule fadd_key [OF fin])
  have "- f64_key f64_pi \<le> f64_key h"
    using round_key_mono [OF u(1)] unfolding key round_key_units [OF fin(2)] by simp
  moreover have "f64_key h \<le> f64_key f64_pi"
    using round_key_mono [OF u(2)] unfolding key round_key_units [OF pi_facts(1)] .
  moreover have "\<bar>f64_key f64_pi\<bar> < int f64_inf_mag" using pi_facts(1) by (simp add: isfinite_key)
  ultimately have "isfinite h" unfolding isfinite_key [symmetric] by linarith
  then show ?thesis
    using \<open>- f64_key f64_pi \<le> f64_key h\<close> \<open>f64_key h \<le> f64_key f64_pi\<close> pi_facts(1) by (simp add: fle_key)
qed

text \<open>Every state that a step produces is within the limits of the vehicle.\<close>

lemma limits_facts:
  assumes "parameters_ok p"
  shows "isfinite (vp_max_speed_mps p)" "isfinite (vp_max_steering_rad p)"
    "isfinite (vp_max_acceleration_mps2 p)" "isfinite (vp_max_deceleration_mps2 p)"
    "fle 0 (vp_max_speed_mps p)" "fle (fneg (vp_max_steering_rad p)) (vp_max_steering_rad p)"
    "fle (fneg (vp_max_deceleration_mps2 p)) (vp_max_acceleration_mps2 p)"
    "fle (fneg (vp_max_deceleration_mps2 p)) 0" "fle 0 (vp_max_acceleration_mps2 p)"
  using assms by (simp_all add: parameters_ok_def vp_fields_def fle_key)

lemma integrate_pose_Inr:
  assumes "integrate_pose lib p s dt speed steering acceleration = Inr s'"
  shows "list_all isfinite (vs_fields s')" "vs_speed_mps s' = speed" "vs_steering_rad s' = steering"
    "vs_acceleration_mps2 s' = acceleration" "fle (fneg f64_pi) (vs_heading_rad s')" "fle (vs_heading_rad s') f64_pi"
  using assms wrap_angle_range
  by (auto simp: integrate_pose_def VehicleState_def Let_def bindR_eq_Inr sequenceR_finite split: if_splits)

lemma actuated_limits:
  assumes "parameters_ok p" "actuated p s command dt ar sr = (v, r, a)"
  shows "fle 0 v \<and> fle v (vp_max_speed_mps p)
    \<and> fle (fneg (vp_max_steering_rad p)) r \<and> fle r (vp_max_steering_rad p)
    \<and> fle (fneg (vp_max_deceleration_mps2 p)) a \<and> fle a (vp_max_acceleration_mps2 p)"
proof -
  note limits = limits_facts [OF assms(1)]
  note c = clamp_range [of 0 "vp_max_speed_mps p"]
    clamp_range [of "fneg (vp_max_deceleration_mps2 p)" "vp_max_acceleration_mps2 p"]
    clamp_range [of "fneg (vp_max_steering_rad p)" "vp_max_steering_rad p"]
  show ?thesis
    using assms(2) c limits by (auto simp: actuated_def actuate_def Let_def)
qed

lemma vehicle_step_within:
  assumes "parameters_ok p" "vehicle_step lib p s command dt = Inr s'"
  shows "within_limits p s' \<and> fle (fneg f64_pi) (vs_heading_rad s') \<and> fle (vs_heading_rad s') f64_pi"
proof -
  obtain ar sr where "(case actuated p s command dt ar sr of (v, r, a) \<Rightarrow>
      bindR (integrate_pose lib p s dt v r a) (\<lambda>n. bindR (validate_state p n) (\<lambda>_. Inr n))) = Inr s'"
    using assms(2) by (auto simp: vehicle_step_def bindR_eq_Inr finite_real_def split: if_splits)
  then obtain v r a where act: "actuated p s command dt ar sr = (v, r, a)"
    and s': "integrate_pose lib p s dt v r a = Inr s'"
    by (cases "actuated p s command dt ar sr") (auto simp: bindR_eq_Inr)
  from actuated_limits [OF assms(1) act] integrate_pose_Inr [OF s'] show ?thesis
    by (simp add: within_limits_def)
qed

text \<open>Such a state passes the check of the next step; the tolerance is never needed.\<close>

lemma tolerance_facts: "isfinite state_tolerance" "0 \<le> f64_units state_tolerance" "0 \<le> f64_key state_tolerance"
  by (simp_all add: state_tolerance_def isfinite_def f64_mag_def f64_inf_mag_def f64_units_def f64_key_def f64_neg_def)

lemma add_tolerance: "isfinite x \<Longrightarrow> f64_key x \<le> f64_key (fadd x state_tolerance)"
  using round_key_mono [of "f64_units x" "f64_units x + f64_units state_tolerance"] tolerance_facts
  by (simp add: fadd_key round_key_units)

lemma sub_tolerance: "isfinite x \<Longrightarrow> f64_key (fsub x state_tolerance) \<le> f64_key x"
  using round_key_mono [of "f64_units x + f64_units (fneg state_tolerance)" "f64_units x"] tolerance_facts
  by (simp add: fadd_key round_key_units fsub_def)

lemma fabs_mag: "f64_mag (fabs x) = f64_mag x" "\<not> f64_neg (fabs x)"
  using f64_mag_less [of x] by (simp_all add: fabs_def)

lemma fabs_le: "fle (fneg m) x \<Longrightarrow> fle x m \<Longrightarrow> f64_key (fabs x) \<le> f64_key m"
  using fabs_mag [of x] by (auto simp: fle_def f64_key_def split: if_splits)

lemma within_limits_valid:
  assumes "parameters_ok p" "within_limits p s"
  shows "validate_state p s = Inr ()"
proof -
  note limits = limits_facts [OF assms(1)]
  have s: "f64_key 0 \<le> f64_key (vs_speed_mps s)" "f64_key (vs_speed_mps s) \<le> f64_key (vp_max_speed_mps p)"
    "f64_key (fabs (vs_steering_rad s)) \<le> f64_key (vp_max_steering_rad p)"
    "f64_key (fneg (vp_max_deceleration_mps2 p)) \<le> f64_key (vs_acceleration_mps2 s)"
    "f64_key (vs_acceleration_mps2 s) \<le> f64_key (vp_max_acceleration_mps2 p)"
    using assms(2) fabs_le unfolding within_limits_def fle_def by (simp_all add: fle_def)
  show ?thesis
    unfolding validate_state_def flt_def
    using s tolerance_facts add_tolerance [OF limits(1)] add_tolerance [OF limits(2)] add_tolerance [OF limits(3)]
      sub_tolerance [of "fneg (vp_max_deceleration_mps2 p)"] limits(4)
    by simp
qed

section \<open>Runs\<close>

text \<open>What the samples of a run say, from step \<open>k\<close> on.\<close>

fun run_of ::
  "libm \<Rightarrow> vehicle_parameters \<Rightarrow> f64 \<Rightarrow> (int \<Rightarrow> f64 \<Rightarrow> control_command result) \<Rightarrow> int \<Rightarrow> simulation_sample list \<Rightarrow> bool" where
  "run_of lib p dt command_at k [] \<longleftrightarrow> True"
| "run_of lib p dt command_at k (x # xs) \<longleftrightarrow>
     sm_step_id x = k \<and> bindR (float_of_int k) (\<lambda>n. Inr (fmul n dt)) = Inr (sm_time_s x)
     \<and> command_at k (sm_time_s x) = Inr (sm_command x)
     \<and> (case xs of [] \<Rightarrow> True
        | y # _ \<Rightarrow> vehicle_step lib p (sm_state x) (sm_command x) dt = Inr (sm_state y))
     \<and> run_of lib p dt command_at (k + 1) xs"

lemma simulate_from_Inr:
  "simulate_from lib p dt command_at left k state = Inr xs \<Longrightarrow>
     run_of lib p dt command_at k xs \<and> length xs = left + 1 \<and> sm_state (hd xs) = state
     \<and> list_all (\<lambda>x. isfinite (sm_time_s x)) xs"
proof (induction left arbitrary: k state xs)
  case 0
  then show ?case
    by (subst (asm) simulate_from.simps)
      (auto simp: Let_def bindR_eq_Inr guardR_eq_Inr SimulationSample_def finite_real_def split: if_splits)
next
  case (Suc n)
  then obtain m command x state' ys where
    m: "float_of_int k = Inr m" "command_at k (fmul m dt) = Inr command" "SimulationSample k (fmul m dt) state command = Inr x"
      "vehicle_step lib p state command dt = Inr state'" "simulate_from lib p dt command_at n (k + 1) state' = Inr ys"
      "xs = x # ys"
    by (subst (asm) simulate_from.simps) (auto simp: Let_def bindR_eq_Inr)
  have x: "sm_time_s x = fmul m dt" "sm_state x = state" "sm_command x = command" "sm_step_id x = k" "isfinite (fmul m dt)"
    using m(3) by (auto simp: SimulationSample_def bindR_eq_Inr guardR_eq_Inr finite_real_def split: if_splits)
  note ys = Suc.IH [OF m(5)]
  then obtain y zs where y: "ys = y # zs" by (cases ys) auto
  show ?case using m x ys by (simp add: y bindR_def)
qed

text \<open>
  A run of the plant is the sequence its documentation promises: one sample more than steps,
  sample k at time k * dt with the command asked for that time, the first in the initial state,
  each further state one model step after the one before under that sample's command.
\<close>

theorem plant_run_samples:
  assumes "simulate_fixed_step lib p initial dt n command_at = Inr samples"
  shows "run_of lib p dt command_at 0 samples \<and> length samples = nat n + 1 \<and> sm_state (hd samples) = initial"
proof -
  from assms have "simulate_from lib p dt command_at (nat n) 0 initial = Inr samples"
    by (auto simp: simulate_fixed_step_def bindR_eq_Inr finite_real_def split: if_splits)
  from simulate_from_Inr [OF this] show ?thesis by simp
qed

lemma run_of_within:
  assumes "parameters_ok p"
  shows "run_of lib p dt command_at k xs \<Longrightarrow> xs \<noteq> [] \<Longrightarrow> within_limits p (sm_state (hd xs)) \<Longrightarrow>
    list_all (\<lambda>x. within_limits p (sm_state x) \<and> validate_state p (sm_state x) = Inr ()) xs"
proof (induction xs arbitrary: k)
  case (Cons x xs)
  show ?case
  proof (cases xs)
    case Nil
    with Cons.prems within_limits_valid [OF assms] show ?thesis by simp
  next
    case (Cons y ys)
    with Cons.prems have "vehicle_step lib p (sm_state x) (sm_command x) dt = Inr (sm_state y)" by simp
    from vehicle_step_within [OF assms this] Cons.IH [of "k + 1"] Cons.prems Cons within_limits_valid [OF assms]
    show ?thesis by simp
  qed
qed simp

text \<open>
  C31: The plant stays within its limits. From a state within the limits, every sample of a run has a
  speed between zero and the maximum, steering and acceleration within theirs and only finite
  components, whatever the commands ask for and whatever the mathematics library returns; so the
  state check of the next step, tolerance or not, never fails.
\<close>

theorem plant_within_limits:
  assumes "VehicleParameters p = Inr p" "within_limits p initial"
    and "simulate_fixed_step lib p initial dt n command_at = Inr samples"
  shows "list_all (\<lambda>x. within_limits p (sm_state x) \<and> validate_state p (sm_state x) = Inr ()) samples"
proof -
  have p: "parameters_ok p" using VehicleParameters_ok [OF assms(1)] by simp
  from assms(3) have "simulate_from lib p dt command_at (nat n) 0 initial = Inr samples"
    by (auto simp: simulate_fixed_step_def bindR_eq_Inr finite_real_def split: if_splits)
  from simulate_from_Inr [OF this] have "run_of lib p dt command_at 0 samples" "samples \<noteq> []"
    "sm_state (hd samples) = initial" by auto
  with run_of_within [OF p] assms(2) show ?thesis by simp
qed

text \<open>A vehicle at rest, with the default parameters, for one step of a quarter of a second.\<close>

definition rest_lib :: libm where
  "rest_lib = \<lparr>lm_sin = (\<lambda>_. 0), lm_cos = (\<lambda>_. 0), lm_tan = (\<lambda>_. 0), lm_expm1 = (\<lambda>_. 0),
     lm_atan2 = (\<lambda>_ _. 0), lm_hypot = (\<lambda>_ _. 0)\<rparr>"

definition rest_command :: "int \<Rightarrow> f64 \<Rightarrow> control_command result" where
  "rest_command k t = ControlCommand 0 0"

lemma default_ok: "VehicleParameters default_parameters = Inr default_parameters"
  by (simp add: VehicleParameters_def default_parameters_def vp_fields_def finite_real_def isfinite_def f64_mag_def
      f64_inf_mag_def fle_def isnan_def f64_key_def f64_neg_def f64_half_pi_def guardR_def)

lemma zero_products:
  "isfinite x \<Longrightarrow> f64_mag (fmul x 0) = 0" "f64_mag z = 0 \<Longrightarrow> isfinite x \<Longrightarrow> f64_mag (fmul z x) = 0"
  "f64_mag z = 0 \<Longrightarrow> isfinite x \<Longrightarrow> f64_mag (fdiv z x) = 0"
proof -
  have "f64_round_mag 0 1074 = 0" "f64_round_mag 0 2 = 0"
    by (simp_all add: f64_round_mag_def round_half_even_def bit_len.simps [of 0])
  moreover have "f64_mag z = 0 \<Longrightarrow> isfinite z" for z by (simp add: isfinite_def f64_inf_mag_def)
  ultimately show "isfinite x \<Longrightarrow> f64_mag (fmul x 0) = 0" "f64_mag z = 0 \<Longrightarrow> isfinite x \<Longrightarrow> f64_mag (fmul z x) = 0"
    "f64_mag z = 0 \<Longrightarrow> isfinite x \<Longrightarrow> f64_mag (fdiv z x) = 0"
    using isfinite_not_nan by (simp_all add: fmul_def fdiv_def Let_def f64_mag_def [of 0])
qed

lemma zero_sum: "f64_mag z = 0 \<Longrightarrow> isfinite (fadd 0 z)"
proof -
  assume "f64_mag z = 0"
  then have "f64_key (fadd 0 z) = 0" "isfinite z"
    by (simp_all add: fadd_key isfinite_def f64_inf_mag_def f64_units_parts)
  then show ?thesis by (simp flip: isfinite_key add: f64_inf_mag_def)
qed

lemma VehicleState_finite: "list_all isfinite (vs_fields s) \<Longrightarrow> VehicleState s = Inr s"
  by (simp add: VehicleState_def sequenceR_finite)

lemma wrap_angle_finite: "isfinite a \<Longrightarrow> \<exists>h. wrap_angle a = Inr h"
  using pi_facts(3) by (auto simp: wrap_angle_def finite_real_def bindR_def py_mod_def Let_def)

lemma rest_step:
  assumes "isfinite dt" "\<not> fle dt 0" and p: "parameters_ok p"
  shows "\<exists>s'. vehicle_step rest_lib p initial_vehicle \<lparr>cm_acceleration_mps2 = 0, cm_steering_rad = 0\<rparr> dt = Inr s'"
    (is "\<exists>s'. vehicle_step _ ?p ?s ?c dt = _")
proof -
  note limits = limits_facts [OF p]
  have within: "within_limits ?p ?s"
    using limits by (simp add: within_limits_def initial_vehicle_def vs_fields_def fle_key)
  have call: "math_call (\<lambda>_. 0) b x = Inr 0" for b x
    by (simp add: math_call_def isinf_def f64_mag_def f64_inf_mag_def)
  have div: "f64_mag y \<noteq> 0 \<Longrightarrow> py_div x y = Inr (fdiv x y)" for x y by (simp add: py_div_def)
  have nz: "f64_mag (vp_wheelbase_m ?p) \<noteq> 0" "f64_mag (vp_acceleration_time_constant_s ?p) \<noteq> 0"
    "f64_mag (vp_steering_time_constant_s ?p) \<noteq> 0" "isfinite (vp_wheelbase_m ?p)"
    using p by (auto simp: parameters_ok_def vp_fields_def f64_key_def split: if_splits)
  obtain v r a where act: "actuated ?p ?s ?c dt (fneg 0) (fneg 0) = (v, r, a)"
    by (cases "actuated ?p ?s ?c dt (fneg 0) (fneg 0)")
  have bounds: "0 \<le> f64_key v" "f64_key v \<le> f64_key (vp_max_speed_mps ?p)"
    using actuated_limits [OF p act] by (simp_all add: fle_def)
  have fin: "isfinite v" "isfinite r" "isfinite a"
  proof -
    have key: "isfinite x" if "isfinite l" "isfinite u" "fle l x" "fle x u" for l u x
      unfolding isfinite_key [symmetric]
      using that isfinite_key [of l] isfinite_key [of u] unfolding fle_def by linarith
    show "isfinite v" "isfinite r" "isfinite a"
      using actuated_limits [OF p act] limits key [of 0 "vp_max_speed_mps ?p" v]
        key [of "fneg (vp_max_steering_rad ?p)" "vp_max_steering_rad ?p" r]
        key [of "fneg (vp_max_deceleration_mps2 ?p)" "vp_max_acceleration_mps2 ?p" a] by simp_all
  qed
  define yaw where "yaw = fdiv (fmul v 0) (vp_wheelbase_m ?p)"
  have yaw: "f64_mag yaw = 0" unfolding yaw_def using zero_products(1,3) fin(1) nz(4) by blast
  have turn: "isfinite (fadd 0 (fmul yaw dt))" using zero_sum zero_products(2) yaw assms(1) by blast
  obtain h where h: "wrap_angle (fadd 0 (fmul yaw dt)) = Inr h" using wrap_angle_finite [OF turn] by blast
  have "f64_mag (fmul (fmul v 0) dt) = 0" using zero_products(1,2) fin(1) assms(1) by blast
  then have move: "isfinite (fadd 0 (fmul (fmul v 0) dt))" by (rule zero_sum)
  obtain s' where s': "integrate_pose rest_lib ?p ?s dt v r a = Inr s'"
    using h move fin wrap_angle_range [OF h]
    by (simp add: integrate_pose_def rest_lib_def call div nz yaw_def [symmetric] initial_vehicle_def Let_def
        VehicleState_finite vs_fields_def)
  have "within_limits ?p s'"
    using actuated_limits [OF p act] integrate_pose_Inr [OF s'] by (simp add: within_limits_def)
  then have "vehicle_step rest_lib ?p ?s ?c dt = Inr s'"
    using assms s' act within_limits_valid [OF p] within
    by (simp add: vehicle_step_def finite_real_def guardR_def response_def div nz call rest_lib_def [THEN arg_cong [where f = lm_expm1]])
  then show ?thesis by blast
qed

lemma rest_run:
  "\<exists>samples. simulate_fixed_step rest_lib default_parameters initial_vehicle 0x3FD0000000000000 1 rest_command = Inr samples"
proof -
  let ?dt = "0x3FD0000000000000 :: f64"
  have dt: "isfinite ?dt" "\<not> fle ?dt 0"
    by (simp_all add: isfinite_def fle_def isnan_def f64_key_def f64_neg_def f64_mag_def f64_inf_mag_def)
  obtain s' where s': "vehicle_step rest_lib default_parameters initial_vehicle
      \<lparr>cm_acceleration_mps2 = 0, cm_steering_rad = 0\<rparr> ?dt = Inr s'"
    using rest_step [OF dt] VehicleParameters_ok [OF default_ok] by blast
  have k: "float_of_int 0 = Inr 0" "float_of_int 1 = Inr 0x3FF0000000000000"
    using bit_len_unique [of 0 1] by (simp_all add: float_of_int_def f64_of_def f64_inf_mag_def)
  have one: "isfinite (0x3FF0000000000000 :: f64)" by (simp add: isfinite_def f64_mag_def f64_inf_mag_def)
  have "f64_units_mag 0x3FF0000000000000 = 4503599627370496 * 2 ^ 1022"
    "f64_units_mag 0x3FD0000000000000 = 4503599627370496 * 2 ^ 1020"
    by (rule f64_units_mag_normal [where e = 1023 and f = 0] f64_units_mag_normal [where e = 1021 and f = 0]; simp)+
  moreover have b: "bit_len 20282409603651670423947251286016 = 52 + 53"
    using bit_len_unique [of 104 20282409603651670423947251286016] by simp
  ultimately have "fmul 0x3FF0000000000000 ?dt = ?dt"
    using fmul_normal [where x = "0x3FF0000000000000" and y = ?dt, OF _ _ one dt(1) _ _ b, of 4503599627370496 1022 4503599627370496 1020]
    by (simp add: f64_mag_def f64_neg_def f64_of_def f64_inf_mag_def round_half_even_def)
  moreover have "f64_mag (fmul 0 ?dt) = 0" using zero_products(2) [of 0 ?dt] dt(1) by (simp add: f64_mag_def)
  then have "isfinite (fmul 0 ?dt)" by (simp add: isfinite_def f64_inf_mag_def)
  ultimately show ?thesis
    using dt s' k
    by (simp add: simulate_fixed_step_def finite_real_def guardR_def simulate_from.simps rest_command_def ControlCommand_def
        SimulationSample_def Let_def)
qed

theorem plant_run_samples_witness:
  "\<exists>samples. simulate_fixed_step rest_lib default_parameters initial_vehicle 0x3FD0000000000000 1 rest_command = Inr samples
     \<and> run_of rest_lib default_parameters 0x3FD0000000000000 rest_command 0 samples \<and> length samples = 2"
  using rest_run plant_run_samples [of rest_lib default_parameters initial_vehicle _ 1 rest_command] by fastforce

theorem plant_within_limits_witness:
  "\<exists>samples. simulate_fixed_step rest_lib default_parameters initial_vehicle 0x3FD0000000000000 1 rest_command = Inr samples
     \<and> list_all (\<lambda>x. within_limits default_parameters (sm_state x)
         \<and> validate_state default_parameters (sm_state x) = Inr ()) samples"
proof -
  have "within_limits default_parameters initial_vehicle"
    using limits_facts [of default_parameters] VehicleParameters_ok [OF default_ok]
    by (simp add: within_limits_def initial_vehicle_def vs_fields_def fle_key)
  with rest_run plant_within_limits [OF default_ok] show ?thesis by blast
qed

end
