(* ===== verification/Sensors.thy ===== *)
theory Sensors
  imports Vehicle Py_Value Wire_Struct
begin

text \<open>
  The virtual sensors of \<^verbatim>\<open>sensors.py\<close>: fault specifications, configurations, measurements with
  sample and delivery times, and the pipeline that samples, delays, drops and delivers them. The
  random generator, SHA-256 and the C mathematics library are parameters. The heap of pending
  measurements is the list of its entries in the order in which \<^verbatim>\<open>heappop\<close> returns them.
\<close>

section \<open>Faults\<close>

record fault_spec =
  fs_target :: string
  fs_kind :: string
  fs_start_s :: f64
  fs_end_s :: f64
  fs_value :: f64

definition FAULT_KINDS :: "string list" where
  "FAULT_KINDS = [''dropout'', ''bias_acceleration_mps2'', ''bias_yaw_rate_rad_s'', ''scale_error'', ''outlier'',
     ''latency_spike'', ''packet_corruption'', ''packet_loss'', ''stale_frame'', ''disconnect'', ''manual_safe_stop'']"

definition FAULT_TARGETS :: "string list" where
  "FAULT_TARGETS = [''imu'', ''wheel_speed'', ''gnss'', ''landmark'', ''transport'', ''host'', ''runtime'']"

definition valid_faults :: "(string \<times> string list) list" where
  "valid_faults =
     [(''imu'', [''dropout'', ''bias_acceleration_mps2'', ''bias_yaw_rate_rad_s'', ''latency_spike'']),
      (''wheel_speed'', [''dropout'', ''scale_error'', ''latency_spike'']),
      (''gnss'', [''dropout'', ''latency_spike'']),
      (''landmark'', [''dropout'', ''outlier'', ''latency_spike'']),
      (''transport'', [''packet_corruption'', ''packet_loss'', ''latency_spike'', ''stale_frame'']),
      (''host'', [''disconnect'']),
      (''runtime'', [''manual_safe_stop''])]"

definition FaultSpec :: "string \<Rightarrow> string \<Rightarrow> f64 \<Rightarrow> f64 \<Rightarrow> f64 \<Rightarrow> fault_spec result" where
  "FaultSpec target kind start_s end_s value =
     bindR (guardR (target \<notin> set FAULT_TARGETS) ValueError) (\<lambda>_.
     bindR (guardR (kind \<notin> set FAULT_KINDS) ValueError) (\<lambda>_.
     bindR (finite_real start_s) (\<lambda>start. bindR (finite_real end_s) (\<lambda>stop. bindR (finite_real value) (\<lambda>v.
     bindR (guardR (flt start 0) ValueError) (\<lambda>_.
     bindR (guardR (fle stop start) ValueError) (\<lambda>_.
     bindR (guardR (kind = ''latency_spike'' \<and> flt v 0) ValueError) (\<lambda>_.
       (case map_of valid_faults target of
          None \<Rightarrow> Inl KeyError
        | Some kinds \<Rightarrow>
            if kind \<in> set kinds then
              Inr \<lparr>fs_target = target, fs_kind = kind, fs_start_s = start, fs_end_s = stop, fs_value = v\<rparr>
            else Inl ValueError)))))))))"

definition fault_active_at :: "fault_spec \<Rightarrow> f64 \<Rightarrow> bool" where
  "fault_active_at f time_s \<longleftrightarrow> fle (fs_start_s f) time_s \<and> flt time_s (fs_end_s f)"

section \<open>Configurations\<close>

text \<open>The fields that are floats are checked in one pass; dropout is a probability.\<close>

definition validate_common :: "f64 list \<Rightarrow> f64 \<Rightarrow> f64 \<Rightarrow> f64 \<Rightarrow> unit result" where
  "validate_common numbers rate_hz latency_s dropout =
     bindR (guardR (\<not> list_all isfinite numbers) ValueError) (\<lambda>_.
     bindR (guardR (flt dropout 0 \<or> flt 0x3FF0000000000000 dropout) ValueError) (\<lambda>_.
     bindR (guardR (fle rate_hz 0) ValueError) (\<lambda>_.
       guardR (flt latency_s 0) ValueError)))"

record imu_config =
  ic_enabled :: bool
  ic_rate_hz :: f64
  ic_acceleration_noise_std_mps2 :: f64
  ic_yaw_rate_noise_std_rad_s :: f64
  ic_acceleration_bias_mps2 :: f64
  ic_yaw_rate_bias_rad_s :: f64
  ic_latency_s :: f64
  ic_dropout_probability :: f64

definition ImuConfig :: "imu_config \<Rightarrow> imu_config result" where
  "ImuConfig c =
     bindR (validate_common
       [ic_rate_hz c, ic_acceleration_noise_std_mps2 c, ic_yaw_rate_noise_std_rad_s c, ic_acceleration_bias_mps2 c,
        ic_yaw_rate_bias_rad_s c, ic_latency_s c, ic_dropout_probability c]
       (ic_rate_hz c) (ic_latency_s c) (ic_dropout_probability c)) (\<lambda>_.
     bindR (guardR (flt (ic_acceleration_noise_std_mps2 c) 0) ValueError) (\<lambda>_.
     bindR (guardR (flt (ic_yaw_rate_noise_std_rad_s c) 0) ValueError) (\<lambda>_. Inr c)))"

record wheel_speed_config =
  wc_enabled :: bool
  wc_rate_hz :: f64
  wc_noise_std_mps :: f64
  wc_scale_error :: f64
  wc_latency_s :: f64
  wc_dropout_probability :: f64

definition WheelSpeedConfig :: "wheel_speed_config \<Rightarrow> wheel_speed_config result" where
  "WheelSpeedConfig c =
     bindR (validate_common
       [wc_rate_hz c, wc_noise_std_mps c, wc_scale_error c, wc_latency_s c, wc_dropout_probability c]
       (wc_rate_hz c) (wc_latency_s c) (wc_dropout_probability c)) (\<lambda>_.
     bindR (guardR (flt (wc_noise_std_mps c) 0) ValueError) (\<lambda>_.
     bindR (guardR (fle (wc_scale_error c) 0xBFF0000000000000) ValueError) (\<lambda>_. Inr c)))"

record gnss_config =
  gc_enabled :: bool
  gc_rate_hz :: f64
  gc_position_noise_std_m :: f64
  gc_latency_s :: f64
  gc_dropout_probability :: f64

definition GnssConfig :: "gnss_config \<Rightarrow> gnss_config result" where
  "GnssConfig c =
     bindR (validate_common
       [gc_rate_hz c, gc_position_noise_std_m c, gc_latency_s c, gc_dropout_probability c]
       (gc_rate_hz c) (gc_latency_s c) (gc_dropout_probability c)) (\<lambda>_.
     bindR (guardR (flt (gc_position_noise_std_m c) 0) ValueError) (\<lambda>_. Inr c))"

record landmark_config =
  lc_enabled :: bool
  lc_rate_hz :: f64
  lc_range_noise_std_m :: f64
  lc_bearing_noise_std_rad :: f64
  lc_max_range_m :: f64
  lc_field_of_view_rad :: f64
  lc_latency_s :: f64
  lc_dropout_probability :: f64
  lc_outlier_probability :: f64
  lc_outlier_range_std_m :: f64
  lc_outlier_bearing_std_rad :: f64

definition LandmarkConfig :: "landmark_config \<Rightarrow> landmark_config result" where
  "LandmarkConfig c =
     bindR (validate_common
       [lc_rate_hz c, lc_range_noise_std_m c, lc_bearing_noise_std_rad c, lc_max_range_m c, lc_field_of_view_rad c,
        lc_latency_s c, lc_dropout_probability c, lc_outlier_probability c, lc_outlier_range_std_m c,
        lc_outlier_bearing_std_rad c]
       (lc_rate_hz c) (lc_latency_s c) (lc_dropout_probability c)) (\<lambda>_.
     bindR (guardR (flt (lc_outlier_probability c) 0 \<or> flt 0x3FF0000000000000 (lc_outlier_probability c)) ValueError) (\<lambda>_.
     bindR (guardR (list_ex (\<lambda>x. flt x 0) [lc_range_noise_std_m c, lc_bearing_noise_std_rad c,
                      lc_outlier_range_std_m c, lc_outlier_bearing_std_rad c]) ValueError) (\<lambda>_.
     bindR (guardR (fle (lc_max_range_m c) 0) ValueError) (\<lambda>_.
     bindR (guardR (fle (lc_field_of_view_rad c) 0 \<or> flt f64_two_pi (lc_field_of_view_rad c)) ValueError) (\<lambda>_.
       Inr c)))))"

record sensor_suite_config =
  su_imu :: imu_config
  su_wheel_speed :: wheel_speed_config
  su_gnss :: gnss_config
  su_landmark :: landmark_config

record landmark =
  ld_landmark_id :: int
  ld_x_m :: f64
  ld_y_m :: f64

definition Landmark :: "int \<Rightarrow> f64 \<Rightarrow> f64 \<Rightarrow> landmark result" where
  "Landmark landmark_id x y =
     bindR (guardR (landmark_id < 0 \<or> 65535 < landmark_id) ValueError) (\<lambda>_.
     bindR (finite_real x) (\<lambda>x_m. bindR (finite_real y) (\<lambda>y_m.
       Inr \<lparr>ld_landmark_id = landmark_id, ld_x_m = x_m, ld_y_m = y_m\<rparr>)))"

section \<open>Measurements\<close>

text \<open>The four fields that every measurement begins with.\<close>

record measurement_times =
  mt_sample_step_id :: int
  mt_sample_time_s :: f64
  mt_delivery_step_id :: int
  mt_delivery_time_s :: f64

record landmark_observation =
  lo_landmark_id :: int
  lo_range_m :: f64
  lo_bearing_rad :: f64
  lo_is_outlier :: bool

datatype measurement =
    ImuMeasurement measurement_times f64 f64
  | WheelSpeedMeasurement measurement_times f64
  | GnssMeasurement measurement_times f64 f64
  | LandmarkMeasurement measurement_times "landmark_observation list"

fun times_of :: "measurement \<Rightarrow> measurement_times" where
  "times_of (ImuMeasurement t a y) = t"
| "times_of (WheelSpeedMeasurement t v) = t"
| "times_of (GnssMeasurement t x y) = t"
| "times_of (LandmarkMeasurement t obs) = t"

datatype sensor = IMU | WHEEL_SPEED | GNSS | LANDMARK

fun sensor_name :: "sensor \<Rightarrow> string" where
  "sensor_name IMU = ''imu''"
| "sensor_name WHEEL_SPEED = ''wheel_speed''"
| "sensor_name GNSS = ''gnss''"
| "sensor_name LANDMARK = ''landmark''"

fun measurement_kind :: "measurement \<Rightarrow> sensor" where
  "measurement_kind (ImuMeasurement t a y) = IMU"
| "measurement_kind (WheelSpeedMeasurement t v) = WHEEL_SPEED"
| "measurement_kind (GnssMeasurement t x y) = GNSS"
| "measurement_kind (LandmarkMeasurement t obs) = LANDMARK"

definition validate_measurement_common :: "measurement_times \<Rightarrow> unit result" where
  "validate_measurement_common t =
     bindR (guardR (mt_sample_step_id t < 0) ValueError) (\<lambda>_.
     bindR (guardR (mt_delivery_step_id t < mt_sample_step_id t) ValueError) (\<lambda>_.
     bindR (finite_real (mt_sample_time_s t)) (\<lambda>sample_time.
     bindR (finite_real (mt_delivery_time_s t)) (\<lambda>delivery_time.
       guardR (flt sample_time 0 \<or> flt delivery_time sample_time) ValueError))))"

text \<open>The checks of the constructors.\<close>

fun new_measurement :: "measurement \<Rightarrow> measurement result" where
  "new_measurement (ImuMeasurement t a y) =
     bindR (validate_measurement_common t) (\<lambda>_. bindR (finite_real a) (\<lambda>a'. bindR (finite_real y) (\<lambda>y'.
       Inr (ImuMeasurement t a' y'))))"
| "new_measurement (WheelSpeedMeasurement t v) =
     bindR (validate_measurement_common t) (\<lambda>_. bindR (finite_real v) (\<lambda>v'.
     bindR (guardR (flt v' 0) ValueError) (\<lambda>_. Inr (WheelSpeedMeasurement t v'))))"
| "new_measurement (GnssMeasurement t x y) =
     bindR (validate_measurement_common t) (\<lambda>_. bindR (finite_real x) (\<lambda>x'. bindR (finite_real y) (\<lambda>y'.
       Inr (GnssMeasurement t x' y'))))"
| "new_measurement (LandmarkMeasurement t obs) =
     bindR (validate_measurement_common t) (\<lambda>_. Inr (LandmarkMeasurement t obs))"

definition LandmarkObservation :: "int \<Rightarrow> f64 \<Rightarrow> f64 \<Rightarrow> bool \<Rightarrow> landmark_observation result" where
  "LandmarkObservation landmark_id range_m bearing_rad is_outlier =
     bindR (guardR (landmark_id < 0 \<or> 65535 < landmark_id) ValueError) (\<lambda>_.
     bindR (finite_real range_m) (\<lambda>range. bindR (finite_real bearing_rad) (\<lambda>bearing.
     bindR (guardR (flt range 0) ValueError) (\<lambda>_.
       Inr \<lparr>lo_landmark_id = landmark_id, lo_range_m = range, lo_bearing_rad = bearing, lo_is_outlier = is_outlier\<rparr>))))"

record sensor_event =
  sv_step_id :: int
  sv_time_s :: f64
  sv_event_type :: string
  sv_sensor :: string
  sv_detail :: string

definition SensorEvent :: "int \<Rightarrow> f64 \<Rightarrow> string \<Rightarrow> string \<Rightarrow> string \<Rightarrow> sensor_event result" where
  "SensorEvent step_id time_s event_type sensor detail =
     bindR (guardR (step_id < 0) ValueError) (\<lambda>_.
     bindR (finite_real time_s) (\<lambda>t.
     bindR (guardR (flt t 0) ValueError) (\<lambda>_.
     bindR (guardR (event_type = [] \<or> sensor = []) ValueError) (\<lambda>_.
       Inr \<lparr>sv_step_id = step_id, sv_time_s = t, sv_event_type = event_type, sv_sensor = sensor, sv_detail = detail\<rparr>))))"

end
