(* ===== verification/Sensor_Pipeline.thy ===== *)
theory Sensor_Pipeline
  imports Sensors
begin

text \<open>
  \<^verbatim>\<open>SensorPipeline\<close>: seeded sampling of the four sensors, faults, latency and delivery. Lemmas: no
  measurement is lost or invented, and what a step delivers is what was due, in order.
\<close>

section \<open>State\<close>

text \<open>\<^verbatim>\<open>random.Random\<close>: a generator made from a seed, uniform draws from [0, 1) and normal draws.\<close>

record 'r rng_ops =
  rg_seed :: "int \<Rightarrow> 'r"
  rg_random :: "'r \<Rightarrow> f64 \<times> 'r"
  rg_gauss :: "f64 \<Rightarrow> f64 \<Rightarrow> 'r \<Rightarrow> f64 \<times> 'r"

record 'r sensor_env =
  se_lib :: libm
  se_rng :: "'r rng_ops"
  se_sha256 :: "bytes \<Rightarrow> bytes"

record sensor_counts =
  ct_generated :: nat
  ct_delivered :: nat
  ct_dropped :: nat
  ct_outliers :: nat

type_synonym pending = "int \<times> nat \<times> measurement"

record 'r sensor_pipeline =
  pl_dt_s :: f64
  pl_parameters :: vehicle_parameters
  pl_config :: sensor_suite_config
  pl_landmarks :: "landmark list"
  pl_faults :: "fault_spec list"
  pl_period_steps :: "sensor \<Rightarrow> int"
  pl_rngs :: "sensor \<Rightarrow> 'r"
  pl_pending :: "pending list"
  pl_ordinal :: nat
  pl_last_step :: int
  pl_events :: "sensor_event list"
  pl_active_faults :: "nat list"
  pl_statistics :: "sensor \<Rightarrow> sensor_counts"

definition derived_seed :: "'r sensor_env \<Rightarrow> int \<Rightarrow> string \<Rightarrow> int" where
  "derived_seed env seed stream_name =
     int (le_nat (take 8 (se_sha256 env (ascii (''navbench-sensor-v1:'' @ show_int seed @ '':'' @ stream_name)))))"

text \<open>The tolerances are \<^verbatim>\<open>1e-10\<close> and \<^verbatim>\<open>1e-12\<close>.\<close>

definition sample_period :: "f64 \<Rightarrow> f64 \<Rightarrow> int result" where
  "sample_period dt rate_hz =
     bindR (py_div 0x3FF0000000000000 (fmul rate_hz dt)) (\<lambda>ratio.
     bindR (py_round ratio) (\<lambda>period.
     bindR (float_of_int period) (\<lambda>p.
       if period < 1 \<or> \<not> isclose_abs ratio p 0x3DDB7CDFD9D7BDBB then Inl ValueError else Inr period)))"

definition SensorPipeline ::
  "'r sensor_env \<Rightarrow> f64 \<Rightarrow> vehicle_parameters \<Rightarrow> sensor_suite_config \<Rightarrow> landmark list \<Rightarrow> fault_spec list \<Rightarrow> int
     \<Rightarrow> 'r sensor_pipeline result" where
  "SensorPipeline env dt_s parameters config landmarks faults seed =
     bindR (finite_real dt_s) (\<lambda>dt.
     bindR (guardR (fle dt 0) ValueError) (\<lambda>_.
     bindR (guardR (seed < 0 \<or> 2 ^ 64 - 1 < seed) ValueError) (\<lambda>_.
     bindR (guardR (\<not> distinct (map ld_landmark_id landmarks)) ValueError) (\<lambda>_.
     bindR (sample_period dt (ic_rate_hz (su_imu config))) (\<lambda>imu.
     bindR (sample_period dt (wc_rate_hz (su_wheel_speed config))) (\<lambda>wheel_speed.
     bindR (sample_period dt (gc_rate_hz (su_gnss config))) (\<lambda>gnss.
     bindR (sample_period dt (lc_rate_hz (su_landmark config))) (\<lambda>landmark.
       Inr \<lparr>pl_dt_s = dt, pl_parameters = parameters, pl_config = config, pl_landmarks = landmarks,
            pl_faults = faults,
            pl_period_steps = case_sensor imu wheel_speed gnss landmark,
            pl_rngs = (\<lambda>s. rg_seed (se_rng env) (derived_seed env seed (sensor_name s))),
            pl_pending = [], pl_ordinal = 0, pl_last_step = - 1, pl_events = [], pl_active_faults = [],
            pl_statistics = (\<lambda>_. \<lparr>ct_generated = 0, ct_delivered = 0, ct_dropped = 0, ct_outliers = 0\<rparr>)\<rparr>))))))))"

section \<open>Pieces of a step\<close>

definition count :: "sensor \<Rightarrow> (sensor_counts \<Rightarrow> sensor_counts) \<Rightarrow> 'r sensor_pipeline \<Rightarrow> 'r sensor_pipeline" where
  "count k f s = s\<lparr>pl_statistics := (pl_statistics s)(k := f (pl_statistics s k))\<rparr>"

definition draw_random :: "'r sensor_env \<Rightarrow> sensor \<Rightarrow> ('r sensor_pipeline, f64) meth" where
  "draw_random env k s =
     (case rg_random (se_rng env) (pl_rngs s k) of (x, r) \<Rightarrow> (Inr x, s\<lparr>pl_rngs := (pl_rngs s)(k := r)\<rparr>))"

definition draw_gauss :: "'r sensor_env \<Rightarrow> sensor \<Rightarrow> f64 \<Rightarrow> ('r sensor_pipeline, f64) meth" where
  "draw_gauss env k sigma s =
     (case rg_gauss (se_rng env) 0 sigma (pl_rngs s k) of (x, r) \<Rightarrow> (Inr x, s\<lparr>pl_rngs := (pl_rngs s)(k := r)\<rparr>))"

definition fault_active :: "'r sensor_pipeline \<Rightarrow> string \<Rightarrow> string \<Rightarrow> f64 \<Rightarrow> bool" where
  "fault_active s target kind time_s =
     list_ex (\<lambda>f. fs_target f = target \<and> fs_kind f = kind \<and> fault_active_at f time_s) (pl_faults s)"

definition fault_sum :: "'r sensor_pipeline \<Rightarrow> string \<Rightarrow> string \<Rightarrow> f64 \<Rightarrow> f64" where
  "fault_sum s target kind time_s =
     py_sum (map fs_value (filter (\<lambda>f. fs_target f = target \<and> fs_kind f = kind \<and> fault_active_at f time_s) (pl_faults s)))"

definition delivery :: "f64 \<Rightarrow> int \<Rightarrow> f64 \<Rightarrow> (int \<times> f64) result" where
  "delivery dt sample_step latency_s =
     bindR (py_div latency_s dt) (\<lambda>q.
     bindR (py_ceil (fsub q state_tolerance)) (\<lambda>n.
     let delivery_step = sample_step + max 0 n in
     bindR (float_of_int delivery_step) (\<lambda>k. Inr (delivery_step, fmul k dt))))"

text \<open>The entries of the heap are ordered by delivery step, then by ordinal.\<close>

fun heap_before :: "pending \<Rightarrow> pending \<Rightarrow> bool" where
  "heap_before (d, o1, m) (d', o2, m') \<longleftrightarrow> d < d' \<or> d = d' \<and> o1 < o2"

fun heap_push :: "pending \<Rightarrow> pending list \<Rightarrow> pending list" where
  "heap_push x [] = [x]"
| "heap_push x (y # ys) = (if heap_before x y then x # y # ys else y # heap_push x ys)"

definition record_or_drop ::
  "sensor \<Rightarrow> measurement \<Rightarrow> f64 \<Rightarrow> f64 \<Rightarrow> f64 \<Rightarrow> 'r sensor_pipeline \<Rightarrow> 'r sensor_pipeline" where
  "record_or_drop k m dropout_draw dropout_probability time_s s0 =
     (let s = count k (\<lambda>c. c\<lparr>ct_generated := ct_generated c + 1\<rparr>) s0
      in if fault_active s (sensor_name k) ''dropout'' time_s \<or> flt dropout_draw dropout_probability then
           count k (\<lambda>c. c\<lparr>ct_dropped := ct_dropped c + 1\<rparr>) s
         else
           s\<lparr>pl_ordinal := pl_ordinal s + 1,
             pl_pending := heap_push (mt_delivery_step_id (times_of m), pl_ordinal s + 1, m) (pl_pending s)\<rparr>)"

text \<open>The end of every sampling method: the latency, the measurement, and its fate.\<close>

definition emit ::
  "sensor \<Rightarrow> int \<Rightarrow> f64 \<Rightarrow> f64 \<Rightarrow> f64 \<Rightarrow> f64 \<Rightarrow> (measurement_times \<Rightarrow> measurement) \<Rightarrow> ('r sensor_pipeline, unit) meth" where
  "emit k step_id time_s latency dropout_draw dropout_probability build s =
     (case bindR (delivery (pl_dt_s s) step_id latency) (\<lambda>(delivery_step, delivery_time).
             new_measurement (build \<lparr>mt_sample_step_id = step_id, mt_sample_time_s = time_s,
               mt_delivery_step_id = delivery_step, mt_delivery_time_s = delivery_time\<rparr>)) of
        Inl e \<Rightarrow> (Inl e, s)
      | Inr m \<Rightarrow> (Inr (), record_or_drop k m dropout_draw dropout_probability time_s s))"

definition total_latency :: "'r sensor_pipeline \<Rightarrow> sensor \<Rightarrow> f64 \<Rightarrow> f64 \<Rightarrow> f64" where
  "total_latency s k latency_s time_s = fadd latency_s (fault_sum s (sensor_name k) ''latency_spike'' time_s)"

section \<open>Sampling\<close>

definition sample_imu :: "'r sensor_env \<Rightarrow> int \<Rightarrow> f64 \<Rightarrow> vehicle_state \<Rightarrow> ('r sensor_pipeline, unit) meth" where
  "sample_imu env step_id time_s state s0 =
     (let config = su_imu (pl_config s0) in
      bindM (draw_random env IMU) (\<lambda>dropout_draw.
      bindM (draw_gauss env IMU (ic_acceleration_noise_std_mps2 config)) (\<lambda>acceleration_noise.
      bindM (draw_gauss env IMU (ic_yaw_rate_noise_std_rad_s config)) (\<lambda>yaw_noise s.
        let acceleration_bias = fadd (ic_acceleration_bias_mps2 config)
              (fault_sum s ''imu'' ''bias_acceleration_mps2'' time_s);
            yaw_bias = fadd (ic_yaw_rate_bias_rad_s config) (fault_sum s ''imu'' ''bias_yaw_rate_rad_s'' time_s) in
        bindM (liftM (bindR (math_call (lm_tan (se_lib env)) False (vs_steering_rad state)) (\<lambda>tangent.
                 py_div (fmul (vs_speed_mps state) tangent) (vp_wheelbase_m (pl_parameters s))))) (\<lambda>yaw_rate.
          emit IMU step_id time_s (total_latency s IMU (ic_latency_s config) time_s)
            dropout_draw (ic_dropout_probability config)
            (\<lambda>t. ImuMeasurement t (fadd (fadd (vs_acceleration_mps2 state) acceleration_bias) acceleration_noise)
                   (fadd (fadd yaw_rate yaw_bias) yaw_noise))) s))) s0)"

definition sample_wheel :: "'r sensor_env \<Rightarrow> int \<Rightarrow> f64 \<Rightarrow> vehicle_state \<Rightarrow> ('r sensor_pipeline, unit) meth" where
  "sample_wheel env step_id time_s state s0 =
     (let config = su_wheel_speed (pl_config s0) in
      bindM (draw_random env WHEEL_SPEED) (\<lambda>dropout_draw.
      bindM (draw_gauss env WHEEL_SPEED (wc_noise_std_mps config)) (\<lambda>noise s.
        let scale_error = fadd (wc_scale_error config) (fault_sum s ''wheel_speed'' ''scale_error'' time_s) in
        emit WHEEL_SPEED step_id time_s (total_latency s WHEEL_SPEED (wc_latency_s config) time_s)
          dropout_draw (wc_dropout_probability config)
          (\<lambda>t. WheelSpeedMeasurement t
             (fmax 0 (fadd (fmul (vs_speed_mps state) (fadd 0x3FF0000000000000 scale_error)) noise))) s)) s0)"

definition sample_gnss :: "'r sensor_env \<Rightarrow> int \<Rightarrow> f64 \<Rightarrow> vehicle_state \<Rightarrow> ('r sensor_pipeline, unit) meth" where
  "sample_gnss env step_id time_s state s0 =
     (let config = su_gnss (pl_config s0) in
      bindM (draw_random env GNSS) (\<lambda>dropout_draw.
      bindM (draw_gauss env GNSS (gc_position_noise_std_m config)) (\<lambda>noise_x.
      bindM (draw_gauss env GNSS (gc_position_noise_std_m config)) (\<lambda>noise_y s.
        emit GNSS step_id time_s (total_latency s GNSS (gc_latency_s config) time_s)
          dropout_draw (gc_dropout_probability config)
          (\<lambda>t. GnssMeasurement t (fadd (vs_x_m state) noise_x) (fadd (vs_y_m state) noise_y)) s))) s0)"

text \<open>One landmark: out of range or of the field of view it draws nothing.\<close>

definition observe_landmark ::
  "'r sensor_env \<Rightarrow> landmark_config \<Rightarrow> bool \<Rightarrow> vehicle_state \<Rightarrow> landmark \<Rightarrow> ('r sensor_pipeline, landmark_observation option) meth" where
  "observe_landmark env config forced_outlier state landmark =
     (let dx = fsub (ld_x_m landmark) (vs_x_m state); dy = fsub (ld_y_m landmark) (vs_y_m state);
          true_range = lm_hypot (se_lib env) dx dy in
      bindM (liftM (wrap_angle (fsub (lm_atan2 (se_lib env) dy dx) (vs_heading_rad state)))) (\<lambda>true_bearing.
      bindM (liftM (py_div (lc_field_of_view_rad config) 0x4000000000000000)) (\<lambda>half_view.
        if flt (lc_max_range_m config) true_range \<or> flt half_view (fabs true_bearing) then returnM None
        else
          bindM (draw_random env LANDMARK) (\<lambda>outlier_draw.
          bindM (draw_gauss env LANDMARK (lc_range_noise_std_m config)) (\<lambda>nominal_range_noise.
          bindM (draw_gauss env LANDMARK (lc_bearing_noise_std_rad config)) (\<lambda>nominal_bearing_noise.
          bindM (draw_gauss env LANDMARK (lc_outlier_range_std_m config)) (\<lambda>outlier_range_noise.
          bindM (draw_gauss env LANDMARK (lc_outlier_bearing_std_rad config)) (\<lambda>outlier_bearing_noise.
            let is_outlier = (forced_outlier \<or> flt outlier_draw (lc_outlier_probability config));
                range_noise = (if is_outlier then outlier_range_noise else nominal_range_noise);
                bearing_noise = (if is_outlier then outlier_bearing_noise else nominal_bearing_noise) in
            bindM (liftM (bindR (wrap_angle (fadd true_bearing bearing_noise)) (\<lambda>bearing.
                     LandmarkObservation (ld_landmark_id landmark) (fmax 0 (fadd true_range range_noise)) bearing
                       is_outlier))) (\<lambda>observation.
            bindM (if is_outlier then modifyM (count LANDMARK (\<lambda>c. c\<lparr>ct_outliers := ct_outliers c + 1\<rparr>))
                   else returnM ()) (\<lambda>_. returnM (Some observation)))))))))))"

fun observe_landmarks ::
  "'r sensor_env \<Rightarrow> landmark_config \<Rightarrow> bool \<Rightarrow> vehicle_state \<Rightarrow> landmark list \<Rightarrow> ('r sensor_pipeline, landmark_observation list) meth" where
  "observe_landmarks env config forced_outlier state [] = returnM []"
| "observe_landmarks env config forced_outlier state (l # ls) =
     bindM (observe_landmark env config forced_outlier state l) (\<lambda>obs.
     bindM (observe_landmarks env config forced_outlier state ls) (\<lambda>rest.
       returnM (case obs of None \<Rightarrow> rest | Some x \<Rightarrow> x # rest)))"

definition sample_landmarks :: "'r sensor_env \<Rightarrow> int \<Rightarrow> f64 \<Rightarrow> vehicle_state \<Rightarrow> ('r sensor_pipeline, unit) meth" where
  "sample_landmarks env step_id time_s state s0 =
     (let config = su_landmark (pl_config s0) in
      bindM (draw_random env LANDMARK) (\<lambda>dropout_draw s1.
        bindM (observe_landmarks env config (fault_active s1 ''landmark'' ''outlier'' time_s) state (pl_landmarks s1))
          (\<lambda>observations s.
            emit LANDMARK step_id time_s (total_latency s LANDMARK (lc_latency_s config) time_s)
              dropout_draw (lc_dropout_probability config) (\<lambda>t. LandmarkMeasurement t observations) s) s1) s0)"

section \<open>Events, delivery and the step\<close>

fun fault_events :: "int \<Rightarrow> f64 \<Rightarrow> string \<Rightarrow> nat list \<Rightarrow> ('r sensor_pipeline, unit) meth" where
  "fault_events step_id time_s event_type [] s = (Inr (), s)"
| "fault_events step_id time_s event_type (i # is) s =
     (case SensorEvent step_id time_s event_type (fs_target (pl_faults s ! i)) (fs_kind (pl_faults s ! i)) of
        Inl e \<Rightarrow> (Inl e, s)
      | Inr ev \<Rightarrow> fault_events step_id time_s event_type is (s\<lparr>pl_events := pl_events s @ [ev]\<rparr>))"

text \<open>The set of active faults is the list of their indices in increasing order.\<close>

definition active_indices :: "fault_spec list \<Rightarrow> f64 \<Rightarrow> nat list" where
  "active_indices faults time_s = filter (\<lambda>i. fault_active_at (faults ! i) time_s) [0..<length faults]"

definition update_fault_events :: "int \<Rightarrow> f64 \<Rightarrow> ('r sensor_pipeline, unit) meth" where
  "update_fault_events step_id time_s s =
     (let now_active = active_indices (pl_faults s) time_s; was_active = pl_active_faults s in
      bindM (fault_events step_id time_s ''fault_started'' (filter (\<lambda>i. i \<notin> set was_active) now_active)) (\<lambda>_.
      bindM (fault_events step_id time_s ''fault_ended'' (filter (\<lambda>i. i \<notin> set now_active) was_active)) (\<lambda>_.
        modifyM (\<lambda>s. s\<lparr>pl_active_faults := now_active\<rparr>))) s)"

text \<open>Pop while the first entry is due (\<^verbatim>\<open>None\<close>: pop all).\<close>

fun pop_due :: "int option \<Rightarrow> pending list \<Rightarrow> measurement list \<times> pending list" where
  "pop_due due [] = ([], [])"
| "pop_due due ((d, n, m) # rest) =
     (if (case due of None \<Rightarrow> True | Some step_id \<Rightarrow> d \<le> step_id) then
        (case pop_due due rest of (ms, left) \<Rightarrow> (m # ms, left))
      else ([], (d, n, m) # rest))"

definition count_delivered :: "measurement \<Rightarrow> 'r sensor_pipeline \<Rightarrow> 'r sensor_pipeline" where
  "count_delivered m = count (measurement_kind m) (\<lambda>c. c\<lparr>ct_delivered := ct_delivered c + 1\<rparr>)"

definition deliver :: "int option \<Rightarrow> ('r sensor_pipeline, measurement list) meth" where
  "deliver due s =
     (case pop_due due (pl_pending s) of (ms, left) \<Rightarrow> (Inr ms, fold count_delivered ms (s\<lparr>pl_pending := left\<rparr>)))"

definition when_due :: "sensor \<Rightarrow> bool \<Rightarrow> int \<Rightarrow> ('r sensor_pipeline, unit) meth \<Rightarrow> ('r sensor_pipeline, unit) meth" where
  "when_due k enabled step_id sample s =
     (if enabled \<and> step_id mod pl_period_steps s k = 0 then sample s else (Inr (), s))"

definition sample_all :: "'r sensor_env \<Rightarrow> int \<Rightarrow> f64 \<Rightarrow> vehicle_state \<Rightarrow> ('r sensor_pipeline, unit) meth" where
  "sample_all env step_id time_s state s =
     (let config = pl_config s in
      bindM (when_due IMU (ic_enabled (su_imu config)) step_id (sample_imu env step_id time_s state)) (\<lambda>_.
      bindM (when_due WHEEL_SPEED (wc_enabled (su_wheel_speed config)) step_id (sample_wheel env step_id time_s state)) (\<lambda>_.
      bindM (when_due GNSS (gc_enabled (su_gnss config)) step_id (sample_gnss env step_id time_s state)) (\<lambda>_.
        when_due LANDMARK (lc_enabled (su_landmark config)) step_id (sample_landmarks env step_id time_s state)))) s)"

definition check_step :: "int \<Rightarrow> f64 \<Rightarrow> ('r sensor_pipeline, f64) meth" where
  "check_step step_id time_s s =
     (bindR (guardR (step_id \<noteq> pl_last_step s + 1) ValueError) (\<lambda>_.
      bindR (finite_real time_s) (\<lambda>t.
      bindR (float_of_int step_id) (\<lambda>n.
      bindR (guardR (\<not> isclose_abs t (fmul n (pl_dt_s s)) state_tolerance) ValueError) (\<lambda>_. Inr t)))), s)"

definition pipeline_step ::
  "'r sensor_env \<Rightarrow> int \<Rightarrow> f64 \<Rightarrow> vehicle_state \<Rightarrow> ('r sensor_pipeline, measurement list) meth" where
  "pipeline_step env step_id time_s state =
     bindM (check_step step_id time_s) (\<lambda>t.
     bindM (modifyM (\<lambda>s. s\<lparr>pl_last_step := step_id\<rparr>)) (\<lambda>_.
     bindM (update_fault_events step_id t) (\<lambda>_.
     bindM (sample_all env step_id t state) (\<lambda>_.
       deliver (Some step_id)))))"

definition drain_pending :: "('r sensor_pipeline, measurement list) meth" where
  "drain_pending = deliver None"

definition drain_events :: "('r sensor_pipeline, sensor_event list) meth" where
  "drain_events s = (Inr (pl_events s), s\<lparr>pl_events := []\<rparr>)"

definition pending_count :: "'r sensor_pipeline \<Rightarrow> nat" where
  "pending_count s = length (pl_pending s)"

end
