(* ===== verification/Py_Decimal.thy ===== *)
theory Py_Decimal
  imports Py_Value PyFloat_Order
begin

text \<open>
  \<^verbatim>\<open>Decimal(str(x))\<close> of a finite float, and \<^verbatim>\<open>divmod\<close> of such decimals in the default context. The
  text of a float is the shortest decimal that reads back as the float, and the nearest one of that
  length; a decimal is a coefficient and an exponent of ten.
\<close>

section \<open>Reading decimals\<close>

text \<open>The magnitude of the float nearest to \<open>p / q\<close>, half to even.\<close>

definition ratio_mag :: "nat \<Rightarrow> nat \<Rightarrow> nat" where
  "ratio_mag p q =
     f64_round_mag (2 * (p * 2 ^ 1075 div q) + (if p * 2 ^ 1075 mod q = 0 then 0 else 1)) 2"

text \<open>\<^verbatim>\<open>float(text)\<close> for the decimal \<open>c * 10 ^ e\<close>.\<close>

definition read_mag :: "nat \<Rightarrow> int \<Rightarrow> nat" where
  "read_mag c e = (if 0 \<le> e then ratio_mag (c * 10 ^ nat e) 1 else ratio_mag c (10 ^ nat (- e)))"

section \<open>Shortest text\<close>

text \<open>The exponent of the first digit: the scaled number has 400 digits more.\<close>

definition decimal_exponent :: "nat \<Rightarrow> int" where
  "decimal_exponent m = int (length (show_nat (f64_units_mag m * 10 ^ 400 div 2 ^ 1074))) - 401"

text \<open>The magnitude in units of \<open>10 ^ e\<close> as a ratio.\<close>

definition in_units :: "nat \<Rightarrow> int \<Rightarrow> nat \<times> nat" where
  "in_units m e =
     (if 0 \<le> e then (f64_units_mag m, 2 ^ 1074 * 10 ^ nat e) else (f64_units_mag m * 10 ^ nat (- e), 2 ^ 1074))"

definition candidates :: "nat \<Rightarrow> int \<Rightarrow> nat list" where
  "candidates m e =
     (case in_units m e of (p, q) \<Rightarrow> filter (\<lambda>c. read_mag c e = m) [p div q, p div q + 1])"

text \<open>Of the two neighbours the nearer one, if both read back. Seventeen digits always have a candidate.\<close>

definition pick_digits :: "nat \<Rightarrow> int \<Rightarrow> nat" where
  "pick_digits m e =
     (case in_units m e of
        (p, q) \<Rightarrow>
          (case candidates m e of
             [] \<Rightarrow> p div q + 1
           | [c] \<Rightarrow> c
           | _ \<Rightarrow>
               let r = p mod q
               in if 2 * r < q \<or> 2 * r = q \<and> even (p div q) then p div q else p div q + 1))"

definition shortest_decimal :: "nat \<Rightarrow> nat \<times> int" where
  "shortest_decimal m =
     (let first = decimal_exponent m;
          digits = (case find (\<lambda>k. candidates m (first + 1 - int k) \<noteq> []) [1..<17] of Some k \<Rightarrow> k | None \<Rightarrow> 17);
          e = first + 1 - int digits
      in (pick_digits m e, e))"

type_synonym decimal = "int \<times> int"

definition decimal_of :: "f64 \<Rightarrow> decimal" where
  "decimal_of x =
     (if f64_mag x = 0 then (0, 0)
      else case shortest_decimal (f64_mag x) of (c, e) \<Rightarrow> (f64_sign x * int c, e))"

section \<open>Arithmetic\<close>

definition align :: "decimal \<Rightarrow> decimal \<Rightarrow> int \<times> int" where
  "align a b =
     (case (a, b) of ((c, e), (c', e')) \<Rightarrow> (c * 10 ^ nat (e - min e e'), c' * 10 ^ nat (e' - min e e')))"

text \<open>
  \<^verbatim>\<open>divmod(a, b)\<close> for \<open>0 \<le> a\<close> and \<open>0 < b\<close>: the quotient, and whether something remains. A quotient of
  more than 28 digits raises \<^verbatim>\<open>InvalidOperation\<close>.
\<close>

definition decimal_divmod :: "decimal \<Rightarrow> decimal \<Rightarrow> (int \<times> bool) result" where
  "decimal_divmod a b =
     (case align a b of
        (x, y) \<Rightarrow> if 10 ^ 28 \<le> x div y then Inl InvalidOperation else Inr (x div y, x mod y \<noteq> 0))"

section \<open>Lemmas\<close>

lemma read_mag_zero [simp]: "read_mag 0 e = 0"
  by (simp add: read_mag_def ratio_mag_def f64_round_mag_def round_half_even_def bit_len.simps [of 0])

lemma pick_digits_pos:
  assumes "0 < m"
  shows "0 < pick_digits m e"
proof -
  obtain p q where pq: "in_units m e = (p, q)" by fastforce
  have pos: "0 < c" if "c \<in> set (candidates m e)" for c
  proof (rule ccontr)
    assume "\<not> 0 < c"
    with that show False using assms by (auto simp: candidates_def pq split: if_splits)
  qed
  show ?thesis
  proof (cases "candidates m e")
    case Nil
    then show ?thesis by (simp add: pick_digits_def pq)
  next
    case (Cons c cs)
    show ?thesis
    proof (cases cs)
      case Nil
      then show ?thesis using Cons pos by (simp add: pick_digits_def pq)
    next
      case (Cons c' cs')
      have "p div q \<in> set (candidates m e)"
        using \<open>candidates m e = c # cs\<close> Cons by (auto simp: candidates_def pq split: if_splits)
      then show ?thesis
        using \<open>candidates m e = c # cs\<close> Cons pos by (simp add: pick_digits_def pq Let_def)
    qed
  qed
qed

lemma decimal_of_sign:
  "0 < fst (decimal_of x) \<longleftrightarrow> 0 < f64_key x" "fst (decimal_of x) < 0 \<longleftrightarrow> f64_key x < 0"
proof -
  have "f64_mag x \<noteq> 0 \<Longrightarrow> 0 < fst (shortest_decimal (f64_mag x))"
    by (simp add: shortest_decimal_def Let_def pick_digits_pos)
  then show "0 < fst (decimal_of x) \<longleftrightarrow> 0 < f64_key x" "fst (decimal_of x) < 0 \<longleftrightarrow> f64_key x < 0"
    by (auto simp: decimal_of_def f64_key_def f64_sign_def split: prod.split)
qed

lemma align_signs:
  assumes "align a b = (x, y)"
  shows "0 < x \<longleftrightarrow> 0 < fst a" "0 < y \<longleftrightarrow> 0 < fst b"
  using assms by (auto simp: align_def zero_less_mult_iff split: prod.splits)

lemma decimal_divmod_exact:
  assumes "decimal_divmod a b = Inr (q, False)" "0 < fst b" "align a b = (x, y)"
  shows "x = q * y"
proof -
  have "x mod y = 0" "q = x div y" using assms by (auto simp: decimal_divmod_def split: if_splits)
  then show ?thesis by auto
qed

end
