(* ===== verification/Scenario.thy ===== *)
theory Scenario
  imports Sensors Sensor_Pipeline Py_Decimal
begin

text \<open>
  Scenarios of \<^verbatim>\<open>scenario.py\<close>: command segments, waypoints, the checks of their constructors, the
  exact step count on the decimal grid, the command at a time and the open-loop run.
\<close>

section \<open>The step grid\<close>

definition exact_steps :: "f64 \<Rightarrow> f64 \<Rightarrow> int result" where
  "exact_steps duration_s dt_s =
     (let duration = decimal_of duration_s; timestep = decimal_of dt_s in
      bindR (guardR (fst duration \<le> 0 \<or> fst timestep \<le> 0) ValueError) (\<lambda>_.
      bindR (decimal_divmod duration timestep) (\<lambda>(steps, remains).
      bindR (guardR remains ValueError) (\<lambda>_.
      bindR (guardR (steps < 1 \<or> 10000000 < steps) ValueError) (\<lambda>_. Inr steps)))))"

definition require_aligned_time :: "f64 \<Rightarrow> f64 \<Rightarrow> unit result" where
  "require_aligned_time time_s dt_s =
     (let time = decimal_of time_s; timestep = decimal_of dt_s in
      bindR (guardR (fst time < 0 \<or> fst timestep \<le> 0) ValueError) (\<lambda>_.
      bindR (decimal_divmod time timestep) (\<lambda>(steps, remains). guardR remains ValueError)))"

section \<open>Data\<close>

record command_segment =
  cg_until_s :: f64
  cg_acceleration_mps2 :: f64
  cg_steering_rad :: f64

text \<open>The limits are \<^verbatim>\<open>100.0\<close> and \<^verbatim>\<open>2.0 * math.pi\<close>.\<close>

definition CommandSegment :: "f64 \<Rightarrow> f64 \<Rightarrow> f64 \<Rightarrow> command_segment result" where
  "CommandSegment until_s acceleration_mps2 steering_rad =
     bindR (finite_real until_s) (\<lambda>until.
     bindR (finite_real acceleration_mps2) (\<lambda>acceleration.
     bindR (finite_real steering_rad) (\<lambda>steering.
     bindR (guardR (flt 0x4059000000000000 (fabs acceleration)) ValueError) (\<lambda>_.
     bindR (guardR (flt f64_two_pi (fabs steering)) ValueError) (\<lambda>_.
       Inr \<lparr>cg_until_s = until, cg_acceleration_mps2 = acceleration, cg_steering_rad = steering\<rparr>)))))"

record waypoint =
  wy_x_m :: f64
  wy_y_m :: f64
  wy_target_speed_mps :: f64
  wy_acceptance_radius_m :: f64

definition Waypoint :: "waypoint \<Rightarrow> waypoint result" where
  "Waypoint w =
     bindR (sequenceR (map finite_real
       [wy_x_m w, wy_y_m w, wy_target_speed_mps w, wy_acceptance_radius_m w])) (\<lambda>_.
     bindR (guardR (flt (wy_target_speed_mps w) 0) ValueError) (\<lambda>_.
     bindR (guardR (fle (wy_acceptance_radius_m w) 0) ValueError) (\<lambda>_. Inr w)))"

record scenario =
  so_name :: string
  so_duration_s :: f64
  so_dt_s :: f64
  so_initial_state :: vehicle_state
  so_commands :: "command_segment list"
  so_vehicle :: vehicle_parameters
  so_sensors :: sensor_suite_config
  so_landmarks :: "landmark list"
  so_faults :: "fault_spec list"
  so_route :: "waypoint list"
  so_seed :: int

section \<open>Validation\<close>

definition letter_or_digit :: "char \<Rightarrow> bool" where
  "letter_or_digit c \<longleftrightarrow>
     (let n = of_char c :: nat in 48 \<le> n \<and> n \<le> 57 \<or> 65 \<le> n \<and> n \<le> 90 \<or> 97 \<le> n \<and> n \<le> 122)"

text \<open>\<^verbatim>\<open>^[A-Za-z0-9][A-Za-z0-9_.-]{0,63}$\<close>\<close>

definition scenario_name_ok :: "string \<Rightarrow> bool" where
  "scenario_name_ok name \<longleftrightarrow>
     (case name of [] \<Rightarrow> False
      | c # rest \<Rightarrow> letter_or_digit c \<and> length rest \<le> 63
                    \<and> list_all (\<lambda>c. letter_or_digit c \<or> c \<in> set ''_.-'') rest)"

fun check_segments :: "f64 \<Rightarrow> f64 \<Rightarrow> command_segment list \<Rightarrow> f64 result" where
  "check_segments dt previous_end [] = Inr previous_end"
| "check_segments dt previous_end (segment # rest) =
     bindR (guardR (fle (cg_until_s segment) previous_end) ValueError) (\<lambda>_.
     bindR (exact_steps (cg_until_s segment) dt) (\<lambda>_.
       check_segments dt (cg_until_s segment) rest))"

definition check_rate :: "f64 \<Rightarrow> bool \<times> f64 \<Rightarrow> unit result" where
  "check_rate dt sensor_rate =
     (case sensor_rate of (enabled, rate_hz) \<Rightarrow>
        if \<not> enabled then Inr ()
        else bindR (sample_period dt rate_hz) (\<lambda>_. Inr ()))"

definition check_fault :: "f64 \<Rightarrow> f64 \<Rightarrow> fault_spec \<Rightarrow> unit result" where
  "check_fault duration dt fault =
     bindR (guardR (flt duration (fs_end_s fault)) ValueError) (\<lambda>_.
     bindR (require_aligned_time (fs_start_s fault) dt) (\<lambda>_. require_aligned_time (fs_end_s fault) dt))"

definition sensor_rates :: "sensor_suite_config \<Rightarrow> (bool \<times> f64) list" where
  "sensor_rates c =
     [(ic_enabled (su_imu c), ic_rate_hz (su_imu c)),
      (wc_enabled (su_wheel_speed c), wc_rate_hz (su_wheel_speed c)),
      (gc_enabled (su_gnss c), gc_rate_hz (su_gnss c)),
      (lc_enabled (su_landmark c), lc_rate_hz (su_landmark c))]"

definition validate_scenario :: "scenario \<Rightarrow> unit result" where
  "validate_scenario s =
     bindR (exact_steps (so_duration_s s) (so_dt_s s)) (\<lambda>_.
     let params = so_vehicle s; state = so_initial_state s in
     bindR (guardR (flt (vs_speed_mps state) 0 \<or> flt (vp_max_speed_mps params) (vs_speed_mps state)) ValueError) (\<lambda>_.
     bindR (guardR (flt (vp_max_steering_rad params) (fabs (vs_steering_rad state))) ValueError) (\<lambda>_.
     bindR (guardR (\<not> (fle (fneg (vp_max_deceleration_mps2 params)) (vs_acceleration_mps2 state)
                     \<and> fle (vs_acceleration_mps2 state) (vp_max_acceleration_mps2 params))) ValueError) (\<lambda>_.
     bindR (check_segments (so_dt_s s) 0 (so_commands s)) (\<lambda>previous_end.
     bindR (guardR (\<not> feq previous_end (so_duration_s s)) ValueError) (\<lambda>_.
     bindR (sequenceR (map (check_rate (so_dt_s s)) (sensor_rates (so_sensors s)))) (\<lambda>_.
     bindR (guardR (\<not> distinct (map ld_landmark_id (so_landmarks s))) ValueError) (\<lambda>_.
     bindR (sequenceR (map (check_fault (so_duration_s s) (so_dt_s s)) (so_faults s))) (\<lambda>_.
       guardR (list_ex (\<lambda>w. flt (vp_max_speed_mps params) (wy_target_speed_mps w)) (so_route s)) ValueError)))))))))"

definition Scenario :: "scenario \<Rightarrow> scenario result" where
  "Scenario s =
     bindR (guardR (\<not> scenario_name_ok (so_name s)) ValueError) (\<lambda>_.
     bindR (finite_real (so_duration_s s)) (\<lambda>_.
     bindR (finite_real (so_dt_s s)) (\<lambda>_.
     bindR (guardR (so_seed s < 0 \<or> 2 ^ 64 - 1 < so_seed s) ValueError) (\<lambda>_.
     bindR (guardR (so_commands s = []) ValueError) (\<lambda>_.
     bindR (validate_scenario s) (\<lambda>_. Inr s))))))"

section \<open>Use\<close>

definition step_count :: "scenario \<Rightarrow> int result" where
  "step_count s = exact_steps (so_duration_s s) (so_dt_s s)"

definition segment_command :: "command_segment \<Rightarrow> control_command result" where
  "segment_command g = ControlCommand (cg_acceleration_mps2 g) (cg_steering_rad g)"

definition command_at :: "scenario \<Rightarrow> f64 \<Rightarrow> control_command result" where
  "command_at s time_s =
     bindR (finite_real time_s) (\<lambda>t.
     bindR (guardR (flt t 0 \<or> flt (fadd (so_duration_s s) state_tolerance) t) ValueError) (\<lambda>_.
       (case find (\<lambda>g. flt t (cg_until_s g)) (so_commands s) of
          Some g \<Rightarrow> segment_command g
        | None \<Rightarrow> segment_command (last (so_commands s)))))"

definition run_scenario :: "libm \<Rightarrow> scenario \<Rightarrow> simulation_sample list result" where
  "run_scenario lib s =
     bindR (step_count s) (\<lambda>n.
       simulate_fixed_step lib (so_vehicle s) (so_initial_state s) (so_dt_s s) n (\<lambda>_ time. command_at s time))"

end
