(* ===== verification/Scenario_Parse.thy ===== *)
theory Scenario_Parse
  imports Scenario
begin

text \<open>
  Scenario mappings: parsing and normalising, field by field, of the value a YAML document loads to.
  Errors keep their class: a number that is an int too large for a float raises \<^verbatim>\<open>OverflowError\<close>.
\<close>

section \<open>Fields\<close>

definition degrees_to_radians :: f64 where "degrees_to_radians = 0x3F91DF46A2529D39"
definition radians_to_degrees :: f64 where "radians_to_degrees = 0x404CA5DC1A63C1F8"

text \<open>\<^verbatim>\<open>math.radians\<close> and \<^verbatim>\<open>math.degrees\<close> multiply by a constant.\<close>

definition radians :: "f64 \<Rightarrow> f64" where "radians x = fmul x degrees_to_radians"
definition degrees :: "f64 \<Rightarrow> f64" where "degrees x = fmul x radians_to_degrees"

definition finite_value :: "pyval \<Rightarrow> f64 result" where
  "finite_value v =
     (case v of
        V_Int n \<Rightarrow> bindR (float_of_int n) finite_real
      | V_Float x \<Rightarrow> finite_real x
      | _ \<Rightarrow> Inl ValueError)"

definition number :: "pydict \<Rightarrow> string \<Rightarrow> f64 option \<Rightarrow> f64 result" where
  "number d key fallback =
     (case dict_get key d of
        Some v \<Rightarrow> finite_value v
      | None \<Rightarrow> (case fallback of None \<Rightarrow> Inl ValueError | Some x \<Rightarrow> finite_real x))"

definition integer :: "pydict \<Rightarrow> string \<Rightarrow> int option \<Rightarrow> int result" where
  "integer d key fallback =
     (case dict_get key d of
        Some (V_Int n) \<Rightarrow> Inr n
      | Some _ \<Rightarrow> Inl ValueError
      | None \<Rightarrow> (case fallback of None \<Rightarrow> Inl ValueError | Some n \<Rightarrow> Inr n))"

definition boolean :: "pydict \<Rightarrow> string \<Rightarrow> bool \<Rightarrow> bool result" where
  "boolean d key fallback =
     (case dict_get key d of Some (V_Bool b) \<Rightarrow> Inr b | Some _ \<Rightarrow> Inl ValueError | None \<Rightarrow> Inr fallback)"

definition mapping :: "pyval \<Rightarrow> string list \<Rightarrow> pydict result" where
  "mapping value allowed =
     (case value of
        V_Dict d \<Rightarrow> (if list_all (\<lambda>(k, v). k \<in> set allowed) d then Inr d else Inl ValueError)
      | _ \<Rightarrow> Inl ValueError)"

definition items :: "pyval \<Rightarrow> pyval list result" where
  "items value = (case value of V_List xs \<Rightarrow> Inr xs | _ \<Rightarrow> Inl ValueError)"

text \<open>\<^verbatim>\<open>mapping.get(key, default)\<close>\<close>

definition get_or :: "pydict \<Rightarrow> string \<Rightarrow> pyval \<Rightarrow> pyval" where
  "get_or d key fallback = (case dict_get key d of Some v \<Rightarrow> v | None \<Rightarrow> fallback)"

section \<open>Parsing\<close>

definition vehicle_fields :: "string list" where
  "vehicle_fields =
     [''wheelbase_m'',
      ''steering_time_constant_s'',
      ''acceleration_time_constant_s'',
      ''max_steering_deg'',
      ''max_acceleration_mps2'',
      ''max_deceleration_mps2'',
      ''max_speed_mps'']"

definition parse_vehicle :: "pyval \<Rightarrow> vehicle_parameters result" where
  "parse_vehicle raw =
     bindR (mapping raw vehicle_fields) (\<lambda>d.
     bindR (number d ''wheelbase_m'' (Some (vp_wheelbase_m default_parameters))) (\<lambda>wheelbase_m.
     bindR (number d ''steering_time_constant_s'' (Some (vp_steering_time_constant_s default_parameters))) (\<lambda>steering_time_constant_s.
     bindR (number d ''acceleration_time_constant_s'' (Some (vp_acceleration_time_constant_s default_parameters))) (\<lambda>acceleration_time_constant_s.
     bindR (number d ''max_steering_deg'' (Some (degrees (vp_max_steering_rad default_parameters)))) (\<lambda>max_steering_deg.
     bindR (number d ''max_acceleration_mps2'' (Some (vp_max_acceleration_mps2 default_parameters))) (\<lambda>max_acceleration_mps2.
     bindR (number d ''max_deceleration_mps2'' (Some (vp_max_deceleration_mps2 default_parameters))) (\<lambda>max_deceleration_mps2.
     bindR (number d ''max_speed_mps'' (Some (vp_max_speed_mps default_parameters))) (\<lambda>max_speed_mps.
       VehicleParameters \<lparr>vp_wheelbase_m = wheelbase_m,
         vp_steering_time_constant_s = steering_time_constant_s,
         vp_acceleration_time_constant_s = acceleration_time_constant_s,
         vp_max_steering_rad = radians max_steering_deg,
         vp_max_acceleration_mps2 = max_acceleration_mps2,
         vp_max_deceleration_mps2 = max_deceleration_mps2,
         vp_max_speed_mps = max_speed_mps\<rparr>))))))))"

definition initial_state_fields :: "string list" where
  "initial_state_fields =
     [''x_m'',
      ''y_m'',
      ''heading_deg'',
      ''speed_mps'',
      ''steering_deg'',
      ''acceleration_mps2'']"

definition parse_initial_state :: "pyval \<Rightarrow> vehicle_state result" where
  "parse_initial_state raw =
     bindR (mapping raw initial_state_fields) (\<lambda>d.
     bindR (number d ''x_m'' (Some 0)) (\<lambda>x_m.
     bindR (number d ''y_m'' (Some 0)) (\<lambda>y_m.
     bindR (number d ''heading_deg'' (Some 0)) (\<lambda>heading_deg.
     bindR (number d ''speed_mps'' (Some 0)) (\<lambda>speed_mps.
     bindR (number d ''steering_deg'' (Some 0)) (\<lambda>steering_deg.
     bindR (number d ''acceleration_mps2'' (Some 0)) (\<lambda>acceleration_mps2.
       VehicleState \<lparr>vs_x_m = x_m,
         vs_y_m = y_m,
         vs_heading_rad = radians heading_deg,
         vs_speed_mps = speed_mps,
         vs_steering_rad = radians steering_deg,
         vs_acceleration_mps2 = acceleration_mps2\<rparr>)))))))"

definition command_fields :: "string list" where
  "command_fields =
     [''until_s'',
      ''acceleration_mps2'',
      ''steering_deg'']"

definition parse_command :: "pyval \<Rightarrow> command_segment result" where
  "parse_command raw =
     bindR (mapping raw command_fields) (\<lambda>d.
     bindR (number d ''until_s'' None) (\<lambda>until_s.
     bindR (number d ''acceleration_mps2'' None) (\<lambda>acceleration_mps2.
     bindR (number d ''steering_deg'' None) (\<lambda>steering_deg.
       CommandSegment until_s acceleration_mps2 (radians steering_deg)))))"

definition parse_commands :: "pyval \<Rightarrow> command_segment list result" where
  "parse_commands raw =
     bindR (items raw) (\<lambda>xs.
     bindR (guardR (xs = []) ValueError) (\<lambda>_. sequenceR (map parse_command xs)))"

text \<open>The default configurations; \<^verbatim>\<open>math.radians\<close> of 0.15, 0.5, 160.0 and 25.0.\<close>

definition default_imu :: imu_config where
  "default_imu = \<lparr>ic_enabled = True, ic_rate_hz = 0x4049000000000000,
     ic_acceleration_noise_std_mps2 = 0x3F947AE147AE147B, ic_yaw_rate_noise_std_rad_s = 0x3F657254C2C98977,
     ic_acceleration_bias_mps2 = 0, ic_yaw_rate_bias_rad_s = 0, ic_latency_s = 0, ic_dropout_probability = 0\<rparr>"

definition default_wheel :: wheel_speed_config where
  "default_wheel = \<lparr>wc_enabled = True, wc_rate_hz = 0x4039000000000000, wc_noise_std_mps = 0x3F847AE147AE147B,
     wc_scale_error = 0, wc_latency_s = 0, wc_dropout_probability = 0\<rparr>"

definition default_gnss :: gnss_config where
  "default_gnss = \<lparr>gc_enabled = True, gc_rate_hz = 0x4014000000000000, gc_position_noise_std_m = 0x3FD0000000000000,
     gc_latency_s = 0x3FB999999999999A, gc_dropout_probability = 0\<rparr>"

definition default_landmark_sensor :: landmark_config where
  "default_landmark_sensor = \<lparr>lc_enabled = True, lc_rate_hz = 0x4024000000000000,
     lc_range_noise_std_m = 0x3F9EB851EB851EB8, lc_bearing_noise_std_rad = 0x3F81DF46A2529D39,
     lc_max_range_m = 0x402E000000000000, lc_field_of_view_rad = 0x400657184AE74487,
     lc_latency_s = 0x3FA47AE147AE147B, lc_dropout_probability = 0, lc_outlier_probability = 0,
     lc_outlier_range_std_m = 0x4008000000000000, lc_outlier_bearing_std_rad = 0x3FDBECDE5DA115A9\<rparr>"

definition imu_fields :: "string list" where
  "imu_fields =
     [''enabled'',
      ''rate_hz'',
      ''acceleration_noise_std_mps2'',
      ''yaw_rate_noise_std_deg_s'',
      ''acceleration_bias_mps2'',
      ''yaw_rate_bias_deg_s'',
      ''latency_s'',
      ''dropout_probability'']"

definition parse_imu :: "pyval \<Rightarrow> imu_config result" where
  "parse_imu raw =
     bindR (mapping raw imu_fields) (\<lambda>d.
     bindR (boolean d ''enabled'' (ic_enabled default_imu)) (\<lambda>enabled.
     bindR (number d ''rate_hz'' (Some (ic_rate_hz default_imu))) (\<lambda>rate_hz.
     bindR (number d ''acceleration_noise_std_mps2'' (Some (ic_acceleration_noise_std_mps2 default_imu))) (\<lambda>acceleration_noise_std_mps2.
     bindR (number d ''yaw_rate_noise_std_deg_s'' (Some (degrees (ic_yaw_rate_noise_std_rad_s default_imu)))) (\<lambda>yaw_rate_noise_std_deg_s.
     bindR (number d ''acceleration_bias_mps2'' (Some (ic_acceleration_bias_mps2 default_imu))) (\<lambda>acceleration_bias_mps2.
     bindR (number d ''yaw_rate_bias_deg_s'' (Some (degrees (ic_yaw_rate_bias_rad_s default_imu)))) (\<lambda>yaw_rate_bias_deg_s.
     bindR (number d ''latency_s'' (Some (ic_latency_s default_imu))) (\<lambda>latency_s.
     bindR (number d ''dropout_probability'' (Some (ic_dropout_probability default_imu))) (\<lambda>dropout_probability.
       ImuConfig \<lparr>ic_enabled = enabled,
         ic_rate_hz = rate_hz,
         ic_acceleration_noise_std_mps2 = acceleration_noise_std_mps2,
         ic_yaw_rate_noise_std_rad_s = radians yaw_rate_noise_std_deg_s,
         ic_acceleration_bias_mps2 = acceleration_bias_mps2,
         ic_yaw_rate_bias_rad_s = radians yaw_rate_bias_deg_s,
         ic_latency_s = latency_s,
         ic_dropout_probability = dropout_probability\<rparr>)))))))))"

definition wheel_fields :: "string list" where
  "wheel_fields =
     [''enabled'',
      ''rate_hz'',
      ''noise_std_mps'',
      ''scale_error'',
      ''latency_s'',
      ''dropout_probability'']"

definition parse_wheel :: "pyval \<Rightarrow> wheel_speed_config result" where
  "parse_wheel raw =
     bindR (mapping raw wheel_fields) (\<lambda>d.
     bindR (boolean d ''enabled'' (wc_enabled default_wheel)) (\<lambda>enabled.
     bindR (number d ''rate_hz'' (Some (wc_rate_hz default_wheel))) (\<lambda>rate_hz.
     bindR (number d ''noise_std_mps'' (Some (wc_noise_std_mps default_wheel))) (\<lambda>noise_std_mps.
     bindR (number d ''scale_error'' (Some (wc_scale_error default_wheel))) (\<lambda>scale_error.
     bindR (number d ''latency_s'' (Some (wc_latency_s default_wheel))) (\<lambda>latency_s.
     bindR (number d ''dropout_probability'' (Some (wc_dropout_probability default_wheel))) (\<lambda>dropout_probability.
       WheelSpeedConfig \<lparr>wc_enabled = enabled,
         wc_rate_hz = rate_hz,
         wc_noise_std_mps = noise_std_mps,
         wc_scale_error = scale_error,
         wc_latency_s = latency_s,
         wc_dropout_probability = dropout_probability\<rparr>)))))))"

definition gnss_fields :: "string list" where
  "gnss_fields =
     [''enabled'',
      ''rate_hz'',
      ''position_noise_std_m'',
      ''latency_s'',
      ''dropout_probability'']"

definition parse_gnss :: "pyval \<Rightarrow> gnss_config result" where
  "parse_gnss raw =
     bindR (mapping raw gnss_fields) (\<lambda>d.
     bindR (boolean d ''enabled'' (gc_enabled default_gnss)) (\<lambda>enabled.
     bindR (number d ''rate_hz'' (Some (gc_rate_hz default_gnss))) (\<lambda>rate_hz.
     bindR (number d ''position_noise_std_m'' (Some (gc_position_noise_std_m default_gnss))) (\<lambda>position_noise_std_m.
     bindR (number d ''latency_s'' (Some (gc_latency_s default_gnss))) (\<lambda>latency_s.
     bindR (number d ''dropout_probability'' (Some (gc_dropout_probability default_gnss))) (\<lambda>dropout_probability.
       GnssConfig \<lparr>gc_enabled = enabled,
         gc_rate_hz = rate_hz,
         gc_position_noise_std_m = position_noise_std_m,
         gc_latency_s = latency_s,
         gc_dropout_probability = dropout_probability\<rparr>))))))"

definition landmark_sensor_fields :: "string list" where
  "landmark_sensor_fields =
     [''enabled'',
      ''rate_hz'',
      ''range_noise_std_m'',
      ''bearing_noise_std_deg'',
      ''max_range_m'',
      ''field_of_view_deg'',
      ''latency_s'',
      ''dropout_probability'',
      ''outlier_probability'',
      ''outlier_range_std_m'',
      ''outlier_bearing_std_deg'']"

definition parse_landmark_sensor :: "pyval \<Rightarrow> landmark_config result" where
  "parse_landmark_sensor raw =
     bindR (mapping raw landmark_sensor_fields) (\<lambda>d.
     bindR (boolean d ''enabled'' (lc_enabled default_landmark_sensor)) (\<lambda>enabled.
     bindR (number d ''rate_hz'' (Some (lc_rate_hz default_landmark_sensor))) (\<lambda>rate_hz.
     bindR (number d ''range_noise_std_m'' (Some (lc_range_noise_std_m default_landmark_sensor))) (\<lambda>range_noise_std_m.
     bindR (number d ''bearing_noise_std_deg'' (Some (degrees (lc_bearing_noise_std_rad default_landmark_sensor)))) (\<lambda>bearing_noise_std_deg.
     bindR (number d ''max_range_m'' (Some (lc_max_range_m default_landmark_sensor))) (\<lambda>max_range_m.
     bindR (number d ''field_of_view_deg'' (Some (degrees (lc_field_of_view_rad default_landmark_sensor)))) (\<lambda>field_of_view_deg.
     bindR (number d ''latency_s'' (Some (lc_latency_s default_landmark_sensor))) (\<lambda>latency_s.
     bindR (number d ''dropout_probability'' (Some (lc_dropout_probability default_landmark_sensor))) (\<lambda>dropout_probability.
     bindR (number d ''outlier_probability'' (Some (lc_outlier_probability default_landmark_sensor))) (\<lambda>outlier_probability.
     bindR (number d ''outlier_range_std_m'' (Some (lc_outlier_range_std_m default_landmark_sensor))) (\<lambda>outlier_range_std_m.
     bindR (number d ''outlier_bearing_std_deg'' (Some (degrees (lc_outlier_bearing_std_rad default_landmark_sensor)))) (\<lambda>outlier_bearing_std_deg.
       LandmarkConfig \<lparr>lc_enabled = enabled,
         lc_rate_hz = rate_hz,
         lc_range_noise_std_m = range_noise_std_m,
         lc_bearing_noise_std_rad = radians bearing_noise_std_deg,
         lc_max_range_m = max_range_m,
         lc_field_of_view_rad = radians field_of_view_deg,
         lc_latency_s = latency_s,
         lc_dropout_probability = dropout_probability,
         lc_outlier_probability = outlier_probability,
         lc_outlier_range_std_m = outlier_range_std_m,
         lc_outlier_bearing_std_rad = radians outlier_bearing_std_deg\<rparr>))))))))))))"

definition parse_sensors :: "pyval \<Rightarrow> sensor_suite_config result" where
  "parse_sensors raw =
     bindR (mapping raw [''imu'', ''wheel_speed'', ''gnss'', ''landmark'']) (\<lambda>d.
     bindR (parse_imu (get_or d ''imu'' (V_Dict []))) (\<lambda>imu.
     bindR (parse_wheel (get_or d ''wheel_speed'' (V_Dict []))) (\<lambda>wheel_speed.
     bindR (parse_gnss (get_or d ''gnss'' (V_Dict []))) (\<lambda>gnss.
     bindR (parse_landmark_sensor (get_or d ''landmark'' (V_Dict []))) (\<lambda>landmark.
       Inr \<lparr>su_imu = imu, su_wheel_speed = wheel_speed, su_gnss = gnss, su_landmark = landmark\<rparr>)))))"

definition landmark_fields :: "string list" where
  "landmark_fields =
     [''landmark_id'',
      ''x_m'',
      ''y_m'']"

definition parse_landmark :: "pyval \<Rightarrow> landmark result" where
  "parse_landmark raw =
     bindR (mapping raw landmark_fields) (\<lambda>d.
     bindR (integer d ''landmark_id'' None) (\<lambda>landmark_id.
     bindR (number d ''x_m'' None) (\<lambda>x_m.
     bindR (number d ''y_m'' None) (\<lambda>y_m.
       Landmark landmark_id x_m y_m))))"

definition fault_fields :: "string list" where
  "fault_fields = [''target'', ''kind'', ''start_s'', ''end_s'', ''value'']"

definition parse_fault :: "pyval \<Rightarrow> fault_spec result" where
  "parse_fault raw =
     bindR (mapping raw fault_fields) (\<lambda>d.
       (case (dict_get ''target'' d, dict_get ''kind'' d) of
          (Some (V_Str target), Some (V_Str kind)) \<Rightarrow>
            bindR (number d ''start_s'' None) (\<lambda>start.
            bindR (number d ''end_s'' None) (\<lambda>stop.
            bindR (number d ''value'' (Some 0)) (\<lambda>v. FaultSpec target kind start stop v)))
        | _ \<Rightarrow> Inl ValueError))"

text \<open>The default acceptance radius is 0.35.\<close>

definition waypoint_fields :: "string list" where
  "waypoint_fields =
     [''x_m'',
      ''y_m'',
      ''target_speed_mps'',
      ''acceptance_radius_m'']"

definition parse_waypoint :: "pyval \<Rightarrow> waypoint result" where
  "parse_waypoint raw =
     bindR (mapping raw waypoint_fields) (\<lambda>d.
     bindR (number d ''x_m'' None) (\<lambda>x_m.
     bindR (number d ''y_m'' None) (\<lambda>y_m.
     bindR (number d ''target_speed_mps'' None) (\<lambda>target_speed_mps.
     bindR (number d ''acceptance_radius_m'' (Some 0x3FD6666666666666)) (\<lambda>acceptance_radius_m.
       Waypoint \<lparr>wy_x_m = x_m,
         wy_y_m = y_m,
         wy_target_speed_mps = target_speed_mps,
         wy_acceptance_radius_m = acceptance_radius_m\<rparr>)))))"

definition parse_all :: "(pyval \<Rightarrow> 'a result) \<Rightarrow> pyval \<Rightarrow> 'a list result" where
  "parse_all parse raw = bindR (items raw) (\<lambda>xs. sequenceR (map parse xs))"

definition scenario_fields :: "string list" where
  "scenario_fields =
     [''version'', ''name'', ''seed'', ''duration_s'', ''dt_s'', ''vehicle'', ''initial_state'', ''commands'',
      ''sensors'', ''landmarks'', ''faults'', ''route'']"

definition scenario_from_mapping :: "pyval \<Rightarrow> scenario result" where
  "scenario_from_mapping raw =
     bindR (mapping raw scenario_fields) (\<lambda>root.
     bindR (integer root ''version'' (Some 1)) (\<lambda>version.
     bindR (guardR (version \<noteq> 1) ValueError) (\<lambda>_.
     bindR (case dict_get ''name'' root of Some (V_Str name) \<Rightarrow> Inr name | _ \<Rightarrow> Inl ValueError) (\<lambda>name.
     bindR (parse_vehicle (get_or root ''vehicle'' (V_Dict []))) (\<lambda>vehicle.
     bindR (parse_initial_state (get_or root ''initial_state'' (V_Dict []))) (\<lambda>initial_state.
     bindR (parse_commands (get_or root ''commands'' (V_List []))) (\<lambda>commands.
     bindR (parse_sensors (get_or root ''sensors'' (V_Dict []))) (\<lambda>sensors.
     bindR (parse_all parse_landmark (get_or root ''landmarks'' (V_List []))) (\<lambda>landmarks.
     bindR (parse_all parse_fault (get_or root ''faults'' (V_List []))) (\<lambda>faults.
     bindR (parse_all parse_waypoint (get_or root ''route'' (V_List []))) (\<lambda>route.
     bindR (number root ''duration_s'' None) (\<lambda>duration.
     bindR (number root ''dt_s'' None) (\<lambda>dt.
     bindR (integer root ''seed'' (Some 0)) (\<lambda>seed.
       Scenario \<lparr>so_name = name, so_duration_s = duration, so_dt_s = dt, so_initial_state = initial_state,
         so_commands = commands, so_vehicle = vehicle, so_sensors = sensors, so_landmarks = landmarks,
         so_faults = faults, so_route = route, so_seed = seed\<rparr>))))))))))))))"

section \<open>Normalising\<close>

definition vehicle_mapping :: "vehicle_parameters \<Rightarrow> pyval" where
  "vehicle_mapping c =
     V_Dict [(''wheelbase_m'', V_Float (vp_wheelbase_m c)),
       (''steering_time_constant_s'', V_Float (vp_steering_time_constant_s c)),
       (''acceleration_time_constant_s'', V_Float (vp_acceleration_time_constant_s c)),
       (''max_steering_deg'', V_Float (degrees (vp_max_steering_rad c))),
       (''max_acceleration_mps2'', V_Float (vp_max_acceleration_mps2 c)),
       (''max_deceleration_mps2'', V_Float (vp_max_deceleration_mps2 c)),
       (''max_speed_mps'', V_Float (vp_max_speed_mps c))]"

definition initial_state_mapping :: "vehicle_state \<Rightarrow> pyval" where
  "initial_state_mapping c =
     V_Dict [(''x_m'', V_Float (vs_x_m c)),
       (''y_m'', V_Float (vs_y_m c)),
       (''heading_deg'', V_Float (degrees (vs_heading_rad c))),
       (''speed_mps'', V_Float (vs_speed_mps c)),
       (''steering_deg'', V_Float (degrees (vs_steering_rad c))),
       (''acceleration_mps2'', V_Float (vs_acceleration_mps2 c))]"

definition command_mapping :: "command_segment \<Rightarrow> pyval" where
  "command_mapping c =
     V_Dict [(''until_s'', V_Float (cg_until_s c)),
       (''acceleration_mps2'', V_Float (cg_acceleration_mps2 c)),
       (''steering_deg'', V_Float (degrees (cg_steering_rad c)))]"

definition imu_mapping :: "imu_config \<Rightarrow> pyval" where
  "imu_mapping c =
     V_Dict [(''enabled'', V_Bool (ic_enabled c)),
       (''rate_hz'', V_Float (ic_rate_hz c)),
       (''acceleration_noise_std_mps2'', V_Float (ic_acceleration_noise_std_mps2 c)),
       (''yaw_rate_noise_std_deg_s'', V_Float (degrees (ic_yaw_rate_noise_std_rad_s c))),
       (''acceleration_bias_mps2'', V_Float (ic_acceleration_bias_mps2 c)),
       (''yaw_rate_bias_deg_s'', V_Float (degrees (ic_yaw_rate_bias_rad_s c))),
       (''latency_s'', V_Float (ic_latency_s c)),
       (''dropout_probability'', V_Float (ic_dropout_probability c))]"

definition wheel_mapping :: "wheel_speed_config \<Rightarrow> pyval" where
  "wheel_mapping c =
     V_Dict [(''enabled'', V_Bool (wc_enabled c)),
       (''rate_hz'', V_Float (wc_rate_hz c)),
       (''noise_std_mps'', V_Float (wc_noise_std_mps c)),
       (''scale_error'', V_Float (wc_scale_error c)),
       (''latency_s'', V_Float (wc_latency_s c)),
       (''dropout_probability'', V_Float (wc_dropout_probability c))]"

definition gnss_mapping :: "gnss_config \<Rightarrow> pyval" where
  "gnss_mapping c =
     V_Dict [(''enabled'', V_Bool (gc_enabled c)),
       (''rate_hz'', V_Float (gc_rate_hz c)),
       (''position_noise_std_m'', V_Float (gc_position_noise_std_m c)),
       (''latency_s'', V_Float (gc_latency_s c)),
       (''dropout_probability'', V_Float (gc_dropout_probability c))]"

definition landmark_sensor_mapping :: "landmark_config \<Rightarrow> pyval" where
  "landmark_sensor_mapping c =
     V_Dict [(''enabled'', V_Bool (lc_enabled c)),
       (''rate_hz'', V_Float (lc_rate_hz c)),
       (''range_noise_std_m'', V_Float (lc_range_noise_std_m c)),
       (''bearing_noise_std_deg'', V_Float (degrees (lc_bearing_noise_std_rad c))),
       (''max_range_m'', V_Float (lc_max_range_m c)),
       (''field_of_view_deg'', V_Float (degrees (lc_field_of_view_rad c))),
       (''latency_s'', V_Float (lc_latency_s c)),
       (''dropout_probability'', V_Float (lc_dropout_probability c)),
       (''outlier_probability'', V_Float (lc_outlier_probability c)),
       (''outlier_range_std_m'', V_Float (lc_outlier_range_std_m c)),
       (''outlier_bearing_std_deg'', V_Float (degrees (lc_outlier_bearing_std_rad c)))]"

definition landmark_mapping :: "landmark \<Rightarrow> pyval" where
  "landmark_mapping c =
     V_Dict [(''landmark_id'', V_Int (ld_landmark_id c)),
       (''x_m'', V_Float (ld_x_m c)),
       (''y_m'', V_Float (ld_y_m c))]"

definition fault_mapping :: "fault_spec \<Rightarrow> pyval" where
  "fault_mapping c =
     V_Dict [(''target'', V_Str (fs_target c)),
       (''kind'', V_Str (fs_kind c)),
       (''start_s'', V_Float (fs_start_s c)),
       (''end_s'', V_Float (fs_end_s c)),
       (''value'', V_Float (fs_value c))]"

definition waypoint_mapping :: "waypoint \<Rightarrow> pyval" where
  "waypoint_mapping c =
     V_Dict [(''x_m'', V_Float (wy_x_m c)),
       (''y_m'', V_Float (wy_y_m c)),
       (''target_speed_mps'', V_Float (wy_target_speed_mps c)),
       (''acceptance_radius_m'', V_Float (wy_acceptance_radius_m c))]"

definition sensors_mapping :: "sensor_suite_config \<Rightarrow> pyval" where
  "sensors_mapping c =
     V_Dict [(''imu'', imu_mapping (su_imu c)), (''wheel_speed'', wheel_mapping (su_wheel_speed c)),
       (''gnss'', gnss_mapping (su_gnss c)), (''landmark'', landmark_sensor_mapping (su_landmark c))]"

definition scenario_to_mapping :: "scenario \<Rightarrow> pyval" where
  "scenario_to_mapping s =
     V_Dict [(''version'', V_Int 1), (''name'', V_Str (so_name s)), (''seed'', V_Int (so_seed s)),
       (''duration_s'', V_Float (so_duration_s s)), (''dt_s'', V_Float (so_dt_s s)),
       (''vehicle'', vehicle_mapping (so_vehicle s)), (''initial_state'', initial_state_mapping (so_initial_state s)),
       (''commands'', V_List (map command_mapping (so_commands s))), (''sensors'', sensors_mapping (so_sensors s)),
       (''landmarks'', V_List (map landmark_mapping (so_landmarks s))),
       (''faults'', V_List (map fault_mapping (so_faults s))), (''route'', V_List (map waypoint_mapping (so_route s)))]"

end
