(* ===== verification/Scenario_Laws.thy ===== *)
theory Scenario_Laws
  imports Scenario_Parse
begin

text \<open>
  What an accepted scenario guarantees, the errors of parsing, the round trip through the
  configuration snapshot, and how scenarios fit the plant and the sensor pipeline that use them.
\<close>

section \<open>Errors\<close>

definition scenario_errors :: "py_exn set" where
  "scenario_errors = {ValueError, OverflowError, ZeroDivisionError, InvalidOperation}"

lemma scenario_errors_mem [simp]:
  "ValueError \<in> scenario_errors" "OverflowError \<in> scenario_errors" "ZeroDivisionError \<in> scenario_errors"
  "InvalidOperation \<in> scenario_errors"
  by (simp_all add: scenario_errors_def)

lemma errors_in_case_option [errors_intros]:
  "(x = None \<Longrightarrow> errors_in S a) \<Longrightarrow> (\<And>v. x = Some v \<Longrightarrow> errors_in S (b v)) \<Longrightarrow>
     errors_in S (case x of None \<Rightarrow> a | Some v \<Rightarrow> b v)"
  by (cases x) auto

lemma errors_in_case_pyval [errors_intros]:
  "(v = V_None \<Longrightarrow> errors_in S a) \<Longrightarrow> (\<And>b. v = V_Bool b \<Longrightarrow> errors_in S (f1 b)) \<Longrightarrow>
     (\<And>n. v = V_Int n \<Longrightarrow> errors_in S (f2 n)) \<Longrightarrow> (\<And>x. v = V_Float x \<Longrightarrow> errors_in S (f3 x)) \<Longrightarrow>
     (\<And>s. v = V_Str s \<Longrightarrow> errors_in S (f4 s)) \<Longrightarrow> (\<And>xs. v = V_List xs \<Longrightarrow> errors_in S (f5 xs)) \<Longrightarrow>
     (\<And>d. v = V_Dict d \<Longrightarrow> errors_in S (f6 d)) \<Longrightarrow> (v = V_Other \<Longrightarrow> errors_in S a') \<Longrightarrow>
     errors_in S (case v of V_None \<Rightarrow> a | V_Bool b \<Rightarrow> f1 b | V_Int n \<Rightarrow> f2 n | V_Float x \<Rightarrow> f3 x
       | V_Str s \<Rightarrow> f4 s | V_List xs \<Rightarrow> f5 xs | V_Dict d \<Rightarrow> f6 d | V_Other \<Rightarrow> a')"
  by (cases v) auto

lemma errors_in_if [errors_intros]:
  "(b \<Longrightarrow> errors_in S x) \<Longrightarrow> (\<not> b \<Longrightarrow> errors_in S y) \<Longrightarrow> errors_in S (if b then x else y)"
  by simp

lemma errors_in_case_prod [errors_intros]:
  "(\<And>a b. p = (a, b) \<Longrightarrow> errors_in S (f a b)) \<Longrightarrow> errors_in S (case p of (a, b) \<Rightarrow> f a b)"
  by (cases p) auto

lemma errors_in_map [errors_intros]:
  "(\<And>x. x \<in> set xs \<Longrightarrow> errors_in S (f x)) \<Longrightarrow> errors_in S (sequenceR (map f xs))"
  by (rule errors_in_sequenceR) auto

lemma field_errors [errors_intros]:
  "errors_in scenario_errors (finite_real x)" "errors_in scenario_errors (float_of_int n)"
  by (simp_all add: errors_in_def finite_real_def float_of_int_def Let_def)

lemma reader_errors [errors_intros]:
  "errors_in scenario_errors (finite_value v)" "errors_in scenario_errors (number d k fallback)"
  "errors_in scenario_errors (integer d k n)" "errors_in scenario_errors (boolean d k b)"
  "errors_in scenario_errors (mapping v allowed)" "errors_in scenario_errors (items v)"
  unfolding finite_value_def number_def integer_def boolean_def mapping_def items_def
  by (intro errors_intros scenario_errors_mem)+

lemma constructor_errors [errors_intros]:
  "errors_in scenario_errors (VehicleParameters p)" "errors_in scenario_errors (VehicleState s)"
  "errors_in scenario_errors (CommandSegment a b c)" "errors_in scenario_errors (ImuConfig i)"
  "errors_in scenario_errors (WheelSpeedConfig w)" "errors_in scenario_errors (GnssConfig g)"
  "errors_in scenario_errors (LandmarkConfig l)" "errors_in scenario_errors (Landmark n x y)"
  "errors_in scenario_errors (Waypoint wp)"
  unfolding VehicleParameters_def VehicleState_def CommandSegment_def ImuConfig_def WheelSpeedConfig_def
    GnssConfig_def LandmarkConfig_def Landmark_def Waypoint_def validate_common_def
  by (intro errors_intros scenario_errors_mem)+

text \<open>Every target has an entry in the table of kinds, so its lookup never raises \<^verbatim>\<open>KeyError\<close>.\<close>

lemma FaultSpec_errors [errors_intros]: "errors_in scenario_errors (FaultSpec target kind a b v)"
  unfolding FaultSpec_def
  by (intro errors_intros scenario_errors_mem) (auto simp: FAULT_TARGETS_def valid_faults_def split: if_splits)

lemma parser_errors [errors_intros]:
  "errors_in scenario_errors (parse_vehicle v)" "errors_in scenario_errors (parse_initial_state v)"
  "errors_in scenario_errors (parse_command v)" "errors_in scenario_errors (parse_imu v)"
  "errors_in scenario_errors (parse_wheel v)" "errors_in scenario_errors (parse_gnss v)"
  "errors_in scenario_errors (parse_landmark_sensor v)" "errors_in scenario_errors (parse_landmark v)"
  "errors_in scenario_errors (parse_fault v)" "errors_in scenario_errors (parse_waypoint v)"
  unfolding parse_vehicle_def parse_initial_state_def parse_command_def parse_imu_def parse_wheel_def
    parse_gnss_def parse_landmark_sensor_def parse_landmark_def parse_fault_def parse_waypoint_def
  by (intro errors_intros scenario_errors_mem)+

lemma suite_errors [errors_intros]:
  "errors_in scenario_errors (parse_sensors v)" "errors_in scenario_errors (parse_commands v)"
  "(\<And>x. errors_in scenario_errors (p x)) \<Longrightarrow> errors_in scenario_errors (parse_all p v)"
  unfolding parse_sensors_def parse_commands_def parse_all_def
  by (intro errors_intros scenario_errors_mem | assumption)+

lemma grid_errors [errors_intros]:
  "errors_in scenario_errors (exact_steps a b)" "errors_in scenario_errors (require_aligned_time a b)"
  "errors_in scenario_errors (sample_period a b)"
  unfolding exact_steps_def require_aligned_time_def sample_period_def decimal_divmod_def py_div_def py_round_def Let_def
  by (intro errors_intros scenario_errors_mem)+

lemma check_segments_errors [errors_intros]: "errors_in scenario_errors (check_segments dt e segments)"
  by (induction segments arbitrary: e) (auto intro!: errors_intros)

lemma Scenario_errors [errors_intros]: "errors_in scenario_errors (Scenario s)"
  unfolding Scenario_def validate_scenario_def check_rate_def check_fault_def Let_def
  by (intro errors_intros scenario_errors_mem)


section \<open>What is accepted\<close>

lemma sequenceR_all: "sequenceR (map f xs) = Inr vs \<Longrightarrow> x \<in> set xs \<Longrightarrow> \<exists>v. f x = Inr v"
  by (auto simp: sequenceR_eq_Inr) (metis (no_types, lifting) imageE image_eqI list.set_map)

text \<open>A constructor returns the object it is given; so a parsed object passes its own checks again.\<close>

lemma constructor_id:
  "VehicleParameters p = Inr p' \<Longrightarrow> p = p'" "VehicleState s = Inr s' \<Longrightarrow> s = s'"
  "ImuConfig i = Inr i' \<Longrightarrow> i = i'" "WheelSpeedConfig w = Inr w' \<Longrightarrow> w = w'"
  "GnssConfig g = Inr g' \<Longrightarrow> g = g'" "LandmarkConfig l = Inr l' \<Longrightarrow> l = l'" "Waypoint y = Inr y' \<Longrightarrow> y = y'"
  "Scenario c = Inr c' \<Longrightarrow> c = c'"
  by (auto simp: VehicleParameters_def VehicleState_def ImuConfig_def WheelSpeedConfig_def GnssConfig_def
      LandmarkConfig_def Waypoint_def Scenario_def bindR_eq_Inr)

lemma bindR_made:
  assumes "bindR x f = Inr v" "\<And>y. f y = Inr v \<Longrightarrow> P v"
  shows "P v"
  using assms by (auto simp: bindR_eq_Inr)

lemma parsed_made:
  "parse_vehicle raw = Inr p \<Longrightarrow> VehicleParameters p = Inr p"
  "parse_initial_state raw = Inr s \<Longrightarrow> VehicleState s = Inr s"
  "parse_imu raw = Inr i \<Longrightarrow> ImuConfig i = Inr i" "parse_wheel raw = Inr w \<Longrightarrow> WheelSpeedConfig w = Inr w"
  "parse_gnss raw = Inr g \<Longrightarrow> GnssConfig g = Inr g"
  "parse_landmark_sensor raw = Inr l \<Longrightarrow> LandmarkConfig l = Inr l" "parse_waypoint raw = Inr y \<Longrightarrow> Waypoint y = Inr y"
  unfolding parse_vehicle_def parse_initial_state_def parse_imu_def parse_wheel_def parse_gnss_def
    parse_landmark_sensor_def parse_waypoint_def
  by (elim bindR_made, frule constructor_id, simp)+

lemma constructor_again:
  "CommandSegment a b c = Inr g \<Longrightarrow> CommandSegment (cg_until_s g) (cg_acceleration_mps2 g) (cg_steering_rad g) = Inr g"
  "Landmark n x y = Inr l \<Longrightarrow> Landmark (ld_landmark_id l) (ld_x_m l) (ld_y_m l) = Inr l"
  by (auto simp: CommandSegment_def Landmark_def finite_real_def bindR_eq_Inr split: if_splits)

lemma FaultSpec_again:
  assumes "FaultSpec target kind a b v = Inr f"
  shows "FaultSpec (fs_target f) (fs_kind f) (fs_start_s f) (fs_end_s f) (fs_value f) = Inr f"
proof -
  have "f = \<lparr>fs_target = target, fs_kind = kind, fs_start_s = a, fs_end_s = b, fs_value = v\<rparr>"
    using assms by (auto simp: FaultSpec_def finite_real_def bindR_eq_Inr split: if_splits option.splits)
  then show ?thesis using assms by simp
qed

lemma parsed_positional:
  "parse_command raw = Inr c \<Longrightarrow> CommandSegment (cg_until_s c) (cg_acceleration_mps2 c) (cg_steering_rad c) = Inr c"
  "parse_landmark raw = Inr l \<Longrightarrow> Landmark (ld_landmark_id l) (ld_x_m l) (ld_y_m l) = Inr l"
  "parse_fault raw = Inr f \<Longrightarrow> FaultSpec (fs_target f) (fs_kind f) (fs_start_s f) (fs_end_s f) (fs_value f) = Inr f"
  unfolding parse_command_def parse_landmark_def
    apply (elim bindR_made, erule constructor_again)
   apply (elim bindR_made, erule constructor_again)
  unfolding parse_fault_def
  by (erule bindR_made) (auto split: option.splits pyval.splits elim!: bindR_made intro: FaultSpec_again)

lemma parse_all_made:
  assumes "parse_all p raw = Inr xs" "\<And>r x. p r = Inr x \<Longrightarrow> P x"
  shows "\<forall>x\<in>set xs. P x"
proof
  fix x
  assume "x \<in> set xs"
  moreover obtain rs where "map p rs = map Inr xs"
    using assms(1) by (auto simp: parse_all_def bindR_eq_Inr sequenceR_eq_Inr)
  ultimately obtain r where "p r = Inr x" by (metis imageE image_eqI list.set_map)
  then show "P x" by (rule assms(2))
qed

lemma parse_sensors_made:
  "parse_sensors raw = Inr c \<Longrightarrow>
     ImuConfig (su_imu c) = Inr (su_imu c) \<and> WheelSpeedConfig (su_wheel_speed c) = Inr (su_wheel_speed c)
     \<and> GnssConfig (su_gnss c) = Inr (su_gnss c) \<and> LandmarkConfig (su_landmark c) = Inr (su_landmark c)"
  by (auto simp: parse_sensors_def bindR_eq_Inr dest: parsed_made)

text \<open>Every part of a parsed scenario passes its constructor.\<close>

definition parts_made :: "scenario \<Rightarrow> bool" where
  "parts_made s \<longleftrightarrow>
     VehicleParameters (so_vehicle s) = Inr (so_vehicle s)
     \<and> VehicleState (so_initial_state s) = Inr (so_initial_state s)
     \<and> (\<forall>c\<in>set (so_commands s). CommandSegment (cg_until_s c) (cg_acceleration_mps2 c) (cg_steering_rad c) = Inr c)
     \<and> ImuConfig (su_imu (so_sensors s)) = Inr (su_imu (so_sensors s))
     \<and> WheelSpeedConfig (su_wheel_speed (so_sensors s)) = Inr (su_wheel_speed (so_sensors s))
     \<and> GnssConfig (su_gnss (so_sensors s)) = Inr (su_gnss (so_sensors s))
     \<and> LandmarkConfig (su_landmark (so_sensors s)) = Inr (su_landmark (so_sensors s))
     \<and> (\<forall>l\<in>set (so_landmarks s). Landmark (ld_landmark_id l) (ld_x_m l) (ld_y_m l) = Inr l)
     \<and> (\<forall>f\<in>set (so_faults s). FaultSpec (fs_target f) (fs_kind f) (fs_start_s f) (fs_end_s f) (fs_value f) = Inr f)
     \<and> (\<forall>w\<in>set (so_route s). Waypoint w = Inr w)"

lemma parsed_scenario:
  assumes "scenario_from_mapping raw = Inr s"
  shows "Scenario s = Inr s \<and> parts_made s"
proof -
  from assms obtain r1 r2 r3 r4 r5 r6 r7 where parse:
    "parse_vehicle r1 = Inr (so_vehicle s)" "parse_initial_state r2 = Inr (so_initial_state s)"
    "parse_commands r3 = Inr (so_commands s)" "parse_sensors r4 = Inr (so_sensors s)"
    "parse_all parse_landmark r5 = Inr (so_landmarks s)" "parse_all parse_fault r6 = Inr (so_faults s)"
    "parse_all parse_waypoint r7 = Inr (so_route s)" and s: "Scenario s = Inr s"
    unfolding scenario_from_mapping_def bindR_eq_Inr
    apply -
    apply (elim exE conjE)
    apply (frule constructor_id(8))
    apply hypsubst
    apply (rule that; simp only: scenario.simps; assumption)
    done
  have cmds: "parse_all parse_command r3 = Inr (so_commands s)"
    using parse(3) by (auto simp: parse_commands_def parse_all_def bindR_eq_Inr)
  have "parts_made s"
    unfolding parts_made_def
    using parsed_made(1) [OF parse(1)] parsed_made(2) [OF parse(2)] parse_sensors_made [OF parse(4)]
    by (intro conjI parse_all_made [OF cmds] parse_all_made [OF parse(5)] parse_all_made [OF parse(6)]
      parse_all_made [OF parse(7)] parsed_positional parsed_made(7)) (simp_all only:)
  then show ?thesis using s by blast
qed

lemma check_segments_ok:
  "check_segments dt e segments = Inr e' \<Longrightarrow> isfinite e \<Longrightarrow> \<forall>g\<in>set segments. isfinite (cg_until_s g) \<Longrightarrow>
     e' = (if segments = [] then e else cg_until_s (last segments)) \<and> isfinite e'
     \<and> sorted_wrt (\<lambda>g h. flt (cg_until_s g) (cg_until_s h)) segments \<and> (\<forall>g\<in>set segments. flt e (cg_until_s g))"
proof (induction segments arbitrary: e)
  case (Cons g segments)
  have fin: "isfinite (cg_until_s g)" using Cons.prems(3) by simp
  have after: "flt e (cg_until_s g)" and rest: "check_segments dt (cg_until_s g) segments = Inr e'"
    using Cons.prems(1,2) fin by (auto simp: bindR_eq_Inr fle_def flt_def isfinite_not_nan)
  from Cons.IH [OF rest fin] Cons.prems(3) after show ?case
    by (auto simp: flt_def)
qed simp

lemma exact_steps_ok:
  assumes "exact_steps a b = Inr n"
  shows "1 \<le> n \<and> n \<le> 10000000 \<and> (case align (decimal_of a) (decimal_of b) of (x, y) \<Rightarrow> x = n * y \<and> 0 < y)"
proof -
  obtain x y where xy: "align (decimal_of a) (decimal_of b) = (x, y)" by fastforce
  have "decimal_divmod (decimal_of a) (decimal_of b) = Inr (n, False)" "0 < fst (decimal_of b)" "1 \<le> n" "n \<le> 10000000"
    using assms by (auto simp: exact_steps_def Let_def bindR_eq_Inr split: prod.splits)
  then show ?thesis using decimal_divmod_exact [OF _ _ xy] align_signs [OF xy] xy by simp
qed

text \<open>What the checks establish, in the terms of the components that use a scenario.\<close>

definition scenario_ok :: "scenario \<Rightarrow> bool" where
  "scenario_ok s \<longleftrightarrow>
     (\<exists>n. step_count s = Inr n \<and> 1 \<le> n \<and> n \<le> 10000000
        \<and> (case align (decimal_of (so_duration_s s)) (decimal_of (so_dt_s s)) of (x, y) \<Rightarrow> x = n * y \<and> 0 < y))
     \<and> parameters_ok (so_vehicle s) \<and> within_limits (so_vehicle s) (so_initial_state s)
     \<and> so_commands s \<noteq> [] \<and> feq (cg_until_s (last (so_commands s))) (so_duration_s s)
     \<and> sorted_wrt (\<lambda>g h. flt (cg_until_s g) (cg_until_s h)) (so_commands s)
     \<and> (\<forall>g\<in>set (so_commands s). flt 0 (cg_until_s g) \<and> (\<exists>c. segment_command g = Inr c))
     \<and> (\<forall>f\<in>set (so_faults s). fle 0 (fs_start_s f) \<and> flt (fs_start_s f) (fs_end_s f) \<and> fle (fs_end_s f) (so_duration_s s))
     \<and> distinct (map ld_landmark_id (so_landmarks s))
     \<and> (\<forall>w\<in>set (so_route s). fle 0 (wy_target_speed_mps w) \<and> fle (wy_target_speed_mps w) (vp_max_speed_mps (so_vehicle s)))
     \<and> 0 \<le> so_seed s \<and> so_seed s < 2 ^ 64"

lemma fabs_bounds:
  assumes "isfinite x" "isfinite m" "\<not> flt m (fabs x)"
  shows "fle (fneg m) x \<and> fle x m"
proof -
  have "f64_key (fabs x) = \<bar>f64_key x\<bar>" by (simp add: f64_key_def fabs_mag)
  moreover have "isfinite (fabs x)" using assms(1) by (simp add: isfinite_def fabs_mag)
  ultimately show ?thesis using assms by (auto simp: flt_def fle_key isfinite_not_nan)
qed

lemma initial_within:
  assumes p: "parameters_ok (so_vehicle s)" and state: "VehicleState (so_initial_state s) = Inr (so_initial_state s)"
    and valid: "validate_scenario s = Inr ()"
  shows "within_limits (so_vehicle s) (so_initial_state s)"
proof -
  have fin: "list_all isfinite (vs_fields (so_initial_state s))"
    using state by (simp add: VehicleState_def sequenceR_finite split: if_splits)
  note limits = limits_facts [OF p]
  have checks: "\<not> flt (vs_speed_mps (so_initial_state s)) 0"
    "\<not> flt (vp_max_speed_mps (so_vehicle s)) (vs_speed_mps (so_initial_state s))"
    "\<not> flt (vp_max_steering_rad (so_vehicle s)) (fabs (vs_steering_rad (so_initial_state s)))"
    "fle (fneg (vp_max_deceleration_mps2 (so_vehicle s))) (vs_acceleration_mps2 (so_initial_state s))"
    "fle (vs_acceleration_mps2 (so_initial_state s)) (vp_max_acceleration_mps2 (so_vehicle s))"
    using valid by (auto simp: validate_scenario_def bindR_eq_Inr Let_def)
  have speed: "fle 0 (vs_speed_mps (so_initial_state s))"
    "fle (vs_speed_mps (so_initial_state s)) (vp_max_speed_mps (so_vehicle s))"
    using checks(1,2) fin limits by (auto simp: vs_fields_def flt_def fle_key isfinite_not_nan)
  have "isfinite (vs_steering_rad (so_initial_state s))" using fin by (simp add: vs_fields_def)
  then show ?thesis
    using checks fin speed limits fabs_bounds by (auto simp: within_limits_def)
qed

lemma segment_command_ok:
  "CommandSegment (cg_until_s g) (cg_acceleration_mps2 g) (cg_steering_rad g) = Inr g \<Longrightarrow>
     isfinite (cg_until_s g) \<and> (\<exists>c. segment_command g = Inr c)"
  by (auto simp: CommandSegment_def segment_command_def ControlCommand_def finite_real_def bindR_eq_Inr split: if_splits)

lemma FaultSpec_window:
  assumes "FaultSpec (fs_target f) (fs_kind f) (fs_start_s f) (fs_end_s f) (fs_value f) = Inr f"
  shows "fle 0 (fs_start_s f) \<and> flt (fs_start_s f) (fs_end_s f) \<and> isfinite (fs_end_s f)"
  using assms
  by (auto simp: FaultSpec_def finite_real_def bindR_eq_Inr flt_def fle_def isfinite_not_nan split: if_splits)

lemma accepted_ok:
  assumes "Scenario s = Inr s" "parts_made s"
  shows "scenario_ok s"
proof -
  have valid: "validate_scenario s = Inr ()" and fin: "isfinite (so_duration_s s)"
    and head: "so_commands s \<noteq> []" "0 \<le> so_seed s" "so_seed s < 2 ^ 64"
    using assms(1) by (auto simp: Scenario_def finite_real_def bindR_eq_Inr split: if_splits)
  have p: "parameters_ok (so_vehicle s)" using assms(2) VehicleParameters_ok by (auto simp: parts_made_def)
  obtain n e us where n: "exact_steps (so_duration_s s) (so_dt_s s) = Inr n"
    and e: "check_segments (so_dt_s s) 0 (so_commands s) = Inr e" "feq e (so_duration_s s)"
    and ids: "distinct (map ld_landmark_id (so_landmarks s))"
    and faults: "sequenceR (map (check_fault (so_duration_s s) (so_dt_s s)) (so_faults s)) = Inr us"
    and route: "\<not> list_ex (\<lambda>w. flt (vp_max_speed_mps (so_vehicle s)) (wy_target_speed_mps w)) (so_route s)"
    using valid by (auto simp: validate_scenario_def bindR_eq_Inr Let_def)
  have cmds: "\<forall>g\<in>set (so_commands s). isfinite (cg_until_s g) \<and> (\<exists>c. segment_command g = Inr c)"
    using assms(2) segment_command_ok by (auto simp: parts_made_def)
  have segments: "e = cg_until_s (last (so_commands s))"
    "sorted_wrt (\<lambda>g h. flt (cg_until_s g) (cg_until_s h)) (so_commands s)"
    "\<forall>g\<in>set (so_commands s). flt 0 (cg_until_s g)"
    using check_segments_ok [OF e(1)] cmds head(1) by auto
  have windows: "\<forall>f\<in>set (so_faults s). fle 0 (fs_start_s f) \<and> flt (fs_start_s f) (fs_end_s f)
      \<and> fle (fs_end_s f) (so_duration_s s)"
  proof
    fix f assume f: "f \<in> set (so_faults s)"
    then have w: "fle 0 (fs_start_s f) \<and> flt (fs_start_s f) (fs_end_s f) \<and> isfinite (fs_end_s f)"
      using assms(2) FaultSpec_window by (auto simp: parts_made_def)
    have "\<exists>u. check_fault (so_duration_s s) (so_dt_s s) f = Inr u" by (rule sequenceR_all [OF faults f])
    then have "\<not> flt (so_duration_s s) (fs_end_s f)" by (auto simp: check_fault_def bindR_eq_Inr)
    then show "fle 0 (fs_start_s f) \<and> flt (fs_start_s f) (fs_end_s f) \<and> fle (fs_end_s f) (so_duration_s s)"
      using w fin by (auto simp: flt_def fle_def isfinite_not_nan)
  qed
  have speeds: "\<forall>w\<in>set (so_route s). fle 0 (wy_target_speed_mps w) \<and> fle (wy_target_speed_mps w) (vp_max_speed_mps (so_vehicle s))"
  proof
    fix w assume w: "w \<in> set (so_route s)"
    then have "Waypoint w = Inr w" using assms(2) by (simp add: parts_made_def)
    then have "isfinite (wy_target_speed_mps w)" "\<not> flt (wy_target_speed_mps w) 0"
      by (auto simp: Waypoint_def finite_real_def bindR_eq_Inr split: if_splits)
    then show "fle 0 (wy_target_speed_mps w) \<and> fle (wy_target_speed_mps w) (vp_max_speed_mps (so_vehicle s))"
      using route w limits_facts [OF p] by (auto simp: list_ex_iff flt_def fle_def isfinite_not_nan)
  qed
  show ?thesis
    unfolding scenario_ok_def step_count_def
    using n exact_steps_ok [OF n] p initial_within [OF p _ valid] assms(2) head e(2) segments cmds windows ids speeds
    by (auto simp: parts_made_def)
qed

text \<open>
  C37: A scenario document that parses is fit for use. Its duration is an exact multiple of its
  decimal step, between one and ten million steps; its parameters are positive and its initial state
  is within them; the commands end at increasing times, the last one at the duration, and each is a
  legal command; every fault window is inside the run and not empty; landmark ids are unique, the
  route asks for no speed beyond the vehicle's and the seed fits in 64 bits.
\<close>

theorem parsed_scenario_ok:
  assumes "scenario_from_mapping raw = Inr s"
  shows "scenario_ok s"
  using parsed_scenario [OF assms] accepted_ok by blast

text \<open>
  The open-loop run of a parsed scenario, when it returns, has one sample more than the
  scenario has steps, every sampled state is within the vehicle's limits, the first is the initial
  state, and every command is the one the scenario has at the sample's time.
\<close>

theorem scenario_run_within_limits:
  assumes "scenario_from_mapping raw = Inr s" "run_scenario lib s = Inr samples"
  shows "(\<exists>n. step_count s = Inr n \<and> int (length samples) = n + 1)
    \<and> sm_state (hd samples) = so_initial_state s
    \<and> list_all (\<lambda>x. within_limits (so_vehicle s) (sm_state x)) samples
    \<and> run_of lib (so_vehicle s) (so_dt_s s) (\<lambda>_ time. command_at s time) 0 samples"
proof -
  have ok: "scenario_ok s" using parsed_scenario [OF assms(1)] accepted_ok by blast
  from assms(2) obtain n where n: "step_count s = Inr n" and
    run: "simulate_fixed_step lib (so_vehicle s) (so_initial_state s) (so_dt_s s) n (\<lambda>_ time. command_at s time) = Inr samples"
    by (auto simp: run_scenario_def bindR_eq_Inr)
  have pos: "1 \<le> n" using ok n by (auto simp: scenario_ok_def)
  from run have "simulate_from lib (so_vehicle s) (so_dt_s s) (\<lambda>_ time. command_at s time) (nat n) 0 (so_initial_state s) = Inr samples"
    by (auto simp: simulate_fixed_step_def bindR_eq_Inr finite_real_def split: if_splits)
  from simulate_from_Inr [OF this] have facts:
    "run_of lib (so_vehicle s) (so_dt_s s) (\<lambda>_ time. command_at s time) 0 samples" "length samples = nat n + 1"
    "sm_state (hd samples) = so_initial_state s" by auto
  have "samples \<noteq> []" using facts(2) by auto
  with run_of_within [OF _ facts(1)] facts(3) ok
  have "list_all (\<lambda>x. within_limits (so_vehicle s) (sm_state x)) samples"
    by (auto simp: scenario_ok_def list_all_iff)
  then show ?thesis using facts n pos by simp
qed

text \<open>
  A parsed scenario fits the sensor pipeline, except for one thing: the pipeline is built from it
  exactly when the rates of its disabled sensors divide the step too. The scenario's own validation
  looks at enabled sensors only, so a scenario with a disabled sensor can be accepted and then be
  refused by the pipeline.
\<close>

theorem scenario_pipeline:
  assumes "scenario_from_mapping raw = Inr s"
  shows "(\<exists>p. SensorPipeline env (so_dt_s s) (so_vehicle s) (so_sensors s) (so_landmarks s) (so_faults s) (so_seed s) = Inr p)
    \<longleftrightarrow> (\<forall>(enabled, rate)\<in>set (sensor_rates (so_sensors s)). enabled \<or> (\<exists>n. sample_period (so_dt_s s) rate = Inr n))"
proof -
  have made: "Scenario s = Inr s" "parts_made s" using parsed_scenario [OF assms] by blast+
  then have valid: "validate_scenario s = Inr ()" and dt: "isfinite (so_dt_s s)"
    and seed: "0 \<le> so_seed s" "so_seed s < 2 ^ 64"
    by (auto simp: Scenario_def finite_real_def bindR_eq_Inr split: if_splits)
  have ok: "scenario_ok s" by (rule accepted_ok [OF made])
  have "\<exists>n. exact_steps (so_duration_s s) (so_dt_s s) = Inr n" using ok by (auto simp: scenario_ok_def step_count_def)
  then have "0 < fst (decimal_of (so_dt_s s))" by (auto simp: exact_steps_def Let_def bindR_eq_Inr)
  then have pos: "\<not> fle (so_dt_s s) 0" by (simp add: decimal_of_sign fle_def)
  have ids: "distinct (map ld_landmark_id (so_landmarks s))" using ok by (simp add: scenario_ok_def)
  have "\<exists>us. sequenceR (map (check_rate (so_dt_s s)) (sensor_rates (so_sensors s))) = Inr us"
    using valid by (auto simp: validate_scenario_def bindR_eq_Inr Let_def)
  then have rates: "\<forall>(enabled, rate)\<in>set (sensor_rates (so_sensors s)). enabled \<longrightarrow> (\<exists>n. sample_period (so_dt_s s) rate = Inr n)"
    using sequenceR_all by (fastforce simp: check_rate_def bindR_eq_Inr)
  have "(\<exists>p. SensorPipeline env (so_dt_s s) (so_vehicle s) (so_sensors s) (so_landmarks s) (so_faults s) (so_seed s) = Inr p)
    \<longleftrightarrow> (\<forall>(enabled, rate)\<in>set (sensor_rates (so_sensors s)). \<exists>n. sample_period (so_dt_s s) rate = Inr n)"
    using dt pos seed ids
    by (auto simp: SensorPipeline_def finite_real_def bindR_eq_Inr sensor_rates_def)
  then show ?thesis using rates by fast
qed

section \<open>Snapshots\<close>

text \<open>The angles that a snapshot writes in degrees.\<close>

definition angles :: "scenario \<Rightarrow> f64 list" where
  "angles s =
     [vp_max_steering_rad (so_vehicle s), vs_heading_rad (so_initial_state s), vs_steering_rad (so_initial_state s),
      ic_yaw_rate_noise_std_rad_s (su_imu (so_sensors s)), ic_yaw_rate_bias_rad_s (su_imu (so_sensors s)),
      lc_bearing_noise_std_rad (su_landmark (so_sensors s)), lc_field_of_view_rad (su_landmark (so_sensors s)),
      lc_outlier_bearing_std_rad (su_landmark (so_sensors s))]
     @ map cg_steering_rad (so_commands s)"

definition angle_stable :: "f64 \<Rightarrow> bool" where
  "angle_stable x \<longleftrightarrow> isfinite (degrees x) \<and> radians (degrees x) = x"

lemma number_Nil [simp]: "number [] k fallback = (case fallback of None \<Rightarrow> Inl ValueError | Some x \<Rightarrow> finite_real x)"
  and number_Cons [simp]: "number ((k', v) # d) k fallback = (if k = k' then finite_value v else number d k fallback)"
  and finite_value_Float [simp]: "finite_value (V_Float x) = finite_real x"
  by (simp_all add: number_def finite_value_def)

lemma stable_degrees: "angle_stable x \<Longrightarrow> finite_real (degrees x) = Inr (degrees x)"
  by (simp add: angle_stable_def finite_real_def)

lemma finite_real_Inr: "isfinite x \<Longrightarrow> finite_real x = Inr x"
  by (simp add: finite_real_def)

text \<open>A record rebuilt from its own fields.\<close>

lemma rebuilt:
  "\<lparr>vp_wheelbase_m = vp_wheelbase_m p, vp_steering_time_constant_s = vp_steering_time_constant_s p,
     vp_acceleration_time_constant_s = vp_acceleration_time_constant_s p,
     vp_max_steering_rad = vp_max_steering_rad p, vp_max_acceleration_mps2 = vp_max_acceleration_mps2 p,
     vp_max_deceleration_mps2 = vp_max_deceleration_mps2 p, vp_max_speed_mps = vp_max_speed_mps p\<rparr> = p"
  "\<lparr>vs_x_m = vs_x_m c, vs_y_m = vs_y_m c, vs_heading_rad = vs_heading_rad c,
     vs_speed_mps = vs_speed_mps c, vs_steering_rad = vs_steering_rad c,
     vs_acceleration_mps2 = vs_acceleration_mps2 c\<rparr> = c"
  "\<lparr>ic_enabled = ic_enabled i, ic_rate_hz = ic_rate_hz i,
     ic_acceleration_noise_std_mps2 = ic_acceleration_noise_std_mps2 i,
     ic_yaw_rate_noise_std_rad_s = ic_yaw_rate_noise_std_rad_s i,
     ic_acceleration_bias_mps2 = ic_acceleration_bias_mps2 i,
     ic_yaw_rate_bias_rad_s = ic_yaw_rate_bias_rad_s i, ic_latency_s = ic_latency_s i,
     ic_dropout_probability = ic_dropout_probability i\<rparr> = i"
  "\<lparr>wc_enabled = wc_enabled w, wc_rate_hz = wc_rate_hz w, wc_noise_std_mps = wc_noise_std_mps w,
     wc_scale_error = wc_scale_error w, wc_latency_s = wc_latency_s w,
     wc_dropout_probability = wc_dropout_probability w\<rparr> = w"
  "\<lparr>gc_enabled = gc_enabled g, gc_rate_hz = gc_rate_hz g,
     gc_position_noise_std_m = gc_position_noise_std_m g, gc_latency_s = gc_latency_s g,
     gc_dropout_probability = gc_dropout_probability g\<rparr> = g"
  "\<lparr>lc_enabled = lc_enabled l, lc_rate_hz = lc_rate_hz l, lc_range_noise_std_m = lc_range_noise_std_m l,
     lc_bearing_noise_std_rad = lc_bearing_noise_std_rad l, lc_max_range_m = lc_max_range_m l,
     lc_field_of_view_rad = lc_field_of_view_rad l, lc_latency_s = lc_latency_s l,
     lc_dropout_probability = lc_dropout_probability l, lc_outlier_probability = lc_outlier_probability l,
     lc_outlier_range_std_m = lc_outlier_range_std_m l,
     lc_outlier_bearing_std_rad = lc_outlier_bearing_std_rad l\<rparr> = l"
  "\<lparr>su_imu = su_imu u, su_wheel_speed = su_wheel_speed u, su_gnss = su_gnss u,
     su_landmark = su_landmark u\<rparr> = u"
  "\<lparr>wy_x_m = wy_x_m y, wy_y_m = wy_y_m y, wy_target_speed_mps = wy_target_speed_mps y,
     wy_acceptance_radius_m = wy_acceptance_radius_m y\<rparr> = y"
  "\<lparr>so_name = so_name s, so_duration_s = so_duration_s s, so_dt_s = so_dt_s s,
     so_initial_state = so_initial_state s, so_commands = so_commands s, so_vehicle = so_vehicle s,
     so_sensors = so_sensors s, so_landmarks = so_landmarks s, so_faults = so_faults s, so_route = so_route s,
     so_seed = so_seed s\<rparr> = s"
  by simp_all

lemmas reading = finite_real_Inr stable_degrees rebuilt

lemma stable_back: "angle_stable x \<Longrightarrow> radians (degrees x) = x"
  by (simp add: angle_stable_def)

lemma mapping_dict: "list_all (\<lambda>(k, v). k \<in> set allowed) d \<Longrightarrow> mapping (V_Dict d) allowed = Inr d"
  by (simp add: mapping_def)

lemma vehicle_again:
  assumes "VehicleParameters p = Inr p" "angle_stable (vp_max_steering_rad p)"
  shows "parse_vehicle (vehicle_mapping p) = Inr p"
proof -
  have fin: "list_all isfinite (vp_fields p)"
    using VehicleParameters_ok [OF assms(1)] by (simp add: parameters_ok_def list_all_iff)
  show ?thesis
    using fin assms
    by (simp add: parse_vehicle_def vehicle_mapping_def mapping_dict vehicle_fields_def reading
        stable_back vp_fields_def)
qed

lemma initial_state_again:
  assumes "VehicleState c = Inr c" "angle_stable (vs_heading_rad c)" "angle_stable (vs_steering_rad c)"
  shows "parse_initial_state (initial_state_mapping c) = Inr c"
proof -
  have fin: "list_all isfinite (vs_fields c)"
    using assms(1) by (simp add: VehicleState_def sequenceR_finite split: if_splits)
  show ?thesis
    using fin assms
    by (simp add: parse_initial_state_def initial_state_mapping_def mapping_dict initial_state_fields_def reading stable_back vs_fields_def)
qed

lemma command_again:
  assumes "CommandSegment (cg_until_s c) (cg_acceleration_mps2 c) (cg_steering_rad c) = Inr c"
    "angle_stable (cg_steering_rad c)"
  shows "parse_command (command_mapping c) = Inr c"
proof -
  have "isfinite (cg_until_s c)" "isfinite (cg_acceleration_mps2 c)"
    using assms(1) by (auto simp: CommandSegment_def finite_real_def bindR_eq_Inr split: if_splits)
  then show ?thesis
    using assms
    by (simp add: parse_command_def command_mapping_def mapping_dict command_fields_def reading stable_back)
qed

lemma sensors_again:
  assumes "ImuConfig (su_imu c) = Inr (su_imu c)" "WheelSpeedConfig (su_wheel_speed c) = Inr (su_wheel_speed c)"
    "GnssConfig (su_gnss c) = Inr (su_gnss c)" "LandmarkConfig (su_landmark c) = Inr (su_landmark c)"
    "angle_stable (ic_yaw_rate_noise_std_rad_s (su_imu c))" "angle_stable (ic_yaw_rate_bias_rad_s (su_imu c))"
    "angle_stable (lc_bearing_noise_std_rad (su_landmark c))" "angle_stable (lc_field_of_view_rad (su_landmark c))"
    "angle_stable (lc_outlier_bearing_std_rad (su_landmark c))"
  shows "parse_sensors (sensors_mapping c) = Inr c"
proof -
  have imu: "parse_imu (imu_mapping (su_imu c)) = Inr (su_imu c)"
  proof -
    have "list_all isfinite [ic_rate_hz (su_imu c), ic_acceleration_noise_std_mps2 (su_imu c),
        ic_acceleration_bias_mps2 (su_imu c), ic_latency_s (su_imu c), ic_dropout_probability (su_imu c)]"
      using assms(1) by (auto simp: ImuConfig_def validate_common_def bindR_eq_Inr)
    then show ?thesis
      using assms(1,5,6)
      by (simp add: parse_imu_def imu_mapping_def mapping_dict imu_fields_def reading stable_back boolean_def)
  qed
  have wheel: "parse_wheel (wheel_mapping (su_wheel_speed c)) = Inr (su_wheel_speed c)"
  proof -
    have "list_all isfinite [wc_rate_hz (su_wheel_speed c), wc_noise_std_mps (su_wheel_speed c),
        wc_scale_error (su_wheel_speed c), wc_latency_s (su_wheel_speed c), wc_dropout_probability (su_wheel_speed c)]"
      using assms(2) by (auto simp: WheelSpeedConfig_def validate_common_def bindR_eq_Inr)
    then show ?thesis
      using assms(2)
      by (simp add: parse_wheel_def wheel_mapping_def mapping_dict wheel_fields_def reading boolean_def)
  qed
  have gnss: "parse_gnss (gnss_mapping (su_gnss c)) = Inr (su_gnss c)"
  proof -
    have "list_all isfinite [gc_rate_hz (su_gnss c), gc_position_noise_std_m (su_gnss c), gc_latency_s (su_gnss c),
        gc_dropout_probability (su_gnss c)]"
      using assms(3) by (auto simp: GnssConfig_def validate_common_def bindR_eq_Inr)
    then show ?thesis
      using assms(3)
      by (simp add: parse_gnss_def gnss_mapping_def mapping_dict gnss_fields_def reading boolean_def)
  qed
  have landmark: "parse_landmark_sensor (landmark_sensor_mapping (su_landmark c)) = Inr (su_landmark c)"
  proof -
    have "list_all isfinite [lc_rate_hz (su_landmark c), lc_range_noise_std_m (su_landmark c),
        lc_max_range_m (su_landmark c), lc_latency_s (su_landmark c), lc_dropout_probability (su_landmark c),
        lc_outlier_probability (su_landmark c), lc_outlier_range_std_m (su_landmark c)]"
      using assms(4) by (auto simp: LandmarkConfig_def validate_common_def bindR_eq_Inr)
    then show ?thesis
      using assms(4,7-9)
      by (simp add: parse_landmark_sensor_def landmark_sensor_mapping_def mapping_dict landmark_sensor_fields_def
          reading stable_back boolean_def)
  qed
  show ?thesis
    by (simp add: parse_sensors_def sensors_mapping_def mapping_dict get_or_def imu wheel gnss landmark)
qed

lemma parse_all_again:
  "\<forall>x\<in>set xs. p (f x) = Inr x \<Longrightarrow> parse_all p (V_List (map f xs)) = Inr xs"
  by (auto simp: parse_all_def items_def sequenceR_eq_Inr)

lemma landmark_again:
  assumes "Landmark (ld_landmark_id l) (ld_x_m l) (ld_y_m l) = Inr l"
  shows "parse_landmark (landmark_mapping l) = Inr l"
proof -
  have "isfinite (ld_x_m l)" "isfinite (ld_y_m l)"
    using assms by (auto simp: Landmark_def finite_real_def bindR_eq_Inr split: if_splits)
  then show ?thesis
    using assms by (simp add: parse_landmark_def landmark_mapping_def mapping_dict landmark_fields_def reading integer_def)
qed

lemma fault_again:
  assumes "FaultSpec (fs_target f) (fs_kind f) (fs_start_s f) (fs_end_s f) (fs_value f) = Inr f"
  shows "parse_fault (fault_mapping f) = Inr f"
proof -
  have "isfinite (fs_start_s f)" "isfinite (fs_end_s f)" "isfinite (fs_value f)"
    using assms by (auto simp: FaultSpec_def finite_real_def bindR_eq_Inr split: if_splits)
  then show ?thesis
    using assms by (simp add: parse_fault_def fault_mapping_def mapping_dict fault_fields_def reading)
qed

lemma waypoint_again:
  assumes "Waypoint w = Inr w"
  shows "parse_waypoint (waypoint_mapping w) = Inr w"
proof -
  have "list_all isfinite [wy_x_m w, wy_y_m w, wy_target_speed_mps w, wy_acceptance_radius_m w]"
    using assms by (auto simp: Waypoint_def finite_real_def bindR_eq_Inr split: if_splits)
  then show ?thesis
    using assms by (simp add: parse_waypoint_def waypoint_mapping_def mapping_dict waypoint_fields_def reading)
qed

lemma snapshot_again:
  assumes made: "Scenario s = Inr s" "parts_made s" and stable: "\<And>a. a \<in> set (angles s) \<Longrightarrow> angle_stable a"
  shows "scenario_from_mapping (scenario_to_mapping s) = Inr s"
proof -
  have fin: "isfinite (so_duration_s s)" "isfinite (so_dt_s s)" "so_commands s \<noteq> []"
    using made(1) by (auto simp: Scenario_def finite_real_def bindR_eq_Inr split: if_splits)
  have vehicle: "parse_vehicle (vehicle_mapping (so_vehicle s)) = Inr (so_vehicle s)"
    by (rule vehicle_again) (use made(2) stable in \<open>simp_all add: parts_made_def angles_def\<close>)
  have state: "parse_initial_state (initial_state_mapping (so_initial_state s)) = Inr (so_initial_state s)"
    by (rule initial_state_again) (use made(2) stable in \<open>simp_all add: parts_made_def angles_def\<close>)
  have sensors: "parse_sensors (sensors_mapping (so_sensors s)) = Inr (so_sensors s)"
    by (rule sensors_again) (use made(2) stable in \<open>simp_all add: parts_made_def angles_def\<close>)
  have "\<forall>c\<in>set (so_commands s). parse_command (command_mapping c) = Inr c"
    using made(2) stable command_again by (simp add: parts_made_def angles_def)
  then have commands: "parse_commands (V_List (map command_mapping (so_commands s))) = Inr (so_commands s)"
    using parse_all_again [of "so_commands s" parse_command command_mapping] fin(3)
    by (simp add: parse_commands_def parse_all_def items_def guardR_def)
  have landmarks: "parse_all parse_landmark (V_List (map landmark_mapping (so_landmarks s))) = Inr (so_landmarks s)"
    by (rule parse_all_again) (use made(2) landmark_again in \<open>simp add: parts_made_def\<close>)
  have faults: "parse_all parse_fault (V_List (map fault_mapping (so_faults s))) = Inr (so_faults s)"
    by (rule parse_all_again) (use made(2) fault_again in \<open>simp add: parts_made_def\<close>)
  have route: "parse_all parse_waypoint (V_List (map waypoint_mapping (so_route s))) = Inr (so_route s)"
    by (rule parse_all_again) (use made(2) waypoint_again in \<open>simp add: parts_made_def\<close>)
  show ?thesis
    using made(1)
    by (simp add: scenario_from_mapping_def scenario_to_mapping_def mapping_dict scenario_fields_def integer_def guardR_def
        get_or_def vehicle state sensors commands landmarks faults route reading fin)
qed

text \<open>
  C36: The configuration snapshot of a run restores the scenario. A parsed scenario whose angles
  survive the conversion to degrees and back is what parsing its own normalised mapping returns,
  field for field.
\<close>

theorem scenario_snapshot_roundtrip:
  assumes "scenario_from_mapping raw = Inr s" "\<forall>a\<in>set (angles s). angle_stable a"
  shows "scenario_from_mapping (scenario_to_mapping s) = Inr s"
  using parsed_scenario [OF assms(1)] assms(2) snapshot_again by blast

end
