(* ===== verification/Sensor_Laws.thy ===== *)
theory Sensor_Laws
  imports Sensor_Pipeline
begin

text \<open>
  Laws of the sensor pipeline: measurements are conserved and kept in order through every call, a
  step delivers exactly what is due, and faults do not disturb the noise of the sensors.
\<close>

section \<open>The queue\<close>

definition kind_of :: "pending \<Rightarrow> sensor" where
  "kind_of x = measurement_kind (snd (snd x))"

definition sampled_at :: "pending \<Rightarrow> int" where
  "sampled_at x = mt_sample_step_id (times_of (snd (snd x)))"

text \<open>Entries due at the same step leave the heap in the order of their sample steps.\<close>

definition in_order :: "pending \<Rightarrow> pending \<Rightarrow> bool" where
  "in_order x y \<longleftrightarrow> heap_before x y \<and> (fst x = fst y \<longrightarrow> sampled_at x \<le> sampled_at y)"

lemma in_order_trans: "in_order x y \<Longrightarrow> in_order y z \<Longrightarrow> in_order x z"
  by (cases x; cases y; cases z) (auto simp: in_order_def)

lemma set_heap_push [simp]: "set (heap_push x ys) = insert x (set ys)"
  by (induction ys) auto

lemma sorted_heap_push:
  "sorted_wrt in_order ys \<Longrightarrow>
     (\<And>y. y \<in> set ys \<Longrightarrow> if heap_before x y then in_order x y else in_order y x) \<Longrightarrow>
     sorted_wrt in_order (heap_push x ys)"
proof (induction ys)
  case (Cons y ys)
  show ?case
  proof (cases "heap_before x y")
    case True
    with Cons.prems(2) [of y] have "in_order x y" by simp
    with Cons.prems(1) in_order_trans True show ?thesis by auto
  next
    case False
    with Cons.prems(2) [of y] have "in_order y x" by simp
    with Cons False show ?thesis by auto
  qed
qed simp

lemma filter_heap_push: "length (filter P (heap_push x ys)) = length (filter P (x # ys))"
  by (induction ys) auto

definition pending_of :: "sensor \<Rightarrow> 'r sensor_pipeline \<Rightarrow> nat" where
  "pending_of k s = length (filter (\<lambda>x. kind_of x = k) (pl_pending s))"

text \<open>The counters account for every measurement; \<open>D\<close> says how many were delivered.\<close>

definition conserved :: "(sensor \<Rightarrow> nat) \<Rightarrow> 'r sensor_pipeline \<Rightarrow> bool" where
  "conserved D s \<longleftrightarrow> (\<forall>k. ct_delivered (pl_statistics s k) = D k \<and>
     ct_generated (pl_statistics s k) = ct_dropped (pl_statistics s k) + D k + pending_of k s)"

text \<open>
  An entry carries its measurement's delivery step, not before \<open>b\<close>, an ordinal already given, and
  a measurement sampled at or before step \<open>c\<close>, the pipeline's last step.
\<close>

definition entry_ok :: "int \<Rightarrow> int \<Rightarrow> nat \<Rightarrow> pending \<Rightarrow> bool" where
  "entry_ok b c n x \<longleftrightarrow>
     (case x of (d, i, m) \<Rightarrow> b \<le> d \<and> i \<le> n \<and> d = mt_delivery_step_id (times_of m)) \<and> sampled_at x \<le> c"

lemma entry_ok_iff:
  "entry_ok b c n x \<longleftrightarrow>
     b \<le> fst x \<and> fst (snd x) \<le> n \<and> fst x = mt_delivery_step_id (times_of (snd (snd x))) \<and> sampled_at x \<le> c"
  by (cases x) (simp add: entry_ok_def)

definition pipeline_inv :: "int \<Rightarrow> int \<Rightarrow> (sensor \<Rightarrow> nat) \<Rightarrow> 'r sensor_pipeline \<Rightarrow> bool" where
  "pipeline_inv b c D s \<longleftrightarrow>
     pl_last_step s = c \<and> conserved D s \<and> sorted_wrt in_order (pl_pending s) \<and> list_all (entry_ok b c (pl_ordinal s)) (pl_pending s)"

lemma pipeline_inv_advance:
  "pipeline_inv b c D s \<Longrightarrow> c \<le> n \<Longrightarrow> pipeline_inv b n D (s\<lparr>pl_last_step := n\<rparr>)"
  by (fastforce simp: pipeline_inv_def conserved_def pending_of_def list_all_iff entry_ok_def)

lemma conserved_count:
  "(\<And>c. ct_generated (f c) = ct_generated c \<and> ct_dropped (f c) = ct_dropped c \<and> ct_delivered (f c) = ct_delivered c) \<Longrightarrow>
     conserved D (count k f s) = conserved D s"
  by (auto simp: conserved_def count_def pending_of_def)

lemma pipeline_inv_simps [simp]:
  "pipeline_inv b c D (s\<lparr>pl_rngs := r\<rparr>) = pipeline_inv b c D s"
  "pipeline_inv b c D (s\<lparr>pl_events := ev\<rparr>) = pipeline_inv b c D s"
  "pipeline_inv b c D (s\<lparr>pl_active_faults := a\<rparr>) = pipeline_inv b c D s"
  by (simp_all add: pipeline_inv_def conserved_def pending_of_def)

lemma record_or_drop_inv:
  assumes inv: "pipeline_inv b c D s" and due: "b \<le> mt_delivery_step_id (times_of m)"
    and now: "mt_sample_step_id (times_of m) = c" and kind: "measurement_kind m = k"
  shows "pipeline_inv b c D (record_or_drop k m draw p time s)"
proof (cases "fault_active (count k (\<lambda>c. c\<lparr>ct_generated := ct_generated c + 1\<rparr>) s) (sensor_name k) ''dropout'' time \<or> flt draw p")
  case True
  with inv show ?thesis
    by (auto simp: record_or_drop_def Let_def pipeline_inv_def conserved_def count_def pending_of_def)
next
  case False
  let ?x = "(mt_delivery_step_id (times_of m), pl_ordinal s + 1, m)"
  have ok: "list_all (entry_ok b c (pl_ordinal s)) (pl_pending s)" and sorted: "sorted_wrt in_order (pl_pending s)"
    using inv by (simp_all add: pipeline_inv_def)
  have "sorted_wrt in_order (heap_push ?x (pl_pending s))"
    by (rule sorted_heap_push [OF sorted])
      (use ok now in \<open>fastforce simp: list_all_iff entry_ok_def in_order_def sampled_at_def\<close>)
  moreover have "list_all (entry_ok b c (pl_ordinal s + 1)) (heap_push ?x (pl_pending s))"
    using ok due now by (force simp: list_all_iff entry_ok_def sampled_at_def)
  moreover have "conserved D s" using inv by (simp add: pipeline_inv_def)
  then have "conserved D (record_or_drop k m draw p time s)"
    using False kind
    by (auto simp: record_or_drop_def Let_def conserved_def count_def pending_of_def filter_heap_push kind_of_def)
  ultimately show ?thesis
    using False inv by (simp add: record_or_drop_def Let_def pipeline_inv_def count_def)
qed

section \<open>Every call keeps the invariant\<close>

lemma keeps_apply: "keeps I m \<Longrightarrow> I s \<Longrightarrow> I (snd (m s))"
  by (simp add: keeps_def)

lemma new_measurement_same:
  "new_measurement m = Inr m' \<Longrightarrow> times_of m' = times_of m \<and> measurement_kind m' = measurement_kind m"
  by (cases m) (auto simp: bindR_eq_Inr)

lemma delivery_not_early: "delivery dt n latency = Inr (d, t) \<Longrightarrow> n \<le> d"
  by (auto simp: delivery_def bindR_eq_Inr Let_def)

lemma emit_keeps:
  assumes "b \<le> n" "c = n" "\<And>t. times_of (build t) = t" "\<And>t. measurement_kind (build t) = k"
  shows "keeps (pipeline_inv b c D) (emit k n time latency draw p build)"
proof (rule keepsI)
  fix s :: "'r sensor_pipeline"
  assume inv: "pipeline_inv b c D s"
  show "pipeline_inv b c D (snd (emit k n time latency draw p build s))"
  proof (cases "fst (emit k n time latency draw p build s)")
    case (Inl e)
    then show ?thesis using inv by (auto simp: emit_def split: sum.splits)
  next
    case (Inr u)
    then obtain d t m where d: "delivery (pl_dt_s s) n latency = Inr (d, t)"
      and m: "new_measurement (build \<lparr>mt_sample_step_id = n, mt_sample_time_s = time,
               mt_delivery_step_id = d, mt_delivery_time_s = t\<rparr>) = Inr m"
      by (auto simp: emit_def bindR_eq_Inr split: sum.splits)
    have "b \<le> mt_delivery_step_id (times_of m)" "mt_sample_step_id (times_of m) = c" "measurement_kind m = k"
      using new_measurement_same [OF m] delivery_not_early [OF d] assms by auto
    then show ?thesis using record_or_drop_inv [OF inv] d m by (simp add: emit_def)
  qed
qed

lemma draw_keeps [keeps_intros]:
  "keeps (pipeline_inv b c D) (draw_random env k)" "keeps (pipeline_inv b c D) (draw_gauss env k sigma)"
  by (auto simp: keeps_def draw_random_def draw_gauss_def split: prod.splits)

lemma count_outlier_inv [simp]:
  "pipeline_inv b c D (count k (\<lambda>x. x\<lparr>ct_outliers := Suc (ct_outliers x)\<rparr>) s) = pipeline_inv b c D s"
proof -
  have "conserved D (count k (\<lambda>x. x\<lparr>ct_outliers := Suc (ct_outliers x)\<rparr>) s) = conserved D s"
    by (rule conserved_count) simp
  then show ?thesis by (simp add: pipeline_inv_def count_def)
qed

lemma observe_landmark_keeps [keeps_intros]:
  "keeps (pipeline_inv b c D) (observe_landmark env config forced state l)"
  unfolding observe_landmark_def Let_def
  by (intro keeps_intros impI conjI keeps_modifyM | simp split del: if_split | split if_split)+

lemma observe_landmarks_keeps [keeps_intros]:
  "keeps (pipeline_inv b c D) (observe_landmarks env config forced state ls)"
  by (induction ls) (simp_all only: observe_landmarks.simps, (intro keeps_intros)+)

lemma sample_imu_keeps: "b \<le> n \<Longrightarrow> keeps (pipeline_inv b n D) (sample_imu env n time state)"
  unfolding sample_imu_def Let_def
  by (rule keepsI, erule keeps_apply [rotated], intro keeps_intros,
      rule keepsI, erule keeps_apply [rotated], intro keeps_intros emit_keeps) simp_all

lemma sample_wheel_keeps: "b \<le> n \<Longrightarrow> keeps (pipeline_inv b n D) (sample_wheel env n time state)"
  unfolding sample_wheel_def Let_def
  by (rule keepsI, erule keeps_apply [rotated], intro keeps_intros,
      rule keepsI, erule keeps_apply [rotated], intro emit_keeps) simp_all

lemma sample_gnss_keeps: "b \<le> n \<Longrightarrow> keeps (pipeline_inv b n D) (sample_gnss env n time state)"
  unfolding sample_gnss_def Let_def
  by (rule keepsI, erule keeps_apply [rotated], intro keeps_intros,
      rule keepsI, erule keeps_apply [rotated], intro emit_keeps) simp_all

lemma sample_landmarks_keeps: "b \<le> n \<Longrightarrow> keeps (pipeline_inv b n D) (sample_landmarks env n time state)"
  unfolding sample_landmarks_def Let_def
  by (rule keepsI, erule keeps_apply [rotated], intro keeps_intros,
      rule keepsI, erule keeps_apply [rotated], intro keeps_intros,
      rule keepsI, erule keeps_apply [rotated], intro emit_keeps) simp_all

lemma fault_events_keeps [keeps_intros]: "keeps (pipeline_inv b c D) (fault_events n time kind is)"
proof (rule keepsI)
  fix s :: "'r sensor_pipeline"
  show "pipeline_inv b c D s \<Longrightarrow> pipeline_inv b c D (snd (fault_events n time kind is s))"
    by (induction "is" arbitrary: s) (auto split: sum.splits)
qed

lemma update_fault_events_keeps [keeps_intros]: "keeps (pipeline_inv b c D) (update_fault_events n time)"
  unfolding update_fault_events_def Let_def
  by (rule keepsI, erule keeps_apply [rotated], intro keeps_intros keeps_modifyM) simp

lemma when_due_keeps: "keeps I m \<Longrightarrow> keeps I (when_due k enabled n m)"
  by (auto simp: keeps_def when_due_def)

lemma sample_all_keeps: "b \<le> n \<Longrightarrow> keeps (pipeline_inv b n D) (sample_all env n time state)"
  unfolding sample_all_def Let_def
  by (rule keepsI, erule keeps_apply [rotated],
      intro keeps_bindM when_due_keeps sample_imu_keeps sample_wheel_keeps sample_gnss_keeps sample_landmarks_keeps)

section \<open>Delivery\<close>

definition of_kind :: "measurement list \<Rightarrow> sensor \<Rightarrow> nat" where
  "of_kind ms k = length (filter (\<lambda>m. measurement_kind m = k) ms)"

lemma of_kind_append: "of_kind (xs @ ys) k = of_kind xs k + of_kind ys k"
  and of_kind_Nil [simp]: "of_kind [] k = 0"
  by (simp_all add: of_kind_def)

lemma fold_count_delivered [simp]:
  "pl_pending (fold count_delivered ms s) = pl_pending s" "pl_ordinal (fold count_delivered ms s) = pl_ordinal s"
  "pl_last_step (fold count_delivered ms s) = pl_last_step s" "pl_rngs (fold count_delivered ms s) = pl_rngs s"
  "pl_statistics (fold count_delivered ms s) k =
     (pl_statistics s k)\<lparr>ct_delivered := ct_delivered (pl_statistics s k) + of_kind ms k\<rparr>"
  by (induction ms arbitrary: s) (simp_all add: count_delivered_def count_def of_kind_def)

lemma pop_due_split:
  "pop_due due xs = (ms, left) \<Longrightarrow>
     \<exists>popped. xs = popped @ left \<and> ms = map (snd \<circ> snd) popped \<and>
       (case due of None \<Rightarrow> left = [] | Some n \<Rightarrow> (\<forall>x\<in>set popped. fst x \<le> n) \<and> (\<forall>x rest. left = x # rest \<longrightarrow> n < fst x))"
proof (induction due xs arbitrary: ms left rule: pop_due.induct)
  case (2 due d n m rest)
  show ?case
  proof (cases "case due of None \<Rightarrow> True | Some step_id \<Rightarrow> d \<le> step_id")
    case True
    then obtain ms' where ms: "ms = m # ms'" "pop_due due rest = (ms', left)"
      using 2(2) by (auto split: prod.splits)
    then obtain popped where "rest = popped @ left \<and> ms' = map (snd \<circ> snd) popped \<and>
       (case due of None \<Rightarrow> left = [] | Some n \<Rightarrow> (\<forall>x\<in>set popped. fst x \<le> n) \<and> (\<forall>x rest. left = x # rest \<longrightarrow> n < fst x))"
      using 2(1) True by blast
    then show ?thesis using ms True
      by (intro exI [of _ "(d, n, m) # popped"]) (auto split: option.splits)
  next
    case False
    then show ?thesis using 2(2) by (auto split: option.splits)
  qed
qed (simp split: option.splits)

lemma deliver_inv:
  assumes inv: "pipeline_inv b c D s" and run: "deliver due s = (Inr ms, s')"
  shows "pipeline_inv b c (\<lambda>k. D k + of_kind ms k) s'"
proof -
  obtain left where pop: "pop_due due (pl_pending s) = (ms, left)"
    and s': "s' = fold count_delivered ms (s\<lparr>pl_pending := left\<rparr>)"
    using run by (auto simp: deliver_def split: prod.splits)
  obtain popped where popped: "pl_pending s = popped @ left" "ms = map (snd \<circ> snd) popped"
    using pop_due_split [OF pop] by auto
  have "of_kind ms k = length (filter (\<lambda>x. kind_of x = k) popped)" for k
    by (simp add: popped(2) of_kind_def filter_map kind_of_def o_def)
  then show ?thesis
    using inv by (auto simp: pipeline_inv_def conserved_def pending_of_def popped(1) s' sorted_wrt_append)
qed

section \<open>Runs\<close>

text \<open>
  Everything that can happen to a pipeline: steps that return or raise, and both drains. The list
  is what the calls have delivered.
\<close>

inductive pipeline_run :: "'r sensor_env \<Rightarrow> 'r sensor_pipeline \<Rightarrow> measurement list \<Rightarrow> bool" for env where
  start: "SensorPipeline env dt parameters config landmarks faults seed = Inr s \<Longrightarrow> pipeline_run env s []"
| step: "pipeline_run env s log \<Longrightarrow> pipeline_step env n t state s = (r, s') \<Longrightarrow>
     pipeline_run env s' (log @ (case r of Inl e \<Rightarrow> [] | Inr ms \<Rightarrow> ms))"
| drain: "pipeline_run env s log \<Longrightarrow> drain_pending s = (Inr ms, s') \<Longrightarrow> pipeline_run env s' (log @ ms)"
| events: "pipeline_run env s log \<Longrightarrow> drain_events s = (Inr es, s') \<Longrightarrow> pipeline_run env s' log"

text \<open>Runs in which every step returned.\<close>

inductive returning_run :: "'r sensor_env \<Rightarrow> 'r sensor_pipeline \<Rightarrow> bool" for env where
  start: "SensorPipeline env dt parameters config landmarks faults seed = Inr s \<Longrightarrow> returning_run env s"
| step: "returning_run env s \<Longrightarrow> pipeline_step env n t state s = (Inr ms, s') \<Longrightarrow> returning_run env s'"
| drain: "returning_run env s \<Longrightarrow> drain_pending s = (Inr ms, s') \<Longrightarrow> returning_run env s'"
| events: "returning_run env s \<Longrightarrow> drain_events s = (Inr es, s') \<Longrightarrow> returning_run env s'"

lemma constructor_inv:
  assumes "SensorPipeline env dt parameters config landmarks faults seed = Inr s"
  shows "pl_last_step s = - 1" "pipeline_inv b (- 1) (\<lambda>k. 0) s"
  using assms
  by (auto simp: SensorPipeline_def bindR_eq_Inr pipeline_inv_def conserved_def pending_of_def)

text \<open>A step that gets past its checks samples with the invariant for its own step number.\<close>

lemma sampled_inv:
  assumes inv: "pipeline_inv b c D s" and early: "b \<le> n" and follows: "n = c + 1"
  shows "pipeline_inv b n D (snd (bindM (update_fault_events n t) (\<lambda>_. sample_all env n t state) (s\<lparr>pl_last_step := n\<rparr>)))"
proof (rule keeps_apply [where I = "pipeline_inv b n D"])
  show "pipeline_inv b n D (s\<lparr>pl_last_step := n\<rparr>)"
    by (rule pipeline_inv_advance [OF inv]) (simp add: follows)
qed (intro keeps_intros sample_all_keeps [OF early])

lemma bindM_assoc: "bindM (bindM m f) g = bindM m (\<lambda>v. bindM (f v) g)"
  by (rule ext) (simp add: bindM_def split: prod.splits sum.splits)

lemma pipeline_step_cases:
  obtains (refused) e where "pipeline_step env n t state s = (Inl e, s)"
  | (aborted) e s' where "n = pl_last_step s + 1" "pipeline_step env n t state s = (Inl e, s')"
      "bindM (update_fault_events n t) (\<lambda>_. sample_all env n t state) (s\<lparr>pl_last_step := n\<rparr>) = (Inl e, s')"
  | (returned) ms s1 s' where "n = pl_last_step s + 1" "pipeline_step env n t state s = (Inr ms, s')"
      "bindM (update_fault_events n t) (\<lambda>_. sample_all env n t state) (s\<lparr>pl_last_step := n\<rparr>) = (Inr (), s1)"
      "deliver (Some n) s1 = (Inr ms, s')"
proof (cases "fst (check_step n t s)")
  case (Inl e)
  then have "check_step n t s = (Inl e, s)" by (simp add: check_step_def)
  then show ?thesis by (intro refused) (simp add: pipeline_step_def bindM_def)
next
  case (Inr tm)
  then have check: "check_step n t s = (Inr t, s)" and n: "n = pl_last_step s + 1"
    by (auto simp: check_step_def bindR_eq_Inr finite_real_def split: if_splits)
  obtain r s1 where sampled:
    "bindM (update_fault_events n t) (\<lambda>_. sample_all env n t state) (s\<lparr>pl_last_step := n\<rparr>) = (r, s1)"
    by (meson surj_pair)
  have step: "pipeline_step env n t state s =
      bindM (bindM (update_fault_events n t) (\<lambda>_. sample_all env n t state)) (\<lambda>_. deliver (Some n))
        (s\<lparr>pl_last_step := n\<rparr>)"
    by (simp add: pipeline_step_def bindM_Inr [where m = "check_step n t", OF check] bindM_assoc)
  show ?thesis
  proof (cases r)
    case (Inl e)
    then show ?thesis using aborted [OF n] step sampled by (simp add: bindM_Inl)
  next
    case (Inr u)
    then obtain ms s' where "deliver (Some n) s1 = (Inr ms, s')"
      by (cases "pop_due (Some n) (pl_pending s1)") (simp add: deliver_def)
    then show ?thesis using returned [OF n] step sampled Inr by (simp add: bindM_Inr)
  qed
qed

lemma pipeline_step_inv:
  assumes inv: "pipeline_inv b (pl_last_step s) D s" and early: "b \<le> pl_last_step s + 1"
    and step: "pipeline_step env n t state s = (r, s')"
  shows "pipeline_inv b (pl_last_step s') (\<lambda>k. D k + of_kind (case r of Inl e \<Rightarrow> [] | Inr ms \<Rightarrow> ms) k) s'
    \<and> pl_last_step s \<le> pl_last_step s'"
proof -
  have last: "pl_last_step s' = c" if "pipeline_inv b c D' s'" for c D'
    using that by (simp add: pipeline_inv_def)
  show ?thesis
  proof (cases rule: pipeline_step_cases [of env n t state s])
    case (refused e)
    then show ?thesis using inv step by simp
  next
    case (aborted e s1)
    have "pipeline_inv b n D s'"
      using sampled_inv [OF inv, of n t env state] aborted early step by simp
    then show ?thesis using last aborted step by (auto simp: aborted(1))
  next
    case (returned ms s1 s2)
    have "pipeline_inv b n D s1"
      using sampled_inv [OF inv, of n t env state] returned early by simp
    from deliver_inv [OF this returned(4)] show ?thesis
      using last returned step by auto
  qed
qed

lemma drain_events_inv: "drain_events s = (Inr es, s') \<Longrightarrow> pipeline_inv b c D s' = pipeline_inv b c D s \<and> pl_last_step s' = pl_last_step s"
  by (auto simp: drain_events_def)

lemma run_inv:
  "pipeline_run env s log \<Longrightarrow> pipeline_inv 0 (pl_last_step s) (of_kind log) s \<and> - 1 \<le> pl_last_step s"
proof (induction rule: pipeline_run.induct)
  case (start dt parameters config landmarks faults seed s)
  then show ?case using constructor_inv [OF start] by (simp add: of_kind_def [abs_def])
next
  case (step s log n t state r s')
  then show ?case
    using pipeline_step_inv [of 0 s "of_kind log" env n t state r s'] by (simp add: of_kind_append [abs_def])
next
  case (drain s log ms s')
  from deliver_inv [of 0 "pl_last_step s" "of_kind log" s None ms s'] drain show ?case
    by (auto simp: of_kind_append [abs_def] drain_pending_def pipeline_inv_def)
next
  case (events s log es s')
  then show ?case using drain_events_inv by metis
qed

text \<open>
  C29: No measurement is lost or invented. However a sensor pipeline is used - any sequence of
  steps that return or raise, and of drains - its statistics account for every measurement of every
  sensor: the generated ones are the dropped ones, the ones its calls have returned, which is what
  the counter of delivered ones says, and those still pending.
\<close>

theorem measurements_conserved:
  assumes "pipeline_run env s log"
  shows "ct_generated (pl_statistics s k) =
           ct_dropped (pl_statistics s k) + ct_delivered (pl_statistics s k)
             + length (filter (\<lambda>x. measurement_kind (snd (snd x)) = k) (pl_pending s)) \<and>
         ct_delivered (pl_statistics s k) = length (filter (\<lambda>m. measurement_kind m = k) log)"
  using run_inv [OF assms]
  by (auto simp: pipeline_inv_def conserved_def pending_of_def kind_of_def of_kind_def case_prod_beta)

section \<open>On time\<close>

lemma sorted_after:
  "sorted_wrt in_order (x # rest) \<Longrightarrow> n < fst x \<Longrightarrow> y \<in> set (x # rest) \<Longrightarrow> n < fst y"
  by (cases x; cases y) (fastforce simp: in_order_def)

lemma deliver_on_time:
  assumes inv: "pipeline_inv n n D s" and run: "deliver (Some n) s = (Inr ms, s')"
  shows "\<forall>m\<in>set ms. mt_delivery_step_id (times_of m) = n \<and> mt_sample_step_id (times_of m) \<le> n"
    "sorted (map (\<lambda>m. mt_sample_step_id (times_of m)) ms)"
    "\<forall>x\<in>set (pl_pending s'). n < fst x \<and> fst x = mt_delivery_step_id (times_of (snd (snd x)))"
    "pipeline_inv (n + 1) n (\<lambda>k. D k + of_kind ms k) s'"
proof -
  obtain left where pop: "pop_due (Some n) (pl_pending s) = (ms, left)" and s': "pl_pending s' = left"
    using run by (auto simp: deliver_def split: prod.splits)
  obtain popped where popped: "pl_pending s = popped @ left" "ms = map (snd \<circ> snd) popped"
    "\<forall>x\<in>set popped. fst x \<le> n" "\<forall>x rest. left = x # rest \<longrightarrow> n < fst x"
    using pop_due_split [OF pop] by auto
  have ok: "\<forall>x\<in>set (pl_pending s). entry_ok n n (pl_ordinal s) x" and order: "sorted_wrt in_order (pl_pending s)"
    using inv by (simp_all add: pipeline_inv_def list_all_iff)
  have due: "\<forall>x\<in>set popped. fst x = n"
  proof
    fix x
    assume x: "x \<in> set popped"
    then have "entry_ok n n (pl_ordinal s) x" using ok popped(1) by simp
    then have "n \<le> fst x" unfolding entry_ok_iff by blast
    with popped(3) x show "fst x = n" by force
  qed
  show "\<forall>m\<in>set ms. mt_delivery_step_id (times_of m) = n \<and> mt_sample_step_id (times_of m) \<le> n"
    using ok due popped(1,2) by (auto simp: entry_ok_iff sampled_at_def)
  have "sorted_wrt in_order popped" using order popped(1) by (simp add: sorted_wrt_append)
  then have "sorted_wrt (\<lambda>x y. sampled_at x \<le> sampled_at y) popped"
    by (rule sorted_wrt_mono_rel [rotated]) (use due in \<open>auto simp: in_order_def\<close>)
  then show "sorted (map (\<lambda>m. mt_sample_step_id (times_of m)) ms)"
    by (simp add: popped(2) sorted_wrt_map sampled_at_def)
  have late: "\<forall>x\<in>set left. n < fst x"
  proof (cases left)
    case (Cons x rest)
    then have "sorted_wrt in_order (x # rest)" "n < fst x"
      using order popped(1,4) by (simp_all add: sorted_wrt_append)
    then show ?thesis using sorted_after Cons by blast
  qed simp
  then show "\<forall>x\<in>set (pl_pending s'). n < fst x \<and> fst x = mt_delivery_step_id (times_of (snd (snd x)))"
    using ok popped(1) s' by (auto simp: entry_ok_iff)
  show "pipeline_inv (n + 1) n (\<lambda>k. D k + of_kind ms k) s'"
    using deliver_inv [OF inv run] late s'
    by (auto simp: pipeline_inv_def list_all_iff entry_ok_iff)
qed

lemma returning_step:
  assumes inv: "pipeline_inv (pl_last_step s + 1) (pl_last_step s) D s"
    and step: "pipeline_step env n t state s = (Inr ms, s')"
  obtains s1 where "n = pl_last_step s + 1" "pipeline_inv n n D (s\<lparr>pl_last_step := n\<rparr>)"
    "bindM (update_fault_events n t) (\<lambda>_. sample_all env n t state) (s\<lparr>pl_last_step := n\<rparr>) = (Inr (), s1)"
    "pipeline_inv n n D s1" "deliver (Some n) s1 = (Inr ms, s')"
proof -
  from step obtain s1 where n: "n = pl_last_step s + 1"
    and sampled: "bindM (update_fault_events n t) (\<lambda>_. sample_all env n t state) (s\<lparr>pl_last_step := n\<rparr>) = (Inr (), s1)"
    and run: "deliver (Some n) s1 = (Inr ms, s')"
    by (cases rule: pipeline_step_cases [of env n t state s]) auto
  have "pipeline_inv n n D s1" using sampled_inv [OF inv _ n, of t env state] n sampled by simp
  moreover have "pipeline_inv n n D (s\<lparr>pl_last_step := n\<rparr>)" using pipeline_inv_advance [OF inv, of n] n by simp
  ultimately show ?thesis using run that n sampled by blast
qed

lemma returning_inv:
  "returning_run env s \<Longrightarrow> \<exists>D. pipeline_inv (pl_last_step s + 1) (pl_last_step s) D s"
proof (induction rule: returning_run.induct)
  case (start dt parameters config landmarks faults seed s)
  then show ?case using constructor_inv [OF start] by auto
next
  case (step s n t state ms s')
  then obtain D where inv: "pipeline_inv (pl_last_step s + 1) (pl_last_step s) D s" by auto
  obtain s1 where s1: "pipeline_inv n n D s1" and run: "deliver (Some n) s1 = (Inr ms, s')"
    by (rule returning_step [OF inv step(2)])
  have "pipeline_inv (n + 1) n (\<lambda>k. D k + of_kind ms k) s'" by (rule deliver_on_time(4) [OF s1 run])
  then show ?case by (auto simp: pipeline_inv_def)
next
  case (drain s ms s')
  then obtain D where "pipeline_inv (pl_last_step s + 1) (pl_last_step s) D s" by auto
  from deliver_inv [OF this, of None] drain(2) show ?case
    by (auto simp: drain_pending_def pipeline_inv_def)
next
  case (events s es s')
  then show ?case using drain_events_inv by metis
qed

text \<open>
  C30: Measurements are delivered on time and in order. In a use of the pipeline in which no step
  raised, a step returns only measurements whose delivery step is that very step, in the order in
  which they were sampled, and leaves pending only measurements that are due later.
\<close>

theorem step_delivers_what_is_due:
  assumes "returning_run env s" "pipeline_step env n t state s = (Inr ms, s')"
  shows "(\<forall>m\<in>set ms. mt_delivery_step_id (times_of m) = n \<and> mt_sample_step_id (times_of m) \<le> n)
    \<and> sorted (map (\<lambda>m. mt_sample_step_id (times_of m)) ms)
    \<and> (\<forall>x\<in>set (pl_pending s'). n < fst x \<and> fst x = mt_delivery_step_id (times_of (snd (snd x))))"
proof -
  obtain D where inv: "pipeline_inv (pl_last_step s + 1) (pl_last_step s) D s"
    using returning_inv [OF assms(1)] by auto
  obtain s1 where s1: "pipeline_inv n n D s1" and run: "deliver (Some n) s1 = (Inr ms, s')"
    by (rule returning_step [OF inv assms(2)])
  show ?thesis by (intro conjI deliver_on_time(1,2,3) [OF s1 run])
qed

end
