(* ===== verification/Sensor_Isolation.thy ===== *)
theory Sensor_Isolation
  imports Sensor_Laws
begin

text \<open>
  Isolation of the sensors: what one sensor measures, loses and delivers depends only on the faults
  that target it. Two pipelines that differ in other sensors' faults agree, step for step, on it.
\<close>

section \<open>What belongs to a sensor\<close>

definition queue_of :: "sensor \<Rightarrow> pending list \<Rightarrow> measurement list" where
  "queue_of k xs = map (snd \<circ> snd) (filter (\<lambda>x. kind_of x = k) xs)"

definition faults_on :: "sensor \<Rightarrow> fault_spec list \<Rightarrow> fault_spec list" where
  "faults_on k fs = filter (\<lambda>f. fs_target f = sensor_name k) fs"

definition view :: "sensor \<Rightarrow> 'r sensor_pipeline \<Rightarrow> _" where
  "view k s = ((pl_dt_s s, pl_parameters s, pl_config s, pl_landmarks s, pl_period_steps s, pl_last_step s),
     pl_rngs s k, faults_on k (pl_faults s), queue_of k (pl_pending s), pl_statistics s k)"

lemma view_eq:
  "view k s = view k t \<longleftrightarrow>
     pl_dt_s s = pl_dt_s t \<and> pl_parameters s = pl_parameters t \<and> pl_config s = pl_config t
     \<and> pl_landmarks s = pl_landmarks t \<and> pl_period_steps s = pl_period_steps t \<and> pl_last_step s = pl_last_step t
     \<and> pl_rngs s k = pl_rngs t k \<and> faults_on k (pl_faults s) = faults_on k (pl_faults t)
     \<and> queue_of k (pl_pending s) = queue_of k (pl_pending t) \<and> pl_statistics s k = pl_statistics t k"
  by (auto simp: view_def)

lemma fault_sum_on: "fault_sum s (sensor_name k) kind time =
    py_sum (map fs_value (filter (\<lambda>f. fs_kind f = kind \<and> fault_active_at f time) (faults_on k (pl_faults s))))"
  by (simp add: fault_sum_def faults_on_def conj_commute conj_left_commute)

lemma fault_active_on: "fault_active s (sensor_name k) kind time =
    list_ex (\<lambda>f. fs_kind f = kind \<and> fault_active_at f time) (faults_on k (pl_faults s))"
  by (auto simp: fault_active_def faults_on_def list_ex_iff)

lemma view_faults:
  assumes "view k s = view k t"
  shows "fault_sum s (sensor_name k) = fault_sum t (sensor_name k)"
    "fault_active s (sensor_name k) = fault_active t (sensor_name k)"
    "total_latency s k = total_latency t k"
  using assms by (auto simp: fun_eq_iff fault_sum_on fault_active_on total_latency_def view_eq)

section \<open>The queue of one sensor\<close>

fun insert_due :: "measurement \<Rightarrow> measurement list \<Rightarrow> measurement list" where
  "insert_due m [] = [m]"
| "insert_due m (y # ys) =
     (if mt_delivery_step_id (times_of m) < mt_delivery_step_id (times_of y) then m # y # ys else y # insert_due m ys)"

lemma insert_due_first:
  "(\<And>y. y \<in> set ys \<Longrightarrow> mt_delivery_step_id (times_of m) < mt_delivery_step_id (times_of y)) \<Longrightarrow>
     insert_due m ys = m # ys"
  by (cases ys) auto

lemma queue_of_push_other: "kind_of x \<noteq> k \<Longrightarrow> queue_of k (heap_push x ys) = queue_of k ys"
  by (induction ys) (auto simp: queue_of_def)

lemma queue_of_source: "z \<in> set (queue_of k xs) \<Longrightarrow> \<exists>x. x \<in> set xs \<and> z = snd (snd x)"
  by (simp add: queue_of_def image_iff del: split_paired_Ex) blast

lemma queue_of_push:
  assumes "sorted_wrt in_order ys" "list_all (entry_ok b c n) ys" "measurement_kind m = k"
  shows "queue_of k (heap_push (mt_delivery_step_id (times_of m), Suc n, m) ys) = insert_due m (queue_of k ys)"
  using assms(1,2)
proof (induction ys)
  case Nil
  then show ?case by (simp add: queue_of_def kind_of_def assms(3))
next
  case (Cons y ys)
  obtain d i m' where y: "y = (d, i, m')" by (cases y)
  have i: "i \<le> n" "d = mt_delivery_step_id (times_of m')" using Cons.prems y by (simp_all add: entry_ok_def)
  show ?case
  proof (cases "mt_delivery_step_id (times_of m) < d")
    case True
    have "mt_delivery_step_id (times_of m) < mt_delivery_step_id (times_of z)" if "z \<in> set (queue_of k (y # ys))" for z
    proof -
      from that obtain x where x: "x \<in> set (y # ys)" "z = snd (snd x)" using queue_of_source by blast
      have "mt_delivery_step_id (times_of m) < fst x"
        by (rule sorted_after [OF Cons.prems(1) _ x(1)]) (simp add: y True)
      moreover have "entry_ok b c n x" using Cons.prems(2) x(1) by (auto simp: list_all_iff)
      ultimately show ?thesis by (simp add: entry_ok_iff x(2))
    qed
    then have "insert_due m (queue_of k (y # ys)) = m # queue_of k (y # ys)" by (rule insert_due_first)
    then show ?thesis using True by (simp add: y) (simp add: queue_of_def kind_of_def assms(3))
  next
    case False
    with Cons i show ?thesis by (auto simp: y queue_of_def kind_of_def)
  qed
qed

lemma pop_due_sorted:
  "sorted_wrt in_order xs \<Longrightarrow> pop_due (Some n) xs =
     (map (snd \<circ> snd) (filter (\<lambda>x. fst x \<le> n) xs), filter (\<lambda>x. n < fst x) xs)"
proof (induction xs)
  case (Cons x xs)
  show ?case
  proof (cases "fst x \<le> n")
    case True
    with Cons show ?thesis by (cases x) auto
  next
    case False
    then have "n < fst y" if "y \<in> set (x # xs)" for y using sorted_after [OF Cons.prems _ that] by simp
    then have "filter (\<lambda>x. n < fst x) (x # xs) = x # xs" "filter (\<lambda>x. fst x \<le> n) (x # xs) = []"
      by (auto simp: filter_id_conv filter_empty_conv not_le)
    then show ?thesis using False by (cases x) simp
  qed
qed simp

section \<open>Methods that see one sensor only, and methods that do not touch it\<close>

definition own :: "('r sensor_pipeline \<Rightarrow> bool) \<Rightarrow> sensor \<Rightarrow> ('r sensor_pipeline, 'a) meth \<Rightarrow> bool" where
  "own I k m \<longleftrightarrow> (\<forall>s t. I s \<longrightarrow> I t \<longrightarrow> view k s = view k t \<longrightarrow>
     fst (m s) = fst (m t) \<and> view k (snd (m s)) = view k (snd (m t)))"

definition blind :: "sensor \<Rightarrow> ('r sensor_pipeline, 'a) meth \<Rightarrow> bool" where
  "blind k m \<longleftrightarrow> (\<forall>s. view k (snd (m s)) = view k s)"

named_theorems view_intros "methods that see one sensor only or do not touch it"

lemma ownD:
  "own I k m \<Longrightarrow> I s \<Longrightarrow> I t \<Longrightarrow> view k s = view k t \<Longrightarrow>
     fst (m s) = fst (m t) \<and> view k (snd (m s)) = view k (snd (m t))"
  unfolding own_def by blast

text \<open>A method that reads the object first: the values that belong to the sensor agree.\<close>

lemma ownI:
  assumes "\<And>s t. I s \<Longrightarrow> I t \<Longrightarrow> view k s = view k t \<Longrightarrow> pl_config s = pl_config t \<Longrightarrow>
    pl_parameters s = pl_parameters t \<Longrightarrow> pl_landmarks s = pl_landmarks t \<Longrightarrow>
    pl_period_steps s = pl_period_steps t \<Longrightarrow>
    fault_sum s (sensor_name k) = fault_sum t (sensor_name k) \<Longrightarrow>
    fault_active s (sensor_name k) = fault_active t (sensor_name k) \<Longrightarrow> total_latency s k = total_latency t k \<Longrightarrow>
    fst (m s) = fst (m t) \<and> view k (snd (m s)) = view k (snd (m t))"
  shows "own I k m"
  unfolding own_def
proof (intro allI impI)
  fix s t assume st: "I s" "I t" "view k s = view k t"
  show "fst (m s) = fst (m t) \<and> view k (snd (m s)) = view k (snd (m t))"
    using st(3) by (intro assms st view_faults) (auto simp: view_eq)
qed

lemma own_bindM:
  assumes keep: "keeps I m" and m: "own I k m" and f: "\<And>v. own I k (f v)"
  shows "own I k (bindM m f)"
  unfolding own_def
proof (intro allI impI)
  fix s t assume st: "I s" "I t" "view k s = view k t"
  obtain r s' r' t' where eq: "m s = (r, s')" "m t = (r', t')" by (meson surj_pair)
  have "I s'" "I t'" using keepsD [OF keep] st eq by blast+
  moreover have "r = r'" "view k s' = view k t'" using ownD [OF m st] by (simp_all add: eq)
  ultimately show "fst (bindM m f s) = fst (bindM m f t) \<and> view k (snd (bindM m f s)) = view k (snd (bindM m f t))"
    using ownD [OF f, of s' t'] by (cases r') (simp_all add: bindM_def eq)
qed

lemma own_pure [view_intros]: "own I k (returnM v)" "own I k (liftM r)"
  by (auto simp: own_def)

lemma keeps_pure: "keeps I (returnM v)" "keeps I (liftM r)"
  by (auto simp: keeps_def)

lemma blind_bindM [view_intros]: "blind k m \<Longrightarrow> (\<And>v. blind k (f v)) \<Longrightarrow> blind k (bindM m f)"
  by (simp add: blind_def bindM_def split: sum.splits prod.splits) (metis snd_conv)

lemma blind_pure [view_intros]: "blind k (returnM v)" "blind k (liftM r)"
  by (simp_all add: blind_def)

lemma blind_reader: "(\<And>s. blind k (m s)) \<Longrightarrow> blind k (\<lambda>s. m s s)"
  by (simp add: blind_def)

section \<open>The samplers\<close>

text \<open>The pipeline in the middle of step \<open>n\<close>.\<close>

definition busy :: "int \<Rightarrow> 'r sensor_pipeline \<Rightarrow> bool" where
  "busy n s \<longleftrightarrow> (\<exists>D. pipeline_inv n n D s)"

lemma keeps_busy: "(\<And>D. keeps (pipeline_inv n n D) m) \<Longrightarrow> keeps (busy n) m"
  unfolding keeps_def busy_def by blast

lemma busy_order: "busy n s \<Longrightarrow> sorted_wrt in_order (pl_pending s) \<and> list_all (entry_ok n n (pl_ordinal s)) (pl_pending s)"
  by (auto simp: busy_def pipeline_inv_def)

lemma draw_own [view_intros]: "own I k (draw_random env k)" "own I k (draw_gauss env k sigma)"
  by (auto simp: own_def draw_random_def draw_gauss_def view_eq split: prod.splits)

lemma draw_keeps_busy: "keeps (busy n) (draw_random env k)" "keeps (busy n) (draw_gauss env k sigma)"
  by (intro keeps_busy draw_keeps)+

lemma draw_blind: "j \<noteq> k \<Longrightarrow> blind k (draw_random env j)" "j \<noteq> k \<Longrightarrow> blind k (draw_gauss env j sigma)"
  by (auto simp: blind_def draw_random_def draw_gauss_def view_eq split: prod.splits)

lemma count_view:
  "j \<noteq> k \<Longrightarrow> view k (count j f s) = view k s"
  "view k s = view k t \<Longrightarrow> view k (count k f s) = view k (count k f t)"
  by (simp_all add: view_eq count_def)

lemma record_or_drop_view:
  assumes "busy n s" "busy n t" "view k s = view k t" "measurement_kind m = k"
  shows "view k (record_or_drop k m draw p time s) = view k (record_or_drop k m draw p time t)"
proof -
  let ?g = "count k (\<lambda>c. c\<lparr>ct_generated := ct_generated c + 1\<rparr>)"
  have eq: "view k (?g s) = view k (?g t)" by (rule count_view(2) [OF assms(3)])
  have drop: "fault_active (?g s) (sensor_name k) = fault_active (?g t) (sensor_name k)" by (rule view_faults(2) [OF eq])
  have push: "queue_of k (heap_push (mt_delivery_step_id (times_of m), Suc (pl_ordinal s'), m) (pl_pending s'))
      = insert_due m (queue_of k (pl_pending s'))" if "busy n s'" for s' :: "'a sensor_pipeline"
    using busy_order [OF that] queue_of_push assms(4) by blast
  show ?thesis
  proof (cases "fault_active (?g t) (sensor_name k) ''dropout'' time \<or> flt draw p")
    case True
    then show ?thesis
      unfolding record_or_drop_def Let_def drop by (simp only: if_True count_view(2) [OF eq])
  next
    case False
    have "queue_of k (pl_pending (?g s)) = queue_of k (pl_pending (?g t))" using eq by (simp add: view_eq)
    then show ?thesis
      unfolding record_or_drop_def Let_def drop using False eq push [OF assms(1)] push [OF assms(2)]
      by (simp add: view_eq count_def)
  qed
qed

lemma emit_own:
  assumes "\<And>t. times_of (build t) = t" "\<And>t. measurement_kind (build t) = k"
  shows "own (busy n) k (emit k n time latency draw p build)"
proof (rule ownI)
  fix s t :: "'a sensor_pipeline"
  assume st: "busy n s" "busy n t" "view k s = view k t"
  then have dt: "pl_dt_s s = pl_dt_s t" by (simp add: view_eq)
  define made where "made = bindR (delivery (pl_dt_s t) n latency) (\<lambda>(delivery_step, delivery_time).
             new_measurement (build \<lparr>mt_sample_step_id = n, mt_sample_time_s = time,
               mt_delivery_step_id = delivery_step, mt_delivery_time_s = delivery_time\<rparr>))"
  have kind: "measurement_kind m = k" if "made = Inr m" for m
    using that new_measurement_same assms by (force simp: made_def bindR_eq_Inr)
  show "fst (emit k n time latency draw p build s) = fst (emit k n time latency draw p build t)
      \<and> view k (snd (emit k n time latency draw p build s)) = view k (snd (emit k n time latency draw p build t))"
  proof (cases made)
    case (Inl e)
    then show ?thesis by (simp add: emit_def dt st(3) flip: made_def)
  next
    case (Inr m)
    then show ?thesis using record_or_drop_view [OF st kind] by (simp add: emit_def dt flip: made_def)
  qed
qed

lemma emit_blind:
  assumes "j \<noteq> k" "\<And>t. measurement_kind (build t) = j"
  shows "blind k (emit j n time latency draw p build)"
proof -
  have "view k (record_or_drop j m draw p time s) = view k s" if "measurement_kind m = j" for m and s :: "'a sensor_pipeline"
    using that assms(1) by (simp add: record_or_drop_def Let_def view_eq count_def queue_of_push_other kind_of_def)
  moreover have "measurement_kind m = j" if "new_measurement (build x) = Inr m" for m x
    using new_measurement_same [OF that] assms(2) by simp
  ultimately show ?thesis by (fastforce simp: blind_def emit_def bindR_eq_Inr split: sum.splits)
qed

lemmas own_rules = own_bindM own_pure draw_own keeps_pure draw_keeps_busy emit_own
lemmas blind_rules = blind_bindM blind_pure draw_blind emit_blind

lemma sample_imu_own: "own (busy n) IMU (sample_imu env n time state)"
  unfolding sample_imu_def Let_def
  by (rule ownI, simp only: , rule ownD [where I = "busy n"], intro own_rules, rule ownI, simp only: sensor_name.simps, rule ownD [where I = "busy n"], intro own_rules)
    simp_all

lemma sample_wheel_own: "own (busy n) WHEEL_SPEED (sample_wheel env n time state)"
  unfolding sample_wheel_def Let_def
  by (rule ownI, simp only: , rule ownD [where I = "busy n"], intro own_rules, rule ownI, simp only: sensor_name.simps, rule ownD [where I = "busy n"], intro own_rules)
    simp_all

lemma sample_gnss_own: "own (busy n) GNSS (sample_gnss env n time state)"
  unfolding sample_gnss_def Let_def
  by (rule ownI, simp only: , rule ownD [where I = "busy n"], intro own_rules, rule ownI, simp only: sensor_name.simps, rule ownD [where I = "busy n"], intro own_rules)
    simp_all

lemma sample_imu_blind: "IMU \<noteq> k \<Longrightarrow> blind k (sample_imu env n time state)"
  unfolding sample_imu_def Let_def
  by (rule blind_reader, intro blind_rules, assumption+, rule blind_reader, intro blind_rules, assumption) simp

lemma sample_wheel_blind: "WHEEL_SPEED \<noteq> k \<Longrightarrow> blind k (sample_wheel env n time state)"
  unfolding sample_wheel_def Let_def
  by (rule blind_reader, intro blind_rules, assumption+, rule blind_reader, intro blind_rules, assumption) simp

lemma sample_gnss_blind: "GNSS \<noteq> k \<Longrightarrow> blind k (sample_gnss env n time state)"
  unfolding sample_gnss_def Let_def
  by (rule blind_reader, intro blind_rules, assumption+, rule blind_reader, intro blind_rules, assumption) simp

lemma own_if: "own I k m \<Longrightarrow> own I k m' \<Longrightarrow> own I k (if b then m else m')"
  and keeps_if: "keeps I m \<Longrightarrow> keeps I m' \<Longrightarrow> keeps I (if b then m else m')"
  and blind_if: "blind k m \<Longrightarrow> blind k m' \<Longrightarrow> blind k (if b then m else m')"
  by simp_all

lemma count_own: "own I k (modifyM (count k f))"
  and count_blind: "j \<noteq> k \<Longrightarrow> blind k (modifyM (count j f))"
  using count_view by (auto simp: own_def blind_def)

lemma count_keeps_busy: "keeps (busy n) (modifyM (count k (\<lambda>c. c\<lparr>ct_outliers := ct_outliers c + 1\<rparr>)))"
  by (rule keeps_busy, rule keeps_modifyM) simp

lemma observe_landmark_own: "own (busy n) LANDMARK (observe_landmark env config forced state l)"
  unfolding observe_landmark_def Let_def
  by (intro own_rules own_if keeps_if count_own count_keeps_busy)

lemma observe_landmark_blind: "LANDMARK \<noteq> k \<Longrightarrow> blind k (observe_landmark env config forced state l)"
  unfolding observe_landmark_def Let_def
  by (intro blind_rules blind_if count_blind)

lemma observe_landmarks_own: "own (busy n) LANDMARK (observe_landmarks env config forced state ls)"
  by (induction ls; simp only: observe_landmarks.simps)
    (intro own_rules observe_landmark_own keeps_busy observe_landmark_keeps observe_landmarks_keeps | assumption)+

lemma observe_landmarks_blind: "LANDMARK \<noteq> k \<Longrightarrow> blind k (observe_landmarks env config forced state ls)"
  by (induction ls) (auto simp: blind_pure intro!: blind_bindM observe_landmark_blind)

lemma sample_landmarks_own: "own (busy n) LANDMARK (sample_landmarks env n time state)"
  unfolding sample_landmarks_def Let_def
  by (rule ownI, simp only: , rule ownD [where I = "busy n"], intro own_rules,
      rule ownI, simp only: sensor_name.simps, rule ownD [where I = "busy n"],
      intro own_rules observe_landmarks_own keeps_busy observe_landmarks_keeps,
      rule ownI, simp only: sensor_name.simps, rule ownD [where I = "busy n"], intro own_rules) simp_all

lemma sample_landmarks_blind: "LANDMARK \<noteq> k \<Longrightarrow> blind k (sample_landmarks env n time state)"
  unfolding sample_landmarks_def Let_def
  by (rule blind_reader, intro blind_rules, assumption, rule blind_reader,
      intro blind_rules observe_landmarks_blind, assumption, rule blind_reader, intro blind_rules, assumption) simp

section \<open>A step\<close>

text \<open>Methods after which, when both calls return, what belongs to the sensor still agrees.\<close>

definition agrees :: "('r sensor_pipeline \<Rightarrow> bool) \<Rightarrow> sensor \<Rightarrow> ('r sensor_pipeline, unit) meth \<Rightarrow> bool" where
  "agrees I k m \<longleftrightarrow> keeps I m \<and> (\<forall>s t s' t'. I s \<longrightarrow> I t \<longrightarrow> view k s = view k t \<longrightarrow>
     m s = (Inr (), s') \<longrightarrow> m t = (Inr (), t') \<longrightarrow> view k s' = view k t')"

lemma agreesD:
  "agrees I k m \<Longrightarrow> I s \<Longrightarrow> I t \<Longrightarrow> view k s = view k t \<Longrightarrow> m s = (Inr (), s') \<Longrightarrow> m t = (Inr (), t') \<Longrightarrow>
     view k s' = view k t'"
  unfolding agrees_def by blast

lemma agreesI:
  assumes "keeps I m" "\<And>s t s' t'. I s \<Longrightarrow> I t \<Longrightarrow> view k s = view k t \<Longrightarrow>
    m s = (Inr (), s') \<Longrightarrow> m t = (Inr (), t') \<Longrightarrow> view k s' = view k t'"
  shows "agrees I k m"
  unfolding agrees_def using assms by blast

lemma agrees_keeps: "agrees I k m \<Longrightarrow> keeps I m"
  unfolding agrees_def by blast

lemma blindD: "blind k m \<Longrightarrow> m s = (r, s') \<Longrightarrow> view k s' = view k s"
  unfolding blind_def by (drule spec [of _ s]) simp

lemma agrees_own: "keeps I m \<Longrightarrow> own I k m \<Longrightarrow> agrees I k m"
  by (rule agreesI, assumption, drule (3) ownD) simp

lemma agrees_blind: "keeps I m \<Longrightarrow> blind k m \<Longrightarrow> agrees I k m"
  by (rule agreesI, assumption) (simp only: blindD)

lemma agrees_bindM:
  assumes "agrees I k m" "agrees I k m'"
  shows "agrees I k (bindM m (\<lambda>_. m'))"
proof (rule agreesI)
  show "keeps I (bindM m (\<lambda>_. m'))" using assms by (intro keeps_bindM agrees_keeps)
next
  fix s t s' t' assume st: "I s" "I t" "view k s = view k t"
    and run: "bindM m (\<lambda>_. m') s = (Inr (), s')" "bindM m (\<lambda>_. m') t = (Inr (), t')"
  obtain s1 t1 where mid: "m s = (Inr (), s1)" "m' s1 = (Inr (), s')" "m t = (Inr (), t1)" "m' t1 = (Inr (), t')"
    using run by (auto simp: bindM_eq_Inr)
  note keep = keepsD [OF agrees_keeps [OF assms(1)]]
  have "view k s1 = view k t1" using agreesD [OF assms(1) st mid(1,3)] .
  then show "view k s' = view k t'"
    using agreesD [OF assms(2) keep [OF st(1) mid(1)] keep [OF st(2) mid(3)] _ mid(2,4)] by blast
qed

lemma agrees_when_due:
  assumes m: "agrees I k m"
  shows "agrees I k (when_due j enabled n m)"
proof (rule agreesI)
  show "keeps I (when_due j enabled n m)" by (rule when_due_keeps [OF agrees_keeps [OF m]])
next
  fix s t s' t' assume st: "I s" "I t" "view k s = view k t"
    and run: "when_due j enabled n m s = (Inr (), s')" "when_due j enabled n m t = (Inr (), t')"
  have period: "pl_period_steps s = pl_period_steps t" using st(3) by (simp add: view_eq)
  show "view k s' = view k t'"
  proof (cases "enabled \<and> n mod pl_period_steps t j = 0")
    case True
    then have "m s = (Inr (), s')" "m t = (Inr (), t')" using run period by (simp_all add: when_due_def)
    then show ?thesis by (rule agreesD [OF m st])
  next
    case False
    then have "s' = s" "t' = t" using run period by (auto simp: when_due_def)
    then show ?thesis using st(3) by blast
  qed
qed

lemma samplers_agree:
  "agrees (busy n) k (sample_imu env n time state)" "agrees (busy n) k (sample_wheel env n time state)"
  "agrees (busy n) k (sample_gnss env n time state)" "agrees (busy n) k (sample_landmarks env n time state)"
proof -
  have keep: "keeps (busy n) (sample_imu env n time state)" "keeps (busy n) (sample_wheel env n time state)"
    "keeps (busy n) (sample_gnss env n time state)" "keeps (busy n) (sample_landmarks env n time state)"
    by (intro keeps_busy sample_imu_keeps sample_wheel_keeps sample_gnss_keeps sample_landmarks_keeps order_refl)+
  show "agrees (busy n) k (sample_imu env n time state)" "agrees (busy n) k (sample_wheel env n time state)"
    "agrees (busy n) k (sample_gnss env n time state)" "agrees (busy n) k (sample_landmarks env n time state)"
    using agrees_own [OF keep(1) sample_imu_own] agrees_blind [OF keep(1) sample_imu_blind]
      agrees_own [OF keep(2) sample_wheel_own] agrees_blind [OF keep(2) sample_wheel_blind]
      agrees_own [OF keep(3) sample_gnss_own] agrees_blind [OF keep(3) sample_gnss_blind]
      agrees_own [OF keep(4) sample_landmarks_own] agrees_blind [OF keep(4) sample_landmarks_blind]
    by (cases k; blast)+
qed

lemma sample_all_agrees: "agrees (busy n) k (sample_all env n time state)"
proof -
  have keep: "keeps (busy n) (sample_all env n time state)" by (intro keeps_busy sample_all_keeps order_refl)
  define M where "M config =
      bindM (when_due IMU (ic_enabled (su_imu config)) n (sample_imu env n time state)) (\<lambda>_.
      bindM (when_due WHEEL_SPEED (wc_enabled (su_wheel_speed config)) n (sample_wheel env n time state)) (\<lambda>_.
      bindM (when_due GNSS (gc_enabled (su_gnss config)) n (sample_gnss env n time state)) (\<lambda>_.
        when_due LANDMARK (lc_enabled (su_landmark config)) n (sample_landmarks env n time state))))" for config :: sensor_suite_config
  have M: "agrees (busy n) k (M config)" for config
    unfolding M_def by (intro agrees_bindM agrees_when_due samplers_agree)
  have eq: "sample_all env n time state s = M (pl_config s) s" for s by (simp add: sample_all_def M_def Let_def)
  show ?thesis
  proof (rule agreesI [OF keep])
    fix s t s' t' assume st: "busy n s" "busy n t" "view k s = view k t"
      and run: "sample_all env n time state s = (Inr (), s')" "sample_all env n time state t = (Inr (), t')"
    have "pl_config s = pl_config t" using st(3) by (simp add: view_eq)
    then have "M (pl_config t) s = (Inr (), s')" "M (pl_config t) t = (Inr (), t')" using run eq by simp_all
    then show "view k s' = view k t'" by (rule agreesD [OF M st])
  qed
qed

lemma fault_events_view: "view k (snd (fault_events n time kind is s)) = view k s"
proof (induction "is" arbitrary: s)
  case (Cons i "is")
  then show ?case by (auto split: sum.splits) (simp add: view_def)
qed simp

lemma update_fault_events_agrees: "agrees (busy n) k (update_fault_events n time)"
proof (rule agrees_blind)
  show "keeps (busy n) (update_fault_events n time)" by (intro keeps_busy update_fault_events_keeps)
  have "blind k (fault_events n time kind is)" for kind "is"
    by (simp add: blind_def fault_events_view)
  moreover have "blind k (modifyM (\<lambda>s. s\<lparr>pl_active_faults := a\<rparr>))" for a
    by (simp add: blind_def view_def)
  ultimately have "blind k (bindM (fault_events n time ''fault_started'' started)
      (\<lambda>_. bindM (fault_events n time ''fault_ended'' ended) (\<lambda>_. modifyM (\<lambda>s. s\<lparr>pl_active_faults := a\<rparr>))))"
    for started ended a
    by (intro blind_bindM)
  then show "blind k (update_fault_events n time)"
    unfolding blind_def update_fault_events_def Let_def by blast
qed

lemma deliver_view:
  assumes "busy n s" "busy n t" "view k s = view k t"
    "deliver (Some n) s = (Inr ms, s')" "deliver (Some n) t = (Inr ms', t')"
  shows "filter (\<lambda>m. measurement_kind m = k) ms = filter (\<lambda>m. measurement_kind m = k) ms' \<and> view k s' = view k t'"
proof -
  have pops: "filter (\<lambda>m. measurement_kind m = k) ms = filter (\<lambda>m. mt_delivery_step_id (times_of m) \<le> n) (queue_of k (pl_pending s))
      \<and> queue_of k (pl_pending s') = filter (\<lambda>m. n < mt_delivery_step_id (times_of m)) (queue_of k (pl_pending s))
      \<and> s' = fold count_delivered ms (s\<lparr>pl_pending := pl_pending s'\<rparr>)"
    if "busy n s" "deliver (Some n) s = (Inr ms, s')" for s s' :: "'a sensor_pipeline" and ms
  proof -
    note order = busy_order [OF that(1)]
    have due: "fst x = mt_delivery_step_id (times_of (snd (snd x)))" if "x \<in> set (pl_pending s)" for x
      using order that by (simp add: list_all_iff entry_ok_iff)
    have ms: "ms = map (snd \<circ> snd) (filter (\<lambda>x. fst x \<le> n) (pl_pending s))"
      "pl_pending s' = filter (\<lambda>x. n < fst x) (pl_pending s)"
      "s' = fold count_delivered ms (s\<lparr>pl_pending := pl_pending s'\<rparr>)"
      using that(2) pop_due_sorted [of "pl_pending s" n] order by (auto simp: deliver_def)
    have "filter (\<lambda>m. measurement_kind m = k) ms = filter (\<lambda>m. mt_delivery_step_id (times_of m) \<le> n) (queue_of k (pl_pending s))"
      unfolding ms(1) queue_of_def filter_map filter_filter
      by (rule arg_cong [where f = "map _"], rule filter_cong) (auto simp: due kind_of_def)
    moreover have "queue_of k (pl_pending s') = filter (\<lambda>m. n < mt_delivery_step_id (times_of m)) (queue_of k (pl_pending s))"
      unfolding ms(2) queue_of_def filter_map filter_filter
      by (rule arg_cong [where f = "map _"], rule filter_cong) (auto simp: due kind_of_def)
    ultimately show ?thesis using ms(3) by blast
  qed
  have queue: "queue_of k (pl_pending s) = queue_of k (pl_pending t)" using assms(3) by (simp add: view_eq)
  from pops [OF assms(1,4)] pops [OF assms(2,5)] queue
  have same: "filter (\<lambda>m. measurement_kind m = k) ms = filter (\<lambda>m. measurement_kind m = k) ms'"
    "queue_of k (pl_pending s') = queue_of k (pl_pending t')" by simp_all
  have fields: "view k (fold count_delivered xs u) =
      (case view k u of (a, r, f, q, st) \<Rightarrow> (a, r, f, q, st\<lparr>ct_delivered := ct_delivered st + of_kind xs k\<rparr>))"
    for xs and u :: "'a sensor_pipeline"
    by (induction xs arbitrary: u) (auto simp: view_def count_delivered_def count_def of_kind_def)
  have "view k (s\<lparr>pl_pending := pl_pending s'\<rparr>) = view k (t\<lparr>pl_pending := pl_pending t'\<rparr>)"
    using assms(3) same(2) by (simp add: view_eq)
  moreover have "of_kind ms k = of_kind ms' k" using same(1) by (simp add: of_kind_def)
  ultimately have "view k (fold count_delivered ms (s\<lparr>pl_pending := pl_pending s'\<rparr>))
      = view k (fold count_delivered ms' (t\<lparr>pl_pending := pl_pending t'\<rparr>))"
    by (simp only: fields)
  moreover have "s' = fold count_delivered ms (s\<lparr>pl_pending := pl_pending s'\<rparr>)"
    "t' = fold count_delivered ms' (t\<lparr>pl_pending := pl_pending t'\<rparr>)"
    using pops [OF assms(1,4)] pops [OF assms(2,5)] by blast+
  ultimately show ?thesis using same(1) by argo
qed

section \<open>Runs\<close>

fun pipeline_steps ::
  "'r sensor_env \<Rightarrow> (int \<times> f64 \<times> vehicle_state) list \<Rightarrow> ('r sensor_pipeline, measurement list list) meth" where
  "pipeline_steps env [] = returnM []"
| "pipeline_steps env ((n, t, state) # rest) =
     bindM (pipeline_step env n t state) (\<lambda>ms. bindM (pipeline_steps env rest) (\<lambda>mss. returnM (ms # mss)))"

definition idle :: "'r sensor_pipeline \<Rightarrow> bool" where
  "idle s \<longleftrightarrow> (\<exists>D. pipeline_inv (pl_last_step s + 1) (pl_last_step s) D s)"

lemma pipeline_step_isolated:
  assumes idle: "idle s" "idle t" and eq: "view k s = view k t"
    and step: "pipeline_step env n time state s = (Inr ms, s')" "pipeline_step env n time state t = (Inr ms', t')"
  shows "filter (\<lambda>m. measurement_kind m = k) ms = filter (\<lambda>m. measurement_kind m = k) ms'
    \<and> view k s' = view k t' \<and> idle s' \<and> idle t'"
proof -
  obtain D D' where inv: "pipeline_inv (pl_last_step s + 1) (pl_last_step s) D s"
    "pipeline_inv (pl_last_step t + 1) (pl_last_step t) D' t"
    using idle by (auto simp: idle_def)
  obtain s1 where s1: "pipeline_inv n n D (s\<lparr>pl_last_step := n\<rparr>)"
    "bindM (update_fault_events n time) (\<lambda>_. sample_all env n time state) (s\<lparr>pl_last_step := n\<rparr>) = (Inr (), s1)"
    "pipeline_inv n n D s1" "deliver (Some n) s1 = (Inr ms, s')"
    by (rule returning_step [OF inv(1) step(1)])
  obtain t1 where t1: "pipeline_inv n n D' (t\<lparr>pl_last_step := n\<rparr>)"
    "bindM (update_fault_events n time) (\<lambda>_. sample_all env n time state) (t\<lparr>pl_last_step := n\<rparr>) = (Inr (), t1)"
    "pipeline_inv n n D' t1" "deliver (Some n) t1 = (Inr ms', t')"
    by (rule returning_step [OF inv(2) step(2)])
  have busy: "busy n (s\<lparr>pl_last_step := n\<rparr>)" "busy n (t\<lparr>pl_last_step := n\<rparr>)" "busy n s1" "busy n t1"
    using s1 t1 by (auto simp: busy_def)
  have "view k (s\<lparr>pl_last_step := n\<rparr>) = view k (t\<lparr>pl_last_step := n\<rparr>)" using eq by (simp add: view_eq)
  from agreesD [OF agrees_bindM [OF update_fault_events_agrees sample_all_agrees] busy(1,2) this s1(2) t1(2)]
  have "view k s1 = view k t1" .
  from deliver_view [OF busy(3,4) this s1(4) t1(4)]
  moreover have "idle s'" "idle t'"
    using deliver_on_time(4) [OF s1(3,4)] deliver_on_time(4) [OF t1(3,4)]
    by (auto simp: idle_def pipeline_inv_def)
  ultimately show ?thesis by blast
qed

lemma pipeline_steps_isolated:
  "idle s \<Longrightarrow> idle t \<Longrightarrow> view k s = view k t \<Longrightarrow> pipeline_steps env inputs s = (Inr mss, s') \<Longrightarrow>
     pipeline_steps env inputs t = (Inr mss', t') \<Longrightarrow>
     map (filter (\<lambda>m. measurement_kind m = k)) mss = map (filter (\<lambda>m. measurement_kind m = k)) mss'
       \<and> view k s' = view k t'"
proof (induction inputs arbitrary: s t mss mss')
  case (Cons input rest)
  obtain n time state where input: "input = (n, time, state)" by (cases input)
  from Cons.prems(4) obtain ms s1 mss1 where s1: "pipeline_step env n time state s = (Inr ms, s1)"
    "pipeline_steps env rest s1 = (Inr mss1, s')" "mss = ms # mss1"
    by (auto simp: input bindM_eq_Inr)
  from Cons.prems(5) obtain ms' t1 mss1' where t1: "pipeline_step env n time state t = (Inr ms', t1)"
    "pipeline_steps env rest t1 = (Inr mss1', t')" "mss' = ms' # mss1'"
    by (auto simp: input bindM_eq_Inr)
  note step = pipeline_step_isolated [OF Cons.prems(1,2,3) s1(1) t1(1)]
  then have "map (filter (\<lambda>m. measurement_kind m = k)) mss1 = map (filter (\<lambda>m. measurement_kind m = k)) mss1'
       \<and> view k s' = view k t'"
    using Cons.IH [OF _ _ _ s1(2) t1(2)] by blast
  with step show ?case by (simp only: s1(3) t1(3) list.map)
qed simp

text \<open>
  C28: A fault on one sensor does not disturb another. Build two pipelines from the same
  configuration and seed, with fault lists that target one sensor in the same way and may differ in
  everything else, and give both the same steps. As long as no step raises, every step delivers the
  same measurements of that sensor, with the same noise, drops and delays, and its statistics agree.
\<close>

theorem faults_are_isolated:
  assumes "SensorPipeline env dt parameters config landmarks faults seed = Inr s"
    "SensorPipeline env dt parameters config landmarks faults' seed = Inr s'"
    "filter (\<lambda>f. fs_target f = sensor_name k) faults = filter (\<lambda>f. fs_target f = sensor_name k) faults'"
    "pipeline_steps env inputs s = (Inr mss, t)" "pipeline_steps env inputs s' = (Inr mss', t')"
  shows "map (filter (\<lambda>m. measurement_kind m = k)) mss = map (filter (\<lambda>m. measurement_kind m = k)) mss'
    \<and> pl_statistics t k = pl_statistics t' k"
proof -
  have "idle s" "idle s'"
    using constructor_inv [OF assms(1)] constructor_inv [OF assms(2)] by (auto simp: idle_def)
  moreover have "view k s = view k s'"
    using assms(1,2,3) by (auto simp: SensorPipeline_def bindR_eq_Inr view_eq faults_on_def)
  ultimately have "map (filter (\<lambda>m. measurement_kind m = k)) mss = map (filter (\<lambda>m. measurement_kind m = k)) mss'
       \<and> view k t = view k t'"
    by (rule pipeline_steps_isolated [OF _ _ _ assms(4,5)])
  then show ?thesis by (simp add: view_eq)
qed

end
