(* ===== verification/Sensor_Example.thy ===== *)
theory Sensor_Example
  imports Sensor_Isolation
begin

text \<open>
  A concrete pipeline: wheel speed sampled every second without noise or latency, the other sensors
  disabled, with and without a fault on another sensor. It instantiates the laws of the pipeline.
\<close>

definition example_env :: "unit sensor_env" where
  "example_env = \<lparr>se_lib = rest_lib,
     se_rng = \<lparr>rg_seed = (\<lambda>_. ()), rg_random = (\<lambda>r. (0, r)), rg_gauss = (\<lambda>mu sigma r. (0, r))\<rparr>,
     se_sha256 = (\<lambda>_. replicate 32 0)\<rparr>"

abbreviation one_hz :: f64 where "one_hz \<equiv> 0x3FF0000000000000"

definition example_config :: sensor_suite_config where
  "example_config = \<lparr>
     su_imu = \<lparr>ic_enabled = False, ic_rate_hz = one_hz, ic_acceleration_noise_std_mps2 = 0,
       ic_yaw_rate_noise_std_rad_s = 0, ic_acceleration_bias_mps2 = 0, ic_yaw_rate_bias_rad_s = 0,
       ic_latency_s = 0, ic_dropout_probability = 0\<rparr>,
     su_wheel_speed = \<lparr>wc_enabled = True, wc_rate_hz = one_hz, wc_noise_std_mps = 0, wc_scale_error = 0,
       wc_latency_s = 0, wc_dropout_probability = 0\<rparr>,
     su_gnss = \<lparr>gc_enabled = False, gc_rate_hz = one_hz, gc_position_noise_std_m = 0, gc_latency_s = 0,
       gc_dropout_probability = 0\<rparr>,
     su_landmark = \<lparr>lc_enabled = False, lc_rate_hz = one_hz, lc_range_noise_std_m = 0,
       lc_bearing_noise_std_rad = 0, lc_max_range_m = one_hz, lc_field_of_view_rad = one_hz, lc_latency_s = 0,
       lc_dropout_probability = 0, lc_outlier_probability = 0, lc_outlier_range_std_m = 0,
       lc_outlier_bearing_std_rad = 0\<rparr>\<rparr>"

lemma one_facts:
  "isfinite one_hz" "f64_mag one_hz = 0x3FF0000000000000" "f64_neg one_hz = False"
  "f64_units_mag 0x3FF0000000000000 = 2 ^ 1074"
proof -
  show "isfinite one_hz" "f64_mag one_hz = 0x3FF0000000000000" "f64_neg one_hz = False"
    by (simp_all add: isfinite_def f64_mag_def f64_inf_mag_def f64_neg_def)
  have "f64_units_mag 0x3FF0000000000000 = 4503599627370496 * 2 ^ 1022"
    by (rule f64_units_mag_normal [where e = 1023 and f = 0]; simp)
  also have "(4503599627370496 :: nat) = 2 ^ 52" by simp
  finally show "f64_units_mag 0x3FF0000000000000 = 2 ^ 1074" by (simp only: power_add [symmetric]) simp
qed

lemma one_value: "f64_of False 0x3FF0000000000000 = one_hz"
  by (simp add: f64_of_def)

lemma bit_len_power: "bit_len (2 ^ k) = Suc k"
  using bit_len_unique [of k "2 ^ k"] by simp

lemma one_times_one: "fmul one_hz one_hz = one_hz"
proof -
  have "fmul one_hz one_hz = f64_of (f64_neg one_hz \<noteq> f64_neg one_hz)
      (min f64_inf_mag ((52 + 1022 + 1022 - 1074) * 2 ^ 52 + round_half_even (2 ^ 52 * 2 ^ 52) 52))"
    by (rule fmul_normal [where a = "2 ^ 52" and b = "2 ^ 52"])
      (simp_all only: one_facts bit_len_power power_add [symmetric], simp_all)
  then show ?thesis by (simp add: round_half_even_def f64_inf_mag_def f64_of_def)
qed

lemma one_over_one: "fdiv one_hz one_hz = one_hz"
proof -
  define P where "P = f64_units_mag 0x3FF0000000000000"
  have P: "P \<noteq> 0" by (simp add: P_def one_facts(4))
  have "fdiv one_hz one_hz = f64_round False (2 * (P * 2 ^ 1075 div P) + (if P * 2 ^ 1075 mod P = 0 then 0 else 1)) 2"
    using isfinite_not_nan [OF one_facts(1)] by (simp add: fdiv_def Let_def one_facts(1-3) P_def del: power_numeral)
  also have "P * 2 ^ 1075 div P = 2 ^ 1075" using P by (rule nonzero_mult_div_cancel_left)
  also have "P * 2 ^ 1075 mod P = 0" by (rule mod_mult_self1_is_0)
  also have "2 * 2 ^ 1075 + (if (0 :: nat) = 0 then 0 else 1) = (2 ^ 52 * 2 ^ 1024 :: nat)" by simp
  finally have "fdiv one_hz one_hz = f64_round False (2 ^ 52 * 2 ^ 1024) 2" .
  moreover have "f64_round_mag (2 ^ 52 * 2 ^ 1024) 2 = min f64_inf_mag ((0 + 1024 - 2) * 2 ^ 52 + round_half_even (2 ^ 52) 0)"
    by (rule f64_round_mag_scale) (simp_all only: bit_len_power, simp_all)
  moreover have "min f64_inf_mag ((0 + 1024 - 2) * 2 ^ 52 + round_half_even (2 ^ 52) 0) = 0x3FF0000000000000"
    by (simp add: round_half_even_def f64_inf_mag_def)
  ultimately show ?thesis by (simp only: f64_round_def one_value)
qed

lemma one_rounds: "py_round one_hz = Inr 1"
proof -
  have "round_half_even (2 ^ 1074) 1074 = 1" by (simp add: round_half_even_def Let_def)
  then show ?thesis
    using isfinite_not_nan [OF one_facts(1)] by (simp add: py_round_def one_facts f64_sign_def)
qed

lemma one_period: "sample_period one_hz one_hz = Inr 1"
proof -
  have "float_of_int 1 = Inr one_hz"
    using bit_len_unique [of 0 1] by (simp add: float_of_int_def f64_of_def f64_inf_mag_def)
  moreover have "py_div one_hz one_hz = Inr one_hz" by (simp add: py_div_def one_facts one_over_one)
  moreover have "feq one_hz one_hz" using isfinite_not_nan [OF one_facts(1)] by (simp add: feq_def)
  ultimately show ?thesis by (simp add: sample_period_def one_times_one one_rounds isclose_abs_def)
qed

section \<open>Its first step\<close>

lemma zero_facts: "isfinite (0 :: f64)" "f64_mag 0 = 0" "\<not> isnan (0 :: f64)" "f64_key 0 = 0" "f64_units 0 = 0"
  by (simp_all add: isfinite_def f64_mag_def f64_inf_mag_def isnan_def f64_key_def f64_units_def f64_neg_def)

text \<open>Any zero; the sums and products below are zeros of either sign.\<close>

lemma zero_any:
  assumes "f64_mag z = 0"
  shows "isfinite z" "\<not> isnan z" "f64_key z = 0" "f64_units z = 0"
  using assms by (simp_all add: isfinite_def f64_inf_mag_def isnan_def f64_key_def f64_units_def)

lemma zero_added: "f64_mag x = 0 \<Longrightarrow> f64_mag y = 0 \<Longrightarrow> f64_mag (fadd x y) = 0"
  using fadd_key [of x y] zero_any [of x] zero_any [of y] by (simp add: round_key_def f64_key_def split: if_splits)

lemma no_delay:
  assumes "f64_mag z = 0"
  obtains t where "delivery one_hz 0 z = Inr (0, t)" "f64_mag t = 0"
proof -
  define q where "q = fsub (fdiv z one_hz) state_tolerance"
  have quotient: "f64_mag (fdiv z one_hz) = 0" by (rule zero_products(3) [OF assms one_facts(1)])
  have tiny: "f64_units state_tolerance < 2 ^ 1074"
    by (simp add: state_tolerance_def f64_units_def f64_units_mag_def f64_mag_def f64_neg_def Let_def)
  have key: "f64_key q = f64_key (fneg state_tolerance)"
    using fadd_key [of "fdiv z one_hz" "fneg state_tolerance"] zero_any [OF quotient] tolerance_facts
      round_key_units [of "fneg state_tolerance"]
    by (simp add: q_def fsub_def)
  then have finite: "isfinite q" using tolerance_facts(1) by (simp flip: isfinite_key)
  have "f64_units q = - f64_units state_tolerance"
    using f64_units_mono [of q "fneg state_tolerance"] f64_units_mono [of "fneg state_tolerance" q] key by simp
  then have "py_ceil q = Inr 0"
    using tiny tolerance_facts(2) finite isfinite_not_nan by (simp add: py_ceil_def)
  moreover have "py_div z one_hz = Inr (fdiv z one_hz)" by (simp add: py_div_def one_facts)
  moreover have "float_of_int 0 = Inr 0" by (simp add: float_of_int_def f64_of_def f64_inf_mag_def)
  ultimately have "delivery one_hz 0 z = Inr (0, fmul 0 one_hz)" by (simp add: delivery_def q_def Let_def)
  then show ?thesis using zero_products(2) [of 0 one_hz] zero_facts one_facts(1) that by blast
qed

definition other_fault :: fault_spec where
  "other_fault = \<lparr>fs_target = ''imu'', fs_kind = ''dropout'', fs_start_s = 0, fs_end_s = one_hz, fs_value = 0\<rparr>"

lemma example_pipeline:
  obtains s where "SensorPipeline example_env one_hz default_parameters example_config [] faults 7 = Inr s"
    "pl_dt_s s = one_hz" "pl_config s = example_config" "pl_period_steps s WHEEL_SPEED = 1" "pl_faults s = faults"
    "pl_pending s = []" "pl_ordinal s = 0" "pl_last_step s = - 1" "pl_active_faults s = []"
proof -
  have "\<not> fle one_hz 0" by (simp add: fle_def f64_key_def one_facts zero_facts)
  then show ?thesis
    using that by (simp add: SensorPipeline_def finite_real_def one_facts example_config_def one_period guardR_def)
qed

lemma example_fault_events:
  "kind \<noteq> [] \<Longrightarrow> (\<forall>i\<in>set is. fs_target (pl_faults s ! i) \<noteq> []) \<Longrightarrow>
     \<exists>evs. fault_events 0 0 kind is s = (Inr (), s\<lparr>pl_events := evs\<rparr>)"
proof (induction "is" arbitrary: s)
  case Nil
  show ?case by (rule exI [of _ "pl_events s"]) simp
next
  case (Cons i "is")
  then have "SensorEvent 0 0 kind (fs_target (pl_faults s ! i)) (fs_kind (pl_faults s ! i)) =
      Inr \<lparr>sv_step_id = 0, sv_time_s = 0, sv_event_type = kind, sv_sensor = fs_target (pl_faults s ! i),
           sv_detail = fs_kind (pl_faults s ! i)\<rparr>" (is "_ = Inr ?ev")
    by (simp add: SensorEvent_def guardR_def finite_real_def zero_facts flt_def)
  moreover obtain evs where "fault_events 0 0 kind is (s\<lparr>pl_events := pl_events s @ [?ev]\<rparr>) =
      (Inr (), s\<lparr>pl_events := evs\<rparr>)"
    using Cons.IH [of "s\<lparr>pl_events := pl_events s @ [?ev]\<rparr>"] Cons.prems by auto
  ultimately show ?case by auto
qed

lemma example_value: "fmax 0 (fadd (fmul 0 (fadd one_hz (fadd 0 0))) 0) = 0"
proof -
  have z: "f64_mag (fadd 0 0) = 0" by (rule zero_added) (simp_all add: zero_facts)
  then have "f64_key (fadd one_hz (fadd 0 0)) = f64_key one_hz"
    using fadd_key [OF one_facts(1) zero_any(1) [OF z]] zero_any [OF z] round_key_units [OF one_facts(1)] by simp
  then have "isfinite (fadd one_hz (fadd 0 0))" using one_facts(1) by (simp flip: isfinite_key)
  then have "f64_mag (fmul 0 (fadd one_hz (fadd 0 0))) = 0" using zero_products(2) [of 0] zero_facts by blast
  then have "f64_mag (fadd (fmul 0 (fadd one_hz (fadd 0 0))) 0) = 0" by (rule zero_added) (simp add: zero_facts)
  then show ?thesis using zero_any zero_facts by (simp add: fmax_def flt_def)
qed

text \<open>Whatever the other sensors' faults, the first step measures the speed and delivers it at once.\<close>

lemma example_step:
  assumes "SensorPipeline example_env one_hz default_parameters example_config [] faults 7 = Inr s"
    "\<forall>f\<in>set faults. fs_target f \<noteq> ''wheel_speed'' \<and> fs_target f \<noteq> []"
  obtains m s' where "pipeline_step example_env 0 0 initial_vehicle s = (Inr [m], s')" "measurement_kind m = WHEEL_SPEED"
proof -
  obtain s0 where "s0 = s" and s: "pl_dt_s s = one_hz" "pl_config s = example_config" "pl_period_steps s WHEEL_SPEED = 1"
    "pl_faults s = faults" "pl_pending s = []" "pl_ordinal s = 0" "pl_last_step s = - 1" "pl_active_faults s = []"
    using example_pipeline [of faults] assms(1) by (metis sum.inject(2))
  have none: "faults_on WHEEL_SPEED faults = []" using assms(2) by (simp add: faults_on_def filter_empty_conv)
  have "isclose_abs 0 (fmul 0 one_hz) state_tolerance"
    using zero_products(2) [of 0 one_hz] one_facts(1) zero_facts zero_any by (simp add: isclose_abs_def feq_def)
  then have check: "check_step 0 0 s = (Inr 0, s)"
    by (simp add: check_step_def s finite_real_def zero_facts guardR_def float_of_int_def f64_inf_mag_def f64_of_def)
  obtain evs a where events: "update_fault_events 0 0 (s\<lparr>pl_last_step := 0\<rparr>) =
      (Inr (), s\<lparr>pl_last_step := 0, pl_events := evs, pl_active_faults := a\<rparr>)"
  proof -
    have "\<forall>i\<in>set (active_indices faults 0). fs_target (faults ! i) \<noteq> []"
      using assms(2) by (auto simp: active_indices_def)
    then obtain evs where "fault_events 0 0 ''fault_started'' (active_indices faults 0) (s\<lparr>pl_last_step := 0\<rparr>) =
        (Inr (), s\<lparr>pl_last_step := 0, pl_events := evs\<rparr>)"
      using example_fault_events [of "''fault_started''" "active_indices faults 0" "s\<lparr>pl_last_step := 0\<rparr>"] s(4) by auto
    then show ?thesis using that s by (simp add: update_fault_events_def bindM_def)
  qed
  let ?s1 = "s\<lparr>pl_last_step := 0, pl_events := evs, pl_active_faults := a\<rparr>"
  have quiet: "fault_sum u ''wheel_speed'' kind 0 = 0" "\<not> fault_active u ''wheel_speed'' kind 0"
    if "pl_faults u = faults" for u :: "unit sensor_pipeline" and kind
    using fault_sum_on [of u WHEEL_SPEED kind 0] fault_active_on [of u WHEEL_SPEED kind 0] none that
    by (simp_all add: py_sum_def)
  have latency: "f64_mag (fadd 0 0) = 0" by (rule zero_added) (simp_all add: zero_facts)
  obtain t where t: "delivery one_hz 0 (fadd 0 0) = Inr (0, t)" "f64_mag t = 0" by (rule no_delay [OF latency])
  let ?m = "WheelSpeedMeasurement \<lparr>mt_sample_step_id = 0, mt_sample_time_s = 0, mt_delivery_step_id = 0,
    mt_delivery_time_s = t\<rparr> 0"
  have made: "new_measurement ?m = Inr ?m"
    using zero_any [OF t(2)] zero_facts
    by (simp add: validate_measurement_common_def guardR_def finite_real_def flt_def)
  define s2 where "s2 = record_or_drop WHEEL_SPEED ?m 0 0 0 (?s1\<lparr>pl_rngs := (pl_rngs s)(WHEEL_SPEED := ())\<rparr>)"
  have sampled: "sample_wheel example_env 0 0 initial_vehicle ?s1 = (Inr (), s2)"
    by (simp add: sample_wheel_def draw_random_def draw_gauss_def bindM_def example_env_def s example_config_def
        initial_vehicle_def quiet total_latency_def emit_def t(1) made example_value s2_def Let_def
        del: new_measurement.simps)
  have pending: "pl_pending s2 = [(0, 1, ?m)]" "pl_config s2 = example_config"
    by (simp_all add: s2_def record_or_drop_def quiet s flt_def zero_facts count_def Let_def)
  have "sample_all example_env 0 0 initial_vehicle ?s1 = (Inr (), s2)"
    by (simp add: sample_all_def when_due_def bindM_def sampled s example_config_def)
  then have "pipeline_step example_env 0 0 initial_vehicle s = deliver (Some 0) s2"
    using check events by (simp add: pipeline_step_def bindM_def)
  also have "deliver (Some 0) s2 = (Inr [?m], fold count_delivered [?m] (s2\<lparr>pl_pending := []\<rparr>))"
    by (simp add: deliver_def pending)
  finally show ?thesis using that by simp
qed

section \<open>The laws on it\<close>

lemma example_first:
  assumes "faults \<in> {[], [other_fault]}"
  obtains s m s' where "SensorPipeline example_env one_hz default_parameters example_config [] faults 7 = Inr s"
    "pipeline_step example_env 0 0 initial_vehicle s = (Inr [m], s')" "measurement_kind m = WHEEL_SPEED"
proof -
  obtain s where s: "SensorPipeline example_env one_hz default_parameters example_config [] faults 7 = Inr s"
    by (rule example_pipeline)
  have "\<forall>f\<in>set faults. fs_target f \<noteq> ''wheel_speed'' \<and> fs_target f \<noteq> []"
    using assms by (auto simp: other_fault_def)
  then show ?thesis using that [OF s] example_step [OF s] by blast
qed

theorem measurements_conserved_witness:
  "\<exists>s m. pipeline_run example_env s [m] \<and> measurement_kind m = WHEEL_SPEED
     \<and> ct_delivered (pl_statistics s WHEEL_SPEED) = 1
     \<and> ct_generated (pl_statistics s WHEEL_SPEED) = ct_dropped (pl_statistics s WHEEL_SPEED) + 1
         + length (filter (\<lambda>x. measurement_kind (snd (snd x)) = WHEEL_SPEED) (pl_pending s))"
proof -
  obtain s m s' where run: "SensorPipeline example_env one_hz default_parameters example_config [] [] 7 = Inr s"
    "pipeline_step example_env 0 0 initial_vehicle s = (Inr [m], s')" "measurement_kind m = WHEEL_SPEED"
    by (rule example_first [of "[]"]) simp_all
  have "pipeline_run example_env s' [m]"
    using pipeline_run.step [OF pipeline_run.start [OF run(1)] run(2)] by simp
  with measurements_conserved [OF this, of WHEEL_SPEED] run(3) show ?thesis by fastforce
qed

theorem step_delivers_what_is_due_witness:
  "\<exists>s m s'. returning_run example_env s \<and> pipeline_step example_env 0 0 initial_vehicle s = (Inr [m], s')
     \<and> mt_delivery_step_id (times_of m) = 0 \<and> mt_sample_step_id (times_of m) \<le> 0
     \<and> (\<forall>x\<in>set (pl_pending s'). 0 < fst x)"
proof -
  obtain s m s' where run: "SensorPipeline example_env one_hz default_parameters example_config [] [] 7 = Inr s"
    "pipeline_step example_env 0 0 initial_vehicle s = (Inr [m], s')"
    by (rule example_first [of "[]"]) simp_all
  have start: "returning_run example_env s" by (rule returning_run.start [OF run(1)])
  from step_delivers_what_is_due [OF this run(2)] start run(2) show ?thesis by fastforce
qed

theorem faults_are_isolated_witness:
  "\<exists>s t m s' t' m'.
     SensorPipeline example_env one_hz default_parameters example_config [] [] 7 = Inr s
     \<and> SensorPipeline example_env one_hz default_parameters example_config [] [other_fault] 7 = Inr t
     \<and> pipeline_steps example_env [(0, 0, initial_vehicle)] s = (Inr [[m]], s')
     \<and> pipeline_steps example_env [(0, 0, initial_vehicle)] t = (Inr [[m']], t')
     \<and> m = m' \<and> pl_statistics s' WHEEL_SPEED = pl_statistics t' WHEEL_SPEED"
proof -
  obtain s m s' where s: "SensorPipeline example_env one_hz default_parameters example_config [] [] 7 = Inr s"
    "pipeline_step example_env 0 0 initial_vehicle s = (Inr [m], s')" "measurement_kind m = WHEEL_SPEED"
    by (rule example_first [of "[]"]) simp_all
  obtain t m' t' where t: "SensorPipeline example_env one_hz default_parameters example_config [] [other_fault] 7 = Inr t"
    "pipeline_step example_env 0 0 initial_vehicle t = (Inr [m'], t')" "measurement_kind m' = WHEEL_SPEED"
    by (rule example_first [of "[other_fault]"]) simp_all
  have steps: "pipeline_steps example_env [(0, 0, initial_vehicle)] s = (Inr [[m]], s')"
    "pipeline_steps example_env [(0, 0, initial_vehicle)] t = (Inr [[m']], t')"
    using s(2) t(2) by (simp_all add: bindM_def)
  have "filter (\<lambda>f. fs_target f = sensor_name WHEEL_SPEED) [] = filter (\<lambda>f. fs_target f = sensor_name WHEEL_SPEED) [other_fault]"
    by (simp add: other_fault_def)
  from faults_are_isolated [OF s(1) t(1) this steps] s t steps show ?thesis by simp
qed

end
