(* ===== verification/Scenario_Example.thy ===== *)
theory Scenario_Example
  imports Scenario_Laws Sensor_Example
begin

text \<open>
  A concrete scenario of one step of one second, with the vehicle at rest and every sensor but one
  disabled. It parses from its own mapping, it runs, and it instantiates the laws of scenarios.
\<close>

section \<open>One second on the decimal grid\<close>

lemma length_show_power: "length (show_nat (10 ^ k)) = k + 1"
proof (induction k)
  case 0
  show ?case by (simp add: show_nat.simps [of "Suc 0"])
next
  case (Suc k)
  have "\<not> 10 ^ Suc k < (10 :: nat)" "10 ^ Suc k div 10 = (10 ^ k :: nat)" by simp_all
  then show ?case using Suc by (simp only: show_nat.simps [of "10 ^ Suc k"] if_False length_append) simp
qed

lemma ratio_one: "ratio_mag 1 1 = 0x3FF0000000000000" and ratio_two: "ratio_mag 2 1 = 0x4000000000000000"
proof -
  have r: "f64_round_mag (2 ^ 52 * 2 ^ j) 2 = min f64_inf_mag ((0 + j - 2) * 2 ^ 52 + round_half_even (2 ^ 52) 0)"
    if "2 \<le> j" for j
    by (rule f64_round_mag_scale) (use that in \<open>simp_all only: bit_len_power\<close>, simp_all)
  have "ratio_mag 1 1 = f64_round_mag (2 ^ 52 * 2 ^ 1024) 2" "ratio_mag 2 1 = f64_round_mag (2 ^ 52 * 2 ^ 1025) 2"
    by (simp_all add: ratio_mag_def)
  moreover have "min f64_inf_mag ((0 + 1024 - 2) * 2 ^ 52 + round_half_even (2 ^ 52) 0) = 0x3FF0000000000000"
    "min f64_inf_mag ((0 + 1025 - 2) * 2 ^ 52 + round_half_even (2 ^ 52) 0) = 0x4000000000000000"
    by (simp_all add: round_half_even_def f64_inf_mag_def)
  ultimately show "ratio_mag 1 1 = 0x3FF0000000000000" "ratio_mag 2 1 = 0x4000000000000000"
    using r [of 1024] r [of 1025] by (simp_all only: le_numeral_extra numeral_le_iff semiring_norm simp_thms)
qed

lemma one_decimal: "decimal_of one_hz = (1, 0)"
proof -
  have units: "in_units 0x3FF0000000000000 0 = (2 ^ 1074, 2 ^ 1074)"
    by (simp only: in_units_def one_facts(4)) simp
  have "(2 ^ 1074 * 10 ^ 400 div 2 ^ 1074 :: nat) = 10 ^ 400" by (rule nonzero_mult_div_cancel_left) simp
  then have first: "decimal_exponent 0x3FF0000000000000 = 0"
    unfolding decimal_exponent_def one_facts(4) by (simp only: length_show_power \<open>2 ^ 1074 * 10 ^ 400 div 2 ^ 1074 = 10 ^ 400\<close>)
  have cand: "candidates 0x3FF0000000000000 0 = [1]"
    using ratio_one ratio_two by (simp only: candidates_def units prod.case) (simp add: read_mag_def numeral_2_eq_2)
  have pick: "pick_digits 0x3FF0000000000000 0 = 1" by (simp only: pick_digits_def units cand prod.case list.case)
  have "find (\<lambda>k. candidates 0x3FF0000000000000 (0 + 1 - int k) \<noteq> []) [1..<17] = Some 1"
    by (subst upt_conv_Cons) (simp_all add: cand)
  then have "shortest_decimal 0x3FF0000000000000 = (1, 0)"
    by (simp add: shortest_decimal_def first pick)
  then show ?thesis by (simp add: decimal_of_def one_facts f64_sign_def)
qed

lemma one_step: "exact_steps one_hz one_hz = Inr 1"
  by (simp add: exact_steps_def one_decimal decimal_divmod_def align_def Let_def guardR_def)

section \<open>The scenario\<close>

definition one_parameters :: vehicle_parameters where
  "one_parameters = default_parameters\<lparr>vp_max_steering_rad := one_hz\<rparr>"

definition one_scenario :: scenario where
  "one_scenario = \<lparr>so_name = ''rest'', so_duration_s = one_hz, so_dt_s = one_hz, so_initial_state = initial_vehicle,
     so_commands = [\<lparr>cg_until_s = one_hz, cg_acceleration_mps2 = 0, cg_steering_rad = 0\<rparr>],
     so_vehicle = one_parameters, so_sensors = example_config, so_landmarks = [], so_faults = [], so_route = [],
     so_seed = 7\<rparr>"

lemma zero_times: "isfinite c \<Longrightarrow> \<not> f64_neg c \<Longrightarrow> fmul 0 c = 0"
  using zero_products(2) [of 0 c] isfinite_not_nan [of c]
  by (simp add: fmul_def Let_def zero_facts f64_mag_def [of 0] f64_neg_def [of 0] f64_round_def f64_of_def f64_round_mag_def
      round_half_even_def bit_len.simps [of 0])

lemma zero_stable: "angle_stable 0"
proof -
  have "degrees 0 = 0" "radians 0 = 0"
    by (simp_all add: degrees_def radians_def zero_times radians_to_degrees_def degrees_to_radians_def isfinite_def f64_mag_def
        f64_inf_mag_def f64_neg_def)
  then show ?thesis by (simp add: angle_stable_def zero_facts)
qed

lemma one_stable: "angle_stable one_hz"
proof -
  have units: "f64_units_mag (f64_mag one_hz) = 4503599627370496 * 2 ^ 1022"
    "f64_units_mag (f64_mag radians_to_degrees) = 8063664102031864 * 2 ^ 1027"
    "f64_units_mag (f64_mag degrees_to_radians) = 5030569068109113 * 2 ^ 1016"
    by (simp_all only: f64_mag_def radians_to_degrees_def degrees_to_radians_def)
      (rule f64_units_mag_normal [where e = 1023 and f = 0] f64_units_mag_normal [where e = 1028 and f = 3560064474661368]
        f64_units_mag_normal [where e = 1017 and f = 526969440738617]; simp)+
  have fin: "isfinite radians_to_degrees" "isfinite degrees_to_radians" "\<not> f64_neg radians_to_degrees"
    "\<not> f64_neg degrees_to_radians"
    by (simp_all add: radians_to_degrees_def degrees_to_radians_def isfinite_def f64_mag_def f64_inf_mag_def f64_neg_def)
  have "degrees one_hz = radians_to_degrees"
    unfolding degrees_def
    by (subst fmul_normal [OF units(1,2) one_facts(1) fin(1), where n = 36315514645151547947661125484544 and d = 52])
      (use bit_len_unique [of 104 36315514645151547947661125484544] in
        \<open>simp_all add: one_facts fin f64_of_def f64_inf_mag_def round_half_even_def radians_to_degrees_def f64_neg_def\<close>)
  moreover have "radians radians_to_degrees = one_hz"
    unfolding radians_def
    by (subst fmul_normal [OF units(2,3) fin(1,2), where n = 40564819207303341569947754776632 and d = 53])
      (use bit_len_unique [of 105 40564819207303341569947754776632] in
        \<open>simp_all add: fin f64_of_def f64_inf_mag_def round_half_even_def\<close>)
  ultimately show ?thesis using fin(1) by (simp add: angle_stable_def)
qed

lemma one_comparisons:
  "\<not> flt one_hz 0" "\<not> fle one_hz 0" "fle 0 one_hz" "flt 0 one_hz" "feq one_hz one_hz" "\<not> flt one_hz one_hz" "feq 0 0"
  "\<not> flt 0 0" "fle 0 0" "fabs 0 = 0" "\<not> fle 0 0xBFF0000000000000" "\<not> flt f64_two_pi one_hz"
  using isfinite_not_nan [OF one_facts(1)]
  by (simp_all add: flt_def fle_def feq_def f64_key_def one_facts zero_facts fabs_def f64_of_def f64_two_pi_def f64_mag_def f64_neg_def)

lemma one_parameters_ok: "VehicleParameters one_parameters = Inr one_parameters"
  by (simp add: one_parameters_def VehicleParameters_def default_parameters_def vp_fields_def finite_real_def isfinite_def f64_mag_def
      f64_inf_mag_def fle_def isnan_def f64_key_def f64_neg_def f64_half_pi_def guardR_def)

lemma one_parts: "parts_made one_scenario"
proof -
  have state: "VehicleState initial_vehicle = Inr initial_vehicle"
    by (rule VehicleState_finite) (simp add: initial_vehicle_def vs_fields_def zero_facts)
  have command: "CommandSegment one_hz 0 0 = Inr \<lparr>cg_until_s = one_hz, cg_acceleration_mps2 = 0, cg_steering_rad = 0\<rparr>"
    by (simp add: CommandSegment_def finite_real_def one_facts zero_facts one_comparisons guardR_def flt_def f64_key_def
        f64_two_pi_def f64_mag_def f64_neg_def isnan_def f64_inf_mag_def)
  show ?thesis
    unfolding parts_made_def
    by (simp add: one_scenario_def one_parameters_ok state command example_config_def ImuConfig_def WheelSpeedConfig_def
        GnssConfig_def LandmarkConfig_def validate_common_def finite_real_def one_facts zero_facts one_comparisons guardR_def)
qed

lemma one_accepted: "Scenario one_scenario = Inr one_scenario"
proof -
  have "\<not> flt (vp_max_speed_mps one_parameters) 0" "\<not> flt (vp_max_steering_rad one_parameters) 0"
    "fle (fneg (vp_max_deceleration_mps2 one_parameters)) 0" "fle 0 (vp_max_acceleration_mps2 one_parameters)"
    using limits_facts [OF VehicleParameters_ok [OF one_parameters_ok, THEN conjunct2]] zero_facts
    by (simp_all add: fle_key flt_def)
  moreover have "scenario_name_ok ''rest''"
    by (simp add: scenario_name_ok_def letter_or_digit_def)
  moreover have "sequenceR (map (check_rate one_hz) (sensor_rates example_config)) = Inr [(), (), (), ()]"
    by (simp add: sensor_rates_def example_config_def check_rate_def one_period)
  ultimately have "validate_scenario one_scenario = Inr ()"
    by (simp add: validate_scenario_def one_scenario_def one_step initial_vehicle_def one_comparisons guardR_def Let_def)
  then show ?thesis
    by (simp add: Scenario_def one_scenario_def finite_real_def one_facts guardR_def \<open>scenario_name_ok ''rest''\<close>)
qed

lemma one_angles: "a \<in> set (angles one_scenario) \<Longrightarrow> angle_stable a"
  by (auto simp: angles_def one_scenario_def one_parameters_def initial_vehicle_def example_config_def zero_stable one_stable)

lemma one_parses: "scenario_from_mapping (scenario_to_mapping one_scenario) = Inr one_scenario"
  by (rule snapshot_again [OF one_accepted one_parts one_angles])

section \<open>Its run\<close>

lemma one_run: "\<exists>samples. run_scenario rest_lib one_scenario = Inr samples"
proof -
  have p: "parameters_ok one_parameters" by (rule VehicleParameters_ok [OF one_parameters_ok, THEN conjunct2])
  obtain s' where s': "vehicle_step rest_lib one_parameters initial_vehicle
      \<lparr>cm_acceleration_mps2 = 0, cm_steering_rad = 0\<rparr> one_hz = Inr s'"
    using rest_step [OF one_facts(1) one_comparisons(2) p] by blast
  have k: "float_of_int 0 = Inr 0" "float_of_int 1 = Inr one_hz"
    using bit_len_unique [of 0 1] by (simp_all add: float_of_int_def f64_of_def f64_inf_mag_def)
  have late: "\<not> flt (fadd one_hz state_tolerance) one_hz" "\<not> flt (fadd one_hz state_tolerance) 0"
    using add_tolerance [OF one_facts(1)] by (simp_all add: flt_def f64_key_def [of one_hz] one_facts zero_facts)
  have cmd: "command_at one_scenario t = Inr \<lparr>cm_acceleration_mps2 = 0, cm_steering_rad = 0\<rparr>" if "t \<in> {0, one_hz}" for t
    using that late one_facts zero_facts
    by (auto simp: command_at_def one_scenario_def finite_real_def guardR_def one_comparisons segment_command_def ControlCommand_def)
  have "fmul 0 one_hz = 0" by (simp add: zero_times one_facts)
  then show ?thesis
    using cmd s' k one_facts zero_facts
    by (simp add: run_scenario_def step_count_def one_scenario_def one_step simulate_fixed_step_def finite_real_def guardR_def
        simulate_from.simps one_comparisons one_times_one SimulationSample_def Let_def)
qed

section \<open>The laws on it\<close>

theorem parsed_scenario_ok_witness: "scenario_ok one_scenario"
  by (rule parsed_scenario_ok [OF one_parses])

theorem scenario_run_within_limits_witness:
  "\<exists>samples. run_scenario rest_lib one_scenario = Inr samples \<and> length samples = 2
     \<and> list_all (\<lambda>x. within_limits one_parameters (sm_state x)) samples"
proof -
  obtain samples where run: "run_scenario rest_lib one_scenario = Inr samples" using one_run by blast
  have "step_count one_scenario = Inr 1" by (simp add: step_count_def one_scenario_def one_step)
  moreover have "so_vehicle one_scenario = one_parameters" by (simp add: one_scenario_def)
  ultimately show ?thesis using scenario_run_within_limits [OF one_parses run] run by auto
qed

theorem scenario_pipeline_witness:
  "\<exists>p. SensorPipeline example_env one_hz one_parameters example_config [] [] 7 = Inr p"
  using scenario_pipeline [OF one_parses, of example_env]
  by (simp add: one_scenario_def sensor_rates_def example_config_def one_period)

theorem scenario_snapshot_roundtrip_witness:
  "scenario_from_mapping (scenario_to_mapping one_scenario) = Inr one_scenario"
  by (rule scenario_snapshot_roundtrip [OF one_parses]) (use one_angles in blast)

end
