(* ===== verification/Metrics.thy ===== *)
theory Metrics
  imports Vehicle
begin

text \<open>
  The evaluation of a run, \<^verbatim>\<open>metrics.py\<close>: root mean square errors of position, heading and cross
  track, the stop error, the NIS figures and the verdict. \<^verbatim>\<open>math.sqrt\<close> is correctly rounded;
  \<^verbatim>\<open>math.hypot\<close> is a parameter. Lemmas: the integer square root, that a perfect estimate has no
  error, and that the cross-track distance is the least distance to a segment.
\<close>

section \<open>Square root and sum\<close>

function isqrt :: "nat \<Rightarrow> nat" where
  "isqrt n =
     (if n = 0 then 0
      else let r = 2 * isqrt (n div 4) in if (r + 1) * (r + 1) \<le> n then r + 1 else r)"
  by pat_completeness auto
termination by (relation "measure id") auto

declare isqrt.simps [simp del]

text \<open>The root of \<open>u\<close> units is half the root of \<open>4 u 2^1074\<close> units; a last bit says whether it is exact.\<close>

definition fsqrt :: "f64 \<Rightarrow> f64 result" where
  "fsqrt x =
     (if isnan x then Inr x
      else if f64_mag x = 0 then Inr x
      else if f64_neg x then Inl ValueError
      else if \<not> isfinite x then Inr x
      else
        let n = f64_units_mag (f64_mag x) * 2 ^ 1076; r = isqrt n
        in Inr (f64_round False (2 * r + (if r * r = n then 0 else 1)) 2))"

text \<open>
  \<^verbatim>\<open>math.fsum\<close>: an infinity among the terms is the sum, unless one of the other sign or a NaN is too.
\<close>

definition py_fsum :: "f64 list \<Rightarrow> f64 result" where
  "py_fsum xs =
     (if list_all isfinite xs then fsum xs
      else
        let infinities = filter isinf xs
        in if list_ex f64_neg infinities \<and> list_ex (\<lambda>x. \<not> f64_neg x) infinities then Inl ValueError
           else if list_ex isnan xs then Inr f64_nan
           else Inr (hd infinities))"

section \<open>Data\<close>

record pose2 =
  po_x_m :: f64
  po_y_m :: f64
  po_heading_rad :: f64

record metric_summary =
  me_sample_count :: nat
  me_position_rmse_m :: f64
  me_heading_rmse_rad :: f64
  me_cross_track_rmse_m :: f64
  me_cross_track_max_m :: f64
  me_final_stop_error_m :: f64
  me_final_speed_mps :: f64
  me_nis_mean :: "f64 option"
  me_nis_max :: "f64 option"
  me_success :: bool

type_synonym point = "f64 \<times> f64"

definition f64_inf :: f64 where "f64_inf = f64_of False f64_inf_mag"
definition f64_one :: f64 where "f64_one = 0x3FF0000000000000"

section \<open>Distance to a route\<close>

definition validate_pose :: "pose2 \<Rightarrow> unit result" where
  "validate_pose p =
     guardR (\<not> list_all isfinite [po_x_m p, po_y_m p, po_heading_rad p]) ValueError"

fun validate_point :: "point \<Rightarrow> point result" where
  "validate_point (x, y) = bindR (guardR (\<not> isfinite x \<or> \<not> isfinite y) ValueError) (\<lambda>_. Inr (x, y))"

text \<open>The distance to one segment of the route.\<close>

definition segment_distance :: "libm \<Rightarrow> f64 \<Rightarrow> f64 \<Rightarrow> point \<Rightarrow> point \<Rightarrow> f64 result" where
  "segment_distance lib x y previous following =
     (case (previous, following) of
        ((previous_x, previous_y), (next_x, next_y)) \<Rightarrow>
          let dx = fsub next_x previous_x; dy = fsub next_y previous_y;
              length_squared = fadd (fmul dx dx) (fmul dy dy)
          in if feq length_squared 0 then Inr (lm_hypot lib (fsub x previous_x) (fsub y previous_y))
             else
               bindR (py_div (fadd (fmul (fsub x previous_x) dx) (fmul (fsub y previous_y) dy)) length_squared) (\<lambda>q.
               let projection = fmax 0 (fmin f64_one q);
                   closest_x = fadd previous_x (fmul projection dx);
                   closest_y = fadd previous_y (fmul projection dy)
               in Inr (lm_hypot lib (fsub x closest_x) (fsub y closest_y))))"

fun polyline_loop :: "libm \<Rightarrow> f64 \<Rightarrow> f64 \<Rightarrow> f64 \<Rightarrow> point \<Rightarrow> point list \<Rightarrow> f64 result" where
  "polyline_loop lib x y minimum previous [] = Inr minimum"
| "polyline_loop lib x y minimum previous (raw_point # rest) =
     bindR (validate_point raw_point) (\<lambda>following.
     bindR (segment_distance lib x y previous following) (\<lambda>distance.
       polyline_loop lib x y (fmin minimum distance) following rest))"

definition distance_to_polyline :: "libm \<Rightarrow> f64 \<Rightarrow> f64 \<Rightarrow> point list \<Rightarrow> f64 result" where
  "distance_to_polyline lib x y route =
     bindR (guardR (\<not> isfinite x \<or> \<not> isfinite y) ValueError) (\<lambda>_.
     (case route of
        first # second # rest \<Rightarrow>
          bindR (validate_point first) (\<lambda>previous. polyline_loop lib x y f64_inf previous (second # rest))
      | _ \<Rightarrow> Inl ValueError))"

section \<open>The summary of a run\<close>

definition rms_squared :: "f64 list \<Rightarrow> f64 result" where
  "rms_squared squared_values =
     bindR (py_fsum squared_values) (\<lambda>total. fsqrt (fdiv_nat total (length squared_values)))"

record error_lists =
  el_position :: "f64 list"
  el_heading :: "f64 list"
  el_cross_track :: "f64 list"
  el_cross_track_max :: f64

fun error_loop :: "libm \<Rightarrow> point list \<Rightarrow> (pose2 \<times> pose2) list \<Rightarrow> error_lists \<Rightarrow> error_lists result" where
  "error_loop lib route [] acc = Inr acc"
| "error_loop lib route ((truth, estimate) # rest) acc =
     bindR (validate_pose truth) (\<lambda>_.
     bindR (validate_pose estimate) (\<lambda>_.
     let dx = fsub (po_x_m estimate) (po_x_m truth); dy = fsub (po_y_m estimate) (po_y_m truth) in
     bindR (wrap_angle (fsub (po_heading_rad estimate) (po_heading_rad truth))) (\<lambda>heading_error.
     bindR (distance_to_polyline lib (po_x_m truth) (po_y_m truth) route) (\<lambda>cross_track.
       error_loop lib route rest
         \<lparr>el_position = el_position acc @ [fadd (fmul dx dx) (fmul dy dy)],
          el_heading = el_heading acc @ [fmul heading_error heading_error],
          el_cross_track = el_cross_track acc @ [fmul cross_track cross_track],
          el_cross_track_max = fmax (el_cross_track_max acc) cross_track\<rparr>))))"

text \<open>The accepted samples, or the aggregate of count, sum and maximum: the mean and the maximum.\<close>

definition nis_of_samples :: "f64 list \<Rightarrow> (f64 option \<times> f64 option) result" where
  "nis_of_samples accepted =
     (if accepted = [] then Inr (None, None)
      else
        bindR (py_fsum accepted) (\<lambda>total.
          Inr (Some (fdiv_nat total (length accepted)), Some (foldl fmax (hd accepted) (tl accepted)))))"

definition nis_of_aggregate :: "int \<Rightarrow> f64 \<Rightarrow> f64 \<Rightarrow> (f64 option \<times> f64 option) result" where
  "nis_of_aggregate count nis_sum maximum =
     bindR (guardR (count < 0 \<or> \<not> isfinite nis_sum \<or> flt nis_sum 0 \<or> \<not> isfinite maximum \<or> flt maximum 0
       \<or> count = 0 \<and> (\<not> feq nis_sum 0 \<or> \<not> feq maximum 0) \<or> 0 < count \<and> flt nis_sum maximum) ValueError) (\<lambda>_.
     if 0 < count then
       bindR (float_of_int count) (\<lambda>n. bindR (py_div nis_sum n) (\<lambda>mean. Inr (Some mean, Some maximum)))
     else Inr (None, None))"

type_synonym nis_aggregate = "int option \<times> f64 option \<times> f64 option"

definition nis_figures :: "f64 list \<Rightarrow> nis_aggregate \<Rightarrow> (f64 option \<times> f64 option) result" where
  "nis_figures nis_values aggregate =
     bindR (guardR (list_ex (\<lambda>x. \<not> isfinite x \<or> flt x 0) nis_values) ValueError) (\<lambda>_.
     (case aggregate of
        (None, None, None) \<Rightarrow> nis_of_samples nis_values
      | (Some count, Some nis_sum, Some maximum) \<Rightarrow>
          bindR (guardR (nis_values \<noteq> []) ValueError) (\<lambda>_. nis_of_aggregate count nis_sum maximum)
      | _ \<Rightarrow> Inl ValueError))"

record metric_limits =
  ml_position_rmse_m :: f64
  ml_cross_track_rmse_m :: f64
  ml_final_stop_error_m :: f64
  ml_final_speed_mps :: f64

definition summarize_run ::
  "libm \<Rightarrow> pose2 list \<Rightarrow> pose2 list \<Rightarrow> point list \<Rightarrow> f64 \<Rightarrow> f64 list \<Rightarrow> nis_aggregate \<Rightarrow> metric_limits
     \<Rightarrow> metric_summary result" where
  "summarize_run lib truth estimates route final_speed nis_values aggregate limits =
     bindR (guardR (truth = []) ValueError) (\<lambda>_.
     bindR (guardR (length truth \<noteq> length estimates) ValueError) (\<lambda>_.
     bindR (guardR (length route < 2) ValueError) (\<lambda>_.
     bindR (guardR (list_ex (\<lambda>x. isnan x \<or> flt x 0) [ml_position_rmse_m limits, ml_cross_track_rmse_m limits,
                      ml_final_stop_error_m limits, ml_final_speed_mps limits]) ValueError) (\<lambda>_.
     bindR (guardR (\<not> isfinite final_speed \<or> flt final_speed 0) ValueError) (\<lambda>_.
     bindR (error_loop lib route (zip truth estimates)
       \<lparr>el_position = [], el_heading = [], el_cross_track = [], el_cross_track_max = 0\<rparr>) (\<lambda>errors.
     bindR (rms_squared (el_position errors)) (\<lambda>position_rmse.
     bindR (rms_squared (el_heading errors)) (\<lambda>heading_rmse.
     bindR (rms_squared (el_cross_track errors)) (\<lambda>cross_track_rmse.
     let stop_error = lm_hypot lib (fsub (po_x_m (last truth)) (fst (last route)))
                        (fsub (po_y_m (last truth)) (snd (last route))) in
     bindR (nis_figures nis_values aggregate) (\<lambda>(nis_mean, nis_max).
       Inr \<lparr>me_sample_count = length truth, me_position_rmse_m = position_rmse,
         me_heading_rmse_rad = heading_rmse, me_cross_track_rmse_m = cross_track_rmse,
         me_cross_track_max_m = el_cross_track_max errors, me_final_stop_error_m = stop_error,
         me_final_speed_mps = final_speed, me_nis_mean = nis_mean, me_nis_max = nis_max,
         me_success = (fle position_rmse (ml_position_rmse_m limits)
           \<and> fle cross_track_rmse (ml_cross_track_rmse_m limits)
           \<and> fle stop_error (ml_final_stop_error_m limits)
           \<and> fle final_speed (ml_final_speed_mps limits))\<rparr>))))))))))"

section \<open>Lemmas\<close>

lemma isqrt_bounds: "isqrt n * isqrt n \<le> n \<and> n < (isqrt n + 1) * (isqrt n + 1)"
proof (induction n rule: isqrt.induct)
  case (1 n)
  show ?case
  proof (cases "n = 0")
    case False
    define q where "q = isqrt (n div 4)"
    have "q * q \<le> n div 4" "n div 4 < (q + 1) * (q + 1)" using 1 [OF False] by (simp_all add: q_def)
    then have "4 * (q * q) \<le> n" "n < 4 * ((q + 1) * (q + 1))" by linarith+
    then have "2 * q * (2 * q) \<le> n" "n < (2 * q + 1 + 1) * (2 * q + 1 + 1)" by (simp_all add: algebra_simps)
    then show ?thesis
      using False by (subst (1 2 3 4) isqrt.simps) (simp add: q_def [symmetric] Let_def)
  qed (simp add: isqrt.simps [of 0])
qed

lemma zero_word: "f64_of False 0 = 0" by (simp add: f64_of_def)

lemma fsub_self: "isfinite x \<Longrightarrow> fsub x x = 0"
  by (simp add: fsub_def fadd_def isfinite_not_nan zero_word)

lemma zero_arith: "fmul 0 0 = 0" "fadd 0 0 = 0" "fsqrt 0 = Inr 0" "fdiv_nat 0 n = 0"
  by (simp_all add: fmul_def fadd_def fsqrt_def fdiv_nat_def Let_def f64_units_def f64_round_def f64_round_mag_def
      round_half_even_def bit_len.simps [of 0] zero_word)

lemma fsum_zeros: "\<forall>x\<in>set xs. x = 0 \<Longrightarrow> py_fsum xs = Inr 0"
proof -
  assume zeros: "\<forall>x\<in>set xs. x = 0"
  then have "map f64_units xs = replicate (length xs) 0" by (induction xs) (simp_all add: f64_units_def)
  then have "sum_list (map f64_units xs) = 0" by (simp add: sum_list_replicate)
  moreover have "list_all isfinite xs" using zeros by (auto simp: list_all_iff)
  ultimately show ?thesis by (simp add: py_fsum_def fsum_def Let_def f64_round_def zero_word)
qed

lemma wrap_zero: "wrap_angle 0 = Inr 0"
proof -
  have pi: "isfinite f64_pi" "f64_mag f64_pi = 0x400921FB54442D18" "\<not> f64_neg f64_pi"
    "isfinite f64_two_pi" "f64_mag f64_two_pi = 0x401921FB54442D18" "\<not> f64_neg f64_two_pi"
    by (simp_all add: f64_pi_def f64_two_pi_def isfinite_def f64_mag_def f64_inf_mag_def f64_neg_def)
  have same: "f64_round False (f64_units_mag 0x400921FB54442D18) 0 = f64_pi"
    using f64_round_units [of "0x400921FB54442D18"] by (simp add: f64_round_def f64_inf_mag_def f64_of_def f64_pi_def)
  have units: "f64_units_mag 0x400921FB54442D18 = 7074237752028440 * 2 ^ 1023"
    "f64_units_mag 0x401921FB54442D18 = 7074237752028440 * 2 ^ 1024"
    by (rule f64_units_mag_normal [where e = 1024 and f = 2570638124657944]
        f64_units_mag_normal [where e = 1025 and f = 2570638124657944]; simp)+
  then have less: "f64_units_mag 0x400921FB54442D18 < f64_units_mag 0x401921FB54442D18"
    and pos: "0 < f64_units_mag 0x400921FB54442D18" by (simp_all del: power_numeral)
  have sum: "fadd 0 f64_pi = f64_pi"
    using isfinite_not_nan [OF pi(1)] pi pos same by (simp add: fadd_def Let_def f64_units_def)
  have "fmod f64_pi f64_two_pi = f64_pi"
    using isfinite_not_nan [OF pi(1)] isfinite_not_nan [OF pi(4)] pi less same by (simp add: fmod_def)
  then have "py_mod f64_pi f64_two_pi = Inr f64_pi"
    using pi by (simp add: py_mod_def Let_def flt_def f64_key_def)
  then show ?thesis using sum pi(1) by (simp add: wrap_angle_def finite_real_def fsub_self)
qed

lemma error_loop_perfect:
  "error_loop lib route (zip ps ps) acc = Inr errors \<Longrightarrow>
     \<forall>x\<in>set (el_position acc) \<union> set (el_heading acc). x = 0 \<Longrightarrow>
     \<forall>x\<in>set (el_position errors) \<union> set (el_heading errors). x = 0"
proof (induction ps arbitrary: acc)
  case (Cons p ps)
  obtain d where fin: "isfinite (po_x_m p)" "isfinite (po_y_m p)" "isfinite (po_heading_rad p)"
    and rest: "error_loop lib route (zip ps ps)
      \<lparr>el_position = el_position acc @ [0], el_heading = el_heading acc @ [0],
       el_cross_track = el_cross_track acc @ [fmul d d], el_cross_track_max = fmax (el_cross_track_max acc) d\<rparr> = Inr errors"
    using Cons.prems(1)
    by (auto simp: bindR_eq_Inr validate_pose_def fsub_self zero_arith wrap_zero Let_def)
  show ?case by (rule Cons.IH [OF rest]) (use Cons.prems(2) in auto)
qed simp

text \<open>An estimate that is the truth, sample for sample, is scored without error: whenever the
  summary of such a run is returned, both its position and its heading error are exactly zero.\<close>

theorem perfect_estimate_scores_zero:
  assumes "summarize_run lib truth truth route speed nis_values aggregate limits = Inr m"
  shows "me_position_rmse_m m = 0 \<and> me_heading_rmse_rad m = 0 \<and> me_sample_count m = length truth"
proof -
  obtain errors where errors: "error_loop lib route (zip truth truth)
      \<lparr>el_position = [], el_heading = [], el_cross_track = [], el_cross_track_max = 0\<rparr> = Inr errors"
    and m: "rms_squared (el_position errors) = Inr (me_position_rmse_m m)"
      "rms_squared (el_heading errors) = Inr (me_heading_rmse_rad m)" "me_sample_count m = length truth"
    using assms by (auto simp: summarize_run_def bindR_eq_Inr Let_def)
  from error_loop_perfect [OF errors] have zeros: "\<forall>x\<in>set (el_position errors). x = 0" "\<forall>x\<in>set (el_heading errors). x = 0"
    by auto
  show ?thesis
    using m fsum_zeros [OF zeros(1)] fsum_zeros [OF zeros(2)] by (simp add: rms_squared_def zero_arith)
qed

section \<open>The least distance\<close>

text \<open>The segments of a route that are not degenerate in NaN: their distances, in order.\<close>

definition segment_distances :: "libm \<Rightarrow> f64 \<Rightarrow> f64 \<Rightarrow> point list \<Rightarrow> f64 list result" where
  "segment_distances lib x y route =
     sequenceR (map (\<lambda>(a, b). segment_distance lib x y a b) (zip route (tl route)))"

lemma polyline_loop_least:
  "polyline_loop lib x y minimum previous rest = Inr d \<Longrightarrow> \<not> isnan minimum \<Longrightarrow>
     \<exists>ds. segment_distances lib x y (previous # rest) = Inr ds \<and> (d = minimum \<or> d \<in> set ds) \<and> \<not> isnan d
       \<and> fle d minimum \<and> (\<forall>e\<in>set ds. isnan e \<or> fle d e)"
proof (induction rest arbitrary: minimum previous)
  case Nil
  then show ?case by (simp add: segment_distances_def fle_def)
next
  case (Cons p rest)
  from Cons.prems(1) obtain e where e: "segment_distance lib x y previous p = Inr e"
    and loop: "polyline_loop lib x y (fmin minimum e) p rest = Inr d"
    by (cases p) (auto simp: bindR_eq_Inr)
  have small: "\<not> isnan (fmin minimum e)" "fle (fmin minimum e) minimum" "isnan e \<or> fle (fmin minimum e) e"
    using Cons.prems(2) by (auto simp: fmin_def flt_def fle_def)
  from Cons.IH [OF loop small(1)] obtain ds where ds: "segment_distances lib x y (p # rest) = Inr ds"
    "d = fmin minimum e \<or> d \<in> set ds" "\<not> isnan d" "fle d (fmin minimum e)" "\<forall>e\<in>set ds. isnan e \<or> fle d e"
    by blast
  have "segment_distances lib x y (previous # p # rest) = Inr (e # ds)"
    using e ds(1) by (simp add: segment_distances_def)
  moreover have "d = minimum \<or> d \<in> set (e # ds)" using ds(2) by (auto simp: fmin_def)
  moreover have "fle d minimum" "isnan e \<or> fle d e" using ds(4) small by (auto simp: fle_def)
  ultimately show ?case using ds(3,5) by auto
qed

text \<open>The cross-track distance of a point is the least of its distances to the segments of the
  route: it is the distance of one of them (or infinite, if every distance is), and no segment is
  nearer.\<close>

theorem distance_to_polyline_least:
  assumes "distance_to_polyline lib x y route = Inr d"
  shows "\<exists>ds. segment_distances lib x y route = Inr ds \<and> length ds = length route - 1
    \<and> (d = f64_inf \<or> d \<in> set ds) \<and> (\<forall>e\<in>set ds. isnan e \<or> fle d e)"
proof -
  from assms obtain a b rest where route: "route = a # b # rest"
    and loop: "polyline_loop lib x y f64_inf a (b # rest) = Inr d"
    by (auto simp: distance_to_polyline_def bindR_eq_Inr split: list.splits)
  have "\<not> isnan f64_inf" by (simp add: f64_inf_def isnan_def f64_inf_mag_def)
  from polyline_loop_least [OF loop this] obtain ds where ds: "segment_distances lib x y route = Inr ds"
    "d = f64_inf \<or> d \<in> set ds" "\<forall>e\<in>set ds. isnan e \<or> fle d e"
    unfolding route by blast
  have "length ds = length route - 1"
    using length_sequenceR [of _ ds] ds(1) by (fastforce simp: segment_distances_def)
  with ds show ?thesis by blast
qed

section \<open>Instances\<close>

text \<open>A vehicle that stays at the origin, with a route that stays there too.\<close>

lemma origin_distance: "distance_to_polyline rest_lib 0 0 [(0, 0), (0, 0)] = Inr 0"
proof -
  have "feq 0 0" "\<not> flt f64_inf 0" "flt 0 f64_inf"
    by (simp_all add: feq_def flt_def f64_inf_def f64_key_def f64_inf_mag_def isnan_def)
  then show ?thesis
    by (simp add: distance_to_polyline_def segment_distance_def zero_arith fsub_self rest_lib_def fmin_def guardR_def)
qed

theorem distance_to_polyline_least_witness:
  "\<exists>ds. segment_distances rest_lib 0 0 [(0, 0), (0, 0)] = Inr ds \<and> length ds = 1"
  using distance_to_polyline_least [OF origin_distance] by auto

theorem perfect_estimate_scores_zero_witness:
  "\<exists>m. summarize_run rest_lib [\<lparr>po_x_m = 0, po_y_m = 0, po_heading_rad = 0\<rparr>] [\<lparr>po_x_m = 0, po_y_m = 0, po_heading_rad = 0\<rparr>]
       [(0, 0), (0, 0)] 0 [] (None, None, None)
       \<lparr>ml_position_rmse_m = 0, ml_cross_track_rmse_m = 0, ml_final_stop_error_m = 0, ml_final_speed_mps = 0\<rparr> = Inr m
     \<and> me_position_rmse_m m = 0 \<and> me_sample_count m = 1"
proof -
  have "\<not> flt 0 0" by (simp add: flt_def)
  then obtain m where m: "summarize_run rest_lib [\<lparr>po_x_m = 0, po_y_m = 0, po_heading_rad = 0\<rparr>]
       [\<lparr>po_x_m = 0, po_y_m = 0, po_heading_rad = 0\<rparr>]
       [(0, 0), (0, 0)] 0 [] (None, None, None)
       \<lparr>ml_position_rmse_m = 0, ml_cross_track_rmse_m = 0, ml_final_stop_error_m = 0, ml_final_speed_mps = 0\<rparr> = Inr m"
    by (simp add: summarize_run_def validate_pose_def fsub_self zero_arith wrap_zero origin_distance rms_squared_def
        fsum_zeros nis_figures_def nis_of_samples_def guardR_def Let_def)
  from perfect_estimate_scores_zero [OF m] m show ?thesis by auto
qed

end
