(* ===== verification/Native.thy ===== *)
theory Native
  imports Transport Py_Value
begin

text \<open>
  \<^verbatim>\<open>NativeFirmwareTransport\<close> of \<^verbatim>\<open>native.py\<close>: the firmware as a child process that answers text
  commands, behind the byte transport interface. The process is a parameter: a reaction to each
  write, which prints finitely many chunks on standard output and may exit. The transport is an
  interpretation of the contract of \<^verbatim>\<open>Transport\<close>, and its lemma says what an exchange reads.
\<close>

section \<open>The process\<close>

text \<open>
  \<^verbatim>\<open>None\<close> is a process that has exited; its output is what the pipe still holds, one entry for each
  \<^verbatim>\<open>os.read\<close>. \<open>react\<close> is the program: what it prints for a line, and its next state.
\<close>

record 'f process =
  pc_state :: "'f option"
  pc_output :: "bytes list"

type_synonym 'f reaction = "bytes \<Rightarrow> 'f \<Rightarrow> bytes list \<times> 'f option"

definition process_write :: "'f reaction \<Rightarrow> bytes \<Rightarrow> 'f process \<Rightarrow> 'f process option" where
  "process_write react line p =
     (case pc_state p of
        None \<Rightarrow> None
      | Some f \<Rightarrow> (case react line f of (chunks, f') \<Rightarrow> Some \<lparr>pc_state = f', pc_output = pc_output p @ chunks\<rparr>))"

section \<open>Hexadecimal text\<close>

definition hex_digit :: "nat \<Rightarrow> byte" where
  "hex_digit n = of_nat (if n < 10 then 48 + n else 87 + n)"

text \<open>\<^verbatim>\<open>data.hex()\<close>\<close>

definition hex_text :: "bytes \<Rightarrow> bytes" where
  "hex_text data = concat (map (\<lambda>b. [hex_digit (unat b div 16), hex_digit (unat b mod 16)]) data)"

definition hex_value :: "byte \<Rightarrow> nat option" where
  "hex_value b =
     (let n = unat b in
      if 48 \<le> n \<and> n \<le> 57 then Some (n - 48)
      else if 65 \<le> n \<and> n \<le> 70 then Some (n - 55)
      else if 97 \<le> n \<and> n \<le> 102 then Some (n - 87)
      else None)"

definition hex_space :: "byte \<Rightarrow> bool" where
  "hex_space b \<longleftrightarrow> unat b \<in> {9, 10, 11, 12, 13, 32}"

text \<open>
  \<^verbatim>\<open>bytes.fromhex(value.decode("ascii"))\<close>: two digits a byte, white space between the bytes. A byte that
  is not ASCII is not a digit either.
\<close>

fun from_hex :: "bytes \<Rightarrow> bytes option" where
  "from_hex [] = Some []"
| "from_hex [b] = (if hex_space b then Some [] else None)"
| "from_hex (a # b # rest) =
     (if hex_space a then from_hex (b # rest)
      else
        case (hex_value a, hex_value b) of
          (Some h, Some l) \<Rightarrow> map_option ((#) (of_nat (16 * h + l))) (from_hex rest)
        | _ \<Rightarrow> None)"

section \<open>The transport\<close>

record 'f native_transport =
  nt_process :: "'f process"
  nt_rx :: bytes
  nt_stdout_buffer :: bytes
  nt_now_ms :: int

definition NativeFirmwareTransport :: "bool \<Rightarrow> 'f \<Rightarrow> 'f native_transport result" where
  "NativeFirmwareTransport runnable f =
     (if \<not> runnable then Inl ValueError
      else Inr \<lparr>nt_process = \<lparr>pc_state = Some f, pc_output = []\<rparr>, nt_rx = [], nt_stdout_buffer = [], nt_now_ms = 0\<rparr>)"

definition native_is_open :: "'f native_transport \<Rightarrow> bool" where
  "native_is_open t \<longleftrightarrow> pc_state (nt_process t) \<noteq> None"

definition native_pending_bytes :: "'f native_transport \<Rightarrow> nat" where
  "native_pending_bytes t = length (nt_rx t)"

definition set_time :: "int \<Rightarrow> ('f native_transport, unit) meth" where
  "set_time now_ms t =
     (if now_ms < nt_now_ms t then (Inl ValueError, t) else (Inr (), t\<lparr>nt_now_ms := now_ms\<rparr>))"

text \<open>\<^verbatim>\<open>rstrip(b"\r")\<close> of the line before the newline, and what follows the newline.\<close>

definition split_line :: "bytes \<Rightarrow> (bytes \<times> bytes) option" where
  "split_line buffer =
     (if 10 \<in> set buffer
      then Some (rev (dropWhile (\<lambda>b. b = 13) (rev (takeWhile (\<lambda>b. b \<noteq> 10) buffer))),
                 tl (dropWhile (\<lambda>b. b \<noteq> 10) buffer))
      else None)"

text \<open>
  \<^verbatim>\<open>_readline\<close>: nothing to read is a timeout or the end of the output; either way the transport
  gives up. An empty chunk is an end of file.
\<close>

function readline :: "bytes \<Rightarrow> bytes list \<Rightarrow> bytes option \<times> bytes \<times> bytes list" where
  "readline buffer pipe =
     (case split_line buffer of
        Some (line, rest) \<Rightarrow> (Some line, rest, pipe)
      | None \<Rightarrow>
          (case pipe of
             [] \<Rightarrow> (None, buffer, pipe)
           | chunk # pipe' \<Rightarrow>
               if chunk = [] then (None, buffer, pipe') else readline (buffer @ chunk) pipe'))"
  by pat_completeness auto
termination by (relation "measure (\<lambda>(buffer, pipe). length pipe)") auto

declare readline.simps [simp del]

definition native_readline :: "('f native_transport, bytes) meth" where
  "native_readline t =
     (case readline (nt_stdout_buffer t) (pc_output (nt_process t)) of
        (r, buffer, pipe) \<Rightarrow>
          (case r of Some line \<Rightarrow> Inr line | None \<Rightarrow> Inl TransportError,
           t\<lparr>nt_stdout_buffer := buffer, nt_process := (nt_process t)\<lparr>pc_output := pipe\<rparr>\<rparr>))"

definition unread :: "'f native_transport \<Rightarrow> nat" where
  "unread t = length (nt_stdout_buffer t) + length (concat (pc_output (nt_process t)))"

lemma split_line_shorter: "split_line buffer = Some (line, rest) \<Longrightarrow> length rest < length buffer"
proof -
  assume split: "split_line buffer = Some (line, rest)"
  then have "10 \<in> set buffer" and rest: "rest = tl (dropWhile (\<lambda>b. b \<noteq> 10) buffer)"
    by (auto simp: split_line_def split: if_splits)
  then have "dropWhile (\<lambda>b. b \<noteq> 10) buffer \<noteq> []" by (auto simp: dropWhile_eq_Nil_conv)
  then show ?thesis
    using length_dropWhile_le [of "\<lambda>b. b \<noteq> 10" buffer] by (cases "dropWhile (\<lambda>b. b \<noteq> 10) buffer") (auto simp: rest)
qed

lemma readline_shorter:
  "readline buffer pipe = (Some line, buffer', pipe') \<Longrightarrow>
     length buffer' + length (concat pipe') < length buffer + length (concat pipe)"
proof (induction buffer pipe rule: readline.induct)
  case (1 buffer pipe)
  show ?case
  proof (cases "split_line buffer")
    case (Some x)
    then show ?thesis
      using 1(2) split_line_shorter by (subst (asm) readline.simps) (auto split: prod.splits)
  next
    case None
    then show ?thesis
      using 1 by (subst (asm) (2) readline.simps) (fastforce split: list.splits if_splits)
  qed
qed

lemma native_readline_unread: "native_readline t = (Inr line, t') \<Longrightarrow> unread t' < unread t"
  using readline_shorter by (auto simp: native_readline_def unread_def split: prod.splits option.splits)

text \<open>The answer to a command: lines of hexadecimal bytes up to a dot.\<close>

function exchange_answer :: "('f native_transport, unit) meth" where
  "exchange_answer t =
     (case native_readline t of
        (Inl e, t') \<Rightarrow> (Inl e, t')
      | (Inr value, t') \<Rightarrow>
          if value = [46] then (Inr (), t')
          else if take 6 value = ascii ''ERROR '' then (Inl TransportError, t')
          else
            (case from_hex value of
               None \<Rightarrow> (Inl TransportError, t')
             | Some data \<Rightarrow> exchange_answer (t'\<lparr>nt_rx := nt_rx t' @ data\<rparr>)))"
  by pat_completeness auto
termination
  by (relation "measure unread") (auto dest!: native_readline_unread [OF sym] simp: unread_def)

declare exchange_answer.simps [simp del]

definition native_exchange :: "'f reaction \<Rightarrow> bytes \<Rightarrow> ('f native_transport, unit) meth" where
  "native_exchange react command t =
     (case process_write react (command @ [10]) (nt_process t) of
        None \<Rightarrow> (Inl TransportError, t)
      | Some p \<Rightarrow> exchange_answer (t\<lparr>nt_process := p\<rparr>))"

definition feed_command :: "int \<Rightarrow> bytes \<Rightarrow> bytes" where
  "feed_command now_ms data = ascii (''FEED '' @ show_int now_ms @ '' '') @ hex_text data"

definition native_write :: "'f reaction \<Rightarrow> bytes \<Rightarrow> ('f native_transport, int) meth" where
  "native_write react data t =
     (if data = [] then (Inr 0, t)
      else bindM (native_exchange react (feed_command (nt_now_ms t) data)) (\<lambda>_. returnM (int (length data))) t)"

definition tick :: "'f reaction \<Rightarrow> int \<Rightarrow> int \<Rightarrow> ('f native_transport, unit) meth" where
  "tick react now_ms step_id =
     bindM (set_time now_ms) (\<lambda>_.
     bindM (liftM (guardR (step_id < 0 \<or> 0xFFFFFFFF < step_id) ValueError)) (\<lambda>_.
       native_exchange react (ascii (''TICK '' @ show_int now_ms @ '' '' @ show_int step_id))))"

definition native_reset :: "'f reaction \<Rightarrow> int \<Rightarrow> ('f native_transport, unit) meth" where
  "native_reset react now_ms =
     bindM (liftM (guardR (now_ms < 0) ValueError)) (\<lambda>_ t.
       native_exchange react (ascii (''RESET '' @ show_int now_ms)) (t\<lparr>nt_now_ms := now_ms, nt_rx := []\<rparr>))"

definition native_read :: "int \<Rightarrow> ('f native_transport, bytes) meth" where
  "native_read max_bytes t =
     (if max_bytes \<le> 0 then (Inl ValueError, t)
      else if \<not> native_is_open t \<and> nt_rx t = [] then (Inl TransportError, t)
      else (Inr (take (nat max_bytes) (nt_rx t)), t\<lparr>nt_rx := drop (nat max_bytes) (nt_rx t)\<rparr>))"

text \<open>The process leaves on \<^verbatim>\<open>QUIT\<close>, or is terminated.\<close>

definition native_close :: "('f native_transport, unit) meth" where
  "native_close t =
     (if native_is_open t then (Inr (), t\<lparr>nt_process := \<lparr>pc_state = None, pc_output = []\<rparr>\<rparr>) else (Inr (), t))"

definition native_ops :: "'f reaction \<Rightarrow> 'f native_transport byte_transport_ops" where
  "native_ops react = \<lparr>bt_is_open = native_is_open, bt_write = native_write react, bt_read = native_read,
     bt_close = native_close\<rparr>"

section \<open>The contract\<close>

lemma exchange_answer_error: "exchange_answer t = (Inl e, t') \<Longrightarrow> e = TransportError"
proof (induction t arbitrary: t' rule: exchange_answer.induct)
  case (1 t)
  show ?case
  proof (cases "native_readline t")
    case (Pair r u)
    show ?thesis
    proof (cases r)
      case (Inl x)
      then show ?thesis
        using 1(2) Pair by (subst (asm) exchange_answer.simps) (auto simp: native_readline_def split: prod.splits option.splits)
    next
      case (Inr line)
      then show ?thesis
        using 1(2) 1(1) [OF Pair [symmetric] Inr] Pair by (subst (asm) exchange_answer.simps) (auto split: if_splits option.splits)
    qed
  qed
qed

lemma exchange_error: "native_exchange react command t = (Inl e, t') \<Longrightarrow> e = TransportError"
  using exchange_answer_error by (auto simp: native_exchange_def split: option.splits)

interpretation native: finite_transport "native_ops react" "\<lambda>_. True" "\<lambda>t. length (nt_rx t)" for react
proof
  fix d t t' n e and m :: int
  show "0 \<le> n \<and> n \<le> int (length d)" if "bt_write (native_ops react) d t = (Inr n, t')"
    using that by (auto simp: native_ops_def native_write_def bindM_eq_Inr split: if_splits)
  show "e = TransportError" if "bt_write (native_ops react) d t = (Inl e, t')"
    using that exchange_error by (auto simp: native_ops_def native_write_def bindM_eq_Inl split: if_splits)
  assume m: "0 < m"
  show "int (length d) \<le> m" if "bt_read (native_ops react) m t = (Inr d, t')"
    using that m by (auto simp: native_ops_def native_read_def split: if_splits)
  show "e = TransportError" if "bt_read (native_ops react) m t = (Inl e, t')"
    using that m by (auto simp: native_ops_def native_read_def split: if_splits)
  show "length (nt_rx t') < length (nt_rx t)" if "bt_read (native_ops react) m t = (Inr d, t')" "d \<noteq> []"
    using that m by (auto simp: native_ops_def native_read_def split: if_splits)
qed simp_all

section \<open>What an exchange reads\<close>

definition stream :: "'f native_transport \<Rightarrow> bytes" where
  "stream t = nt_stdout_buffer t @ concat (pc_output (nt_process t))"

lemma split_line_at: "10 \<notin> set line \<Longrightarrow> 13 \<notin> set line \<Longrightarrow> split_line (line @ 10 # rest) = Some (line, rest)"
proof -
  assume no: "10 \<notin> set line" "13 \<notin> set line"
  have "takeWhile (\<lambda>b. b \<noteq> 10) (line @ 10 # rest) = line \<and> dropWhile (\<lambda>b. b \<noteq> 10) (line @ 10 # rest) = 10 # rest"
    using no(1) by (induction line) auto
  moreover have "line \<noteq> [] \<Longrightarrow> last line \<noteq> 13" using no(2) by (metis last_in_set)
  then have "dropWhile (\<lambda>b. b = 13) (rev line) = rev line" by (auto simp: dropWhile_eq_self_iff hd_rev)
  ultimately show ?thesis by (simp add: split_line_def)
qed

lemma first_newline:
  "l @ 10 # r = line @ 10 # rest \<Longrightarrow> 10 \<notin> set l \<Longrightarrow> (10 :: byte) \<notin> set line \<Longrightarrow> l = line \<and> r = rest"
proof (induction l arbitrary: line)
  case Nil
  then show ?case by (cases line) auto
next
  case (Cons a l)
  then show ?case by (cases line) auto
qed

text \<open>However the output is cut in chunks, a line is read up to its newline.\<close>

lemma readline_line:
  assumes "buffer @ concat pipe = line @ 10 # rest" "10 \<notin> set line" "13 \<notin> set line" "[] \<notin> set pipe"
  shows "\<exists>buffer' pipe'. readline buffer pipe = (Some line, buffer', pipe')
    \<and> buffer' @ concat pipe' = rest \<and> [] \<notin> set pipe'"
  using assms
proof (induction buffer pipe rule: readline.induct)
  case (1 buffer pipe)
  show ?case
  proof (cases "10 \<in> set buffer")
    case True
    then obtain l r where b: "buffer = l @ 10 # r" "10 \<notin> set l" by (meson split_list_first)
    then have "l @ 10 # (r @ concat pipe) = line @ 10 # rest" using 1(2) by simp
    then have "l = line \<and> r @ concat pipe = rest"
      using b(2) 1(3) by (rule first_newline)
    then show ?thesis
      using b split_line_at [of line r] 1(3,4,5) by (subst readline.simps) auto
  next
    case False
    then have none: "split_line buffer = None" by (simp add: split_line_def)
    then obtain chunk pipe' where o: "pipe = chunk # pipe'" "chunk \<noteq> []"
      using 1(2,5) False by (cases pipe) (auto simp: append_eq_Cons_conv)
    show ?thesis
      using 1(1) [OF none o(1)] 1(2-5) o none by (subst readline.simps) auto
  qed
qed

lemma native_readline_line:
  assumes "stream t = line @ 10 # rest" "10 \<notin> set line" "13 \<notin> set line" "[] \<notin> set (pc_output (nt_process t))"
  shows "\<exists>t'. native_readline t = (Inr line, t') \<and> stream t' = rest \<and> [] \<notin> set (pc_output (nt_process t'))
    \<and> nt_rx t' = nt_rx t \<and> nt_now_ms t' = nt_now_ms t \<and> pc_state (nt_process t') = pc_state (nt_process t)"
  using readline_line [OF assms(1) [unfolded stream_def] assms(2-4)]
  by (auto simp: native_readline_def stream_def)

lemma hex_digit_value: "n < 16 \<Longrightarrow> hex_value (hex_digit n) = Some n \<and> \<not> hex_space (hex_digit n)"
  by (auto simp: hex_value_def hex_digit_def hex_space_def unat_of_nat_byte)

lemma from_hex_text: "from_hex (hex_text data) = Some data"
proof (induction data)
  case (Cons b data)
  have "unat b div 16 < 16" "unat b mod 16 < 16" using unat_byte_less [of b] by linarith+
  then show ?case
    using Cons hex_digit_value [of "unat b div 16"] hex_digit_value [of "unat b mod 16"]
    by (simp add: hex_text_def)
qed (simp add: hex_text_def)

lemma hex_text_bytes: "b \<in> set (hex_text data) \<Longrightarrow> \<exists>n<16. b = hex_digit n"
proof -
  assume "b \<in> set (hex_text data)"
  then obtain c where "c \<in> set data" "b \<in> {hex_digit (unat c div 16), hex_digit (unat c mod 16)}"
    unfolding hex_text_def by auto
  moreover have "unat c div 16 < 16" "unat c mod 16 < 16" using unat_byte_less [of c] by linarith+
  ultimately show ?thesis by blast
qed

lemma hex_text_line:
  "10 \<notin> set (hex_text data)" "13 \<notin> set (hex_text data)" "hex_text data \<noteq> [46]" "take 6 (hex_text data) \<noteq> ascii ''ERROR ''"
proof -
  have other: "hex_digit n \<notin> {10, 13, 46, 69}" if "n < 16" for n
  proof -
    have "unat (hex_digit n) \<notin> {10, 13, 46, 69}" using that by (auto simp: hex_digit_def unat_of_nat_byte)
    then show ?thesis by auto
  qed
  then show "10 \<notin> set (hex_text data)" "13 \<notin> set (hex_text data)" using other by (auto dest!: hex_text_bytes)
  have "46 \<notin> set (hex_text data)" "69 \<notin> set (hex_text data)" using other by (auto dest!: hex_text_bytes)
  moreover have "69 \<in> set (ascii ''ERROR '')" by (simp add: ascii_def)
  ultimately show "hex_text data \<noteq> [46]" "take 6 (hex_text data) \<noteq> ascii ''ERROR ''"
    using in_set_takeD [of 69 6 "hex_text data"] by auto
qed

definition reply_text :: "bytes list \<Rightarrow> bytes" where
  "reply_text parts = concat (map (\<lambda>p. hex_text p @ [10]) parts) @ [46, 10]"

lemma answer_reads:
  "stream t = reply_text parts \<Longrightarrow> [] \<notin> set (pc_output (nt_process t)) \<Longrightarrow>
     exchange_answer t = (Inr (), t\<lparr>nt_rx := nt_rx t @ concat parts, nt_stdout_buffer := [],
       nt_process := \<lparr>pc_state = pc_state (nt_process t), pc_output = []\<rparr>\<rparr>)"
proof (induction parts arbitrary: t)
  case Nil
  then have "stream t = [46] @ 10 # []" by (simp add: reply_text_def)
  from native_readline_line [OF this _ _ Nil.prems(2)] obtain t' where t': "native_readline t = (Inr [46], t')"
    "stream t' = []" "[] \<notin> set (pc_output (nt_process t'))" "nt_rx t' = nt_rx t" "nt_now_ms t' = nt_now_ms t"
    "pc_state (nt_process t') = pc_state (nt_process t)" by auto
  have "nt_stdout_buffer t' = []" "pc_output (nt_process t') = []"
    using t'(2,3) by (auto simp: stream_def) (metis list.set_intros(1) list.exhaust concat.simps(2) append_is_Nil_conv)
  then show ?case using t' by (subst exchange_answer.simps) (cases t', cases t, simp)
next
  case (Cons part parts)
  then have "stream t = hex_text part @ 10 # reply_text parts" by (simp add: reply_text_def)
  from native_readline_line [OF this hex_text_line(1,2) Cons.prems(2)] obtain t' where
    t': "native_readline t = (Inr (hex_text part), t')" "stream t' = reply_text parts"
    "[] \<notin> set (pc_output (nt_process t'))" "nt_rx t' = nt_rx t" "nt_now_ms t' = nt_now_ms t"
    "pc_state (nt_process t') = pc_state (nt_process t)" by auto
  have "stream (t'\<lparr>nt_rx := nt_rx t' @ part\<rparr>) = reply_text parts" using t'(2) by (simp add: stream_def)
  from Cons.IH [OF this] t' hex_text_line(3,4) show ?case
    by (subst exchange_answer.simps) (cases t', cases t, simp add: from_hex_text)
qed

text \<open>What the firmware answers to a write arrives, byte for byte: if the process replies with
  lines of hexadecimal text and a dot, however the pipe cuts them into chunks, the write takes all its
  bytes, the received buffer grows by exactly the bytes of the lines, in order, and nothing of the
  reply is left over for the next exchange.\<close>

theorem native_write_reads_reply:
  assumes "nt_process t = \<lparr>pc_state = Some f, pc_output = []\<rparr>" "nt_stdout_buffer t = []" "data \<noteq> []"
    "react (feed_command (nt_now_ms t) data @ [10]) f = (chunks, f')" "concat chunks = reply_text parts" "[] \<notin> set chunks"
  shows "native_write react data t =
    (Inr (int (length data)), t\<lparr>nt_rx := nt_rx t @ concat parts, nt_process := \<lparr>pc_state = f', pc_output = []\<rparr>\<rparr>)"
proof -
  let ?t = "t\<lparr>nt_process := \<lparr>pc_state = f', pc_output = chunks\<rparr>\<rparr>"
  have "native_exchange react (feed_command (nt_now_ms t) data) t = exchange_answer ?t"
    using assms by (simp add: native_exchange_def process_write_def)
  moreover have "stream ?t = reply_text parts" using assms by (simp add: stream_def)
  ultimately show ?thesis
    using answer_reads [of ?t parts] assms by (cases t) (simp add: native_write_def bindM_def)
qed

text \<open>A process that answers every line with the byte 7, in three chunks.\<close>

theorem native_write_reads_reply_witness:
  "native_write (\<lambda>line n. ([[48], [55, 10], [46, 10]], Some (Suc n))) [1, 2]
     \<lparr>nt_process = \<lparr>pc_state = Some (0 :: nat), pc_output = []\<rparr>, nt_rx = [9], nt_stdout_buffer = [], nt_now_ms = 5\<rparr>
   = (Inr 2, \<lparr>nt_process = \<lparr>pc_state = Some 1, pc_output = []\<rparr>, nt_rx = [9, 7], nt_stdout_buffer = [], nt_now_ms = 5\<rparr>)"
  using native_write_reads_reply [of "\<lparr>nt_process = \<lparr>pc_state = Some (0 :: nat), pc_output = []\<rparr>, nt_rx = [9],
      nt_stdout_buffer = [], nt_now_ms = 5\<rparr>" 0 "[1, 2]" "\<lambda>line n. ([[48], [55, 10], [46, 10]], Some (Suc n))"
      "[[48], [55, 10], [46, 10]]" "Some 1" "[[7]]"]
  by (simp add: reply_text_def hex_text_def hex_digit_def)

end
