(* ===== verification/Run_Records.thy ===== *)
theory Run_Records
  imports Sensors Py_Value
begin

text \<open>
  The records of a run log (\<^verbatim>\<open>runlog.py\<close>): what may be written as JSON, the value that comes back when
  it is read, the serialized form of a measurement and its strict reader, and the commands, events and
  timings of a run. JSON text is represented by the value it stands for; the writer sorts the keys.
\<close>

section \<open>JSON\<close>

text \<open>\<^verbatim>\<open>_json_text\<close>: finite numbers, and nothing that JSON does not have. Anything else is a \<^verbatim>\<open>ValueError\<close>.\<close>

fun json_ok :: "pyval \<Rightarrow> bool" where
  "json_ok (V_Float x) = isfinite x"
| "json_ok (V_List vs) = (\<forall>v\<in>set vs. json_ok v)"
| "json_ok (V_Dict d) = (\<forall>p\<in>set d. json_ok (snd p))"
| "json_ok V_Other = False"
| "json_ok _ = True"

lemma json_ok_update:
  "json_ok (V_Dict a) \<Longrightarrow> list_all (\<lambda>p. json_ok (snd p)) b \<Longrightarrow> json_ok (V_Dict (dict_update a b))"
proof (induction b arbitrary: a)
  case (Cons p b)
  have "json_ok (V_Dict (dict_set k v a))" if "json_ok v" for k v
    using Cons.prems(1) that by (induction a) (auto simp: dict_set_def)
  then have "json_ok (V_Dict (dict_set (fst p) (snd p) a))" using Cons.prems(2) by (simp only: list.pred_inject)
  from Cons.IH [OF this] Cons.prems(2) show ?case by (simp add: dict_update_def case_prod_beta)
qed (simp add: dict_update_def)

text \<open>The value that reading the text gives: every dict in the order of its keys.\<close>

fun json_value :: "pyval \<Rightarrow> pyval" where
  "json_value (V_List vs) = V_List (map json_value vs)"
| "json_value (V_Dict d) = V_Dict (sort_key fst (map (\<lambda>p. (fst p, json_value (snd p))) d))"
| "json_value V_None = V_None"
| "json_value (V_Bool b) = V_Bool b"
| "json_value (V_Int n) = V_Int n"
| "json_value (V_Float x) = V_Float x"
| "json_value (V_Str s) = V_Str s"
| "json_value V_Other = V_Other"

definition json_dict :: "pydict \<Rightarrow> pydict" where
  "json_dict d = sort_key fst (map (\<lambda>p. (fst p, json_value (snd p))) d)"

definition json_text :: "pydict \<Rightarrow> unit result" where
  "json_text d = guardR (\<not> json_ok (V_Dict d)) ValueError"

text \<open>\<^verbatim>\<open>str.lower()\<close> of ASCII text.\<close>

definition lower :: "string \<Rightarrow> string" where
  "lower = map (\<lambda>c. let n = of_char c :: nat in if 65 \<le> n \<and> n \<le> 90 then char_of (n + 32) else c)"

text \<open>What an iterator yields, and the exception that ends it, if any.\<close>

type_synonym 'a stream = "'a list \<times> py_exn option"

text \<open>\<^verbatim>\<open>tuple(stream)\<close>\<close>

definition all_of :: "'a stream \<Rightarrow> 'a list result" where
  "all_of s = (case s of (xs, None) \<Rightarrow> Inr xs | (_, Some e) \<Rightarrow> Inl e)"

section \<open>Checked fields\<close>

text \<open>\<^verbatim>\<open>_finite\<close>, and \<^verbatim>\<open>_record_float\<close>, which turns every error but the overflow of a huge integer into a corrupt run.\<close>

definition finite_number :: "pyval \<Rightarrow> f64 result" where
  "finite_number v =
     (case v of
        V_Int n \<Rightarrow> float_of_int n
      | V_Float x \<Rightarrow> finite_real x
      | _ \<Rightarrow> Inl TypeError)"

definition record_int :: "pydict \<Rightarrow> string \<Rightarrow> int result" where
  "record_int d key = (case dict_get key d of Some (V_Int n) \<Rightarrow> Inr n | _ \<Rightarrow> Inl CorruptRunError)"

definition record_float :: "pydict \<Rightarrow> string \<Rightarrow> f64 result" where
  "record_float d key =
     (case dict_get key d of
        None \<Rightarrow> Inl CorruptRunError
      | Some v \<Rightarrow>
          (case finite_number v of
             Inr x \<Rightarrow> Inr x
           | Inl e \<Rightarrow> if e = TypeError \<or> is_ValueError e then Inl CorruptRunError else Inl e))"

definition require_fields :: "pydict \<Rightarrow> string list \<Rightarrow> unit result" where
  "require_fields d expected = guardR (set (map fst d) \<noteq> set expected) CorruptRunError"

definition validate_step_time :: "int \<Rightarrow> f64 \<Rightarrow> unit result" where
  "validate_step_time step_id time_s =
     bindR (guardR (step_id < 0) ValueError) (\<lambda>_.
     bindR (finite_real time_s) (\<lambda>t. guardR (flt t 0) ValueError))"

section \<open>Measurements\<close>

definition common_fields :: "string list" where
  "common_fields = [''sample_step_id'', ''sample_time_s'', ''delivery_step_id'', ''delivery_time_s'']"

definition observation_dict :: "landmark_observation \<Rightarrow> pyval" where
  "observation_dict o1 =
     V_Dict [(''landmark_id'', V_Int (lo_landmark_id o1)), (''range_m'', V_Float (lo_range_m o1)),
             (''bearing_rad'', V_Float (lo_bearing_rad o1)), (''is_outlier'', V_Bool (lo_is_outlier o1))]"

fun measured_fields :: "measurement \<Rightarrow> pydict" where
  "measured_fields (ImuMeasurement _ acceleration yaw_rate) =
     [(''acceleration_mps2'', V_Float acceleration), (''yaw_rate_rad_s'', V_Float yaw_rate)]"
| "measured_fields (WheelSpeedMeasurement _ speed) = [(''speed_mps'', V_Float speed)]"
| "measured_fields (GnssMeasurement _ x y) = [(''x_m'', V_Float x), (''y_m'', V_Float y)]"
| "measured_fields (LandmarkMeasurement _ observations) = [(''observations'', V_List (map observation_dict observations))]"

definition measurement_dict :: "measurement \<Rightarrow> pydict" where
  "measurement_dict m =
     (let t = times_of m in
      [(''type'', V_Str (sensor_name (measurement_kind m))),
       (''sample_step_id'', V_Int (mt_sample_step_id t)), (''sample_time_s'', V_Float (mt_sample_time_s t)),
       (''delivery_step_id'', V_Int (mt_delivery_step_id t)), (''delivery_time_s'', V_Float (mt_delivery_time_s t))]
      @ measured_fields m)"

definition serialize_measurement :: "measurement \<Rightarrow> pydict result" where
  "serialize_measurement m = bindR (json_text (measurement_dict m)) (\<lambda>_. Inr (measurement_dict m))"

definition read_common :: "pydict \<Rightarrow> measurement_times result" where
  "read_common d =
     bindR (record_int d ''sample_step_id'') (\<lambda>sample_step.
     bindR (record_float d ''sample_time_s'') (\<lambda>sample_time.
     bindR (record_int d ''delivery_step_id'') (\<lambda>delivery_step.
     bindR (record_float d ''delivery_time_s'') (\<lambda>delivery_time.
     bindR (guardR (sample_step < 0 \<or> delivery_step < sample_step) CorruptRunError) (\<lambda>_.
     bindR (guardR (flt sample_time 0 \<or> flt delivery_time sample_time) CorruptRunError) (\<lambda>_.
       Inr \<lparr>mt_sample_step_id = sample_step, mt_sample_time_s = sample_time,
            mt_delivery_step_id = delivery_step, mt_delivery_time_s = delivery_time\<rparr>))))))"

definition read_observation :: "pyval \<Rightarrow> landmark_observation result" where
  "read_observation raw =
     (case raw of
        V_Dict d \<Rightarrow>
          bindR (require_fields d [''landmark_id'', ''range_m'', ''bearing_rad'', ''is_outlier'']) (\<lambda>_.
          bindR (record_int d ''landmark_id'') (\<lambda>landmark_id.
          bindR (record_float d ''range_m'') (\<lambda>range_m.
          bindR (record_float d ''bearing_rad'') (\<lambda>bearing.
          bindR (guardR (landmark_id < 0 \<or> 65535 < landmark_id \<or> flt range_m 0) CorruptRunError) (\<lambda>_.
            case dict_get ''is_outlier'' d of
              Some (V_Bool is_outlier) \<Rightarrow> LandmarkObservation landmark_id range_m bearing is_outlier
            | _ \<Rightarrow> Inl CorruptRunError)))))
      | _ \<Rightarrow> Inl CorruptRunError)"

fun read_observations :: "pyval list \<Rightarrow> landmark_observation list result" where
  "read_observations [] = Inr []"
| "read_observations (raw # raws) =
     bindR (read_observation raw) (\<lambda>o1. bindR (read_observations raws) (\<lambda>os. Inr (o1 # os)))"

definition deserialize_measurement :: "pydict \<Rightarrow> measurement result" where
  "deserialize_measurement d =
     bindR (read_common d) (\<lambda>t.
       let kind = dict_get ''type'' d in
       if kind = Some (V_Str ''imu'') then
         bindR (require_fields d (common_fields @ [''type'', ''acceleration_mps2'', ''yaw_rate_rad_s''])) (\<lambda>_.
         bindR (record_float d ''acceleration_mps2'') (\<lambda>a.
         bindR (record_float d ''yaw_rate_rad_s'') (\<lambda>y. new_measurement (ImuMeasurement t a y))))
       else if kind = Some (V_Str ''wheel_speed'') then
         bindR (require_fields d (common_fields @ [''type'', ''speed_mps''])) (\<lambda>_.
         bindR (record_float d ''speed_mps'') (\<lambda>v.
         bindR (guardR (flt v 0) CorruptRunError) (\<lambda>_. new_measurement (WheelSpeedMeasurement t v))))
       else if kind = Some (V_Str ''gnss'') then
         bindR (require_fields d (common_fields @ [''type'', ''x_m'', ''y_m''])) (\<lambda>_.
         bindR (record_float d ''x_m'') (\<lambda>x.
         bindR (record_float d ''y_m'') (\<lambda>y. new_measurement (GnssMeasurement t x y))))
       else if kind = Some (V_Str ''landmark'') then
         bindR (require_fields d (common_fields @ [''type'', ''observations''])) (\<lambda>_.
           case dict_get ''observations'' d of
             Some (V_List raws) \<Rightarrow>
               bindR (read_observations raws) (\<lambda>os. new_measurement (LandmarkMeasurement t os))
           | _ \<Rightarrow> Inl CorruptRunError)
       else Inl CorruptRunError)"

section \<open>Commands, events and timings\<close>

datatype command_mode = LM_OPEN_LOOP | LM_NEUTRAL | LM_TRACKING | LM_SAFE_STOP

record command_record =
  cr_step_id :: int
  cr_time_s :: f64
  cr_command :: control_command
  cr_target_speed_mps :: f64
  cr_mode :: command_mode
  cr_flags :: int
  cr_source :: string

record timing_record =
  tg_step_id :: int
  tg_time_s :: f64
  tg_component :: string
  tg_duration_s :: f64

definition SEVERITIES :: "string set" where
  "SEVERITIES = {''debug'', ''info'', ''warning'', ''error'', ''critical''}"

text \<open>The checks of \<^verbatim>\<open>RunEvent\<close> on the entries of a dict, which may be of any type.\<close>

definition check_run_event :: "pydict \<Rightarrow> unit result" where
  "check_run_event d =
     (case dict_get ''step_id'' d of
        Some (V_Int step_id) \<Rightarrow>
          bindR (guardR (step_id < 0) ValueError) (\<lambda>_.
          bindR (case dict_get ''time_s'' d of Some v \<Rightarrow> finite_number v | None \<Rightarrow> Inl KeyError) (\<lambda>t.
          bindR (guardR (flt t 0) ValueError) (\<lambda>_.
            case (dict_get ''event_type'' d, dict_get ''source'' d, dict_get ''detail'' d, dict_get ''severity'' d) of
              (Some (V_Str event_type), Some (V_Str source), Some (V_Str detail), Some (V_Str severity)) \<Rightarrow>
                guardR (event_type = [] \<or> source = [] \<or> severity \<notin> SEVERITIES) ValueError
            | _ \<Rightarrow> Inl TypeError)))
      | _ \<Rightarrow> Inl ValueError)"

section \<open>A dict that comes back from JSON\<close>

lemma map_of_same:
  assumes "distinct (map fst xs)" "distinct (map fst ys)" "set xs = set ys"
  shows "map_of xs = map_of ys"
  using assms map_of_inject_set by blast

lemma keys_json [simp]: "set (map fst (json_dict d)) = set (map fst d)"
  by (force simp: json_dict_def)

lemma distinct_sort_key: "distinct (map fst (sort_key fst xs)) = distinct (map fst xs)"
  by (simp add: distinct_map)

lemma distinct_json: "distinct (map fst d) \<Longrightarrow> distinct (map fst (json_dict d))"
  by (simp add: json_dict_def distinct_sort_key comp_def)

lemma map_of_values: "map_of (map (\<lambda>p. (fst p, f (snd p))) d) k = map_option f (map_of d k)"
  by (induction d) auto

lemma json_get:
  assumes "distinct (map fst d)"
  shows "dict_get k (json_dict d) = map_option json_value (dict_get k d)"
proof -
  have "map_of (json_dict d) = map_of (map (\<lambda>p. (fst p, json_value (snd p))) d)"
    by (rule map_of_same) (simp_all add: json_dict_def distinct_sort_key assms comp_def)
  then show ?thesis by (simp add: dict_get_def map_of_values)
qed

section \<open>Measurements come back\<close>

fun valid_measurement :: "measurement \<Rightarrow> bool" where
  "valid_measurement m \<longleftrightarrow> new_measurement m = Inr m \<and>
     (case m of
        LandmarkMeasurement _ os \<Rightarrow>
          \<forall>o1\<in>set os. LandmarkObservation (lo_landmark_id o1) (lo_range_m o1) (lo_bearing_rad o1) (lo_is_outlier o1) = Inr o1
      | _ \<Rightarrow> True)"

declare valid_measurement.simps [simp del]

lemma finite_realI: "isfinite x \<Longrightarrow> finite_real x = Inr x"
  by (simp add: finite_real_def)

lemma common_finite:
  assumes "validate_measurement_common t = Inr ()"
  shows "isfinite (mt_sample_time_s t)" "isfinite (mt_delivery_time_s t)" "0 \<le> mt_sample_step_id t"
    "mt_sample_step_id t \<le> mt_delivery_step_id t" "\<not> flt (mt_sample_time_s t) 0"
    "\<not> flt (mt_delivery_time_s t) (mt_sample_time_s t)"
  using assms by (auto simp: validate_measurement_common_def bindR_eq_Inr guardR_eq_Inr finite_real_def split: if_splits)

lemma record_json:
  assumes "distinct (map fst d)"
  shows "record_int (json_dict d) k = record_int d k" "record_float (json_dict d) k = record_float d k"
    "require_fields (json_dict d) ks = require_fields d ks"
proof -
  show "record_int (json_dict d) k = record_int d k"
    by (auto simp: record_int_def json_get [OF assms] split: option.split pyval.split)
  show "record_float (json_dict d) k = record_float d k"
    by (auto simp: record_float_def finite_number_def json_get [OF assms] split: option.split pyval.split)
  show "require_fields (json_dict d) ks = require_fields d ks"
    by (simp only: require_fields_def keys_json)
qed

lemma read_observation_dict:
  assumes "LandmarkObservation (lo_landmark_id o1) (lo_range_m o1) (lo_bearing_rad o1) (lo_is_outlier o1) = Inr o1"
  shows "read_observation (json_value (observation_dict o1)) = Inr o1"
proof -
  let ?d = "[(''landmark_id'', V_Int (lo_landmark_id o1)), (''range_m'', V_Float (lo_range_m o1)),
             (''bearing_rad'', V_Float (lo_bearing_rad o1)), (''is_outlier'', V_Bool (lo_is_outlier o1))]"
  have distinct: "distinct (map fst ?d)" by simp
  have "json_value (observation_dict o1) = V_Dict (json_dict ?d)" by (simp add: observation_dict_def json_dict_def)
  moreover have "require_fields ?d [''landmark_id'', ''range_m'', ''bearing_rad'', ''is_outlier''] = Inr ()"
    unfolding require_fields_def guardR_def by (rule if_not_P) simp
  moreover have "isfinite (lo_range_m o1)" "isfinite (lo_bearing_rad o1)" "\<not> flt (lo_range_m o1) 0"
    "0 \<le> lo_landmark_id o1" "lo_landmark_id o1 \<le> 65535"
    using assms by (auto simp: LandmarkObservation_def finite_real_def bindR_eq_Inr split: if_splits)
  ultimately show ?thesis
    using assms
    by (simp add: read_observation_def record_json [OF distinct] json_get [OF distinct] record_int_def record_float_def
        finite_number_def finite_realI guardR_def)
qed

lemma read_observations_dicts:
  "(\<forall>o1\<in>set os. LandmarkObservation (lo_landmark_id o1) (lo_range_m o1) (lo_bearing_rad o1) (lo_is_outlier o1) = Inr o1) \<Longrightarrow>
     read_observations (map (json_value \<circ> observation_dict) os) = Inr os"
  by (induction os) (simp_all add: read_observation_dict)

lemma distinct_measurement_dict: "distinct (map fst (measurement_dict m))"
  by (cases m) (simp_all add: measurement_dict_def Let_def)

lemma read_common_dict:
  assumes "validate_measurement_common (times_of m) = Inr ()"
  shows "read_common (measurement_dict m) = Inr (times_of m)"
  using common_finite [OF assms]
  by (simp add: read_common_def measurement_dict_def record_int_def record_float_def finite_number_def finite_realI guardR_def Let_def)

lemma valid_common: "valid_measurement m \<Longrightarrow> validate_measurement_common (times_of m) = Inr ()"
  by (cases m) (auto simp: valid_measurement.simps bindR_eq_Inr)

lemma valid_json:
  assumes "valid_measurement m"
  shows "json_ok (V_Dict (measurement_dict m))"
  using assms common_finite [OF valid_common [OF assms]]
  by (cases m) (auto simp: measurement_dict_def Let_def valid_measurement.simps bindR_eq_Inr finite_real_def observation_dict_def
      LandmarkObservation_def split: if_splits)

lemma dict_of:
  "dict_get ''type'' (measurement_dict m) = Some (V_Str (sensor_name (measurement_kind m)))"
  "dict_get ''acceleration_mps2'' (measurement_dict (ImuMeasurement t a y)) = Some (V_Float a)"
  "dict_get ''yaw_rate_rad_s'' (measurement_dict (ImuMeasurement t a y)) = Some (V_Float y)"
  "dict_get ''speed_mps'' (measurement_dict (WheelSpeedMeasurement t v)) = Some (V_Float v)"
  "dict_get ''x_m'' (measurement_dict (GnssMeasurement t x1 y1)) = Some (V_Float x1)"
  "dict_get ''y_m'' (measurement_dict (GnssMeasurement t x1 y1)) = Some (V_Float y1)"
  "dict_get ''observations'' (measurement_dict (LandmarkMeasurement t os)) = Some (V_List (map observation_dict os))"
  by (simp_all add: measurement_dict_def Let_def)

lemma required:
  "require_fields (measurement_dict m) (common_fields @ ''type'' # map fst (measured_fields m)) = Inr ()"
proof -
  have "map fst (measurement_dict m) = ''type'' # common_fields @ map fst (measured_fields m)"
    by (simp add: measurement_dict_def common_fields_def Let_def)
  then show ?thesis by (auto simp: require_fields_def guardR_def)
qed

lemma valid_fields:
  assumes "valid_measurement m"
  shows "case m of
      ImuMeasurement t a y \<Rightarrow> isfinite a \<and> isfinite y
    | WheelSpeedMeasurement t v \<Rightarrow> isfinite v \<and> \<not> flt v 0
    | GnssMeasurement t x y \<Rightarrow> isfinite x \<and> isfinite y
    | LandmarkMeasurement t os \<Rightarrow>
        \<forall>o1\<in>set os. LandmarkObservation (lo_landmark_id o1) (lo_range_m o1) (lo_bearing_rad o1) (lo_is_outlier o1) = Inr o1"
    "new_measurement m = Inr m"
  using assms
  by (auto simp: valid_measurement.simps bindR_eq_Inr guardR_eq_Inr finite_real_def split: if_splits measurement.split)

lemma measurement_again:
  assumes "valid_measurement m"
  shows "serialize_measurement m = Inr (measurement_dict m)" "deserialize_measurement (json_dict (measurement_dict m)) = Inr m"
proof -
  show "serialize_measurement m = Inr (measurement_dict m)"
    using valid_json [OF assms] by (simp add: serialize_measurement_def json_text_def guardR_def)
  note distinct = distinct_measurement_dict [of m]
  have common: "read_common (json_dict (measurement_dict m)) = Inr (times_of m)"
    using read_common_dict [OF valid_common [OF assms]] by (simp add: read_common_def record_json [OF distinct])
  show "deserialize_measurement (json_dict (measurement_dict m)) = Inr m"
    unfolding deserialize_measurement_def common
    using valid_fields [OF assms] required [of m] valid_common [OF assms]
    by (cases m) (simp_all add: record_json [OF distinct_measurement_dict] json_get [OF distinct_measurement_dict] Let_def
        dict_of record_float_def finite_number_def finite_realI guardR_def read_observations_dicts)
qed

text \<open>
  C34: A measurement survives the run log. Every measurement that its class accepts can be written, and
  reading the record back, with the keys in the order in which JSON leaves them, gives the same measurement.
\<close>

theorem measurement_record_roundtrip:
  assumes "valid_measurement m"
  shows "\<exists>d. serialize_measurement m = Inr d \<and> deserialize_measurement (json_dict d) = Inr m"
  using measurement_again [OF assms] by blast

text \<open>A landmark observation that is an outlier.\<close>

theorem measurement_record_roundtrip_witness:
  "\<exists>d. serialize_measurement (LandmarkMeasurement \<lparr>mt_sample_step_id = 1, mt_sample_time_s = 0, mt_delivery_step_id = 2,
      mt_delivery_time_s = 0\<rparr> [\<lparr>lo_landmark_id = 7, lo_range_m = 0, lo_bearing_rad = 0, lo_is_outlier = True\<rparr>]) = Inr d
    \<and> deserialize_measurement (json_dict d) = Inr (LandmarkMeasurement \<lparr>mt_sample_step_id = 1, mt_sample_time_s = 0,
      mt_delivery_step_id = 2, mt_delivery_time_s = 0\<rparr> [\<lparr>lo_landmark_id = 7, lo_range_m = 0, lo_bearing_rad = 0, lo_is_outlier = True\<rparr>])"
proof (rule measurement_record_roundtrip)
  have zero: "isfinite (0 :: f64)" "\<not> flt 0 (0 :: f64)"
    by (simp_all add: isfinite_def f64_mag_def f64_inf_mag_def flt_def f64_key_def f64_neg_def isnan_def)
  show "valid_measurement (LandmarkMeasurement \<lparr>mt_sample_step_id = 1, mt_sample_time_s = 0, mt_delivery_step_id = 2,
      mt_delivery_time_s = 0\<rparr> [\<lparr>lo_landmark_id = 7, lo_range_m = 0, lo_bearing_rad = 0, lo_is_outlier = True\<rparr>])"
    by (simp add: valid_measurement.simps validate_measurement_common_def finite_real_def zero guardR_def LandmarkObservation_def)
qed

section \<open>What the reader accepts\<close>

lemma float_of_int_finite: "float_of_int n = Inr x \<Longrightarrow> isfinite x"
  by (auto simp: float_of_int_def Let_def isfinite_def f64_inf_mag_def split: if_splits)

lemma record_float_Inr: "record_float d k = Inr x \<Longrightarrow> isfinite x"
  by (auto simp: record_float_def finite_number_def finite_real_def split: option.splits sum.splits pyval.splits if_splits
      dest: float_of_int_finite)

lemma record_errors:
  "record_int d k = Inl e \<Longrightarrow> e = CorruptRunError"
  "record_float d k = Inl e \<Longrightarrow> e = CorruptRunError \<or> e = OverflowError"
  "require_fields d ks = Inl e \<Longrightarrow> e = CorruptRunError"
  by (auto simp: record_int_def record_float_def finite_number_def finite_real_def float_of_int_def require_fields_def guardR_def
      Let_def split: option.splits sum.splits pyval.splits if_splits)

definition typed_result :: "('a \<Rightarrow> bool) \<Rightarrow> 'a result \<Rightarrow> bool" where
  "typed_result P r \<longleftrightarrow> (case r of Inr v \<Rightarrow> P v | Inl e \<Rightarrow> e = CorruptRunError \<or> e = OverflowError)"

lemma typed_bind: "typed_result P x \<Longrightarrow> (\<And>v. P v \<Longrightarrow> typed_result Q (f v)) \<Longrightarrow> typed_result Q (bindR x f)"
  by (cases x) (simp_all add: typed_result_def)

lemma typed_basic:
  "typed_result (\<lambda>_. True) (record_int d k)" "typed_result isfinite (record_float d k)"
  "typed_result (\<lambda>_. True) (require_fields d ks)" "typed_result (\<lambda>_. \<not> b) (guardR b CorruptRunError)"
  "P v \<Longrightarrow> typed_result P (Inr v)" "typed_result P (Inl CorruptRunError)"
  using record_errors record_float_Inr by (auto simp: typed_result_def guardR_def split: sum.split)

definition valid_observation :: "landmark_observation \<Rightarrow> bool" where
  "valid_observation o1 \<longleftrightarrow> LandmarkObservation (lo_landmark_id o1) (lo_range_m o1) (lo_bearing_rad o1) (lo_is_outlier o1) = Inr o1"

lemma typed_read_observation: "typed_result valid_observation (read_observation raw)"
proof (cases raw)
  case (V_Dict d)
  have "typed_result valid_observation (LandmarkObservation i r b l)" if "\<not> (i < 0 \<or> 65535 < i \<or> flt r 0)" "isfinite r" "isfinite b" for i r b l
    using that by (simp add: typed_result_def valid_observation_def LandmarkObservation_def finite_realI guardR_def)
  then show ?thesis
    unfolding V_Dict read_observation_def pyval.case
    by (intro typed_bind [OF typed_basic(3)] typed_bind [OF typed_basic(1)] typed_bind [OF typed_basic(2)] typed_bind [OF typed_basic(4)])
      (auto split: option.split pyval.split intro: typed_basic)
qed (simp_all add: read_observation_def typed_basic)

lemma typed_read_observations: "typed_result (\<lambda>os. \<forall>o1\<in>set os. valid_observation o1) (read_observations raws)"
proof (induction raws)
  case (Cons raw raws)
  then show ?case
    unfolding read_observations.simps
    by (intro typed_bind [OF typed_read_observation] typed_bind [OF Cons.IH] typed_basic(5)) auto
qed (simp add: typed_basic)

lemma typed_read_common: "typed_result (\<lambda>t. validate_measurement_common t = Inr ()) (read_common d)"
  unfolding read_common_def
  by (intro typed_bind [OF typed_basic(1)] typed_bind [OF typed_basic(2)] typed_bind [OF typed_basic(4)] typed_basic(5))
    (auto simp: validate_measurement_common_def finite_realI guardR_def)


text \<open>A number that is not caught.\<close>

lemma huge_number_overflows:
  "deserialize_measurement [(''sample_step_id'', V_Int 0), (''sample_time_s'', V_Int (2 ^ 1024))] = Inl OverflowError"
proof -
  have "bit_len (2 ^ 1024) = 1025" using bit_len_unique [of 1024 "2 ^ 1024"] by simp
  moreover have "round_half_even (2 ^ 1024) 972 = 2 ^ 52" by (simp add: round_half_even_def)
  ultimately have "float_of_int (2 ^ 1024) = Inl OverflowError"
    by (simp add: float_of_int_def nat_power_eq f64_inf_mag_def Let_def del: power_numeral)
  then show ?thesis
    by (simp add: deserialize_measurement_def read_common_def record_int_def record_float_def finite_number_def)
qed

end
