(* ===== verification/Cil_Parts.thy ===== *)
theory Cil_Parts
  imports Hardware_Report Fault_Transport Native Scenario_Parse Metrics Run_Records
begin

text \<open>
  The functions below the closed loop of \<^verbatim>\<open>cil.py\<close>: what a step sends to the firmware, the state of the
  link, the age of a command and the stop the host commands itself, the figures of the summary, and the
  comparison of a replay with its log.
\<close>

section \<open>Time\<close>

text \<open>\<^verbatim>\<open>0.10\<close> seconds; \<^verbatim>\<open>1.0e-12\<close> is the tolerance of the plant.\<close>

definition HOST_COMMAND_TIMEOUT_S :: f64 where "HOST_COMMAND_TIMEOUT_S = 0x3FB999999999999A"

definition whole_steps :: "f64 \<Rightarrow> f64 \<Rightarrow> int result" where
  "whole_steps duration dt = bindR (py_div duration dt) (\<lambda>q. py_ceil (fsub q state_tolerance))"

definition command_timeout_steps :: "f64 \<Rightarrow> int result" where
  "command_timeout_steps dt = bindR (whole_steps HOST_COMMAND_TIMEOUT_S dt) (\<lambda>n. Inr (max 1 n))"

definition timestamp_us :: "f64 \<Rightarrow> int result" where
  "timestamp_us time_s =
     bindR (py_round (fmul time_s 0x412E848000000000)) (\<lambda>v.
     bindR (guardR (v < 0 \<or> 0xFFFFFFFF < v) ValueError) (\<lambda>_. Inr v))"

section \<open>The sensor frame of a step\<close>

text \<open>\<^verbatim>\<open>max(items, key=...)\<close>: the first of the greatest.\<close>

fun newest :: "('a \<Rightarrow> int) \<Rightarrow> 'a list \<Rightarrow> 'a option" where
  "newest key [] = None"
| "newest key (x # xs) =
     (case newest key xs of None \<Rightarrow> Some x | Some y \<Rightarrow> if key x < key y then Some y else Some x)"

definition newest_of :: "sensor \<Rightarrow> measurement list \<Rightarrow> measurement option" where
  "newest_of kind delivered =
     newest (\<lambda>m. mt_sample_step_id (times_of m)) (filter (\<lambda>m. measurement_kind m = kind) delivered)"

definition imu_sample_of :: "measurement list \<Rightarrow> imu_sample option result" where
  "imu_sample_of delivered =
     (case newest_of IMU delivered of
        Some (ImuMeasurement t acceleration yaw_rate) \<Rightarrow>
          bindR (timestamp_us (mt_sample_time_s t)) (\<lambda>us.
            Inr (Some \<lparr>imu_sample_step_id = mt_sample_step_id t, imu_timestamp_us = us,
                       imu_longitudinal_acceleration_mps2 = acceleration, imu_yaw_rate_rps = yaw_rate\<rparr>))
      | _ \<Rightarrow> Inr None)"

definition wheel_sample_of :: "measurement list \<Rightarrow> wheel_speed_sample option result" where
  "wheel_sample_of delivered =
     (case newest_of WHEEL_SPEED delivered of
        Some (WheelSpeedMeasurement t speed) \<Rightarrow>
          bindR (timestamp_us (mt_sample_time_s t)) (\<lambda>us.
            Inr (Some \<lparr>wheel_sample_step_id = mt_sample_step_id t, wheel_timestamp_us = us, wheel_speed_mps = speed\<rparr>))
      | _ \<Rightarrow> Inr None)"

definition gnss_sample_of :: "measurement list \<Rightarrow> gnss_sample option result" where
  "gnss_sample_of delivered =
     (case newest_of GNSS delivered of
        Some (GnssMeasurement t x y) \<Rightarrow>
          bindR (timestamp_us (mt_sample_time_s t)) (\<lambda>us.
            Inr (Some \<lparr>gnss_sample_step_id = mt_sample_step_id t, gnss_timestamp_us = us, gnss_x_m = x, gnss_y_m = y\<rparr>))
      | _ \<Rightarrow> Inr None)"

text \<open>All observations of the step, ordered by sample step and landmark (two stable sorts).\<close>

fun observations_of :: "measurement \<Rightarrow> (measurement_times \<times> landmark_observation) list" where
  "observations_of (LandmarkMeasurement t observations) = map (Pair t) observations"
| "observations_of _ = []"

definition ordered_observations :: "measurement list \<Rightarrow> (measurement_times \<times> landmark_observation) list" where
  "ordered_observations delivered =
     sort_key (\<lambda>p. mt_sample_step_id (fst p)) (sort_key (\<lambda>p. lo_landmark_id (snd p)) (concat (map observations_of delivered)))"

text \<open>One observation a step, in turn; \<^verbatim>\<open>landmark_map\<close> is the dict of the scenario's landmarks.\<close>

definition landmark_sample_of ::
  "landmark list \<Rightarrow> int \<Rightarrow> measurement list \<Rightarrow> (bool \<times> landmark_sample) option result" where
  "landmark_sample_of landmarks step delivered =
     (let observations = ordered_observations delivered
      in if observations = [] then Inr None
         else
           case observations ! nat (step mod int (length observations)) of
             (t, o1) \<Rightarrow>
               (case map_of (rev (map (\<lambda>l. (ld_landmark_id l, l)) landmarks)) (lo_landmark_id o1) of
                  None \<Rightarrow> Inl KeyError
                | Some reference \<Rightarrow>
                    bindR (timestamp_us (mt_sample_time_s t)) (\<lambda>us.
                      Inr (Some (lo_is_outlier o1,
                        \<lparr>lm_sample_step_id = mt_sample_step_id t, lm_timestamp_us = us,
                         lm_landmark_id = lo_landmark_id o1, lm_landmark_x_m = ld_x_m reference,
                         lm_landmark_y_m = ld_y_m reference, lm_range_m = lo_range_m o1,
                         lm_bearing_rad = lo_bearing_rad o1\<rparr>)))))"

definition target_mask :: "string \<Rightarrow> int" where
  "target_mask target =
     (if target = ''imu'' then SM_IMU else if target = ''wheel_speed'' then SM_WHEEL_SPEED
      else if target = ''gnss'' then SM_GNSS else if target = ''landmark'' then SM_LANDMARK else 0)"

definition active_mask :: "fault_spec list \<Rightarrow> f64 \<Rightarrow> int \<Rightarrow> int" where
  "active_mask faults time_s bits =
     foldl (\<lambda>m f. if fault_active_at f time_s then m OR target_mask (fs_target f) else m) bits faults"

definition sensor_payload ::
  "measurement list \<Rightarrow> landmark list \<Rightarrow> fault_spec list \<Rightarrow> f64 \<Rightarrow> int \<Rightarrow> sensor_frame_payload result" where
  "sensor_payload delivered landmarks faults time_s step =
     bindR (imu_sample_of delivered) (\<lambda>imu.
     bindR (wheel_sample_of delivered) (\<lambda>wheel.
     bindR (gnss_sample_of delivered) (\<lambda>gnss.
     bindR (landmark_sample_of landmarks step delivered) (\<lambda>landmark.
       Inr \<lparr>sf_present_mask =
              (if imu = None then 0 else SM_IMU) OR (if wheel = None then 0 else SM_WHEEL_SPEED)
              OR (if gnss = None then 0 else SM_GNSS) OR (if landmark = None then 0 else SM_LANDMARK),
            sf_fault_mask = active_mask faults time_s
              (case landmark of Some (True, _) \<Rightarrow> SM_LANDMARK | _ \<Rightarrow> 0),
            sf_imu = (case imu of Some x \<Rightarrow> x | None \<Rightarrow> ImuSample),
            sf_wheel_speed = (case wheel of Some x \<Rightarrow> x | None \<Rightarrow> WheelSpeedSample),
            sf_gnss = (case gnss of Some x \<Rightarrow> x | None \<Rightarrow> GnssSample),
            sf_landmark = (case landmark of Some (_, x) \<Rightarrow> x | None \<Rightarrow> LandmarkSample)\<rparr>))))"

section \<open>The link\<close>

definition any_fault :: "fault_spec list \<Rightarrow> string \<Rightarrow> string \<Rightarrow> f64 \<Rightarrow> bool" where
  "any_fault faults target kind time_s =
     list_ex (\<lambda>f. fs_target f = target \<and> fs_kind f = kind \<and> fault_active_at f time_s) faults"

definition link_fault_state_of :: "fault_spec list \<Rightarrow> f64 \<Rightarrow> f64 \<Rightarrow> link_fault_state result" where
  "link_fault_state_of faults time_s dt =
     (let active = filter (\<lambda>f. fault_active_at f time_s \<and> fs_target f \<in> {''transport'', ''host''}) faults;
          kind = (\<lambda>k. list_ex (\<lambda>f. fs_kind f = k) active);
          delay_s = py_sum (map fs_value (filter (\<lambda>f. fs_target f = ''transport'' \<and> fs_kind f = ''latency_spike'') active))
      in bindR (whole_steps delay_s dt) (\<lambda>n.
           LinkFaultState (kind ''packet_loss'') (kind ''packet_corruption'') (max 0 n) (kind ''stale_frame'')
             (kind ''disconnect'')))"

definition link_is_healthy :: "link_fault_state \<Rightarrow> bool" where
  "link_is_healthy st \<longleftrightarrow>
     \<not> (lf_packet_loss st \<or> lf_packet_corruption st \<or> lf_delay_steps st \<noteq> 0 \<or> lf_stale_frame st \<or> lf_disconnected st)"

section \<open>Commands\<close>

definition controller_event_is_fresh :: "session_event \<Rightarrow> int \<Rightarrow> int \<Rightarrow> bool" where
  "controller_event_is_fresh event current_step maximum_age =
     (let packet_step = step_id (ev_packet event)
      in if current_step < packet_step then False else current_step - packet_step \<le> maximum_age)"

text \<open>Full braking while the estimated speed exceeds 0.02 m/s.\<close>

definition host_command_timeout_safe_stop :: "state_estimate_payload \<Rightarrow> f64 \<Rightarrow> control_command_payload" where
  "host_command_timeout_safe_stop estimate maximum_deceleration =
     \<lparr>cc_steering_rad = 0,
      cc_acceleration_mps2 = (if flt 0x3F947AE147AE147B (fabs (se_speed_mps estimate)) then fneg maximum_deceleration else 0),
      cc_target_speed_mps = 0, cc_mode = CM_SAFE_STOP, cc_flags = 0\<rparr>"

definition neutral_command :: control_command_payload where
  "neutral_command = \<lparr>cc_steering_rad = 0, cc_acceleration_mps2 = 0, cc_target_speed_mps = 0, cc_mode = CM_NEUTRAL,
     cc_flags = 0\<rparr>"

definition no_estimate :: state_estimate_payload where
  "no_estimate = \<lparr>se_x_m = 0, se_y_m = 0, se_heading_rad = 0, se_speed_mps = 0, se_yaw_rate_rps = 0,
     se_acceleration_bias_mps2 = 0, se_covariance_diagonal = replicate 6 0, se_navigation_mode = NM_UNAVAILABLE,
     se_flags = 0\<rparr>"

text \<open>The modes a run log stores.\<close>

fun runlog_command_mode :: "control_mode \<Rightarrow> command_mode" where
  "runlog_command_mode CM_NEUTRAL = LM_NEUTRAL"
| "runlog_command_mode CM_TRACKING = LM_TRACKING"
| "runlog_command_mode CM_SAFE_STOP = LM_SAFE_STOP"

definition scenario_route :: "scenario \<Rightarrow> route_waypoint list" where
  "scenario_route s =
     map (\<lambda>p. \<lparr>wp_x_m = wy_x_m p, wp_y_m = wy_y_m p, wp_target_speed_mps = wy_target_speed_mps p,
               wp_acceptance_radius_m = fmax 0x3FA999999999999A (wy_acceptance_radius_m p)\<rparr>) (so_route s)"

section \<open>Figures of the summary\<close>

record nis_totals =
  nn_evaluated_count :: int
  nn_gate_rejected_count :: int
  nn_sum :: f64
  nn_max :: f64

definition health_nis :: "health_status_payload \<Rightarrow> nis_summary list" where
  "health_nis h = [hs_imu_yaw_nis h, hs_wheel_nis h, hs_gnss_nis h, hs_landmark_nis h]"

definition nis_totals_of :: "health_status_payload list \<Rightarrow> nis_totals result" where
  "nis_totals_of health_samples =
     (if health_samples = [] then
        Inr \<lparr>nn_evaluated_count = 0, nn_gate_rejected_count = 0, nn_sum = 0, nn_max = 0\<rparr>
      else
        let groups = health_nis (last health_samples)
        in bindR (py_fsum (map nis_sum groups)) (\<lambda>total.
             Inr \<lparr>nn_evaluated_count = sum_list (map nis_evaluated_count groups),
                  nn_gate_rejected_count = sum_list (map nis_gate_rejected_count groups),
                  nn_sum = total, nn_max = foldl fmax (nis_max (hd groups)) (map nis_max (tl groups))\<rparr>))"

definition counter_names :: "(string \<times> (health_counters \<Rightarrow> int)) list" where
  "counter_names =
     [(''rx_frames'', hc_rx_frames), (''rx_crc_errors'', hc_rx_crc_errors), (''rx_decode_errors'', hc_rx_decode_errors),
      (''rx_missing'', hc_rx_missing), (''rx_duplicates'', hc_rx_duplicates), (''rx_out_of_order'', hc_rx_out_of_order),
      (''rx_stale'', hc_rx_stale), (''queue_overflows'', hc_queue_overflows),
      (''scheduler_overruns'', hc_scheduler_overruns), (''max_loop_us'', hc_max_loop_us)]"

definition firmware_health_counters :: "health_status_payload list \<Rightarrow> (string \<times> int) list" where
  "firmware_health_counters health_samples =
     map (\<lambda>(n, get). (n, case map (\<lambda>h. get (hs_counters h)) health_samples of
                            [] \<Rightarrow> 0 | v # vs \<Rightarrow> foldl max v vs)) counter_names"

definition py_floor :: "f64 \<Rightarrow> int result" where
  "py_floor x = bindR (py_ceil (fneg x)) (\<lambda>n. Inr (- n))"

text \<open>The samples are times, so they are ordered floats.\<close>

definition percentile :: "f64 list \<Rightarrow> f64 \<Rightarrow> f64 result" where
  "percentile samples quantile =
     (if samples = [] then Inr 0
      else
        let ordered = sort_key f64_key samples in
        bindR (float_of_int (int (length ordered) - 1)) (\<lambda>n.
        let position = fmul n quantile in
        bindR (py_floor position) (\<lambda>lower.
        bindR (py_ceil position) (\<lambda>upper.
        bindR (guardR (lower < 0 \<or> int (length ordered) \<le> upper) IndexError) (\<lambda>_.
          if lower = upper then Inr (ordered ! nat lower)
          else
            bindR (float_of_int lower) (\<lambda>l.
            let fraction = fsub position l in
            Inr (fadd (fmul (ordered ! nat lower) (fsub f64_one fraction)) (fmul (ordered ! nat upper) fraction))))))))"

end
