(* ===== verification/Closed_Loop.thy ===== *)
theory Closed_Loop
  imports Cil_Parts
begin

text \<open>
  \<^verbatim>\<open>run_closed_loop\<close> of \<^verbatim>\<open>cil.py\<close>: plant, sensors, fault link, session and native firmware in
  lockstep. The firmware is the reaction of the native process; logger, clock and dashboard act on an
  outer world and are parameters (without a logger they do nothing). The local variables of the
  function are the fields of \<^verbatim>\<open>cil\<close>. What a replay shares with a run (the traffic of a step, which
  commands and estimates are held, which command is effective) are definitions of their own.
\<close>

section \<open>The environment\<close>

datatype log_call =
    Log_Measurement measurement
  | Log_Sensor_Event sensor_event
  | Log_Event pydict
  | Log_Ground_Truth simulation_sample
  | Log_Estimate pydict
  | Log_Command int f64 control_command string f64 command_mode int
  | Log_Timing int f64 string f64

record ('f, 'r, 'x) cil_env =
  ce_react :: "'f reaction"
  ce_sensors :: "'r sensor_env"
  ce_logging :: bool
  ce_open :: "('x, unit) meth"
  ce_log :: "log_call \<Rightarrow> ('x, unit) meth"
  ce_finalize :: "pydict \<Rightarrow> ('x, string) meth"
  ce_close_incomplete :: "('x, unit) meth"
  ce_clock_ns :: "'x \<Rightarrow> int \<times> 'x"
  ce_dashboard :: "('x, unit) meth"

type_synonym 'f cil_session = "'f native_transport fault_transport host_session"

definition cil_ops :: "'f reaction \<Rightarrow> 'f native_transport fault_transport byte_transport_ops" where
  "cil_ops react = fault_ops (native_ops react)"

text \<open>A method of the link, or of the native transport in it, from the session.\<close>

definition on_link :: "('f native_transport fault_transport, 'a) meth \<Rightarrow> ('f cil_session, 'a) meth" where
  "on_link m s = (case m (sn_transport s) of (r, t) \<Rightarrow> (r, s\<lparr>sn_transport := t\<rparr>))"

definition on_native :: "('f native_transport, 'a) meth \<Rightarrow> ('f cil_session, 'a) meth" where
  "on_native m = on_link (\<lambda>t. case m (ft_inner t) of (r, n) \<Rightarrow> (r, t\<lparr>ft_inner := n\<rparr>))"

text \<open>\<^verbatim>\<open>SessionConfig()\<close>\<close>

definition default_session_config :: session_config where
  "default_session_config = \<lparr>sc_timeout_ms = 500, sc_max_reads_per_poll = 32, sc_max_tx_buffer = 4096,
     sc_required_capabilities = SUPPORTED_CAPABILITIES\<rparr>"

section \<open>The traffic of a step\<close>

definition time_of_step :: "f64 \<Rightarrow> int \<Rightarrow> f64 result" where
  "time_of_step dt step = bindR (float_of_int step) (\<lambda>k. Inr (fmul k dt))"

definition time_ms :: "f64 \<Rightarrow> int result" where
  "time_ms time_s = py_round (fmul time_s 0x408F400000000000)"

definition send_scenario_route :: "'f reaction \<Rightarrow> scenario \<Rightarrow> int \<Rightarrow> ('f cil_session, unit) meth" where
  "send_scenario_route react s step = send_route (cil_ops react) 1 (scenario_route s) step False"

text \<open>The start: handshake; the events of its poll.\<close>

definition cil_handshake :: "'f reaction \<Rightarrow> ('f cil_session, session_event list) meth" where
  "cil_handshake react =
     bindM (on_native (set_time 0)) (\<lambda>_.
     bindM (on_link (fault_configure (native_ops react) 0 healthy None)) (\<lambda>_.
     bindM (session_start (cil_ops react) 0) (\<lambda>_.
     bindM (poll (cil_ops react) 0) (\<lambda>events s.
       if sn_state s \<noteq> ST_ACTIVE then (Inl RuntimeError, s) else (Inr events, s)))))"

definition prepare_link :: "'f reaction \<Rightarrow> scenario \<Rightarrow> int \<Rightarrow> f64 \<Rightarrow> int \<Rightarrow> ('f cil_session, link_fault_state) meth" where
  "prepare_link react s step time_s now_ms =
     bindM (on_native (set_time now_ms)) (\<lambda>_.
     bindM (liftM (link_fault_state_of (so_faults s) time_s (so_dt_s s))) (\<lambda>st.
     bindM (on_link (fault_configure (native_ops react) step st (Some st))) (\<lambda>_. returnM st)))"

definition reconnect_and_poll :: "'f reaction \<Rightarrow> int \<Rightarrow> ('f cil_session, session_event list) meth" where
  "reconnect_and_poll react now_ms =
     bindM (session_reconnect (cil_ops react) now_ms) (\<lambda>_. poll (cil_ops react) now_ms)"

definition resend_route :: "'f reaction \<Rightarrow> scenario \<Rightarrow> int \<Rightarrow> ('f cil_session, unit) meth" where
  "resend_route react s step w =
     (if sn_state w = ST_ACTIVE then send_scenario_route react s step w else (Inr (), w))"

definition wants_manual_stop :: "scenario \<Rightarrow> f64 \<Rightarrow> bool \<Rightarrow> bool" where
  "wants_manual_stop s time_s sent \<longleftrightarrow> any_fault (so_faults s) ''runtime'' ''manual_safe_stop'' time_s \<and> \<not> sent"

text \<open>\<^verbatim>\<open>session.request_safe_stop(step_id=...)\<close> asks for the default reason.\<close>

definition manual_stop :: "'f reaction \<Rightarrow> scenario \<Rightarrow> int \<Rightarrow> f64 \<Rightarrow> bool \<Rightarrow> ('f cil_session, bool) meth" where
  "manual_stop react s step time_s sent =
     (if wants_manual_stop s time_s sent then
        bindM (request_safe_stop (cil_ops react) SSR_MANUAL 0 step) (\<lambda>_. returnM True)
      else returnM sent)"

definition tick_and_poll :: "'f reaction \<Rightarrow> int \<Rightarrow> int \<Rightarrow> ('f cil_session, session_event list) meth" where
  "tick_and_poll react now_ms step =
     bindM (on_native (tick react now_ms step)) (\<lambda>_. poll (cil_ops react) now_ms)"

definition has_command :: "session_event list \<Rightarrow> bool" where
  "has_command events = list_ex (\<lambda>e. message_type (ev_packet e) = MT_CONTROL_COMMAND) events"

definition exchange_sensors ::
  "'f reaction \<Rightarrow> scenario \<Rightarrow> int \<Rightarrow> f64 \<Rightarrow> int \<Rightarrow> link_fault_state \<Rightarrow> bool \<Rightarrow> measurement list \<Rightarrow>
     ('f cil_session, session_event list) meth" where
  "exchange_sensors react s step time_s now_ms st manual_stop_sent delivered w =
     (if lf_disconnected st \<or> manual_stop_sent \<or> sn_state w \<noteq> ST_ACTIVE then tick_and_poll react now_ms step w
      else
        bindM (liftM (sensor_payload delivered (so_landmarks s) (so_faults s) time_s step)) (\<lambda>p.
          if sf_present_mask p \<noteq> 0 then
            bindM (send_sensor (cil_ops react) step p) (\<lambda>_. poll (cil_ops react) now_ms)
          else tick_and_poll react now_ms step) w)"

definition cil_exchange ::
  "'f reaction \<Rightarrow> scenario \<Rightarrow> int \<Rightarrow> f64 \<Rightarrow> int \<Rightarrow> link_fault_state \<Rightarrow> bool \<Rightarrow> measurement list \<Rightarrow>
     ('f cil_session, session_event list) meth" where
  "cil_exchange react s step time_s now_ms st manual_stop_sent delivered =
     bindM (exchange_sensors react s step time_s now_ms st manual_stop_sent delivered) (\<lambda>events.
       if has_command events then returnM events
       else bindM (tick_and_poll react now_ms step) (\<lambda>more. returnM (events @ more)))"

section \<open>What is held of the firmware's messages\<close>

record held =
  hd_command :: control_command_payload
  hd_command_step :: "int option"
  hd_estimate :: state_estimate_payload
  hd_stale_packets :: nat

definition nothing_held :: held where
  "nothing_held = \<lparr>hd_command = neutral_command, hd_command_step = None, hd_estimate = no_estimate, hd_stale_packets = 0\<rparr>"

definition hold_event :: "int \<Rightarrow> int \<Rightarrow> session_event \<Rightarrow> held \<Rightarrow> held" where
  "hold_event timeout step event h =
     (case ev_payload event of
        P_ControlCommand c \<Rightarrow>
          if \<not> controller_event_is_fresh event step timeout then h\<lparr>hd_stale_packets := hd_stale_packets h + 1\<rparr>
          else h\<lparr>hd_command := c, hd_command_step := Some (step_id (ev_packet event))\<rparr>
      | P_StateEstimate e \<Rightarrow>
          if \<not> controller_event_is_fresh event step timeout then h\<lparr>hd_stale_packets := hd_stale_packets h + 1\<rparr>
          else h\<lparr>hd_estimate := e\<rparr>
      | _ \<Rightarrow> h)"

definition command_is_fresh :: "int \<Rightarrow> int \<Rightarrow> held \<Rightarrow> bool" where
  "command_is_fresh timeout step h \<longleftrightarrow>
     (case hd_command_step h of None \<Rightarrow> False | Some s \<Rightarrow> step - s \<le> timeout)"

definition effective_command :: "int \<Rightarrow> f64 \<Rightarrow> int \<Rightarrow> held \<Rightarrow> control_command_payload \<times> string" where
  "effective_command timeout maximum_deceleration step h =
     (if command_is_fresh timeout step h then (hd_command h, ''embedded_cpp'')
      else (host_command_timeout_safe_stop (hd_estimate h) maximum_deceleration, ''host_command_timeout_safe_stop''))"

section \<open>The loop\<close>

type_synonym counter = "(string \<times> nat) list"

text \<open>\<^verbatim>\<open>counter[key] += 1\<close>, and \<^verbatim>\<open>dict(sorted(counter.items()))\<close>.\<close>

definition counter_add :: "string \<Rightarrow> counter \<Rightarrow> counter" where
  "counter_add key c = AList.update key (case map_of c key of None \<Rightarrow> 1 | Some n \<Rightarrow> n + 1) c"

definition counter_dict :: "counter \<Rightarrow> pydict" where
  "counter_dict c = map (\<lambda>(k, n). (k, V_Int (int n))) (sort_key fst c)"

record ('f, 'r, 'x) cil =
  cl_session :: "'f cil_session"
  cl_sensors :: "'r sensor_pipeline"
  cl_world :: 'x
  cl_state :: vehicle_state
  cl_plant_samples :: "simulation_sample list"
  cl_estimates :: "(int \<times> f64 \<times> state_estimate_payload) list"
  cl_controller_commands :: "(int \<times> f64 \<times> control_command_payload) list"
  cl_health_samples :: "health_status_payload list"
  cl_round_trip_ms :: "f64 list"
  cl_safety_counts :: counter
  cl_navigation_counts :: counter
  cl_active_fault_steps :: counter
  cl_protocol_errors :: nat
  cl_manual_stop_sent :: bool
  cl_held :: held
  cl_guard_active :: bool
  cl_guard_steps :: nat
  cl_last_safety_state :: "string option"
  cl_last_navigation_mode :: "string option"

type_synonym ('f, 'r, 'x, 'a) cil_meth = "(('f, 'r, 'x) cil, 'a) meth"

definition on_session :: "('f cil_session, 'a) meth \<Rightarrow> ('f, 'r, 'x, 'a) cil_meth" where
  "on_session m c = (case m (cl_session c) of (r, s) \<Rightarrow> (r, c\<lparr>cl_session := s\<rparr>))"

definition on_sensors :: "('r sensor_pipeline, 'a) meth \<Rightarrow> ('f, 'r, 'x, 'a) cil_meth" where
  "on_sensors m c = (case m (cl_sensors c) of (r, s) \<Rightarrow> (r, c\<lparr>cl_sensors := s\<rparr>))"

definition on_world :: "('x, 'a) meth \<Rightarrow> ('f, 'r, 'x, 'a) cil_meth" where
  "on_world m c = (case m (cl_world c) of (r, w) \<Rightarrow> (r, c\<lparr>cl_world := w\<rparr>))"

definition log_record :: "('f, 'r, 'x) cil_env \<Rightarrow> log_call \<Rightarrow> ('f, 'r, 'x, unit) cil_meth" where
  "log_record env call c = (if ce_logging env then on_world (ce_log env call) c else (Inr (), c))"

fun log_all :: "('f, 'r, 'x) cil_env \<Rightarrow> log_call list \<Rightarrow> ('f, 'r, 'x, unit) cil_meth" where
  "log_all env [] = returnM ()"
| "log_all env (call # calls) = bindM (log_record env call) (\<lambda>_. log_all env calls)"

definition clock_ns :: "('f, 'r, 'x) cil_env \<Rightarrow> ('f, 'r, 'x, int) cil_meth" where
  "clock_ns env = on_world (\<lambda>w. case ce_clock_ns env w of (n, w') \<Rightarrow> (Inr n, w'))"

definition transition_event :: "int \<Rightarrow> f64 \<Rightarrow> string \<Rightarrow> string option \<Rightarrow> string \<Rightarrow> pydict" where
  "transition_event step time_s event_type previous current =
     [(''step_id'', V_Int step), (''time_s'', V_Float time_s), (''event_type'', V_Str event_type),
      (''source'', V_Str ''host_session''),
      (''detail'', V_Str ((case previous of None \<Rightarrow> ''none'' | Some p \<Rightarrow> p) @ ''->'' @ current)),
      (''severity'', V_Str (if current \<in> {''safe_stop'', ''fault'', ''active''} then ''warning'' else ''info''))]"

definition session_event_records :: "int \<Rightarrow> f64 \<Rightarrow> session_event list \<Rightarrow> log_call list" where
  "session_event_records step time_s events =
     concat (map (\<lambda>e. case ev_payload e of
         P_Error x \<Rightarrow>
           [Log_Event [(''step_id'', V_Int step), (''time_s'', V_Float time_s), (''event_type'', V_Str ''protocol_error''),
              (''source'', V_Str ''firmware''),
              (''detail'', V_Str (''code='' @ ApplicationErrorCode_name (er_code x) @ '',detail='' @ show_int (er_detail x))),
              (''severity'', V_Str ''warning'')]]
       | _ \<Rightarrow> []) events)"

definition estimate_record :: "int \<Rightarrow> f64 \<Rightarrow> state_estimate_payload \<Rightarrow> pydict" where
  "estimate_record step time_s e =
     [(''step_id'', V_Int step), (''time_s'', V_Float time_s), (''x_m'', V_Float (se_x_m e)),
      (''y_m'', V_Float (se_y_m e)), (''heading_rad'', V_Float (se_heading_rad e)),
      (''speed_mps'', V_Float (se_speed_mps e)), (''yaw_rate_rad_s'', V_Float (se_yaw_rate_rps e)),
      (''acceleration_bias_mps2'', V_Float (se_acceleration_bias_mps2 e)),
      (''navigation_mode'', V_Str (NavigationMode_name (se_navigation_mode e))),
      (''covariance_diagonal'', V_List (map V_Float (se_covariance_diagonal e)))]"

text \<open>The reconnection of a timed-out session over a healthy link.\<close>

definition reconnect_phase ::
  "('f, 'r, 'x) cil_env \<Rightarrow> scenario \<Rightarrow> int \<Rightarrow> f64 \<Rightarrow> int \<Rightarrow> link_fault_state \<Rightarrow> ('f, 'r, 'x, unit) cil_meth" where
  "reconnect_phase env s step time_s now_ms st c =
     (if sn_state (cl_session c) = ST_TIMED_OUT \<and> link_is_healthy st then
        bindM (on_session (reconnect_and_poll (ce_react env) now_ms)) (\<lambda>events.
        bindM (\<lambda>c. log_record env (Log_Event (transition_event step time_s ''session_reconnect'' (Some ''timed_out'')
                 (lower (SessionState_name (sn_state (cl_session c)))))) c) (\<lambda>_.
        bindM (log_all env (session_event_records step time_s events)) (\<lambda>_.
          on_session (resend_route (ce_react env) s step)))) c
      else (Inr (), c))"

definition sensor_phase ::
  "('f, 'r, 'x) cil_env \<Rightarrow> int \<Rightarrow> f64 \<Rightarrow> ('f, 'r, 'x, measurement list) cil_meth" where
  "sensor_phase env step time_s =
     bindM (\<lambda>c. on_sensors (pipeline_step (ce_sensors env) step time_s (cl_state c)) c) (\<lambda>delivered.
     bindM (log_all env (map Log_Measurement delivered)) (\<lambda>_.
     bindM (on_sensors drain_events) (\<lambda>events.
     bindM (log_all env (map Log_Sensor_Event events)) (\<lambda>_. returnM delivered))))"

definition stop_phase :: "('f, 'r, 'x) cil_env \<Rightarrow> scenario \<Rightarrow> int \<Rightarrow> f64 \<Rightarrow> ('f, 'r, 'x, unit) cil_meth" where
  "stop_phase env s step time_s c =
     bindM (on_session (manual_stop (ce_react env) s step time_s (cl_manual_stop_sent c)))
       (\<lambda>sent. modifyM (\<lambda>c. c\<lparr>cl_manual_stop_sent := sent\<rparr>)) c"

definition elapsed :: "int \<Rightarrow> f64 result" where
  "elapsed ns = bindR (float_of_int ns) (\<lambda>x. py_div x 0x412E848000000000)"

definition exchange_phase_of ::
  "('f, 'r, 'x) cil_env \<Rightarrow> scenario \<Rightarrow> int \<Rightarrow> f64 \<Rightarrow> int \<Rightarrow> link_fault_state \<Rightarrow> measurement list \<Rightarrow>
     ('f, 'r, 'x, session_event list) cil_meth" where
  "exchange_phase_of env s step time_s now_ms st delivered =
     bindM (clock_ns env) (\<lambda>started.
     bindM (\<lambda>c. on_session (cil_exchange (ce_react env) s step time_s now_ms st (cl_manual_stop_sent c) delivered) c) (\<lambda>events.
     bindM (clock_ns env) (\<lambda>ended.
     bindM (liftM (elapsed (ended - started))) (\<lambda>ms.
     bindM (modifyM (\<lambda>c. c\<lparr>cl_round_trip_ms := cl_round_trip_ms c @ [ms]\<rparr>)) (\<lambda>_. returnM events)))))"

definition report_safety :: "('f, 'r, 'x) cil_env \<Rightarrow> int \<Rightarrow> f64 \<Rightarrow> string \<Rightarrow> ('f, 'r, 'x, unit) cil_meth" where
  "report_safety env step time_s current c =
     (if Some current \<noteq> cl_last_safety_state c then
        bindM (log_record env (Log_Event (transition_event step time_s ''safety_state_transition'' (cl_last_safety_state c) current)))
          (\<lambda>_. modifyM (\<lambda>c. c\<lparr>cl_last_safety_state := Some current\<rparr>)) c
      else (Inr (), c))"

definition report_navigation :: "('f, 'r, 'x) cil_env \<Rightarrow> int \<Rightarrow> f64 \<Rightarrow> string \<Rightarrow> ('f, 'r, 'x, unit) cil_meth" where
  "report_navigation env step time_s current c =
     (if Some current \<noteq> cl_last_navigation_mode c then
        bindM (log_record env (Log_Event (transition_event step time_s ''navigation_mode_transition'' (cl_last_navigation_mode c) current)))
          (\<lambda>_. modifyM (\<lambda>c. c\<lparr>cl_last_navigation_mode := Some current\<rparr>)) c
      else (Inr (), c))"

definition handle_event ::
  "('f, 'r, 'x) cil_env \<Rightarrow> int \<Rightarrow> int \<Rightarrow> f64 \<Rightarrow> session_event \<Rightarrow> ('f, 'r, 'x, unit) cil_meth" where
  "handle_event env timeout step time_s event =
     (case ev_payload event of
        P_HealthStatus h \<Rightarrow>
          let safety = lower (RuntimeState_name (hs_runtime_state h));
              navigation = lower (NavigationMode_name (hs_navigation_mode h)) in
          bindM (modifyM (\<lambda>c. c\<lparr>cl_health_samples := cl_health_samples c @ [h],
                   cl_safety_counts := counter_add safety (cl_safety_counts c),
                   cl_navigation_counts := counter_add navigation (cl_navigation_counts c)\<rparr>)) (\<lambda>_.
          bindM (report_safety env step time_s safety) (\<lambda>_. report_navigation env step time_s navigation))
      | P_Error x \<Rightarrow> modifyM (\<lambda>c. c\<lparr>cl_protocol_errors := cl_protocol_errors c + 1\<rparr>)
      | _ \<Rightarrow> modifyM (\<lambda>c. c\<lparr>cl_held := hold_event timeout step event (cl_held c)\<rparr>))"

fun handle_events ::
  "('f, 'r, 'x) cil_env \<Rightarrow> int \<Rightarrow> int \<Rightarrow> f64 \<Rightarrow> session_event list \<Rightarrow> ('f, 'r, 'x, unit) cil_meth" where
  "handle_events env timeout step time_s [] = returnM ()"
| "handle_events env timeout step time_s (e # es) =
     bindM (handle_event env timeout step time_s e) (\<lambda>_. handle_events env timeout step time_s es)"

text \<open>The command guard: a step without a fresh command is the host's own stop.\<close>

definition guard_phase ::
  "('f, 'r, 'x) cil_env \<Rightarrow> int \<Rightarrow> int \<Rightarrow> f64 \<Rightarrow> ('f, 'r, 'x, unit) cil_meth" where
  "guard_phase env timeout step time_s c =
     (let fresh = command_is_fresh timeout step (cl_held c);
          c1 = (if fresh then c else c\<lparr>cl_guard_steps := cl_guard_steps c + 1\<rparr>)
      in if fresh = cl_guard_active c then
           bindM (log_record env (Log_Event (transition_event step time_s ''host_command_guard_transition''
                    (Some (if cl_guard_active c then ''active'' else ''inactive'')) (if fresh then ''inactive'' else ''active''))))
             (\<lambda>_. modifyM (\<lambda>c. c\<lparr>cl_guard_active := \<not> fresh\<rparr>)) c1
         else (Inr (), c1))"

definition record_phase ::
  "('f, 'r, 'x) cil_env \<Rightarrow> scenario \<Rightarrow> int \<Rightarrow> int \<Rightarrow> f64 \<Rightarrow> ('f, 'r, 'x, control_command) cil_meth" where
  "record_phase env s timeout step time_s c =
     (case effective_command timeout (vp_max_deceleration_mps2 (so_vehicle s)) step (cl_held c) of
        (effective, source) \<Rightarrow>
          let estimate = hd_estimate (cl_held c) in
          bindM (liftM (ControlCommand (cc_acceleration_mps2 effective) (cc_steering_rad effective))) (\<lambda>plant_command.
          bindM (liftM (SimulationSample step time_s (cl_state c) plant_command)) (\<lambda>sample.
          bindM (modifyM (\<lambda>c. c\<lparr>cl_plant_samples := cl_plant_samples c @ [sample],
                   cl_estimates := cl_estimates c @ [(step, time_s, estimate)],
                   cl_controller_commands := cl_controller_commands c @ [(step, time_s, effective)]\<rparr>)) (\<lambda>_.
          bindM (liftM (py_div (last (cl_round_trip_ms c)) 0x408F400000000000)) (\<lambda>round_trip_s.
          bindM (log_all env
                   [Log_Ground_Truth sample, Log_Estimate (estimate_record step time_s estimate),
                    Log_Command step time_s plant_command source (cc_target_speed_mps effective)
                      (runlog_command_mode (cc_mode effective)) (cc_flags effective),
                    Log_Timing step time_s ''native_process_round_trip'' round_trip_s]) (\<lambda>_.
            returnM plant_command))))) c)"

definition plant_phase ::
  "('f, 'r, 'x) cil_env \<Rightarrow> scenario \<Rightarrow> int \<Rightarrow> int \<Rightarrow> control_command \<Rightarrow> ('f, 'r, 'x, unit) cil_meth" where
  "plant_phase env s last_step step command c =
     (if step < last_step then
        bindM (liftM (vehicle_step (se_lib (ce_sensors env)) (so_vehicle s) (cl_state c) command (so_dt_s s)))
          (\<lambda>state. modifyM (\<lambda>c. c\<lparr>cl_state := state\<rparr>)) c
      else (Inr (), c))"

definition count_active_faults :: "fault_spec list \<Rightarrow> f64 \<Rightarrow> counter \<Rightarrow> counter" where
  "count_active_faults faults time_s c =
     foldl (\<lambda>c f. if fault_active_at f time_s then counter_add (fs_target f @ '':'' @ fs_kind f) c else c) c faults"

text \<open>The step up to the firmware's answer, and what the host does with the answer.\<close>

definition step_traffic ::
  "('f, 'r, 'x) cil_env \<Rightarrow> scenario \<Rightarrow> int \<Rightarrow> f64 \<Rightarrow> ('f, 'r, 'x, session_event list) cil_meth" where
  "step_traffic env s step time_s =
     bindM (liftM (time_ms time_s)) (\<lambda>now_ms.
     bindM (on_session (prepare_link (ce_react env) s step time_s now_ms)) (\<lambda>st.
     bindM (modifyM (\<lambda>c. c\<lparr>cl_active_fault_steps := count_active_faults (so_faults s) time_s (cl_active_fault_steps c)\<rparr>)) (\<lambda>_.
     bindM (reconnect_phase env s step time_s now_ms st) (\<lambda>_.
     bindM (sensor_phase env step time_s) (\<lambda>delivered.
     bindM (stop_phase env s step time_s) (\<lambda>_.
       exchange_phase_of env s step time_s now_ms st delivered))))))"

definition step_reaction ::
  "('f, 'r, 'x) cil_env \<Rightarrow> scenario \<Rightarrow> int \<Rightarrow> int \<Rightarrow> int \<Rightarrow> f64 \<Rightarrow> session_event list \<Rightarrow> ('f, 'r, 'x, unit) cil_meth" where
  "step_reaction env s timeout last_step step time_s events =
     bindM (handle_events env timeout step time_s events) (\<lambda>_.
     bindM (log_all env (session_event_records step time_s events)) (\<lambda>_.
     bindM (guard_phase env timeout step time_s) (\<lambda>_.
     bindM (record_phase env s timeout step time_s) (\<lambda>command.
       plant_phase env s last_step step command))))"

definition cil_step ::
  "('f, 'r, 'x) cil_env \<Rightarrow> scenario \<Rightarrow> int \<Rightarrow> int \<Rightarrow> int \<Rightarrow> ('f, 'r, 'x, unit) cil_meth" where
  "cil_step env s timeout last_step step =
     bindM (liftM (time_of_step (so_dt_s s) step)) (\<lambda>time_s.
     bindM (step_traffic env s step time_s) (\<lambda>events.
       step_reaction env s timeout last_step step time_s events))"

text \<open>\<^verbatim>\<open>for step_id in range(scenario.step_count + 1)\<close>\<close>

fun cil_loop ::
  "('f, 'r, 'x) cil_env \<Rightarrow> scenario \<Rightarrow> int \<Rightarrow> int \<Rightarrow> nat list \<Rightarrow> ('f, 'r, 'x, unit) cil_meth" where
  "cil_loop env s timeout last_step [] = returnM ()"
| "cil_loop env s timeout last_step (k # ks) =
     bindM (cil_step env s timeout last_step (int k)) (\<lambda>_. cil_loop env s timeout last_step ks)"

section \<open>The summary\<close>

record cil_result =
  ci_scenario_name :: string
  ci_seed :: int
  ci_plant_samples :: "simulation_sample list"
  ci_estimates :: "(int \<times> f64 \<times> state_estimate_payload) list"
  ci_controller_commands :: "(int \<times> f64 \<times> control_command_payload) list"
  ci_metric_summary :: metric_summary
  ci_summary :: pydict
  ci_run_path :: "string option"

definition metric_dict :: "metric_summary \<Rightarrow> pydict" where
  "metric_dict m =
     [(''sample_count'', V_Int (int (me_sample_count m))), (''position_rmse_m'', V_Float (me_position_rmse_m m)),
      (''heading_rmse_rad'', V_Float (me_heading_rmse_rad m)),
      (''cross_track_rmse_m'', V_Float (me_cross_track_rmse_m m)),
      (''cross_track_max_m'', V_Float (me_cross_track_max_m m)),
      (''final_stop_error_m'', V_Float (me_final_stop_error_m m)),
      (''final_speed_mps'', V_Float (me_final_speed_mps m)),
      (''nis_mean'', case me_nis_mean m of None \<Rightarrow> V_None | Some x \<Rightarrow> V_Float x),
      (''nis_max'', case me_nis_max m of None \<Rightarrow> V_None | Some x \<Rightarrow> V_Float x),
      (''success'', V_Bool (me_success m))]"

definition statistics_dict :: "'r sensor_pipeline \<Rightarrow> pydict" where
  "statistics_dict p =
     map (\<lambda>k. let c = pl_statistics p k in
       (sensor_name k, V_Dict [(''generated'', V_Int (int (ct_generated c))), (''delivered'', V_Int (int (ct_delivered c))),
          (''dropped'', V_Int (int (ct_dropped c))), (''outliers'', V_Int (int (ct_outliers c)))]))
       [IMU, WHEEL_SPEED, GNSS, LANDMARK]"

definition link_stats_dict :: "'t fault_transport \<Rightarrow> pydict" where
  "link_stats_dict t =
     (let counts = (\<lambda>st. [fs_forwarded st, fs_dropped st, fs_corrupted st, fs_delayed st, fs_stale_replayed st, fs_disconnect_drops st])
      in zip [''frames_forwarded'', ''frames_dropped'', ''frames_corrupted'', ''frames_delayed'', ''stale_frames_replayed'',
              ''disconnect_drops'', ''rx_frames_forwarded'', ''rx_frames_dropped'', ''rx_frames_corrupted'',
              ''rx_frames_delayed'', ''rx_stale_frames_replayed'', ''rx_disconnect_drops'']
             (map (\<lambda>n. V_Int (int n)) (counts (ft_tx_stats t) @ counts (ft_rx_stats t))))"

definition nis_dict :: "nis_totals \<Rightarrow> pydict" where
  "nis_dict n =
     [(''evaluated_count'', V_Int (nn_evaluated_count n)), (''gate_rejected_count'', V_Int (nn_gate_rejected_count n)),
      (''sum'', V_Float (nn_sum n)), (''max'', V_Float (nn_max n))]"

text \<open>The thresholds: 2.0 m, 2.0 m, 1.0 m and 0.25 m/s.\<close>

definition smoke_limits :: metric_limits where
  "smoke_limits = \<lparr>ml_position_rmse_m = 0x4000000000000000, ml_cross_track_rmse_m = 0x4000000000000000,
     ml_final_stop_error_m = f64_one, ml_final_speed_mps = 0x3FD0000000000000\<rparr>"

definition evaluate_run :: "('f, 'r, 'x) cil_env \<Rightarrow> scenario \<Rightarrow> nis_totals \<Rightarrow> ('f, 'r, 'x) cil \<Rightarrow> metric_summary result" where
  "evaluate_run env s nis c =
     summarize_run (se_lib (ce_sensors env))
       (map (\<lambda>x. let v = sm_state x in \<lparr>po_x_m = vs_x_m v, po_y_m = vs_y_m v, po_heading_rad = vs_heading_rad v\<rparr>) (cl_plant_samples c))
       (map (\<lambda>(_, _, e). \<lparr>po_x_m = se_x_m e, po_y_m = se_y_m e, po_heading_rad = se_heading_rad e\<rparr>) (cl_estimates c))
       ((vs_x_m (so_initial_state s), vs_y_m (so_initial_state s)) # map (\<lambda>w. (wy_x_m w, wy_y_m w)) (so_route s))
       (vs_speed_mps (sm_state (last (cl_plant_samples c)))) []
       (Some (nn_evaluated_count nis), Some (nn_sum nis), Some (nn_max nis)) smoke_limits"

definition summary_dict ::
  "scenario \<Rightarrow> nis_totals \<Rightarrow> metric_summary \<Rightarrow> f64 \<Rightarrow> f64 \<Rightarrow> ('f, 'r, 'x) cil \<Rightarrow> pydict" where
  "summary_dict s nis m p50 p99 c =
     dict_update (metric_dict m)
       [(''smoke_thresholds'', V_Dict [(''position_rmse_m'', V_Float (ml_position_rmse_m smoke_limits)),
           (''cross_track_rmse_m'', V_Float (ml_cross_track_rmse_m smoke_limits)),
           (''final_stop_error_m'', V_Float (ml_final_stop_error_m smoke_limits)),
           (''final_speed_mps'', V_Float (ml_final_speed_mps smoke_limits))]),
        (''scenario'', V_Str (so_name s)), (''seed'', V_Int (so_seed s)),
        (''plant_samples'', V_Int (int (length (cl_plant_samples c)))),
        (''sensor_statistics'', V_Dict (statistics_dict (cl_sensors c))),
        (''session_statistics'', V_Dict (session_stats_dict (sn_stats (cl_session c)))),
        (''parser_statistics'', V_Dict (parser_stats_dict (sp_stats (sn_parser (cl_session c))))),
        (''sequence_statistics'', V_Dict (sequence_stats_dict (tr_stats (sn_rx_sequence (cl_session c))))),
        (''link_statistics'', V_Dict (link_stats_dict (sn_transport (cl_session c)))),
        (''firmware_health_counters'', V_Dict (map (\<lambda>(k, n). (k, V_Int n)) (firmware_health_counters (cl_health_samples c)))),
        (''nis_statistics'', V_Dict (nis_dict nis)),
        (''safety_state_counts'', V_Dict (counter_dict (cl_safety_counts c))),
        (''navigation_mode_counts'', V_Dict (counter_dict (cl_navigation_counts c))),
        (''active_fault_steps'', V_Dict (counter_dict (cl_active_fault_steps c))),
        (''protocol_error_messages'', V_Int (int (cl_protocol_errors c))),
        (''host_command_timeout_s'', V_Float HOST_COMMAND_TIMEOUT_S),
        (''host_command_guard_steps'', V_Int (int (cl_guard_steps c))),
        (''stale_controller_packets'', V_Int (int (hd_stale_packets (cl_held c)))),
        (''native_process_round_trip_ms_p50'', V_Float p50), (''native_process_round_trip_ms_p99'', V_Float p99),
        (''latency_scope'', V_Str ''host-to-local-native-process round trip'')]"

text \<open>The end of the \<^verbatim>\<open>try\<close> block. The quantiles are 0.50 and 0.99.\<close>

definition finish_run :: "('f, 'r, 'x) cil_env \<Rightarrow> scenario \<Rightarrow> ('f, 'r, 'x, cil_result) cil_meth" where
  "finish_run env s =
     bindM (\<lambda>c. if ce_logging env
                then bindM (on_sensors drain_pending) (\<lambda>late. log_all env (map Log_Measurement late)) c
                else (Inr (), c)) (\<lambda>_ c.
     bindM (liftM (bindR (nis_totals_of (cl_health_samples c)) (\<lambda>nis.
                   bindR (evaluate_run env s nis c) (\<lambda>m.
                   bindR (percentile (cl_round_trip_ms c) 0x3FE0000000000000) (\<lambda>p50.
                   bindR (percentile (cl_round_trip_ms c) 0x3FEFAE147AE147AE) (\<lambda>p99.
                     Inr (m, summary_dict s nis m p50 p99 c))))))) (\<lambda>(m, summary).
     bindM (\<lambda>c. if ce_logging env then bindM (on_world (ce_finalize env summary)) (\<lambda>path. returnM (Some path)) c
                else (Inr None, c)) (\<lambda>path.
     bindM (\<lambda>c. if path \<noteq> None then on_world (ce_dashboard env) c else (Inr (), c)) (\<lambda>_.
       returnM \<lparr>ci_scenario_name = so_name s, ci_seed = so_seed s, ci_plant_samples = cl_plant_samples c,
         ci_estimates = cl_estimates c, ci_controller_commands = cl_controller_commands c, ci_metric_summary = m,
         ci_summary = summary, ci_run_path = path\<rparr>))) c)"

definition cil_body :: "('f, 'r, 'x) cil_env \<Rightarrow> scenario \<Rightarrow> int \<Rightarrow> ('f, 'r, 'x, cil_result) cil_meth" where
  "cil_body env s timeout =
     bindM (on_session (cil_handshake (ce_react env))) (\<lambda>events.
     bindM (log_all env (session_event_records 0 0 events)) (\<lambda>_.
     bindM (on_session (send_scenario_route (ce_react env) s 0)) (\<lambda>_.
     bindM (liftM (step_count s)) (\<lambda>n.
     bindM (cil_loop env s timeout n [0..<nat n + 1]) (\<lambda>_. finish_run env s)))))"

text \<open>\<^verbatim>\<open>except BaseException\<close> closes the log as incomplete and raises again; \<^verbatim>\<open>finally\<close> closes the session.\<close>

definition cil_guarded :: "('f, 'r, 'x) cil_env \<Rightarrow> ('f, 'r, 'x, 'a) cil_meth \<Rightarrow> ('f, 'r, 'x, 'a) cil_meth" where
  "cil_guarded env body c =
     (case body c of
        (r, c1) \<Rightarrow>
          (case (case r of
                   Inr v \<Rightarrow> (Inr v, c1)
                 | Inl e \<Rightarrow>
                     if ce_logging env then
                       (case on_world (ce_close_incomplete env) c1 of (Inl e', c2) \<Rightarrow> (Inl e', c2) | (Inr _, c2) \<Rightarrow> (Inl e, c2))
                     else (Inl e, c1)) of
             (r2, c2) \<Rightarrow>
               (case on_session (session_close (cil_ops (ce_react env))) c2 of
                  (Inl e', c3) \<Rightarrow> (Inl e', c3)
                | (Inr _, c3) \<Rightarrow> (r2, c3))))"

definition initial_cil :: "'f cil_session \<Rightarrow> 'r sensor_pipeline \<Rightarrow> 'x \<Rightarrow> vehicle_state \<Rightarrow> ('f, 'r, 'x) cil" where
  "initial_cil session sensors world state =
     \<lparr>cl_session = session, cl_sensors = sensors, cl_world = world, cl_state = state, cl_plant_samples = [],
      cl_estimates = [], cl_controller_commands = [], cl_health_samples = [], cl_round_trip_ms = [],
      cl_safety_counts = [], cl_navigation_counts = [], cl_active_fault_steps = [], cl_protocol_errors = 0,
      cl_manual_stop_sent = False, cl_held = nothing_held, cl_guard_active = False, cl_guard_steps = 0,
      cl_last_safety_state = None, cl_last_navigation_mode = None\<rparr>"

definition new_session :: "bool \<Rightarrow> 'f \<Rightarrow> 'f cil_session result" where
  "new_session runnable f =
     bindR (NativeFirmwareTransport runnable f) (\<lambda>native.
       HostSession (DeterministicFaultTransport native) default_session_config)"

definition check_route :: "scenario \<Rightarrow> unit result" where
  "check_route s =
     bindR (guardR (so_route s = []) ValueError) (\<lambda>_. guardR (32 < length (so_route s)) ValueError)"

text \<open>
  The result or exception, the outer world, and the loop's variables if the \<^verbatim>\<open>try\<close> block was entered.
\<close>

definition run_closed_loop ::
  "('f, 'r, 'x) cil_env \<Rightarrow> scenario \<Rightarrow> bool \<Rightarrow> 'f \<Rightarrow> 'x \<Rightarrow> cil_result result \<times> 'x \<times> ('f, 'r, 'x) cil option" where
  "run_closed_loop env s runnable f world =
     (case bindR (check_route s) (\<lambda>_.
             SensorPipeline (ce_sensors env) (so_dt_s s) (so_vehicle s) (so_sensors s) (so_landmarks s) (so_faults s)
               (so_seed s)) of
        Inl e \<Rightarrow> (Inl e, world, None)
      | Inr sensors \<Rightarrow>
          (case (if ce_logging env then ce_open env world else (Inr (), world)) of
             (Inl e, world1) \<Rightarrow> (Inl e, world1, None)
           | (Inr _, world1) \<Rightarrow>
               (case bindR (command_timeout_steps (so_dt_s s)) (\<lambda>timeout.
                       bindR (new_session runnable f) (\<lambda>session. Inr (timeout, session))) of
                  Inl e \<Rightarrow> (Inl e, world1, None)
                | Inr (timeout, session) \<Rightarrow>
                    (case cil_guarded env (cil_body env s timeout)
                            (initial_cil session sensors world1 (so_initial_state s)) of
                       (r, c) \<Rightarrow> (r, cl_world c, Some c)))))"

end
