(* ===== verification/Cil_Replay.thy ===== *)
theory Cil_Replay
  imports Closed_Loop
begin

text \<open>
  \<^verbatim>\<open>replay_native_run\<close> of \<^verbatim>\<open>cil.py\<close>: the recorded measurements of a run are fed to the native firmware
  again, and its estimates and commands are compared with the recorded ones. What is read from the run
  is a parameter here.
\<close>

section \<open>The recording\<close>

record recorded_run =
  rr_is_complete :: bool
  rr_config :: pyval
  rr_manifest :: pydict
  rr_measurements :: "measurement stream"
  rr_estimates :: "pydict stream"
  rr_commands :: "command_record stream"

text \<open>\<^verbatim>\<open>isinstance(value, bool) or not isinstance(value, (int, float)) or not isfinite(float(value))\<close>\<close>

definition finite_replay_number :: "pyval \<Rightarrow> f64 result" where
  "finite_replay_number v =
     (case v of
        V_Int n \<Rightarrow> float_of_int n
      | V_Float x \<Rightarrow> finite_real x
      | _ \<Rightarrow> Inl ValueError)"

definition finite_replay_value :: "pydict \<Rightarrow> string \<Rightarrow> f64 result" where
  "finite_replay_value d name =
     (case dict_get name d of None \<Rightarrow> Inl KeyError | Some v \<Rightarrow> finite_replay_number v)"

definition replay_values :: "string list" where
  "replay_values = [''x_m'', ''y_m'', ''heading_rad'', ''speed_mps'', ''yaw_rate_rad_s'', ''acceleration_bias_mps2'']"

definition estimate_fields :: "string list" where
  "estimate_fields = [''step_id'', ''time_s''] @ replay_values @ [''navigation_mode'', ''covariance_diagonal'']"

definition replay_covariance :: "pydict \<Rightarrow> f64 list result" where
  "replay_covariance d =
     (case dict_get ''covariance_diagonal'' d of
        Some (V_List vs) \<Rightarrow> if length vs \<noteq> 6 then Inl ValueError else sequenceR (map finite_replay_number vs)
      | None \<Rightarrow> Inl KeyError
      | _ \<Rightarrow> Inl ValueError)"

definition estimate_step :: "pydict \<Rightarrow> int result" where
  "estimate_step d =
     (if set (map fst d) \<noteq> set estimate_fields then Inl ValueError
      else case dict_get ''step_id'' d of Some (V_Int n) \<Rightarrow> Inr n | _ \<Rightarrow> Inl ValueError)"

definition check_estimate :: "pydict \<Rightarrow> unit result" where
  "check_estimate d =
     bindR (finite_replay_value d ''time_s'') (\<lambda>_.
     bindR (sequenceR (map (finite_replay_value d) replay_values)) (\<lambda>_.
     bindR (replay_covariance d) (\<lambda>_.
       case dict_get ''navigation_mode'' d of Some (V_Str _) \<Rightarrow> Inr () | _ \<Rightarrow> Inl ValueError)))"

text \<open>The dict of the loop, in the order of insertion; the records are checked one by one.\<close>

fun index_estimates :: "(int \<times> pydict) list \<Rightarrow> pydict list \<Rightarrow> (int \<times> pydict) list result" where
  "index_estimates indexed [] = Inr indexed"
| "index_estimates indexed (d # ds) =
     bindR (estimate_step d) (\<lambda>step.
     bindR (guardR (step \<in> set (map fst indexed)) ValueError) (\<lambda>_.
     bindR (check_estimate d) (\<lambda>_. index_estimates (indexed @ [(step, d)]) ds)))"

fun index_commands :: "(int \<times> command_record) list \<Rightarrow> command_record list \<Rightarrow> (int \<times> command_record) list result" where
  "index_commands indexed [] = Inr indexed"
| "index_commands indexed (r # rs) =
     bindR (guardR (cr_source r \<notin> {''embedded_cpp'', ''host_command_timeout_safe_stop''}) ValueError) (\<lambda>_.
     bindR (guardR (cr_step_id r \<in> set (map fst indexed)) ValueError) (\<lambda>_.
       index_commands (indexed @ [(cr_step_id r, r)]) rs))"

text \<open>An error of the stream shows once the records before it are checked; every step must be there.\<close>

definition cover_steps :: "int \<Rightarrow> py_exn option \<Rightarrow> (int \<times> 'a) list \<Rightarrow> (int \<times> 'a) list result" where
  "cover_steps steps ending indexed =
     (case ending of
        Some e \<Rightarrow> Inl e
      | None \<Rightarrow> if set (map fst indexed) \<noteq> {0..steps} then Inl ValueError else Inr indexed)"

definition indexed_estimates :: "pydict stream \<Rightarrow> int \<Rightarrow> (int \<times> pydict) list result" where
  "indexed_estimates s steps = bindR (index_estimates [] (fst s)) (cover_steps steps (snd s))"

definition indexed_commands :: "command_record stream \<Rightarrow> int \<Rightarrow> (int \<times> command_record) list result" where
  "indexed_commands s steps = bindR (index_commands [] (fst s)) (cover_steps steps (snd s))"

section \<open>The comparison\<close>

fun maximum :: "f64 list \<Rightarrow> f64" where
  "maximum [] = 0"
| "maximum (x # xs) = foldl fmax x xs"

definition estimate_values :: "state_estimate_payload \<Rightarrow> f64 list" where
  "estimate_values e =
     [se_x_m e, se_y_m e, se_heading_rad e, se_speed_mps e, se_yaw_rate_rps e, se_acceleration_bias_mps2 e]
     @ se_covariance_diagonal e"

definition estimate_replay_error :: "state_estimate_payload \<Rightarrow> pydict \<Rightarrow> (f64 \<times> bool) result" where
  "estimate_replay_error actual expected =
     bindR (sequenceR (map (finite_replay_value expected) replay_values)) (\<lambda>values.
     bindR (replay_covariance expected) (\<lambda>covariance.
       let ys = values @ covariance; xs = estimate_values actual
       in if length xs \<noteq> length ys then Inl ValueError
          else Inr (maximum (map (\<lambda>(x, y). fabs (fsub x y)) (zip xs ys)),
                    dict_get ''navigation_mode'' expected = Some (V_Str (NavigationMode_name (se_navigation_mode actual))))))"

definition command_replay_error :: "control_command_payload \<Rightarrow> string \<Rightarrow> command_record \<Rightarrow> f64 \<times> bool" where
  "command_replay_error actual source expected =
     (maximum
        [fabs (fsub (cc_steering_rad actual) (cm_steering_rad (cr_command expected))),
         fabs (fsub (cc_acceleration_mps2 actual) (cm_acceleration_mps2 (cr_command expected))),
         fabs (fsub (cc_target_speed_mps actual) (cr_target_speed_mps expected))],
      runlog_command_mode (cc_mode actual) = cr_mode expected \<and> cc_flags actual = cr_flags expected
      \<and> source = cr_source expected)"

record replay_figures =
  rf_estimate_mismatches :: nat
  rf_command_mismatches :: nat
  rf_maximum_estimate_error :: f64
  rf_maximum_command_error :: f64

definition compare_step ::
  "f64 \<Rightarrow> state_estimate_payload \<Rightarrow> control_command_payload \<Rightarrow> string \<Rightarrow> pydict \<Rightarrow> command_record \<Rightarrow>
     replay_figures \<Rightarrow> replay_figures result" where
  "compare_step tolerance estimate command source logged_estimate logged_command f =
     bindR (estimate_replay_error estimate logged_estimate) (\<lambda>(estimate_error, mode_matches).
       case command_replay_error command source logged_command of
         (command_error, semantics_match) \<Rightarrow>
           Inr \<lparr>rf_estimate_mismatches = rf_estimate_mismatches f
                  + (if flt tolerance estimate_error \<or> \<not> mode_matches then 1 else 0),
                rf_command_mismatches = rf_command_mismatches f
                  + (if flt tolerance command_error \<or> \<not> semantics_match then 1 else 0),
                rf_maximum_estimate_error = fmax (rf_maximum_estimate_error f) estimate_error,
                rf_maximum_command_error = fmax (rf_maximum_command_error f) command_error\<rparr>)"

section \<open>The replay\<close>

record 'f cil_replay =
  rp_session :: "'f cil_session"
  rp_held :: held
  rp_manual_stop_sent :: bool
  rp_measurements_replayed :: nat
  rp_figures :: replay_figures

definition on_replay :: "('f cil_session, 'a) meth \<Rightarrow> ('f cil_replay, 'a) meth" where
  "on_replay m p = (case m (rp_session p) of (r, s) \<Rightarrow> (r, p\<lparr>rp_session := s\<rparr>))"

text \<open>What the replay reads of the recording.\<close>

record replay_input =
  ri_scenario :: scenario
  ri_measurements :: "measurement list"
  ri_estimates :: "(int \<times> pydict) list"
  ri_commands :: "(int \<times> command_record) list"
  ri_timeout :: int
  ri_tolerance :: f64

text \<open>\<^verbatim>\<open>delivered_by_step.get(step_id, [])\<close>\<close>

definition delivered_at :: "measurement list \<Rightarrow> int \<Rightarrow> measurement list" where
  "delivered_at ms step = filter (\<lambda>m. mt_delivery_step_id (times_of m) = step) ms"

definition replay_reconnect ::
  "'f reaction \<Rightarrow> scenario \<Rightarrow> int \<Rightarrow> int \<Rightarrow> link_fault_state \<Rightarrow> ('f cil_session, unit) meth" where
  "replay_reconnect react s step now_ms st w =
     (if sn_state w = ST_TIMED_OUT \<and> link_is_healthy st then
        bindM (reconnect_and_poll react now_ms) (\<lambda>_. resend_route react s step) w
      else (Inr (), w))"

definition replay_compare :: "replay_input \<Rightarrow> int \<Rightarrow> session_event list \<Rightarrow> ('f cil_replay, unit) meth" where
  "replay_compare i step events p =
     (let h = fold (hold_event (ri_timeout i) step) events (rp_held p)
      in case effective_command (ri_timeout i) (vp_max_deceleration_mps2 (so_vehicle (ri_scenario i))) step h of
           (effective, source) \<Rightarrow>
             (case (map_of (ri_estimates i) step, map_of (ri_commands i) step) of
                (Some e, Some c) \<Rightarrow>
                  bindM (liftM (compare_step (ri_tolerance i) (hd_estimate h) effective source e c (rp_figures p)))
                    (\<lambda>f. modifyM (\<lambda>p. p\<lparr>rp_figures := f\<rparr>)) (p\<lparr>rp_held := h\<rparr>)
              | _ \<Rightarrow> (Inl KeyError, p\<lparr>rp_held := h\<rparr>)))"

definition replay_traffic ::
  "'f reaction \<Rightarrow> replay_input \<Rightarrow> int \<Rightarrow> f64 \<Rightarrow> ('f cil_replay, session_event list) meth" where
  "replay_traffic react i step time_s =
     (let s = ri_scenario i; delivered = delivered_at (ri_measurements i) step in
      bindM (liftM (time_ms time_s)) (\<lambda>now_ms.
      bindM (on_replay (prepare_link react s step time_s now_ms)) (\<lambda>st.
      bindM (on_replay (replay_reconnect react s step now_ms st)) (\<lambda>_.
      bindM (modifyM (\<lambda>p. p\<lparr>rp_measurements_replayed := rp_measurements_replayed p + length delivered\<rparr>)) (\<lambda>_.
      bindM (\<lambda>p. on_replay (manual_stop react s step time_s (rp_manual_stop_sent p)) p) (\<lambda>sent.
      bindM (modifyM (\<lambda>p. p\<lparr>rp_manual_stop_sent := sent\<rparr>)) (\<lambda>_.
        on_replay (cil_exchange react s step time_s now_ms st sent delivered))))))))"

definition replay_step :: "'f reaction \<Rightarrow> replay_input \<Rightarrow> int \<Rightarrow> ('f cil_replay, unit) meth" where
  "replay_step react i step =
     bindM (liftM (time_of_step (so_dt_s (ri_scenario i)) step)) (\<lambda>time_s.
     bindM (replay_traffic react i step time_s) (replay_compare i step))"

fun replay_loop :: "'f reaction \<Rightarrow> replay_input \<Rightarrow> nat list \<Rightarrow> ('f cil_replay, unit) meth" where
  "replay_loop react i [] = returnM ()"
| "replay_loop react i (k # ks) = bindM (replay_step react i (int k)) (\<lambda>_. replay_loop react i ks)"

text \<open>The \<^verbatim>\<open>try\<close> block, and its \<^verbatim>\<open>finally\<close>.\<close>

definition replay_body :: "'f reaction \<Rightarrow> replay_input \<Rightarrow> ('f cil_replay, unit) meth" where
  "replay_body react i =
     bindM (on_replay (cil_handshake react)) (\<lambda>_.
     bindM (on_replay (send_scenario_route react (ri_scenario i) 0)) (\<lambda>_.
     bindM (liftM (step_count (ri_scenario i))) (\<lambda>n. replay_loop react i [0..<nat n + 1])))"

definition replay_guarded :: "'f reaction \<Rightarrow> ('f cil_replay, unit) meth \<Rightarrow> ('f cil_replay, unit) meth" where
  "replay_guarded react body p =
     (case body p of
        (r, p1) \<Rightarrow>
          (case on_replay (session_close (cil_ops react)) p1 of
             (Inl e, p2) \<Rightarrow> (Inl e, p2)
           | (Inr _, p2) \<Rightarrow> (r, p2)))"

record native_replay_result =
  nr_steps_replayed :: int
  nr_measurements_replayed :: int
  nr_post_run_measurements_ignored :: int
  nr_estimate_mismatches :: int
  nr_command_mismatches :: int
  nr_maximum_estimate_error :: f64
  nr_maximum_command_error :: f64

definition deterministic_match :: "native_replay_result \<Rightarrow> bool" where
  "deterministic_match r \<longleftrightarrow> nr_estimate_mismatches r = 0 \<and> nr_command_mismatches r = 0"

definition replay_dict :: "native_replay_result \<Rightarrow> pydict" where
  "replay_dict r =
     [(''steps_replayed'', V_Int (nr_steps_replayed r)), (''measurements_replayed'', V_Int (nr_measurements_replayed r)),
      (''post_run_measurements_ignored'', V_Int (nr_post_run_measurements_ignored r)),
      (''estimate_mismatches'', V_Int (nr_estimate_mismatches r)), (''command_mismatches'', V_Int (nr_command_mismatches r)),
      (''maximum_estimate_error'', V_Float (nr_maximum_estimate_error r)),
      (''maximum_command_error'', V_Float (nr_maximum_command_error r)),
      (''deterministic_match'', V_Bool (deterministic_match r)),
      (''input_scope'', V_Str ''recorded sensor measurements and route/reference only'')]"

definition replay_result_of :: "replay_input \<Rightarrow> int \<Rightarrow> 'f cil_replay \<Rightarrow> native_replay_result" where
  "replay_result_of i n p =
     \<lparr>nr_steps_replayed = n + 1, nr_measurements_replayed = int (rp_measurements_replayed p),
      nr_post_run_measurements_ignored = int (length (ri_measurements i)) - int (rp_measurements_replayed p),
      nr_estimate_mismatches = int (rf_estimate_mismatches (rp_figures p)),
      nr_command_mismatches = int (rf_command_mismatches (rp_figures p)),
      nr_maximum_estimate_error = rf_maximum_estimate_error (rp_figures p),
      nr_maximum_command_error = rf_maximum_command_error (rp_figures p)\<rparr>"

definition initial_replay :: "'f cil_session \<Rightarrow> 'f cil_replay" where
  "initial_replay session =
     \<lparr>rp_session = session, rp_held = nothing_held, rp_manual_stop_sent = False, rp_measurements_replayed = 0,
      rp_figures = \<lparr>rf_estimate_mismatches = 0, rf_command_mismatches = 0,
        rf_maximum_estimate_error = 0, rf_maximum_command_error = 0\<rparr>\<rparr>"

text \<open>The checks before the firmware is started; \<open>hash\<close> is the digest of the executable.\<close>

definition check_binary :: "pydict \<Rightarrow> string result \<Rightarrow> unit result" where
  "check_binary manifest hash =
     bindR hash (\<lambda>supplied.
       guardR (dict_get ''controller_binary_sha256'' manifest \<notin> {None, Some V_None, Some (V_Str supplied)}) ValueError)"

definition replay_input_of :: "recorded_run \<Rightarrow> f64 \<Rightarrow> string result \<Rightarrow> replay_input result" where
  "replay_input_of run tolerance hash =
     bindR (guardR (\<not> rr_is_complete run) ValueError) (\<lambda>_.
     bindR (guardR (\<not> isfinite tolerance \<or> flt tolerance 0) ValueError) (\<lambda>_.
     bindR (scenario_from_mapping (rr_config run)) (\<lambda>s.
     bindR (check_route s) (\<lambda>_.
     bindR (check_binary (rr_manifest run) hash) (\<lambda>_.
     bindR (all_of (rr_measurements run)) (\<lambda>measurements.
     bindR (step_count s) (\<lambda>n.
     bindR (indexed_estimates (rr_estimates run) n) (\<lambda>estimates.
     bindR (indexed_commands (rr_commands run) n) (\<lambda>commands.
     bindR (command_timeout_steps (so_dt_s s)) (\<lambda>timeout.
       Inr \<lparr>ri_scenario = s, ri_measurements = measurements, ri_estimates = estimates, ri_commands = commands,
            ri_timeout = timeout, ri_tolerance = tolerance\<rparr>))))))))))"

text \<open>The result, and the variables of the loop if the \<^verbatim>\<open>try\<close> block was entered.\<close>

definition replay_native_run ::
  "'f reaction \<Rightarrow> recorded_run \<Rightarrow> f64 \<Rightarrow> string result \<Rightarrow> bool \<Rightarrow> 'f \<Rightarrow> native_replay_result result \<times> 'f cil_replay option" where
  "replay_native_run react run tolerance hash runnable f =
     (case bindR (replay_input_of run tolerance hash) (\<lambda>i. bindR (new_session runnable f) (\<lambda>session. Inr (i, session))) of
        Inl e \<Rightarrow> (Inl e, None)
      | Inr (i, session) \<Rightarrow>
          (case replay_guarded react (replay_body react i) (initial_replay session) of
             (r, p) \<Rightarrow> (bindR r (\<lambda>_. bindR (step_count (ri_scenario i)) (\<lambda>n. Inr (replay_result_of i n p))), Some p)))"

end
