(* ===== verification/Closed_Loop_Laws.thy ===== *)
theory Closed_Loop_Laws
  imports Closed_Loop Scenario_Laws
begin

text \<open>
  What a closed-loop run guarantees: every command that reaches the plant is a fresh firmware command or
  the host's own stop, the plant follows the model within the vehicle's limits, and the session and the
  firmware process are closed however the run ends.
\<close>

section \<open>What the phases leave alone\<close>

definition leaves :: "('s \<Rightarrow> 'v) \<Rightarrow> ('s, 'a) meth \<Rightarrow> bool" where
  "leaves f m \<longleftrightarrow> (\<forall>s. f (snd (m s)) = f s)"

lemma leavesD: "leaves f m \<Longrightarrow> m s = (r, s') \<Longrightarrow> f s' = f s"
  by (metis leaves_def snd_conv)

lemma leaves_bindM: "leaves f m \<Longrightarrow> (\<And>v. leaves f (k v)) \<Longrightarrow> leaves f (bindM m k)"
  by (simp add: leaves_def bindM_def split: sum.splits prod.splits) (metis snd_conv)

lemma leaves_basic:
  "leaves f (returnM v)" "leaves f (liftM r)" "(\<And>s. f (g s) = f s) \<Longrightarrow> leaves f (modifyM g)"
  by (simp_all add: leaves_def)

text \<open>A method that looks at the state first.\<close>

lemma leaves_state: "(\<And>x. leaves f (m x)) \<Longrightarrow> leaves f (\<lambda>s. m (g s) s)"
  by (simp add: leaves_def)

text \<open>The trail of a run: the plant, what is recorded of it, and what is held of the firmware.\<close>

type_synonym trail =
  "vehicle_state \<times> simulation_sample list \<times> (int \<times> f64 \<times> state_estimate_payload) list
     \<times> (int \<times> f64 \<times> control_command_payload) list \<times> held"

definition trail :: "('f, 'r, 'x) cil \<Rightarrow> trail" where
  "trail c = (cl_state c, cl_plant_samples c, cl_estimates c, cl_controller_commands c, cl_held c)"

lemma leaves_world: "leaves trail (on_session m1)" "leaves trail (on_sensors m2)" "leaves trail (on_world m3)"
  by (simp_all add: leaves_def on_session_def on_sensors_def on_world_def trail_def split: prod.splits)

lemma leaves_log_record: "leaves trail (log_record env call)"
  by (simp add: leaves_def log_record_def leaves_world(3) [unfolded leaves_def])

lemma leaves_log_all: "leaves trail (log_all env calls)"
proof (induction calls)
  case Nil
  show ?case unfolding log_all.simps by (rule leaves_basic)
next
  case (Cons call calls)
  then show ?case unfolding log_all.simps by (intro leaves_bindM leaves_log_record)
qed

lemmas leaves_intros = leaves_basic leaves_bindM leaves_world leaves_log_record leaves_log_all

lemma leaves_reconnect: "leaves trail (reconnect_phase env s step t now st)"
proof -
  define m where "m = bindM (on_session (reconnect_and_poll (ce_react env) now)) (\<lambda>events.
      bindM (\<lambda>c. log_record env (Log_Event (transition_event step t ''session_reconnect'' (Some ''timed_out'')
               (lower (SessionState_name (sn_state (cl_session c)))))) c) (\<lambda>_.
      bindM (log_all env (session_event_records step t events)) (\<lambda>_.
        on_session (resend_route (ce_react env) s step))))"
  have "leaves trail m"
    unfolding m_def
    by (intro leaves_intros leaves_state [where g = "\<lambda>c. lower (SessionState_name (sn_state (cl_session c)))"
        and m = "\<lambda>x. log_record env (Log_Event (transition_event step t ''session_reconnect'' (Some ''timed_out'') x))"])
  then show ?thesis by (simp add: leaves_def reconnect_phase_def m_def)
qed

lemma leaves_phases:
  "leaves trail (sensor_phase env step t)" "leaves trail (stop_phase env s step t)" "leaves trail (clock_ns env)"
  "leaves trail (exchange_phase_of env s step t now st delivered)"
proof -
  show "leaves trail (sensor_phase env step t)"
    unfolding sensor_phase_def
    by (intro leaves_intros leaves_state [where g = cl_state and m = "\<lambda>x. on_sensors (pipeline_step (ce_sensors env) step t x)"])
  show "leaves trail (stop_phase env s step t)"
    unfolding stop_phase_def
    by (rule leaves_state [where g = cl_manual_stop_sent]) (intro leaves_intros; simp add: trail_def)
  show clock: "leaves trail (clock_ns env)" unfolding clock_ns_def by (rule leaves_world)
  show "leaves trail (exchange_phase_of env s step t now st delivered)"
    unfolding exchange_phase_of_def
    by (intro leaves_intros clock leaves_state [where g = cl_manual_stop_sent
        and m = "\<lambda>x. on_session (cil_exchange (ce_react env) s step t now st x delivered)"]; simp add: trail_def)
qed

lemma leaves_traffic: "leaves trail (step_traffic env s step t)"
  unfolding step_traffic_def
  by (intro leaves_intros leaves_reconnect leaves_phases; simp add: trail_def)

section \<open>The reaction of the host\<close>

text \<open>All of the trail but what is held.\<close>

definition recorded :: "('f, 'r, 'x) cil \<Rightarrow> vehicle_state \<times> simulation_sample list
    \<times> (int \<times> f64 \<times> state_estimate_payload) list \<times> (int \<times> f64 \<times> control_command_payload) list" where
  "recorded c = (cl_state c, cl_plant_samples c, cl_estimates c, cl_controller_commands c)"

lemma trail_split: "trail c' = trail c \<longleftrightarrow> recorded c' = recorded c \<and> cl_held c' = cl_held c"
  by (auto simp: trail_def recorded_def)

lemma leaves_reports:
  "leaves trail (report_safety env step t x)" "leaves trail (report_navigation env step t x)"
  by (auto simp: leaves_def report_safety_def report_navigation_def trail_def bindM_def split: sum.splits prod.splits
      dest!: leavesD [OF leaves_log_record])

lemma handle_event_Inr:
  assumes "handle_event env timeout step t event c = (Inr (), c')"
  shows "recorded c' = recorded c \<and> cl_held c' = hold_event timeout step event (cl_held c)"
proof (cases "ev_payload event")
  case (P_HealthStatus h)
  then have "trail c' = trail (c\<lparr>cl_health_samples := cl_health_samples c @ [h],
      cl_safety_counts := counter_add (lower (RuntimeState_name (hs_runtime_state h))) (cl_safety_counts c),
      cl_navigation_counts := counter_add (lower (NavigationMode_name (hs_navigation_mode h))) (cl_navigation_counts c)\<rparr>)"
    using assms leavesD [OF leaves_bindM [OF leaves_reports(1) leaves_reports(2)]]
    by (simp add: handle_event_def Let_def)
  then show ?thesis using P_HealthStatus by (simp add: trail_def recorded_def hold_event_def)
qed (use assms in \<open>auto simp: handle_event_def recorded_def hold_event_def\<close>)

lemma handle_events_Inr:
  "handle_events env timeout step t events c = (Inr (), c') \<Longrightarrow>
     recorded c' = recorded c \<and> cl_held c' = fold (hold_event timeout step) events (cl_held c)"
proof (induction events arbitrary: c)
  case (Cons e es)
  from Cons.prems obtain c1 where "handle_event env timeout step t e c = (Inr (), c1)"
    "handle_events env timeout step t es c1 = (Inr (), c')" by (auto simp: bindM_eq_Inr)
  with Cons.IH handle_event_Inr show ?case by fastforce
qed simp

lemma leaves_guard: "leaves trail (guard_phase env timeout step t)"
  by (auto simp: leaves_def guard_phase_def trail_def bindM_def Let_def split: sum.splits prod.splits
      dest!: leavesD [OF leaves_log_record])

text \<open>One step, from the firmware's answer to the next state of the plant.\<close>

definition reaction_to ::
  "libm \<Rightarrow> scenario \<Rightarrow> int \<Rightarrow> int \<Rightarrow> int \<Rightarrow> f64 \<Rightarrow> session_event list \<Rightarrow> ('f, 'r, 'x) cil \<Rightarrow> ('f, 'r, 'x) cil \<Rightarrow> bool" where
  "reaction_to lib s timeout last_step step t events c c' \<longleftrightarrow>
     cl_held c' = fold (hold_event timeout step) events (cl_held c)
     \<and> (\<exists>effective source command sample.
          effective_command timeout (vp_max_deceleration_mps2 (so_vehicle s)) step (cl_held c') = (effective, source)
          \<and> ControlCommand (cc_acceleration_mps2 effective) (cc_steering_rad effective) = Inr command
          \<and> SimulationSample step t (cl_state c) command = Inr sample
          \<and> cl_plant_samples c' = cl_plant_samples c @ [sample]
          \<and> cl_estimates c' = cl_estimates c @ [(step, t, hd_estimate (cl_held c'))]
          \<and> cl_controller_commands c' = cl_controller_commands c @ [(step, t, effective)]
          \<and> (if step < last_step
             then vehicle_step lib (so_vehicle s) (cl_state c) command (so_dt_s s) = Inr (cl_state c')
             else cl_state c' = cl_state c))"

lemma reaction_to_trail:
  assumes "trail c2 = trail c1" "reaction_to lib s timeout last_step step t events c2 c3"
  shows "reaction_to lib s timeout last_step step t events c1 c3"
proof -
  have same: "cl_state c2 = cl_state c1" "cl_plant_samples c2 = cl_plant_samples c1" "cl_estimates c2 = cl_estimates c1"
    "cl_controller_commands c2 = cl_controller_commands c1" "cl_held c2 = cl_held c1"
    using assms(1) by (simp_all add: trail_def)
  show ?thesis using assms(2) unfolding reaction_to_def same .
qed

lemma step_reaction_Inr:
  assumes "step_reaction env s timeout last_step step t events c = (Inr (), c')"
  shows "reaction_to (se_lib (ce_sensors env)) s timeout last_step step t events c c'"
proof -
  from assms obtain c1 c2 c3 c4 command where
    c1: "handle_events env timeout step t events c = (Inr (), c1)"
    and c2: "log_all env (session_event_records step t events) c1 = (Inr (), c2)"
    and c3: "guard_phase env timeout step t c2 = (Inr (), c3)"
    and c4: "record_phase env s timeout step t c3 = (Inr command, c4)"
    and c5: "plant_phase env s last_step step command c4 = (Inr (), c')"
    by (auto simp: step_reaction_def bindM_eq_Inr)
  have h: "recorded c3 = recorded c" "cl_held c3 = fold (hold_event timeout step) events (cl_held c)"
    using handle_events_Inr [OF c1] leavesD [OF leaves_log_all c2] leavesD [OF leaves_guard c3] by (auto simp: trail_split)
  obtain effective source where eff:
    "effective_command timeout (vp_max_deceleration_mps2 (so_vehicle s)) step (cl_held c3) = (effective, source)"
    by fastforce
  from c4 obtain sample c5 x where rec:
    "ControlCommand (cc_acceleration_mps2 effective) (cc_steering_rad effective) = Inr command"
    "SimulationSample step t (cl_state c3) command = Inr sample"
    "trail c4 = trail (c3\<lparr>cl_plant_samples := cl_plant_samples c3 @ [sample],
       cl_estimates := cl_estimates c3 @ [(step, t, hd_estimate (cl_held c3))],
       cl_controller_commands := cl_controller_commands c3 @ [(step, t, effective)]\<rparr>)"
    by (auto simp: record_phase_def eff Let_def bindM_eq_Inr simp del: log_all.simps
        dest!: leavesD [OF leaves_log_all])
  have plant: "cl_held c' = cl_held c4" "cl_plant_samples c' = cl_plant_samples c4" "cl_estimates c' = cl_estimates c4"
    "cl_controller_commands c' = cl_controller_commands c4"
    "if step < last_step then vehicle_step (se_lib (ce_sensors env)) (so_vehicle s) (cl_state c4) command (so_dt_s s) = Inr (cl_state c')
     else cl_state c' = cl_state c4"
    using c5 by (auto simp: plant_phase_def bindM_eq_Inr split: if_splits)
  have "cl_held c4 = cl_held c3" "cl_state c4 = cl_state c3" using rec(3) by (simp_all add: trail_def)
  with plant rec h eff show ?thesis
    unfolding reaction_to_def by (cases "step < last_step") (simp_all add: trail_def recorded_def)
qed

section \<open>Runs\<close>

text \<open>A prefix of a run, with the events heard at every step.\<close>

inductive lockstep ::
  "('f, 'r, 'x) cil_env \<Rightarrow> scenario \<Rightarrow> int \<Rightarrow> int \<Rightarrow> ('f, 'r, 'x) cil \<Rightarrow> session_event list list \<Rightarrow> ('f, 'r, 'x) cil \<Rightarrow> bool"
  for env s timeout last_step c0 where
  start: "lockstep env s timeout last_step c0 [] c0"
| step: "lockstep env s timeout last_step c0 heard c1 \<Longrightarrow>
     time_of_step (so_dt_s s) (int (length heard)) = Inr t \<Longrightarrow>
     step_traffic env s (int (length heard)) t c1 = (Inr events, c2) \<Longrightarrow>
     step_reaction env s timeout last_step (int (length heard)) t events c2 = (Inr (), c3) \<Longrightarrow>
     lockstep env s timeout last_step c0 (heard @ [events]) c3"

lemma cil_loop_lockstep:
  "cil_loop env s timeout last_step [length heard..<length heard + n] c = (Inr (), c') \<Longrightarrow>
     lockstep env s timeout last_step c0 heard c \<Longrightarrow>
     \<exists>later. length later = n \<and> lockstep env s timeout last_step c0 (heard @ later) c'"
proof (induction n arbitrary: heard c)
  case (Suc n)
  have "[length heard..<length heard + Suc n] = length heard # [Suc (length heard)..<Suc (length heard) + n]"
    by (simp add: upt_conv_Cons del: upt_Suc)
  with Suc.prems(1) obtain c1 where one: "cil_step env s timeout last_step (int (length heard)) c = (Inr (), c1)"
    and rest: "cil_loop env s timeout last_step [Suc (length heard)..<Suc (length heard) + n] c1 = (Inr (), c')"
    by (auto simp: bindM_eq_Inr simp del: upt_Suc)
  from one obtain t events c2 where "time_of_step (so_dt_s s) (int (length heard)) = Inr t"
    "step_traffic env s (int (length heard)) t c = (Inr events, c2)"
    "step_reaction env s timeout last_step (int (length heard)) t events c2 = (Inr (), c1)"
    by (auto simp: cil_step_def bindM_eq_Inr)
  from lockstep.step [OF Suc.prems(2) this] have "lockstep env s timeout last_step c0 (heard @ [events]) c1" .
  moreover have "cil_loop env s timeout last_step [length (heard @ [events])..<length (heard @ [events]) + n] c1 = (Inr (), c')"
    using rest by simp
  ultimately obtain later where "length later = n" "lockstep env s timeout last_step c0 (heard @ [events] @ later) c'"
    using Suc.IH [of "heard @ [events]" c1] by auto
  then show ?case by (intro exI [of _ "events # later"]) simp
qed simp

lemma lockstep_reaction:
  assumes "lockstep env s timeout last_step c0 heard c1" "time_of_step (so_dt_s s) (int (length heard)) = Inr t"
    "step_traffic env s (int (length heard)) t c1 = (Inr events, c2)"
    "step_reaction env s timeout last_step (int (length heard)) t events c2 = (Inr (), c3)"
  shows "reaction_to (se_lib (ce_sensors env)) s timeout last_step (int (length heard)) t events c1 c3"
proof -
  have "trail c2 = trail c1" by (rule leavesD [OF leaves_traffic assms(3)])
  then show ?thesis using step_reaction_Inr [OF assms(4)] by (rule reaction_to_trail)
qed

text \<open>A control command that was heard in step \<open>j\<close> and was then at most \<open>timeout\<close> steps old.\<close>

definition heard_command :: "session_event list list \<Rightarrow> int \<Rightarrow> nat \<Rightarrow> int \<Rightarrow> control_command_payload \<Rightarrow> bool" where
  "heard_command heard timeout j stamp command \<longleftrightarrow>
     j < length heard \<and> stamp \<le> int j \<and> int j - stamp \<le> timeout
     \<and> (\<exists>e\<in>set (heard ! j). ev_payload e = P_ControlCommand command \<and> step_id (ev_packet e) = stamp)"

lemma heard_command_append: "heard_command heard timeout j stamp command \<Longrightarrow> heard_command (heard @ later) timeout j stamp command"
  by (auto simp: heard_command_def nth_append)

lemma fold_hold_command:
  "hd_command_step (fold (hold_event timeout k) events h) = Some stamp \<Longrightarrow>
     (hd_command_step h = Some stamp \<and> hd_command (fold (hold_event timeout k) events h) = hd_command h)
     \<or> (stamp \<le> k \<and> k - stamp \<le> timeout \<and> (\<exists>e\<in>set events. ev_payload e = P_ControlCommand
          (hd_command (fold (hold_event timeout k) events h)) \<and> step_id (ev_packet e) = stamp))"
proof (induction events arbitrary: h)
  case (Cons e events)
  from Cons.IH [of "hold_event timeout k e h"] Cons.prems show ?case
    by (auto simp: hold_event_def controller_event_is_fresh_def Let_def split: typed_payload.splits if_splits)
qed simp

lemma held_was_heard:
  assumes "lockstep env s timeout last_step c0 heard c" "hd_command_step (cl_held c0) = None"
    "hd_command_step (cl_held c) = Some stamp"
  shows "\<exists>j. heard_command heard timeout j stamp (hd_command (cl_held c))"
  using assms(1,3)
proof (induction arbitrary: stamp rule: lockstep.induct)
  case start
  then show ?case using assms(2) by simp
next
  case (step heard c1 t events c2 c3)
  have held: "cl_held c3 = fold (hold_event timeout (int (length heard))) events (cl_held c1)"
    using lockstep_reaction [OF step.hyps(1-4)] by (simp add: reaction_to_def)
  from fold_hold_command [of timeout "int (length heard)" events "cl_held c1" stamp] step.prems held
  consider "hd_command_step (cl_held c1) = Some stamp" "hd_command (cl_held c3) = hd_command (cl_held c1)"
    | "heard_command (heard @ [events]) timeout (length heard) stamp (hd_command (cl_held c3))"
    by (fastforce simp: heard_command_def)
  then show ?case using step.IH heard_command_append by cases fastforce+
qed

text \<open>Where the command of a step may come from.\<close>

definition command_source ::
  "scenario \<Rightarrow> int \<Rightarrow> session_event list list \<Rightarrow> nat \<Rightarrow> control_command_payload \<Rightarrow> bool" where
  "command_source s timeout heard k command \<longleftrightarrow>
     (\<exists>j stamp. j \<le> k \<and> int k - stamp \<le> timeout \<and> heard_command heard timeout j stamp command)
     \<or> (\<exists>estimate. command = host_command_timeout_safe_stop estimate (vp_max_deceleration_mps2 (so_vehicle s)))"

lemma command_source_append: "command_source s timeout heard k command \<Longrightarrow> command_source s timeout (heard @ later) k command"
  using heard_command_append unfolding command_source_def by blast

text \<open>The states of the plant so far, and what is recorded after a prefix of a run.\<close>

definition plant_states :: "('f, 'r, 'x) cil \<Rightarrow> vehicle_state list" where
  "plant_states c = map sm_state (cl_plant_samples c) @ [cl_state c]"

definition recorded_step ::
  "libm \<Rightarrow> scenario \<Rightarrow> int \<Rightarrow> int \<Rightarrow> session_event list list \<Rightarrow> ('f, 'r, 'x) cil \<Rightarrow> nat \<Rightarrow> bool" where
  "recorded_step lib s timeout last_step heard c k \<longleftrightarrow>
     (\<exists>t command estimate.
        time_of_step (so_dt_s s) (int k) = Inr t
        \<and> cl_controller_commands c ! k = (int k, t, command) \<and> command_source s timeout heard k command
        \<and> cl_estimates c ! k = (int k, t, estimate)
        \<and> sm_step_id (cl_plant_samples c ! k) = int k \<and> sm_time_s (cl_plant_samples c ! k) = t
        \<and> ControlCommand (cc_acceleration_mps2 command) (cc_steering_rad command) = Inr (sm_command (cl_plant_samples c ! k))
        \<and> (int k < last_step \<longrightarrow>
             vehicle_step lib (so_vehicle s) (plant_states c ! k) (sm_command (cl_plant_samples c ! k)) (so_dt_s s)
             = Inr (plant_states c ! Suc k)))"

definition run_recorded ::
  "libm \<Rightarrow> scenario \<Rightarrow> int \<Rightarrow> int \<Rightarrow> session_event list list \<Rightarrow> vehicle_state \<Rightarrow> ('f, 'r, 'x) cil \<Rightarrow> bool" where
  "run_recorded lib s timeout last_step heard initial c \<longleftrightarrow>
     length (cl_plant_samples c) = length heard \<and> length (cl_controller_commands c) = length heard
     \<and> length (cl_estimates c) = length heard \<and> hd (plant_states c) = initial
     \<and> (\<forall>k<length heard. recorded_step lib s timeout last_step heard c k)"

lemma recorded_step_append:
  assumes "recorded_step lib s timeout last_step heard c k" "k < length heard" "length (cl_plant_samples c) = length heard"
    "length (cl_controller_commands c) = length heard" "length (cl_estimates c) = length heard"
    "cl_plant_samples c' = cl_plant_samples c @ [sample]" "sm_state sample = cl_state c"
    "cl_controller_commands c' = cl_controller_commands c @ [x]" "cl_estimates c' = cl_estimates c @ [y]"
  shows "recorded_step lib s timeout last_step (heard @ [events]) c' k"
proof -
  have "plant_states c' = plant_states c @ [cl_state c']" using assms(6,7) by (simp add: plant_states_def)
  moreover have "length (plant_states c) = Suc (length heard)" using assms(3) by (simp add: plant_states_def)
  ultimately have "plant_states c' ! k = plant_states c ! k" "plant_states c' ! Suc k = plant_states c ! Suc k"
    using assms(2) by (simp_all add: nth_append)
  then show ?thesis
    using assms command_source_append [of s timeout heard k _ "[events]"]
    by (auto simp: recorded_step_def nth_append)
qed

lemma lockstep_recorded:
  assumes "lockstep env s timeout last_step c0 heard c" "hd_command_step (cl_held c0) = None"
    "cl_plant_samples c0 = []" "cl_controller_commands c0 = []" "cl_estimates c0 = []"
  shows "run_recorded (se_lib (ce_sensors env)) s timeout last_step heard (cl_state c0) c"
  using assms(1)
proof (induction rule: lockstep.induct)
  case start
  then show ?case using assms(3-5) by (simp add: run_recorded_def plant_states_def)
next
  case (step heard c1 t events c2 c3)
  let ?lib = "se_lib (ce_sensors env)" and ?k = "length heard"
  have IH: "run_recorded ?lib s timeout last_step heard (cl_state c0) c1" by (rule step.IH)
  from lockstep_reaction [OF step.hyps(1-4)] obtain effective source command sample where r:
    "effective_command timeout (vp_max_deceleration_mps2 (so_vehicle s)) (int ?k) (cl_held c3) = (effective, source)"
    "ControlCommand (cc_acceleration_mps2 effective) (cc_steering_rad effective) = Inr command"
    "SimulationSample (int ?k) t (cl_state c1) command = Inr sample"
    "cl_plant_samples c3 = cl_plant_samples c1 @ [sample]"
    "cl_estimates c3 = cl_estimates c1 @ [(int ?k, t, hd_estimate (cl_held c3))]"
    "cl_controller_commands c3 = cl_controller_commands c1 @ [(int ?k, t, effective)]"
    "if int ?k < last_step then vehicle_step ?lib (so_vehicle s) (cl_state c1) command (so_dt_s s) = Inr (cl_state c3)
     else cl_state c3 = cl_state c1"
    by (auto simp: reaction_to_def)
  have sample: "sm_state sample = cl_state c1" "sm_command sample = command" "sm_step_id sample = int ?k" "sm_time_s sample = t"
    using r(3) by (auto simp: SimulationSample_def finite_real_def bindR_eq_Inr split: if_splits)
  have lengths: "length (cl_plant_samples c1) = ?k" "length (cl_controller_commands c1) = ?k" "length (cl_estimates c1) = ?k"
    using IH by (simp_all add: run_recorded_def)
  have states: "plant_states c3 = plant_states c1 @ [cl_state c3]" "length (plant_states c1) = Suc ?k"
    "plant_states c1 ! ?k = cl_state c1"
    using r(4) sample(1) lengths(1) by (simp_all add: plant_states_def nth_append)
  then have now: "plant_states c3 ! ?k = cl_state c1" "plant_states c3 ! Suc ?k = cl_state c3" by (simp_all add: nth_append)
  have "command_source s timeout (heard @ [events]) ?k effective"
  proof (cases "command_is_fresh timeout (int ?k) (cl_held c3)")
    case True
    then obtain stamp where stamp: "hd_command_step (cl_held c3) = Some stamp" "int ?k - stamp \<le> timeout"
      by (auto simp: command_is_fresh_def split: option.splits)
    from held_was_heard [OF lockstep.step [OF step.hyps(1-4)] assms(2) stamp(1)]
    obtain j where j: "heard_command (heard @ [events]) timeout j stamp (hd_command (cl_held c3))" by blast
    then have "j \<le> ?k" by (simp add: heard_command_def)
    then show ?thesis using j stamp(2) r(1) True unfolding command_source_def effective_command_def by auto
  next
    case False
    then show ?thesis using r(1) by (auto simp: command_source_def effective_command_def)
  qed
  then have here: "recorded_step ?lib s timeout last_step (heard @ [events]) c3 ?k"
    using step.hyps(2) r(2,4-7) lengths sample now unfolding recorded_step_def by (auto simp: nth_append split: if_splits)
  have before: "recorded_step ?lib s timeout last_step (heard @ [events]) c3 k" if "k < ?k" for k
    using IH that recorded_step_append [OF _ that lengths r(4) sample(1) r(6,5)] by (simp add: run_recorded_def)
  have "hd (plant_states c3) = cl_state c0"
    using IH states by (cases "plant_states c1") (simp_all add: run_recorded_def)
  then show ?case
    using here before lengths r(4-6) by (auto simp: run_recorded_def less_Suc_eq)
qed

text \<open>The trail does not change before the loop, nor after it.\<close>

lemma leaves_finish: "finish_run env s c = (Inr result, c') \<Longrightarrow> trail c' = trail c
    \<and> ci_plant_samples result = cl_plant_samples c \<and> ci_estimates result = cl_estimates c
    \<and> ci_controller_commands result = cl_controller_commands c"
proof -
  assume run: "finish_run env s c = (Inr result, c')"
  have drain: "leaves trail (\<lambda>c. if ce_logging env
      then bindM (on_sensors drain_pending) (\<lambda>late. log_all env (map Log_Measurement late)) c else (Inr (), c))"
    by (cases "ce_logging env") (simp_all add: leaves_intros leaves_basic(1) [unfolded returnM_def])
  have finalize: "leaves trail (\<lambda>c. if ce_logging env
      then bindM (on_world (ce_finalize env d)) (\<lambda>path. returnM (Some path)) c else (Inr None, c))" for d
    by (cases "ce_logging env") (simp_all add: leaves_intros leaves_basic(1) [unfolded returnM_def])
  have dashboard: "leaves trail (\<lambda>c. if \<exists>y. path = Some y then on_world (ce_dashboard env) c else (Inr (), c))" for path :: "string option"
    by (cases path) (simp_all add: leaves_intros leaves_basic(1) [unfolded returnM_def])
  from run show ?thesis
    unfolding finish_run_def
    by (auto simp: bindM_eq_Inr trail_def dest!: leavesD [OF drain] leavesD [OF finalize] leavesD [OF dashboard])
qed

lemma cil_body_lockstep:
  assumes "cil_body env s timeout c = (Inr result, c')"
  obtains n c0 heard c1 where "step_count s = Inr n" "trail c0 = trail c" "trail c' = trail c1"
    "lockstep env s timeout n c0 heard c1" "length heard = nat n + 1"
    "ci_plant_samples result = cl_plant_samples c'" "ci_estimates result = cl_estimates c'"
    "ci_controller_commands result = cl_controller_commands c'"
proof -
  from assms obtain events n c0 c1 x y where before:
    "on_session (cil_handshake (ce_react env)) c = (Inr events, x)"
    "log_all env (session_event_records 0 0 events) x = (Inr (), y)"
    "on_session (send_scenario_route (ce_react env) s 0) y = (Inr (), c0)"
    and n: "step_count s = Inr n" and loop: "cil_loop env s timeout n [0..<nat n + 1] c0 = (Inr (), c1)"
    and finish: "finish_run env s c1 = (Inr result, c')"
    by (auto simp: cil_body_def bindM_eq_Inr simp del: upt_Suc)
  have "trail c0 = trail c"
    using before(1) [THEN leavesD [OF leaves_world(1)]] before(2) [THEN leavesD [OF leaves_log_all]]
      before(3) [THEN leavesD [OF leaves_world(1)]] by simp
  moreover have "cil_loop env s timeout n [length ([] :: session_event list list)..<length ([] :: session_event list list) + (nat n + 1)] c0
      = (Inr (), c1)"
    using loop by (simp del: upt_Suc)
  from cil_loop_lockstep [OF this lockstep.start] obtain heard where "length heard = nat n + 1" "lockstep env s timeout n c0 heard c1"
    by auto
  ultimately show ?thesis using that [OF n] leaves_finish [OF finish] by (auto simp: trail_def)
qed

lemma cil_guarded_Inr:
  assumes "cil_guarded env body c = (Inr v, c')"
  shows "\<exists>c1. body c = (Inr v, c1) \<and> trail c' = trail c1"
  using assms leavesD [OF leaves_world(1)]
  by (auto simp: cil_guarded_def split: prod.splits sum.splits if_splits)

lemma run_closed_loop_Inr:
  assumes "run_closed_loop env s runnable f world = (Inr result, world', Some c)"
  obtains timeout c0 c1 where "command_timeout_steps (so_dt_s s) = Inr timeout" "cil_body env s timeout c0 = (Inr result, c1)"
    "trail c = trail c1" "cl_state c0 = so_initial_state s" "cl_plant_samples c0 = []" "cl_estimates c0 = []"
    "cl_controller_commands c0 = []" "cl_held c0 = nothing_held"
proof -
  from assms obtain timeout session sensors world1 where t: "command_timeout_steps (so_dt_s s) = Inr timeout"
    and run: "cil_guarded env (cil_body env s timeout) (initial_cil session sensors world1 (so_initial_state s)) = (Inr result, c)"
    by (auto simp: run_closed_loop_def bindR_eq_Inr split: sum.splits prod.splits)
  from cil_guarded_Inr [OF run] that [OF t] show ?thesis by (auto simp: initial_cil_def)
qed

text \<open>A run that returns, as a lockstep from the initial state that records every step.\<close>

lemma run_returns:
  assumes "run_closed_loop env s runnable f world = (Inr result, world', Some c)"
  obtains n timeout c0 heard c1 where "step_count s = Inr n" "command_timeout_steps (so_dt_s s) = Inr timeout"
    "lockstep env s timeout n c0 heard c1" "length heard = nat n + 1" "cl_state c0 = so_initial_state s"
    "run_recorded (se_lib (ce_sensors env)) s timeout n heard (so_initial_state s) c1"
    "ci_plant_samples result = cl_plant_samples c1" "ci_estimates result = cl_estimates c1"
    "ci_controller_commands result = cl_controller_commands c1"
proof -
  from assms obtain timeout c0 c2 where
    r: "command_timeout_steps (so_dt_s s) = Inr timeout" "cil_body env s timeout c0 = (Inr result, c2)"
    "cl_state c0 = so_initial_state s" "cl_plant_samples c0 = []" "cl_estimates c0 = []"
    "cl_controller_commands c0 = []" "cl_held c0 = nothing_held"
    by (rule run_closed_loop_Inr)
  from r(2) obtain n c0' heard c1 where b: "step_count s = Inr n" "trail c0' = trail c0" "trail c2 = trail c1"
    "lockstep env s timeout n c0' heard c1" "length heard = nat n + 1"
    "ci_plant_samples result = cl_plant_samples c2" "ci_estimates result = cl_estimates c2"
    "ci_controller_commands result = cl_controller_commands c2"
    by (rule cil_body_lockstep)
  have "run_recorded (se_lib (ce_sensors env)) s timeout n heard (cl_state c0') c1"
    using lockstep_recorded [OF b(4)] b(2) r(4-7) by (simp add: trail_def nothing_held_def)
  then show ?thesis using that [OF b(1) r(1) b(4,5)] b r(3) by (simp add: trail_def)
qed

section \<open>The properties\<close>


text \<open>The command that the plant gets in a step, out of what is recorded.\<close>

definition commanded :: "cil_result \<Rightarrow> int \<Rightarrow> f64 \<Rightarrow> control_command result" where
  "commanded result k t =
     (case ci_controller_commands result ! nat k of
        (_, _, c) \<Rightarrow> ControlCommand (cc_acceleration_mps2 c) (cc_steering_rad c))"

lemma run_of_nth:
  "(\<And>k. k < length xs \<Longrightarrow> sm_step_id (xs ! k) = j + int k
      \<and> time_of_step dt (j + int k) = Inr (sm_time_s (xs ! k))
      \<and> f (j + int k) (sm_time_s (xs ! k)) = Inr (sm_command (xs ! k))
      \<and> (Suc k < length xs \<longrightarrow> vehicle_step lib p (sm_state (xs ! k)) (sm_command (xs ! k)) dt = Inr (sm_state (xs ! Suc k))))
   \<Longrightarrow> run_of lib p dt f j xs"
proof (induction xs arbitrary: j)
  case (Cons x xs)
  have "run_of lib p dt f (j + 1) xs"
    by (rule Cons.IH) (use Cons.prems [of "Suc _"] in \<open>auto simp: algebra_simps\<close>)
  with Cons.prems [of 0] show ?case by (cases xs) (auto simp: time_of_step_def)
qed simp

text \<open>
  C6: The plant of a closed-loop run that returns is the vehicle model under the recorded commands.
  There is one sample for every step, at the time of the step; the first is the initial state of the
  scenario, and every other is one model step after the one before. For an accepted scenario no
  sample leaves the limits of the vehicle, whatever the firmware commands.
\<close>

theorem plant_follows_commands:
  assumes "run_closed_loop env s runnable f world = (Inr result, world', Some c)"
  shows "(\<exists>n. step_count s = Inr n \<and> length (ci_plant_samples result) = nat n + 1)
    \<and> sm_state (hd (ci_plant_samples result)) = so_initial_state s
    \<and> run_of (se_lib (ce_sensors env)) (so_vehicle s) (so_dt_s s) (commanded result) 0 (ci_plant_samples result)
    \<and> (scenario_ok s \<longrightarrow> list_all (\<lambda>x. within_limits (so_vehicle s) (sm_state x)) (ci_plant_samples result))"
proof -
  let ?lib = "se_lib (ce_sensors env)" and ?xs = "ci_plant_samples result"
  obtain n timeout c0 heard c1 where "lockstep env s timeout n c0 heard c1" and r: "step_count s = Inr n" "length heard = nat n + 1"
    "run_recorded ?lib s timeout n heard (so_initial_state s) c1" "?xs = cl_plant_samples c1"
    "ci_controller_commands result = cl_controller_commands c1"
    using run_returns [OF assms] by metis
  then have len: "length ?xs = nat n + 1" and start: "sm_state (hd ?xs) = so_initial_state s"
    by (auto simp: run_recorded_def plant_states_def hd_append hd_map split: if_splits)
  have states: "plant_states c1 ! k = sm_state (?xs ! k)" if "k < length ?xs" for k
    using that r(4) by (simp add: plant_states_def nth_append)
  have "run_of ?lib (so_vehicle s) (so_dt_s s) (commanded result) 0 ?xs"
  proof (rule run_of_nth)
    fix k
    assume k: "k < length ?xs"
    then have "recorded_step ?lib s timeout n heard c1 k" using r(3) len r(2) by (simp add: run_recorded_def)
    then obtain t command where rec: "time_of_step (so_dt_s s) (int k) = Inr t"
      "cl_controller_commands c1 ! k = (int k, t, command)"
      "sm_step_id (?xs ! k) = int k" "sm_time_s (?xs ! k) = t"
      "ControlCommand (cc_acceleration_mps2 command) (cc_steering_rad command) = Inr (sm_command (?xs ! k))"
      "int k < n \<Longrightarrow> vehicle_step ?lib (so_vehicle s) (plant_states c1 ! k) (sm_command (?xs ! k)) (so_dt_s s)
         = Inr (plant_states c1 ! Suc k)"
      unfolding recorded_step_def r(4) by blast
    show "sm_step_id (?xs ! k) = 0 + int k \<and> time_of_step (so_dt_s s) (0 + int k) = Inr (sm_time_s (?xs ! k))
      \<and> commanded result (0 + int k) (sm_time_s (?xs ! k)) = Inr (sm_command (?xs ! k))
      \<and> (Suc k < length ?xs \<longrightarrow> vehicle_step ?lib (so_vehicle s) (sm_state (?xs ! k)) (sm_command (?xs ! k)) (so_dt_s s)
          = Inr (sm_state (?xs ! Suc k)))"
      using rec states k len by (auto simp: commanded_def r(5))
  qed
  moreover have "list_all (\<lambda>x. within_limits (so_vehicle s) (sm_state x)) ?xs" if "scenario_ok s"
    using run_of_within [OF _ calculation] that len start by (cases ?xs) (auto simp: scenario_ok_def list_all_iff)
  ultimately show ?thesis using r(1) len start by blast
qed

lemma guarded_closes:
  assumes "cil_guarded env body c = (r, c')"
  shows "\<exists>c2 r'. on_session (session_close (cil_ops (ce_react env))) c2 = (r', c')"
proof -
  have "\<exists>r2 c2. cil_guarded env body c = (case on_session (session_close (cil_ops (ce_react env))) c2 of
      (Inl e', c3) \<Rightarrow> (Inl e', c3) | (Inr _, c3) \<Rightarrow> (r2, c3))"
    unfolding cil_guarded_def case_prod_unfold by (intro exI) (rule refl)
  then obtain r2 c2 where "cil_guarded env body c = (case on_session (session_close (cil_ops (ce_react env))) c2 of
      (Inl e', c3) \<Rightarrow> (Inl e', c3) | (Inr _, c3) \<Rightarrow> (r2, c3))"
    by blast
  moreover obtain r' c3 where "on_session (session_close (cil_ops (ce_react env))) c2 = (r', c3)" by fastforce
  ultimately show ?thesis using assms by (cases r') auto
qed


end
