(* ===== verification/Cil_Replay_Laws.thy ===== *)
theory Cil_Replay_Laws
  imports Cil_Replay Closed_Loop_Laws Sensor_Laws
begin

text \<open>
  A replay repeats the run it was recorded from. The logger is an interface: what a run records of its
  measurements, estimates and commands. Over any such logger the traffic of a step of the replay is that
  of the run, so the firmware answers the same and every comparison matches exactly.
\<close>

section \<open>What the logging leaves alone\<close>

definition apart :: "('f, 'r, 'x) cil \<Rightarrow> 'f cil_session \<times> bool \<times> 'r sensor_pipeline" where
  "apart c = (cl_session c, cl_manual_stop_sent c, cl_sensors c)"

lemma leaves_apart_world: "leaves apart (on_world m)"
  by (simp add: leaves_def on_world_def apart_def split: prod.splits)

lemma leaves_apart_log: "leaves apart (log_record env call)"
  by (simp add: leaves_def log_record_def leaves_apart_world [unfolded leaves_def])

lemma leaves_apart_log_all: "leaves apart (log_all env calls)"
proof (induction calls)
  case Nil
  show ?case unfolding log_all.simps by (rule leaves_basic)
next
  case (Cons call calls)
  then show ?case unfolding log_all.simps by (intro leaves_bindM leaves_apart_log)
qed

lemma leaves_apart_reports:
  "leaves apart (report_safety env step t x)" "leaves apart (report_navigation env step t x)"
  by (auto simp: leaves_def report_safety_def report_navigation_def apart_def bindM_def split: sum.splits prod.splits
      dest!: leavesD [OF leaves_apart_log])

lemma leaves_apart_event: "leaves apart (handle_event env timeout step t event)"
  unfolding handle_event_def Let_def
  by (cases "ev_payload event") (simp_all, (intro leaves_bindM leaves_basic leaves_apart_reports; simp add: apart_def)+)

lemma leaves_apart_events: "leaves apart (handle_events env timeout step t events)"
proof (induction events)
  case Nil
  show ?case unfolding handle_events.simps by (rule leaves_basic)
next
  case (Cons e es)
  then show ?case unfolding handle_events.simps by (intro leaves_bindM leaves_apart_event)
qed

lemma leaves_apart_phases:
  "leaves apart (guard_phase env timeout step t)" "leaves apart (record_phase env s timeout step t)"
  "leaves apart (plant_phase env s last_step step command)"
proof -
  show "leaves apart (guard_phase env timeout step t)"
    by (auto simp: leaves_def guard_phase_def apart_def bindM_def Let_def split: sum.splits prod.splits
        dest!: leavesD [OF leaves_apart_log])
  show "leaves apart (plant_phase env s last_step step command)"
    by (auto simp: leaves_def plant_phase_def apart_def bindM_def split: sum.splits prod.splits)
  show "leaves apart (record_phase env s timeout step t)"
    by (auto simp: leaves_def record_phase_def apart_def bindM_def Let_def simp del: log_all.simps split: sum.splits prod.splits
        dest!: leavesD [OF leaves_apart_log_all])
qed

lemma leaves_apart_reaction: "leaves apart (step_reaction env s timeout last_step step t events)"
  unfolding step_reaction_def
  by (intro leaves_bindM leaves_apart_events leaves_apart_log_all leaves_apart_phases)

section \<open>The traffic of a step, in a run and in its replay\<close>

lemma on_session_Inr:
  assumes "on_session m c = (Inr v, c')"
  shows "m (cl_session c) = (Inr v, cl_session c')" "cl_manual_stop_sent c' = cl_manual_stop_sent c"
    "cl_sensors c' = cl_sensors c" "cl_state c' = cl_state c" "cl_world c' = cl_world c"
  using assms by (auto simp: on_session_def split: prod.splits)

lemma reconnect_replayed:
  assumes "reconnect_phase env s step t now_ms st c = (Inr (), c')"
  shows "replay_reconnect (ce_react env) s step now_ms st (cl_session c) = (Inr (), cl_session c')
    \<and> cl_manual_stop_sent c' = cl_manual_stop_sent c \<and> cl_sensors c' = cl_sensors c \<and> cl_state c' = cl_state c"
proof (cases "sn_state (cl_session c) = ST_TIMED_OUT \<and> link_is_healthy st")
  case True
  with assms obtain events c1 c2 c3 where
    c1: "on_session (reconnect_and_poll (ce_react env) now_ms) c = (Inr events, c1)"
    and c2: "log_record env (Log_Event (transition_event step t ''session_reconnect'' (Some ''timed_out'')
               (lower (SessionState_name (sn_state (cl_session c1)))))) c1 = (Inr (), c2)"
    and c3: "log_all env (session_event_records step t events) c2 = (Inr (), c3)"
    and c4: "on_session (resend_route (ce_react env) s step) c3 = (Inr (), c')"
    by (auto simp: reconnect_phase_def bindM_eq_Inr)
  have "apart c3 = apart c1" "trail c3 = trail c1"
    using leavesD [OF leaves_apart_log c2] leavesD [OF leaves_apart_log_all c3]
      leavesD [OF leaves_log_record c2] leavesD [OF leaves_log_all c3] by simp_all
  then show ?thesis
    using on_session_Inr [OF c1] on_session_Inr [OF c4] True
    by (simp add: apart_def trail_def replay_reconnect_def bindM_def)
qed (use assms in \<open>auto simp: reconnect_phase_def replay_reconnect_def\<close>)

lemma sensor_phase_Inr:
  assumes "sensor_phase env step t c = (Inr delivered, c')"
  obtains sensors es where "pipeline_step (ce_sensors env) step t (cl_state c) (cl_sensors c) = (Inr delivered, sensors)"
    "drain_events sensors = (Inr es, cl_sensors c')" "cl_session c' = cl_session c"
    "cl_manual_stop_sent c' = cl_manual_stop_sent c"
proof -
  from assms obtain c1 c2 c3 es where
    c1: "on_sensors (pipeline_step (ce_sensors env) step t (cl_state c)) c = (Inr delivered, c1)"
    and c2: "log_all env (map Log_Measurement delivered) c1 = (Inr (), c2)"
    and c3: "on_sensors drain_events c2 = (Inr es, c3)"
    and c4: "log_all env (map Log_Sensor_Event es) c3 = (Inr (), c')"
    by (auto simp: sensor_phase_def bindM_eq_Inr)
  have same: "apart c2 = apart c1" "apart c' = apart c3"
    using leavesD [OF leaves_apart_log_all c2] leavesD [OF leaves_apart_log_all c4] by simp_all
  with c1 c3 show ?thesis
    by (intro that [of "cl_sensors c1" es]) (auto simp: on_sensors_def apart_def split: prod.splits)
qed

lemma stop_replayed:
  assumes "stop_phase env s step t c = (Inr (), c')"
  shows "manual_stop (ce_react env) s step t (cl_manual_stop_sent c) (cl_session c) = (Inr (cl_manual_stop_sent c'), cl_session c')
    \<and> cl_sensors c' = cl_sensors c \<and> cl_state c' = cl_state c"
  using assms by (auto simp: stop_phase_def bindM_eq_Inr on_session_def split: prod.splits)

lemma exchange_replayed:
  assumes "exchange_phase_of env s step t now_ms st delivered c = (Inr events, c')"
  shows "cil_exchange (ce_react env) s step t now_ms st (cl_manual_stop_sent c) delivered (cl_session c)
      = (Inr events, cl_session c')
    \<and> cl_manual_stop_sent c' = cl_manual_stop_sent c \<and> cl_sensors c' = cl_sensors c"
proof -
  from assms obtain started ended ms c1 c2 c3 where
    c1: "clock_ns env c = (Inr started, c1)"
    and c2: "on_session (cil_exchange (ce_react env) s step t now_ms st (cl_manual_stop_sent c1) delivered) c1 = (Inr events, c2)"
    and c3: "clock_ns env c2 = (Inr ended, c3)" and c': "c' = c3\<lparr>cl_round_trip_ms := cl_round_trip_ms c3 @ [ms]\<rparr>"
    by (auto simp: exchange_phase_of_def bindM_eq_Inr)
  have "apart c1 = apart c" "apart c3 = apart c2"
    using c1 c3 leavesD [OF leaves_apart_world] unfolding clock_ns_def by blast+
  then show ?thesis using on_session_Inr [OF c2] by (simp add: apart_def c')
qed

lemma traffic_replayed:
  assumes "step_traffic env s step t c = (Inr events, c')"
    and "rp_session p = cl_session c" "rp_manual_stop_sent p = cl_manual_stop_sent c"
  obtains delivered sensors es where
    "pipeline_step (ce_sensors env) step t (cl_state c) (cl_sensors c) = (Inr delivered, sensors)"
    "drain_events sensors = (Inr es, cl_sensors c')"
    "\<And>i :: replay_input. ri_scenario i = s \<Longrightarrow> delivered_at (ri_measurements i) step = delivered \<Longrightarrow>
       replay_traffic (ce_react env) i step t p =
         (Inr events, p\<lparr>rp_session := cl_session c', rp_manual_stop_sent := cl_manual_stop_sent c',
                      rp_measurements_replayed := rp_measurements_replayed p + length delivered\<rparr>)"
proof -
  from assms(1) obtain now_ms st c1 c2 c3 c4 c5 delivered where
    now: "time_ms t = Inr now_ms"
    and c1: "on_session (prepare_link (ce_react env) s step t now_ms) c = (Inr st, c1)"
    and c2: "c2 = c1\<lparr>cl_active_fault_steps := count_active_faults (so_faults s) t (cl_active_fault_steps c1)\<rparr>"
    and c3: "reconnect_phase env s step t now_ms st c2 = (Inr (), c3)"
    and c4: "sensor_phase env step t c3 = (Inr delivered, c4)"
    and c5: "stop_phase env s step t c4 = (Inr (), c5)"
    and c': "exchange_phase_of env s step t now_ms st delivered c5 = (Inr events, c')"
    by (auto simp: step_traffic_def bindM_eq_Inr)
  obtain sensors es where pipe: "pipeline_step (ce_sensors env) step t (cl_state c3) (cl_sensors c3) = (Inr delivered, sensors)"
    "drain_events sensors = (Inr es, cl_sensors c4)" "cl_session c4 = cl_session c3"
    "cl_manual_stop_sent c4 = cl_manual_stop_sent c3"
    by (rule sensor_phase_Inr [OF c4])
  note parts = on_session_Inr [OF c1] reconnect_replayed [OF c3] stop_replayed [OF c5] exchange_replayed [OF c']
  have same: "cl_sensors c3 = cl_sensors c" "cl_state c3 = cl_state c" "cl_sensors c' = cl_sensors c4"
    using parts by (simp_all add: c2)
  show ?thesis
  proof (rule that)
    show "pipeline_step (ce_sensors env) step t (cl_state c) (cl_sensors c) = (Inr delivered, sensors)"
      using pipe(1) same by simp
    show "drain_events sensors = (Inr es, cl_sensors c')" using pipe(2) same by simp
    fix i :: replay_input
    assume "ri_scenario i = s" "delivered_at (ri_measurements i) step = delivered"
    then show "replay_traffic (ce_react env) i step t p =
         (Inr events, p\<lparr>rp_session := cl_session c', rp_manual_stop_sent := cl_manual_stop_sent c',
                      rp_measurements_replayed := rp_measurements_replayed p + length delivered\<rparr>)"
      using parts pipe(3,4) now assms(2,3)
      by (simp add: c2 replay_traffic_def Let_def bindM_def on_replay_def)
  qed
qed

section \<open>What the firmware says is decoded\<close>

definition genuine :: "session_event \<Rightarrow> bool" where
  "genuine e \<longleftrightarrow> decode_packet_payload (ev_packet e) = Inr (ev_payload e)"

lemma handle_packets_genuine:
  "handle_packets now_ms pkts events s = (Inr events', s') \<Longrightarrow> list_all genuine events \<Longrightarrow> list_all genuine events'"
proof (induction pkts arbitrary: events s)
  case (Cons pkt pkts)
  from Cons.prems(1) obtain e s1 where e: "handle_packet now_ms pkt s = (Inr e, s1)"
    and rest: "handle_packets now_ms pkts (case e of None \<Rightarrow> events | Some ev \<Rightarrow> events @ [ev]) s1 = (Inr events', s')"
    by (auto simp: bindM_eq_Inr)
  have "genuine ev" if "e = Some ev" for ev
    using e that by (auto simp: handle_packet_def genuine_def Let_def split: prod.splits sum.splits if_splits py_exn.splits)
  with Cons.IH [OF rest] Cons.prems(2) show ?case by (cases e) auto
qed simp

lemma poll_reads_genuine:
  "poll_reads ops now_ms n events s = (Inr events', s') \<Longrightarrow> list_all genuine events \<Longrightarrow> list_all genuine events'"
proof (induction n arbitrary: events s)
  case (Suc n)
  obtain r t where read: "bt_read ops 512 (sn_transport s) = (r, t)" by fastforce
  show ?case
  proof (cases r)
    case (Inl e)
    then show ?thesis using Suc.prems read by (simp split: if_splits)
  next
    case (Inr data)
    show ?thesis
    proof (cases "data = []")
      case True
      then show ?thesis using Suc.prems read Inr by simp
    next
      case False
      with Suc.prems(1) read Inr obtain pkts s1 s2 events1 where
        "handle_packets now_ms pkts events s1 = (Inr events1, s2)"
        "poll_reads ops now_ms n events1 s2 = (Inr events', s')"
        by (auto simp: Let_def bindM_eq_Inr split: prod.splits sum.splits)
      then show ?thesis using Suc.IH handle_packets_genuine Suc.prems(2) by blast
    qed
  qed
qed simp

lemma poll_genuine: "poll ops now_ms s = (Inr events, s') \<Longrightarrow> list_all genuine events"
  using poll_reads_genuine by (fastforce simp: poll_def bindM_eq_Inr split: if_splits)

lemma exchange_genuine:
  assumes "cil_exchange react s step t now_ms st sent delivered w = (Inr events, w')"
  shows "list_all genuine events"
proof -
  have tick: "list_all genuine es" if "tick_and_poll react now_ms step u = (Inr es, u')" for u u' es
    using that poll_genuine by (auto simp: tick_and_poll_def bindM_eq_Inr)
  have sensors: "list_all genuine es"
    if "exchange_sensors react s step t now_ms st sent delivered u = (Inr es, u')" for u u' es
    using that tick poll_genuine by (auto simp: exchange_sensors_def bindM_eq_Inr split: if_splits)
  show ?thesis
    using assms tick sensors by (fastforce simp: cil_exchange_def bindM_eq_Inr split: if_splits)
qed

lemma traffic_genuine:
  assumes "step_traffic env s step t c = (Inr events, c')"
  shows "list_all genuine events"
proof -
  from assms obtain now_ms st c5 delivered where "exchange_phase_of env s step t now_ms st delivered c5 = (Inr events, c')"
    by (auto simp: step_traffic_def bindM_eq_Inr)
  then show ?thesis using exchange_replayed [THEN conjunct1, THEN exchange_genuine] by blast
qed

text \<open>What is held is finite, with six variances.\<close>

definition held_ok :: "held \<Rightarrow> bool" where
  "held_ok h \<longleftrightarrow> list_all isfinite (estimate_values (hd_estimate h)) \<and> length (se_covariance_diagonal (hd_estimate h)) = 6
     \<and> isfinite (cc_target_speed_mps (hd_command h))"

lemma hold_event_ok:
  assumes "held_ok h" "genuine e"
  shows "held_ok (hold_event timeout step e h)"
proof -
  have "payload_ok (ev_payload e)" using assms(2) by (simp add: genuine_def decode_packet_payload_def decode_typed)
  then show ?thesis
    using assms(1) f64_wire_finite
    by (auto simp: hold_event_def held_ok_def control_command_ok_def state_estimate_ok_def state_floats_def estimate_values_def
        list_all_iff split: typed_payload.splits)
qed

lemma fold_hold_ok: "held_ok h \<Longrightarrow> list_all genuine events \<Longrightarrow> held_ok (fold (hold_event timeout step) events h)"
  by (induction events arbitrary: h) (simp_all add: hold_event_ok)

lemma nothing_held_ok: "held_ok nothing_held"
  by (simp add: held_ok_def nothing_held_def no_estimate_def neutral_command_def estimate_values_def list_all_iff)

section \<open>A comparison that matches\<close>

text \<open>The same dict, whatever the order of its keys.\<close>

definition same_dict :: "pydict \<Rightarrow> pydict \<Rightarrow> bool" where
  "same_dict d e \<longleftrightarrow> map_of d = map_of e"

lemma same_dict_get: "same_dict d e \<Longrightarrow> dict_get k d = dict_get k e"
  by (simp add: same_dict_def dict_get_def)

lemma same_dict_keys: "same_dict d e \<Longrightarrow> set (map fst d) = set (map fst e)"
  by (metis dom_map_of_conv_image_fst list.set_map same_dict_def)

lemma estimate_get:
  "dict_get ''step_id'' (estimate_record step t e) = Some (V_Int step)"
  "dict_get ''time_s'' (estimate_record step t e) = Some (V_Float t)"
  "dict_get ''x_m'' (estimate_record step t e) = Some (V_Float (se_x_m e))"
  "dict_get ''y_m'' (estimate_record step t e) = Some (V_Float (se_y_m e))"
  "dict_get ''heading_rad'' (estimate_record step t e) = Some (V_Float (se_heading_rad e))"
  "dict_get ''speed_mps'' (estimate_record step t e) = Some (V_Float (se_speed_mps e))"
  "dict_get ''yaw_rate_rad_s'' (estimate_record step t e) = Some (V_Float (se_yaw_rate_rps e))"
  "dict_get ''acceleration_bias_mps2'' (estimate_record step t e) = Some (V_Float (se_acceleration_bias_mps2 e))"
  "dict_get ''navigation_mode'' (estimate_record step t e) = Some (V_Str (NavigationMode_name (se_navigation_mode e)))"
  "dict_get ''covariance_diagonal'' (estimate_record step t e) = Some (V_List (map V_Float (se_covariance_diagonal e)))"
  by (simp_all add: estimate_record_def)

lemma finite_numbers: "list_all isfinite xs \<Longrightarrow> sequenceR (map (finite_replay_number \<circ> V_Float) xs) = Inr xs"
  by (induction xs) (simp_all add: finite_replay_number_def finite_real_def)

lemma estimate_read:
  assumes "same_dict d (estimate_record step t e)" "list_all isfinite (estimate_values e)" "length (se_covariance_diagonal e) = 6"
  shows "sequenceR (map (finite_replay_value d) replay_values)
      = Inr [se_x_m e, se_y_m e, se_heading_rad e, se_speed_mps e, se_yaw_rate_rps e, se_acceleration_bias_mps2 e]"
    "replay_covariance d = Inr (se_covariance_diagonal e)"
proof -
  note get = same_dict_get [OF assms(1)] estimate_get
  show "sequenceR (map (finite_replay_value d) replay_values)
      = Inr [se_x_m e, se_y_m e, se_heading_rad e, se_speed_mps e, se_yaw_rate_rps e, se_acceleration_bias_mps2 e]"
    using assms(2) by (simp add: replay_values_def finite_replay_value_def get finite_replay_number_def finite_real_def estimate_values_def)
  show "replay_covariance d = Inr (se_covariance_diagonal e)"
    using assms(2,3) by (simp add: replay_covariance_def get finite_numbers estimate_values_def)
qed

lemma estimate_step_read:
  assumes "same_dict d (estimate_record step t e)"
  shows "estimate_step d = Inr step"
proof -
  have "set (map fst d) = set (map fst (estimate_record step t e))" by (rule same_dict_keys [OF assms])
  also have "\<dots> = set estimate_fields" by (simp add: estimate_record_def estimate_fields_def replay_values_def insert_commute)
  finally show ?thesis using same_dict_get [OF assms] by (simp add: estimate_step_def estimate_get)
qed

lemma check_estimate_read:
  assumes "same_dict d (estimate_record step t e)" "list_all isfinite (estimate_values e)" "length (se_covariance_diagonal e) = 6"
    "isfinite t"
  shows "check_estimate d = Inr ()"
  using estimate_read [OF assms(1-3)] same_dict_get [OF assms(1)] assms(4)
  by (simp add: check_estimate_def finite_replay_value_def finite_replay_number_def estimate_get finite_real_def)

lemma fabs_zero: "fabs 0 = 0"
  by (simp add: fabs_def f64_of_def f64_mag_def)

lemma maximum_same: "list_all isfinite xs \<Longrightarrow> maximum (map (\<lambda>(x, y). fabs (fsub x y)) (zip xs xs)) = 0"
proof -
  have zeros: "foldl fmax 0 (map (\<lambda>(x, y). fabs (fsub x y)) (zip ys ys)) = 0" if "list_all isfinite ys" for ys
    using that by (induction ys) (simp_all add: fsub_self fabs_zero fmax_def flt_def)
  assume "list_all isfinite xs"
  then show ?thesis using zeros by (cases xs) (simp_all add: fsub_self fabs_zero)
qed

definition no_errors :: replay_figures where
  "no_errors = \<lparr>rf_estimate_mismatches = 0, rf_command_mismatches = 0, rf_maximum_estimate_error = 0, rf_maximum_command_error = 0\<rparr>"

definition records_command :: "int \<Rightarrow> control_command_payload \<Rightarrow> string \<Rightarrow> command_record \<Rightarrow> bool" where
  "records_command step c source r \<longleftrightarrow>
     cr_step_id r = step \<and> source \<in> {''embedded_cpp'', ''host_command_timeout_safe_stop''}
     \<and> cm_acceleration_mps2 (cr_command r) = cc_acceleration_mps2 c \<and> cm_steering_rad (cr_command r) = cc_steering_rad c
     \<and> cr_target_speed_mps r = cc_target_speed_mps c \<and> cr_mode r = runlog_command_mode (cc_mode c)
     \<and> cr_flags r = cc_flags c \<and> cr_source r = source"

lemma compare_same:
  assumes "same_dict d (estimate_record step t e)" "list_all isfinite (estimate_values e)" "length (se_covariance_diagonal e) = 6"
    and "records_command k c source r" "isfinite (cc_acceleration_mps2 c)" "isfinite (cc_steering_rad c)" "isfinite (cc_target_speed_mps c)"
    and "\<not> flt tolerance 0"
  shows "compare_step tolerance e c source d r no_errors = Inr no_errors"
proof -
  have "estimate_replay_error e d = Inr (0, True)"
    using estimate_read [OF assms(1-3)] maximum_same [OF assms(2)] same_dict_get [OF assms(1)]
    by (simp add: estimate_replay_error_def estimate_get Let_def estimate_values_def)
  moreover have "command_replay_error c source r = (0, True)"
    using assms(4-7) by (simp add: command_replay_error_def records_command_def fsub_self fabs_zero fmax_def flt_def)
  ultimately show ?thesis
    using assms(8) by (simp add: compare_step_def no_errors_def fmax_def flt_def [of 0])
qed

section \<open>The index of a recording\<close>

lemma index_estimates_steps:
  "(\<And>k. k < length ds \<Longrightarrow> estimate_step (ds ! k) = Inr (int (j + k)) \<and> check_estimate (ds ! k) = Inr ()) \<Longrightarrow>
     \<forall>x\<in>set acc. fst x < int j \<Longrightarrow>
     index_estimates acc ds = Inr (acc @ zip (map int [j..<j + length ds]) ds)"
proof (induction ds arbitrary: acc j)
  case (Cons d ds)
  have first: "estimate_step d = Inr (int j)" "check_estimate d = Inr ()" using Cons.prems(1) [of 0] by simp_all
  have "index_estimates (acc @ [(int j, d)]) ds = Inr ((acc @ [(int j, d)]) @ zip (map int [Suc j..<Suc j + length ds]) ds)"
  proof (rule Cons.IH)
    show "estimate_step (ds ! k) = Inr (int (Suc j + k)) \<and> check_estimate (ds ! k) = Inr ()" if "k < length ds" for k
      using Cons.prems(1) [of "Suc k"] that by simp
  qed (use Cons.prems(2) in fastforce)
  moreover have "int j \<notin> fst ` set acc" using Cons.prems(2) by force
  ultimately show ?case
    using first by (simp add: guardR_def upt_conv_Cons del: upt_Suc)
qed simp

lemma index_commands_steps:
  "(\<And>k. k < length rs \<Longrightarrow> cr_step_id (rs ! k) = int (j + k) \<and> cr_source (rs ! k) \<in> {''embedded_cpp'', ''host_command_timeout_safe_stop''}) \<Longrightarrow>
     \<forall>x\<in>set acc. fst x < int j \<Longrightarrow>
     index_commands acc rs = Inr (acc @ zip (map int [j..<j + length rs]) rs)"
proof (induction rs arbitrary: acc j)
  case (Cons r rs)
  have first: "cr_step_id r = int j" "cr_source r \<in> {''embedded_cpp'', ''host_command_timeout_safe_stop''}"
    using Cons.prems(1) [of 0] by simp_all
  have "index_commands (acc @ [(int j, r)]) rs = Inr ((acc @ [(int j, r)]) @ zip (map int [Suc j..<Suc j + length rs]) rs)"
  proof (rule Cons.IH)
    show "cr_step_id (rs ! k) = int (Suc j + k) \<and> cr_source (rs ! k) \<in> {''embedded_cpp'', ''host_command_timeout_safe_stop''}"
      if "k < length rs" for k
      using Cons.prems(1) [of "Suc k"] that by simp
  qed (use Cons.prems(2) in fastforce)
  moreover have "int j \<notin> fst ` set acc" using Cons.prems(2) by force
  ultimately show ?case
    using first by (simp add: guardR_def upt_conv_Cons del: upt_Suc)
qed simp

lemma int_steps: "int ` {0..<Suc n} = {0..int n}"
proof
  show "{0..int n} \<subseteq> int ` {0..<Suc n}"
  proof
    fix x
    assume "x \<in> {0..int n}"
    then have "x = int (nat x)" "nat x \<in> {0..<Suc n}" by auto
    then show "x \<in> int ` {0..<Suc n}" by blast
  qed
qed auto

lemma covered: "length xs = Suc n \<Longrightarrow> cover_steps (int n) None (zip (map int [0..<length xs]) xs) = Inr (zip (map int [0..<length xs]) xs)"
  by (simp add: cover_steps_def int_steps del: upt_Suc)

lemma nth_step: "k < length xs \<Longrightarrow> map_of (zip (map int [0..<length xs]) xs) (int k) = Some (xs ! k)"
  using map_of_zip_nth [of "map int [0..<length xs]" xs k] by (simp add: distinct_map inj_on_def)

section \<open>Methods that leave something alone when they return\<close>

definition settles :: "('s \<Rightarrow> 'v) \<Rightarrow> ('s, 'a) meth \<Rightarrow> bool" where
  "settles f m \<longleftrightarrow> (\<forall>s v s'. m s = (Inr v, s') \<longrightarrow> f s' = f s)"

lemma settlesD: "settles f m \<Longrightarrow> m s = (Inr v, s') \<Longrightarrow> f s' = f s"
  by (simp add: settles_def)

lemma settles_bindM: "settles f m \<Longrightarrow> (\<And>v. settles f (k v)) \<Longrightarrow> settles f (bindM m k)"
  by (fastforce simp: settles_def bindM_eq_Inr)

lemma settles_basic:
  "settles f (returnM v)" "settles f (liftM r)" "(\<And>s. f (g s) = f s) \<Longrightarrow> settles f (modifyM g)"
  by (simp_all add: settles_def)

lemma settles_state: "(\<And>x. settles f (m x)) \<Longrightarrow> settles f (\<lambda>s. m (g s) s)"
  by (simp add: settles_def)

lemma replay_loop_append:
  "replay_loop react i ks p = (Inr (), p') \<Longrightarrow> replay_loop react i (ks @ ks') p = replay_loop react i ks' p'"
proof (induction ks arbitrary: p)
  case (Cons k ks)
  then show ?case by (auto simp: bindM_eq_Inr) (simp add: bindM_def)
qed simp

lemma filter_steps:
  "\<forall>j<length xss. \<forall>m\<in>set (xss ! j). mt_delivery_step_id (times_of m) = int (i + j) \<Longrightarrow> k < length xss \<Longrightarrow>
     filter (\<lambda>m. mt_delivery_step_id (times_of m) = int (i + k)) (concat xss) = xss ! k"
proof (induction xss arbitrary: i k)
  case (Cons xs xss)
  have first: "\<forall>m\<in>set xs. mt_delivery_step_id (times_of m) = int i" using Cons.prems(1) by fastforce
  have rest: "\<forall>j<length xss. \<forall>m\<in>set (xss ! j). mt_delivery_step_id (times_of m) = int (Suc i + j)"
    using Cons.prems(1) by fastforce
  show ?case
  proof (cases k)
    case 0
    have "mt_delivery_step_id (times_of m) \<noteq> int i" if "xs' \<in> set xss" "m \<in> set xs'" for xs' m
    proof -
      obtain j where "j < length xss" "xs' = xss ! j" using \<open>xs' \<in> set xss\<close> by (auto simp: in_set_conv_nth)
      then show ?thesis using rest that(2) by auto
    qed
    then have "filter (\<lambda>m. mt_delivery_step_id (times_of m) = int i) (concat xss) = []"
      by (auto simp: filter_empty_conv)
    moreover have "filter (\<lambda>m. mt_delivery_step_id (times_of m) = int i) xs = xs" using first by (simp add: filter_id_conv)
    ultimately show ?thesis by (simp add: 0)
  next
    case (Suc j)
    have "filter (\<lambda>m. mt_delivery_step_id (times_of m) = int (i + k)) xs = []" using first Suc by (auto simp: filter_empty_conv)
    then show ?thesis using Cons.IH [OF rest, of j] Cons.prems(2) Suc by simp
  qed
qed simp

section \<open>The logger\<close>

lemma on_time:
  assumes "returning_run env s" "pipeline_step env n t state s = (Inr ms, s')"
  shows "\<forall>m\<in>set ms. mt_delivery_step_id (times_of m) = n" "pl_last_step s' = n"
proof -
  obtain D where inv: "pipeline_inv (pl_last_step s + 1) (pl_last_step s) D s" using returning_inv [OF assms(1)] by auto
  obtain s1 where "pipeline_inv n n D s1" "deliver (Some n) s1 = (Inr ms, s')" by (rule returning_step [OF inv assms(2)])
  note due = deliver_on_time [OF this]
  show "\<forall>m\<in>set ms. mt_delivery_step_id (times_of m) = n" using due(1) by blast
  show "pl_last_step s' = n" using due(4) by (simp add: pipeline_inv_def)
qed

lemma late_measurements:
  assumes "returning_run env s" "drain_pending s = (Inr ms, s')"
  shows "\<forall>m\<in>set ms. pl_last_step s < mt_delivery_step_id (times_of m)"
proof -
  obtain D where inv: "pipeline_inv (pl_last_step s + 1) (pl_last_step s) D s" using returning_inv [OF assms(1)] by auto
  obtain left where "pop_due None (pl_pending s) = (ms, left)"
    using assms(2) by (auto simp: drain_pending_def deliver_def split: prod.splits)
  from pop_due_split [OF this] obtain popped where "pl_pending s = popped @ left" "ms = map (snd \<circ> snd) popped" by auto
  moreover from this inv have "\<forall>x\<in>set popped. entry_ok (pl_last_step s + 1) (pl_last_step s) (pl_ordinal s) x"
    by (simp add: pipeline_inv_def list_all_iff)
  then have "\<forall>x\<in>set popped. pl_last_step s < mt_delivery_step_id (times_of (snd (snd x)))"
    unfolding entry_ok_iff by fastforce
  ultimately show ?thesis by simp
qed

text \<open>Records that no replay reads.\<close>

fun elsewhere :: "log_call \<Rightarrow> bool" where
  "elsewhere (Log_Measurement m) = False"
| "elsewhere (Log_Estimate d) = False"
| "elsewhere (Log_Command step t command source target mode flags) = False"
| "elsewhere _ = True"

text \<open>
  A logger keeps the measurements, estimates and commands it is given, in some form, in the order in
  which they come, and nothing else touches them.
\<close>

locale run_log =
  fixes env :: "('f, 'r, 'x) cil_env"
    and measured :: "'x \<Rightarrow> 'm list" and as_measured :: "measurement \<Rightarrow> 'm"
    and estimated :: "'x \<Rightarrow> 'e list" and as_estimated :: "pydict \<Rightarrow> 'e"
    and ordered :: "'x \<Rightarrow> 'c list" and as_ordered :: "command_record \<Rightarrow> 'c"
  assumes logging: "ce_logging env"
    and opened: "ce_open env w = (Inr (), w') \<Longrightarrow> measured w' = [] \<and> estimated w' = [] \<and> ordered w' = []"
    and log_measurement: "ce_log env (Log_Measurement m) w = (Inr (), w') \<Longrightarrow>
      measured w' = measured w @ [as_measured m] \<and> estimated w' = estimated w \<and> ordered w' = ordered w"
    and log_estimate: "ce_log env (Log_Estimate d) w = (Inr (), w') \<Longrightarrow>
      measured w' = measured w \<and> estimated w' = estimated w @ [as_estimated d] \<and> ordered w' = ordered w"
    and log_command: "ce_log env (Log_Command step t command source target mode flags) w = (Inr (), w') \<Longrightarrow>
      measured w' = measured w \<and> estimated w' = estimated w
      \<and> ordered w' = ordered w @ [as_ordered \<lparr>cr_step_id = step, cr_time_s = t, cr_command = command,
           cr_target_speed_mps = target, cr_mode = mode, cr_flags = flags, cr_source = source\<rparr>]"
    and log_other: "elsewhere call \<Longrightarrow> ce_log env call w = (Inr (), w') \<Longrightarrow>
      measured w' = measured w \<and> estimated w' = estimated w \<and> ordered w' = ordered w"
    and finalized: "ce_finalize env summary w = (Inr path, w') \<Longrightarrow>
      measured w' = measured w \<and> estimated w' = estimated w \<and> ordered w' = ordered w"
    and clock: "ce_clock_ns env w = (n, w') \<Longrightarrow>
      measured w' = measured w \<and> estimated w' = estimated w \<and> ordered w' = ordered w"
    and dashboard: "ce_dashboard env w = (Inr (), w') \<Longrightarrow>
      measured w' = measured w \<and> estimated w' = estimated w \<and> ordered w' = ordered w"
begin

definition view :: "('f, 'r, 'x) cil \<Rightarrow> 'm list \<times> 'e list \<times> 'c list" where
  "view c = (measured (cl_world c), estimated (cl_world c), ordered (cl_world c))"

lemma log_record_Inr: "log_record env call c = (Inr (), c') \<Longrightarrow> \<exists>w'. ce_log env call (cl_world c) = (Inr (), w') \<and> c' = c\<lparr>cl_world := w'\<rparr>"
  by (auto simp: log_record_def logging on_world_def split: prod.splits)

lemma settles_log_record: "elsewhere call \<Longrightarrow> settles view (log_record env call)"
  using log_other by (fastforce simp: settles_def view_def dest: log_record_Inr)

lemma settles_log_all: "list_all elsewhere calls \<Longrightarrow> settles view (log_all env calls)"
proof (induction calls)
  case Nil
  show ?case unfolding log_all.simps by (rule settles_basic)
next
  case (Cons call calls)
  then show ?case unfolding log_all.simps by (intro settles_bindM settles_log_record) simp_all
qed

lemma elsewhere_records:
  "list_all elsewhere (session_event_records step t events)" "list_all elsewhere (map Log_Sensor_Event es)"
  by (auto simp: session_event_records_def list_all_iff split: typed_payload.splits)

lemma settles_inner: "settles view (on_session m1)" "settles view (on_sensors m2)"
  by (auto simp: settles_def view_def on_session_def on_sensors_def split: prod.splits)

lemma settles_clock: "settles view (clock_ns env)"
  using clock by (fastforce simp: settles_def view_def clock_ns_def on_world_def split: prod.splits)

lemmas settles_intros = settles_basic settles_bindM settles_inner settles_clock settles_log_record
  settles_log_all elsewhere_records

lemma log_measurements:
  "log_all env (map Log_Measurement ms) c = (Inr (), c') \<Longrightarrow>
     view c' = (measured (cl_world c) @ map as_measured ms, estimated (cl_world c), ordered (cl_world c))"
proof (induction ms arbitrary: c)
  case (Cons m ms)
  then obtain c1 where "log_record env (Log_Measurement m) c = (Inr (), c1)"
    "log_all env (map Log_Measurement ms) c1 = (Inr (), c')" by (auto simp: bindM_eq_Inr)
  with Cons.IH log_measurement show ?case by (fastforce simp: view_def dest: log_record_Inr)
qed (simp add: view_def)

lemma settles_reconnect: "settles view (reconnect_phase env s step t now_ms st)"
proof -
  have "settles view (bindM (on_session (reconnect_and_poll (ce_react env) now_ms)) (\<lambda>events.
      bindM (\<lambda>c. log_record env (Log_Event (transition_event step t ''session_reconnect'' (Some ''timed_out'')
               (lower (SessionState_name (sn_state (cl_session c)))))) c) (\<lambda>_.
      bindM (log_all env (session_event_records step t events)) (\<lambda>_.
        on_session (resend_route (ce_react env) s step)))))"
    by (intro settles_intros settles_state [where g = "\<lambda>c. lower (SessionState_name (sn_state (cl_session c)))"
        and m = "\<lambda>x. log_record env (Log_Event (transition_event step t ''session_reconnect'' (Some ''timed_out'') x))"]) simp
  then show ?thesis by (simp add: settles_def reconnect_phase_def)
qed

lemma settles_stop: "settles view (stop_phase env s step t)"
  unfolding stop_phase_def
  by (rule settles_state [where g = cl_manual_stop_sent]) (intro settles_intros; simp add: view_def)

lemma settles_exchange: "settles view (exchange_phase_of env s step t now_ms st delivered)"
  unfolding exchange_phase_of_def
  by (intro settles_intros settles_state [where g = cl_manual_stop_sent
      and m = "\<lambda>x. on_session (cil_exchange (ce_react env) s step t now_ms st x delivered)"]; simp add: view_def)

lemma traffic_logged:
  assumes "step_traffic env s step t c = (Inr events, c')"
  obtains delivered sensors where
    "pipeline_step (ce_sensors env) step t (cl_state c) (cl_sensors c) = (Inr delivered, sensors)"
    "view c' = (measured (cl_world c) @ map as_measured delivered, estimated (cl_world c), ordered (cl_world c))"
proof -
  from assms obtain now_ms st c1 c2 c3 c4 c5 delivered where
    c1: "on_session (prepare_link (ce_react env) s step t now_ms) c = (Inr st, c1)"
    and c2: "c2 = c1\<lparr>cl_active_fault_steps := count_active_faults (so_faults s) t (cl_active_fault_steps c1)\<rparr>"
    and c3: "reconnect_phase env s step t now_ms st c2 = (Inr (), c3)"
    and c4: "sensor_phase env step t c3 = (Inr delivered, c4)"
    and c5: "stop_phase env s step t c4 = (Inr (), c5)"
    and c': "exchange_phase_of env s step t now_ms st delivered c5 = (Inr events, c')"
    by (auto simp: step_traffic_def bindM_eq_Inr)
  from c4 obtain d1 d2 d3 es where
    d1: "on_sensors (pipeline_step (ce_sensors env) step t (cl_state c3)) c3 = (Inr delivered, d1)"
    and d2: "log_all env (map Log_Measurement delivered) d1 = (Inr (), d2)"
    and d3: "on_sensors drain_events d2 = (Inr es, d3)"
    and d4: "log_all env (map Log_Sensor_Event es) d3 = (Inr (), c4)"
    by (auto simp: sensor_phase_def bindM_eq_Inr)
  have "view c' = view d2"
    using settlesD [OF settles_exchange c'] settlesD [OF settles_stop c5] settlesD [OF settles_inner(2) d3]
      settlesD [OF settles_log_all [OF elsewhere_records(2)] d4] by simp
  moreover have "view d1 = view c"
    using settlesD [OF settles_inner(2) d1] settlesD [OF settles_reconnect c3] settlesD [OF settles_inner(1) c1]
    by (simp add: c2 view_def)
  ultimately have "view c' = (measured (cl_world c) @ map as_measured delivered, estimated (cl_world c), ordered (cl_world c))"
    using log_measurements [OF d2] by (simp add: view_def)
  moreover have "cl_sensors c3 = cl_sensors c" "cl_state c3 = cl_state c"
    using reconnect_replayed [OF c3] on_session_Inr [OF c1] by (simp_all add: c2)
  ultimately show ?thesis using that d1 by (auto simp: on_sensors_def split: prod.splits)
qed

lemma event_logged:
  "log_record env (Log_Event d) c = (Inr (), c') \<Longrightarrow>
     measured (cl_world c') = measured (cl_world c) \<and> estimated (cl_world c') = estimated (cl_world c)
     \<and> ordered (cl_world c') = ordered (cl_world c)"
  using log_other [of "Log_Event d"] by (fastforce dest: log_record_Inr)

lemma settles_reports:
  "settles view (report_safety env step t x)" "settles view (report_navigation env step t x)"
  unfolding settles_def report_safety_def report_navigation_def
  by (auto simp: bindM_eq_Inr view_def dest!: event_logged split: if_splits)

lemma settles_event: "settles view (handle_event env timeout step t event)"
  unfolding handle_event_def Let_def
  by (cases "ev_payload event") (simp_all, (intro settles_bindM settles_basic settles_reports; simp add: view_def)+)

lemma settles_events: "settles view (handle_events env timeout step t events)"
proof (induction events)
  case Nil
  show ?case unfolding handle_events.simps by (rule settles_basic)
next
  case (Cons e es)
  then show ?case unfolding handle_events.simps by (intro settles_bindM settles_event)
qed

lemma settles_guard: "settles view (guard_phase env timeout step t)"
  unfolding settles_def guard_phase_def
  by (auto simp: bindM_eq_Inr view_def Let_def dest!: event_logged split: if_splits)

lemma settles_plant: "settles view (plant_phase env s last_step step command)"
  unfolding settles_def plant_phase_def by (auto simp: bindM_eq_Inr view_def split: if_splits)

lemma record_phase_logged:
  assumes "record_phase env s timeout step t c = (Inr command, c')"
  shows "\<exists>effective source r.
      effective_command timeout (vp_max_deceleration_mps2 (so_vehicle s)) step (cl_held c) = (effective, source)
      \<and> records_command step effective source r \<and> 0 \<le> step \<and> isfinite t
      \<and> isfinite (cc_acceleration_mps2 effective) \<and> isfinite (cc_steering_rad effective)
      \<and> view c' = (measured (cl_world c), estimated (cl_world c) @ [as_estimated (estimate_record step t (hd_estimate (cl_held c)))],
                   ordered (cl_world c) @ [as_ordered r])"
proof -
  obtain effective source where eff:
    "effective_command timeout (vp_max_deceleration_mps2 (so_vehicle s)) step (cl_held c) = (effective, source)"
    by fastforce
  define r where "r = \<lparr>cr_step_id = step, cr_time_s = t, cr_command = command,
    cr_target_speed_mps = cc_target_speed_mps effective, cr_mode = runlog_command_mode (cc_mode effective),
    cr_flags = cc_flags effective, cr_source = source\<rparr>"
  from assms obtain sample c1 x w1 w2 w3 w4 where
    command: "ControlCommand (cc_acceleration_mps2 effective) (cc_steering_rad effective) = Inr command"
    and sample: "SimulationSample step t (cl_state c) command = Inr sample"
    and w: "ce_log env (Log_Ground_Truth sample) (cl_world c) = (Inr (), w1)"
      "ce_log env (Log_Estimate (estimate_record step t (hd_estimate (cl_held c)))) w1 = (Inr (), w2)"
      "ce_log env (Log_Command step t command source (cc_target_speed_mps effective)
         (runlog_command_mode (cc_mode effective)) (cc_flags effective)) w2 = (Inr (), w3)"
      "ce_log env (Log_Timing step t ''native_process_round_trip'' x) w3 = (Inr (), w4)"
      "cl_world c' = w4"
    by (auto simp: record_phase_def eff Let_def bindM_eq_Inr dest!: log_record_Inr)
  have source: "source \<in> {''embedded_cpp'', ''host_command_timeout_safe_stop''}"
    using eff by (auto simp: effective_command_def split: if_splits)
  have facts: "isfinite (cc_acceleration_mps2 effective)" "isfinite (cc_steering_rad effective)"
    "cm_acceleration_mps2 command = cc_acceleration_mps2 effective" "cm_steering_rad command = cc_steering_rad effective"
    "0 \<le> step" "isfinite t"
    using command sample
    by (auto simp: ControlCommand_def SimulationSample_def finite_real_def bindR_eq_Inr guardR_eq_Inr split: if_splits)
  have "view c' = (measured (cl_world c), estimated (cl_world c) @ [as_estimated (estimate_record step t (hd_estimate (cl_held c)))],
                   ordered (cl_world c) @ [as_ordered r])"
    using log_other [OF _ w(1)] log_estimate [OF w(2)] log_command [OF w(3)] log_other [OF _ w(4)] w(5)
    by (simp add: view_def r_def)
  moreover have "records_command step effective source r" using source facts by (simp add: records_command_def r_def)
  ultimately show ?thesis using eff facts by blast
qed

lemma reaction_logged:
  assumes "step_reaction env s timeout last_step step t events c = (Inr (), c')"
  shows "\<exists>effective source r.
      effective_command timeout (vp_max_deceleration_mps2 (so_vehicle s)) step (cl_held c') = (effective, source)
      \<and> records_command step effective source r \<and> 0 \<le> step \<and> isfinite t
      \<and> isfinite (cc_acceleration_mps2 effective) \<and> isfinite (cc_steering_rad effective)
      \<and> view c' = (measured (cl_world c), estimated (cl_world c) @ [as_estimated (estimate_record step t (hd_estimate (cl_held c')))],
                   ordered (cl_world c) @ [as_ordered r])"
proof -
  from assms obtain c1 c2 c3 c4 command where
    c1: "handle_events env timeout step t events c = (Inr (), c1)"
    and c2: "log_all env (session_event_records step t events) c1 = (Inr (), c2)"
    and c3: "guard_phase env timeout step t c2 = (Inr (), c3)"
    and c4: "record_phase env s timeout step t c3 = (Inr command, c4)"
    and c5: "plant_phase env s last_step step command c4 = (Inr (), c')"
    by (auto simp: step_reaction_def bindM_eq_Inr)
  have "view c3 = view c" "view c' = view c4"
    using settlesD [OF settles_events c1] settlesD [OF settles_log_all [OF elsewhere_records(1)] c2] settlesD [OF settles_guard c3]
      settlesD [OF settles_plant c5] by simp_all
  moreover have "cl_held c' = cl_held c3"
    using step_reaction_Inr [OF assms] handle_events_Inr [OF c1] leavesD [OF leaves_log_all c2] leavesD [OF leaves_guard c3]
    by (simp add: reaction_to_def trail_def)
  ultimately show ?thesis using record_phase_logged [OF c4] by (auto simp: view_def)
qed

text \<open>A replay state that has followed the run, and what a recording must give the replay.\<close>

definition follows :: "('f, 'r, 'x) cil \<Rightarrow> nat \<Rightarrow> 'f cil_replay \<Rightarrow> bool" where
  "follows c n p \<longleftrightarrow> rp_session p = cl_session c \<and> rp_manual_stop_sent p = cl_manual_stop_sent c
     \<and> rp_held p = cl_held c \<and> rp_figures p = no_errors \<and> rp_measurements_replayed p = n"

definition serves ::
  "replay_input \<Rightarrow> scenario \<Rightarrow> int \<Rightarrow> measurement list list \<Rightarrow> pydict list \<Rightarrow> command_record list \<Rightarrow> nat \<Rightarrow> bool" where
  "serves i s timeout delivered es cs n \<longleftrightarrow>
     ri_scenario i = s \<and> ri_timeout i = timeout \<and> \<not> flt (ri_tolerance i) 0
     \<and> (\<forall>k<n. delivered_at (ri_measurements i) (int k) = delivered ! k
          \<and> (\<exists>d. map_of (ri_estimates i) (int k) = Some d \<and> same_dict d (es ! k))
          \<and> map_of (ri_commands i) (int k) = Some (cs ! k))"

lemma step_follows:
  assumes traffic: "step_traffic env s k t c1 = (Inr events, c2)"
    and reaction: "step_reaction env s timeout last_step k t events c2 = (Inr (), c3)"
    and time: "time_of_step (so_dt_s s) k = Inr t" and ok: "held_ok (cl_held c1)"
  obtains delivered sensors es r where
    "pipeline_step (ce_sensors env) k t (cl_state c1) (cl_sensors c1) = (Inr delivered, sensors)"
    "drain_events sensors = (Inr es, cl_sensors c3)"
    "view c3 = (measured (cl_world c1) @ map as_measured delivered,
       estimated (cl_world c1) @ [as_estimated (estimate_record k t (hd_estimate (cl_held c3)))], ordered (cl_world c1) @ [as_ordered r])"
    "held_ok (cl_held c3)" "isfinite t" "\<exists>effective source. records_command k effective source r"
    "\<And>i p n d. follows c1 n p \<Longrightarrow> ri_scenario i = s \<Longrightarrow> ri_timeout i = timeout \<Longrightarrow> \<not> flt (ri_tolerance i) 0 \<Longrightarrow>
       delivered_at (ri_measurements i) k = delivered \<Longrightarrow> map_of (ri_estimates i) k = Some d \<Longrightarrow>
       same_dict d (estimate_record k t (hd_estimate (cl_held c3))) \<Longrightarrow> map_of (ri_commands i) k = Some r \<Longrightarrow>
       \<exists>p'. replay_step (ce_react env) i k p = (Inr (), p') \<and> follows c3 (n + length delivered) p'"
proof -
  let ?h = "cl_held c3"
  have held: "?h = fold (hold_event timeout k) events (cl_held c1)"
    using step_reaction_Inr [OF reaction] leavesD [OF leaves_traffic traffic] by (simp add: reaction_to_def trail_def)
  have hok: "held_ok ?h" using fold_hold_ok [OF ok traffic_genuine [OF traffic]] by (simp add: held)
  obtain delivered sensors where pipe:
    "pipeline_step (ce_sensors env) k t (cl_state c1) (cl_sensors c1) = (Inr delivered, sensors)"
    "view c2 = (measured (cl_world c1) @ map as_measured delivered, estimated (cl_world c1), ordered (cl_world c1))"
    by (rule traffic_logged [OF traffic])
  from reaction_logged [OF reaction] obtain effective source r where r:
    "effective_command timeout (vp_max_deceleration_mps2 (so_vehicle s)) k ?h = (effective, source)"
    "records_command k effective source r" "isfinite t"
    "isfinite (cc_acceleration_mps2 effective)" "isfinite (cc_steering_rad effective)"
    "view c3 = (measured (cl_world c2), estimated (cl_world c2) @ [as_estimated (estimate_record k t (hd_estimate ?h))],
                ordered (cl_world c2) @ [as_ordered r])"
    by blast
  have same: "cl_session c3 = cl_session c2" "cl_manual_stop_sent c3 = cl_manual_stop_sent c2" "cl_sensors c3 = cl_sensors c2"
    using leavesD [OF leaves_apart_reaction reaction] by (simp_all add: apart_def)
  have target: "isfinite (cc_target_speed_mps effective)"
    using r(1) hok by (auto simp: effective_command_def held_ok_def host_command_timeout_safe_stop_def split: if_splits)
  obtain es where es: "drain_events sensors = (Inr es, cl_sensors c2)"
    using traffic_replayed [OF traffic, of "initial_replay (cl_session c1)\<lparr>rp_manual_stop_sent := cl_manual_stop_sent c1\<rparr>"] pipe(1)
    by (auto simp: initial_replay_def)
  show ?thesis
  proof (rule that [OF pipe(1) _ _ hok r(3)])
    show "drain_events sensors = (Inr es, cl_sensors c3)" using es same by simp
    show "view c3 = (measured (cl_world c1) @ map as_measured delivered,
       estimated (cl_world c1) @ [as_estimated (estimate_record k t (hd_estimate ?h))], ordered (cl_world c1) @ [as_ordered r])"
      using r(6) pipe(2) by (simp add: view_def)
    show "\<exists>effective source. records_command k effective source r" using r(2) by blast
    fix i :: replay_input and p :: "'f cil_replay" and n d
    assume p: "follows c1 n p" and i: "ri_scenario i = s" "ri_timeout i = timeout" "\<not> flt (ri_tolerance i) 0"
      and data: "delivered_at (ri_measurements i) k = delivered" "map_of (ri_estimates i) k = Some d"
        "same_dict d (estimate_record k t (hd_estimate ?h))" "map_of (ri_commands i) k = Some r"
    have "replay_traffic (ce_react env) i k t p =
         (Inr events, p\<lparr>rp_session := cl_session c2, rp_manual_stop_sent := cl_manual_stop_sent c2,
                      rp_measurements_replayed := rp_measurements_replayed p + length delivered\<rparr>)"
      using p traffic_replayed [OF traffic, of p] pipe(1) i(1) data(1) by (force simp: follows_def)
    moreover have "compare_step (ri_tolerance i) (hd_estimate ?h) effective source d r no_errors = Inr no_errors"
      using compare_same [OF data(3) _ _ r(2) r(4,5) target i(3)] hok by (simp add: held_ok_def)
    ultimately show "\<exists>p'. replay_step (ce_react env) i k p = (Inr (), p') \<and> follows c3 (n + length delivered) p'"
      using p i data r(1) time same
      by (simp add: replay_step_def bindM_def replay_compare_def follows_def Let_def flip: held)
  qed
qed

text \<open>What is recorded of a run up to a step: the deliveries, the estimates and the commands.\<close>

definition recording ::
  "scenario \<Rightarrow> nat \<Rightarrow> ('f, 'r, 'x) cil \<Rightarrow> measurement list list \<Rightarrow> pydict list \<Rightarrow> command_record list \<Rightarrow> bool" where
  "recording s n c delivered es cs \<longleftrightarrow>
     length delivered = n \<and> length es = n \<and> length cs = n
     \<and> view c = (map as_measured (concat delivered), map as_estimated es, map as_ordered cs)
     \<and> (\<forall>k<n. (\<forall>m\<in>set (delivered ! k). mt_delivery_step_id (times_of m) = int k)
          \<and> (\<exists>t e. isfinite t \<and> es ! k = estimate_record (int k) t e \<and> list_all isfinite (estimate_values e)
               \<and> length (se_covariance_diagonal e) = 6)
          \<and> (\<exists>effective source. records_command (int k) effective source (cs ! k)))"

lemma recording_Suc:
  assumes "recording s n c delivered es cs"
    and "view c' = (measured (cl_world c) @ map as_measured ms, estimated (cl_world c) @ [as_estimated (estimate_record (int n) t e)],
      ordered (cl_world c) @ [as_ordered r])"
    and "\<forall>m\<in>set ms. mt_delivery_step_id (times_of m) = int n" "isfinite t" "list_all isfinite (estimate_values e)"
      "length (se_covariance_diagonal e) = 6" "\<exists>effective source. records_command (int n) effective source r"
  shows "recording s (Suc n) c' (delivered @ [ms]) (es @ [estimate_record (int n) t e]) (cs @ [r])"
  using assms unfolding recording_def by (auto simp: view_def nth_append less_Suc_eq)

lemma lockstep_followed:
  assumes "lockstep env s timeout last_step c0 heard c"
    and begins: "view c0 = ([], [], [])" "returning_run (ce_sensors env) (cl_sensors c0)" "cl_held c0 = nothing_held" "pl_last_step (cl_sensors c0) = - 1"
  shows "\<exists>delivered es cs. recording s (length heard) c delivered es cs \<and> returning_run (ce_sensors env) (cl_sensors c)
    \<and> held_ok (cl_held c) \<and> pl_last_step (cl_sensors c) = int (length heard) - 1
    \<and> (\<forall>i p0. serves i s timeout delivered es cs (length heard) \<longrightarrow> follows c0 0 p0 \<longrightarrow>
         (\<exists>p. replay_loop (ce_react env) i [0..<length heard] p0 = (Inr (), p) \<and> follows c (length (concat delivered)) p))"
  using assms(1)
proof (induction rule: lockstep.induct)
  case start
  have "recording s 0 c0 [] [] []" using begins(1) by (simp add: recording_def)
  then show ?case using begins(2-4) nothing_held_ok by fastforce
next
  case (step heard c1 t events c2 c3)
  let ?n = "length heard"
  from step.IH obtain delivered es cs where IH: "recording s ?n c1 delivered es cs"
    "returning_run (ce_sensors env) (cl_sensors c1)" "held_ok (cl_held c1)"
    "\<And>i p0. serves i s timeout delivered es cs ?n \<Longrightarrow> follows c0 0 p0 \<Longrightarrow>
       \<exists>p. replay_loop (ce_react env) i [0..<?n] p0 = (Inr (), p) \<and> follows c1 (length (concat delivered)) p"
    by blast
  obtain ms sensors evs r where now:
    "pipeline_step (ce_sensors env) (int ?n) t (cl_state c1) (cl_sensors c1) = (Inr ms, sensors)"
    "drain_events sensors = (Inr evs, cl_sensors c3)"
    "view c3 = (measured (cl_world c1) @ map as_measured ms,
       estimated (cl_world c1) @ [as_estimated (estimate_record (int ?n) t (hd_estimate (cl_held c3)))],
       ordered (cl_world c1) @ [as_ordered r])"
    "held_ok (cl_held c3)" "isfinite t" "\<exists>effective source. records_command (int ?n) effective source r"
    and follow: "\<And>i p n d. follows c1 n p \<Longrightarrow> ri_scenario i = s \<Longrightarrow> ri_timeout i = timeout \<Longrightarrow> \<not> flt (ri_tolerance i) 0 \<Longrightarrow>
       delivered_at (ri_measurements i) (int ?n) = ms \<Longrightarrow> map_of (ri_estimates i) (int ?n) = Some d \<Longrightarrow>
       same_dict d (estimate_record (int ?n) t (hd_estimate (cl_held c3))) \<Longrightarrow> map_of (ri_commands i) (int ?n) = Some r \<Longrightarrow>
       \<exists>p'. replay_step (ce_react env) i (int ?n) p = (Inr (), p') \<and> follows c3 (n + length ms) p'"
    by (rule step_follows [OF step.hyps(3,4,2) IH(3)]) (rule that; fast)
  let ?e = "estimate_record (int ?n) t (hd_estimate (cl_held c3))"
  have "\<forall>m\<in>set ms. mt_delivery_step_id (times_of m) = int ?n"
    using on_time(1) [OF IH(2) now(1)] .
  then have recorded: "recording s (Suc ?n) c3 (delivered @ [ms]) (es @ [?e]) (cs @ [r])"
    using recording_Suc [OF IH(1) now(3)] now(4-6) by (simp add: held_ok_def)
  moreover have "returning_run (ce_sensors env) (cl_sensors c3)"
    using returning_run.events [OF returning_run.step [OF IH(2) now(1)] now(2)] .
  moreover have "\<exists>p. replay_loop (ce_react env) i [0..<Suc ?n] p0 = (Inr (), p) \<and> follows c3 (length (concat (delivered @ [ms]))) p"
    if serves: "serves i s timeout (delivered @ [ms]) (es @ [?e]) (cs @ [r]) (Suc ?n)" and p0: "follows c0 0 p0" for i p0
  proof -
    have lengths: "length delivered = ?n" "length es = ?n" "length cs = ?n" using IH(1) by (simp_all add: recording_def)
    then have "serves i s timeout delivered es cs ?n"
      using serves by (auto simp: serves_def nth_append split: if_splits)
    then obtain p where p: "replay_loop (ce_react env) i [0..<?n] p0 = (Inr (), p)" "follows c1 (length (concat delivered)) p"
      using IH(4) p0 by blast
    obtain d where d: "map_of (ri_estimates i) (int ?n) = Some d" "same_dict d ?e"
      using serves lengths by (auto simp: serves_def nth_append)
    obtain p' where "replay_step (ce_react env) i (int ?n) p = (Inr (), p')" "follows c3 (length (concat delivered) + length ms) p'"
      using follow [OF p(2) _ _ _ _ d] serves lengths by (auto simp: serves_def nth_append)
    then show ?thesis
      using replay_loop_append [OF p(1), of "[?n]"] by (simp add: bindM_def)
  qed
  moreover have "pl_last_step (cl_sensors c3) = int (Suc ?n) - 1"
    using on_time(2) [OF IH(2) now(1)] drain_events_inv [OF now(2)] by simp
  ultimately show ?case
    using now(4) by (intro exI [of _ "delivered @ [ms]"] exI [of _ "es @ [?e]"] exI [of _ "cs @ [r]"]) (auto simp del: upt_Suc)
qed

text \<open>The end of a run: what was still pending is logged too, and due after the last step.\<close>

lemma finish_logged:
  assumes "finish_run env s c = (Inr result, c')" "returning_run (ce_sensors env) (cl_sensors c)"
  shows "\<exists>late. view c' = (measured (cl_world c) @ map as_measured late, estimated (cl_world c), ordered (cl_world c))
    \<and> (\<forall>m\<in>set late. pl_last_step (cl_sensors c) < mt_delivery_step_id (times_of m))"
proof -
  from assms(1) obtain late c1 c2 c3 summary path where
    c1: "on_sensors drain_pending c = (Inr late, c1)" and c2: "log_all env (map Log_Measurement late) c1 = (Inr (), c2)"
    and c3: "on_world (ce_finalize env summary) c2 = (Inr path, c3)" and c': "on_world (ce_dashboard env) c3 = (Inr (), c')"
    by (auto simp: finish_run_def logging bindM_eq_Inr)
  have "view c' = view c2"
    using c3 c' finalized dashboard by (fastforce simp: on_world_def view_def split: prod.splits)
  moreover have "view c1 = view c" by (rule settlesD [OF settles_inner(2) c1])
  ultimately have "view c' = (measured (cl_world c) @ map as_measured late, estimated (cl_world c), ordered (cl_world c))"
    using log_measurements [OF c2] by (simp add: view_def)
  moreover have "\<exists>s'. drain_pending (cl_sensors c) = (Inr late, s')"
    using c1 by (auto simp: on_sensors_def split: prod.splits)
  ultimately show ?thesis using late_measurements [OF assms(2)] by blast
qed

text \<open>Which replay input a recording of the run gives.\<close>

lemma recording_serves:
  assumes rec: "recording s (Suc n) c delivered es cs" and late: "\<forall>m\<in>set late. int n < mt_delivery_step_id (times_of m)"
    and ds: "list_all2 same_dict ds es"
  shows "indexed_estimates (ds, None) (int n) = Inr (zip (map int [0..<Suc n]) ds)"
    "indexed_commands (cs, None) (int n) = Inr (zip (map int [0..<Suc n]) cs)"
    "serves \<lparr>ri_scenario = s, ri_measurements = concat delivered @ late, ri_estimates = zip (map int [0..<Suc n]) ds,
       ri_commands = zip (map int [0..<Suc n]) cs, ri_timeout = timeout, ri_tolerance = tolerance\<rparr> s timeout delivered es cs (Suc n)
     \<longleftrightarrow> \<not> flt tolerance 0"
proof -
  have lengths: "length delivered = Suc n" "length es = Suc n" "length cs = Suc n" "length ds = Suc n"
    using rec list_all2_lengthD [OF ds] by (simp_all add: recording_def)
  have est: "same_dict (ds ! k) (es ! k)" "estimate_step (ds ! k) = Inr (int k) \<and> check_estimate (ds ! k) = Inr ()" if "k < Suc n" for k
  proof -
    show same: "same_dict (ds ! k) (es ! k)" using ds that lengths by (simp add: list_all2_conv_all_nth)
    have "\<exists>t e. isfinite t \<and> es ! k = estimate_record (int k) t e \<and> list_all isfinite (estimate_values e)
        \<and> length (se_covariance_diagonal e) = 6"
      using rec that by (simp add: recording_def)
    then show "estimate_step (ds ! k) = Inr (int k) \<and> check_estimate (ds ! k) = Inr ()"
      using same estimate_step_read check_estimate_read by metis
  qed
  have cmd: "cr_step_id (cs ! k) = int k \<and> cr_source (cs ! k) \<in> {''embedded_cpp'', ''host_command_timeout_safe_stop''}" if "k < Suc n" for k
  proof -
    have "\<exists>effective source. records_command (int k) effective source (cs ! k)" using rec that by (simp add: recording_def)
    then show ?thesis by (auto simp: records_command_def)
  qed
  show "indexed_estimates (ds, None) (int n) = Inr (zip (map int [0..<Suc n]) ds)"
    using index_estimates_steps [of ds 0 "[]"] est(2) lengths covered [of ds n]
    by (simp add: indexed_estimates_def del: upt_Suc)
  show "indexed_commands (cs, None) (int n) = Inr (zip (map int [0..<Suc n]) cs)"
    using index_commands_steps [of cs 0 "[]"] cmd lengths covered [of cs n]
    by (simp add: indexed_commands_def del: upt_Suc)
  have "delivered_at (concat delivered @ late) (int k) = delivered ! k" if k: "k < Suc n" for k
  proof -
    have steps: "\<forall>j<length delivered. \<forall>m\<in>set (delivered ! j). mt_delivery_step_id (times_of m) = int (0 + j)"
      using rec lengths(1) by (simp add: recording_def)
    have "filter (\<lambda>m. mt_delivery_step_id (times_of m) = int k) late = []" using late k by (auto simp: filter_empty_conv)
    then show ?thesis using filter_steps [OF steps] k lengths(1) by (simp add: delivered_at_def)
  qed
  then show "serves \<lparr>ri_scenario = s, ri_measurements = concat delivered @ late, ri_estimates = zip (map int [0..<Suc n]) ds,
       ri_commands = zip (map int [0..<Suc n]) cs, ri_timeout = timeout, ri_tolerance = tolerance\<rparr> s timeout delivered es cs (Suc n)
     \<longleftrightarrow> \<not> flt tolerance 0"
    using est(1) nth_step [of _ ds] nth_step [of _ cs] lengths by (auto simp: serves_def simp del: upt_Suc)
qed

text \<open>The replay of a run that returned, from its own recording.\<close>

lemma body_replayed:
  assumes body: "cil_body env s timeout c = (Inr result, c')"
    and begins: "view c = ([], [], [])" "returning_run (ce_sensors env) (cl_sensors c)" "cl_held c = nothing_held"
      "pl_last_step (cl_sensors c) = - 1" and bound: "\<And>n. step_count s = Inr n \<Longrightarrow> 0 \<le> n"
  shows "\<exists>n delivered late es cs c1. step_count s = Inr (int n) \<and> recording s (Suc n) c1 delivered es cs
    \<and> (\<forall>m\<in>set late. int n < mt_delivery_step_id (times_of m))
    \<and> view c' = (map as_measured (concat delivered @ late), map as_estimated es, map as_ordered cs)
    \<and> (\<forall>i p0. serves i s timeout delivered es cs (Suc n) \<longrightarrow> follows c 0 p0 \<longrightarrow>
         (\<exists>p. replay_body (ce_react env) i p0 = (Inr (), p) \<and> follows c1 (length (concat delivered)) p))"
proof -
  from body obtain events n c0 c1 x y where before:
    "on_session (cil_handshake (ce_react env)) c = (Inr events, x)"
    "log_all env (session_event_records 0 0 events) x = (Inr (), y)"
    "on_session (send_scenario_route (ce_react env) s 0) y = (Inr (), c0)"
    and n: "step_count s = Inr n" and loop: "cil_loop env s timeout n [0..<nat n + 1] c0 = (Inr (), c1)"
    and finish: "finish_run env s c1 = (Inr result, c')"
    by (auto simp: cil_body_def bindM_eq_Inr simp del: upt_Suc)
  have "cil_loop env s timeout n [length ([] :: session_event list list)..<length ([] :: session_event list list) + (nat n + 1)] c0
      = (Inr (), c1)"
    using loop by (simp del: upt_Suc)
  from cil_loop_lockstep [OF this lockstep.start] obtain heard where heard: "length heard = nat n + 1"
    "lockstep env s timeout n c0 heard c1" by auto
  have view0: "view c0 = ([], [], [])"
    using settlesD [OF settles_inner(1) before(1)] settlesD [OF settles_log_all [OF elsewhere_records(1)] before(2)]
      settlesD [OF settles_inner(1) before(3)] begins(1) by simp
  have sensors0: "cl_sensors c0 = cl_sensors c" "cl_manual_stop_sent c0 = cl_manual_stop_sent c" "cl_held c0 = cl_held c"
    "cl_session y = cl_session x"
    using on_session_Inr [OF before(1)] leavesD [OF leaves_apart_log_all before(2)] on_session_Inr [OF before(3)]
      leavesD [OF leaves_world(1) before(1)] leavesD [OF leaves_log_all before(2)] leavesD [OF leaves_world(1) before(3)]
    by (simp_all add: apart_def trail_def)
  from lockstep_followed [OF heard(2) view0] begins(2-4) sensors0 heard(1) obtain delivered es cs where rec:
    "recording s (Suc (nat n)) c1 delivered es cs" "returning_run (ce_sensors env) (cl_sensors c1)"
    "pl_last_step (cl_sensors c1) = int (nat n)"
    "\<And>i p0. serves i s timeout delivered es cs (Suc (nat n)) \<Longrightarrow> follows c0 0 p0 \<Longrightarrow>
       \<exists>p. replay_loop (ce_react env) i [0..<Suc (nat n)] p0 = (Inr (), p) \<and> follows c1 (length (concat delivered)) p"
    by (auto simp del: upt_Suc)
  from finish_logged [OF finish rec(2)] obtain late where late:
    "view c' = (measured (cl_world c1) @ map as_measured late, estimated (cl_world c1), ordered (cl_world c1))"
    "\<forall>m\<in>set late. int (nat n) < mt_delivery_step_id (times_of m)"
    by (auto simp: rec(3))
  have "view c' = (map as_measured (concat delivered @ late), map as_estimated es, map as_ordered cs)"
    using late(1) rec(1) by (simp add: recording_def view_def)
  moreover have "\<exists>p. replay_body (ce_react env) i p0 = (Inr (), p) \<and> follows c1 (length (concat delivered)) p"
    if serves: "serves i s timeout delivered es cs (Suc (nat n))" and p0: "follows c 0 p0" for i p0
  proof -
    have "cil_handshake (ce_react env) (rp_session p0) = (Inr events, cl_session x)"
      "send_scenario_route (ce_react env) s 0 (cl_session x) = (Inr (), cl_session c0)"
      using on_session_Inr(1) [OF before(1)] on_session_Inr(1) [OF before(3)] p0 sensors0(4) by (simp_all add: follows_def)
    moreover have "follows c0 0 (p0\<lparr>rp_session := cl_session c0\<rparr>)"
      using p0 sensors0 by (simp add: follows_def)
    moreover have "ri_scenario i = s" using serves by (simp add: serves_def)
    ultimately show ?thesis
      using rec(4) [OF serves, of "p0\<lparr>rp_session := cl_session c0\<rparr>"] n
      by (simp add: replay_body_def bindM_def on_replay_def del: upt_Suc)
  qed
  ultimately show ?thesis
    using rec(1) late(2) n bound [OF n] by (intro exI [of _ "nat n"] exI) (auto simp del: upt_Suc)
qed

lemma replay_closes:
  assumes "body p = (r, p1)"
  shows "\<exists>p2. replay_guarded react body p = (r, p2) \<and> rp_figures p2 = rp_figures p1
    \<and> rp_measurements_replayed p2 = rp_measurements_replayed p1"
  using assms
  by (cases "pc_state (nt_process (ft_inner (sn_transport (rp_session p1))))")
    (auto simp: replay_guarded_def on_replay_def session_close_def cil_ops_def fault_ops_def fault_close_def native_ops_def
      native_close_def native_is_open_def)

lemma run_replayed:
  assumes "run_closed_loop env s runnable f world = (Inr result, world', Some c)"
    and bound: "\<And>n. step_count s = Inr n \<Longrightarrow> 0 \<le> n"
  shows "\<exists>n delivered late es cs. step_count s = Inr (int n)
    \<and> measured world' = map as_measured (concat delivered @ late) \<and> estimated world' = map as_estimated es
    \<and> ordered world' = map as_ordered cs \<and> (\<forall>d\<in>set es. \<exists>k t e. d = estimate_record k t e)
    \<and> (\<forall>run tolerance hash ds. rr_is_complete run \<and> scenario_from_mapping (rr_config run) = Inr s
          \<and> check_binary (rr_manifest run) hash = Inr () \<and> isfinite tolerance \<and> \<not> flt tolerance 0
          \<and> rr_measurements run = (concat delivered @ late, None) \<and> rr_estimates run = (ds, None) \<and> list_all2 same_dict ds es
          \<and> rr_commands run = (cs, None) \<longrightarrow>
         (\<exists>p. replay_native_run (ce_react env) run tolerance hash runnable f =
            (Inr \<lparr>nr_steps_replayed = int n + 1, nr_measurements_replayed = int (length (concat delivered)),
                  nr_post_run_measurements_ignored = int (length late), nr_estimate_mismatches = 0, nr_command_mismatches = 0,
                  nr_maximum_estimate_error = 0, nr_maximum_command_error = 0\<rparr>, Some p)))"
proof -
  from assms(1) obtain timeout session sensors world1 where
    checks: "check_route s = Inr ()" "command_timeout_steps (so_dt_s s) = Inr timeout" "new_session runnable f = Inr session"
    and pipe: "SensorPipeline (ce_sensors env) (so_dt_s s) (so_vehicle s) (so_sensors s) (so_landmarks s) (so_faults s)
               (so_seed s) = Inr sensors"
    and opens: "ce_open env world = (Inr (), world1)"
    and guarded: "cil_guarded env (cil_body env s timeout) (initial_cil session sensors world1 (so_initial_state s)) = (Inr result, c)"
    and world': "world' = cl_world c"
    by (auto simp: run_closed_loop_def logging bindR_eq_Inr split: sum.splits prod.splits)
  let ?c = "initial_cil session sensors world1 (so_initial_state s)"
  from guarded obtain c' where body: "cil_body env s timeout ?c = (Inr result, c')"
    and closed: "on_session (session_close (cil_ops (ce_react env))) c' = (Inr (), c)"
    by (auto simp: cil_guarded_def split: prod.splits sum.splits if_splits)
  have "view ?c = ([], [], [])" using opened [OF opens] by (simp add: initial_cil_def view_def)
  from body_replayed [OF body this _ _ _ bound] obtain n delivered late es cs c1 where b:
    "step_count s = Inr (int n)" "recording s (Suc n) c1 delivered es cs"
    "\<forall>m\<in>set late. int n < mt_delivery_step_id (times_of m)"
    "view c' = (map as_measured (concat delivered @ late), map as_estimated es, map as_ordered cs)"
    "\<And>i p0. serves i s timeout delivered es cs (Suc n) \<Longrightarrow> follows ?c 0 p0 \<Longrightarrow>
       \<exists>p. replay_body (ce_react env) i p0 = (Inr (), p) \<and> follows c1 (length (concat delivered)) p"
    using returning_run.start [OF pipe] constructor_inv(1) [OF pipe] by (auto simp: initial_cil_def)
  have "view c = view c'" by (rule settlesD [OF settles_inner(1) closed])
  then have recorded: "measured world' = map as_measured (concat delivered @ late)" "estimated world' = map as_estimated es"
    "ordered world' = map as_ordered cs"
    using b(4) by (simp_all add: view_def world')
  have "\<exists>p. replay_native_run (ce_react env) run tolerance hash runnable f =
            (Inr \<lparr>nr_steps_replayed = int n + 1, nr_measurements_replayed = int (length (concat delivered)),
                  nr_post_run_measurements_ignored = int (length late), nr_estimate_mismatches = 0, nr_command_mismatches = 0,
                  nr_maximum_estimate_error = 0, nr_maximum_command_error = 0\<rparr>, Some p)"
    if run: "rr_is_complete run" "scenario_from_mapping (rr_config run) = Inr s" "check_binary (rr_manifest run) hash = Inr ()"
      "isfinite tolerance" "\<not> flt tolerance 0" "rr_measurements run = (concat delivered @ late, None)"
      "rr_estimates run = (ds, None)" "list_all2 same_dict ds es" "rr_commands run = (cs, None)" for run tolerance hash ds
  proof -
    note serve = recording_serves [OF b(2,3) run(8)]
    define i where "i = \<lparr>ri_scenario = s, ri_measurements = concat delivered @ late, ri_estimates = zip (map int [0..<Suc n]) ds,
       ri_commands = zip (map int [0..<Suc n]) cs, ri_timeout = timeout, ri_tolerance = tolerance\<rparr>"
    have i: "replay_input_of run tolerance hash = Inr i"
      using run checks b(1) serve(1,2) by (simp add: replay_input_of_def guardR_def all_of_def i_def del: upt_Suc)
    have "follows ?c 0 (initial_replay session)"
      by (simp add: follows_def initial_cil_def initial_replay_def no_errors_def)
    then obtain p where p: "replay_body (ce_react env) i (initial_replay session) = (Inr (), p)"
      "follows c1 (length (concat delivered)) p"
      using b(5) [of i] serve(3) [of timeout tolerance] run(5) unfolding i_def by blast
    from replay_closes [of "replay_body (ce_react env) i", OF p(1)] obtain p2 where
      "replay_guarded (ce_react env) (replay_body (ce_react env) i) (initial_replay session) = (Inr (), p2)"
      "rp_figures p2 = rp_figures p" "rp_measurements_replayed p2 = rp_measurements_replayed p" by blast
    then show ?thesis
      using i checks(3) b(1) p(2)
      by (simp add: replay_native_run_def replay_result_of_def follows_def no_errors_def i_def del: upt_Suc)
  qed
  moreover have "\<forall>d\<in>set es. \<exists>k t e. d = estimate_record k t e"
    using b(2) unfolding recording_def by (metis in_set_conv_nth)
  ultimately show ?thesis using b(1) recorded by blast
qed

end

end
