(* ===== verification/Run_Log.thy ===== *)
theory Run_Log
  imports Run_Records Scenario_Parse
begin

text \<open>
  \<^verbatim>\<open>RunLogger\<close> of \<^verbatim>\<open>runlog.py\<close>: the directory of a run, and the writer that appends records to it
  until the run is finalized or closed as incomplete. A JSON file is the value of its text, a JSON-lines
  file the values of its lines, a CSV cell its text with what \<^verbatim>\<open>int\<close> and \<^verbatim>\<open>float\<close> read in it. Any file
  operation may fail: after \<open>lg_budget\<close> of them every further one raises \<^verbatim>\<open>OSError\<close>, and the first that
  fails may leave a torn line. That is also what a crash of the program leaves behind.
\<close>

section \<open>The directory\<close>

datatype json_line = JL_Blank | JL_Invalid | JL_Value pyval

text \<open>\<open>jf_ended\<close>: the last line ends with a newline.\<close>

record json_file =
  jf_lines :: "json_line list"
  jf_ended :: bool

record cell =
  ce_text :: string
  ce_int :: "int option"
  ce_float :: "f64 option"

record csv_file =
  cf_header :: "string list"
  cf_rows :: "cell list list"

record run_dir =
  rd_marker :: bool
  rd_config :: "pyval option"
  rd_manifest :: "pyval option"
  rd_summary :: "pyval option"
  rd_ground_truth :: "csv_file option"
  rd_commands :: "csv_file option"
  rd_timing :: "csv_file option"
  rd_measurements :: "json_file option"
  rd_estimates :: "json_file option"
  rd_events :: "json_file option"

definition empty_dir :: run_dir where
  "empty_dir = \<lparr>rd_marker = False, rd_config = None, rd_manifest = None, rd_summary = None, rd_ground_truth = None,
     rd_commands = None, rd_timing = None, rd_measurements = None, rd_estimates = None, rd_events = None\<rparr>"

section \<open>The logger\<close>

record record_counts =
  rn_ground_truth :: nat
  rn_measurements :: nat
  rn_estimates :: nat
  rn_commands :: nat
  rn_events :: nat
  rn_timing :: nat

text \<open>What the failing write of a line leaves: nothing, a part (of a row these cells), or all but the newline.\<close>

datatype torn = Nothing_Left | Part_Left "cell list" | No_Newline

record run_logger =
  lg_dir :: run_dir
  lg_closed :: bool
  lg_files_open :: bool
  lg_counts :: record_counts
  lg_manifest :: pydict
  lg_budget :: nat
  lg_torn :: torn

text \<open>
  What the machine supplies: the text of a float, \<^verbatim>\<open>str\<close> of a value that is not a string, the digest of a JSON
  text, the clock, the version and the state of the git checkout.
\<close>

record log_env =
  le_float_text :: "f64 \<Rightarrow> string"
  le_str :: "pyval \<Rightarrow> string"
  le_digest :: "pyval \<Rightarrow> string"
  le_started_utc :: string
  le_completed_utc :: string
  le_version :: string
  le_git_commit :: "string option"
  le_git_dirty :: "bool option"
  le_source_tree :: "string option"

text \<open>One file operation on the directory.\<close>

definition file_op :: "(run_dir \<Rightarrow> run_dir) \<Rightarrow> (run_logger, unit) meth" where
  "file_op f l =
     (case lg_budget l of
        0 \<Rightarrow> (Inl OSError, l)
      | Suc n \<Rightarrow> (Inr (), l\<lparr>lg_dir := f (lg_dir l), lg_budget := n\<rparr>))"

definition log_lines :: "json_file option \<Rightarrow> json_line list" where
  "log_lines f = (case f of None \<Rightarrow> [] | Some f \<Rightarrow> jf_lines f)"

definition log_rows :: "csv_file option \<Rightarrow> cell list list" where
  "log_rows f = (case f of None \<Rightarrow> [] | Some f \<Rightarrow> cf_rows f)"

definition append_json :: "json_line \<Rightarrow> bool \<Rightarrow> json_file option \<Rightarrow> json_file option" where
  "append_json line ended f = Some \<lparr>jf_lines = log_lines f @ [line], jf_ended = ended\<rparr>"

definition append_row :: "cell list \<Rightarrow> csv_file option \<Rightarrow> csv_file option" where
  "append_row row f =
     Some \<lparr>cf_header = (case f of None \<Rightarrow> [] | Some f \<Rightarrow> cf_header f), cf_rows = log_rows f @ [row]\<rparr>"

text \<open>
  A line is written and flushed; \<open>torn\<close> is what is left of it if the operation fails. A file that was
  closed raises \<^verbatim>\<open>ValueError\<close>.
\<close>

definition write_line :: "(run_dir \<Rightarrow> run_dir) \<Rightarrow> (torn \<Rightarrow> run_dir \<Rightarrow> run_dir) \<Rightarrow> (run_logger, unit) meth" where
  "write_line whole part l =
     (if \<not> lg_files_open l then (Inl ValueError, l)
      else if lg_budget l = 0 then (Inl OSError, l\<lparr>lg_dir := part (lg_torn l) (lg_dir l), lg_torn := Nothing_Left\<rparr>)
      else file_op whole l)"

text \<open>A part of the text of a dict is not JSON.\<close>

definition write_jsonl ::
  "((json_file option \<Rightarrow> json_file option) \<Rightarrow> run_dir \<Rightarrow> run_dir) \<Rightarrow> pydict \<Rightarrow> (run_logger, unit) meth" where
  "write_jsonl update d =
     bindM (liftM (json_text d)) (\<lambda>_.
       let line = JL_Value (V_Dict (json_dict d)) in
       write_line (update (append_json line True))
         (\<lambda>torn. case torn of
            Nothing_Left \<Rightarrow> id
          | Part_Left _ \<Rightarrow> update (append_json JL_Invalid False)
          | No_Newline \<Rightarrow> update (append_json line False)))"

definition write_row ::
  "((csv_file option \<Rightarrow> csv_file option) \<Rightarrow> run_dir \<Rightarrow> run_dir) \<Rightarrow> cell list \<Rightarrow> (run_logger, unit) meth" where
  "write_row update row =
     write_line (update (append_row row))
       (\<lambda>torn. case torn of
          Nothing_Left \<Rightarrow> id
        | Part_Left cells \<Rightarrow> update (append_row cells)
        | No_Newline \<Rightarrow> update (append_row row))"

definition ensure_open :: "(run_logger, unit) meth" where
  "ensure_open l = (if lg_closed l then (Inl RunLogError, l) else (Inr (), l))"

definition int_cell :: "int \<Rightarrow> cell" where
  "int_cell n = \<lparr>ce_text = show_int n, ce_int = Some n,
     ce_float = Some (case float_of_int n of Inr x \<Rightarrow> x | Inl _ \<Rightarrow> f64_of (n < 0) f64_inf_mag)\<rparr>"

definition float_cell :: "log_env \<Rightarrow> f64 \<Rightarrow> cell" where
  "float_cell env x = \<lparr>ce_text = le_float_text env x, ce_int = None, ce_float = Some x\<rparr>"

text \<open>No column that holds text is read as a number.\<close>

definition text_cell :: "string \<Rightarrow> cell" where
  "text_cell s = \<lparr>ce_text = s, ce_int = None, ce_float = None\<rparr>"

definition GROUND_TRUTH_FIELDS :: "string list" where
  "GROUND_TRUTH_FIELDS = [''step_id'', ''time_s'', ''x_m'', ''y_m'', ''heading_rad'', ''speed_mps'', ''steering_rad'',
     ''acceleration_mps2'', ''command_acceleration_mps2'', ''command_steering_rad'']"

definition COMMAND_FIELDS :: "string list" where
  "COMMAND_FIELDS = [''step_id'', ''time_s'', ''acceleration_mps2'', ''steering_rad'', ''target_speed_mps'', ''mode'',
     ''flags'', ''source'']"

definition TIMING_FIELDS :: "string list" where
  "TIMING_FIELDS = [''step_id'', ''time_s'', ''component'', ''duration_s'']"

fun CommandMode_value :: "command_mode \<Rightarrow> string" where
  "CommandMode_value LM_OPEN_LOOP = ''open_loop''"
| "CommandMode_value LM_NEUTRAL = ''neutral''"
| "CommandMode_value LM_TRACKING = ''tracking''"
| "CommandMode_value LM_SAFE_STOP = ''safe_stop''"

text \<open>The files of the directory.\<close>

definition on_ground_truth :: "(csv_file option \<Rightarrow> csv_file option) \<Rightarrow> run_dir \<Rightarrow> run_dir" where
  "on_ground_truth f d = d\<lparr>rd_ground_truth := f (rd_ground_truth d)\<rparr>"

definition on_commands :: "(csv_file option \<Rightarrow> csv_file option) \<Rightarrow> run_dir \<Rightarrow> run_dir" where
  "on_commands f d = d\<lparr>rd_commands := f (rd_commands d)\<rparr>"

definition on_timing :: "(csv_file option \<Rightarrow> csv_file option) \<Rightarrow> run_dir \<Rightarrow> run_dir" where
  "on_timing f d = d\<lparr>rd_timing := f (rd_timing d)\<rparr>"

definition on_measurements :: "(json_file option \<Rightarrow> json_file option) \<Rightarrow> run_dir \<Rightarrow> run_dir" where
  "on_measurements f d = d\<lparr>rd_measurements := f (rd_measurements d)\<rparr>"

definition on_estimates :: "(json_file option \<Rightarrow> json_file option) \<Rightarrow> run_dir \<Rightarrow> run_dir" where
  "on_estimates f d = d\<lparr>rd_estimates := f (rd_estimates d)\<rparr>"

definition on_events :: "(json_file option \<Rightarrow> json_file option) \<Rightarrow> run_dir \<Rightarrow> run_dir" where
  "on_events f d = d\<lparr>rd_events := f (rd_events d)\<rparr>"

section \<open>Opening\<close>

text \<open>\<^verbatim>\<open>name != Path(name).name\<close> is a name with a separator; the dots are refused by name.\<close>

definition safe_name :: "string \<Rightarrow> bool" where
  "safe_name name \<longleftrightarrow> name \<noteq> [] \<and> CHR ''/'' \<notin> set name \<and> name \<notin> {''.'', ''..''}"

definition hex_char :: "char \<Rightarrow> bool" where
  "hex_char c \<longleftrightarrow> c \<in> set ''0123456789abcdef''"

definition optional_sha256 :: "string option \<Rightarrow> string option result" where
  "optional_sha256 v =
     (case v of
        None \<Rightarrow> Inr None
      | Some s \<Rightarrow>
          bindR (guardR (length (lower s) \<noteq> 64 \<or> \<not> list_all hex_char (lower s)) ValueError)
            (\<lambda>_. Inr (Some (lower s))))"

definition config_sha256 :: "log_env \<Rightarrow> pyval \<Rightarrow> string result" where
  "config_sha256 env v = (if json_ok v then Inr (le_digest env (json_value v)) else Inl ValueError)"

definition opt_text :: "string option \<Rightarrow> pyval" where
  "opt_text v = (case v of None \<Rightarrow> V_None | Some s \<Rightarrow> V_Str s)"

definition manifest_of :: "log_env \<Rightarrow> scenario \<Rightarrow> string \<Rightarrow> string option \<Rightarrow> pydict" where
  "manifest_of env s config_hash binary =
     [(''run_format_version'', V_Int 1), (''status'', V_Str ''incomplete''), (''scenario_name'', V_Str (so_name s)),
      (''seed'', V_Int (so_seed s)), (''config_sha256'', V_Str config_hash), (''software_version'', V_Str (le_version env)),
      (''git_commit'', opt_text (le_git_commit env)),
      (''git_dirty'', case le_git_dirty env of None \<Rightarrow> V_None | Some b \<Rightarrow> V_Bool b),
      (''source_tree_sha256'', opt_text (le_source_tree env)), (''controller_binary_sha256'', opt_text binary),
      (''started_utc'', V_Str (le_started_utc env))]"

definition no_records :: record_counts where
  "no_records = \<lparr>rn_ground_truth = 0, rn_measurements = 0, rn_estimates = 0, rn_commands = 0, rn_events = 0, rn_timing = 0\<rparr>"

definition write_manifest :: "(run_logger, unit) meth" where
  "write_manifest l = file_op (\<lambda>d. d\<lparr>rd_manifest := Some (json_value (V_Dict (lg_manifest l)))\<rparr>) l"

definition new_csv :: "string list \<Rightarrow> csv_file option" where
  "new_csv header = Some \<lparr>cf_header = header, cf_rows = []\<rparr>"

definition new_json :: "json_file option" where
  "new_json = Some \<lparr>jf_lines = [], jf_ended = True\<rparr>"

text \<open>The files in the order in which they are made. The YAML of the configuration has sorted keys.\<close>

definition make_files :: "pyval \<Rightarrow> (run_logger, unit) meth" where
  "make_files config =
     bindM (file_op (\<lambda>d. d\<lparr>rd_marker := True\<rparr>)) (\<lambda>_.
     bindM (file_op (\<lambda>d. d\<lparr>rd_config := Some (json_value config)\<rparr>)) (\<lambda>_.
     bindM write_manifest (\<lambda>_.
     bindM (file_op (\<lambda>d. d\<lparr>rd_summary := Some (V_Dict [(''status'', V_Str ''incomplete'')])\<rparr>)) (\<lambda>_.
     bindM (file_op (\<lambda>d. d\<lparr>rd_ground_truth := new_csv GROUND_TRUTH_FIELDS\<rparr>)) (\<lambda>_.
     bindM (file_op (\<lambda>d. d\<lparr>rd_commands := new_csv COMMAND_FIELDS\<rparr>)) (\<lambda>_.
     bindM (file_op (\<lambda>d. d\<lparr>rd_timing := new_csv TIMING_FIELDS\<rparr>)) (\<lambda>_.
     bindM (file_op (\<lambda>d. d\<lparr>rd_measurements := new_json\<rparr>)) (\<lambda>_.
     bindM (file_op (\<lambda>d. d\<lparr>rd_estimates := new_json\<rparr>)) (\<lambda>_.
       file_op (\<lambda>d. d\<lparr>rd_events := new_json\<rparr>))))))))))"

text \<open>
  \<^verbatim>\<open>RunLogger(output_root, scenario, ...)\<close>; \<open>exists\<close> says that the directory is there already. The
  digest of the configuration is taken after the directory is made. The result is the logger, and the
  directory if one was made.
\<close>

definition RunLogger ::
  "log_env \<Rightarrow> scenario \<Rightarrow> string option \<Rightarrow> string option \<Rightarrow> bool \<Rightarrow> nat \<Rightarrow> torn \<Rightarrow> run_logger result \<times> run_dir option" where
  "RunLogger env s run_name binary exists budget torn =
     (let name = (case run_name of Some (c # cs) \<Rightarrow> c # cs | _ \<Rightarrow> so_name s) in
      case bindR (guardR (\<not> safe_name name) ValueError) (\<lambda>_.
             bindR (optional_sha256 binary) (\<lambda>b. bindR (guardR exists OSError) (\<lambda>_. Inr b))) of
        Inl e \<Rightarrow> (Inl e, None)
      | Inr b \<Rightarrow>
          (case config_sha256 env (scenario_to_mapping s) of
             Inl e \<Rightarrow> (Inl e, Some empty_dir)
           | Inr hash \<Rightarrow>
               (case make_files (scenario_to_mapping s)
                       \<lparr>lg_dir = empty_dir, lg_closed = False, lg_files_open = True, lg_counts = no_records,
                        lg_manifest = manifest_of env s hash b, lg_budget = budget, lg_torn = torn\<rparr> of
                  (Inl e, l) \<Rightarrow> (Inl e, Some (lg_dir l))
                | (Inr _, l) \<Rightarrow> (Inr l, Some (lg_dir l)))))"

definition logger_is_complete :: "run_logger \<Rightarrow> bool" where
  "logger_is_complete l \<longleftrightarrow> lg_closed l \<and> dict_get ''status'' (lg_manifest l) = Some (V_Str ''complete'')"

section \<open>Recording\<close>

definition count_record :: "(record_counts \<Rightarrow> record_counts) \<Rightarrow> (run_logger, unit) meth" where
  "count_record f = modifyM (\<lambda>l. l\<lparr>lg_counts := f (lg_counts l)\<rparr>)"

definition ground_truth_row :: "log_env \<Rightarrow> simulation_sample \<Rightarrow> cell list" where
  "ground_truth_row env x =
     int_cell (sm_step_id x) # map (float_cell env)
       [sm_time_s x, vs_x_m (sm_state x), vs_y_m (sm_state x), vs_heading_rad (sm_state x), vs_speed_mps (sm_state x),
        vs_steering_rad (sm_state x), vs_acceleration_mps2 (sm_state x),
        cm_acceleration_mps2 (sm_command x), cm_steering_rad (sm_command x)]"

definition record_ground_truth :: "log_env \<Rightarrow> simulation_sample \<Rightarrow> (run_logger, unit) meth" where
  "record_ground_truth env x =
     bindM ensure_open (\<lambda>_.
     bindM (write_row on_ground_truth (ground_truth_row env x)) (\<lambda>_.
       count_record (\<lambda>c. c\<lparr>rn_ground_truth := rn_ground_truth c + 1\<rparr>)))"

definition record_measurement :: "measurement \<Rightarrow> (run_logger, unit) meth" where
  "record_measurement m =
     bindM ensure_open (\<lambda>_.
     bindM (liftM (serialize_measurement m)) (\<lambda>d.
     bindM (write_jsonl on_measurements d) (\<lambda>_.
       count_record (\<lambda>c. c\<lparr>rn_measurements := rn_measurements c + 1\<rparr>))))"

definition record_estimate :: "pydict \<Rightarrow> (run_logger, unit) meth" where
  "record_estimate d =
     bindM ensure_open (\<lambda>_.
     bindM (liftM (json_text d)) (\<lambda>_.
     bindM (liftM (guardR (dict_get ''step_id'' d = None \<or> dict_get ''time_s'' d = None) ValueError)) (\<lambda>_.
     bindM (write_jsonl on_estimates d) (\<lambda>_.
       count_record (\<lambda>c. c\<lparr>rn_estimates := rn_estimates c + 1\<rparr>)))))"

definition command_row :: "log_env \<Rightarrow> command_record \<Rightarrow> cell list" where
  "command_row env r =
     [int_cell (cr_step_id r), float_cell env (cr_time_s r), float_cell env (cm_acceleration_mps2 (cr_command r)),
      float_cell env (cm_steering_rad (cr_command r)), float_cell env (cr_target_speed_mps r),
      text_cell (CommandMode_value (cr_mode r)), int_cell (cr_flags r), text_cell (cr_source r)]"

definition record_command :: "log_env \<Rightarrow> command_record \<Rightarrow> (run_logger, unit) meth" where
  "record_command env r =
     bindM ensure_open (\<lambda>_.
     bindM (liftM (validate_step_time (cr_step_id r) (cr_time_s r))) (\<lambda>_.
     bindM (liftM (finite_real (cr_target_speed_mps r))) (\<lambda>target.
     bindM (liftM (guardR (cr_source r = []) ValueError)) (\<lambda>_.
     bindM (liftM (guardR (flt target 0) ValueError)) (\<lambda>_.
     bindM (liftM (guardR (cr_flags r < 0 \<or> 255 < cr_flags r) ValueError)) (\<lambda>_.
     bindM (write_row on_commands (command_row env r)) (\<lambda>_.
       count_record (\<lambda>c. c\<lparr>rn_commands := rn_commands c + 1\<rparr>))))))))"

text \<open>An event is a \<^verbatim>\<open>RunEvent\<close>, which was checked when it was made, a sensor event or a dict.\<close>

datatype event_arg = EA_Run pydict | EA_Sensor sensor_event | EA_Dict pydict

definition sensor_event_dict :: "sensor_event \<Rightarrow> pydict" where
  "sensor_event_dict e =
     [(''step_id'', V_Int (sv_step_id e)), (''time_s'', V_Float (sv_time_s e)), (''event_type'', V_Str (sv_event_type e)),
      (''source'', V_Str (sv_sensor e)), (''detail'', V_Str (sv_detail e)), (''severity'', V_Str ''info'')]"

definition set_default :: "string \<Rightarrow> pyval \<Rightarrow> pydict \<Rightarrow> pydict" where
  "set_default k v d = (if dict_get k d = None then d @ [(k, v)] else d)"

definition event_dict :: "event_arg \<Rightarrow> pydict result" where
  "event_dict e =
     (case e of
        EA_Run d \<Rightarrow> Inr d
      | EA_Sensor x \<Rightarrow> Inr (sensor_event_dict x)
      | EA_Dict d \<Rightarrow>
          bindR (json_text d) (\<lambda>_.
          bindR (guardR (list_ex (\<lambda>k. dict_get k d = None) [''step_id'', ''time_s'', ''event_type'', ''source'']) ValueError) (\<lambda>_.
            let d1 = set_default ''severity'' (V_Str ''info'') (set_default ''detail'' (V_Str []) d)
            in bindR (check_run_event d1) (\<lambda>_. Inr d1))))"

definition record_event :: "event_arg \<Rightarrow> (run_logger, unit) meth" where
  "record_event e =
     bindM ensure_open (\<lambda>_.
     bindM (liftM (event_dict e)) (\<lambda>d.
     bindM (write_jsonl on_events d) (\<lambda>_.
       count_record (\<lambda>c. c\<lparr>rn_events := rn_events c + 1\<rparr>))))"

definition timing_row :: "log_env \<Rightarrow> timing_record \<Rightarrow> cell list" where
  "timing_row env r =
     [int_cell (tg_step_id r), float_cell env (tg_time_s r), text_cell (tg_component r), float_cell env (tg_duration_s r)]"

definition record_timing :: "log_env \<Rightarrow> timing_record \<Rightarrow> (run_logger, unit) meth" where
  "record_timing env r =
     bindM ensure_open (\<lambda>_.
     bindM (liftM (validate_step_time (tg_step_id r) (tg_time_s r))) (\<lambda>_.
     bindM (liftM (finite_real (tg_duration_s r))) (\<lambda>duration.
     bindM (liftM (guardR (flt duration 0 \<or> tg_component r = []) ValueError)) (\<lambda>_.
     bindM (write_row on_timing (timing_row env r)) (\<lambda>_.
       count_record (\<lambda>c. c\<lparr>rn_timing := rn_timing c + 1\<rparr>))))))"

section \<open>Closing\<close>

text \<open>Flushing a closed file raises \<^verbatim>\<open>ValueError\<close>.\<close>

definition flush_files :: "(run_logger, unit) meth" where
  "flush_files l = (if \<not> lg_files_open l then (Inl ValueError, l) else file_op (\<lambda>d. d) l)"

definition close_files :: "(run_logger, unit) meth" where
  "close_files l =
     (if lg_files_open l then bindM (file_op (\<lambda>d. d)) (\<lambda>_. modifyM (\<lambda>l. l\<lparr>lg_files_open := False\<rparr>)) l else (Inr (), l))"

definition checkpoint :: "(run_logger, unit) meth" where
  "checkpoint = bindM ensure_open (\<lambda>_. flush_files)"

definition counts_dict :: "record_counts \<Rightarrow> pydict" where
  "counts_dict c =
     [(''ground_truth'', V_Int (int (rn_ground_truth c))), (''measurements'', V_Int (int (rn_measurements c))),
      (''estimates'', V_Int (int (rn_estimates c))), (''commands'', V_Int (int (rn_commands c))),
      (''events'', V_Int (int (rn_events c))), (''timing'', V_Int (int (rn_timing c)))]"

text \<open>The summary, the manifest and, last, the removal of the marker.\<close>

definition finalize :: "log_env \<Rightarrow> pydict \<Rightarrow> (run_logger, unit) meth" where
  "finalize env summary =
     bindM ensure_open (\<lambda>_.
     bindM (liftM (json_text summary)) (\<lambda>_.
     bindM checkpoint (\<lambda>_.
     bindM close_files (\<lambda>_.
     bindM (file_op (\<lambda>d. d\<lparr>rd_summary := Some (json_value (V_Dict (dict_set ''status'' (V_Str ''complete'') summary)))\<rparr>)) (\<lambda>_.
     bindM (modifyM (\<lambda>l. l\<lparr>lg_manifest := dict_update (lg_manifest l)
              [(''status'', V_Str ''complete''), (''completed_utc'', V_Str (le_completed_utc env)),
               (''record_counts'', V_Dict (counts_dict (lg_counts l)))]\<rparr>)) (\<lambda>_.
     bindM write_manifest (\<lambda>_.
     bindM (file_op (\<lambda>d. d\<lparr>rd_marker := False\<rparr>)) (\<lambda>_.
       modifyM (\<lambda>l. l\<lparr>lg_closed := True\<rparr>)))))))))"

definition close_incomplete :: "string \<Rightarrow> (run_logger, unit) meth" where
  "close_incomplete reason l =
     (if lg_closed l then (Inr (), l)
      else
        bindM flush_files (\<lambda>_.
        bindM close_files (\<lambda>_.
        bindM (modifyM (\<lambda>l. l\<lparr>lg_manifest := dict_update (lg_manifest l)
                 ((if reason = [] then [] else [(''incomplete_reason'', V_Str reason)])
                  @ [(''record_counts'', V_Dict (counts_dict (lg_counts l)))])\<rparr>)) (\<lambda>_.
        bindM write_manifest (\<lambda>_. modifyM (\<lambda>l. l\<lparr>lg_closed := True\<rparr>))))) l)"

text \<open>\<^verbatim>\<open>__exit__\<close>; \<open>None\<close> is a block that ended without an exception.\<close>

definition exit_logger :: "string option \<Rightarrow> (run_logger, unit) meth" where
  "exit_logger exc l =
     (if lg_closed l then (Inr (), l)
      else close_incomplete (case exc of Some r \<Rightarrow> r | None \<Rightarrow> ''finalize was not called'') l)"

section \<open>Calls\<close>

text \<open>A call that records something.\<close>

datatype log_entry =
    LE_Ground_Truth simulation_sample
  | LE_Measurement measurement
  | LE_Estimate pydict
  | LE_Command command_record
  | LE_Event event_arg
  | LE_Timing timing_record

fun record_entry :: "log_env \<Rightarrow> log_entry \<Rightarrow> (run_logger, unit) meth" where
  "record_entry env (LE_Ground_Truth x) = record_ground_truth env x"
| "record_entry env (LE_Measurement m) = record_measurement m"
| "record_entry env (LE_Estimate d) = record_estimate d"
| "record_entry env (LE_Command r) = record_command env r"
| "record_entry env (LE_Event e) = record_event e"
| "record_entry env (LE_Timing r) = record_timing env r"

end
