(* ===== verification/Run_Replay.thy ===== *)
theory Run_Replay
  imports Run_Log
begin

text \<open>
  \<^verbatim>\<open>RunReplay\<close> of \<^verbatim>\<open>runlog.py\<close>: reading the directory of a run. An incomplete run is refused unless it
  is asked for, a complete one must agree with its manifest, and whatever cannot be read is a corrupt run.
\<close>

section \<open>Streams\<close>

fun map_until :: "('a \<Rightarrow> 'b result) \<Rightarrow> 'a list \<Rightarrow> py_exn option \<Rightarrow> 'b stream" where
  "map_until f [] ending = ([], ending)"
| "map_until f (x # xs) ending =
     (case f x of
        Inl e \<Rightarrow> ([], Some e)
      | Inr y \<Rightarrow> (case map_until f xs ending of (ys, e) \<Rightarrow> (y # ys, e)))"

definition map_stream :: "('a \<Rightarrow> 'b result) \<Rightarrow> 'a stream \<Rightarrow> 'b stream" where
  "map_stream f s = map_until f (fst s) (snd s)"

definition count_stream :: "'a stream \<Rightarrow> int result" where
  "count_stream s = bindR (all_of s) (\<lambda>xs. Inr (int (length xs)))"

text \<open>\<^verbatim>\<open>_jsonl\<close>: a torn last line ends the stream of a run that may be incomplete.\<close>

fun json_lines :: "bool \<Rightarrow> bool \<Rightarrow> json_line list \<Rightarrow> pydict stream" where
  "json_lines allow ended [] = ([], None)"
| "json_lines allow ended (JL_Blank # ls) = json_lines allow ended ls"
| "json_lines allow ended (JL_Invalid # ls) =
     (if allow \<and> ls = [] \<and> \<not> ended then ([], None) else ([], Some CorruptRunError))"
| "json_lines allow ended (JL_Value (V_Dict d) # ls) =
     (case json_lines allow ended ls of (ds, e) \<Rightarrow> (d # ds, e))"
| "json_lines allow ended (JL_Value _ # ls) = ([], Some CorruptRunError)"

definition jsonl :: "bool \<Rightarrow> json_file option \<Rightarrow> pydict stream" where
  "jsonl allow f =
     (case f of None \<Rightarrow> ([], Some CorruptRunError) | Some f \<Rightarrow> json_lines allow (jf_ended f) (jf_lines f))"

text \<open>\<^verbatim>\<open>_csv_rows\<close>\<close>

definition csv_rows :: "string list \<Rightarrow> csv_file option \<Rightarrow> cell list stream" where
  "csv_rows header f =
     (case f of
        None \<Rightarrow> ([], Some CorruptRunError)
      | Some f \<Rightarrow> if cf_header f \<noteq> header then ([], Some CorruptRunError) else (cf_rows f, None))"

section \<open>Rows\<close>

text \<open>A cell that a short row does not have is \<^verbatim>\<open>None\<close>.\<close>

definition row_int :: "string list \<Rightarrow> cell list \<Rightarrow> string \<Rightarrow> int result" where
  "row_int header row name =
     (case map_of (zip header row) name of
        None \<Rightarrow> Inl TypeError
      | Some c \<Rightarrow> (case ce_int c of None \<Rightarrow> Inl ValueError | Some n \<Rightarrow> Inr n))"

definition row_float :: "string list \<Rightarrow> cell list \<Rightarrow> string \<Rightarrow> f64 result" where
  "row_float header row name =
     (case map_of (zip header row) name of
        None \<Rightarrow> Inl TypeError
      | Some c \<Rightarrow> (case ce_float c of None \<Rightarrow> Inl ValueError | Some x \<Rightarrow> Inr x))"

definition row_text :: "string list \<Rightarrow> cell list \<Rightarrow> string \<Rightarrow> string option" where
  "row_text header row name = map_option ce_text (map_of (zip header row) name)"

text \<open>\<^verbatim>\<open>except (KeyError, TypeError, ValueError)\<close>\<close>

definition corrupt_row :: "'a result \<Rightarrow> 'a result" where
  "corrupt_row r =
     (case r of
        Inr v \<Rightarrow> Inr v
      | Inl e \<Rightarrow> if e = KeyError \<or> e = TypeError \<or> is_ValueError e then Inl CorruptRunError else Inl e)"

definition ground_truth_of :: "cell list \<Rightarrow> simulation_sample result" where
  "ground_truth_of row =
     corrupt_row (
       let number = row_float GROUND_TRUTH_FIELDS row in
       bindR (row_int GROUND_TRUTH_FIELDS row ''step_id'') (\<lambda>step_id.
       bindR (number ''time_s'') (\<lambda>time_s.
       bindR (number ''x_m'') (\<lambda>x. bindR (number ''y_m'') (\<lambda>y. bindR (number ''heading_rad'') (\<lambda>heading.
       bindR (number ''speed_mps'') (\<lambda>speed. bindR (number ''steering_rad'') (\<lambda>steering.
       bindR (number ''acceleration_mps2'') (\<lambda>acceleration.
       bindR (VehicleState \<lparr>vs_x_m = x, vs_y_m = y, vs_heading_rad = heading, vs_speed_mps = speed,
                vs_steering_rad = steering, vs_acceleration_mps2 = acceleration\<rparr>) (\<lambda>state.
       bindR (number ''command_acceleration_mps2'') (\<lambda>a. bindR (number ''command_steering_rad'') (\<lambda>st.
       bindR (ControlCommand a st) (\<lambda>command. SimulationSample step_id time_s state command)))))))))))))"

definition command_mode_of :: "string option \<Rightarrow> command_mode result" where
  "command_mode_of v =
     (if v = Some ''open_loop'' then Inr LM_OPEN_LOOP else if v = Some ''neutral'' then Inr LM_NEUTRAL
      else if v = Some ''tracking'' then Inr LM_TRACKING else if v = Some ''safe_stop'' then Inr LM_SAFE_STOP
      else Inl ValueError)"

definition command_of :: "cell list \<Rightarrow> command_record result" where
  "command_of row =
     corrupt_row (
       let number = row_float COMMAND_FIELDS row; text_of = row_text COMMAND_FIELDS row in
       bindR (row_int COMMAND_FIELDS row ''step_id'') (\<lambda>step_id.
       bindR (number ''time_s'') (\<lambda>time_s.
       bindR (validate_step_time step_id time_s) (\<lambda>_.
       bindR (case text_of ''source'' of Some (c # cs) \<Rightarrow> Inr (c # cs) | _ \<Rightarrow> Inl ValueError) (\<lambda>source.
       bindR (number ''target_speed_mps'') (\<lambda>target.
       bindR (guardR (\<not> isfinite target \<or> flt target 0) ValueError) (\<lambda>_.
       bindR (row_int COMMAND_FIELDS row ''flags'') (\<lambda>flags.
       bindR (guardR (flags < 0 \<or> 255 < flags \<or> text_of ''flags'' \<noteq> Some (show_int flags)) ValueError) (\<lambda>_.
       bindR (number ''acceleration_mps2'') (\<lambda>a. bindR (number ''steering_rad'') (\<lambda>st.
       bindR (ControlCommand a st) (\<lambda>command.
       bindR (command_mode_of (text_of ''mode'')) (\<lambda>mode.
         Inr \<lparr>cr_step_id = step_id, cr_time_s = time_s, cr_command = command, cr_target_speed_mps = target,
              cr_mode = mode, cr_flags = flags, cr_source = source\<rparr>)))))))))))))"

definition timing_of :: "cell list \<Rightarrow> timing_record result" where
  "timing_of row =
     corrupt_row (
       bindR (row_int TIMING_FIELDS row ''step_id'') (\<lambda>step_id.
       bindR (row_float TIMING_FIELDS row ''time_s'') (\<lambda>time_s.
       bindR (row_float TIMING_FIELDS row ''duration_s'') (\<lambda>duration.
       bindR (validate_step_time step_id time_s) (\<lambda>_.
         case row_text TIMING_FIELDS row ''component'' of
           Some (c # cs) \<Rightarrow>
             bindR (guardR (\<not> isfinite duration \<or> flt duration 0) ValueError) (\<lambda>_.
               Inr \<lparr>tg_step_id = step_id, tg_time_s = time_s, tg_component = c # cs, tg_duration_s = duration\<rparr>)
         | _ \<Rightarrow> Inl ValueError)))))"

section \<open>The replay\<close>

record run_replay =
  ry_dir :: run_dir
  ry_allow_incomplete :: bool
  ry_manifest :: pydict
  ry_config :: pyval

definition measurements :: "run_replay \<Rightarrow> measurement stream" where
  "measurements r = map_stream deserialize_measurement (jsonl (ry_allow_incomplete r) (rd_measurements (ry_dir r)))"

definition ground_truth :: "run_replay \<Rightarrow> simulation_sample stream" where
  "ground_truth r = map_stream ground_truth_of (csv_rows GROUND_TRUTH_FIELDS (rd_ground_truth (ry_dir r)))"

definition events :: "run_replay \<Rightarrow> pydict stream" where
  "events r = jsonl (ry_allow_incomplete r) (rd_events (ry_dir r))"

definition estimates :: "run_replay \<Rightarrow> pydict stream" where
  "estimates r = jsonl (ry_allow_incomplete r) (rd_estimates (ry_dir r))"

definition commands :: "run_replay \<Rightarrow> command_record stream" where
  "commands r = map_stream command_of (csv_rows COMMAND_FIELDS (rd_commands (ry_dir r)))"

definition timing :: "run_replay \<Rightarrow> timing_record stream" where
  "timing r = map_stream timing_of (csv_rows TIMING_FIELDS (rd_timing (ry_dir r)))"

definition delivery_step :: "measurement \<Rightarrow> int" where
  "delivery_step m = mt_delivery_step_id (times_of m)"

fun batch_loop :: "int \<Rightarrow> measurement list \<Rightarrow> measurement list \<Rightarrow> py_exn option \<Rightarrow> (int \<times> measurement list) stream" where
  "batch_loop current batch [] ending =
     (case ending of None \<Rightarrow> ([(current, batch)], None) | Some e \<Rightarrow> ([], Some e))"
| "batch_loop current batch (m # ms) ending =
     (if delivery_step m < current then ([], Some CorruptRunError)
      else if delivery_step m \<noteq> current then
        (case batch_loop (delivery_step m) [m] ms ending of (bs, e) \<Rightarrow> ((current, batch) # bs, e))
      else batch_loop current (batch @ [m]) ms ending)"

definition measurement_batches :: "run_replay \<Rightarrow> (int \<times> measurement list) stream" where
  "measurement_batches r =
     (case measurements r of
        ([], e) \<Rightarrow> ([], e)
      | (m # ms, e) \<Rightarrow> batch_loop (delivery_step m) [m] ms e)"

fun replay_measurements :: "(measurement \<Rightarrow> ('s, unit) meth) \<Rightarrow> measurement list \<Rightarrow> py_exn option \<Rightarrow> int \<Rightarrow> ('s, int) meth" where
  "replay_measurements consumer [] ending n = liftM (case ending of None \<Rightarrow> Inr n | Some e \<Rightarrow> Inl e)"
| "replay_measurements consumer (m # ms) ending n =
     bindM (consumer m) (\<lambda>_. replay_measurements consumer ms ending (n + 1))"

text \<open>A JSON file must hold an object.\<close>

definition read_json :: "pyval option \<Rightarrow> pydict result" where
  "read_json v = (case v of Some (V_Dict d) \<Rightarrow> Inr d | _ \<Rightarrow> Inl CorruptRunError)"

definition status_complete :: "pydict \<Rightarrow> bool" where
  "status_complete d \<longleftrightarrow> dict_get ''status'' d = Some (V_Str ''complete'')"

definition is_complete :: "run_replay \<Rightarrow> bool" where
  "is_complete r \<longleftrightarrow> status_complete (ry_manifest r) \<and> \<not> rd_marker (ry_dir r)"

definition count_names :: "string list" where
  "count_names = [''ground_truth'', ''measurements'', ''estimates'', ''commands'', ''events'', ''timing'']"

definition expected_count :: "pydict \<Rightarrow> string \<Rightarrow> int result" where
  "expected_count d name =
     (case dict_get name d of Some (V_Int n) \<Rightarrow> if n < 0 then Inl CorruptRunError else Inr n | _ \<Rightarrow> Inl CorruptRunError)"

definition validate_complete_artifacts :: "run_replay \<Rightarrow> unit result" where
  "validate_complete_artifacts r =
     bindR (case dict_get ''record_counts'' (ry_manifest r) of Some (V_Dict d) \<Rightarrow> Inr d | _ \<Rightarrow> Inl CorruptRunError) (\<lambda>counts.
     bindR (guardR (set (map fst counts) \<noteq> set count_names) CorruptRunError) (\<lambda>_.
     bindR (sequenceR (map (expected_count counts) count_names)) (\<lambda>expected.
     bindR (sequenceR [count_stream (ground_truth r), count_stream (measurements r), count_stream (estimates r),
                       count_stream (commands r), count_stream (events r), count_stream (timing r)]) (\<lambda>actual.
     bindR (guardR (expected \<noteq> actual) CorruptRunError) (\<lambda>_.
     bindR (read_json (rd_summary (ry_dir r))) (\<lambda>summary.
       guardR (\<not> status_complete summary) CorruptRunError))))))"

text \<open>\<^verbatim>\<open>version != 1\<close>; \<^verbatim>\<open>True\<close> and \<^verbatim>\<open>1.0\<close> equal \<^verbatim>\<open>1\<close>.\<close>

definition is_version_1 :: "pyval option \<Rightarrow> bool" where
  "is_version_1 v \<longleftrightarrow> v \<in> {Some (V_Int 1), Some (V_Bool True), Some (V_Float 0x3FF0000000000000)}"

definition RunReplay :: "log_env \<Rightarrow> bool \<Rightarrow> run_dir \<Rightarrow> run_replay result" where
  "RunReplay env allow_incomplete d =
     bindR (read_json (rd_manifest d)) (\<lambda>manifest.
     bindR (guardR (\<not> is_version_1 (dict_get ''run_format_version'' manifest)) CorruptRunError) (\<lambda>_.
     bindR (guardR ((\<not> status_complete manifest \<or> rd_marker d) \<and> \<not> allow_incomplete) IncompleteRunError) (\<lambda>_.
     bindR (case rd_config d of None \<Rightarrow> Inl CorruptRunError | Some c \<Rightarrow> Inr c) (\<lambda>config.
     bindR (config_sha256 env config) (\<lambda>hash.
     bindR (guardR (dict_get ''config_sha256'' manifest \<noteq> Some (V_Str hash)) CorruptRunError) (\<lambda>_.
       let r = \<lparr>ry_dir = d, ry_allow_incomplete = allow_incomplete, ry_manifest = manifest, ry_config = config\<rparr> in
       if is_complete r then bindR (validate_complete_artifacts r) (\<lambda>_. Inr r) else Inr r))))))"

section \<open>Listing the runs\<close>

record run_status =
  ru_name :: string
  ru_status :: string
  ru_scenario_name :: "pyval option"
  ru_config_sha256 :: "pyval option"

definition run_status_of :: "log_env \<Rightarrow> string \<Rightarrow> run_dir \<Rightarrow> run_status" where
  "run_status_of env name d =
     (case read_json (rd_manifest d) of
        Inl e \<Rightarrow> \<lparr>ru_name = name, ru_status = ''invalid'', ru_scenario_name = None, ru_config_sha256 = None\<rparr>
      | Inr m \<Rightarrow>
          \<lparr>ru_name = name,
           ru_status = (if rd_marker d then ''incomplete''
                        else case dict_get ''status'' m of
                               None \<Rightarrow> ''invalid'' | Some (V_Str s) \<Rightarrow> s | Some v \<Rightarrow> le_str env v),
           ru_scenario_name = dict_get ''scenario_name'' m, ru_config_sha256 = dict_get ''config_sha256'' m\<rparr>)"

text \<open>\<open>None\<close> is an output root that does not exist; the directories are taken in the order of their names.\<close>

definition discover_runs :: "log_env \<Rightarrow> (string \<times> run_dir) list option \<Rightarrow> run_status list" where
  "discover_runs env root =
     (case root of None \<Rightarrow> [] | Some dirs \<Rightarrow> map (\<lambda>(name, d). run_status_of env name d) (sort_key fst dirs))"

end
