(* ===== verification/Run_Log_Laws.thy ===== *)
theory Run_Log_Laws
  imports Run_Replay
begin

text \<open>
  The run log as its reader sees it. The records of a run are an abstract value; the calls of the logger
  refine appending to it, a run that was not finalized is refused, what it completed is recovered, and a
  finalized run is read back record by record.
\<close>

section \<open>Snapshots are normal\<close>

lemma json_value_twice: "json_value (json_value v) = json_value v"
proof (induction v)
  case (V_Dict d)
  let ?xs = "map (\<lambda>p. (fst p, json_value (snd p))) d"
  have "map (\<lambda>p. (fst p, json_value (snd p))) (sort_key fst ?xs) = sort_key fst ?xs"
    by (rule map_idI) (use V_Dict in \<open>force\<close>)
  then show ?case by (simp add: sort_key_id_if_sorted)
qed simp_all

lemma json_ok_value: "json_ok (json_value v) = json_ok v"
  by (induction v) force+

lemma json_dict_twice: "json_dict (json_dict d) = json_dict d"
  using json_value_twice [of "V_Dict d"] by (simp add: json_dict_def)

lemma json_value_dict [simp]: "json_value (V_Dict d) = V_Dict (json_dict d)"
  by (simp add: json_dict_def)

declare json_value.simps(2) [simp del]

section \<open>The contents of a run\<close>

record contents =
  cn_ground_truth :: "simulation_sample list"
  cn_measurements :: "measurement list"
  cn_estimates :: "pydict list"
  cn_commands :: "command_record list"
  cn_events :: "pydict list"
  cn_timing :: "timing_record list"

definition no_contents :: contents where
  "no_contents = \<lparr>cn_ground_truth = [], cn_measurements = [], cn_estimates = [], cn_commands = [], cn_events = [], cn_timing = []\<rparr>"

fun add_entry :: "log_entry \<Rightarrow> contents \<Rightarrow> contents" where
  "add_entry (LE_Ground_Truth x) c = c\<lparr>cn_ground_truth := cn_ground_truth c @ [x]\<rparr>"
| "add_entry (LE_Measurement m) c = c\<lparr>cn_measurements := cn_measurements c @ [m]\<rparr>"
| "add_entry (LE_Estimate d) c = c\<lparr>cn_estimates := cn_estimates c @ [d]\<rparr>"
| "add_entry (LE_Command r) c = c\<lparr>cn_commands := cn_commands c @ [r]\<rparr>"
| "add_entry (LE_Event e) c = (case event_dict e of Inl _ \<Rightarrow> c | Inr d \<Rightarrow> c\<lparr>cn_events := cn_events c @ [d]\<rparr>)"
| "add_entry (LE_Timing r) c = c\<lparr>cn_timing := cn_timing c @ [r]\<rparr>"

definition counts_of :: "contents \<Rightarrow> record_counts" where
  "counts_of c = \<lparr>rn_ground_truth = length (cn_ground_truth c), rn_measurements = length (cn_measurements c),
     rn_estimates = length (cn_estimates c), rn_commands = length (cn_commands c), rn_events = length (cn_events c),
     rn_timing = length (cn_timing c)\<rparr>"

text \<open>The objects that their classes accept; dicts are checked by the logger.\<close>

fun valid_entry :: "log_entry \<Rightarrow> bool" where
  "valid_entry (LE_Ground_Truth x) \<longleftrightarrow>
     SimulationSample (sm_step_id x) (sm_time_s x) (sm_state x) (sm_command x) = Inr x
     \<and> VehicleState (sm_state x) = Inr (sm_state x)
     \<and> ControlCommand (cm_acceleration_mps2 (sm_command x)) (cm_steering_rad (sm_command x)) = Inr (sm_command x)"
| "valid_entry (LE_Measurement m) \<longleftrightarrow> valid_measurement m"
| "valid_entry (LE_Command r) \<longleftrightarrow>
     ControlCommand (cm_acceleration_mps2 (cr_command r)) (cm_steering_rad (cr_command r)) = Inr (cr_command r)"
| "valid_entry _ \<longleftrightarrow> True"

text \<open>The lines and files of the records.\<close>

definition dict_line :: "pydict \<Rightarrow> json_line" where
  "dict_line d = JL_Value (V_Dict (json_dict d))"

definition whole_json :: "pydict list \<Rightarrow> json_file option" where
  "whole_json ds = Some \<lparr>jf_lines = map dict_line ds, jf_ended = True\<rparr>"

text \<open>The file of a writer that may have been cut off: one more line, torn or without its newline.\<close>

definition torn_json :: "(pydict \<Rightarrow> bool) \<Rightarrow> pydict list \<Rightarrow> json_file option \<Rightarrow> bool" where
  "torn_json P ds f \<longleftrightarrow>
     f = whole_json ds \<or> f = Some \<lparr>jf_lines = map dict_line ds @ [JL_Invalid], jf_ended = False\<rparr>
     \<or> (\<exists>d. P d \<and> f = Some \<lparr>jf_lines = map dict_line ds @ [dict_line d], jf_ended = False\<rparr>)"

definition measurement_line :: "pydict \<Rightarrow> bool" where
  "measurement_line d \<longleftrightarrow> (\<exists>m. valid_measurement m \<and> d = measurement_dict m)"

definition holds :: "log_env \<Rightarrow> run_dir \<Rightarrow> contents \<Rightarrow> bool" where
  "holds env d c \<longleftrightarrow>
     rd_ground_truth d = Some \<lparr>cf_header = GROUND_TRUTH_FIELDS, cf_rows = map (ground_truth_row env) (cn_ground_truth c)\<rparr>
     \<and> rd_commands d = Some \<lparr>cf_header = COMMAND_FIELDS, cf_rows = map (command_row env) (cn_commands c)\<rparr>
     \<and> rd_timing d = Some \<lparr>cf_header = TIMING_FIELDS, cf_rows = map (timing_row env) (cn_timing c)\<rparr>
     \<and> rd_measurements d = whole_json (map measurement_dict (cn_measurements c))
     \<and> rd_estimates d = whole_json (cn_estimates c) \<and> rd_events d = whole_json (cn_events c)"

definition recoverable :: "run_dir \<Rightarrow> contents \<Rightarrow> bool" where
  "recoverable d c \<longleftrightarrow>
     torn_json measurement_line (map measurement_dict (cn_measurements c)) (rd_measurements d)
     \<and> torn_json (\<lambda>_. True) (cn_estimates c) (rd_estimates d) \<and> torn_json (\<lambda>_. True) (cn_events c) (rd_events d)"

lemma holds_recoverable: "holds env d c \<Longrightarrow> recoverable d c"
  by (simp add: holds_def recoverable_def torn_json_def)

section \<open>What a call writes\<close>

lemma write_line_cases:
  assumes "write_line whole part l = (r, l')"
  shows "(\<exists>n. r = Inr () \<and> lg_files_open l \<and> lg_budget l \<noteq> 0 \<and> l' = l\<lparr>lg_dir := whole (lg_dir l), lg_budget := n\<rparr>)
    \<or> r = Inl ValueError \<and> l' = l
    \<or> r = Inl OSError \<and> lg_budget l = 0 \<and> l' = l\<lparr>lg_dir := part (lg_torn l) (lg_dir l), lg_torn := Nothing_Left\<rparr>"
  using assms by (auto simp: write_line_def file_op_def split: if_splits nat.splits)

lemma file_op_cases:
  assumes "file_op f l = (r, l')"
  shows "(\<exists>n. r = Inr () \<and> lg_budget l = Suc n \<and> l' = l\<lparr>lg_dir := f (lg_dir l), lg_budget := n\<rparr>)
    \<or> r = Inl OSError \<and> lg_budget l = 0 \<and> l' = l"
  using assms by (auto simp: file_op_def split: nat.splits)

text \<open>
  A call that records: what it appends to the directory, or what is left of it, which is the whole of
  the file or a torn end.
\<close>

definition entry_file :: "log_env \<Rightarrow> log_entry \<Rightarrow> run_dir \<Rightarrow> run_dir" where
  "entry_file env e =
     (case e of
        LE_Ground_Truth x \<Rightarrow> on_ground_truth (append_row (ground_truth_row env x))
      | LE_Measurement m \<Rightarrow> on_measurements (append_json (dict_line (measurement_dict m)) True)
      | LE_Estimate d \<Rightarrow> on_estimates (append_json (dict_line d) True)
      | LE_Command r \<Rightarrow> on_commands (append_row (command_row env r))
      | LE_Event x \<Rightarrow> (case event_dict x of Inl _ \<Rightarrow> id | Inr d \<Rightarrow> on_events (append_json (dict_line d) True))
      | LE_Timing r \<Rightarrow> on_timing (append_row (timing_row env r)))"

definition entry_part :: "log_env \<Rightarrow> log_entry \<Rightarrow> torn \<Rightarrow> run_dir \<Rightarrow> run_dir" where
  "entry_part env e =
     (let json = (\<lambda>d update torn. case torn of Nothing_Left \<Rightarrow> id | Part_Left _ \<Rightarrow> update (append_json JL_Invalid False)
                                  | No_Newline \<Rightarrow> update (append_json (dict_line d) False));
          row = (\<lambda>r update torn. case torn of Nothing_Left \<Rightarrow> id | Part_Left cells \<Rightarrow> update (append_row cells)
                                  | No_Newline \<Rightarrow> update (append_row r))
      in case e of
        LE_Ground_Truth x \<Rightarrow> row (ground_truth_row env x) on_ground_truth
      | LE_Measurement m \<Rightarrow> json (measurement_dict m) on_measurements
      | LE_Estimate d \<Rightarrow> json d on_estimates
      | LE_Command r \<Rightarrow> row (command_row env r) on_commands
      | LE_Event x \<Rightarrow> (case event_dict x of Inl _ \<Rightarrow> (\<lambda>_. id) | Inr d \<Rightarrow> json d on_events)
      | LE_Timing r \<Rightarrow> row (timing_row env r) on_timing)"

definition entry_count :: "log_entry \<Rightarrow> record_counts \<Rightarrow> record_counts" where
  "entry_count e c =
     (case e of
        LE_Ground_Truth x \<Rightarrow> c\<lparr>rn_ground_truth := rn_ground_truth c + 1\<rparr>
      | LE_Measurement m \<Rightarrow> c\<lparr>rn_measurements := rn_measurements c + 1\<rparr>
      | LE_Estimate d \<Rightarrow> c\<lparr>rn_estimates := rn_estimates c + 1\<rparr>
      | LE_Command r \<Rightarrow> c\<lparr>rn_commands := rn_commands c + 1\<rparr>
      | LE_Event x \<Rightarrow> c\<lparr>rn_events := rn_events c + 1\<rparr>
      | LE_Timing r \<Rightarrow> c\<lparr>rn_timing := rn_timing c + 1\<rparr>)"

text \<open>What the logger checks before it writes.\<close>

definition entry_check :: "log_entry \<Rightarrow> unit result" where
  "entry_check e =
     (case e of
        LE_Ground_Truth x \<Rightarrow> Inr ()
      | LE_Measurement m \<Rightarrow> json_text (measurement_dict m)
      | LE_Estimate d \<Rightarrow>
          bindR (json_text d) (\<lambda>_. guardR (dict_get ''step_id'' d = None \<or> dict_get ''time_s'' d = None) ValueError)
      | LE_Command r \<Rightarrow>
          bindR (validate_step_time (cr_step_id r) (cr_time_s r)) (\<lambda>_.
          bindR (finite_real (cr_target_speed_mps r)) (\<lambda>target.
          bindR (guardR (cr_source r = []) ValueError) (\<lambda>_.
          bindR (guardR (flt target 0) ValueError) (\<lambda>_. guardR (cr_flags r < 0 \<or> 255 < cr_flags r) ValueError))))
      | LE_Event x \<Rightarrow> bindR (event_dict x) json_text
      | LE_Timing r \<Rightarrow>
          bindR (validate_step_time (tg_step_id r) (tg_time_s r)) (\<lambda>_.
          bindR (finite_real (tg_duration_s r)) (\<lambda>duration.
            guardR (flt duration 0 \<or> tg_component r = []) ValueError)))"

text \<open>Every recording call is: open, checked, written, counted.\<close>

lemma json_text_twice: "bindM (liftM (json_text d)) (\<lambda>_. bindM (write_jsonl update d) k) = bindM (write_jsonl update d) k"
  by (rule ext) (auto simp: write_jsonl_def bindM_def liftM_def json_text_def guardR_def)

lemma record_entry_shape:
  "record_entry env e =
     bindM ensure_open (\<lambda>_. bindM (liftM (entry_check e)) (\<lambda>_.
     bindM (write_line (entry_file env e) (entry_part env e)) (\<lambda>_. count_record (entry_count e))))"
  (is "_ = ?rhs")
proof (rule ext)
  fix l
  show "record_entry env e l = ?rhs l"
    by (cases e)
      (auto simp: record_ground_truth_def record_measurement_def record_estimate_def record_command_def record_event_def
        record_timing_def serialize_measurement_def entry_check_def entry_file_def entry_part_def entry_count_def
        write_jsonl_def write_row_def dict_line_def bindM_def liftM_def Let_def bindR_def count_record_def id_def
        split: sum.splits prod.splits)
qed

section \<open>The life of a log\<close>

text \<open>
  A logger, with the records that it has accepted: records may be accepted or refused, and the caller
  may flush, fail to finalize and close the log as incomplete, in any order.
\<close>

inductive logging_run :: "log_env \<Rightarrow> scenario \<Rightarrow> run_logger \<Rightarrow> contents \<Rightarrow> bool" for env s where
  opened: "RunLogger env s name binary exists budget torn = (Inr l, d) \<Longrightarrow> logging_run env s l no_contents"
| accepted: "logging_run env s l c \<Longrightarrow> valid_entry e \<Longrightarrow> record_entry env e l = (Inr (), l') \<Longrightarrow>
    logging_run env s l' (add_entry e c)"
| refused: "logging_run env s l c \<Longrightarrow> valid_entry e \<Longrightarrow> record_entry env e l = (Inl x, l') \<Longrightarrow> logging_run env s l' c"
| flushed: "logging_run env s l c \<Longrightarrow> checkpoint l = (r, l') \<Longrightarrow> logging_run env s l' c"
| unfinished: "logging_run env s l c \<Longrightarrow> finalize env summary l = (Inl x, l') \<Longrightarrow> logging_run env s l' c"
| closed: "logging_run env s l c \<Longrightarrow> close_incomplete reason l = (r, l') \<Longrightarrow> logging_run env s l' c"

text \<open>A manifest of the run: its version and the digest of its configuration.\<close>

definition describes :: "log_env \<Rightarrow> scenario \<Rightarrow> pydict \<Rightarrow> bool" where
  "describes env s m \<longleftrightarrow> distinct (map fst m) \<and> dict_get ''run_format_version'' m = Some (V_Int 1)
     \<and> (\<exists>hash. config_sha256 env (scenario_to_mapping s) = Inr hash \<and> dict_get ''config_sha256'' m = Some (V_Str hash))"

definition marked :: "log_env \<Rightarrow> scenario \<Rightarrow> run_dir \<Rightarrow> bool" where
  "marked env s d \<longleftrightarrow> rd_marker d \<and> rd_config d = Some (json_value (scenario_to_mapping s))
     \<and> (\<exists>m. describes env s m \<and> rd_manifest d = Some (json_value (V_Dict m)))"

text \<open>Either everything is as it should be, or nothing can be written any more.\<close>

definition log_inv :: "log_env \<Rightarrow> scenario \<Rightarrow> run_logger \<Rightarrow> contents \<Rightarrow> bool" where
  "log_inv env s l c \<longleftrightarrow> marked env s (lg_dir l) \<and> describes env s (lg_manifest l) \<and> recoverable (lg_dir l) c
     \<and> (lg_budget l = 0 \<or> lg_closed l \<or> holds env (lg_dir l) c \<and> lg_counts l = counts_of c)
     \<and> (lg_torn l \<noteq> Nothing_Left \<longrightarrow> holds env (lg_dir l) c)"

lemmas describes_update = describes_def distinct_dict_set dict_update_def

lemma bindM_apply: "bindM m f s = (case m s of (Inl e, s') \<Rightarrow> (Inl e, s') | (Inr v, s') \<Rightarrow> f v s')"
  by (simp add: bindM_def)

lemma logger_opened:
  assumes "RunLogger env s name binary exists budget torn = (Inr l, d)"
  shows "log_inv env s l no_contents" "\<not> lg_closed l"
    "\<exists>hash b. config_sha256 env (scenario_to_mapping s) = Inr hash \<and> optional_sha256 binary = Inr b
       \<and> lg_manifest l = manifest_of env s hash b"
    "holds env (lg_dir l) no_contents"
proof -
  from assms obtain hash b where hash: "config_sha256 env (scenario_to_mapping s) = Inr hash" and b: "optional_sha256 binary = Inr b"
    and made: "make_files (scenario_to_mapping s)
       \<lparr>lg_dir = empty_dir, lg_closed = False, lg_files_open = True, lg_counts = no_records,
        lg_manifest = manifest_of env s hash b, lg_budget = budget, lg_torn = torn\<rparr> = (Inr (), l)"
    by (auto simp: RunLogger_def Let_def bindR_eq_Inr split: sum.splits prod.splits)
  have described: "describes env s (manifest_of env s hash b)"
    using hash by (simp add: describes_def manifest_of_def)
  from made have "\<exists>n. l = \<lparr>lg_dir = \<lparr>rd_marker = True, rd_config = Some (json_value (scenario_to_mapping s)),
         rd_manifest = Some (json_value (V_Dict (manifest_of env s hash b))),
         rd_summary = Some (V_Dict [(''status'', V_Str ''incomplete'')]), rd_ground_truth = new_csv GROUND_TRUTH_FIELDS,
         rd_commands = new_csv COMMAND_FIELDS, rd_timing = new_csv TIMING_FIELDS, rd_measurements = new_json,
         rd_estimates = new_json, rd_events = new_json\<rparr>,
       lg_closed = False, lg_files_open = True, lg_counts = no_records, lg_manifest = manifest_of env s hash b,
       lg_budget = n, lg_torn = torn\<rparr>"
    by (auto simp: make_files_def bindM_eq_Inr write_manifest_def empty_dir_def dest!: file_op_cases)
  then obtain n where l: "l = \<lparr>lg_dir = \<lparr>rd_marker = True, rd_config = Some (json_value (scenario_to_mapping s)),
         rd_manifest = Some (json_value (V_Dict (manifest_of env s hash b))),
         rd_summary = Some (V_Dict [(''status'', V_Str ''incomplete'')]), rd_ground_truth = new_csv GROUND_TRUTH_FIELDS,
         rd_commands = new_csv COMMAND_FIELDS, rd_timing = new_csv TIMING_FIELDS, rd_measurements = new_json,
         rd_estimates = new_json, rd_events = new_json\<rparr>,
       lg_closed = False, lg_files_open = True, lg_counts = no_records, lg_manifest = manifest_of env s hash b,
       lg_budget = n, lg_torn = torn\<rparr>" ..
  show empty: "holds env (lg_dir l) no_contents"
    by (simp add: l holds_def no_contents_def new_csv_def new_json_def whole_json_def)
  then show "log_inv env s l no_contents"
    using empty described holds_recoverable [of env "lg_dir l" no_contents]
    by (auto simp: l log_inv_def marked_def counts_of_def no_contents_def no_records_def)
  show "\<not> lg_closed l"
    "\<exists>hash b. config_sha256 env (scenario_to_mapping s) = Inr hash \<and> optional_sha256 binary = Inr b
       \<and> lg_manifest l = manifest_of env s hash b"
    using hash b by (auto simp: l)
qed

section \<open>Recording keeps the invariant\<close>

lemma holds_added:
  assumes "holds env d c" "entry_check e = Inr ()"
  shows "holds env (entry_file env e d) (add_entry e c)"
proof (cases e)
  case (LE_Event x)
  then obtain ev where "event_dict x = Inr ev" using assms(2) by (auto simp: entry_check_def bindR_eq_Inr)
  with LE_Event assms(1) show ?thesis
    by (simp add: holds_def entry_file_def on_events_def append_json_def whole_json_def log_lines_def dict_line_def)
qed (use assms(1) in \<open>simp_all add: holds_def entry_file_def on_ground_truth_def on_measurements_def on_estimates_def
      on_commands_def on_timing_def append_json_def append_row_def whole_json_def log_lines_def log_rows_def dict_line_def\<close>)

lemma counted: "entry_check e = Inr () \<Longrightarrow> entry_count e (counts_of c) = counts_of (add_entry e c)"
  by (cases e) (auto simp: entry_count_def counts_of_def entry_check_def bindR_eq_Inr)

lemma recoverable_part:
  assumes "holds env d c" "valid_entry e"
  shows "recoverable (entry_part env e torn d) c"
proof -
  have lines: "map dict_line (map measurement_dict ms) = map (dict_line \<circ> measurement_dict) ms" for ms by simp
  show ?thesis
    using assms
    by (cases e; cases torn)
      (auto simp: holds_def recoverable_def entry_part_def torn_json_def whole_json_def measurement_line_def append_json_def
        log_lines_def on_ground_truth_def on_measurements_def on_estimates_def on_commands_def on_timing_def on_events_def
        split: sum.splits)
qed

lemma marked_files:
  "marked env s (entry_file env e d) = marked env s d" "marked env s (entry_part env e torn d) = marked env s d"
  by (cases e; auto simp: marked_def entry_file_def entry_part_def Let_def on_ground_truth_def on_measurements_def
      on_estimates_def on_commands_def on_timing_def on_events_def split: sum.split torn.split)+

lemma record_entry_inv:
  assumes inv: "log_inv env s l c" and valid: "valid_entry e" and entry: "record_entry env e l = (r, l')"
  shows "log_inv env s l' (case r of Inl x \<Rightarrow> c | Inr _ \<Rightarrow> add_entry e c)"
proof (cases "lg_closed l \<or> entry_check e \<noteq> Inr ()")
  case True
  then have "l' = l \<and> (\<exists>x. r = Inl x)"
    using entry by (cases "entry_check e") (auto simp: record_entry_shape bindM_def ensure_open_def liftM_def split: if_splits dest: sym)
  then show ?thesis using inv by auto
next
  case False
  then obtain r1 l1 where w: "write_line (entry_file env e) (entry_part env e) l = (r1, l1)"
    and rest: "(r, l') = (case r1 of Inl x \<Rightarrow> (Inl x, l1) | Inr _ \<Rightarrow> count_record (entry_count e) l1)"
    using entry
    by (cases "write_line (entry_file env e) (entry_part env e) l")
      (auto simp: record_entry_shape bindM_def ensure_open_def liftM_def split: sum.splits)
  from write_line_cases [OF w] show ?thesis
  proof (elim disjE exE conjE)
    fix n
    assume whole: "r1 = Inr ()" "lg_budget l \<noteq> 0" "l1 = l\<lparr>lg_dir := entry_file env e (lg_dir l), lg_budget := n\<rparr>"
    have "holds env (entry_file env e (lg_dir l)) (add_entry e c)"
      using holds_added [of env "lg_dir l" c e] inv False whole(2) by (auto simp: log_inv_def)
    then show ?thesis
      using rest inv False whole counted [of e c] holds_recoverable
      by (auto simp: log_inv_def count_record_def modifyM_def marked_files)
  next
    assume "r1 = Inl ValueError" "l1 = l"
    then show ?thesis using rest inv by simp
  next
    assume torn: "r1 = Inl OSError" "lg_budget l = 0" "l1 = l\<lparr>lg_dir := entry_part env e (lg_torn l) (lg_dir l), lg_torn := Nothing_Left\<rparr>"
    have "recoverable (entry_part env e (lg_torn l) (lg_dir l)) c"
    proof (cases "lg_torn l = Nothing_Left")
      case True
      then have "entry_part env e (lg_torn l) = id" by (cases e) (auto simp: entry_part_def split: sum.split)
      then show ?thesis using inv by (simp add: log_inv_def)
    qed (use inv valid recoverable_part in \<open>auto simp: log_inv_def\<close>)
    then show ?thesis using rest inv torn by (auto simp: log_inv_def marked_files)
  qed
qed

section \<open>Closing keeps the invariant\<close>

lemma inv_dir [simp]:
  "holds env (d\<lparr>rd_summary := x\<rparr>) c = holds env d c" "holds env (d\<lparr>rd_manifest := y\<rparr>) c = holds env d c"
  "holds env (d\<lparr>rd_marker := b\<rparr>) c = holds env d c"
  "recoverable (d\<lparr>rd_summary := x\<rparr>) c = recoverable d c" "recoverable (d\<lparr>rd_manifest := y\<rparr>) c = recoverable d c"
  "marked env s (d\<lparr>rd_summary := x\<rparr>) = marked env s d"
  by (simp_all add: holds_def recoverable_def marked_def)

lemma marked_manifest: "marked env s d \<Longrightarrow> describes env s m \<Longrightarrow> marked env s (d\<lparr>rd_manifest := Some (json_value (V_Dict m))\<rparr>)"
  by (auto simp: marked_def)

lemma describes_set:
  "describes env s m \<Longrightarrow> k \<notin> {''run_format_version'', ''config_sha256''} \<Longrightarrow> describes env s (dict_set k v m)"
  by (auto simp: describes_def distinct_dict_set)

lemma describes_closed:
  assumes "describes env s m"
  shows "describes env s (dict_update m [(''status'', a), (''completed_utc'', b), (''record_counts'', x)])"
    "describes env s (dict_update m ((if reason = [] then [] else [(''incomplete_reason'', y)]) @ [(''record_counts'', x)]))"
  using assms by (auto simp: dict_update_def describes_set)

lemma checkpoint_inv: "log_inv env s l c \<Longrightarrow> checkpoint l = (r, l') \<Longrightarrow> log_inv env s l' c"
  by (auto simp: checkpoint_def bindM_def ensure_open_def flush_files_def log_inv_def split: if_splits dest!: file_op_cases)

text \<open>
  The closing of the files, and the end of \<^verbatim>\<open>finalize\<close> and of \<^verbatim>\<open>close_incomplete\<close>: they return, or an
  operation failed and none will succeed.
\<close>

lemma close_files_cases:
  assumes "close_files l = (r, l')"
  shows "(\<exists>n. r = Inr () \<and> l' = l\<lparr>lg_budget := n, lg_files_open := False\<rparr>) \<or> r = Inl OSError \<and> lg_budget l = 0 \<and> l' = l"
proof (cases "lg_files_open l")
  case False
  then have "r = Inr ()" "l' = l\<lparr>lg_budget := lg_budget l, lg_files_open := False\<rparr>"
    using assms by (cases l; simp add: close_files_def)+
  then show ?thesis by blast
qed (use assms in \<open>auto simp: close_files_def bindM_def modifyM_def split: sum.splits prod.splits dest!: file_op_cases\<close>)

lemma flush_files_cases:
  "flush_files l = (r, l') \<Longrightarrow> (\<exists>n. r = Inr () \<and> lg_files_open l \<and> lg_budget l = Suc n \<and> l' = l\<lparr>lg_budget := n\<rparr>)
     \<or> r = Inl ValueError \<and> l' = l \<or> r = Inl OSError \<and> lg_budget l = 0 \<and> l' = l"
  by (auto simp: flush_files_def split: if_splits dest!: file_op_cases)

lemma exhausted_inv:
  assumes "log_inv env s l c" "lg_dir l' = (lg_dir l)\<lparr>rd_summary := x, rd_manifest := y\<rparr>"
    "lg_budget l' = 0 \<or> lg_closed l'" "describes env s (lg_manifest l')" "lg_torn l' = lg_torn l"
    "y = rd_manifest (lg_dir l) \<or> y = Some (json_value (V_Dict (lg_manifest l')))"
  shows "log_inv env s l' c"
  using assms by (auto simp: log_inv_def marked_def)

lemma close_incomplete_inv:
  assumes inv: "log_inv env s l c" and close: "close_incomplete reason l = (r, l')"
  shows "log_inv env s l' c"
proof (cases "lg_closed l")
  case False
  define m where "m = dict_update (lg_manifest l) ((if reason = [] then [] else [(''incomplete_reason'', V_Str reason)])
    @ [(''record_counts'', V_Dict (counts_dict (lg_counts l)))])"
  have described: "describes env s m" unfolding m_def by (rule describes_closed(2)) (use inv in \<open>simp add: log_inv_def\<close>)
  obtain r1 l1 where f: "flush_files l = (r1, l1)" by fastforce
  show ?thesis
  proof (cases r1)
    case (Inl x)
    then have "l' = l1" using close f False by (simp add: close_incomplete_def bindM_def)
    then show ?thesis using flush_files_cases [OF f] Inl inv by (auto simp: log_inv_def)
  next
    case (Inr u)
    then obtain n where n: "l1 = l\<lparr>lg_budget := n\<rparr>" using flush_files_cases [OF f] by auto
    obtain r2 l2 where g: "close_files l1 = (r2, l2)" by fastforce
    show ?thesis
    proof (cases r2)
      case (Inl x)
      then have "l' = l2" using close f g False Inr by (simp add: close_incomplete_def bindM_def)
      then show ?thesis using close_files_cases [OF g] Inl n inv by (auto simp: log_inv_def)
    next
      case (Inr v)
      then obtain k where k: "l2 = l\<lparr>lg_budget := k, lg_files_open := False\<rparr>" using close_files_cases [OF g] n by auto
      let ?l3 = "l2\<lparr>lg_manifest := m\<rparr>"
      have "(r, l') = bindM write_manifest (\<lambda>_. modifyM (\<lambda>l. l\<lparr>lg_closed := True\<rparr>)) ?l3"
        using close f g False \<open>r1 = Inr u\<close> Inr k by (simp add: close_incomplete_def bindM_def modifyM_def m_def)
      then have "(\<exists>j. l' = ?l3\<lparr>lg_dir := (lg_dir ?l3)\<lparr>rd_manifest := Some (json_value (V_Dict m))\<rparr>, lg_budget := j, lg_closed := True\<rparr>)
        \<or> l' = ?l3 \<and> lg_budget ?l3 = 0"
        by (auto simp: bindM_def write_manifest_def modifyM_def split: sum.splits prod.splits dest!: file_op_cases)
      then show ?thesis
      proof
        assume "\<exists>j. l' = ?l3\<lparr>lg_dir := (lg_dir ?l3)\<lparr>rd_manifest := Some (json_value (V_Dict m))\<rparr>, lg_budget := j, lg_closed := True\<rparr>"
        then show ?thesis
          by (elim exE, intro exhausted_inv [OF inv, where x = "rd_summary (lg_dir l)" and y = "Some (json_value (V_Dict m))"])
            (use k described in simp_all)
      next
        assume "l' = ?l3 \<and> lg_budget ?l3 = 0"
        then show ?thesis
          by (intro exhausted_inv [OF inv, where x = "rd_summary (lg_dir l)" and y = "rd_manifest (lg_dir l)"])
            (use k described in simp_all)
      qed
    qed
  qed
qed (use inv close in \<open>auto simp: close_incomplete_def\<close>)

text \<open>What \<^verbatim>\<open>finalize\<close> does after its checks: four operations, and the manifest between the second and the third.\<close>

definition final_manifest :: "log_env \<Rightarrow> run_logger \<Rightarrow> pydict" where
  "final_manifest env l = dict_update (lg_manifest l)
     [(''status'', V_Str ''complete''), (''completed_utc'', V_Str (le_completed_utc env)),
      (''record_counts'', V_Dict (counts_dict (lg_counts l)))]"

definition final_summary :: "pydict \<Rightarrow> pyval" where
  "final_summary summary = json_value (V_Dict (dict_set ''status'' (V_Str ''complete'') summary))"

definition final_dir :: "log_env \<Rightarrow> pydict \<Rightarrow> run_logger \<Rightarrow> run_dir" where
  "final_dir env summary l = (lg_dir l)\<lparr>rd_summary := Some (final_summary summary),
     rd_manifest := Some (json_value (V_Dict (final_manifest env l))), rd_marker := False\<rparr>"

definition write_final :: "log_env \<Rightarrow> pydict \<Rightarrow> (run_logger, unit) meth" where
  "write_final env summary =
     bindM (file_op (\<lambda>d. d\<lparr>rd_summary := Some (final_summary summary)\<rparr>)) (\<lambda>_.
     bindM (modifyM (\<lambda>l. l\<lparr>lg_manifest := final_manifest env l\<rparr>)) (\<lambda>_.
     bindM write_manifest (\<lambda>_. bindM (file_op (\<lambda>d. d\<lparr>rd_marker := False\<rparr>)) (\<lambda>_. modifyM (\<lambda>l. l\<lparr>lg_closed := True\<rparr>)))))"

lemma finalize_shape:
  "finalize env summary l =
     (if lg_closed l then (Inl RunLogError, l) else if \<not> json_ok (V_Dict summary) then (Inl ValueError, l)
      else bindM flush_files (\<lambda>_. bindM close_files (\<lambda>_. write_final env summary)) l)"
  by (simp add: finalize_def bindM_def ensure_open_def liftM_def json_text_def guardR_def checkpoint_def final_manifest_def
      final_summary_def write_final_def)

definition gave_up :: "log_env \<Rightarrow> run_logger \<Rightarrow> run_logger \<Rightarrow> bool" where
  "gave_up env l l' \<longleftrightarrow> lg_budget l' = 0 \<and> lg_torn l' = lg_torn l
     \<and> (\<exists>x y. lg_dir l' = (lg_dir l)\<lparr>rd_summary := x, rd_manifest := y\<rparr>
          \<and> (y = rd_manifest (lg_dir l) \<or> y = Some (json_value (V_Dict (lg_manifest l')))))
     \<and> (lg_manifest l' = lg_manifest l \<or> lg_manifest l' = final_manifest env l)"

lemma gave_upI:
  assumes "lg_budget l' = 0" "lg_torn l' = lg_torn l" "lg_dir l' = (lg_dir l)\<lparr>rd_summary := x\<rparr>"
    "lg_manifest l' = lg_manifest l \<or> lg_manifest l' = final_manifest env l"
  shows "gave_up env l l'"
proof -
  have "lg_dir l' = (lg_dir l)\<lparr>rd_summary := x, rd_manifest := rd_manifest (lg_dir l)\<rparr>"
    using assms(3) by (cases "lg_dir l") simp
  then show ?thesis using assms unfolding gave_up_def by blast
qed

lemma gave_up_same:
  "lg_budget l' = 0 \<Longrightarrow> lg_torn l' = lg_torn l \<Longrightarrow> lg_dir l' = lg_dir l \<Longrightarrow> lg_manifest l' = lg_manifest l \<Longrightarrow> gave_up env l l'"
  by (rule gave_upI [where x = "rd_summary (lg_dir l)"]) simp_all

lemma write_final_cases:
  assumes "write_final env summary l = (r, l')"
  shows "r = Inr () \<and> lg_dir l' = final_dir env summary l \<and> lg_manifest l' = final_manifest env l \<or> (\<exists>e. r = Inl e) \<and> gave_up env l l'"
proof -
  consider "lg_budget l = 0" | "lg_budget l = Suc 0" | "lg_budget l = Suc (Suc 0)" | n where "lg_budget l = Suc (Suc (Suc n))"
    by (cases "lg_budget l" rule: nat.exhaust [case_names z s]; metis nat.exhaust)
  then show ?thesis
  proof cases
    case 1
    then show ?thesis using assms gave_up_same [of l l env] by (auto simp: write_final_def bindM_def file_op_def)
  next
    case 2
    have "r = Inl OSError" "lg_budget l' = 0" "lg_torn l' = lg_torn l"
      "lg_dir l' = (lg_dir l)\<lparr>rd_summary := Some (final_summary summary)\<rparr>" "lg_manifest l' = final_manifest env l"
      using assms 2 by (auto simp: write_final_def bindM_def file_op_def modifyM_def write_manifest_def final_manifest_def)
    then show ?thesis using gave_upI by blast
  next
    case 3
    have "r = Inl OSError" "lg_budget l' = 0" "lg_torn l' = lg_torn l" "lg_manifest l' = final_manifest env l"
      "lg_dir l' = (lg_dir l)\<lparr>rd_summary := Some (final_summary summary),
         rd_manifest := Some (json_value (V_Dict (lg_manifest l')))\<rparr>"
      using assms 3 by (auto simp: write_final_def bindM_def file_op_def modifyM_def write_manifest_def final_manifest_def)
    then show ?thesis unfolding gave_up_def by blast
  qed (use assms in \<open>auto simp: write_final_def bindM_def file_op_def modifyM_def write_manifest_def gave_up_def
        final_manifest_def final_dir_def\<close>)
qed

lemma finalize_cases:
  assumes "finalize env summary l = (r, l')"
  shows "r = Inr () \<and> \<not> lg_closed l \<and> lg_budget l \<noteq> 0 \<and> json_ok (V_Dict summary) \<and> lg_dir l' = final_dir env summary l
      \<and> lg_manifest l' = final_manifest env l
    \<or> (\<exists>e. r = Inl e) \<and> (l' = l \<or> gave_up env l l')"
proof (cases "lg_closed l \<or> \<not> json_ok (V_Dict summary)")
  case False
  have stays: "gave_up env l (l\<lparr>lg_budget := 0\<rparr>)" by (rule gave_up_same) simp_all
  have run: "bindM flush_files (\<lambda>_. bindM close_files (\<lambda>_. write_final env summary)) l = (r, l')"
    using assms False by (simp add: finalize_shape)
  obtain r1 l1 r2 l2 where f: "flush_files l = (r1, l1)" and g: "close_files l1 = (r2, l2)" by fastforce
  show ?thesis
  proof (cases r1)
    case (Inr u)
    then obtain n where n: "l1 = l\<lparr>lg_budget := n\<rparr>" "lg_budget l \<noteq> 0" using flush_files_cases [OF f] by auto
    show ?thesis
    proof (cases r2)
      case (Inl x)
      then have "r = Inl x" "l' = l\<lparr>lg_budget := 0\<rparr>" using run f g n close_files_cases [OF g] \<open>r1 = Inr u\<close> by (auto simp: bindM_def)
      then show ?thesis using stays by simp
    next
      case (Inr v)
      then obtain k where k: "l2 = l\<lparr>lg_budget := k, lg_files_open := False\<rparr>" using close_files_cases [OF g] n by auto
      have "write_final env summary l2 = (r, l')" using run f g \<open>r1 = Inr u\<close> Inr by (simp add: bindM_def)
      from write_final_cases [OF this] show ?thesis
        using False n(2) by (auto simp: k gave_up_def final_dir_def final_manifest_def)
    qed
  qed (use run f flush_files_cases [OF f] in \<open>auto simp: bindM_def\<close>)
qed (use assms in \<open>auto simp: finalize_shape split: if_splits\<close>)

lemma finalize_inv:
  assumes inv: "log_inv env s l c" and run: "finalize env summary l = (Inl x, l')"
  shows "log_inv env s l' c"
proof -
  have "describes env s (final_manifest env l)"
    unfolding final_manifest_def by (rule describes_closed(1)) (use inv in \<open>simp add: log_inv_def\<close>)
  moreover have "describes env s (lg_manifest l)" using inv by (simp add: log_inv_def)
  ultimately show ?thesis
    using finalize_cases [OF run] inv by (auto simp: gave_up_def intro: exhausted_inv [OF inv])
qed

lemma logging_run_inv: "logging_run env s l c \<Longrightarrow> log_inv env s l c"
proof (induction rule: logging_run.induct)
  case (opened name binary "exists" budget torn l d)
  then show ?case by (rule logger_opened(1))
next
  case (accepted l c e l')
  then show ?case using record_entry_inv [OF accepted.IH accepted(2,3)] by simp
next
  case (refused l c e x l')
  then show ?case using record_entry_inv [OF refused.IH refused(2,3)] by simp
qed (auto intro: checkpoint_inv finalize_inv close_incomplete_inv)

section \<open>Reading back\<close>

lemma map_until_back: "(\<And>x. x \<in> set xs \<Longrightarrow> f (h x) = Inr x) \<Longrightarrow> map_until f (map h xs) ending = (xs, ending)"
  by (induction xs) auto

lemma measurements_back:
  assumes "\<And>m. m \<in> set ms \<Longrightarrow> valid_measurement m"
  shows "map_until deserialize_measurement (map json_dict (map measurement_dict ms)) ending = (ms, ending)"
  using map_until_back [of ms deserialize_measurement "json_dict \<circ> measurement_dict"] measurement_again(2) assms by simp

lemma json_lines_append:
  "json_lines allow ended (map dict_line ds @ ls) = (case json_lines allow ended ls of (es, e) \<Rightarrow> (map json_dict ds @ es, e))"
  by (induction ds) (auto simp: dict_line_def split: prod.split)

lemma jsonl_whole [simp]: "jsonl allow (whole_json ds) = (map json_dict ds, None)"
  using json_lines_append [of allow True ds "[]"] by (simp add: jsonl_def whole_json_def)

lemma jsonl_torn:
  assumes "torn_json P ds f"
  obtains extra where "jsonl True f = (map json_dict (ds @ extra), None)" "length extra \<le> 1" "list_all P extra"
proof -
  from assms consider "f = whole_json ds" | "f = Some \<lparr>jf_lines = map dict_line ds @ [JL_Invalid], jf_ended = False\<rparr>"
    | d where "P d" "f = Some \<lparr>jf_lines = map dict_line ds @ [dict_line d], jf_ended = False\<rparr>"
    unfolding torn_json_def by blast
  then show ?thesis
  proof cases
    case 1
    then show ?thesis using that [of "[]"] by simp
  next
    case 2
    then show ?thesis using that [of "[]"] json_lines_append [of True False ds "[JL_Invalid]"] by (simp add: jsonl_def)
  next
    case (3 d)
    then show ?thesis
      using that [of "[d]"] json_lines_append [of True False ds "[dict_line d]"] by (simp add: jsonl_def dict_line_def)
  qed
qed

text \<open>A row holds exactly what was written.\<close>

lemma ground_truth_again: "valid_entry (LE_Ground_Truth x) \<Longrightarrow> ground_truth_of (ground_truth_row env x) = Inr x"
  by (cases x; cases "sm_state x")
    (auto simp: ground_truth_of_def ground_truth_row_def row_int_def row_float_def GROUND_TRUTH_FIELDS_def int_cell_def
      float_cell_def corrupt_row_def Let_def)

lemma mode_again: "command_mode_of (Some (CommandMode_value mode)) = Inr mode"
  by (cases mode) (simp_all add: command_mode_of_def)

lemma logged_command_again:
  assumes "valid_entry (LE_Command r)" "entry_check (LE_Command r) = Inr ()"
  shows "command_of (command_row env r) = Inr r"
proof -
  from assms(2) have "validate_step_time (cr_step_id r) (cr_time_s r) = Inr ()" "isfinite (cr_target_speed_mps r)"
    "cr_source r \<noteq> []" "\<not> flt (cr_target_speed_mps r) 0" "0 \<le> cr_flags r" "cr_flags r \<le> 255"
    by (auto simp: entry_check_def bindR_eq_Inr finite_real_def split: if_splits)
  with assms(1) show ?thesis
    by (cases "cr_source r")
      (auto simp: command_of_def command_row_def row_int_def row_float_def row_text_def COMMAND_FIELDS_def int_cell_def
        float_cell_def text_cell_def corrupt_row_def Let_def guardR_def mode_again)
qed

lemma timing_again:
  assumes "entry_check (LE_Timing r) = Inr ()"
  shows "timing_of (timing_row env r) = Inr r"
proof -
  from assms have "validate_step_time (tg_step_id r) (tg_time_s r) = Inr ()" "isfinite (tg_duration_s r)"
    "tg_component r \<noteq> []" "\<not> flt (tg_duration_s r) 0"
    by (auto simp: entry_check_def bindR_eq_Inr finite_real_def split: if_splits)
  then show ?thesis
    by (cases "tg_component r")
      (auto simp: timing_of_def timing_row_def row_int_def row_float_def row_text_def TIMING_FIELDS_def int_cell_def
        float_cell_def text_cell_def corrupt_row_def guardR_def)
qed

text \<open>Every record that was accepted reads back.\<close>

definition readable :: "contents \<Rightarrow> bool" where
  "readable c \<longleftrightarrow> (\<forall>x\<in>set (cn_ground_truth c). valid_entry (LE_Ground_Truth x))
     \<and> (\<forall>m\<in>set (cn_measurements c). valid_measurement m)
     \<and> (\<forall>r\<in>set (cn_commands c). valid_entry (LE_Command r) \<and> entry_check (LE_Command r) = Inr ())
     \<and> (\<forall>r\<in>set (cn_timing c). entry_check (LE_Timing r) = Inr ())"

lemma record_entry_checked: "record_entry env e l = (Inr (), l') \<Longrightarrow> entry_check e = Inr ()"
  by (auto simp: record_entry_shape bindM_eq_Inr liftM_def)

lemma logging_run_readable: "logging_run env s l c \<Longrightarrow> readable c"
proof (induction rule: logging_run.induct)
  case (accepted l c e l')
  then show ?case
    using record_entry_checked [OF accepted(3)] by (cases e) (auto simp: readable_def split: sum.split)
qed (simp_all add: readable_def no_contents_def)

section \<open>The reader\<close>

lemma json_gets:
  assumes "describes env s m"
  shows "dict_get ''run_format_version'' (json_dict m) = Some (V_Int 1)"
    "dict_get ''config_sha256'' (json_dict m) = map_option V_Str (case config_sha256 env (scenario_to_mapping s) of Inl _ \<Rightarrow> None | Inr h \<Rightarrow> Some h)"
    "config_sha256 env (json_value (scenario_to_mapping s)) = config_sha256 env (scenario_to_mapping s)"
    "\<exists>h. config_sha256 env (scenario_to_mapping s) = Inr h"
  using assms by (auto simp: describes_def json_get config_sha256_def json_ok_value json_value_twice split: if_splits)

lemma measurement_lines: "list_all measurement_line ds \<Longrightarrow> \<exists>ms. ds = map measurement_dict ms \<and> (\<forall>m\<in>set ms. valid_measurement m)"
proof (induction ds)
  case (Cons d ds)
  then obtain m ms where "valid_measurement m" "d = measurement_dict m" "ds = map measurement_dict ms" "\<forall>m\<in>set ms. valid_measurement m"
    by (auto simp: measurement_line_def)
  then show ?case by (intro exI [of _ "m # ms"]) simp
qed simp

text \<open>
  C32: A run that was not finalized is never taken for a complete one. Whatever was recorded, refused or
  cut off, however finalizing or closing failed or how the program died, the reader answers with the
  error of an incomplete run.
\<close>

theorem unfinished_run_refused:
  assumes "logging_run env s l c"
  shows "RunReplay env' False (lg_dir l) = Inl IncompleteRunError"
proof -
  have "marked env s (lg_dir l)" using logging_run_inv [OF assms] by (simp add: log_inv_def)
  then obtain m where "rd_marker (lg_dir l)" "rd_manifest (lg_dir l) = Some (V_Dict (json_dict m))" "describes env s m"
    by (auto simp: marked_def)
  then show ?thesis by (simp add: RunReplay_def read_json_def json_gets is_version_1_def guardR_def)
qed


text \<open>The counts of a manifest that a finalized run has.\<close>

lemma counts_again:
  "dict_get k (json_dict (counts_dict c)) = dict_get k (counts_dict c)"
  "set (map fst (counts_dict c)) = set count_names"
proof -
  have "distinct (map fst (counts_dict c))" by (simp add: counts_dict_def)
  then show "dict_get k (json_dict (counts_dict c)) = dict_get k (counts_dict c)"
    by (simp add: json_get) (auto simp: counts_dict_def)
  show "set (map fst (counts_dict c)) = set count_names"
    by (auto simp: counts_dict_def count_names_def)
qed

lemma expected_counts:
  "sequenceR (map (expected_count (json_dict (counts_dict c))) count_names) =
     Inr (map int [rn_ground_truth c, rn_measurements c, rn_estimates c, rn_commands c, rn_events c, rn_timing c])"
  by (simp add: count_names_def expected_count_def counts_again) (simp add: counts_dict_def)

text \<open>What a reader of a directory that holds the contents gives.\<close>

lemma streams_back:
  assumes "holds env (ry_dir r) c" "readable c"
  shows "ground_truth r = (cn_ground_truth c, None)" "measurements r = (cn_measurements c, None)"
    "estimates r = (map json_dict (cn_estimates c), None)" "commands r = (cn_commands c, None)"
    "events r = (map json_dict (cn_events c), None)" "timing r = (cn_timing c, None)"
  using assms map_until_back [of "cn_ground_truth c" ground_truth_of "ground_truth_row env" None]
    map_until_back [of "cn_commands c" command_of "command_row env" None]
    map_until_back [of "cn_timing c" timing_of "timing_row env" None] measurements_back [of "cn_measurements c" None]
    ground_truth_again logged_command_again timing_again
  by (simp_all add: ground_truth_def measurements_def estimates_def commands_def events_def timing_def csv_rows_def
      map_stream_def holds_def readable_def)

text \<open>The reader opens a finalized run: the manifest, the counts, the summary and the marker all agree.\<close>

lemma finalized_reader:
  assumes log: "logging_run env s l c" and final: "finalize env summary l = (Inr (), l')"
    and summary: "distinct (map fst summary)"
  obtains r where "RunReplay env False (lg_dir l') = Inr r" "is_complete r" "ry_config r = json_value (scenario_to_mapping s)"
    "holds env (ry_dir r) c" "readable c"
proof -
  have inv: "log_inv env s l c" using log by (rule logging_run_inv)
  have fin: "\<not> lg_closed l" "lg_budget l \<noteq> 0" "lg_dir l' = final_dir env summary l" using finalize_cases [OF final] by auto
  then have held: "holds env (lg_dir l) c" "lg_counts l = counts_of c" using inv by (auto simp: log_inv_def)
  have described: "describes env s (final_manifest env l)"
    unfolding final_manifest_def by (rule describes_closed(1)) (use inv in \<open>simp add: log_inv_def\<close>)
  define r where "r = \<lparr>ry_dir = lg_dir l', ry_allow_incomplete = False, ry_manifest = json_dict (final_manifest env l),
    ry_config = json_value (scenario_to_mapping s)\<rparr>"
  have dir: "holds env (ry_dir r) c" using held(1) fin(3) by (simp add: r_def final_dir_def)
  note streams = streams_back [OF dir logging_run_readable [OF log]]
  have keys: "distinct (map fst (final_manifest env l))" using described by (simp add: describes_def)
  have complete: "is_complete r"
    using fin(3) json_get [OF keys, of "''status''"]
    by (simp add: is_complete_def status_complete_def r_def final_manifest_def dict_get_update final_dir_def)
  have "dict_get ''record_counts'' (ry_manifest r) = Some (V_Dict (json_dict (counts_dict (counts_of c))))"
    using json_get [OF keys, of "''record_counts''"] held(2) by (simp add: r_def final_manifest_def dict_get_update)
  moreover have "status_complete (json_dict (dict_set ''status'' (V_Str ''complete'') summary))"
    using json_get [of "dict_set ''status'' (V_Str ''complete'') summary" "''status''"] summary
    by (simp add: status_complete_def distinct_dict_set)
  ultimately have valid: "validate_complete_artifacts r = Inr ()"
    using fin(3) streams
    by (simp add: validate_complete_artifacts_def counts_again(2) expected_counts guardR_def count_stream_def all_of_def
        read_json_def r_def [THEN arg_cong, of ry_dir] final_dir_def final_summary_def counts_of_def del: set_map)
  have "marked env s (lg_dir l)" using inv by (simp add: log_inv_def)
  then have "RunReplay env False (lg_dir l') = Inr r"
    using fin(3) json_gets [OF described] complete valid
    by (auto simp: RunReplay_def read_json_def is_version_1_def guardR_def final_dir_def marked_def is_complete_def r_def Let_def)
  then show ?thesis using that complete dir logging_run_readable [OF log] by (simp add: r_def)
qed

text \<open>
  C8: A finalized run is read back, record by record. If the logger accepted the records and finalized
  the run, the reader accepts the directory as complete, and each stream gives the records in the
  order in which they were logged, the dicts with the keys in the order in which JSON leaves them.
\<close>

theorem finalized_run_replays:
  assumes log: "logging_run env s l c" and final: "finalize env summary l = (Inr (), l')"
    and summary: "distinct (map fst summary)"
  shows "\<exists>r. RunReplay env False (lg_dir l') = Inr r \<and> is_complete r \<and> ry_config r = json_value (scenario_to_mapping s)
    \<and> ground_truth r = (cn_ground_truth c, None) \<and> measurements r = (cn_measurements c, None)
    \<and> estimates r = (map json_dict (cn_estimates c), None) \<and> commands r = (cn_commands c, None)
    \<and> events r = (map json_dict (cn_events c), None) \<and> timing r = (cn_timing c, None)"
proof -
  obtain r where r: "RunReplay env False (lg_dir l') = Inr r" "is_complete r" "ry_config r = json_value (scenario_to_mapping s)"
    and contents: "holds env (ry_dir r) c" "readable c"
    by (rule finalized_reader [OF log final summary])
  show ?thesis using r streams_back [OF contents] by blast
qed

end
