(* ===== verification/Run_Config.thy ===== *)
theory Run_Config
  imports Run_Log_Laws Scenario_Laws
begin

text \<open>
  The configuration that a run log stores. \<^verbatim>\<open>yaml.safe_dump\<close> sorts the keys of the scenario's mapping;
  the parser of scenarios does not depend on their order, so the stored configuration gives the scenario.
\<close>

section \<open>The order of the keys\<close>

text \<open>No dict has a key twice.\<close>

fun tidy :: "pyval \<Rightarrow> bool" where
  "tidy (V_List vs) = (\<forall>v\<in>set vs. tidy v)"
| "tidy (V_Dict d) = (distinct (map fst d) \<and> (\<forall>p\<in>set d. tidy (snd p)))"
| "tidy _ = True"

lemma json_simple [simp]:
  "json_value v = V_Int n \<longleftrightarrow> v = V_Int n" "json_value v = V_Str s \<longleftrightarrow> v = V_Str s" "json_value v = V_Bool b \<longleftrightarrow> v = V_Bool b"
  by (cases v; simp)+

lemma json_dict_Nil [simp]: "json_dict [] = []"
  by (simp add: json_dict_def)

lemma finite_value_json: "finite_value (json_value v) = finite_value v"
  by (cases v) (simp_all add: finite_value_def)

lemma fields_json:
  assumes "distinct (map fst d)"
  shows "number (json_dict d) k x = number d k x" "integer (json_dict d) k n = integer d k n"
    "boolean (json_dict d) k b = boolean d k b" "get_or (json_dict d) k (V_Dict []) = json_value (get_or d k (V_Dict []))"
    "get_or (json_dict d) k (V_List []) = json_value (get_or d k (V_List []))"
  by (auto simp: number_def integer_def boolean_def get_or_def json_get [OF assms] finite_value_json
      split: option.split pyval.split)

lemma text_json:
  "distinct (map fst d) \<Longrightarrow>
     (case dict_get k (json_dict d) of Some (V_Str s) \<Rightarrow> f s | _ \<Rightarrow> z) = (case dict_get k d of Some (V_Str s) \<Rightarrow> f s | _ \<Rightarrow> z)"
  by (auto simp: json_get split: option.split pyval.split)

lemma mapping_json:
  assumes "tidy v" "\<And>d. v = V_Dict d \<Longrightarrow> distinct (map fst d) \<Longrightarrow> f (json_dict d) = f d"
  shows "bindR (mapping (json_value v) allowed) f = bindR (mapping v allowed) f"
proof (cases v)
  case (V_Dict d)
  have "list_all (\<lambda>(k, x). k \<in> set allowed) (json_dict d) = list_all (\<lambda>(k, x). k \<in> set allowed) d"
    by (auto simp: list_all_iff json_dict_def)
  then show ?thesis using assms V_Dict by (simp add: mapping_def)
qed (simp_all add: mapping_def)

lemma tidy_empty [simp]: "tidy (V_Dict [])"
  by simp

lemma tidy_get: "tidy (V_Dict d) \<Longrightarrow> tidy e \<Longrightarrow> tidy (get_or d k e)"
  by (auto simp: get_or_def dict_get_def dest!: map_of_SomeD split: option.split)

section \<open>The parsers\<close>

lemma parts_json:
  assumes "tidy v"
  shows "parse_vehicle (json_value v) = parse_vehicle v" "parse_initial_state (json_value v) = parse_initial_state v"
    "parse_command (json_value v) = parse_command v" "parse_imu (json_value v) = parse_imu v"
    "parse_wheel (json_value v) = parse_wheel v" "parse_gnss (json_value v) = parse_gnss v"
    "parse_landmark_sensor (json_value v) = parse_landmark_sensor v" "parse_landmark (json_value v) = parse_landmark v"
    "parse_waypoint (json_value v) = parse_waypoint v"
  unfolding parse_vehicle_def parse_initial_state_def parse_command_def parse_imu_def parse_wheel_def parse_gnss_def
    parse_landmark_sensor_def parse_landmark_def parse_waypoint_def
  by (rule mapping_json [OF assms]; simp only: fields_json)+

lemma parse_fault_json: "tidy v \<Longrightarrow> parse_fault (json_value v) = parse_fault v"
  unfolding parse_fault_def
  by (rule mapping_json) (auto simp: fields_json json_get split: option.split pyval.split)

lemma parse_all_json: "(\<And>x. tidy x \<Longrightarrow> p (json_value x) = p x) \<Longrightarrow> tidy v \<Longrightarrow> parse_all p (json_value v) = parse_all p v"
  by (cases v) (auto simp: parse_all_def items_def cong: map_cong)

lemma parse_commands_json: "tidy v \<Longrightarrow> parse_commands (json_value v) = parse_commands v"
  by (cases v) (auto simp: parse_commands_def items_def parts_json(3) cong: map_cong)

lemma parse_sensors_json: "tidy v \<Longrightarrow> parse_sensors (json_value v) = parse_sensors v"
  unfolding parse_sensors_def
  by (rule mapping_json) (auto simp: fields_json parts_json tidy_get simp del: tidy.simps(2))

lemma scenario_json:
  assumes "tidy v"
  shows "scenario_from_mapping (json_value v) = scenario_from_mapping v"
  unfolding scenario_from_mapping_def
  using assms
  by (intro mapping_json)
    (auto simp: fields_json text_json tidy_get parts_json parse_commands_json parse_sensors_json parse_all_json parse_fault_json
      simp del: tidy.simps(2) intro: assms)

section \<open>The snapshot\<close>

lemma tidy_mapping: "tidy (scenario_to_mapping s)"
  by (auto simp: scenario_to_mapping_def vehicle_mapping_def initial_state_mapping_def command_mapping_def sensors_mapping_def
      imu_mapping_def wheel_mapping_def gnss_mapping_def landmark_sensor_mapping_def landmark_mapping_def fault_mapping_def
      waypoint_mapping_def)

lemma snapshot_parses:
  assumes "scenario_from_mapping raw = Inr s" "\<forall>a\<in>set (angles s). angle_stable a"
  shows "scenario_from_mapping (json_value (scenario_to_mapping s)) = Inr s"
  using parsed_scenario [OF assms(1)] assms(2) snapshot_again by (simp add: scenario_json tidy_mapping)

end
