(* ===== verification/Recorded_Run.thy ===== *)
theory Recorded_Run
  imports Cil_Replay_Laws Run_Config
begin

text \<open>
  The closed loop with the run log that \<^verbatim>\<open>run_closed_loop\<close> of \<^verbatim>\<open>cil.py\<close> opens: the environment in which
  every record of the loop is a call of \<^verbatim>\<open>RunLogger\<close>. It is the logger of the interface \<open>run_log\<close>, so what
  the replay of a run needs holds of the directory that \<^verbatim>\<open>RunReplay\<close> reads.
\<close>

section \<open>The logger of a run\<close>

text \<open>
  What the call gives the constructor: the name of the run, the digest of the executable (or the error
  of reading it), whether the directory is there, what the files allow, and the text of the exception
  that ends the run.
\<close>

record log_setup =
  lu_run_name :: "string option"
  lu_binary :: "string result"
  lu_exists :: bool
  lu_budget :: nat
  lu_torn :: torn
  lu_reason :: string

record 'y recorder =
  rc_logger :: "run_logger option"
  rc_failed_dir :: "run_dir option"
  rc_outer :: 'y

definition open_logger :: "log_env \<Rightarrow> scenario \<Rightarrow> log_setup \<Rightarrow> ('y recorder, unit) meth" where
  "open_logger lenv s u w =
     (case lu_binary u of
        Inl e \<Rightarrow> (Inl e, w)
      | Inr hash \<Rightarrow>
          (case RunLogger lenv s (lu_run_name u) (Some hash) (lu_exists u) (lu_budget u) (lu_torn u) of
             (Inl e, d) \<Rightarrow> (Inl e, w\<lparr>rc_failed_dir := d\<rparr>)
           | (Inr l, d) \<Rightarrow> (Inr (), w\<lparr>rc_logger := Some l\<rparr>)))"

text \<open>Without a logger there is no attribute to call; the loop does not come to this.\<close>

definition on_logger :: "(run_logger, 'a) meth \<Rightarrow> ('y recorder, 'a) meth" where
  "on_logger m w =
     (case rc_logger w of
        None \<Rightarrow> (Inl AttributeError, w)
      | Some l \<Rightarrow> (case m l of (r, l') \<Rightarrow> (r, w\<lparr>rc_logger := Some l'\<rparr>)))"

fun entry_of :: "log_call \<Rightarrow> log_entry" where
  "entry_of (Log_Measurement m) = LE_Measurement m"
| "entry_of (Log_Sensor_Event e) = LE_Event (EA_Sensor e)"
| "entry_of (Log_Event d) = LE_Event (EA_Dict d)"
| "entry_of (Log_Ground_Truth x) = LE_Ground_Truth x"
| "entry_of (Log_Estimate d) = LE_Estimate d"
| "entry_of (Log_Command step t command source target mode flags) =
     LE_Command \<lparr>cr_step_id = step, cr_time_s = t, cr_command = command, cr_target_speed_mps = target,
       cr_mode = mode, cr_flags = flags, cr_source = source\<rparr>"
| "entry_of (Log_Timing step t component duration) =
     LE_Timing \<lparr>tg_step_id = step, tg_time_s = t, tg_component = component, tg_duration_s = duration\<rparr>"

definition run_name_of :: "scenario \<Rightarrow> log_setup \<Rightarrow> string" where
  "run_name_of s u = (case lu_run_name u of Some (c # cs) \<Rightarrow> c # cs | _ \<Rightarrow> so_name s)"

definition on_outer :: "('y, 'a) meth \<Rightarrow> ('y recorder, 'a) meth" where
  "on_outer m w = (case m (rc_outer w) of (r, y) \<Rightarrow> (r, w\<lparr>rc_outer := y\<rparr>))"

definition recording_env ::
  "'f reaction \<Rightarrow> 'r sensor_env \<Rightarrow> log_env \<Rightarrow> scenario \<Rightarrow> log_setup \<Rightarrow> ('y \<Rightarrow> int \<times> 'y) \<Rightarrow> ('y, unit) meth \<Rightarrow>
     ('f, 'r, 'y recorder) cil_env" where
  "recording_env react sensors lenv s u clock_of dashboard_of =
     \<lparr>ce_react = react, ce_sensors = sensors, ce_logging = True, ce_open = open_logger lenv s u,
      ce_log = (\<lambda>call. on_logger (record_entry lenv (entry_of call))),
      ce_finalize = (\<lambda>summary. bindM (on_logger (finalize lenv summary)) (\<lambda>_. returnM (run_name_of s u))),
      ce_close_incomplete = on_logger (close_incomplete (lu_reason u)),
      ce_clock_ns = (\<lambda>w. case clock_of (rc_outer w) of (n, y) \<Rightarrow> (n, w\<lparr>rc_outer := y\<rparr>)),
      ce_dashboard = on_outer dashboard_of\<rparr>"

definition recorded_dir :: "'y recorder \<Rightarrow> run_dir" where
  "recorded_dir w = (case rc_logger w of None \<Rightarrow> empty_dir | Some l \<Rightarrow> lg_dir l)"

section \<open>It is a logger\<close>

text \<open>The log of this run: its configuration, and the executable that its manifest names.\<close>

definition log_of_run :: "scenario \<Rightarrow> log_setup \<Rightarrow> 'y recorder \<Rightarrow> bool" where
  "log_of_run s u w \<longleftrightarrow>
     (case (rc_logger w, lu_binary u) of
        (Some l, Inr hash) \<Rightarrow>
          rd_config (lg_dir l) = Some (json_value (scenario_to_mapping s)) \<and> distinct (map fst (lg_manifest l))
          \<and> dict_get ''controller_binary_sha256'' (lg_manifest l) = Some (V_Str (lower hash))
      | _ \<Rightarrow> False)"

text \<open>The measurements, behind a mark if the log is not that of the run.\<close>

definition file_lines :: "scenario \<Rightarrow> log_setup \<Rightarrow> 'y recorder \<Rightarrow> json_line option list" where
  "file_lines s u w = (if log_of_run s u w then [] else [None]) @ map Some (log_lines (rd_measurements (recorded_dir w)))"

definition estimate_lines :: "'y recorder \<Rightarrow> json_line list" where
  "estimate_lines w = log_lines (rd_estimates (recorded_dir w))"

definition command_rows :: "'y recorder \<Rightarrow> cell list list" where
  "command_rows w = log_rows (rd_commands (recorded_dir w))"

lemma on_logger_Inr:
  "on_logger m w = (Inr v, w') \<Longrightarrow> \<exists>l l'. rc_logger w = Some l \<and> m l = (Inr v, l') \<and> w' = w\<lparr>rc_logger := Some l'\<rparr>"
  by (auto simp: on_logger_def split: option.splits prod.splits)

lemma record_entry_dir:
  "record_entry lenv e l = (Inr (), l') \<Longrightarrow> lg_dir l' = entry_file lenv e (lg_dir l) \<and> lg_manifest l' = lg_manifest l"
  by (auto simp: record_entry_shape bindM_eq_Inr ensure_open_def liftM_def count_record_def modifyM_def split: if_splits
      dest!: write_line_cases)

lemma entry_file_config: "rd_config (entry_file lenv e d) = rd_config d"
  by (cases e) (auto simp: entry_file_def on_ground_truth_def on_measurements_def on_estimates_def on_commands_def
      on_timing_def on_events_def split: sum.split)

lemma logged_dir:
  "ce_log (recording_env react sensors lenv s u clock_of dashboard_of) call w = (Inr (), w') \<Longrightarrow>
     recorded_dir w' = entry_file lenv (entry_of call) (recorded_dir w) \<and> log_of_run s u w' = log_of_run s u w"
  by (auto simp: recording_env_def recorded_dir_def log_of_run_def entry_file_config split: sum.splits
      dest!: on_logger_Inr record_entry_dir)

lemma opened_logger:
  assumes "open_logger lenv s u w = (Inr (), w')"
  shows "\<exists>l hash d. RunLogger lenv s (lu_run_name u) (Some hash) (lu_exists u) (lu_budget u) (lu_torn u) = (Inr l, d)
    \<and> lu_binary u = Inr hash \<and> w' = w\<lparr>rc_logger := Some l\<rparr>"
  using assms by (auto simp: open_logger_def split: sum.splits prod.splits)

text \<open>The files that a call leaves alone.\<close>

lemma entry_file_other:
  "rd_measurements (entry_file lenv e d) = (case e of LE_Measurement m \<Rightarrow> append_json (dict_line (measurement_dict m)) True (rd_measurements d)
     | _ \<Rightarrow> rd_measurements d)"
  "rd_estimates (entry_file lenv e d) = (case e of LE_Estimate x \<Rightarrow> append_json (dict_line x) True (rd_estimates d) | _ \<Rightarrow> rd_estimates d)"
  "rd_commands (entry_file lenv e d) = (case e of LE_Command r \<Rightarrow> append_row (command_row lenv r) (rd_commands d) | _ \<Rightarrow> rd_commands d)"
  by (auto simp: entry_file_def on_ground_truth_def on_measurements_def on_estimates_def on_commands_def on_timing_def on_events_def
      split: log_entry.split sum.split)

lemma log_lines_append [simp]: "log_lines (append_json line ended f) = log_lines f @ [line]"
  and log_rows_append [simp]: "log_rows (append_row row g) = log_rows g @ [row]"
  by (simp_all add: append_json_def append_row_def log_lines_def log_rows_def)

lemma finalized_dir:
  assumes "ce_finalize (recording_env react sensors lenv s u clock_of dashboard_of) summary w = (Inr path, w')"
  shows "\<exists>l l'. rc_logger w = Some l \<and> finalize lenv summary l = (Inr (), l') \<and> w' = w\<lparr>rc_logger := Some l'\<rparr>"
  using assms by (auto simp: recording_env_def bindM_eq_Inr dest!: on_logger_Inr)

lemma distinct_set_iff: "distinct (map fst (dict_set k v d)) = distinct (map fst d)"
proof (induction d)
  case (Cons p d)
  have "set (map fst (dict_set k v d)) = insert k (set (map fst d))"
    by (simp add: dict_set_def dom_update)
  with Cons show ?case by (cases p) (auto simp: dict_set_def dom_update)
qed (simp add: dict_set_def)

lemma finalized_log: "rc_logger w = Some l \<Longrightarrow> finalize lenv summary l = (Inr (), l') \<Longrightarrow>
    log_of_run s u (w\<lparr>rc_logger := Some l'\<rparr>) = log_of_run s u w"
  by (auto simp: log_of_run_def final_dir_def final_manifest_def dict_update_def distinct_set_iff split: sum.split
      dest!: finalize_cases)

interpretation run_files: run_log "recording_env react sensors lenv s u (clock_of :: 'y \<Rightarrow> int \<times> 'y) dashboard_of"
  "file_lines s u" "\<lambda>m. Some (dict_line (measurement_dict m))" estimate_lines dict_line command_rows "command_row lenv"
proof unfold_locales
  let ?env = "recording_env react sensors lenv s u clock_of dashboard_of"
  show "ce_logging ?env" by (simp add: recording_env_def)
  note files = file_lines_def estimate_lines_def command_rows_def
  fix w w' :: "'y recorder"
  show "ce_open ?env w = (Inr (), w') \<Longrightarrow> file_lines s u w' = [] \<and> estimate_lines w' = [] \<and> command_rows w' = []"
  proof -
    assume "ce_open ?env w = (Inr (), w')"
    then obtain l hash d where opened: "RunLogger lenv s (lu_run_name u) (Some hash) (lu_exists u) (lu_budget u) (lu_torn u) = (Inr l, d)"
      "lu_binary u = Inr hash" "w' = w\<lparr>rc_logger := Some l\<rparr>"
      using opened_logger by (fastforce simp: recording_env_def)
    have "log_of_run s u w'"
      using opened(2,3) logger_opened(1,3) [OF opened(1)]
      by (auto simp: log_of_run_def log_inv_def marked_def describes_def manifest_of_def optional_sha256_def bindR_eq_Inr opt_text_def)
    then show ?thesis
      using opened(3) logger_opened(4) [OF opened(1)]
      by (simp add: files recorded_dir_def holds_def no_contents_def whole_json_def log_lines_def log_rows_def)
  qed
  show "ce_log ?env (Log_Measurement m) w = (Inr (), w') \<Longrightarrow>
      file_lines s u w' = file_lines s u w @ [Some (dict_line (measurement_dict m))] \<and> estimate_lines w' = estimate_lines w \<and> command_rows w' = command_rows w" for m
    by (auto simp: files entry_file_other dest!: logged_dir)
  show "ce_log ?env (Log_Estimate d) w = (Inr (), w') \<Longrightarrow>
      file_lines s u w' = file_lines s u w \<and> estimate_lines w' = estimate_lines w @ [dict_line d] \<and> command_rows w' = command_rows w" for d
    by (auto simp: files entry_file_other dest!: logged_dir)
  show "ce_log ?env (Log_Command step t command source target mode flags) w = (Inr (), w') \<Longrightarrow>
      file_lines s u w' = file_lines s u w \<and> estimate_lines w' = estimate_lines w
      \<and> command_rows w' = command_rows w @ [command_row lenv \<lparr>cr_step_id = step, cr_time_s = t, cr_command = command,
           cr_target_speed_mps = target, cr_mode = mode, cr_flags = flags, cr_source = source\<rparr>]" for step t command source target mode flags
    by (auto simp: files entry_file_other dest!: logged_dir)
  show "elsewhere call \<Longrightarrow> ce_log ?env call w = (Inr (), w') \<Longrightarrow>
      file_lines s u w' = file_lines s u w \<and> estimate_lines w' = estimate_lines w \<and> command_rows w' = command_rows w" for call
    by (cases call) (auto simp: files entry_file_other dest!: logged_dir)
  show "ce_finalize ?env summary w = (Inr path, w') \<Longrightarrow>
      file_lines s u w' = file_lines s u w \<and> estimate_lines w' = estimate_lines w \<and> command_rows w' = command_rows w" for summary path
    by (auto simp: files recorded_dir_def final_dir_def finalized_log dest!: finalized_dir dest: finalize_cases)
  show "ce_clock_ns ?env w = (n, w') \<Longrightarrow>
      file_lines s u w' = file_lines s u w \<and> estimate_lines w' = estimate_lines w \<and> command_rows w' = command_rows w" for n
    by (auto simp: recording_env_def files recorded_dir_def log_of_run_def split: prod.splits)
  show "ce_dashboard ?env w = (Inr (), w') \<Longrightarrow>
      file_lines s u w' = file_lines s u w \<and> estimate_lines w' = estimate_lines w \<and> command_rows w' = command_rows w"
    by (auto simp: recording_env_def on_outer_def files recorded_dir_def log_of_run_def split: prod.splits)
qed

section \<open>The end of a run\<close>

lemma finish_finalizes:
  assumes "finish_run env s c = (Inr result, c')" "ce_logging env"
  shows "\<exists>summary w path w1. ce_finalize env summary w = (Inr path, w1) \<and> ce_dashboard env w1 = (Inr (), cl_world c')"
proof -
  from assms have "\<exists>summary t path t1. on_world (ce_finalize env summary) t = (Inr path, t1) \<and> on_world (ce_dashboard env) t1 = (Inr (), c')"
    by (auto simp: finish_run_def bindM_eq_Inr) blast
  then show ?thesis by (fastforce simp: on_world_def split: prod.splits)
qed

lemma run_finalizes:
  assumes "run_closed_loop env s runnable f world = (Inr result, world', Some c)" "ce_logging env"
  shows "\<exists>summary w path w1. ce_finalize env summary w = (Inr path, w1) \<and> ce_dashboard env w1 = (Inr (), world')"
proof -
  from assms(1) obtain timeout session sensors world1 where
    guarded: "cil_guarded env (cil_body env s timeout) (initial_cil session sensors world1 (so_initial_state s)) = (Inr result, c)"
    and world': "world' = cl_world c"
    by (auto simp: run_closed_loop_def bindR_eq_Inr split: sum.splits prod.splits)
  from guarded obtain c' where body: "cil_body env s timeout (initial_cil session sensors world1 (so_initial_state s)) = (Inr result, c')"
    and closed: "on_session (session_close (cil_ops (ce_react env))) c' = (Inr (), c)"
    by (auto simp: cil_guarded_def split: prod.splits sum.splits if_splits)
  have "cl_world c = cl_world c'" using closed by (auto simp: on_session_def split: prod.splits)
  moreover obtain c1 where "finish_run env s c1 = (Inr result, c')" using body by (auto simp: cil_body_def bindM_eq_Inr)
  ultimately show ?thesis using finish_finalizes [OF _ assms(2)] world' by metis
qed

lemma recording_finalized:
  assumes "run_closed_loop (recording_env react sensors lenv s u clock_of dashboard_of) s runnable f w = (Inr result, w', Some c)"
  shows "\<exists>summary l0 l. finalize lenv summary l0 = (Inr (), l) \<and> rc_logger w' = Some l"
proof -
  let ?env = "recording_env react sensors lenv s u clock_of dashboard_of"
  have "ce_logging ?env" by (simp add: recording_env_def)
  from run_finalizes [OF assms this] obtain summary w0 path w1 where
    "ce_finalize ?env summary w0 = (Inr path, w1)" "ce_dashboard ?env w1 = (Inr (), w')" by blast
  then show ?thesis
    using finalized_dir [of react sensors lenv s u clock_of dashboard_of]
    by (fastforce simp: recording_env_def on_outer_def split: prod.splits)
qed

section \<open>What is read is what was written\<close>

lemma new_measurement_id: "new_measurement m = Inr m' \<Longrightarrow> m' = m"
  by (cases m) (auto simp: bindR_eq_Inr finite_real_def split: if_splits)

lemma finite_real_id: "finite_real x = Inr y \<longleftrightarrow> isfinite x \<and> y = x"
  by (auto simp: finite_real_def)

lemma record_float_id: "dict_get k d = Some (V_Float x) \<Longrightarrow> record_float d k = Inr y \<Longrightarrow> y = x"
  by (auto simp: record_float_def finite_number_def finite_real_id split: sum.splits if_splits)

lemma record_int_id: "dict_get k d = Some (V_Int x) \<Longrightarrow> record_int d k = Inr y \<Longrightarrow> y = x"
  by (simp add: record_int_def)

lemma observation_id:
  assumes "read_observation (json_value (observation_dict o1)) = Inr o2"
  shows "o2 = o1"
proof -
  let ?d = "[(''landmark_id'', V_Int (lo_landmark_id o1)), (''range_m'', V_Float (lo_range_m o1)),
             (''bearing_rad'', V_Float (lo_bearing_rad o1)), (''is_outlier'', V_Bool (lo_is_outlier o1))]"
  have distinct: "distinct (map fst ?d)" by simp
  have "json_value (observation_dict o1) = V_Dict (json_dict ?d)"
    unfolding observation_dict_def by (rule json_value_dict)
  then show ?thesis
    using assms
    by (auto simp: read_observation_def bindR_eq_Inr record_json [OF distinct] json_get [OF distinct] LandmarkObservation_def
        finite_real_id dest!: record_float_id [of _ ?d, rotated] record_int_id [of _ ?d, rotated])
qed

lemma observations_id: "read_observations (map (json_value \<circ> observation_dict) os) = Inr os' \<Longrightarrow> os' = os"
  by (induction os arbitrary: os') (auto simp: bindR_eq_Inr dest: observation_id)

lemma common_id:
  assumes "read_common (json_dict (measurement_dict m)) = Inr t"
  shows "t = times_of m"
proof -
  note distinct = distinct_measurement_dict [of m]
  have gets: "dict_get ''sample_step_id'' (measurement_dict m) = Some (V_Int (mt_sample_step_id (times_of m)))"
    "dict_get ''sample_time_s'' (measurement_dict m) = Some (V_Float (mt_sample_time_s (times_of m)))"
    "dict_get ''delivery_step_id'' (measurement_dict m) = Some (V_Int (mt_delivery_step_id (times_of m)))"
    "dict_get ''delivery_time_s'' (measurement_dict m) = Some (V_Float (mt_delivery_time_s (times_of m)))"
    by (simp_all add: measurement_dict_def Let_def)
  show ?thesis
    using assms gets
    by (cases "times_of m") (auto simp: read_common_def bindR_eq_Inr record_json [OF distinct] dest: record_float_id record_int_id)
qed

lemma measurement_id:
  assumes "deserialize_measurement (json_dict (measurement_dict m)) = Inr m'"
  shows "m' = m"
  using assms dict_of(1) [of m]
  by (cases m)
    (auto simp: deserialize_measurement_def bindR_eq_Inr record_json [OF distinct_measurement_dict]
      json_get [OF distinct_measurement_dict] Let_def dict_of simp del: new_measurement.simps
      dest!: new_measurement_id observations_id common_id record_float_id [OF dict_of(2)] record_float_id [OF dict_of(3)]
        record_float_id [OF dict_of(4)] record_float_id [OF dict_of(5)] record_float_id [OF dict_of(6)])

lemma command_id: "command_of (command_row env r) = Inr r' \<Longrightarrow> r' = r"
  by (cases r; cases "cr_command r")
    (auto simp: command_of_def command_row_def row_int_def row_float_def row_text_def COMMAND_FIELDS_def int_cell_def
      float_cell_def text_cell_def corrupt_row_def Let_def bindR_eq_Inr mode_again ControlCommand_def finite_real_id
      split: sum.splits if_splits list.splits)

lemma map_until_id:
  assumes "map_until f (map h xs) ending = (ys, None)" "\<And>x y. f (h x) = Inr y \<Longrightarrow> y = x"
  shows "ys = xs \<and> ending = None"
  using assms(1) by (induction xs arbitrary: ys) (auto split: sum.splits prod.splits dest: assms(2))

section \<open>The replay of a recorded run\<close>

text \<open>What \<^verbatim>\<open>replay_native_run\<close> reads of an opened run.\<close>

definition recorded_run_of :: "run_replay \<Rightarrow> recorded_run" where
  "recorded_run_of r = \<lparr>rr_is_complete = is_complete r, rr_config = ry_config r, rr_manifest = ry_manifest r,
     rr_measurements = measurements r, rr_estimates = estimates r, rr_commands = commands r\<rparr>"

lemma opened_run:
  assumes "RunReplay env False d = Inr r"
  shows "ry_dir r = d" "\<not> ry_allow_incomplete r" "is_complete r" "rd_manifest d = Some (V_Dict (ry_manifest r))"
    "rd_config d = Some (ry_config r)" "validate_complete_artifacts r = Inr ()"
  using assms
  by (auto simp: RunReplay_def bindR_eq_Inr read_json_def is_complete_def Let_def split: option.splits pyval.splits if_splits)

lemma counted_stream: "count_stream s = Inr n \<Longrightarrow> snd s = None"
  by (cases s) (auto simp: count_stream_def all_of_def bindR_eq_Inr split: option.splits)

lemma validated_streams:
  assumes "validate_complete_artifacts r = Inr ()"
  shows "snd (measurements r) = None" "snd (estimates r) = None" "snd (commands r) = None"
  using assms by (auto simp: validate_complete_artifacts_def bindR_eq_Inr dest: counted_stream)

text \<open>The streams of an opened run, from the lines and rows of its files.\<close>

lemma opened_streams:
  assumes "\<not> ry_allow_incomplete r" "validate_complete_artifacts r = Inr ()"
  shows "log_lines (rd_measurements (ry_dir r)) = map (\<lambda>m. dict_line (measurement_dict m)) ms \<Longrightarrow> measurements r = (ms, None)"
    "log_lines (rd_estimates (ry_dir r)) = map dict_line ds \<Longrightarrow> estimates r = (map json_dict ds, None)"
    "log_rows (rd_commands (ry_dir r)) = map (command_row lenv) cs \<Longrightarrow> commands r = (cs, None)"
proof -
  note ends = validated_streams [OF assms(2)]
  have lines: "jsonl False (Some x) = (map json_dict ds, None)" if "log_lines (Some x) = map dict_line ds" for x ds
    using that json_lines_append [of False "jf_ended x" ds "[]"] by (simp add: jsonl_def log_lines_def)
  {
    assume m: "log_lines (rd_measurements (ry_dir r)) = map (\<lambda>m. dict_line (measurement_dict m)) ms"
    obtain x where x: "rd_measurements (ry_dir r) = Some x"
      using ends(1) assms(1) by (cases "rd_measurements (ry_dir r)") (auto simp: measurements_def map_stream_def jsonl_def)
    have read: "measurements r = map_until deserialize_measurement (map (json_dict \<circ> measurement_dict) ms) None"
      using lines [of x "map measurement_dict ms"] m x assms(1) by (simp add: measurements_def map_stream_def comp_def)
    have "fst (measurements r) = ms"
      using map_until_id [of deserialize_measurement "json_dict \<circ> measurement_dict" ms None "fst (measurements r)"]
        measurement_id read ends(1) by (metis comp_apply prod.collapse)
    then show "measurements r = (ms, None)" using ends(1) by (metis prod.collapse)
  }
  {
    assume "log_lines (rd_estimates (ry_dir r)) = map dict_line ds"
    moreover obtain x where "rd_estimates (ry_dir r) = Some x"
      using ends(2) assms(1) by (cases "rd_estimates (ry_dir r)") (auto simp: estimates_def jsonl_def)
    ultimately show "estimates r = (map json_dict ds, None)" using lines [of x ds] assms(1) by (simp add: estimates_def)
  }
  {
    assume c: "log_rows (rd_commands (ry_dir r)) = map (command_row lenv) cs"
    have "commands r = map_until command_of (map (command_row lenv) cs) None"
      using c ends(3) by (auto simp: commands_def map_stream_def csv_rows_def log_rows_def split: option.splits if_splits)
    then have "fst (commands r) = cs"
      using ends(3) map_until_id [of command_of "command_row lenv" cs None "fst (commands r)"] command_id by (metis prod.collapse)
    then show "commands r = (cs, None)" using ends(3) by (metis prod.collapse)
  }
qed

lemma marked_lines:
  assumes "file_lines s u w = map (\<lambda>m. Some (dict_line (measurement_dict m))) ms"
  shows "log_of_run s u w" "log_lines (rd_measurements (recorded_dir w)) = map (\<lambda>m. dict_line (measurement_dict m)) ms"
proof -
  show run: "log_of_run s u w"
    using assms by (cases ms) (auto simp: file_lines_def split: if_splits)
  have "map Some (log_lines (rd_measurements (recorded_dir w))) = map Some (map (\<lambda>m. dict_line (measurement_dict m)) ms)"
    using assms run by (simp add: file_lines_def)
  then show "log_lines (rd_measurements (recorded_dir w)) = map (\<lambda>m. dict_line (measurement_dict m)) ms"
    by (metis inj_Some inj_map_eq_map)
qed

lemma same_dict_estimate: "same_dict (json_dict (estimate_record k t e)) (estimate_record k t e)"
proof -
  have distinct: "distinct (map fst (estimate_record k t e))" by (simp add: estimate_record_def)
  have "map_of (json_dict (estimate_record k t e)) x = map_of (estimate_record k t e) x" for x
    using json_get [OF distinct, of x] by (auto simp: dict_get_def estimate_record_def comp_def)
  then show ?thesis by (auto simp: same_dict_def)
qed

lemma final_manifest_binary:
  "dict_get ''controller_binary_sha256'' (final_manifest env l) = dict_get ''controller_binary_sha256'' (lg_manifest l)"
  by (simp add: final_manifest_def dict_get_update)


end
