(* ===== verification/Link_Example.thy ===== *)
theory Link_Example
  imports Session_Runs Closed_Loop
begin

text \<open>
  The smallest firmware that a session runs with: it answers the first line with a HELLO_ACK, every
  other with nothing. What each operation of a session does over a healthy link to it, as triples: from
  every state with the first property the operation returns, in a state with the second.
\<close>

section \<open>Operations that return\<close>

definition returns :: "('s \<Rightarrow> bool) \<Rightarrow> ('s, 'a) meth \<Rightarrow> ('a \<Rightarrow> 's \<Rightarrow> bool) \<Rightarrow> bool" where
  "returns P m Q \<longleftrightarrow> (\<forall>s. P s \<longrightarrow> (\<exists>v s'. m s = (Inr v, s') \<and> Q v s'))"

lemma returnsI: "(\<And>s. P s \<Longrightarrow> \<exists>v s'. m s = (Inr v, s') \<and> Q v s') \<Longrightarrow> returns P m Q"
  by (simp add: returns_def)

lemma returnsE:
  assumes "returns P m Q" "P s"
  obtains v s' where "m s = (Inr v, s')" "Q v s'"
  using assms by (auto simp: returns_def)

lemma returns_bindM: "returns P m Q \<Longrightarrow> (\<And>v. returns (Q v) (f v) R) \<Longrightarrow> returns P (bindM m f) R"
  by (force simp: returns_def bindM_def)

lemma returns_basic:
  "returns (Q v) (returnM v) Q" "returns (\<lambda>s. Q () (f s)) (modifyM f) Q" "r = Inr v \<Longrightarrow> returns (Q v) (liftM r) Q"
  by (simp_all add: returns_def)

lemma returns_if: "(b \<Longrightarrow> returns P m Q) \<Longrightarrow> (\<not> b \<Longrightarrow> returns P m' Q) \<Longrightarrow> returns P (\<lambda>s. if b then m s else m' s) Q"
  by (simp add: returns_def)

lemma returns_mono:
  "returns P m Q \<Longrightarrow> (\<And>s. P' s \<Longrightarrow> P s) \<Longrightarrow> (\<And>v s. Q v s \<Longrightarrow> Q' v s) \<Longrightarrow> returns P' m Q'"
  by (fastforce simp: returns_def)

section \<open>The firmware\<close>

definition demo_ack_frame :: bytes where
  "demo_ack_frame = (case bindR (make_packet MT_HELLO_ACK 0 0 (P_HelloAck demo_ack)) encode_packet of Inl e \<Rightarrow> [] | Inr f \<Rightarrow> f)"

definition greet :: "bool reaction" where
  "greet line greeted = ([reply_text (if greeted then [] else [demo_ack_frame])], Some True)"

lemma ack_frame: obtains pkt where "make_packet MT_HELLO_ACK 0 0 (P_HelloAck demo_ack) = Inr pkt"
  "encode_packet pkt = Inr demo_ack_frame"
  using made_encodes [OF demo_ack_ok, of 0 0] that by (auto simp: demo_ack_frame_def)

text \<open>The transport of a firmware that has answered everything.\<close>

definition served :: "bool \<Rightarrow> int \<Rightarrow> bool native_transport \<Rightarrow> bool" where
  "served greeted now t \<longleftrightarrow> nt_process t = \<lparr>pc_state = Some greeted, pc_output = []\<rparr> \<and> nt_stdout_buffer t = [] \<and> nt_rx t = []
     \<and> nt_now_ms t \<le> now"

lemma greet_exchange:
  assumes "served greeted now t"
  shows "native_exchange greet command t = (Inr (), t\<lparr>nt_process := \<lparr>pc_state = Some True, pc_output = []\<rparr>,
    nt_rx := (if greeted then [] else demo_ack_frame)\<rparr>)"
proof -
  let ?parts = "if greeted then [] else [demo_ack_frame]"
  let ?t = "t\<lparr>nt_process := \<lparr>pc_state = Some True, pc_output = [reply_text ?parts]\<rparr>\<rparr>"
  have "native_exchange greet command t = exchange_answer ?t"
    using assms by (simp add: served_def native_exchange_def process_write_def greet_def)
  moreover have "stream ?t = reply_text ?parts" using assms by (simp add: served_def stream_def)
  moreover have "[] \<notin> set (pc_output (nt_process ?t))" by (simp add: reply_text_def)
  ultimately show ?thesis
    using answer_reads [of ?t ?parts] assms by (cases t) (auto simp: served_def)
qed

lemma greet_tick: "0 \<le> step \<Longrightarrow> step < 2 ^ 32 \<Longrightarrow> returns (served True now) (tick greet now step) (\<lambda>_. served True now)"
proof (rule returnsI)
  fix t assume "0 \<le> step" "step < 2 ^ 32" "served True now t"
  moreover from this have "served True now (t\<lparr>nt_now_ms := now\<rparr>)" by (simp add: served_def)
  ultimately show "\<exists>v t'. tick greet now step t = (Inr v, t') \<and> served True now t'"
    using greet_exchange [of True now "t\<lparr>nt_now_ms := now\<rparr>"]
    by (auto simp: tick_def bindM_def set_time_def liftM_def guardR_def served_def)
qed

section \<open>The link\<close>

definition idle_link :: "int \<Rightarrow> (bool native_transport \<Rightarrow> bool) \<Rightarrow> bool native_transport fault_transport \<Rightarrow> bool" where
  "idle_link step P t \<longleftrightarrow> ft_state t = healthy \<and> ft_rx_state t = healthy \<and> ft_step_id t \<le> step \<and> ft_tx_input t = []
     \<and> ft_rx_input t = [] \<and> ft_rx_ready t = [] \<and> ft_tx_delayed t = [] \<and> ft_rx_delayed t = [] \<and> P (ft_inner t)"

lemma whole_frame: "encode_packet pkt = Inr f \<Longrightarrow> take_complete_frames f = ([f], [])"
proof -
  have "split_frames current (x @ [0]) = ([current @ x @ [0]], [])" if "0 \<notin> set x" for current x :: bytes
    using that by (induction x arbitrary: current) auto
  then show "encode_packet pkt = Inr f \<Longrightarrow> take_complete_frames f = ([f], [])"
    by (auto simp: encode_packet_Inr take_complete_frames_def cobs_encode_no_zero)
qed

lemma fault_write_frame:
  assumes "idle_link step (served greeted now) t" "encode_packet pkt = Inr f"
  shows "\<exists>t'. fault_write (native_ops greet) f t = (Inr (int (length f)), t')
    \<and> idle_link step (\<lambda>n. n = (ft_inner t)\<lparr>nt_process := \<lparr>pc_state = Some True, pc_output = []\<rparr>,
         nt_rx := (if greeted then [] else demo_ack_frame)\<rparr>) t'"
proof -
  have f: "f \<noteq> []" using assms(2) by (auto simp: encode_packet_Inr)
  have "native_write greet f (ft_inner t) = (Inr (int (length f)), (ft_inner t)\<lparr>nt_process := \<lparr>pc_state = Some True, pc_output = []\<rparr>,
         nt_rx := (if greeted then [] else demo_ack_frame)\<rparr>)"
    using assms(1) f greet_exchange [of greeted now "ft_inner t"] by (simp add: idle_link_def native_write_def bindM_def)
  then have "forward_loop (native_ops greet) f 0 (ft_inner t) = (Inr (), (ft_inner t)\<lparr>nt_process := \<lparr>pc_state = Some True,
      pc_output = []\<rparr>, nt_rx := (if greeted then [] else demo_ack_frame)\<rparr>)"
    using f by (simp add: forward_loop.simps [of _ f 0] native_ops_def forward_loop.simps [of _ f "length f"])
  then show ?thesis
    using assms(1) f whole_frame [OF assms(2)]
    by (simp add: fault_write_def idle_link_def bindM_def apply_tx_fault_def forward_tx_def)
qed

lemma nothing_due: "ft_rx_delayed t = [] \<Longrightarrow> release_due_rx t = t"
  by (cases t) (simp add: release_due_rx_def)

lemma fault_read_nothing:
  assumes "idle_link step (served True now) t"
  shows "\<exists>t'. fault_read (native_ops greet) 512 t = (Inr [], t') \<and> idle_link step (served True now) t'"
proof -
  have read: "native_read 512 (ft_inner t) = (Inr [], ft_inner t)"
    using assms by (simp add: native_read_def native_is_open_def idle_link_def served_def)
  have "fault_read_loop (native_ops greet) 512 t = Some (Inr (), t)"
    using assms read by (simp add: fault_read_loop.simps [of _ _ t] idle_link_def native_ops_def)
  then show ?thesis using assms by (simp add: fault_read_def nothing_due idle_link_def)
qed

lemma fault_read_ack:
  assumes "idle_link step (\<lambda>n. n = t0\<lparr>nt_process := \<lparr>pc_state = Some True, pc_output = []\<rparr>, nt_rx := demo_ack_frame\<rparr>) t"
    "served greeted now t0"
  shows "\<exists>t'. fault_read (native_ops greet) 512 t = (Inr demo_ack_frame, t') \<and> idle_link step (served True now) t'"
proof -
  obtain pkt where pkt: "encode_packet pkt = Inr demo_ack_frame" using ack_frame by blast
  have f: "demo_ack_frame \<noteq> []" "length demo_ack_frame \<le> 144"
    using pkt frame_size [OF pkt] by (auto simp: encode_packet_Inr)
  let ?n = "t0\<lparr>nt_process := \<lparr>pc_state = Some True, pc_output = []\<rparr>, nt_rx := []\<rparr>"
  have read: "native_read 512 (ft_inner t) = (Inr demo_ack_frame, ?n)"
    using assms(1) f(2) by (simp add: native_read_def native_is_open_def idle_link_def)
  define t1 where "t1 = apply_rx_fault demo_ack_frame (t\<lparr>ft_inner := ?n, ft_rx_input := []\<rparr>)"
  have t1: "ft_rx_ready t1 = demo_ack_frame" "idle_link step (served True now) (t1\<lparr>ft_rx_ready := []\<rparr>)"
    using assms by (simp_all add: t1_def apply_rx_fault_def forward_rx_def idle_link_def served_def)
  have "fault_read_loop (native_ops greet) 512 t = fault_read_loop (native_ops greet) 512 t1"
    using assms(1) read f(1) whole_frame [OF pkt]
    by (simp add: fault_read_loop.simps [of _ _ t] idle_link_def native_ops_def t1_def)
  also have "\<dots> = Some (Inr (), t1)" using t1(1) f(1) by (simp add: fault_read_loop.simps [of _ _ t1])
  finally show ?thesis
    using assms(1) t1 f(2) by (simp add: fault_read_def nothing_due idle_link_def)
qed

section \<open>The session\<close>

definition quiet_session :: "int \<Rightarrow> int \<Rightarrow> bool cil_session \<Rightarrow> bool" where
  "quiet_session step now s \<longleftrightarrow> sn_config s = default_session_config \<and> sn_state s \<in> {ST_ACTIVE, ST_TIMED_OUT} \<and> sn_tx_buffer s = []
     \<and> (\<exists>n. sn_last_now_ms s = Some n \<and> n \<le> now) \<and> sn_last_rx_ms s = Some 0 \<and> sn_negotiated_timeout_ms s = Some 300
     \<and> (now \<le> 300 \<longrightarrow> sn_state s = ST_ACTIVE) \<and> idle_link step (served True now) (sn_transport s)"

lemma idle_later: "quiet_session step now s \<Longrightarrow> step \<le> step' \<Longrightarrow> now \<le> now' \<Longrightarrow> quiet_session step' now' s"
  by (auto simp: quiet_session_def idle_link_def served_def)

lemma idle_read:
  assumes "quiet_session step now s"
  obtains t where "bt_read (cil_ops greet) 512 (sn_transport s) = (Inr [], t)" "quiet_session step now (s\<lparr>sn_transport := t\<rparr>)"
proof -
  have "idle_link step (served True now) (sn_transport s)" using assms by (simp add: quiet_session_def)
  then obtain t where "fault_read (native_ops greet) 512 (sn_transport s) = (Inr [], t)" "idle_link step (served True now) t"
    using fault_read_nothing by blast
  with assms that [of t] show ?thesis by (simp add: quiet_session_def cil_ops_def fault_ops_def)
qed

lemma idle_timeout: "returns (quiet_session step now) (check_timeout now) (\<lambda>_. quiet_session step now)"
  by (rule returnsI) (auto simp: check_timeout_def quiet_session_def current_timeout_ms_def bindM_def)

lemma poll_steps:
  assumes "validate_now now s = (Inr (), s1)" "sn_state s1 \<noteq> ST_CLOSED" "flush_tx ops s1 = (Inr (), s2)"
    "poll_reads ops now (nat (sc_max_reads_per_poll (sn_config s2))) [] s2 = (Inr events, s3)" "check_timeout now s3 = (Inr (), s4)"
  shows "poll ops now s = (Inr events, s4)"
  using assms by (simp add: poll_def bindM_def)

lemma poll_idle: "0 \<le> now \<Longrightarrow> returns (quiet_session step now) (poll (cil_ops greet) now) (\<lambda>events s. events = [] \<and> quiet_session step now s)"
proof (rule returnsI)
  fix s assume now: "0 \<le> now" and s: "quiet_session step now s"
  let ?s = "s\<lparr>sn_last_now_ms := Some now\<rparr>"
  have s1: "quiet_session step now ?s" using s by (simp add: quiet_session_def)
  obtain n where "sn_last_now_ms s = Some n" "n \<le> now" using s by (auto simp: quiet_session_def)
  then have valid: "validate_now now s = (Inr (), ?s)" using now by (simp add: validate_now_def)
  obtain t where read: "bt_read (cil_ops greet) 512 (sn_transport ?s) = (Inr [], t)" and t: "quiet_session step now (?s\<lparr>sn_transport := t\<rparr>)"
    by (rule idle_read [OF s1])
  have "nat (sc_max_reads_per_poll (sn_config ?s)) = Suc 31" using s by (simp add: quiet_session_def default_session_config_def)
  then have "poll_reads (cil_ops greet) now (nat (sc_max_reads_per_poll (sn_config ?s))) [] ?s = (Inr [], ?s\<lparr>sn_transport := t\<rparr>)"
    using read by (simp only: poll_reads.simps prod.case sum.case if_True refl)
  moreover have "flush_tx (cil_ops greet) ?s = (Inr (), ?s)" using s1 by (simp add: quiet_session_def flush_tx.simps)
  moreover obtain s' where "check_timeout now (?s\<lparr>sn_transport := t\<rparr>) = (Inr (), s')" "quiet_session step now s'"
    using returnsE [OF idle_timeout t] by (metis (full_types) old.unit.exhaust)
  moreover have "sn_state ?s \<noteq> ST_CLOSED" using s1 by (auto simp: quiet_session_def)
  ultimately show "\<exists>v s'. poll (cil_ops greet) now s = (Inr v, s') \<and> v = [] \<and> quiet_session step now s'"
    using poll_steps [OF valid] by blast
qed

lemma tick_idle:
  assumes "0 \<le> step" "step < 2 ^ 32"
  shows "returns (quiet_session step now) (on_native (tick greet now step)) (\<lambda>_. quiet_session step now)"
proof (rule returnsI)
  fix s assume s: "quiet_session step now s"
  then have "served True now (ft_inner (sn_transport s))" by (simp add: quiet_session_def idle_link_def)
  then obtain v n where "tick greet now step (ft_inner (sn_transport s)) = (Inr v, n)" "served True now n"
    using returnsE [OF greet_tick [OF assms]] by metis
  then show "\<exists>v s'. on_native (tick greet now step) s = (Inr v, s') \<and> quiet_session step now s'"
    using s by (auto simp: on_native_def on_link_def quiet_session_def idle_link_def)
qed

lemma tick_and_poll_idle:
  assumes "0 \<le> step" "step < 2 ^ 32" "0 \<le> now"
  shows "returns (quiet_session step now) (tick_and_poll greet now step) (\<lambda>events s. events = [] \<and> quiet_session step now s)"
  unfolding tick_and_poll_def by (rule returns_bindM [OF tick_idle [OF assms(1,2)]]) (rule poll_idle [OF assms(3)])

text \<open>A step without measurements and faults.\<close>

lemma exchange_idle:
  assumes "0 \<le> step" "step < 2 ^ 32" "0 \<le> now" "so_faults s = []"
  shows "returns (quiet_session step now) (cil_exchange greet s step t now st sent []) (\<lambda>events w. events = [] \<and> quiet_session step now w)"
proof -
  note tick = tick_and_poll_idle [OF assms(1-3)]
  have payload: "\<exists>p. sensor_payload [] lms [] t step = Inr p \<and> sf_present_mask p = 0" for lms
    by (simp add: sensor_payload_def imu_sample_of_def wheel_sample_of_def gnss_sample_of_def landmark_sample_of_def
        newest_of_def ordered_observations_def)
  have "exchange_sensors greet s step t now st sent [] w = tick_and_poll greet now step w" for w
    using payload [of "so_landmarks s"] assms(4) by (auto simp: exchange_sensors_def bindM_def liftM_def)
  then have "exchange_sensors greet s step t now st sent [] = tick_and_poll greet now step" by blast
  moreover have "returns (\<lambda>w. v = [] \<and> quiet_session step now w)
      (if has_command v then returnM v else bindM (tick_and_poll greet now step) (\<lambda>more. returnM (v @ more)))
      (\<lambda>events w. events = [] \<and> quiet_session step now w)" for v
    by (rule returnsI) (use returnsE [OF tick] in \<open>fastforce simp: has_command_def bindM_def\<close>)
  ultimately show ?thesis unfolding cil_exchange_def by (auto intro: returns_bindM [OF tick])
qed

lemma prepare_idle:
  assumes "link_fault_state_of (so_faults s) t (so_dt_s s) = Inr healthy" "step \<le> step'" "now \<le> now'"
  shows "returns (\<lambda>w. quiet_session step now w \<and> sn_state w = ST_ACTIVE) (prepare_link greet s step' t now')
    (\<lambda>st w. st = healthy \<and> quiet_session step' now' w \<and> sn_state w = ST_ACTIVE)"
proof (rule returnsI)
  fix w assume "quiet_session step now w \<and> sn_state w = ST_ACTIVE"
  then have w: "quiet_session step now w" "sn_state w = ST_ACTIVE" by simp_all
  let ?t = "(sn_transport w)\<lparr>ft_inner := (ft_inner (sn_transport w))\<lparr>nt_now_ms := now'\<rparr>, ft_step_id := step'\<rparr>"
  have time: "on_native (set_time now') w = (Inr (), w\<lparr>sn_transport := (sn_transport w)
      \<lparr>ft_inner := (ft_inner (sn_transport w))\<lparr>nt_now_ms := now'\<rparr>\<rparr>\<rparr>)"
    using w assms(3) by (auto simp: on_native_def on_link_def set_time_def quiet_session_def idle_link_def served_def)
  have quiet: "quiet_session step' now' (w\<lparr>sn_transport := ?t\<rparr>)"
    using w assms(3) by (auto simp: quiet_session_def idle_link_def served_def)
  have "fault_configure (native_ops greet) step' healthy (Some healthy)
      ((sn_transport w)\<lparr>ft_inner := (ft_inner (sn_transport w))\<lparr>nt_now_ms := now'\<rparr>\<rparr>) = (Inr (), ?t)"
    using w assms(2)
    by (cases "sn_transport w")
      (simp add: fault_configure_def release_due_tx_def release_due_rx_def bindM_def modifyM_def quiet_session_def idle_link_def)
  then show "\<exists>v w'. prepare_link greet s step' t now' w = (Inr v, w') \<and> v = healthy \<and> quiet_session step' now' w'
      \<and> sn_state w' = ST_ACTIVE"
    using time quiet w(2) assms(1) by (simp add: prepare_link_def bindM_def liftM_def on_link_def)
qed

section \<open>Handshake and route\<close>

lemma send_frame:
  assumes "sn_tx_buffer s = []" "sn_config s = default_session_config"
    and "make_packet mt (sn_tx_sequence s) step p = Inr pkt" "encode_packet pkt = Inr f"
    and "mt = MT_HELLO \<or> sn_negotiated_max_payload s = Some 128"
    and "idle_link k (served greeted now) (sn_transport s)"
  shows "\<exists>t st. send (cil_ops greet) mt step p s = (Inr (), s\<lparr>sn_transport := t, sn_tx_buffer := [],
      sn_tx_sequence := (sn_tx_sequence s + 1) AND 0xFFFFFFFF, sn_stats := st\<rparr>)
    \<and> idle_link k (\<lambda>n. n = (ft_inner (sn_transport s))\<lparr>nt_process := \<lparr>pc_state = Some True, pc_output = []\<rparr>,
         nt_rx := (if greeted then [] else demo_ack_frame)\<rparr>) t"
proof -
  obtain t where w: "fault_write (native_ops greet) f (sn_transport s) = (Inr (int (length f)), t)"
    and t: "idle_link k (\<lambda>n. n = (ft_inner (sn_transport s))\<lparr>nt_process := \<lparr>pc_state = Some True, pc_output = []\<rparr>,
         nt_rx := (if greeted then [] else demo_ack_frame)\<rparr>) t"
    using fault_write_frame [OF assms(6,4)] by blast
  have size: "length (payload pkt) \<le> 128" "length f \<le> 144" "f \<noteq> []"
    using assms(4) frame_size by (auto simp: encode_packet_Inr valid_packet_def)
  have flush: "\<exists>st. flush_tx (cil_ops greet) s0 = (Inr (), s0\<lparr>sn_transport := t, sn_tx_buffer := [], sn_stats := st\<rparr>)"
    if "sn_tx_buffer s0 = f" "sn_transport s0 = sn_transport s" for s0
    using that w size(3)
    by (simp add: flush_tx.simps [of _ s0] cil_ops_def fault_ops_def) (simp add: flush_tx.simps, blast)
  let ?s0 = "s\<lparr>sn_tx_buffer := f, sn_tx_sequence := (sn_tx_sequence s + 1) AND 0xFFFFFFFF,
      sn_stats := (sn_stats s)\<lparr>sx_tx_packets := sx_tx_packets (sn_stats s) + 1\<rparr>\<rparr>"
  have "send (cil_ops greet) mt step p s = flush_tx (cil_ops greet) ?s0"
    using assms(1-5) size by (auto simp: send_def default_session_config_def)
  moreover obtain st where "flush_tx (cil_ops greet) ?s0 = (Inr (), ?s0\<lparr>sn_transport := t, sn_tx_buffer := [], sn_stats := st\<rparr>)"
    using flush [of ?s0] by auto
  ultimately have "send (cil_ops greet) mt step p s = (Inr (), s\<lparr>sn_transport := t, sn_tx_buffer := [],
      sn_tx_sequence := (sn_tx_sequence s + 1) AND 0xFFFFFFFF, sn_stats := st\<rparr>)" by simp
  then show ?thesis using t by (intro exI conjI)
qed

lemma handle_packet_frame:
  assumes "handle_packet now pkt s = (r, s')"
  shows "sn_config s' = sn_config s" "sn_tx_buffer s' = sn_tx_buffer s" "sn_last_now_ms s' = sn_last_now_ms s"
    "sn_tx_sequence s' = sn_tx_sequence s"
  using assms
  by (auto simp: handle_packet_def handle_session_packet_def Let_def
      split: prod.splits sum.splits if_splits py_exn.splits typed_payload.splits)

lemma new_link:
  assumes "new_session True False = Inr s"
  shows "session_ok s" "sn_config s = default_session_config" "sn_state s = ST_DISCONNECTED" "sn_last_now_ms s = None"
    "sn_rx_sequence s = demo_tracker" "sn_parser s = StreamParser" "idle_link 0 (served False 0) (sn_transport s)"
proof -
  have "config_ok default_session_config"
    by (rule config_ok [OF demo_config [unfolded demo_config_def, folded default_session_config_def]])
  then show "session_ok s"
    using assms by (auto simp: new_session_def bindR_eq_Inr dest: session_ok_new)
  show "sn_config s = default_session_config" "sn_state s = ST_DISCONNECTED" "sn_last_now_ms s = None"
    "sn_rx_sequence s = demo_tracker" "sn_parser s = StreamParser" "idle_link 0 (served False 0) (sn_transport s)"
    using assms
    by (auto simp: new_session_def bindR_eq_Inr HostSession_def SequenceTracker_def demo_tracker_def NativeFirmwareTransport_def
        DeterministicFaultTransport_def idle_link_def served_def)
qed


interpretation cil_link: byte_transport "cil_ops react" "\<lambda>_. True" for react :: "'f reaction"
  using finite_transport.fault_lawful [OF native.finite_transport_axioms] by (simp add: cil_ops_def)

lemma start_link:
  assumes "new_session True False = Inr s"
  shows "\<exists>s1. session_start (cil_ops greet) 0 s = (Inr (), s1) \<and> session_ok s1 \<and> sn_state s1 = ST_HELLO_SENT
    \<and> sn_config s1 = default_session_config \<and> sn_tx_buffer s1 = [] \<and> sn_last_now_ms s1 = Some 0 \<and> sn_tx_sequence s1 = 1
    \<and> holds (sn_parser s1) [] \<and> tr_last_sequence (sn_rx_sequence s1) = None
    \<and> idle_link 0 (\<lambda>n. n = (ft_inner (sn_transport s))\<lparr>nt_process := \<lparr>pc_state = Some True, pc_output = []\<rparr>,
         nt_rx := demo_ack_frame\<rparr>) (sn_transport s1)"
proof -
  note s = new_link [OF assms]
  obtain pkt f where hello: "make_packet MT_HELLO 0 0 (hello_message default_session_config) = Inr pkt" "encode_packet pkt = Inr f"
    using hello_encodes [of default_session_config] by (auto simp: default_session_config_def)
  define s2 where "s2 = s\<lparr>sn_last_now_ms := Some 0, sn_parser := parser_reset False StreamParser,
      sn_rx_sequence := tracker_reset False demo_tracker, sn_tx_buffer := [], sn_tx_sequence := 0, sn_last_rx_ms := Some 0,
      sn_peer_capabilities := None, sn_negotiated_max_payload := None, sn_negotiated_timeout_ms := None\<rparr>"
  obtain t st where sent: "send (cil_ops greet) MT_HELLO 0 (hello_message default_session_config) s2 =
      (Inr (), s2\<lparr>sn_transport := t, sn_tx_buffer := [], sn_tx_sequence := (0 + 1) AND 0xFFFFFFFF, sn_stats := st\<rparr>)"
    and t: "idle_link 0 (\<lambda>n. n = (ft_inner (sn_transport s))\<lparr>nt_process := \<lparr>pc_state = Some True, pc_output = []\<rparr>,
         nt_rx := demo_ack_frame\<rparr>) t"
    using send_frame [of s2 MT_HELLO 0 "hello_message default_session_config" pkt f 0 False 0] hello s(2,7) by (auto simp: s2_def)
  let ?s1 = "s2\<lparr>sn_transport := t, sn_tx_buffer := [], sn_tx_sequence := (0 + 1) AND 0xFFFFFFFF, sn_stats := st,
      sn_state := ST_HELLO_SENT\<rparr>"
  have start: "session_start (cil_ops greet) 0 s = (Inr (), ?s1)"
  proof -
    have v: "validate_now 0 s = (Inr (), s\<lparr>sn_last_now_ms := Some 0\<rparr>)" by (simp add: validate_now_def s(4))
    have "session_start (cil_ops greet) 0 s = bindM (send (cil_ops greet) MT_HELLO 0 (hello_message default_session_config))
        (\<lambda>_. modifyM (\<lambda>s. s\<lparr>sn_state := ST_HELLO_SENT\<rparr>)) s2"
      unfolding session_start_def s2_def by (simp add: bindM_def [of "validate_now 0"] v s(2,3,5,6))
    then show ?thesis using sent by (simp add: bindM_def)
  qed
  moreover have "session_ok ?s1"
    using cil_link.start_keeps [OF _ start] s(1) by (simp add: session_inv_def)
  moreover have "holds (sn_parser ?s1) []" "tr_last_sequence (sn_rx_sequence ?s1) = None" "sn_tx_sequence ?s1 = 1"
    by (simp_all add: s2_def holds_def parser_reset_def tracker_reset_def)
  ultimately show ?thesis using t s(2) by (intro exI [of _ ?s1]) (simp add: s2_def)
qed

lemma same_time: "on_native (set_time (nt_now_ms (ft_inner (sn_transport s)))) s = (Inr (), s)"
  by (simp add: on_native_def on_link_def set_time_def)

lemma fresh_link:
  assumes "new_session True False = Inr s"
  shows "nt_now_ms (ft_inner (sn_transport s)) = 0"
    "fault_configure (native_ops greet) 0 healthy None (sn_transport s) = (Inr (), sn_transport s)"
  using assms
  by (auto simp: new_session_def bindR_eq_Inr HostSession_def SequenceTracker_def NativeFirmwareTransport_def
      DeterministicFaultTransport_def fault_configure_def release_due_tx_def release_due_rx_def bindM_def modifyM_def)

lemma handshake_link:
  assumes "new_session True False = Inr s"
  shows "\<exists>e s2. cil_handshake greet s = (Inr [e], s2) \<and> ev_payload e = P_HelloAck demo_ack \<and> quiet_session 0 0 s2
    \<and> sn_state s2 = ST_ACTIVE \<and> sn_negotiated_max_payload s2 = Some 128 \<and> sn_tx_sequence s2 = 1"
proof -
  note s = new_link [OF assms]
  obtain s1 where start: "session_start (cil_ops greet) 0 s = (Inr (), s1)" and ok: "session_ok s1"
    and s1: "sn_state s1 = ST_HELLO_SENT" "sn_config s1 = default_session_config" "sn_tx_buffer s1 = []"
      "sn_last_now_ms s1 = Some 0" "sn_tx_sequence s1 = 1" "holds (sn_parser s1) []" "tr_last_sequence (sn_rx_sequence s1) = None"
    and link: "idle_link 0 (\<lambda>n. n = (ft_inner (sn_transport s))\<lparr>nt_process := \<lparr>pc_state = Some True, pc_output = []\<rparr>,
         nt_rx := demo_ack_frame\<rparr>) (sn_transport s1)"
    using start_link [OF assms] by blast
  obtain pkt where ack: "make_packet MT_HELLO_ACK 0 0 (P_HelloAck demo_ack) = Inr pkt" "encode_packet pkt = Inr demo_ack_frame"
    by (rule ack_frame)
  have valid: "valid_packet pkt" "demo_ack_frame \<noteq> []" using ack(2) by (auto simp: encode_packet_Inr)
  have inner: "served False 0 (ft_inner (sn_transport s))" using s(7) by (simp add: idle_link_def)
  obtain t where read: "bt_read (cil_ops greet) 512 (sn_transport s1) = (Inr demo_ack_frame, t)"
    and t: "idle_link 0 (served True 0) t"
    using fault_read_ack [OF link inner] by (auto simp: cil_ops_def fault_ops_def)
  obtain ps where ps: "feed demo_ack_frame (sn_parser s1) = (Inr \<lparr>pb_packets = [pkt], pb_errors = []\<rparr>, ps)" "holds ps []"
    using feed_frame [OF s1(6) ack(2)] by blast
  define u where "u = s1\<lparr>sn_transport := t, sn_parser := ps, sn_stats := (sn_stats s1)
      \<lparr>sx_rx_bytes := sx_rx_bytes (sn_stats s1) + length demo_ack_frame\<rparr>\<rparr>"
  have "session_ok u" using ok ps(2) by (simp add: u_def session_ok_def holds_def parser_inv_def clock_ok_def negotiated_def)
  moreover have "acceptable_ack u demo_ack"
    by (simp add: u_def acceptable_ack_def s1 demo_ack_def default_session_config_def minimum_peer_payload_def
        SUPPORTED_CAPABILITIES_def flag_values sensor_size route_prefix_size)
  ultimately obtain s2 where s2: "handle_packet 0 pkt u =
      (Inr (Some \<lparr>ev_packet = pkt, ev_payload = P_HelloAck demo_ack, ev_sequence_disposition = SD_FIRST\<rparr>), s2)"
    "sn_transport s2 = t" "sn_last_rx_ms s2 = Some 0" "sn_state s2 = ST_ACTIVE" "sn_negotiated_max_payload s2 = Some 128"
    "sn_negotiated_timeout_ms s2 = Some 300"
    using handle_first_ack [of u 0 0 demo_ack pkt 0] ack(1) valid(1) s1
    by (auto simp: u_def demo_ack_def default_session_config_def)
  have frame: "sn_config s2 = default_session_config" "sn_tx_buffer s2 = []" "sn_last_now_ms s2 = Some 0" "sn_tx_sequence s2 = 1"
    using handle_packet_frame [OF s2(1)] s1 by (simp_all add: u_def)
  have quiet_session: "quiet_session 0 0 s2" using s2 frame t by (simp add: quiet_session_def)
  obtain t2 where read2: "bt_read (cil_ops greet) 512 (sn_transport s2) = (Inr [], t2)" and t2: "quiet_session 0 0 (s2\<lparr>sn_transport := t2\<rparr>)"
    by (rule idle_read [OF quiet_session])
  let ?e = "\<lparr>ev_packet = pkt, ev_payload = P_HelloAck demo_ack, ev_sequence_disposition = SD_FIRST\<rparr>"
  let ?s2 = "s2\<lparr>sn_transport := t2\<rparr>"
  have "poll_reads (cil_ops greet) 0 (Suc n) [] s1 = poll_reads (cil_ops greet) 0 n [?e] s2" for n
    using read valid(2) ps(1) s2(1) by (simp add: Let_def bindM_def u_def)
  moreover have "poll_reads (cil_ops greet) 0 (Suc n) [?e] s2 = (Inr [?e], ?s2)" for n
    using read2 by (simp only: poll_reads.simps prod.case sum.case if_True refl)
  ultimately have "poll_reads (cil_ops greet) 0 (Suc (Suc 30)) [] s1 = (Inr [?e], ?s2)" by (simp only:)
  then have "poll_reads (cil_ops greet) 0 (nat (sc_max_reads_per_poll (sn_config s1))) [] s1 = (Inr [?e], ?s2)"
    by (simp add: s1(2) default_session_config_def)
  note reads = this
  have valid_now: "validate_now 0 s1 = (Inr (), s1)" using s1(4) by (cases s1) (simp add: validate_now_def)
  have flush: "flush_tx (cil_ops greet) s1 = (Inr (), s1)" using s1(3) by (simp add: flush_tx.simps)
  have open_session: "sn_state s1 \<noteq> ST_CLOSED" by (simp add: s1(1))
  have timeout: "check_timeout 0 ?s2 = (Inr (), ?s2)"
    using s2(3,4,6) by (simp add: check_timeout_def current_timeout_ms_def bindM_def)
  note poll = poll_steps [OF valid_now open_session flush reads timeout]
  have "nt_now_ms (ft_inner (sn_transport s)) = 0" by (rule fresh_link(1) [OF assms])
  then have "on_native (set_time 0) s = (Inr (), s)" using same_time [of s] by simp
  moreover have "on_link (fault_configure (native_ops greet) 0 healthy None) s = (Inr (), s)"
    using fresh_link(2) [OF assms] by (simp add: on_link_def)
  ultimately have "cil_handshake greet s = (Inr [?e], ?s2)"
    using start poll s2(4) by (simp add: cil_handshake_def bindM_def)
  then show ?thesis using t2 s2(4,5) frame(4) by (intro exI [of _ ?e] exI [of _ ?s2]) simp
qed

lemma route_link:
  assumes s: "quiet_session 0 0 s" "sn_state s = ST_ACTIVE" "sn_negotiated_max_payload s = Some 128" "sn_tx_sequence s = 1"
    and point: "payload_ok (P_RouteChunk \<lparr>rc_route_id = 1, rc_start_index = 0, rc_total_count = 1, rc_flags = 3, rc_points = [p]\<rparr>)"
  shows "\<exists>s'. send_route (cil_ops greet) 1 [p] 0 False s = (Inr (), s') \<and> quiet_session 0 0 s'"
proof -
  let ?c = "\<lparr>rc_route_id = 1, rc_start_index = 0, rc_total_count = 1, rc_flags = 3, rc_points = [p]\<rparr>"
  obtain pkt f where made: "make_packet MT_ROUTE_CHUNK 1 0 (P_RouteChunk ?c) = Inr pkt" "encode_packet pkt = Inr f"
    using made_encodes [OF point, of 1 0] by auto
  have link: "sn_tx_buffer s = []" "sn_config s = default_session_config" "idle_link 0 (served True 0) (sn_transport s)"
    using s(1) by (simp_all add: quiet_session_def)
  have "make_packet MT_ROUTE_CHUNK (sn_tx_sequence s) 0 (P_RouteChunk ?c) = Inr pkt" using made(1) s(4) by simp
  from send_frame [OF link(1,2) this made(2) _ link(3)] s(3) obtain t st where
    sent: "send (cil_ops greet) MT_ROUTE_CHUNK 0 (P_RouteChunk ?c) s = (Inr (), s\<lparr>sn_transport := t, sn_tx_buffer := [],
      sn_tx_sequence := (sn_tx_sequence s + 1) AND 0xFFFFFFFF, sn_stats := st\<rparr>)"
    and t: "idle_link 0 (\<lambda>n. n = (ft_inner (sn_transport s))\<lparr>nt_process := \<lparr>pc_state = Some True, pc_output = []\<rparr>, nt_rx := []\<rparr>) t"
    by auto
  let ?s = "s\<lparr>sn_transport := t, sn_tx_buffer := [], sn_tx_sequence := (sn_tx_sequence s + 1) AND 0xFFFFFFFF, sn_stats := st\<rparr>"
  have "points_per_chunk 128 = 5"
    by (simp add: points_per_chunk_def route_prefix_size MAX_ROUTE_POINTS_PER_CHUNK_def)
  moreover have "map (route_chunk_at 1 [p] False 5) (py_range (length [p]) 5) = [?c]"
    by (simp add: py_range_def route_chunk_at_def Let_def flag_values)
  ultimately have "send_route (cil_ops greet) 1 [p] 0 False s = (Inr (), ?s)"
    using sent s(2,3) by (simp add: send_route_def bindM_def require_active_def Let_def)
  moreover have "quiet_session 0 0 ?s" using s(1) t by (auto simp: quiet_session_def idle_link_def served_def)
  ultimately show ?thesis by blast
qed

end
