(* ===== verification/Drive_Scenario.thy ===== *)
theory Drive_Scenario
  imports Scenario_Example Closed_Loop
begin

text \<open>
  A scenario for a closed-loop run: one step of one second with the vehicle at rest, every sensor
  disabled and a route of one point, the origin. It parses from its own mapping; its times, its
  link, its vehicle and its figures are computed.
\<close>

section \<open>Numbers\<close>

text \<open>Multiplying or dividing by one changes no normal number.\<close>

lemma f64_round_mag_exact:
  assumes "m = e * 2 ^ 52 + f" "0 < e" "f < 2 ^ 52" "m < f64_inf_mag"
  shows "f64_round_mag (f64_units_mag m * 2 ^ j) j = m"
proof -
  have units: "f64_units_mag m = (2 ^ 52 + f) * 2 ^ (e - 1)" by (rule f64_units_mag_normal [OF assms(1-3) refl refl])
  have "bit_len (2 ^ 52 + f) = 0 + 53" using bit_len_unique [of 52 "2 ^ 52 + f"] assms(3) by simp
  then have "f64_round_mag ((2 ^ 52 + f) * 2 ^ (e - 1 + j)) j = min f64_inf_mag ((0 + (e - 1 + j) - j) * 2 ^ 52 + round_half_even (2 ^ 52 + f) 0)"
    by (intro f64_round_mag_scale) simp_all
  also have "(0 + (e - 1 + j) - j) * 2 ^ 52 + round_half_even (2 ^ 52 + f) 0 = m"
    using assms(1,2) by (cases e) (simp_all add: round_half_even_def)
  finally show ?thesis using assms(4) by (simp add: units power_add mult.assoc)
qed

definition normal_positive :: "f64 \<Rightarrow> bool" where
  "normal_positive x \<longleftrightarrow> \<not> f64_neg x \<and> 2 ^ 52 \<le> f64_mag x \<and> isfinite x"

lemma normal_exact:
  assumes "normal_positive x"
  shows "f64_round False (f64_units_mag (f64_mag x) * 2 ^ j) j = x"
proof -
  let ?m = "f64_mag x"
  have split: "?m = ?m div 2 ^ 52 * 2 ^ 52 + ?m mod 2 ^ 52" "?m mod 2 ^ 52 < 2 ^ 52" by simp_all
  have "0 < ?m div 2 ^ 52" using assms by (simp add: normal_positive_def div_greater_zero_iff)
  moreover have "?m < f64_inf_mag" using assms by (simp add: normal_positive_def isfinite_def)
  ultimately have "f64_round_mag (f64_units_mag ?m * 2 ^ j) j = ?m" using f64_round_mag_exact [OF split(1) _ split(2)] by blast
  moreover have "f64_of False ?m = x"
    using assms unat_f64_of [of ?m False] f64_mag_less [of x] by (simp add: normal_positive_def f64_mag_def f64_neg_def word_unat_eq_iff)
  ultimately show ?thesis by (simp only: f64_round_def)
qed


lemma one_times: "normal_positive x \<Longrightarrow> fmul one_hz x = x"
  using normal_exact [of x 1074] isfinite_not_nan [OF one_facts(1)]
  by (simp add: fmul_def Let_def one_facts normal_positive_def isfinite_not_nan mult.commute)

lemma over_one: "normal_positive x \<Longrightarrow> fdiv x one_hz = x"
proof -
  assume x: "normal_positive x"
  define u where "u = f64_units_mag (f64_mag x)"
  define P :: nat where "P = 2 ^ 1074"
  have "u * 2 ^ 1075 = (2 * u) * P" by (simp add: P_def)
  then have "u * 2 ^ 1075 div P = 2 * u" "u * 2 ^ 1075 mod P = 0" using P_def by simp_all
  then have "fdiv x one_hz = f64_round False (2 * (2 * u) + 0) 2"
    using x isfinite_not_nan [OF one_facts(1)] isfinite_not_nan [of x]
    by (simp add: fdiv_def Let_def one_facts(1-3) normal_positive_def one_facts(4) [folded P_def] flip: u_def del: power_numeral)
  also have "2 * (2 * u) + 0 = u * 2 ^ 2" by simp
  finally show ?thesis using normal_exact [OF x, of 2] by (simp only: u_def)
qed

lemma int_floats: "float_of_int 0 = Inr 0" "float_of_int 1 = Inr one_hz"
  using bit_len_unique [of 0 1] by (simp_all add: float_of_int_def f64_of_def f64_inf_mag_def)

lemma drive_times: "time_of_step one_hz 0 = Inr 0" "time_of_step one_hz 1 = Inr one_hz"
  by (simp_all add: time_of_step_def int_floats one_times_one zero_times one_facts)

lemma drive_ms: "time_ms 0 = Inr 0" "time_ms one_hz = Inr 1000"
proof -
  have k: "normal_positive 0x408F400000000000"
    by (simp add: normal_positive_def f64_neg_def f64_mag_def isfinite_def f64_inf_mag_def)
  then have "fmul 0 0x408F400000000000 = 0" by (simp add: zero_times normal_positive_def)
  then show "time_ms 0 = Inr 0"
    using zero_facts by (simp add: time_ms_def py_round_def round_half_even_def f64_sign_def)
  have units: "f64_units_mag 0x408F400000000000 = 8796093022208000 * 2 ^ 1031"
    by (rule f64_units_mag_normal [where e = 1032 and f = 4292493394837504]) simp_all
  have "round_half_even (8796093022208000 * 2 ^ 1031) (43 + 1031) = round_half_even 8796093022208000 43"
    by (rule round_half_even_scale)
  also have "\<dots> = 1000" by (simp add: round_half_even_def)
  finally have round: "round_half_even (f64_units_mag 0x408F400000000000) 1074 = 1000" by (simp only: units) simp
  have "py_round 0x408F400000000000 = Inr 1000"
    using round k isfinite_not_nan [of "0x408F400000000000"]
    by (simp add: py_round_def f64_mag_def normal_positive_def f64_sign_def)
  then show "time_ms one_hz = Inr 1000" using one_times [OF k] by (simp add: time_ms_def)
qed

lemma near_tolerance: "isfinite x \<Longrightarrow> 0 \<le> f64_key x \<Longrightarrow> isfinite (fsub x state_tolerance)"
proof -
  assume x: "isfinite x" "0 \<le> f64_key x"
  have "0 \<le> f64_units x" using f64_units_mono [of 0 x] x zero_facts by simp
  then have "round_key (f64_units (fneg state_tolerance)) \<le> round_key (f64_units x + f64_units (fneg state_tolerance))"
    by (intro round_key_mono) simp
  moreover have "f64_key (fsub x state_tolerance) = round_key (f64_units x + f64_units (fneg state_tolerance))"
    using x(1) tolerance_facts by (simp add: fsub_def fadd_key)
  moreover have "isfinite (fneg state_tolerance)" using tolerance_facts by simp
  moreover note round_key_units [OF this]
  ultimately have "f64_key (fneg state_tolerance) \<le> f64_key (fsub x state_tolerance)" by simp
  then show ?thesis
    using sub_tolerance [OF x(1)] x(1) \<open>isfinite (fneg state_tolerance)\<close> by (simp flip: isfinite_key)
qed

lemma drive_timeout: obtains timeout where "command_timeout_steps one_hz = Inr timeout"
proof -
  have "normal_positive HOST_COMMAND_TIMEOUT_S"
    by (simp add: HOST_COMMAND_TIMEOUT_S_def normal_positive_def f64_neg_def f64_mag_def isfinite_def f64_inf_mag_def)
  moreover from this have "0 \<le> f64_key HOST_COMMAND_TIMEOUT_S" by (simp add: normal_positive_def f64_key_def)
  ultimately show ?thesis
    using that near_tolerance [of HOST_COMMAND_TIMEOUT_S] isfinite_not_nan [of "fsub HOST_COMMAND_TIMEOUT_S state_tolerance"]
    by (simp add: command_timeout_steps_def whole_steps_def py_div_def one_facts over_one normal_positive_def py_ceil_def)
qed

lemma drive_link: "link_fault_state_of [] t one_hz = Inr healthy"
proof -
  obtain t' where "delivery one_hz 0 0 = Inr (0, t')" by (rule no_delay [OF zero_facts(2)])
  then obtain q n where "py_div 0 one_hz = Inr q" "py_ceil (fsub q state_tolerance) = Inr n" "max 0 n = 0"
    by (auto simp: delivery_def bindR_eq_Inr Let_def)
  then show ?thesis
    by (simp add: link_fault_state_of_def whole_steps_def py_sum_def LinkFaultState_def healthy_def Let_def)
qed

lemma zero_over: "normal_positive y \<Longrightarrow> py_div 0 y = Inr 0"
proof -
  assume y: "normal_positive y"
  have "f64_round_mag 0 2 = 0" by (simp add: f64_round_mag_def round_half_even_def bit_len.simps [of 0])
  moreover have "\<not> f64_neg 0" by (simp add: f64_neg_def)
  ultimately show ?thesis
    using y by (auto simp: py_div_def fdiv_def Let_def zero_facts normal_positive_def isfinite_not_nan f64_round_def zero_word)
qed

lemma drive_round_trip: "elapsed 0 = Inr 0" "py_div 0 0x408F400000000000 = Inr 0"
proof -
  have "normal_positive 0x412E848000000000" "normal_positive 0x408F400000000000"
    by (simp_all add: normal_positive_def f64_neg_def f64_mag_def isfinite_def f64_inf_mag_def)
  then show "elapsed 0 = Inr 0" "py_div 0 0x408F400000000000 = Inr 0"
    by (simp_all add: elapsed_def int_floats zero_over)
qed

text \<open>A quantile between 0 and 1 of two zeros.\<close>

lemma zero_percentile:
  assumes q: "normal_positive q" "f64_units_mag (f64_mag q) < 2 ^ 1074"
  obtains x where "percentile [0, 0] q = Inr x" "isfinite x"
proof -
  have fin: "isfinite q" "\<not> isnan q" using q(1) isfinite_not_nan by (auto simp: normal_positive_def)
  have units: "f64_units q = int (f64_units_mag (f64_mag q))" using q(1) by (simp add: f64_units_def normal_positive_def)
  have pos: "0 < f64_units_mag (f64_mag q)" 
  proof (rule ccontr)
    assume "\<not> 0 < f64_units_mag (f64_mag q)"
    then have "q = f64_round False 0 0" using normal_exact [OF q(1), of 0] by simp
    then have "f64_mag q = 0" by simp
    then show False using q(1) by (simp add: normal_positive_def)
  qed
  define u where "u = int (f64_units_mag (f64_mag q))"
  have u: "0 < u" "u < 2 ^ 1074" using pos q(2) by (simp_all add: u_def flip: of_nat_less_iff)
  have opposite: "f64_units (fneg y) = - f64_units y" for y by (simp add: f64_units_parts f64_sign_def)
  have "- u div 2 ^ 1074 = - 1" "u div 2 ^ 1074 = 0"
    using u int_div_pos_eq [of "- u" "2 ^ 1074" "- 1" "2 ^ 1074 - u"] by (simp_all del: power_numeral)
  then have ends: "py_ceil q = Inr 1" "py_floor q = Inr 0"
    using fin units by (simp_all add: py_floor_def py_ceil_def u_def [symmetric] opposite del: power_numeral)
  have sort: "sort_key f64_key [0, 0] = [0, 0]" by simp
  define fraction where "fraction = fsub q 0"
  have key: "f64_key fraction = f64_key q"
    using fadd_key [of q "fneg 0"] fin zero_facts round_key_units [OF fin(1)] by (simp add: fraction_def fsub_def f64_units_parts)
  then have fraction: "isfinite fraction" using fin(1) by (simp flip: isfinite_key)
  have same: "f64_units fraction = u"
    using f64_units_mono [of fraction q] f64_units_mono [of q fraction] key units by (simp add: u_def)
  have one: "f64_units f64_one = 2 ^ 1074" "isfinite f64_one" by (simp_all add: f64_one_def f64_units_def one_facts)
  have "f64_key (fsub f64_one fraction) = round_key (2 ^ 1074 - u)"
    using fadd_key [of f64_one "fneg fraction"] fraction one same
    by (simp add: fsub_def opposite del: power_numeral)
  moreover have "round_key 0 \<le> round_key (2 ^ 1074 - u)" by (rule round_key_mono) (use u(2) in simp)
  moreover have "round_key (2 ^ 1074 - u) \<le> round_key (f64_units f64_one)"
    unfolding one(1) by (rule round_key_mono) (use u(1) in simp)
  ultimately have "0 \<le> f64_key (fsub f64_one fraction)" "f64_key (fsub f64_one fraction) \<le> f64_key f64_one"
    using round_key_units [OF one(2)] by (simp_all add: round_key_def del: power_numeral)
  then have rest: "isfinite (fsub f64_one fraction)"
    using one(2) by (simp flip: isfinite_key)
  let ?x = "fadd (fmul 0 (fsub f64_one fraction)) (fmul 0 fraction)"
  have "percentile [0, 0] q = Inr ?x"
    using one_times [OF q(1)] ends
    by (simp add: percentile_def int_floats Let_def guardR_def flip: fraction_def)
  moreover have "f64_mag ?x = 0" using zero_products(2) zero_facts(2) rest fraction by (intro zero_added) blast+
  ultimately show ?thesis using that zero_any(1) by blast
qed

section \<open>The scenario\<close>

definition drive_sensors :: sensor_suite_config where
  "drive_sensors = example_config\<lparr>su_wheel_speed := (su_wheel_speed example_config)\<lparr>wc_enabled := False\<rparr>\<rparr>"

definition drive_point :: waypoint where
  "drive_point = \<lparr>wy_x_m = 0, wy_y_m = 0, wy_target_speed_mps = 0, wy_acceptance_radius_m = one_hz\<rparr>"

definition drive_scenario :: scenario where
  "drive_scenario = one_scenario\<lparr>so_sensors := drive_sensors, so_route := [drive_point]\<rparr>"

lemma drive_fields [simp]:
  "so_name drive_scenario = ''rest''" "so_dt_s drive_scenario = one_hz" "so_initial_state drive_scenario = initial_vehicle"
  "so_vehicle drive_scenario = one_parameters" "so_sensors drive_scenario = drive_sensors" "so_landmarks drive_scenario = []"
  "so_faults drive_scenario = []" "so_route drive_scenario = [drive_point]" "so_seed drive_scenario = 7"
  by (simp_all add: drive_scenario_def one_scenario_def)

lemma drive_parts: "parts_made drive_scenario"
proof -
  have "WheelSpeedConfig (su_wheel_speed drive_sensors) = Inr (su_wheel_speed drive_sensors)"
    by (simp add: drive_sensors_def example_config_def WheelSpeedConfig_def validate_common_def finite_real_def one_facts zero_facts
        one_comparisons guardR_def)
  moreover have "Waypoint drive_point = Inr drive_point"
    by (simp add: Waypoint_def drive_point_def finite_real_def one_facts zero_facts one_comparisons guardR_def)
  ultimately show ?thesis
    using one_parts by (simp add: parts_made_def drive_scenario_def one_scenario_def drive_sensors_def)
qed

lemma drive_accepted: "Scenario drive_scenario = Inr drive_scenario"
proof -
  have "validate_scenario one_scenario = Inr ()"
    using one_accepted by (auto simp: Scenario_def bindR_eq_Inr)
  moreover have "sequenceR (map (check_rate one_hz) (sensor_rates drive_sensors)) = Inr [(), (), (), ()]"
    by (simp add: drive_sensors_def sensor_rates_def example_config_def check_rate_def one_period)
  moreover have "\<not> flt (vp_max_speed_mps one_parameters) 0"
    using limits_facts [OF VehicleParameters_ok [OF one_parameters_ok, THEN conjunct2]] zero_facts by (simp add: fle_key flt_def)
  ultimately have "validate_scenario drive_scenario = Inr ()"
    by (auto simp: validate_scenario_def drive_scenario_def one_scenario_def drive_point_def bindR_eq_Inr guardR_def Let_def
        split: if_splits)
  then show ?thesis
    using one_accepted by (auto simp: Scenario_def drive_scenario_def one_scenario_def bindR_eq_Inr)
qed

lemma drive_angles: "\<forall>a\<in>set (angles drive_scenario). angle_stable a"
  using one_angles by (auto simp: angles_def drive_scenario_def one_scenario_def drive_sensors_def)

lemma drive_parses: "scenario_from_mapping (scenario_to_mapping drive_scenario) = Inr drive_scenario"
  by (rule snapshot_again [OF drive_accepted drive_parts]) (use drive_angles in blast)

lemma drive_steps: "step_count drive_scenario = Inr 1"
  by (simp add: step_count_def drive_scenario_def one_scenario_def one_step)

section \<open>Its sensors\<close>

text \<open>A pipeline that has done the steps before \<open>k\<close> and measured nothing.\<close>

definition resting :: "int \<Rightarrow> unit sensor_pipeline \<Rightarrow> bool" where
  "resting k p \<longleftrightarrow> pl_dt_s p = one_hz \<and> pl_config p = drive_sensors \<and> pl_faults p = [] \<and> pl_pending p = [] \<and> pl_events p = []
     \<and> pl_active_faults p = [] \<and> pl_last_step p = k - 1"

lemma resting_starts:
  obtains p where "SensorPipeline example_env one_hz one_parameters drive_sensors [] [] 7 = Inr p" "resting 0 p"
proof -
  have "\<not> fle one_hz 0" by (simp add: fle_def f64_key_def one_facts zero_facts)
  then show ?thesis
    using that
    by (simp add: SensorPipeline_def finite_real_def one_facts drive_sensors_def example_config_def one_period guardR_def resting_def)
qed

lemma resting_step:
  assumes "resting k p" "time_of_step one_hz k = Inr t" "isfinite t"
  shows "\<exists>p'. pipeline_step example_env k t v p = (Inr [], p') \<and> resting (k + 1) p'"
proof -
  obtain n where n: "float_of_int k = Inr n" "t = fmul n one_hz" using assms(2) by (auto simp: time_of_step_def bindR_eq_Inr)
  have "isclose_abs t t state_tolerance" using isfinite_not_nan [OF assms(3)] by (simp add: isclose_abs_def feq_def)
  then have "check_step k t p = (Inr t, p)"
    using assms n by (simp add: check_step_def resting_def finite_real_def guardR_def)
  moreover have "sample_all example_env k t v u = (Inr (), u)" if "pl_config u = drive_sensors" for u
    using that by (simp add: sample_all_def when_due_def bindM_def drive_sensors_def example_config_def)
  ultimately have "pipeline_step example_env k t v p = (Inr [], p\<lparr>pl_last_step := k, pl_active_faults := [], pl_pending := []\<rparr>)"
    using assms(1)
    by (simp add: pipeline_step_def bindM_def modifyM_def update_fault_events_def active_indices_def deliver_def resting_def)
  then show ?thesis using assms(1) by (auto simp: resting_def)
qed

section \<open>Its vehicle\<close>

definition at_origin :: "vehicle_state \<Rightarrow> bool" where
  "at_origin v \<longleftrightarrow> vs_x_m v = 0 \<and> vs_y_m v = 0 \<and> vs_heading_rad v = 0 \<and> isfinite (vs_speed_mps v) \<and> \<not> flt (vs_speed_mps v) 0"

lemma zero_plus: "f64_mag z = 0 \<Longrightarrow> fadd 0 z = 0"
  using zero_any [of z] zero_facts by (simp add: fadd_def f64_neg_def zero_word)

lemma drive_vehicle:
  obtains v where "vehicle_step rest_lib one_parameters initial_vehicle \<lparr>cm_acceleration_mps2 = 0, cm_steering_rad = 0\<rparr> one_hz = Inr v"
    "at_origin v"
proof -
  have p: "parameters_ok one_parameters" by (rule VehicleParameters_ok [OF one_parameters_ok, THEN conjunct2])
  obtain v where v: "vehicle_step rest_lib one_parameters initial_vehicle \<lparr>cm_acceleration_mps2 = 0, cm_steering_rad = 0\<rparr> one_hz = Inr v"
    using rest_step [OF one_facts(1) one_comparisons(2) p] by blast
  then obtain ar sr speed steering acceleration where
    act: "actuated one_parameters initial_vehicle \<lparr>cm_acceleration_mps2 = 0, cm_steering_rad = 0\<rparr> one_hz ar sr = (speed, steering, acceleration)"
    and pose: "integrate_pose rest_lib one_parameters initial_vehicle one_hz speed steering acceleration = Inr v"
    by (auto simp: vehicle_step_def finite_real_def one_facts bindR_eq_Inr split: prod.split_asm) (metis prod_cases3)
  have fields: "list_all isfinite (vs_fields v)" "vs_speed_mps v = speed" using integrate_pose_Inr [OF pose] by simp_all
  then have finite: "isfinite speed" by (simp add: vs_fields_def)
  have "fle 0 speed" using actuated_limits [OF p act] by blast
  then have slow: "\<not> flt speed 0" by (simp add: fle_def flt_def)
  have "\<exists>q h. py_div (fmul speed 0) (vp_wheelbase_m one_parameters) = Inr q \<and> wrap_angle (fadd 0 (fmul q one_hz)) = Inr h
      \<and> vs_heading_rad v = h \<and> vs_x_m v = fadd 0 (fmul (fmul speed 0) one_hz) \<and> vs_y_m v = fadd 0 (fmul (fmul speed 0) one_hz)"
    using pose
    by (auto simp: integrate_pose_def rest_lib_def initial_vehicle_def Let_def bindR_eq_Inr math_call_def VehicleState_def
        split: if_splits)
  then obtain q h where q: "py_div (fmul speed 0) (vp_wheelbase_m one_parameters) = Inr q" "wrap_angle (fadd 0 (fmul q one_hz)) = Inr h"
      "vs_heading_rad v = h" "vs_x_m v = fadd 0 (fmul (fmul speed 0) one_hz)" "vs_y_m v = fadd 0 (fmul (fmul speed 0) one_hz)"
    by blast
  have zero: "f64_mag (fmul speed 0) = 0" by (rule zero_products(1) [OF finite])
  have "isfinite (vp_wheelbase_m one_parameters)"
    by (simp add: one_parameters_def default_parameters_def isfinite_def f64_mag_def f64_inf_mag_def)
  then have "f64_mag q = 0" using q(1) zero_products(3) [OF zero] by (auto simp: py_div_def split: if_splits)
  then have "fadd 0 (fmul q one_hz) = 0" using zero_products(2) one_facts(1) zero_plus by blast
  moreover have "fadd 0 (fmul (fmul speed 0) one_hz) = 0" using zero_products(2) [OF zero one_facts(1)] zero_plus by blast
  ultimately have "at_origin v" using q fields finite slow wrap_zero by (simp add: at_origin_def)
  with v that show ?thesis by blast
qed

end
