(* ===== verification/Run_Log_Example.thy ===== *)
theory Run_Log_Example
  imports Run_Config Scenario_Example
begin

text \<open>
  A concrete run log: one wheel speed measurement, then the end of the run or a write that is cut off.
  It instantiates the laws of the run log.
\<close>

definition plain_log :: log_env where
  "plain_log = \<lparr>le_float_text = (\<lambda>x. ''0.0''), le_str = (\<lambda>v. ''?''), le_digest = (\<lambda>v. ''digest''), le_started_utc = ''start'',
     le_completed_utc = ''end'', le_version = ''1'', le_git_commit = None, le_git_dirty = None, le_source_tree = None\<rparr>"

definition rest_measurement :: measurement where
  "rest_measurement = WheelSpeedMeasurement \<lparr>mt_sample_step_id = 0, mt_sample_time_s = 0, mt_delivery_step_id = 0,
     mt_delivery_time_s = 0\<rparr> 0"

lemma rest_valid: "valid_entry (LE_Measurement rest_measurement)"
  by (simp add: rest_measurement_def valid_measurement.simps validate_measurement_common_def finite_real_def zero_facts
      one_comparisons guardR_def)

lemma one_json: "json_ok (scenario_to_mapping one_scenario)"
  using zero_stable one_stable
  by (simp add: scenario_to_mapping_def one_scenario_def vehicle_mapping_def initial_state_mapping_def command_mapping_def
      sensors_mapping_def imu_mapping_def wheel_mapping_def gnss_mapping_def landmark_sensor_mapping_def one_parameters_def
      default_parameters_def initial_vehicle_def example_config_def angle_stable_def one_facts zero_facts isfinite_def
      f64_mag_def f64_inf_mag_def)

text \<open>A logger with files for \<open>n\<close> operations after it is opened.\<close>

lemma log_opens:
  "\<exists>l d. RunLogger plain_log one_scenario None None False (10 + n) torn = (Inr l, d) \<and> lg_budget l = n \<and> lg_torn l = torn
     \<and> \<not> lg_closed l \<and> lg_files_open l"
proof -
  have "safe_name (so_name one_scenario)" by (simp add: one_scenario_def safe_name_def)
  moreover have "so_name one_scenario = ''rest''" by (simp add: one_scenario_def)
  ultimately show ?thesis
    using one_json
    by (simp add: RunLogger_def Let_def guardR_def optional_sha256_def config_sha256_def make_files_def bindM_def file_op_def
        write_manifest_def numeral_eq_Suc)
qed

lemma records_one:
  assumes "\<not> lg_closed l" "lg_files_open l" "lg_budget l = Suc n"
  shows "\<exists>l'. record_entry plain_log (LE_Measurement rest_measurement) l = (Inr (), l') \<and> \<not> lg_closed l' \<and> lg_files_open l'
    \<and> lg_budget l' = n \<and> lg_torn l' = lg_torn l"
proof -
  have "entry_check (LE_Measurement rest_measurement) = Inr ()"
    using valid_json [of rest_measurement] rest_valid by (simp add: entry_check_def json_text_def guardR_def)
  then show ?thesis
    using assms by (simp add: record_entry_shape bindM_def ensure_open_def liftM_def write_line_def file_op_def count_record_def modifyM_def)
qed

lemma refuses_one:
  assumes "\<not> lg_closed l" "lg_files_open l" "lg_budget l = 0"
  shows "\<exists>l'. record_entry plain_log (LE_Measurement rest_measurement) l = (Inl OSError, l')"
proof -
  have "entry_check (LE_Measurement rest_measurement) = Inr ()"
    using valid_json [of rest_measurement] rest_valid by (simp add: entry_check_def json_text_def guardR_def)
  then show ?thesis
    using assms by (simp add: record_entry_shape bindM_def ensure_open_def liftM_def write_line_def)
qed

text \<open>A run of one record whose second record is cut off in the middle of its line.\<close>

lemma torn_run:
  "\<exists>l c. logging_run plain_log one_scenario l c \<and> cn_measurements c = [rest_measurement] \<and> cn_estimates c = [] \<and> cn_events c = []"
proof -
  obtain l0 d where l0: "RunLogger plain_log one_scenario None None False (10 + 1) (Part_Left []) = (Inr l0, d)" "lg_budget l0 = 1"
    "\<not> lg_closed l0" "lg_files_open l0"
    using log_opens [of 1 "Part_Left []"] by auto
  from records_one [OF l0(3,4), of 0] l0(2) obtain l1 where
    l1: "record_entry plain_log (LE_Measurement rest_measurement) l0 = (Inr (), l1)" "\<not> lg_closed l1" "lg_files_open l1" "lg_budget l1 = 0"
    by auto
  obtain l2 where l2: "record_entry plain_log (LE_Measurement rest_measurement) l1 = (Inl OSError, l2)"
    using refuses_one [OF l1(2-4)] by auto
  have "logging_run plain_log one_scenario l2 (add_entry (LE_Measurement rest_measurement) no_contents)"
    by (rule logging_run.refused [OF logging_run.accepted [OF logging_run.opened [OF l0(1)] rest_valid l1(1)] rest_valid l2])
  then show ?thesis by (fastforce simp: no_contents_def)
qed

theorem unfinished_run_refused_witness:
  "\<exists>l c. logging_run plain_log one_scenario l c \<and> cn_measurements c = [rest_measurement]
     \<and> RunReplay plain_log False (lg_dir l) = Inl IncompleteRunError"
  using torn_run unfinished_run_refused by blast


lemma short_log_finalized:
  "\<exists>l l'. logging_run plain_log one_scenario l (add_entry (LE_Measurement rest_measurement) no_contents)
     \<and> finalize plain_log [] l = (Inr (), l')"
proof -
  obtain l0 d where l0: "RunLogger plain_log one_scenario None None False (10 + 6) Nothing_Left = (Inr l0, d)" "lg_budget l0 = 6"
    "\<not> lg_closed l0" "lg_files_open l0"
    using log_opens [of 6 Nothing_Left] by auto
  from records_one [OF l0(3,4), of 5] l0(2) obtain l1 where
    l1: "record_entry plain_log (LE_Measurement rest_measurement) l0 = (Inr (), l1)" "\<not> lg_closed l1" "lg_files_open l1" "lg_budget l1 = 5"
    by auto
  have run: "logging_run plain_log one_scenario l1 (add_entry (LE_Measurement rest_measurement) no_contents)"
    by (rule logging_run.accepted [OF logging_run.opened [OF l0(1)] rest_valid l1(1)])
  have "\<exists>l2. finalize plain_log [] l1 = (Inr (), l2)"
    using l1(2-4)
    by (simp add: finalize_shape flush_files_def close_files_def write_final_def bindM_def file_op_def modifyM_def write_manifest_def
        numeral_eq_Suc)
  with run show ?thesis by blast
qed

theorem finalized_run_replays_witness:
  "\<exists>l l' r. finalize plain_log [] l = (Inr (), l') \<and> RunReplay plain_log False (lg_dir l') = Inr r
     \<and> measurements r = ([rest_measurement], None) \<and> ground_truth r = ([], None)"
proof -
  obtain l l2 where run: "logging_run plain_log one_scenario l (add_entry (LE_Measurement rest_measurement) no_contents)"
    "finalize plain_log [] l = (Inr (), l2)"
    using short_log_finalized by blast
  from finalized_run_replays [OF this] obtain r where "RunReplay plain_log False (lg_dir l2) = Inr r"
    "ground_truth r = ([], None)" "measurements r = ([rest_measurement], None)"
    by (auto simp: no_contents_def)
  with run(2) show ?thesis by blast
qed

end
