(* ===== verification/Closed_Loop_Example.thy ===== *)
theory Closed_Loop_Example
  imports Link_Example Drive_Scenario Recorded_Run Run_Log_Example
begin

text \<open>
  A closed-loop run from beginning to end: the firmware that only greets, the scenario at rest, and a
  run log with room for a hundred file operations. It returns, its log is accepted by the reader, and it
  instantiates the laws of the loop and of its replay.
\<close>

section \<open>The log\<close>

definition drive_hash :: string where "drive_hash = replicate 64 CHR ''0''"

definition drive_setup :: log_setup where
  "drive_setup = \<lparr>lu_run_name = None, lu_binary = Inr drive_hash, lu_exists = False, lu_budget = 100, lu_torn = Nothing_Left,
     lu_reason = ''''\<rparr>"

definition drive_env :: "(bool, unit, unit recorder) cil_env" where
  "drive_env = recording_env greet example_env plain_log drive_scenario drive_setup (\<lambda>y. (0, y)) (returnM ())"

lemma drive_env [simp]:
  "ce_react drive_env = greet" "ce_sensors drive_env = example_env" "ce_logging drive_env"
  "ce_open drive_env = open_logger plain_log drive_scenario drive_setup"
  "ce_log drive_env call = on_logger (record_entry plain_log (entry_of call))"
  "ce_finalize drive_env summary = bindM (on_logger (finalize plain_log summary)) (\<lambda>_. returnM (run_name_of drive_scenario drive_setup))"
  "ce_clock_ns drive_env = (\<lambda>w. (0, w))" "ce_dashboard drive_env = on_outer (returnM ())"
proof -
  have same: "w\<lparr>rc_outer := ()\<rparr> = w" for w :: "unit recorder" by (cases w) simp
  show "ce_clock_ns drive_env = (\<lambda>w. (0, w))" by (rule ext) (simp add: drive_env_def recording_env_def same)
qed (simp_all add: drive_env_def recording_env_def)

text \<open>A logger that is open, with \<open>n\<close> operations left.\<close>

definition logs :: "nat \<Rightarrow> unit recorder \<Rightarrow> bool" where
  "logs n w \<longleftrightarrow> (\<exists>l c. rc_logger w = Some l \<and> logging_run plain_log drive_scenario l c \<and> \<not> lg_closed l \<and> lg_files_open l
     \<and> n \<le> lg_budget l)"

lemma lower_hash: "lower drive_hash = drive_hash"
  by (simp add: lower_def drive_hash_def)

lemma drive_json: "json_ok (scenario_to_mapping drive_scenario)"
  using one_json
  by (simp add: scenario_to_mapping_def drive_scenario_def one_scenario_def drive_sensors_def sensors_mapping_def wheel_mapping_def
      waypoint_mapping_def drive_point_def zero_facts one_facts)

lemma drive_opens: "\<exists>w. open_logger plain_log drive_scenario drive_setup w0 = (Inr (), w) \<and> logs 90 w"
proof -
  have "optional_sha256 (Some drive_hash) = Inr (Some drive_hash)"
    by (simp add: optional_sha256_def lower_hash guardR_def) (simp add: drive_hash_def hex_char_def list_all_iff)
  moreover have "safe_name ''rest''" by (simp add: safe_name_def)
  ultimately have "\<exists>l d. RunLogger plain_log drive_scenario None (Some drive_hash) False 100 Nothing_Left = (Inr l, d)
      \<and> lg_budget l = 90 \<and> \<not> lg_closed l \<and> lg_files_open l"
    using drive_json
    by (simp add: RunLogger_def Let_def guardR_def config_sha256_def make_files_def bindM_def file_op_def write_manifest_def
        numeral_eq_Suc)
  then obtain l d where l: "RunLogger plain_log drive_scenario None (Some drive_hash) False 100 Nothing_Left = (Inr l, d)"
    "lg_budget l = 90" "\<not> lg_closed l" "lg_files_open l" by blast
  then have "open_logger plain_log drive_scenario drive_setup w0 = (Inr (), w0\<lparr>rc_logger := Some l\<rparr>)"
    by (simp add: open_logger_def drive_setup_def)
  moreover have "logs 90 (w0\<lparr>rc_logger := Some l\<rparr>)"
    using l logging_run.opened [OF l(1)] by (auto simp: logs_def)
  ultimately show ?thesis by blast
qed

definition loggable :: "log_call \<Rightarrow> bool" where
  "loggable call \<longleftrightarrow> valid_entry (entry_of call) \<and> entry_check (entry_of call) = Inr ()"

lemma log_one:
  assumes "loggable call" "logs (Suc n) (cl_world c)"
  shows "\<exists>w. log_record drive_env call c = (Inr (), c\<lparr>cl_world := w\<rparr>) \<and> logs n w"
proof -
  obtain l d where l: "rc_logger (cl_world c) = Some l" "logging_run plain_log drive_scenario l d" "\<not> lg_closed l" "lg_files_open l"
    "Suc n \<le> lg_budget l"
    using assms(2) by (auto simp: logs_def)
  then have "\<exists>l'. record_entry plain_log (entry_of call) l = (Inr (), l') \<and> \<not> lg_closed l' \<and> lg_files_open l' \<and> n \<le> lg_budget l'"
    using assms(1)
    by (cases "lg_budget l")
      (auto simp: loggable_def record_entry_shape bindM_def ensure_open_def liftM_def write_line_def file_op_def count_record_def modifyM_def)
  then obtain l' where l': "record_entry plain_log (entry_of call) l = (Inr (), l')" "\<not> lg_closed l'" "lg_files_open l'"
    "n \<le> lg_budget l'" by blast
  have "logging_run plain_log drive_scenario l' (add_entry (entry_of call) d)"
    using logging_run.accepted [OF l(2) _ l'(1)] assms(1) by (simp add: loggable_def)
  then have "logs n ((cl_world c)\<lparr>rc_logger := Some l'\<rparr>)" using l' by (auto simp: logs_def)
  moreover have "log_record drive_env call c = (Inr (), c\<lparr>cl_world := (cl_world c)\<lparr>rc_logger := Some l'\<rparr>\<rparr>)"
    using l(1) l'(1) by (simp add: log_record_def on_world_def on_logger_def)
  ultimately show ?thesis by blast
qed

lemma log_several:
  "list_all loggable calls \<Longrightarrow> logs (length calls + n) (cl_world c) \<Longrightarrow>
     \<exists>w. log_all drive_env calls c = (Inr (), c\<lparr>cl_world := w\<rparr>) \<and> logs n w"
proof (induction calls arbitrary: c)
  case Nil
  then show ?case by (intro exI [of _ "cl_world c"]) simp
next
  case (Cons call calls)
  then obtain w where w: "log_record drive_env call c = (Inr (), c\<lparr>cl_world := w\<rparr>)" "logs (length calls + n) w"
    using log_one [of call "length calls + n" c] by auto
  then show ?case using Cons.IH [of "c\<lparr>cl_world := w\<rparr>"] Cons.prems(1) by (auto simp: bindM_def)
qed

lemma logs_mono: "logs n w \<Longrightarrow> m \<le> n \<Longrightarrow> logs m w"
  by (auto simp: logs_def)

section \<open>A step\<close>

lemma on_session_returns:
  assumes "returns P m Q" "P (cl_session c)"
  shows "\<exists>v s. on_session m c = (Inr v, c\<lparr>cl_session := s\<rparr>) \<and> Q v s"
  using assms by (fastforce simp: on_session_def returns_def)

text \<open>The traffic of step \<open>k\<close>: nothing is measured, and nothing comes from the firmware.\<close>

lemma traffic_step:
  assumes "time_ms t = Inr now" "0 \<le> k" "k < 2 ^ 32" "time_of_step one_hz k = Inr t" "isfinite t"
    and "quiet_session k0 now0 (cl_session c)" "sn_state (cl_session c) = ST_ACTIVE" "k0 \<le> k" "now0 \<le> now" "0 \<le> now"
    and "resting k (cl_sensors c)" "\<not> cl_manual_stop_sent c"
  shows "\<exists>s p. step_traffic drive_env drive_scenario k t c = (Inr [], c\<lparr>cl_session := s, cl_sensors := p,
      cl_round_trip_ms := cl_round_trip_ms c @ [0]\<rparr>) \<and> quiet_session k now s \<and> resting (k + 1) p"
proof -
  have "quiet_session k0 now0 (cl_session c) \<and> sn_state (cl_session c) = ST_ACTIVE" using assms(6,7) by simp
  from on_session_returns [OF prepare_idle [of drive_scenario t k0 k now0 now] this] assms(8,9) drive_link [of t]
  obtain s1 where s1: "on_session (prepare_link greet drive_scenario k t now) c = (Inr healthy, c\<lparr>cl_session := s1\<rparr>)"
    "quiet_session k now s1" "sn_state s1 = ST_ACTIVE" by auto
  obtain p where p: "pipeline_step example_env k t (cl_state c) (cl_sensors c) = (Inr [], p)" "resting (k + 1) p"
    using resting_step [OF assms(11,4,5)] by blast
  have drained: "drain_events p = (Inr [], p)" using p(2) by (cases p) (simp add: drain_events_def resting_def)
  let ?c2 = "c\<lparr>cl_session := s1, cl_sensors := p\<rparr>"
  obtain s2 where s2: "on_session (cil_exchange greet drive_scenario k t now healthy False []) ?c2 = (Inr [], ?c2\<lparr>cl_session := s2\<rparr>)"
    "quiet_session k now s2"
    using on_session_returns [OF exchange_idle [of k now drive_scenario t healthy False], of ?c2] assms(2,3,10) s1(2) by auto
  have clock: "clock_ns drive_env u = (Inr 0, u)" for u :: "(bool, unit, unit recorder) cil"
    by (cases u) (simp add: clock_ns_def on_world_def)
  have sensors: "sensor_phase drive_env k t (c\<lparr>cl_session := s1\<rparr>) = (Inr [], ?c2)"
    using p(1) drained by (simp add: sensor_phase_def bindM_def on_sensors_def)
  have stop: "stop_phase drive_env drive_scenario k t ?c2 = (Inr (), ?c2)"
    using assms(12) by (cases c) (simp add: stop_phase_def manual_stop_def wants_manual_stop_def any_fault_def bindM_def on_session_def modifyM_def)
  have exchange: "exchange_phase_of drive_env drive_scenario k t now healthy [] ?c2 =
      (Inr [], ?c2\<lparr>cl_session := s2, cl_round_trip_ms := cl_round_trip_ms c @ [0]\<rparr>)"
    using s2(1) assms(12) by (simp add: exchange_phase_of_def bindM_def clock liftM_def drive_round_trip modifyM_def)
  have "step_traffic drive_env drive_scenario k t c =
      (Inr [], ?c2\<lparr>cl_session := s2, cl_round_trip_ms := cl_round_trip_ms c @ [0]\<rparr>)"
    using assms(1) s1 sensors stop exchange
    by (simp add: step_traffic_def bindM_def liftM_def modifyM_def count_active_faults_def reconnect_phase_def)
  moreover have "?c2\<lparr>cl_session := s2, cl_round_trip_ms := cl_round_trip_ms c @ [0]\<rparr> =
      c\<lparr>cl_session := s2, cl_sensors := p, cl_round_trip_ms := cl_round_trip_ms c @ [0]\<rparr>" by (cases c) simp
  ultimately show ?thesis using s2(2) p(2) by (intro exI [of _ s2] exI [of _ p]) simp
qed

text \<open>What the host makes of nothing: its own stop, recorded.\<close>

definition stop_command :: control_command_payload where
  "stop_command = host_command_timeout_safe_stop no_estimate (vp_max_deceleration_mps2 one_parameters)"

definition at_rest :: control_command where
  "at_rest = \<lparr>cm_acceleration_mps2 = 0, cm_steering_rad = 0\<rparr>"

lemma stop_command_fields:
  "cc_acceleration_mps2 stop_command = 0" "cc_steering_rad stop_command = 0" "cc_target_speed_mps stop_command = 0"
  "cc_flags stop_command = 0" "ControlCommand 0 0 = Inr at_rest"
proof -
  have "\<not> flt 0x3F947AE147AE147B 0" by (simp add: flt_def f64_key_def f64_neg_def f64_mag_def)
  then show "cc_acceleration_mps2 stop_command = 0" "cc_steering_rad stop_command = 0" "cc_target_speed_mps stop_command = 0"
    "cc_flags stop_command = 0" "ControlCommand 0 0 = Inr at_rest"
    by (simp_all add: stop_command_def host_command_timeout_safe_stop_def no_estimate_def one_comparisons ControlCommand_def at_rest_def
        finite_real_def zero_facts)
qed

lemma drive_effective: "effective_command timeout (vp_max_deceleration_mps2 one_parameters) k nothing_held =
    (stop_command, ''host_command_timeout_safe_stop'')"
  by (simp add: effective_command_def command_is_fresh_def nothing_held_def stop_command_def)

definition step_calls :: "int \<Rightarrow> f64 \<Rightarrow> vehicle_state \<Rightarrow> log_call list" where
  "step_calls k t v =
     [Log_Ground_Truth \<lparr>sm_time_s = t, sm_state = v, sm_command = at_rest, sm_step_id = k\<rparr>,
      Log_Estimate (estimate_record k t no_estimate),
      Log_Command k t at_rest ''host_command_timeout_safe_stop'' 0 (runlog_command_mode (cc_mode stop_command)) 0,
      Log_Timing k t ''native_process_round_trip'' 0]"

lemma step_loggable:
  assumes "0 \<le> k" "isfinite t" "\<not> flt t 0" "VehicleState v = Inr v"
  shows "list_all loggable (step_calls k t v)"
    "loggable (Log_Event (transition_event k t ''host_command_guard_transition'' (Some ''inactive'') ''active''))"
  using assms stop_command_fields(5)
  by (simp_all add: step_calls_def loggable_def SimulationSample_def entry_check_def validate_step_time_def finite_real_def guardR_def
      zero_facts one_comparisons estimate_record_def no_estimate_def json_text_def at_rest_def event_dict_def transition_event_def
      check_run_event_def set_default_def Let_def finite_number_def SEVERITIES_def)

text \<open>The loop before step \<open>k\<close>, with the vehicle in \<open>v\<close> and room for \<open>n\<close> more operations on the log.\<close>

definition sample_rests :: "simulation_sample \<Rightarrow> bool" where
  "sample_rests x \<longleftrightarrow> vs_x_m (sm_state x) = 0 \<and> vs_y_m (sm_state x) = 0 \<and> vs_heading_rad (sm_state x) = 0
     \<and> isfinite (vs_speed_mps (sm_state x)) \<and> \<not> flt (vs_speed_mps (sm_state x)) 0"

definition underway :: "nat \<Rightarrow> nat \<Rightarrow> (bool, unit, unit recorder) cil \<Rightarrow> bool" where
  "underway k n c \<longleftrightarrow> resting (int k) (cl_sensors c) \<and> logs n (cl_world c) \<and> \<not> cl_manual_stop_sent c \<and> cl_held c = nothing_held
     \<and> length (cl_plant_samples c) = k \<and> list_all sample_rests (cl_plant_samples c) \<and> length (cl_estimates c) = k
     \<and> list_all (\<lambda>(_, _, e). e = no_estimate) (cl_estimates c) \<and> cl_round_trip_ms c = replicate k 0 \<and> cl_health_samples c = []
     \<and> cl_safety_counts c = [] \<and> cl_navigation_counts c = [] \<and> cl_active_fault_steps c = []"

lemma guard_step:
  assumes "cl_held c = nothing_held" "logs (Suc n) (cl_world c)" "0 \<le> k" "isfinite t" "\<not> flt t 0"
  shows "\<exists>w g j. guard_phase drive_env timeout k t c = (Inr (), c\<lparr>cl_world := w, cl_guard_active := g, cl_guard_steps := j\<rparr>) \<and> logs n w"
proof -
  let ?c = "c\<lparr>cl_guard_steps := cl_guard_steps c + 1\<rparr>"
  let ?call = "Log_Event (transition_event k t ''host_command_guard_transition'' (Some ''inactive'') ''active'')"
  have fresh: "\<not> command_is_fresh timeout k (cl_held c)" using assms(1) by (simp add: command_is_fresh_def nothing_held_def)
  have rest: "VehicleState initial_vehicle = Inr initial_vehicle" using VehicleState_finite by (simp add: initial_vehicle_def vs_fields_def zero_facts)
  have "loggable ?call" by (rule step_loggable(2) [OF assms(3-5) rest])
  then obtain w where w: "log_record drive_env ?call ?c = (Inr (), ?c\<lparr>cl_world := w\<rparr>)" "logs n w"
    using log_one [of ?call n ?c] assms(2) by auto
  show ?thesis
  proof (cases "cl_guard_active c")
    case True
    then show ?thesis
      using fresh logs_mono [OF assms(2), of n]
      by (intro exI [of _ "cl_world c"] exI [of _ True] exI [of _ "cl_guard_steps c + 1"]) (cases c; simp add: guard_phase_def)
  next
    case False
    then show ?thesis
      using fresh w
      by (intro exI [of _ w] exI [of _ True] exI [of _ "cl_guard_steps c + 1"])
        (cases c; simp add: guard_phase_def bindM_def modifyM_def)
  qed
qed

lemma record_step:
  assumes "cl_held c = nothing_held" "logs (4 + n) (cl_world c)" "0 \<le> k" "isfinite t" "\<not> flt t 0"
    "VehicleState (cl_state c) = Inr (cl_state c)" "last (cl_round_trip_ms c) = 0"
  shows "\<exists>w. record_phase drive_env drive_scenario timeout k t c = (Inr at_rest, c\<lparr>
      cl_plant_samples := cl_plant_samples c @ [\<lparr>sm_time_s = t, sm_state = cl_state c, sm_command = at_rest, sm_step_id = k\<rparr>],
      cl_estimates := cl_estimates c @ [(k, t, no_estimate)],
      cl_controller_commands := cl_controller_commands c @ [(k, t, stop_command)], cl_world := w\<rparr>) \<and> logs n w"
proof -
  let ?c = "c\<lparr>cl_plant_samples := cl_plant_samples c @ [\<lparr>sm_time_s = t, sm_state = cl_state c, sm_command = at_rest, sm_step_id = k\<rparr>],
      cl_estimates := cl_estimates c @ [(k, t, no_estimate)],
      cl_controller_commands := cl_controller_commands c @ [(k, t, stop_command)]\<rparr>"
  have "length (step_calls k t (cl_state c)) = 4" by (simp add: step_calls_def)
  then obtain w where w: "log_all drive_env (step_calls k t (cl_state c)) ?c = (Inr (), ?c\<lparr>cl_world := w\<rparr>)" "logs n w"
    using log_several [OF step_loggable(1) [OF assms(3-6)], of n ?c] assms(2) by auto
  have "hd_estimate (cl_held c) = no_estimate" by (simp add: assms(1) nothing_held_def)
  then have "record_phase drive_env drive_scenario timeout k t c = (Inr at_rest, ?c\<lparr>cl_world := w\<rparr>)"
    using w(1) assms drive_round_trip(2)
    by (simp add: record_phase_def drive_effective stop_command_fields bindM_def liftM_def modifyM_def Let_def SimulationSample_def
        finite_real_def guardR_def step_calls_def)
  with w(2) show ?thesis by (intro exI [of _ w]) simp
qed

text \<open>One step of the loop.\<close>

lemma drive_step:
  assumes "underway k (5 + n) c" "quiet_session k0 now0 (cl_session c)" "sn_state (cl_session c) = ST_ACTIVE" "k0 \<le> int k" "now0 \<le> now"
    and "0 \<le> now" "time_of_step one_hz (int k) = Inr t" "time_ms t = Inr now" "isfinite t" "\<not> flt t 0" "int k < 2 ^ 32"
    and "VehicleState (cl_state c) = Inr (cl_state c)" "vs_x_m (cl_state c) = 0" "vs_y_m (cl_state c) = 0"
    "vs_heading_rad (cl_state c) = 0" "isfinite (vs_speed_mps (cl_state c))" "\<not> flt (vs_speed_mps (cl_state c)) 0"
  shows "\<exists>c'. cil_step drive_env drive_scenario timeout n0 (int k) c = plant_phase drive_env drive_scenario n0 (int k) at_rest c'
    \<and> underway (Suc k) n c' \<and> quiet_session (int k) now (cl_session c') \<and> cl_state c' = cl_state c"
proof -
  have start: "resting (int k) (cl_sensors c)" "\<not> cl_manual_stop_sent c" "cl_held c = nothing_held" "logs (5 + n) (cl_world c)"
    "cl_round_trip_ms c = replicate k 0"
    using assms(1) by (simp_all add: underway_def)
  obtain s p where traffic: "step_traffic drive_env drive_scenario (int k) t c = (Inr [], c\<lparr>cl_session := s, cl_sensors := p,
      cl_round_trip_ms := cl_round_trip_ms c @ [0]\<rparr>)" "quiet_session (int k) now s" "resting (int k + 1) p"
    using traffic_step [OF assms(8) _ assms(11,7,9,2-6) start(1,2)] by auto
  let ?c1 = "c\<lparr>cl_session := s, cl_sensors := p, cl_round_trip_ms := cl_round_trip_ms c @ [0]\<rparr>"
  obtain w g j where guard: "guard_phase drive_env timeout (int k) t ?c1 =
      (Inr (), ?c1\<lparr>cl_world := w, cl_guard_active := g, cl_guard_steps := j\<rparr>)" "logs (4 + n) w"
    using guard_step [of ?c1 "4 + n" "int k" t timeout] start assms(9,10) by auto
  let ?c2 = "?c1\<lparr>cl_world := w, cl_guard_active := g, cl_guard_steps := j\<rparr>"
  obtain w' where stored: "record_phase drive_env drive_scenario timeout (int k) t ?c2 = (Inr at_rest, ?c2\<lparr>
      cl_plant_samples := cl_plant_samples c @ [\<lparr>sm_time_s = t, sm_state = cl_state c, sm_command = at_rest, sm_step_id = int k\<rparr>],
      cl_estimates := cl_estimates c @ [(int k, t, no_estimate)],
      cl_controller_commands := cl_controller_commands c @ [(int k, t, stop_command)], cl_world := w'\<rparr>)" "logs n w'"
    using record_step [of ?c2 n "int k" t timeout] start guard(2) assms(9,10,12) by auto
  let ?c3 = "?c2\<lparr>cl_plant_samples := cl_plant_samples c @ [\<lparr>sm_time_s = t, sm_state = cl_state c, sm_command = at_rest, sm_step_id = int k\<rparr>],
      cl_estimates := cl_estimates c @ [(int k, t, no_estimate)],
      cl_controller_commands := cl_controller_commands c @ [(int k, t, stop_command)], cl_world := w'\<rparr>"
  have "cil_step drive_env drive_scenario timeout n0 (int k) c = plant_phase drive_env drive_scenario n0 (int k) at_rest ?c3"
    using assms(7) traffic(1) guard(1) stored(1)
    by (simp add: cil_step_def step_reaction_def bindM_def liftM_def session_event_records_def)
  moreover have "underway (Suc k) n ?c3"
    using assms(1,13-17) traffic(3) stored(2) by (simp add: underway_def sample_rests_def replicate_append_same add.commute)
  ultimately show ?thesis using traffic(2) by (intro exI [of _ ?c3]) simp
qed

section \<open>The loop\<close>

lemma drive_loop:
  assumes "underway 0 (10 + n) c" "quiet_session 0 0 (cl_session c)" "cl_state c = initial_vehicle"
  shows "\<exists>c'. cil_loop drive_env drive_scenario timeout 1 [0..<nat 1 + 1] c = (Inr (), c') \<and> underway 2 n c'"
proof -
  have start: "VehicleState (cl_state c) = Inr (cl_state c)" "vs_x_m (cl_state c) = 0" "vs_y_m (cl_state c) = 0"
    "vs_heading_rad (cl_state c) = 0" "isfinite (vs_speed_mps (cl_state c))" "\<not> flt (vs_speed_mps (cl_state c)) 0"
    using VehicleState_finite by (simp_all add: assms(3) initial_vehicle_def vs_fields_def zero_facts one_comparisons)
  have active: "sn_state (cl_session c) = ST_ACTIVE" using assms(2) by (simp add: quiet_session_def)
  from drive_step [of 0 "5 + n" c 0 0 0 0 timeout 1] assms(1,2) active start drive_times(1) drive_ms(1) zero_facts one_comparisons(8)
  obtain c1 where c1: "cil_step drive_env drive_scenario timeout 1 0 c = plant_phase drive_env drive_scenario 1 0 at_rest c1"
    "underway 1 (5 + n) c1" "quiet_session 0 0 (cl_session c1)" "cl_state c1 = initial_vehicle"
    by (auto simp: assms(3))
  obtain v where v: "vehicle_step rest_lib one_parameters initial_vehicle at_rest one_hz = Inr v" "at_origin v"
    unfolding at_rest_def by (rule drive_vehicle)
  let ?c2 = "c1\<lparr>cl_state := v\<rparr>"
  have first: "cil_step drive_env drive_scenario timeout 1 0 c = (Inr (), ?c2)"
    using c1(1,4) v(1) by (simp add: plant_phase_def bindM_def liftM_def modifyM_def example_env_def)
  have moved: "underway 1 (5 + n) ?c2" "quiet_session 0 0 (cl_session ?c2)" using c1 by (simp_all add: underway_def)
  have made: "VehicleState v = Inr v"
  proof -
    obtain ar sr dt where "(case actuated one_parameters initial_vehicle at_rest dt ar sr of (speed, steering, acceleration) \<Rightarrow>
        bindR (integrate_pose rest_lib one_parameters initial_vehicle dt speed steering acceleration)
          (\<lambda>n. bindR (validate_state one_parameters n) (\<lambda>_. Inr n))) = Inr v"
      using v(1) by (auto simp: vehicle_step_def bindR_eq_Inr)
    then show ?thesis
      using integrate_pose_Inr(1) VehicleState_finite by (cases "actuated one_parameters initial_vehicle at_rest dt ar sr") (auto simp: bindR_eq_Inr)
  qed
  have active2: "sn_state (cl_session ?c2) = ST_ACTIVE" using moved(2) by (simp add: quiet_session_def)
  from drive_step [of 1 n ?c2 0 0 1000 one_hz timeout 1] moved active2 made v(2) drive_times(2) drive_ms(2) one_facts(1) one_comparisons(1)
  obtain c3 where "cil_step drive_env drive_scenario timeout 1 1 ?c2 = plant_phase drive_env drive_scenario 1 1 at_rest c3"
    "underway 2 n c3"
    by (auto simp: at_origin_def numeral_2_eq_2)
  with first show ?thesis by (simp add: bindM_def plant_phase_def numeral_2_eq_2 upt_rec)
qed

section \<open>The end of the run\<close>

abbreviation no_nis :: nis_totals where
  "no_nis \<equiv> \<lparr>nn_evaluated_count = 0, nn_gate_rejected_count = 0, nn_sum = 0, nn_max = 0\<rparr>"

lemma drive_evaluates:
  assumes "underway 2 n c"
  shows "\<exists>m. evaluate_run drive_env drive_scenario no_nis c = Inr m \<and> json_ok (V_Dict (metric_dict m))"
proof -
  let ?origin = "\<lparr>po_x_m = 0, po_y_m = 0, po_heading_rad = 0\<rparr>"
  obtain a b where ab: "cl_plant_samples c = [a, b]" "sample_rests a" "sample_rests b"
    using assms by (auto simp: underway_def numeral_2_eq_2 length_Suc_conv)
  obtain k t k' t' where e: "cl_estimates c = [(k, t, no_estimate), (k', t', no_estimate)]"
    using assms by (auto simp: underway_def numeral_2_eq_2 length_Suc_conv)
  have zero: "fmax 0 0 = 0" by (simp add: fmax_def one_comparisons)
  have smoke: "\<not> list_ex (\<lambda>x. isnan x \<or> flt x 0) [ml_position_rmse_m smoke_limits, ml_cross_track_rmse_m smoke_limits,
      ml_final_stop_error_m smoke_limits, ml_final_speed_mps smoke_limits]"
    by (simp add: smoke_limits_def f64_one_def flt_def f64_key_def f64_neg_def f64_mag_def isnan_def f64_inf_mag_def)
  have figures: "nis_figures [] (Some 0, Some 0, Some 0) = Inr (None, None)"
    by (simp add: nis_figures_def nis_of_aggregate_def guardR_def zero_facts one_comparisons)
  have "evaluate_run drive_env drive_scenario no_nis c =
      summarize_run rest_lib [?origin, ?origin] [?origin, ?origin] [(0, 0), (0, 0)] (vs_speed_mps (sm_state b)) []
        (Some 0, Some 0, Some 0) smoke_limits"
    using ab e by (simp add: evaluate_run_def sample_rests_def no_estimate_def example_env_def initial_vehicle_def drive_point_def)
  moreover have "lm_hypot rest_lib x y = 0" for x y by (simp add: rest_lib_def)
  ultimately show ?thesis
    using ab(3) smoke figures
    by (simp add: summarize_run_def validate_pose_def fsub_self zero_arith wrap_zero origin_distance rms_squared_def fsum_zeros guardR_def
        Let_def zero metric_dict_def sample_rests_def zero_facts)
qed

lemma drive_percentiles:
  obtains p50 p99 where "percentile [0, 0] 0x3FE0000000000000 = Inr p50" "isfinite p50"
    "percentile [0, 0] 0x3FEFAE147AE147AE = Inr p99" "isfinite p99"
proof -
  have half: "normal_positive 0x3FE0000000000000" and most: "normal_positive 0x3FEFAE147AE147AE"
    by (simp_all add: normal_positive_def f64_neg_def f64_mag_def isfinite_def f64_inf_mag_def)
  have "f64_units_mag 0x3FE0000000000000 = 4503599627370496 * 2 ^ 1021"
    by (rule f64_units_mag_normal [where e = 1022 and f = 0]) simp_all
  moreover have "f64_units_mag 0x3FEFAE147AE147AE = 8917127262193582 * 2 ^ 1021"
    by (rule f64_units_mag_normal [where e = 1022 and f = 4413527634823086]) simp_all
  ultimately have "f64_units_mag (f64_mag 0x3FE0000000000000) < 2 ^ 1074" "f64_units_mag (f64_mag 0x3FEFAE147AE147AE) < 2 ^ 1074"
    by (simp_all add: f64_mag_def)
  with zero_percentile [OF half] zero_percentile [OF most] that show ?thesis by metis
qed

lemma summary_json:
  assumes "underway 2 n c" "json_ok (V_Dict (metric_dict m))" "isfinite p50" "isfinite p99"
  shows "json_ok (V_Dict (summary_dict drive_scenario no_nis m p50 p99 c))"
proof -
  have "isfinite HOST_COMMAND_TIMEOUT_S" by (simp add: HOST_COMMAND_TIMEOUT_S_def isfinite_def f64_mag_def f64_inf_mag_def)
  then show ?thesis
    unfolding summary_dict_def
    by (intro json_ok_update assms(2))
      (use assms(1,3,4) in \<open>simp add: underway_def smoke_limits_def f64_one_def isfinite_def f64_mag_def f64_inf_mag_def statistics_dict_def
        Let_def session_stats_dict_def parser_stats_dict_def sequence_stats_dict_def link_stats_dict_def firmware_health_counters_def
        counter_names_def nis_dict_def counter_dict_def\<close>)
qed

lemma summary_distinct: "distinct (map fst (summary_dict s nis m p50 p99 c))"
  unfolding summary_dict_def by (rule distinct_dict_update) (simp add: metric_dict_def)

text \<open>The log is finalized, and the reader accepts what it leaves.\<close>

definition read_back :: "unit recorder \<Rightarrow> bool" where
  "read_back w \<longleftrightarrow> (\<exists>r. RunReplay plain_log False (recorded_dir w) = Inr r)"

lemma drive_finalizes:
  assumes "logs 5 w" "json_ok (V_Dict summary)" "distinct (map fst summary)"
  shows "\<exists>w'. ce_finalize drive_env summary w = (Inr ''rest'', w') \<and> read_back w'"
proof -
  obtain l d where l: "rc_logger w = Some l" "logging_run plain_log drive_scenario l d" "\<not> lg_closed l" "lg_files_open l"
    "5 \<le> lg_budget l"
    using assms(1) by (auto simp: logs_def)
  obtain n where "lg_budget l = 5 + n" using l(5) by (metis le_iff_add)
  then have "\<exists>l'. finalize plain_log summary l = (Inr (), l')"
    using l(3,4) assms(2)
    by (simp add: finalize_shape flush_files_def close_files_def write_final_def bindM_def file_op_def modifyM_def write_manifest_def
        numeral_eq_Suc)
  then obtain l' where l': "finalize plain_log summary l = (Inr (), l')" by blast
  obtain r where "RunReplay plain_log False (lg_dir l') = Inr r"
    by (rule finalized_reader [OF l(2) l' assms(3)])
  then show ?thesis
    using l(1) l'
    by (auto simp: bindM_def on_logger_def run_name_of_def drive_setup_def read_back_def recorded_dir_def)
qed

lemma drive_finishes:
  assumes "underway 2 5 c"
  shows "\<exists>result c'. finish_run drive_env drive_scenario c = (Inr result, c') \<and> read_back (cl_world c')"
proof -
  have "pl_pending (cl_sensors c) = []" using assms by (simp add: underway_def resting_def)
  then have "drain_pending (cl_sensors c) = (Inr [], cl_sensors c)"
    by (cases "cl_sensors c") (simp add: drain_pending_def deliver_def)
  then have drained: "on_sensors drain_pending c = (Inr [], c)" by (simp add: on_sensors_def)
  have nis: "nis_totals_of (cl_health_samples c) = Inr no_nis" using assms by (simp add: underway_def nis_totals_of_def)
  obtain m where m: "evaluate_run drive_env drive_scenario no_nis c = Inr m" "json_ok (V_Dict (metric_dict m))"
    using drive_evaluates [OF assms] by blast
  obtain p50 p99 where p: "percentile [0, 0] 0x3FE0000000000000 = Inr p50" "isfinite p50"
    "percentile [0, 0] 0x3FEFAE147AE147AE = Inr p99" "isfinite p99"
    by (rule drive_percentiles)
  have times: "cl_round_trip_ms c = [0, 0]" using assms by (simp add: underway_def numeral_2_eq_2)
  have logs: "logs 5 (cl_world c)" using assms by (simp add: underway_def)
  obtain w where "ce_finalize drive_env (summary_dict drive_scenario no_nis m p50 p99 c) (cl_world c) = (Inr ''rest'', w)" "read_back w"
    using drive_finalizes [OF logs summary_json [OF assms m(2) p(2,4)] summary_distinct] by blast
  moreover have "on_outer (returnM ()) w = (Inr (), w)" by (cases w) (simp add: on_outer_def)
  ultimately show ?thesis
    using drained nis m(1) p(1,3) times
    by (simp add: finish_run_def bindM_def liftM_def on_world_def del: drive_env(6))
qed

section \<open>The whole run\<close>

lemma fresh_session: "\<exists>s. new_session True False = Inr s"
  by (simp add: new_session_def NativeFirmwareTransport_def HostSession_def SequenceTracker_def default_session_config_def
      DeterministicFaultTransport_def guardR_def)

lemma closes: "\<exists>s'. session_close (cil_ops react) s = (Inr (), s')"
  by (simp add: session_close_def cil_ops_def fault_ops_def fault_close_def native_ops_def native_close_def)

lemma drive_route:
  assumes "quiet_session 0 0 s" "sn_state s = ST_ACTIVE" "sn_negotiated_max_payload s = Some 128" "sn_tx_sequence s = 1"
  shows "\<exists>s'. send_scenario_route greet drive_scenario 0 s = (Inr (), s') \<and> quiet_session 0 0 s'"
proof -
  let ?p = "\<lparr>wp_x_m = 0, wp_y_m = 0, wp_target_speed_mps = 0, wp_acceptance_radius_m = one_hz\<rparr>"
  have "fmax 0x3FA999999999999A one_hz = one_hz"
    by (simp add: fmax_def flt_def f64_key_def f64_neg_def f64_mag_def isnan_def f64_inf_mag_def)
  then have route: "scenario_route drive_scenario = [?p]" by (simp add: scenario_route_def drive_point_def)
  have "payload_ok (P_RouteChunk \<lparr>rc_route_id = 1, rc_start_index = 0, rc_total_count = 1, rc_flags = 3, rc_points = [?p]\<rparr>)"
    by (simp add: route_chunk_ok_def route_head_ok_def u16_def mask_ok_def ROUTE_FLAGS_ALL_def flag_values
        point_ok_def f64_wire_def f64_mag_def flt_max_mag_def)
  from route_link [OF assms this] show ?thesis by (simp add: send_scenario_route_def route)
qed

lemma drive_runs:
  "\<exists>result w c. run_closed_loop drive_env drive_scenario True False w0 = (Inr result, w, Some c) \<and> read_back w"
proof -
  obtain p where p: "SensorPipeline example_env one_hz one_parameters drive_sensors [] [] 7 = Inr p" "resting 0 p"
    by (rule resting_starts)
  obtain w1 where w1: "open_logger plain_log drive_scenario drive_setup w0 = (Inr (), w1)" "logs 90 w1"
    using drive_opens by blast
  obtain timeout where timeout: "command_timeout_steps one_hz = Inr timeout" by (rule drive_timeout)
  obtain s where s: "new_session True False = Inr s" using fresh_session by blast
  let ?c0 = "initial_cil s p w1 initial_vehicle"
  obtain e s2 where hello: "cil_handshake greet s = (Inr [e], s2)" "ev_payload e = P_HelloAck demo_ack"
    and s2: "quiet_session 0 0 s2" "sn_state s2 = ST_ACTIVE" "sn_negotiated_max_payload s2 = Some 128" "sn_tx_sequence s2 = 1"
    using handshake_link [OF s] by blast
  obtain s3 where route: "send_scenario_route greet drive_scenario 0 s2 = (Inr (), s3)" "quiet_session 0 0 s3"
    using drive_route [OF s2] by blast
  have "underway 0 (10 + 5) (?c0\<lparr>cl_session := s3\<rparr>)"
    using p(2) logs_mono [OF w1(2), of 15] by (simp add: underway_def initial_cil_def)
  from drive_loop [OF this, of timeout] route(2) obtain c1 where
    loop: "cil_loop drive_env drive_scenario timeout 1 [0..<nat 1 + 1] (?c0\<lparr>cl_session := s3\<rparr>) = (Inr (), c1)" "underway 2 5 c1"
    by (auto simp: initial_cil_def)
  obtain result c2 where finish: "finish_run drive_env drive_scenario c1 = (Inr result, c2)" "read_back (cl_world c2)"
    using drive_finishes [OF loop(2)] by blast
  have "session_event_records 0 0 [e] = []" by (simp add: session_event_records_def hello(2))
  moreover have "cl_session ?c0 = s" "?c0\<lparr>cl_session := s2\<rparr>\<lparr>cl_session := s3\<rparr> = ?c0\<lparr>cl_session := s3\<rparr>"
    by (simp_all add: initial_cil_def)
  ultimately have "cil_body drive_env drive_scenario timeout ?c0 = (Inr result, c2)"
    using hello(1) route(1) loop(1) finish(1) by (simp add: cil_body_def bindM_def on_session_def liftM_def drive_steps)
  moreover obtain s4 where "session_close (cil_ops greet) (cl_session c2) = (Inr (), s4)" using closes by blast
  ultimately have "cil_guarded drive_env (cil_body drive_env drive_scenario timeout) ?c0 = (Inr result, c2\<lparr>cl_session := s4\<rparr>)"
    by (simp add: cil_guarded_def on_session_def)
  moreover have "check_route drive_scenario = Inr ()" by (simp add: check_route_def guardR_def)
  moreover have "ce_logging drive_env" by simp
  ultimately show ?thesis
    using p(1) w1(1) timeout s finish(2) by (simp add: run_closed_loop_def)
qed

section \<open>Instances\<close>

definition new_world :: "unit recorder" where
  "new_world = \<lparr>rc_logger = None, rc_failed_dir = None, rc_outer = ()\<rparr>"


theorem plant_follows_commands_witness:
  "\<exists>result w c. run_closed_loop drive_env drive_scenario True False new_world = (Inr result, w, Some c)
     \<and> length (ci_plant_samples result) = 2 \<and> list_all (\<lambda>x. within_limits one_parameters (sm_state x)) (ci_plant_samples result)"
proof -
  obtain result w c where run: "run_closed_loop drive_env drive_scenario True False new_world = (Inr result, w, Some c)"
    using drive_runs by blast
  have "scenario_ok drive_scenario" using parsed_scenario [OF drive_parses] accepted_ok by blast
  with plant_follows_commands [OF run] run show ?thesis by (auto simp: drive_steps)
qed



end
