(* ===== verification/Campaign.thy ===== *)
theory Campaign
  imports Recorded_Run Metrics Py_Decimal
begin

text \<open>
  \<^verbatim>\<open>campaign.py\<close>: one closed-loop run for every pair of a navigation mode and a seed, the records of the
  runs, their aggregate and the acceptance verdict; and the inspection of a campaign's directory later.
  A record is a dict. Running one scenario is \<open>ca_run\<close> of the environment; \<open>closed_loop_env\<close> is that
  environment with \<^verbatim>\<open>run_closed_loop\<close>. The file operations of the campaign itself may fail, as those of
  a run log may.
\<close>

section \<open>Runs of a campaign\<close>

definition DEFAULT_MODES :: "string list" where
  "DEFAULT_MODES = [''gnss_aided'', ''landmark_aided'', ''dead_reckoning'']"

text \<open>The values are 1.0, 0.015 and 0.02; a dropout has the default value 0.0.\<close>

definition variant_faults :: "string \<Rightarrow> f64 \<Rightarrow> fault_spec list result" where
  "variant_faults mode duration =
     bindR (FaultSpec ''imu'' ''bias_yaw_rate_rad_s'' f64_one duration 0x3F8EB851EB851EB8) (\<lambda>bias.
     bindR (FaultSpec ''wheel_speed'' ''scale_error'' f64_one duration 0x3F947AE147AE147B) (\<lambda>scale.
     bindR (if mode \<in> {''landmark_aided'', ''dead_reckoning''}
            then bindR (FaultSpec ''gnss'' ''dropout'' f64_one duration 0) (\<lambda>f. Inr [f]) else Inr []) (\<lambda>gnss.
     bindR (if mode = ''dead_reckoning''
            then bindR (FaultSpec ''landmark'' ''dropout'' f64_one duration 0) (\<lambda>f. Inr [f]) else Inr []) (\<lambda>landmark.
       Inr ([bias, scale] @ gnss @ landmark)))))"

definition navigation_variant :: "scenario \<Rightarrow> string \<Rightarrow> int \<Rightarrow> scenario result" where
  "navigation_variant base mode seed =
     bindR (guardR (mode \<notin> set DEFAULT_MODES) ValueError) (\<lambda>_.
     bindR (guardR (fle (so_duration_s base) f64_one) ValueError) (\<lambda>_.
     bindR (variant_faults mode (so_duration_s base)) (\<lambda>more.
       Scenario (base\<lparr>so_seed := seed, so_faults := so_faults base @ more\<rparr>))))"

definition campaign_run_name :: "string \<Rightarrow> string \<Rightarrow> int \<Rightarrow> string" where
  "campaign_run_name scenario_name mode seed = scenario_name @ ''__'' @ mode @ ''__seed_'' @ pad_int 8 seed"

definition campaign_jobs :: "string list \<Rightarrow> int list \<Rightarrow> (string \<times> int) list" where
  "campaign_jobs modes seeds = concat (map (\<lambda>mode. map (\<lambda>seed. (mode, seed)) seeds) modes)"

section \<open>Figures of a run\<close>

definition summary_groups :: "(string \<times> string) list" where
  "summary_groups =
     [(''session_statistics'', ''session''), (''parser_statistics'', ''parser''), (''sequence_statistics'', ''sequence''),
      (''link_statistics'', ''link''), (''firmware_health_counters'', ''firmware_health'')]"

definition counter_fields :: "string list" where
  "counter_fields =
     concat (map (\<lambda>(prefix, names). map (\<lambda>n. prefix @ ''_'' @ n) names)
       [(''session'', [''tx_packets'', ''tx_bytes'', ''rx_packets'', ''rx_bytes'', ''rx_rejected'', ''rx_payload_errors'',
           ''timeouts'', ''reconnects'', ''transport_errors'']),
        (''parser'', [''bytes_received'', ''frames_received'', ''packets_accepted'', ''empty_delimiters'', ''oversized_frames'',
           ''truncated_frames'', ''cobs_errors'', ''crc_errors'', ''version_errors'', ''type_errors'', ''length_errors'',
           ''other_errors'']),
        (''sequence'', [''accepted'', ''missing'', ''duplicates'', ''out_of_order'', ''stale'']),
        (''link'', [''frames_forwarded'', ''frames_dropped'', ''frames_corrupted'', ''frames_delayed'',
           ''stale_frames_replayed'', ''disconnect_drops'', ''rx_frames_forwarded'', ''rx_frames_dropped'',
           ''rx_frames_corrupted'', ''rx_frames_delayed'', ''rx_stale_frames_replayed'', ''rx_disconnect_drops'']),
        (''firmware_health'', [''rx_frames'', ''rx_crc_errors'', ''rx_decode_errors'', ''rx_missing'', ''rx_duplicates'',
           ''rx_out_of_order'', ''rx_stale'', ''queue_overflows'', ''scheduler_overruns'', ''max_loop_us''])])"

text \<open>\<^verbatim>\<open>math.isfinite\<close> of an int converts it to a float.\<close>

definition number_or_none :: "pyval option \<Rightarrow> pyval result" where
  "number_or_none v =
     (case v of
        Some (V_Int n) \<Rightarrow> bindR (float_of_int n) (\<lambda>_. Inr (V_Int n))
      | Some (V_Float x) \<Rightarrow> Inr (if isfinite x then V_Float x else V_None)
      | _ \<Rightarrow> Inr V_None)"

text \<open>\<^verbatim>\<open>d[key] = _number_or_none(value)\<close> for several keys.\<close>

fun put_numbers :: "pydict \<Rightarrow> (string \<times> pyval option) list \<Rightarrow> pydict result" where
  "put_numbers d [] = Inr d"
| "put_numbers d ((key, v) # rest) =
     bindR (number_or_none v) (\<lambda>x. put_numbers (dict_set key x d) rest)"

definition summary_measurements :: "pydict \<Rightarrow> pydict result" where
  "summary_measurements summary =
     put_numbers []
       ([(''native_process_round_trip_ms_p99'', dict_get ''native_process_round_trip_ms_p99'' summary)]
        @ concat (map (\<lambda>(group, prefix).
            case dict_get group summary of
              Some (V_Dict d) \<Rightarrow> map (\<lambda>(n, v). (prefix @ ''_'' @ n, Some v)) d
            | _ \<Rightarrow> []) summary_groups)
        @ (case dict_get ''nis_statistics'' summary of
             Some (V_Dict nis) \<Rightarrow>
               [(''nis_evaluated_count'', dict_get ''evaluated_count'' nis),
                (''nis_gate_rejected_count'', dict_get ''gate_rejected_count'' nis),
                (''nis_sum'', dict_get ''sum'' nis), (''nis_max'', dict_get ''max'' nis)]
           | _ \<Rightarrow> []))"

section \<open>Records\<close>

definition failed_record :: "string \<Rightarrow> string \<Rightarrow> int \<Rightarrow> string \<Rightarrow> pydict" where
  "failed_record name mode seed error =
     [(''run_name'', V_Str name), (''mode'', V_Str mode), (''seed'', V_Int seed), (''status'', V_Str ''failed''),
      (''error'', V_Str error)]"

definition complete_record :: "string \<Rightarrow> string \<Rightarrow> int \<Rightarrow> cil_result \<Rightarrow> pydict result" where
  "complete_record name mode seed result =
     bindR (summary_measurements (ci_summary result)) (\<lambda>measured.
       Inr (dict_update (dict_update
              [(''run_name'', V_Str name), (''mode'', V_Str mode), (''seed'', V_Int seed), (''status'', V_Str ''complete''),
               (''run_path'', V_Str (case ci_run_path result of Some path \<Rightarrow> path | None \<Rightarrow> name))]
              (metric_dict (ci_metric_summary result))) measured))"

definition record_text :: "string \<Rightarrow> pydict \<Rightarrow> string" where
  "record_text key r = (case dict_get key r of Some (V_Str s) \<Rightarrow> s | _ \<Rightarrow> [])"

abbreviation record_name :: "pydict \<Rightarrow> string" where "record_name \<equiv> record_text ''run_name''"
abbreviation record_status :: "pydict \<Rightarrow> string" where "record_status \<equiv> record_text ''status''"

text \<open>What the machine supplies, and the run of a scenario under a name in the directory of the campaign.\<close>

record 'w campaign_env =
  ca_run :: "scenario \<Rightarrow> string \<Rightarrow> ('w, cil_result) meth"
  ca_artifacts :: "'w \<Rightarrow> string \<Rightarrow> run_dir option"
  ca_log :: log_env
  ca_error_text :: "py_exn \<Rightarrow> string"

text \<open>\<^verbatim>\<open>except Exception\<close> catches what a run raises; a run that does not end is not an exception.\<close>

definition run_job :: "'w campaign_env \<Rightarrow> scenario \<Rightarrow> string \<Rightarrow> int \<Rightarrow> ('w, pydict) meth" where
  "run_job env base mode seed =
     (let name = campaign_run_name (so_name base) mode seed in
      bindM (liftM (navigation_variant base mode seed)) (\<lambda>s w.
        case ca_run env s name w of
          (Inr result, w') \<Rightarrow> (complete_record name mode seed result, w')
        | (Inl e, w') \<Rightarrow>
            if e = Nontermination then (Inl e, w') else (Inr (failed_record name mode seed (ca_error_text env e)), w')))"

fun run_jobs :: "'w campaign_env \<Rightarrow> scenario \<Rightarrow> (string \<times> int) list \<Rightarrow> ('w, pydict list) meth" where
  "run_jobs env base [] = returnM []"
| "run_jobs env base ((mode, seed) # jobs) =
     bindM (run_job env base mode seed) (\<lambda>r. bindM (run_jobs env base jobs) (\<lambda>rs. returnM (r # rs)))"

section \<open>Artifacts\<close>

text \<open>A directory without a manifest is missing, like one that is not there.\<close>

definition run_artifact_status :: "log_env \<Rightarrow> run_dir option \<Rightarrow> string result" where
  "run_artifact_status lenv d =
     (case d of
        None \<Rightarrow> Inr ''missing''
      | Some d \<Rightarrow>
          if rd_manifest d = None then Inr ''missing''
          else
            (case RunReplay lenv False d of
               Inr r \<Rightarrow> Inr ''complete''
             | Inl e \<Rightarrow>
                 if e = IncompleteRunError then Inr ''incomplete''
                 else if e = CorruptRunError \<or> e = OSError \<or> is_ValueError e then Inr ''invalid''
                 else Inl e))"

definition artifact_statuses :: "log_env \<Rightarrow> (string \<Rightarrow> run_dir option) \<Rightarrow> string list \<Rightarrow> (string \<times> string) list result" where
  "artifact_statuses lenv runs names =
     sequenceR (map (\<lambda>n. bindR (run_artifact_status lenv (runs n)) (\<lambda>st. Inr (n, st))) names)"

definition names_with :: "string \<Rightarrow> (string \<times> string) list \<Rightarrow> string list" where
  "names_with status statuses = map fst (filter (\<lambda>(n, st). st = status) statuses)"

text \<open>A complete record whose artifact is not complete loses its status.\<close>

definition demote_record :: "(string \<times> string) list \<Rightarrow> pydict \<Rightarrow> pydict" where
  "demote_record statuses r =
     (if record_status r = ''complete'' then
        (case map_of statuses (record_name r) of
           Some st \<Rightarrow> if st = ''complete'' then r else dict_set ''status'' (V_Str (''artifact_'' @ st)) r
         | None \<Rightarrow> r)
      else r)"

section \<open>Aggregate and comparison\<close>

definition numbers_of :: "pydict list \<Rightarrow> string \<Rightarrow> f64 list result" where
  "numbers_of records name =
     bindR (sequenceR (map (\<lambda>r. number_or_none (dict_get name r)) records)) (\<lambda>vs.
       sequenceR (map finite_number (filter (\<lambda>v. v \<noteq> V_None) vs)))"

definition metric_names :: "string list" where
  "metric_names = [''position_rmse_m'', ''heading_rmse_rad'', ''cross_track_rmse_m'', ''final_stop_error_m'',
     ''final_speed_mps'', ''nis_mean'', ''nis_max'']"

text \<open>\<^verbatim>\<open>float(item[metric])\<close> of the values that are not \<^verbatim>\<open>None\<close>; they are numbers.\<close>

definition float_value :: "pyval \<Rightarrow> f64 result" where
  "float_value v = (case v of V_Float x \<Rightarrow> Inr x | V_Int n \<Rightarrow> float_of_int n | _ \<Rightarrow> Inl TypeError)"

definition metric_values :: "pydict list \<Rightarrow> string \<Rightarrow> f64 list result" where
  "metric_values records metric =
     sequenceR (map float_value (filter (\<lambda>v. v \<noteq> V_None)
       (concat (map (\<lambda>r. case dict_get metric r of Some v \<Rightarrow> [v] | None \<Rightarrow> []) records))))"

definition mean_value :: "f64 list \<Rightarrow> pyval result" where
  "mean_value xs = (if xs = [] then Inr V_None else bindR (py_fsum xs) (\<lambda>t. Inr (V_Float (fdiv_nat t (length xs)))))"

definition max_value :: "f64 list \<Rightarrow> pyval" where
  "max_value xs = (case xs of [] \<Rightarrow> V_None | x # rest \<Rightarrow> V_Float (foldl fmax x rest))"

definition record_success :: "pydict \<Rightarrow> bool" where
  "record_success r \<longleftrightarrow> dict_get ''success'' r = Some (V_Bool True)"

text \<open>The entries of one mode's row, in the order in which they are set.\<close>

definition metric_entries :: "pydict list \<Rightarrow> string \<Rightarrow> pydict result" where
  "metric_entries values metric =
     bindR (metric_values values metric) (\<lambda>xs. bindR (mean_value xs) (\<lambda>mean.
       Inr [(metric @ ''_mean'', mean), (metric @ ''_max'', max_value xs)]))"

definition latency_entries :: "pydict list \<Rightarrow> pydict result" where
  "latency_entries values =
     bindR (numbers_of values ''native_process_round_trip_ms_p99'') (\<lambda>xs. bindR (mean_value xs) (\<lambda>mean.
       Inr [(''native_process_round_trip_ms_p99_mean'', mean), (''native_process_round_trip_ms_p99_max'', max_value xs)]))"

definition counter_entries :: "pydict list \<Rightarrow> string \<Rightarrow> pydict result" where
  "counter_entries values counter =
     bindR (numbers_of values counter) (\<lambda>xs.
       Inr [(counter @ ''_total'', if xs = [] then V_None else V_Float (py_sum xs)), (counter @ ''_max'', max_value xs)])"

definition nis_entries :: "pydict list \<Rightarrow> string \<Rightarrow> pydict result" where
  "nis_entries values field =
     bindR (numbers_of values field) (\<lambda>xs.
     bindR (if xs = [] then Inr V_None else bindR (py_fsum xs) (\<lambda>t. Inr (V_Float t))) (\<lambda>total.
       Inr [(field @ ''_total'', total)]))"

definition mode_row :: "pydict list \<Rightarrow> pydict result" where
  "mode_row values =
     bindR (sequenceR (map (metric_entries values) metric_names)) (\<lambda>metrics.
     bindR (latency_entries values) (\<lambda>latency.
     bindR (sequenceR (map (counter_entries values) counter_fields)) (\<lambda>counters.
     bindR (sequenceR (map (nis_entries values) [''nis_evaluated_count'', ''nis_gate_rejected_count'', ''nis_sum''])) (\<lambda>nis.
     bindR (numbers_of values ''nis_max'') (\<lambda>maxima.
       Inr (dict_update [(''runs'', V_Int (int (length values))),
              (''successes'', V_Int (int (length (filter record_success values))))]
            (concat metrics @ latency @ concat counters @ concat nis @ [(''nis_max_max'', max_value maxima)])))))))"

definition aggregate_records :: "pydict list \<Rightarrow> string list \<Rightarrow> pydict result" where
  "aggregate_records completed modes =
     bindR (sequenceR (map (\<lambda>mode. mode_row (filter (\<lambda>r. record_text ''mode'' r = mode) completed)) modes)) (\<lambda>rows.
       Inr (zip modes (map V_Dict rows)))"

text \<open>The last record of a pair counts.\<close>

definition position_error_of :: "pydict list \<Rightarrow> string \<Rightarrow> int \<Rightarrow> f64 result option" where
  "position_error_of completed mode seed =
     (case find (\<lambda>r. record_text ''mode'' r = mode \<and> dict_get ''seed'' r = Some (V_Int seed)) (rev completed) of
        None \<Rightarrow> None
      | Some r \<Rightarrow> Some (case dict_get ''position_rmse_m'' r of None \<Rightarrow> Inl KeyError | Some v \<Rightarrow> float_value v))"

fun paired_differences :: "pydict list \<Rightarrow> int list \<Rightarrow> f64 list result" where
  "paired_differences completed [] = Inr []"
| "paired_differences completed (seed # seeds) =
     (case (position_error_of completed ''landmark_aided'' seed, position_error_of completed ''dead_reckoning'' seed) of
        (Some landmark, Some dead) \<Rightarrow>
          bindR dead (\<lambda>d. bindR landmark (\<lambda>l. bindR (paired_differences completed seeds) (\<lambda>rest. Inr (fsub d l # rest))))
      | _ \<Rightarrow> paired_differences completed seeds)"

definition landmark_comparison :: "pydict list \<Rightarrow> int list \<Rightarrow> pydict result" where
  "landmark_comparison completed seeds =
     bindR (paired_differences completed seeds) (\<lambda>paired.
     bindR (mean_value paired) (\<lambda>mean.
     bindR (if paired = [] then Inr V_None else bindR (py_fsum paired) (\<lambda>t. Inr (V_Bool (flt 0 t)))) (\<lambda>lower.
       Inr [(''paired_seed_count'', V_Int (int (length paired))),
            (''landmark_lower_rmse_seed_count'', V_Int (int (length (filter (flt 0) paired)))),
            (''mean_dead_minus_landmark_position_rmse_m'', mean), (''landmark_lower_mean_position_rmse'', lower)])))"

section \<open>Acceptance\<close>

definition with_prefix :: "string \<Rightarrow> string list \<Rightarrow> string list" where
  "with_prefix category names = map (\<lambda>n. category @ '':'' @ n) names"

definition artifact_failures :: "string list \<Rightarrow> string list \<Rightarrow> string list \<Rightarrow> string list" where
  "artifact_failures missing incomplete invalid =
     with_prefix ''artifact_missing'' missing @ with_prefix ''artifact_incomplete'' incomplete
     @ with_prefix ''artifact_invalid'' invalid"

text \<open>\<^verbatim>\<open>by_name[name]\<close>: the last record of a name.\<close>

definition record_by_name :: "pydict list \<Rightarrow> string \<Rightarrow> pydict option" where
  "record_by_name records name = find (\<lambda>r. record_name r = name) (rev records)"

definition acceptance_failures_of ::
  "string list \<Rightarrow> pydict list \<Rightarrow> string list \<Rightarrow> string list \<Rightarrow> string list \<Rightarrow> string list \<Rightarrow> pydict \<Rightarrow> string list" where
  "acceptance_failures_of names records missing artifact_missing artifact_incomplete artifact_invalid comparison =
     sorted_set
       (with_prefix ''missing_record'' missing
        @ with_prefix ''execution_failed''
            (filter (\<lambda>n. \<exists>r. record_by_name records n = Some r \<and> record_status r = ''failed'') (map record_name records))
        @ artifact_failures artifact_missing artifact_incomplete artifact_invalid
        @ with_prefix ''metric_failed''
            (filter (\<lambda>n. case record_by_name records n of None \<Rightarrow> False
                          | Some r \<Rightarrow> record_status r = ''complete'' \<and> \<not> record_success r) names)
        @ (if dict_get ''landmark_lower_mean_position_rmse'' comparison = Some (V_Bool True) then []
           else [''landmark_mean_position_rmse_not_better_than_dead_reckoning'']))"

section \<open>The directory of a campaign\<close>

text \<open>A row of \<^verbatim>\<open>metrics.csv\<close> has the values of a record, or nothing, under the names of the header.\<close>

record campaign_dir =
  cd_marker :: bool
  cd_config :: "pyval option"
  cd_summary :: "pyval option"
  cd_metrics :: "pyval option list list option"

record 'w campaign_state =
  cs_dir :: campaign_dir
  cs_budget :: nat
  cs_world :: 'w

definition campaign_op :: "(campaign_dir \<Rightarrow> campaign_dir) \<Rightarrow> ('w campaign_state, unit) meth" where
  "campaign_op f c =
     (case cs_budget c of
        0 \<Rightarrow> (Inl OSError, c)
      | Suc n \<Rightarrow> (Inr (), c\<lparr>cs_dir := f (cs_dir c), cs_budget := n\<rparr>))"

text \<open>\<^verbatim>\<open>_atomic_json\<close> leaves the file whole or as it was.\<close>

definition atomic_json :: "pyval \<Rightarrow> (pyval \<Rightarrow> campaign_dir \<Rightarrow> campaign_dir) \<Rightarrow> ('w campaign_state, unit) meth" where
  "atomic_json v put = bindM (liftM (guardR (\<not> json_ok v) ValueError)) (\<lambda>_. campaign_op (put (json_value v)))"

definition metrics_fields :: "string list" where
  "metrics_fields =
     [''run_name'', ''mode'', ''seed'', ''status'', ''success'', ''position_rmse_m'', ''heading_rmse_rad'',
      ''cross_track_rmse_m'', ''cross_track_max_m'', ''final_stop_error_m'', ''final_speed_mps'', ''nis_mean'', ''nis_max'',
      ''native_process_round_trip_ms_p99''] @ counter_fields
     @ [''nis_evaluated_count'', ''nis_gate_rejected_count'', ''nis_sum'', ''nis_max'', ''error'']"

definition metrics_rows :: "pydict list \<Rightarrow> pyval option list list" where
  "metrics_rows records = map (\<lambda>r. map (\<lambda>f. dict_get f r) metrics_fields) records"

definition on_runs :: "('w, 'a) meth \<Rightarrow> ('w campaign_state, 'a) meth" where
  "on_runs m c = (case m (cs_world c) of (r, w) \<Rightarrow> (r, c\<lparr>cs_world := w\<rparr>))"

record campaign_result =
  cr_expected_runs :: nat
  cr_completed_runs :: nat
  cr_failed_runs :: nat
  cr_missing_runs :: "string list"
  cr_aggregate :: pydict
  cr_acceptance_passed :: bool
  cr_acceptance_failures :: "string list"
  cr_artifact_missing :: "string list"
  cr_artifact_incomplete :: "string list"
  cr_artifact_invalid :: "string list"

definition campaign_config :: "scenario \<Rightarrow> string list \<Rightarrow> int list \<Rightarrow> string list \<Rightarrow> pydict" where
  "campaign_config base modes seeds names =
     [(''campaign_format_version'', V_Int 1), (''scenario'', V_Str (so_name base)), (''modes'', V_List (map V_Str modes)),
      (''seeds'', V_List (map V_Int seeds)), (''expected_runs'', V_List (map V_Str names))]"

text \<open>The checks before anything is written; \<open>executable\<close> says that the firmware is a file.\<close>

definition check_campaign :: "scenario \<Rightarrow> string \<Rightarrow> int list \<Rightarrow> string list \<Rightarrow> bool \<Rightarrow> unit result" where
  "check_campaign base name seeds modes executable =
     bindR (guardR (seeds = [] \<or> \<not> distinct seeds) ValueError) (\<lambda>_.
     bindR (guardR (list_ex (\<lambda>s. s < 0 \<or> 2 ^ 64 - 1 < s) seeds) ValueError) (\<lambda>_.
     bindR (guardR (modes = [] \<or> \<not> distinct modes) ValueError) (\<lambda>_.
     bindR (sequenceR (map (\<lambda>mode. navigation_variant base mode (hd seeds)) modes)) (\<lambda>_.
     bindR (guardR (name = [] \<or> CHR ''/'' \<in> set name \<or> name = ''.'') ValueError) (\<lambda>_.
       guardR (\<not> executable) ValueError)))))"

section \<open>Running a campaign\<close>

text \<open>What is made of the records once every run has ended.\<close>

definition judge_campaign ::
  "string list \<Rightarrow> string list \<Rightarrow> int list \<Rightarrow> pydict list \<Rightarrow> (string \<times> string) list \<Rightarrow> (campaign_result \<times> pydict \<times> pydict list) result" where
  "judge_campaign names modes seeds raw_records statuses =
     (let missing = filter (\<lambda>n. n \<notin> set (map record_name raw_records)) names;
          records = map (demote_record statuses) raw_records;
          completed = filter (\<lambda>r. record_status r = ''complete'') records;
          failed = filter (\<lambda>r. record_status r = ''failed'') records;
          artifact_missing = names_with ''missing'' statuses;
          artifact_incomplete = names_with ''incomplete'' statuses;
          artifact_invalid = names_with ''invalid'' statuses
      in
      bindR (aggregate_records completed modes) (\<lambda>aggregate.
      bindR (landmark_comparison completed seeds) (\<lambda>comparison.
        let failures = acceptance_failures_of names records missing artifact_missing artifact_incomplete artifact_invalid comparison;
            passed = (failures = []);
            texts = (\<lambda>xs. V_List (map V_Str xs))
        in Inr
          (\<lparr>cr_expected_runs = length names, cr_completed_runs = length completed, cr_failed_runs = length failed,
            cr_missing_runs = missing, cr_aggregate = aggregate, cr_acceptance_passed = passed,
            cr_acceptance_failures = failures, cr_artifact_missing = artifact_missing,
            cr_artifact_incomplete = artifact_incomplete, cr_artifact_invalid = artifact_invalid\<rparr>,
           [(''status'', V_Str (if failed = [] \<and> missing = [] \<and> artifact_missing = [] \<and> artifact_incomplete = []
               \<and> artifact_invalid = [] \<and> passed then ''complete'' else ''failed'')),
            (''expected_runs'', V_Int (int (length names))), (''completed_runs'', V_Int (int (length completed))),
            (''failed_runs'', V_Int (int (length failed))), (''missing_runs'', texts missing),
            (''artifact_missing_runs'', texts artifact_missing), (''artifact_incomplete_runs'', texts artifact_incomplete),
            (''artifact_invalid_runs'', texts artifact_invalid), (''acceptance_passed'', V_Bool passed),
            (''acceptance_failures'', texts failures), (''aggregate'', V_Dict aggregate),
            (''landmark_vs_dead_reckoning'', V_Dict comparison), (''records'', V_List (map V_Dict records))],
           records))))"

definition campaign_body ::
  "'w campaign_env \<Rightarrow> scenario \<Rightarrow> int list \<Rightarrow> string list \<Rightarrow> ('w campaign_state, campaign_result) meth" where
  "campaign_body env base seeds modes =
     (let names = map (\<lambda>(mode, seed). campaign_run_name (so_name base) mode seed) (campaign_jobs modes seeds) in
      bindM (campaign_op (\<lambda>d. d\<lparr>cd_marker := True\<rparr>)) (\<lambda>_.
      bindM (atomic_json (V_Dict (campaign_config base modes seeds names)) (\<lambda>v d. d\<lparr>cd_config := Some v\<rparr>)) (\<lambda>_.
      bindM (on_runs (run_jobs env base (campaign_jobs modes seeds))) (\<lambda>raw.
      bindM (\<lambda>c. (artifact_statuses (ca_log env) (ca_artifacts env (cs_world c)) names, c)) (\<lambda>statuses.
      bindM (liftM (judge_campaign names modes seeds raw statuses)) (\<lambda>(result, summary, records).
      bindM (campaign_op (\<lambda>d. d\<lparr>cd_metrics := Some (metrics_rows records)\<rparr>)) (\<lambda>_.
      bindM (atomic_json (V_Dict summary) (\<lambda>v d. d\<lparr>cd_summary := Some v\<rparr>)) (\<lambda>_.
      bindM (campaign_op (\<lambda>d. d\<lparr>cd_marker := False\<rparr>)) (\<lambda>_. returnM result)))))))))"

definition new_campaign :: campaign_dir where
  "new_campaign = \<lparr>cd_marker = False, cd_config = None, cd_summary = None, cd_metrics = None\<rparr>"

text \<open>
  \<^verbatim>\<open>run_campaign\<close>; \<open>exists\<close> says that the directory is there already. The result or exception, and the
  directory with its world if it was made.
\<close>

definition run_campaign ::
  "'w campaign_env \<Rightarrow> scenario \<Rightarrow> string \<Rightarrow> int list \<Rightarrow> string list \<Rightarrow> bool \<Rightarrow> bool \<Rightarrow> nat \<Rightarrow> 'w \<Rightarrow>
     campaign_result result \<times> 'w campaign_state option" where
  "run_campaign env base name seeds modes executable exists budget w =
     (case bindR (check_campaign base name seeds modes executable) (\<lambda>_. guardR exists OSError) of
        Inl e \<Rightarrow> (Inl e, None)
      | Inr _ \<Rightarrow>
          (case campaign_body env base seeds modes \<lparr>cs_dir = new_campaign, cs_budget = budget, cs_world = w\<rparr> of
             (r, c) \<Rightarrow> (r, Some c)))"

section \<open>Inspecting a campaign\<close>

text \<open>\<^verbatim>\<open>V_Other\<close> is a text that is not JSON.\<close>

definition read_campaign_json :: "pyval option \<Rightarrow> pydict result" where
  "read_campaign_json v =
     (case v of
        None \<Rightarrow> Inl OSError
      | Some V_Other \<Rightarrow> Inl JSONDecodeError
      | Some (V_Dict d) \<Rightarrow> Inr d
      | Some _ \<Rightarrow> Inl ValueError)"

fun is_text :: "pyval \<Rightarrow> bool" where
  "is_text (V_Str _) = True"
| "is_text _ = False"

fun text_of :: "pyval \<Rightarrow> string" where
  "text_of (V_Str s) = s"
| "text_of _ = []"

definition expected_names :: "pydict \<Rightarrow> string list result" where
  "expected_names config =
     (case dict_get ''expected_runs'' config of
        Some (V_List vs) \<Rightarrow>
          bindR (guardR (\<not> list_all is_text vs) ValueError) (\<lambda>_.
          let names = map text_of vs in
          bindR (guardR (list_ex (\<lambda>n. n = [] \<or> CHR ''/'' \<in> set n \<or> n \<in> {''.'', ''..''}) names) ValueError) (\<lambda>_.
          bindR (guardR (\<not> distinct names) ValueError) (\<lambda>_. Inr names)))
      | _ \<Rightarrow> Inl ValueError)"

definition inspected_summary :: "campaign_dir \<Rightarrow> string list \<Rightarrow> pydict result" where
  "inspected_summary d names =
     (if cd_summary d \<noteq> None then read_campaign_json (cd_summary d)
      else if cd_marker d then
        Inr [(''status'', V_Str ''incomplete''), (''expected_runs'', V_Int (int (length names))),
             (''completed_runs'', V_Int 0), (''failed_runs'', V_None), (''missing_runs'', V_List (map V_Str names))]
      else Inl ValueError)"

text \<open>Missing, incomplete, invalid and complete runs. A run without a manifest may be incomplete too.\<close>

fun inspect_runs :: "log_env \<Rightarrow> (string \<Rightarrow> run_dir option) \<Rightarrow> string list \<Rightarrow> (string list \<times> string list \<times> string list \<times> nat) result" where
  "inspect_runs lenv runs [] = Inr ([], [], [], 0)"
| "inspect_runs lenv runs (n # names) =
     bindR (run_artifact_status lenv (runs n)) (\<lambda>st.
     bindR (inspect_runs lenv runs names) (\<lambda>(missing, incomplete, invalid, count).
       if st = ''missing'' then
         Inr (n # missing, (case runs n of Some d \<Rightarrow> if rd_marker d then n # incomplete else incomplete | None \<Rightarrow> incomplete),
              invalid, count)
       else if st = ''incomplete'' then Inr (missing, n # incomplete, invalid, count)
       else if st = ''invalid'' then Inr (missing, incomplete, n # invalid, count)
       else Inr (missing, incomplete, invalid, count + 1)))"

text \<open>\<^verbatim>\<open>list(v)\<close>: the characters of a string, the keys of a dict.\<close>

definition py_list :: "pyval \<Rightarrow> pyval list result" where
  "py_list v =
     (case v of
        V_List vs \<Rightarrow> Inr vs
      | V_Str s \<Rightarrow> Inr (map (\<lambda>c. V_Str [c]) s)
      | V_Dict d \<Rightarrow> Inr (map (V_Str \<circ> fst) d)
      | _ \<Rightarrow> Inl TypeError)"

fun truthy :: "pyval \<Rightarrow> bool" where
  "truthy V_None = False"
| "truthy (V_Bool b) = b"
| "truthy (V_Int n) = (n \<noteq> 0)"
| "truthy (V_Float x) = (f64_mag x \<noteq> 0)"
| "truthy (V_Str s) = (s \<noteq> [])"
| "truthy (V_List vs) = (vs \<noteq> [])"
| "truthy (V_Dict d) = (d \<noteq> [])"
| "truthy V_Other = True"

definition recorded_failures :: "pydict \<Rightarrow> string list result" where
  "recorded_failures summary =
     bindR (py_list (get_or summary ''acceptance_failures'' (V_List []))) (\<lambda>vs.
       Inr (if list_all is_text vs then map text_of vs else [''campaign_summary_acceptance_invalid'']))"

definition inspect_campaign :: "log_env \<Rightarrow> campaign_dir \<Rightarrow> (string \<Rightarrow> run_dir option) \<Rightarrow> pydict result" where
  "inspect_campaign lenv d runs =
     bindR (read_campaign_json (cd_config d)) (\<lambda>config.
     bindR (expected_names config) (\<lambda>names.
     bindR (inspected_summary d names) (\<lambda>summary0.
     bindR (inspect_runs lenv runs names) (\<lambda>(missing, incomplete, invalid, count).
     let present = cd_summary d \<noteq> None; texts = (\<lambda>xs. V_List (map V_Str xs));
         summary = (if present then summary0
                    else dict_set ''missing_runs'' (texts (sort missing))
                           (dict_set ''completed_runs'' (V_Int (int count)) summary0)) in
     bindR (recorded_failures summary) (\<lambda>recorded.
     let failures = sorted_set (recorded @ artifact_failures missing incomplete invalid)
                      @ (if present then [] else [''campaign_incomplete'']);
         passed = (truthy (get_or summary ''acceptance_passed'' (V_Bool False)) \<and> failures = [])
     in Inr (dict_update summary
          [(''artifact_missing_runs'', texts (sort missing)), (''artifact_incomplete_runs'', texts (sorted_set incomplete)),
           (''artifact_invalid_runs'', texts (sort invalid)), (''campaign_config_present'', V_Bool True),
           (''campaign_summary_present'', V_Bool present), (''campaign_incomplete'', V_Bool (cd_marker d)),
           (''acceptance_passed'', V_Bool passed), (''acceptance_failures'', texts (sorted_set failures))]))))))"

section \<open>With the closed loop\<close>

text \<open>
  \<^verbatim>\<open>run_closed_loop(scenario, output_root=path, run_name=name)\<close>: the run opens its log under its name; the
  world holds the directories of the runs and the clock.
\<close>

record 'y campaign_world =
  cw_runs :: "string \<Rightarrow> run_dir option"
  cw_outer :: 'y

definition left_dir :: "'y recorder \<Rightarrow> run_dir option" where
  "left_dir w = (case rc_logger w of Some l \<Rightarrow> Some (lg_dir l) | None \<Rightarrow> rc_failed_dir w)"

definition closed_loop_run ::
  "'f reaction \<Rightarrow> 'r sensor_env \<Rightarrow> log_env \<Rightarrow> log_setup \<Rightarrow> ('y \<Rightarrow> int \<times> 'y) \<Rightarrow> ('y, unit) meth \<Rightarrow> bool \<Rightarrow> 'f \<Rightarrow>
     scenario \<Rightarrow> string \<Rightarrow> ('y campaign_world, cil_result) meth" where
  "closed_loop_run react sensors lenv u clock_of dashboard_of runnable f s name w =
     (let setup = u\<lparr>lu_run_name := Some name, lu_exists := cw_runs w name \<noteq> None\<rparr> in
      case run_closed_loop (recording_env react sensors lenv s setup clock_of dashboard_of) s runnable f
             \<lparr>rc_logger = None, rc_failed_dir = None, rc_outer = cw_outer w\<rparr> of
        (r, w', _) \<Rightarrow>
          (r, w\<lparr>cw_runs := (case left_dir w' of Some d \<Rightarrow> (cw_runs w)(name \<mapsto> d) | None \<Rightarrow> cw_runs w), cw_outer := rc_outer w'\<rparr>))"

definition closed_loop_env ::
  "'f reaction \<Rightarrow> 'r sensor_env \<Rightarrow> log_env \<Rightarrow> log_setup \<Rightarrow> ('y \<Rightarrow> int \<times> 'y) \<Rightarrow> ('y, unit) meth \<Rightarrow> bool \<Rightarrow> 'f \<Rightarrow>
     (py_exn \<Rightarrow> string) \<Rightarrow> 'y campaign_world campaign_env" where
  "closed_loop_env react sensors lenv u clock_of dashboard_of runnable f error_text =
     \<lparr>ca_run = closed_loop_run react sensors lenv u clock_of dashboard_of runnable f, ca_artifacts = cw_runs, ca_log = lenv,
      ca_error_text = error_text\<rparr>"

end
