(* ===== verification/Campaign_Laws.thy ===== *)
theory Campaign_Laws
  imports Campaign
begin

text \<open>
  What a campaign promises: every run of a mode and a seed has its own name and one record, whatever the
  runs raise; an accepted campaign is one whose every run returned, met its thresholds and left a log
  that can be replayed; and a later inspection of the directory comes to the same verdict.
\<close>

declare json_value.simps(2) [simp del]

section \<open>Names\<close>

lemma run_name_inj:
  assumes "m \<in> set DEFAULT_MODES" "m' \<in> set DEFAULT_MODES" "0 \<le> s" "0 \<le> s'"
    and "campaign_run_name n m s = campaign_run_name n m' s'"
  shows "m = m' \<and> s = s'"
proof -
  have eq: "m @ ''__seed_'' @ pad_int 8 s = m' @ ''__seed_'' @ pad_int 8 s'"
    using assms(5) by (simp add: campaign_run_name_def)
  then have "m = m'" using assms(1,2) by (auto simp: DEFAULT_MODES_def)
  with eq have "pad_int 8 s = pad_int 8 s'" by simp
  with assms(3,4) \<open>m = m'\<close> show ?thesis using pad_int_inj by blast
qed

lemma set_jobs: "set (campaign_jobs modes seeds) = set modes \<times> set seeds"
  by (auto simp: campaign_jobs_def)

lemma length_jobs: "length (campaign_jobs modes seeds) = length modes * length seeds"
  by (induction modes) (simp_all add: campaign_jobs_def)

lemma distinct_jobs: "distinct modes \<Longrightarrow> distinct seeds \<Longrightarrow> distinct (campaign_jobs modes seeds)"
proof (induction modes)
  case (Cons m modes)
  have "distinct (map (\<lambda>seed. (m, seed)) seeds)" using Cons.prems(2) by (simp add: distinct_map inj_on_def)
  with Cons show ?case by (auto simp: campaign_jobs_def)
qed (simp add: campaign_jobs_def)

abbreviation job_name :: "scenario \<Rightarrow> string \<times> int \<Rightarrow> string" where
  "job_name base \<equiv> \<lambda>(mode, seed). campaign_run_name (so_name base) mode seed"

lemma variant_mode: "navigation_variant base mode seed = Inr s \<Longrightarrow> mode \<in> set DEFAULT_MODES \<and> scenario_name_ok (so_name base)"
  by (auto simp: navigation_variant_def Scenario_def bindR_eq_Inr)

lemma checked_campaign:
  assumes "check_campaign base name seeds modes executable = Inr ()"
  shows "distinct seeds" "distinct modes" "seeds \<noteq> []" "modes \<noteq> []" "\<forall>s\<in>set seeds. 0 \<le> s" "set modes \<subseteq> set DEFAULT_MODES"
    "scenario_name_ok (so_name base)"
proof -
  show "distinct seeds" "distinct modes" "seeds \<noteq> []" "modes \<noteq> []" "\<forall>s\<in>set seeds. 0 \<le> s"
    using assms by (auto simp: check_campaign_def bindR_eq_Inr list_ex_iff)
  obtain ss where "sequenceR (map (\<lambda>mode. navigation_variant base mode (hd seeds)) modes) = Inr ss"
    using assms by (auto simp: check_campaign_def bindR_eq_Inr)
  then have ss: "map (\<lambda>mode. navigation_variant base mode (hd seeds)) modes = map Inr ss" by (simp add: sequenceR_eq_Inr)
  have "\<exists>s. navigation_variant base m (hd seeds) = Inr s" if "m \<in> set modes" for m
  proof -
    have "navigation_variant base m (hd seeds) \<in> set (map Inr ss)" using that by (simp flip: ss)
    then show ?thesis by auto
  qed
  with \<open>modes \<noteq> []\<close> show "set modes \<subseteq> set DEFAULT_MODES" "scenario_name_ok (so_name base)"
    using variant_mode by (blast, metis list.set_sel(1))
qed

lemma distinct_names:
  assumes "check_campaign base name seeds modes executable = Inr ()"
  shows "distinct (map (job_name base) (campaign_jobs modes seeds))"
proof -
  note c = checked_campaign [OF assms]
  have "inj_on (job_name base) (set (campaign_jobs modes seeds))"
  proof (rule inj_onI)
    fix a b
    assume "a \<in> set (campaign_jobs modes seeds)" "b \<in> set (campaign_jobs modes seeds)" "job_name base a = job_name base b"
    moreover obtain m s m' s' where "a = (m, s)" "b = (m', s')" by fastforce
    ultimately show "a = b" using c(5,6) run_name_inj [of m m' s s' "so_name base"] by (simp add: set_jobs subset_iff)
  qed
  then show ?thesis using distinct_jobs [OF c(2,1)] by (simp add: distinct_map)
qed

section \<open>The runs\<close>

text \<open>Keys of the figures of a run: none of them is a field of the record itself.\<close>

lemma put_numbers_get: "put_numbers d kvs = Inr d' \<Longrightarrow> k \<notin> set (map fst kvs) \<Longrightarrow> dict_get k d' = dict_get k d"
  by (induction kvs arbitrary: d) (auto simp: bindR_eq_Inr)

definition own_keys :: "string set" where
  "own_keys = {''run_name'', ''mode'', ''seed'', ''status'', ''success'', ''position_rmse_m''}"

lemma measured_keys:
  assumes "summary_measurements summary = Inr d" "k \<in> own_keys"
  shows "dict_get k d = None"
proof -
  have "dict_get k d = dict_get k []"
    using assms(1) unfolding summary_measurements_def
    by (rule put_numbers_get) (use assms(2) in \<open>auto simp: own_keys_def summary_groups_def split: option.splits pyval.splits\<close>)
  then show ?thesis by simp
qed

text \<open>A run writes in its own directory only.\<close>

definition keeps_to_own :: "'w campaign_env \<Rightarrow> bool" where
  "keeps_to_own env \<longleftrightarrow> (\<forall>s name w r w' other. ca_run env s name w = (r, w') \<longrightarrow> other \<noteq> name \<longrightarrow>
     ca_artifacts env w' other = ca_artifacts env w other)"

text \<open>The record of one run: what returned, or that it failed.\<close>

definition returned_record :: "'w campaign_env \<Rightarrow> scenario \<Rightarrow> 'w \<Rightarrow> string \<times> int \<Rightarrow> pydict \<Rightarrow> bool" where
  "returned_record env base w' job r \<longleftrightarrow>
     (\<exists>s result w1 w2. navigation_variant base (fst job) (snd job) = Inr s
        \<and> ca_run env s (job_name base job) w1 = (Inr result, w2)
        \<and> ca_artifacts env w' (job_name base job) = ca_artifacts env w2 (job_name base job)
        \<and> record_status r = ''complete'' \<and> record_success r = me_success (ci_metric_summary result)
        \<and> dict_get ''position_rmse_m'' r = Some (V_Float (me_position_rmse_m (ci_metric_summary result))))"

definition job_record :: "'w campaign_env \<Rightarrow> scenario \<Rightarrow> 'w \<Rightarrow> string \<times> int \<Rightarrow> pydict \<Rightarrow> bool" where
  "job_record env base w' job r \<longleftrightarrow>
     record_name r = job_name base job \<and> record_text ''mode'' r = fst job \<and> dict_get ''seed'' r = Some (V_Int (snd job))
     \<and> (returned_record env base w' job r \<or> record_status r = ''failed'')"

lemma run_job_record:
  assumes "run_job env base mode seed w = (Inr r, w2)"
    and "ca_artifacts env w' (campaign_run_name (so_name base) mode seed) = ca_artifacts env w2 (campaign_run_name (so_name base) mode seed)"
  shows "job_record env base w' (mode, seed) r"
proof -
  let ?name = "campaign_run_name (so_name base) mode seed"
  obtain s where s: "navigation_variant base mode seed = Inr s"
    and rest: "(case ca_run env s ?name w of
        (Inr result, w') \<Rightarrow> (complete_record ?name mode seed result, w')
      | (Inl e, w') \<Rightarrow> if e = Nontermination then (Inl e, w') else (Inr (failed_record ?name mode seed (ca_error_text env e)), w'))
      = (Inr r, w2)"
    using assms(1) by (auto simp: run_job_def Let_def bindM_eq_Inr liftM_def)
  obtain x u where run: "ca_run env s ?name w = (x, u)" by fastforce
  show ?thesis
  proof (cases x)
    case (Inr result)
    then have u: "u = w2" and r: "complete_record ?name mode seed result = Inr r" using rest run by auto
    from r obtain d where d: "summary_measurements (ci_summary result) = Inr d"
      and r: "r = dict_update (dict_update
          [(''run_name'', V_Str ?name), (''mode'', V_Str mode), (''seed'', V_Int seed), (''status'', V_Str ''complete''),
           (''run_path'', V_Str (case ci_run_path result of Some path \<Rightarrow> path | None \<Rightarrow> ?name))]
          (metric_dict (ci_metric_summary result))) d"
      by (auto simp: complete_record_def bindR_eq_Inr)
    have none: "dict_get k (rev d) = None" if "k \<in> own_keys" for k
      using measured_keys [OF d that] by (simp add: dict_get_def map_of_eq_None_iff)
    have get: "dict_get ''run_name'' r = Some (V_Str ?name)" "dict_get ''mode'' r = Some (V_Str mode)"
      "dict_get ''seed'' r = Some (V_Int seed)" "dict_get ''status'' r = Some (V_Str ''complete'')"
      "dict_get ''success'' r = Some (V_Bool (me_success (ci_metric_summary result)))"
      "dict_get ''position_rmse_m'' r = Some (V_Float (me_position_rmse_m (ci_metric_summary result)))"
      using none by (simp_all add: r dict_get_update own_keys_def metric_dict_def)
    then show ?thesis
      using s run Inr u assms(2)
      by (auto simp: job_record_def returned_record_def record_text_def record_success_def intro!: exI)
  next
    case (Inl e)
    then have "r = failed_record ?name mode seed (ca_error_text env e)" using rest run by (auto split: if_splits)
    then show ?thesis by (simp add: job_record_def record_text_def failed_record_def)
  qed
qed

lemma run_job_others:
  assumes "keeps_to_own env" "run_job env base mode seed w = (x, w')" "other \<noteq> campaign_run_name (so_name base) mode seed"
  shows "ca_artifacts env w' other = ca_artifacts env w other"
proof (cases "navigation_variant base mode seed")
  case (Inr s)
  obtain y u where run: "ca_run env s (campaign_run_name (so_name base) mode seed) w = (y, u)" by fastforce
  then have "w' = u" using assms(2) Inr by (auto simp: run_job_def Let_def bindM_def liftM_def split: sum.splits if_splits)
  with run assms(1,3) show ?thesis unfolding keeps_to_own_def by blast
qed (use assms(2) in \<open>simp add: run_job_def Let_def bindM_def liftM_def\<close>)

lemma run_jobs_records:
  assumes "keeps_to_own env" "distinct (map (job_name base) jobs)" "run_jobs env base jobs w = (Inr rs, w')"
  shows "list_all2 (job_record env base w') jobs rs
    \<and> (\<forall>n. n \<notin> job_name base ` set jobs \<longrightarrow> ca_artifacts env w' n = ca_artifacts env w n)"
  using assms(2,3)
proof (induction jobs arbitrary: w rs)
  case (Cons job jobs)
  obtain mode seed where job: "job = (mode, seed)" by fastforce
  obtain r w1 rs' where first: "run_job env base mode seed w = (Inr r, w1)"
    and rest: "run_jobs env base jobs w1 = (Inr rs', w')" "rs = r # rs'"
    using Cons.prems(2) by (auto simp: job bindM_eq_Inr)
  have ih: "list_all2 (job_record env base w') jobs rs'"
    "\<forall>n. n \<notin> job_name base ` set jobs \<longrightarrow> ca_artifacts env w' n = ca_artifacts env w1 n"
    using Cons.IH [OF _ rest(1)] Cons.prems(1) by auto
  have "job_name base job \<notin> job_name base ` set jobs" using Cons.prems(1) by simp
  then have "job_record env base w' job r"
    using run_job_record [OF first] ih(2) by (simp add: job)
  moreover have "ca_artifacts env w' n = ca_artifacts env w n" if "n \<notin> job_name base ` set (job # jobs)" for n
    using run_job_others [OF assms(1) first] ih(2) that by (simp add: job)
  ultimately show ?case using ih(1) rest(2) by auto
qed (simp)

lemma records_named: "list_all2 (job_record env base w') jobs rs \<Longrightarrow> map record_name rs = map (job_name base) jobs"
  by (induction rule: list_all2_induct) (auto simp: job_record_def)

section \<open>The statuses\<close>

lemma statuses_map:
  "artifact_statuses lenv runs names = Inr statuses \<Longrightarrow>
     map fst statuses = names \<and> (\<forall>(n, st)\<in>set statuses. run_artifact_status lenv (runs n) = Inr st)"
proof (induction names arbitrary: statuses)
  case (Cons n names)
  then obtain st rest where "run_artifact_status lenv (runs n) = Inr st" "artifact_statuses lenv runs names = Inr rest"
    "statuses = (n, st) # rest"
    by (auto simp: artifact_statuses_def bindR_eq_Inr)
  with Cons.IH [of rest] show ?case by auto
qed (simp add: artifact_statuses_def)

lemma status_values: "run_artifact_status lenv d = Inr st \<Longrightarrow> st \<in> {''missing'', ''complete'', ''incomplete'', ''invalid''}"
  by (auto simp: run_artifact_status_def split: option.splits sum.splits if_splits)

lemma status_complete_replays:
  "run_artifact_status lenv d = Inr ''complete'' \<Longrightarrow> \<exists>x r. d = Some x \<and> RunReplay lenv False x = Inr r"
  by (auto simp: run_artifact_status_def split: option.splits sum.splits if_splits)

lemma demoted [simp]: "record_name (demote_record statuses r) = record_name r"
  "k \<noteq> ''status'' \<Longrightarrow> dict_get k (demote_record statuses r) = dict_get k r"
  by (auto simp: demote_record_def record_text_def split: option.splits)

section \<open>The body\<close>

lemma campaign_op_Inr: "campaign_op f c = (Inr u, c') \<longleftrightarrow>
    (\<exists>n. cs_budget c = Suc n \<and> c' = c\<lparr>cs_dir := f (cs_dir c), cs_budget := n\<rparr>)"
  by (auto simp: campaign_op_def split: nat.splits)

lemma campaign_body_Inr:
  assumes "campaign_body env base seeds modes c0 = (Inr result, c)"
  defines "names \<equiv> map (job_name base) (campaign_jobs modes seeds)"
  shows "\<exists>raw statuses summary records.
    run_jobs env base (campaign_jobs modes seeds) (cs_world c0) = (Inr raw, cs_world c)
    \<and> artifact_statuses (ca_log env) (ca_artifacts env (cs_world c)) names = Inr statuses
    \<and> judge_campaign names modes seeds raw statuses = Inr (result, summary, records)
    \<and> cs_dir c = \<lparr>cd_marker = False, cd_config = Some (V_Dict (json_dict (campaign_config base modes seeds names))),
        cd_summary = Some (V_Dict (json_dict summary)), cd_metrics = Some (metrics_rows records)\<rparr>"
proof -
  from assms(1) obtain c1 c2 raw c3 statuses judged c5 c6 where
    marker: "campaign_op (\<lambda>d. d\<lparr>cd_marker := True\<rparr>) c0 = (Inr (), c1)"
    and config: "atomic_json (V_Dict (campaign_config base modes seeds names)) (\<lambda>v d. d\<lparr>cd_config := Some v\<rparr>) c1 = (Inr (), c2)"
    and runs: "on_runs (run_jobs env base (campaign_jobs modes seeds)) c2 = (Inr raw, c3)"
    and statuses: "artifact_statuses (ca_log env) (ca_artifacts env (cs_world c3)) names = Inr statuses"
    and judged: "judge_campaign names modes seeds raw statuses = Inr judged"
    and metrics: "campaign_op (\<lambda>d. d\<lparr>cd_metrics := Some (metrics_rows (snd (snd judged)))\<rparr>) c3 = (Inr (), c5)"
    and summary: "atomic_json (V_Dict (fst (snd judged))) (\<lambda>v d. d\<lparr>cd_summary := Some v\<rparr>) c5 = (Inr (), c6)"
    and finished: "campaign_op (\<lambda>d. d\<lparr>cd_marker := False\<rparr>) c6 = (Inr (), c)" "fst judged = result"
    by (auto simp: campaign_body_def Let_def names_def [symmetric] bindM_eq_Inr liftM_def)
  have written: "\<exists>n. cs_budget d = Suc n \<and> d' = d\<lparr>cs_dir := put (json_value v) (cs_dir d), cs_budget := n\<rparr>"
    if "atomic_json v put d = (Inr (), d')" for v put and d d' :: "'a campaign_state"
    using that by (auto simp: atomic_json_def bindM_eq_Inr liftM_def campaign_op_Inr)
  obtain result' s records where j: "judged = (result', s, records)" by (cases judged) auto
  have "cs_dir c = (cs_dir c0)\<lparr>cd_marker := False, cd_config := Some (V_Dict (json_dict (campaign_config base modes seeds names))),
        cd_summary := Some (V_Dict (json_dict s)), cd_metrics := Some (metrics_rows records)\<rparr>"
    "cs_world c2 = cs_world c0" "cs_world c = cs_world c3"
    using marker written [OF config] runs metrics written [OF summary] finished j
    by (cases "cs_dir c0"; auto simp: campaign_op_Inr on_runs_def split: prod.splits)+
  then show ?thesis
    using runs statuses judged finished(2) j by (cases "cs_dir c0") (auto simp: on_runs_def split: prod.splits)
qed

section \<open>Acceptance\<close>

lemma job_has_record:
  assumes "list_all2 (job_record env base w') jobs rs" "distinct jobs" "job \<in> set jobs"
  obtains r where "r \<in> set rs" "job_record env base w' job r"
    "\<And>r'. r' \<in> set rs \<Longrightarrow> record_text ''mode'' r' = fst job \<Longrightarrow> dict_get ''seed'' r' = Some (V_Int (snd job)) \<Longrightarrow> r' = r"
proof -
  obtain i where i: "i < length jobs" "jobs ! i = job" using assms(3) by (auto simp: in_set_conv_nth)
  have len: "length rs = length jobs" using assms(1) by (simp add: list_all2_lengthD)
  have nth: "job_record env base w' (jobs ! j) (rs ! j)" if "j < length jobs" for j
    using assms(1) that by (simp add: list_all2_nthD)
  show ?thesis
  proof (rule that)
    show "rs ! i \<in> set rs" using i(1) len by simp
    show "job_record env base w' job (rs ! i)" using nth i by blast
    fix r'
    assume r': "r' \<in> set rs" "record_text ''mode'' r' = fst job" "dict_get ''seed'' r' = Some (V_Int (snd job))"
    then obtain j where j: "j < length jobs" "r' = rs ! j" by (auto simp: in_set_conv_nth len)
    have "jobs ! j = job" using nth [OF j(1)] r' j(2) by (simp add: job_record_def prod_eq_iff)
    then show "r' = rs ! i" using i j assms(2) nth_eq_iff_index_eq by metis
  qed
qed

lemma find_SomeD: "find P xs = Some x \<Longrightarrow> x \<in> set xs \<and> P x"
  by (induction xs) (auto split: if_splits)

lemma record_by_name_distinct:
  assumes "distinct (map record_name rs)" "r \<in> set rs"
  shows "record_by_name rs (record_name r) = Some r"
proof -
  obtain r' where r': "record_by_name rs (record_name r) = Some r'"
    using assms(2) find_None_iff [of "\<lambda>x. record_name x = record_name r" "rev rs"] by (auto simp: record_by_name_def)
  then have "r' \<in> set rs" "record_name r' = record_name r" using find_SomeD by (force simp: record_by_name_def)+
  then show ?thesis using assms r' by (simp add: distinct_map inj_on_def)
qed

text \<open>No failure: every artifact is complete, every record complete and successful, and the landmark runs are better.\<close>

lemma no_failures:
  assumes judged: "judge_campaign names modes seeds raw statuses = Inr (result, summary, records)" "cr_acceptance_passed result"
    and names: "map record_name raw = names" "distinct names" "map fst statuses = names"
    and vals: "\<forall>(n, st)\<in>set statuses. st \<in> {''missing'', ''complete'', ''incomplete'', ''invalid''}"
    and known: "\<forall>r\<in>set raw. record_status r \<in> {''complete'', ''failed''}"
  shows "\<forall>st\<in>snd ` set statuses. st = ''complete''" "\<forall>r\<in>set raw. record_status r = ''complete'' \<and> record_success r"
    "\<exists>comparison. landmark_comparison raw seeds = Inr comparison
       \<and> dict_get ''landmark_lower_mean_position_rmse'' comparison = Some (V_Bool True)"
proof -
  let ?records = "map (demote_record statuses) raw"
  let ?completed = "filter (\<lambda>r. record_status r = ''complete'') ?records"
  obtain missing comparison where comparison: "landmark_comparison ?completed seeds = Inr comparison"
    and none: "acceptance_failures_of names ?records missing (names_with ''missing'' statuses) (names_with ''incomplete'' statuses)
      (names_with ''invalid'' statuses) comparison = []"
    using judged by (auto simp: judge_campaign_def Let_def bindR_eq_Inr)
  have artifacts: "names_with ''missing'' statuses = []" "names_with ''incomplete'' statuses = []" "names_with ''invalid'' statuses = []"
    using none by (simp_all add: acceptance_failures_of_def artifact_failures_def with_prefix_def)
  then show complete: "\<forall>st\<in>snd ` set statuses. st = ''complete''"
    using vals by (force simp: names_with_def filter_empty_conv)
  have keep: "demote_record statuses r = r" if "r \<in> set raw" for r
    using complete that by (auto simp: demote_record_def dest!: map_of_SomeD split: option.splits)
  then have same: "?records = raw" by (simp add: map_idI)
  have own: "record_by_name raw (record_name r) = Some r" if "r \<in> set raw" for r
    using names(1,2) that record_by_name_distinct by simp
  have "\<not> (\<exists>r'. record_by_name raw (record_name r) = Some r' \<and> record_status r' = ''failed'')" if "r \<in> set raw" for r
    using none that unfolding same by (force simp: acceptance_failures_of_def with_prefix_def filter_empty_conv)
  with own known have finished: "record_status r = ''complete''" if "r \<in> set raw" for r using that by blast
  have "record_success r" if "r \<in> set raw" for r
  proof -
    have "record_name r \<in> set names" using that names(1) by force
    then show ?thesis
      using none own [OF that] finished [OF that] unfolding same
      by (force simp: acceptance_failures_of_def with_prefix_def filter_empty_conv)
  qed
  with finished show "\<forall>r\<in>set raw. record_status r = ''complete'' \<and> record_success r" by blast
  have "?completed = raw" unfolding same using finished by (simp add: filter_True)
  then show "\<exists>comparison. landmark_comparison raw seeds = Inr comparison
       \<and> dict_get ''landmark_lower_mean_position_rmse'' comparison = Some (V_Bool True)"
    using comparison none by (auto simp: acceptance_failures_of_def split: if_splits)
qed

text \<open>A run of the campaign: it returned, and the log it left can be replayed.\<close>

definition good_run :: "'w campaign_env \<Rightarrow> scenario \<Rightarrow> 'w \<Rightarrow> string \<times> int \<Rightarrow> cil_result \<Rightarrow> bool" where
  "good_run env base w' job outcome \<longleftrightarrow>
     (\<exists>s w1 w2 d r. navigation_variant base (fst job) (snd job) = Inr s
        \<and> ca_run env s (job_name base job) w1 = (Inr outcome, w2)
        \<and> ca_artifacts env w2 (job_name base job) = Some d \<and> ca_artifacts env w' (job_name base job) = Some d
        \<and> RunReplay (ca_log env) False d = Inr r)
     \<and> me_success (ci_metric_summary outcome)"

abbreviation rmse_of :: "cil_result \<Rightarrow> f64" where
  "rmse_of outcome \<equiv> me_position_rmse_m (ci_metric_summary outcome)"

lemma position_found:
  assumes "r \<in> set raw" "record_text ''mode'' r = mode" "dict_get ''seed'' r = Some (V_Int seed)"
    and "\<And>r'. r' \<in> set raw \<Longrightarrow> record_text ''mode'' r' = mode \<Longrightarrow> dict_get ''seed'' r' = Some (V_Int seed) \<Longrightarrow> r' = r"
    and "dict_get ''position_rmse_m'' r = Some (V_Float x)"
  shows "position_error_of raw mode seed = Some (Inr x)"
proof -
  let ?P = "\<lambda>r. record_text ''mode'' r = mode \<and> dict_get ''seed'' r = Some (V_Int seed)"
  obtain r' where r': "find ?P (rev raw) = Some r'"
    using assms(1-3) find_None_iff [of ?P "rev raw"] by auto
  then have "r' = r" using find_SomeD [OF r'] assms(4) by auto
  with r' show ?thesis using assms(5) by (simp add: position_error_of_def float_value_def)
qed

lemma accepted_runs:
  assumes records: "list_all2 (job_record env base w') jobs raw" and jobs: "distinct jobs"
    and good: "\<forall>r\<in>set raw. record_status r = ''complete'' \<and> record_success r"
    and statuses: "artifact_statuses (ca_log env) (ca_artifacts env w') (map (job_name base) jobs) = Inr statuses"
      "\<forall>st\<in>snd ` set statuses. st = ''complete''"
  shows "\<exists>outcome. \<forall>job\<in>set jobs. good_run env base w' job (outcome job)
    \<and> position_error_of raw (fst job) (snd job) = Some (Inr (rmse_of (outcome job)))"
proof (rule bchoice, rule ballI)
  fix job
  assume job: "job \<in> set jobs"
  obtain r where r: "r \<in> set raw" "job_record env base w' job r"
    "\<And>r'. r' \<in> set raw \<Longrightarrow> record_text ''mode'' r' = fst job \<Longrightarrow> dict_get ''seed'' r' = Some (V_Int (snd job)) \<Longrightarrow> r' = r"
    using job_has_record [OF records jobs job] by blast
  have "returned_record env base w' job r" using r(1,2) good by (auto simp: job_record_def)
  then obtain s outcome w1 w2 where run: "navigation_variant base (fst job) (snd job) = Inr s"
    "ca_run env s (job_name base job) w1 = (Inr outcome, w2)"
    "ca_artifacts env w' (job_name base job) = ca_artifacts env w2 (job_name base job)"
    "record_success r = me_success (ci_metric_summary outcome)"
    "dict_get ''position_rmse_m'' r = Some (V_Float (rmse_of outcome))"
    unfolding returned_record_def by blast
  have "job_name base job \<in> set (map fst statuses)" using statuses_map [OF statuses(1)] job by simp
  then obtain st where "(job_name base job, st) \<in> set statuses" by auto
  then have "run_artifact_status (ca_log env) (ca_artifacts env w' (job_name base job)) = Inr ''complete''"
    using statuses_map [OF statuses(1)] statuses(2) by force
  from status_complete_replays [OF this] have "good_run env base w' job outcome"
    using run good r(1) unfolding good_run_def by auto
  moreover have "position_error_of raw (fst job) (snd job) = Some (Inr (rmse_of outcome))"
    using r(2) by (intro position_found [OF r(1) _ _ r(3) run(5)]) (simp_all add: job_record_def)
  ultimately show "\<exists>outcome. good_run env base w' job outcome \<and> position_error_of raw (fst job) (snd job) = Some (Inr (rmse_of outcome))"
    by blast
qed

lemma all_paired:
  assumes "\<forall>seed\<in>set seeds. position_error_of raw ''landmark_aided'' seed = Some (Inr (l seed))
      \<and> position_error_of raw ''dead_reckoning'' seed = Some (Inr (d seed))"
  shows "paired_differences raw seeds = Inr (map (\<lambda>seed. fsub (d seed) (l seed)) seeds)"
  using assms by (induction seeds) auto

lemma some_paired:
  "paired_differences raw seeds = Inr ds \<Longrightarrow> ds \<noteq> [] \<Longrightarrow>
     \<exists>seed. position_error_of raw ''landmark_aided'' seed \<noteq> None \<and> position_error_of raw ''dead_reckoning'' seed \<noteq> None"
  by (induction seeds arbitrary: ds) (auto split: option.splits)

lemma position_mode:
  assumes "list_all2 (job_record env base w') (campaign_jobs modes seeds) raw" "position_error_of raw mode seed \<noteq> None"
  shows "mode \<in> set modes"
proof -
  obtain r where "r \<in> set raw" "record_text ''mode'' r = mode"
    using assms(2) find_SomeD by (fastforce simp: position_error_of_def split: option.splits)
  then obtain i where "i < length raw" "record_text ''mode'' (raw ! i) = mode" by (auto simp: in_set_conv_nth)
  then have i: "i < length (campaign_jobs modes seeds)" "fst (campaign_jobs modes seeds ! i) = mode"
    using assms(1) by (auto simp: list_all2_conv_all_nth job_record_def)
  have "campaign_jobs modes seeds ! i \<in> set modes \<times> set seeds" using nth_mem [OF i(1)] by (simp only: set_jobs)
  with i(2) show ?thesis by (simp add: mem_Times_iff)
qed

text \<open>
  C4: A campaign is accepted only for good runs. If the function run_campaign returns an accepted result, then for every
  mode and every seed the run of its scenario returned a result that met the thresholds, and the log that this
  run left is still there and is accepted by the reader; and over all seeds the sum of what dead reckoning's
  position error exceeds landmark aiding's by is positive.
\<close>

theorem accepted_campaign_sound:
  assumes env: "keeps_to_own env"
    and run: "run_campaign env base name seeds modes executable exists budget w = (Inr result, Some c)"
    and accepted: "cr_acceptance_passed result"
  shows "\<exists>outcome total. (\<forall>mode\<in>set modes. \<forall>seed\<in>set seeds. good_run env base (cs_world c) (mode, seed) (outcome (mode, seed)))
    \<and> {''landmark_aided'', ''dead_reckoning''} \<subseteq> set modes
    \<and> py_fsum (map (\<lambda>seed. fsub (rmse_of (outcome (''dead_reckoning'', seed))) (rmse_of (outcome (''landmark_aided'', seed)))) seeds)
        = Inr total \<and> flt 0 total"
proof -
  let ?jobs = "campaign_jobs modes seeds" and ?names = "map (job_name base) (campaign_jobs modes seeds)"
  from run have check: "check_campaign base name seeds modes executable = Inr ()"
    and body: "campaign_body env base seeds modes \<lparr>cs_dir = new_campaign, cs_budget = budget, cs_world = w\<rparr> = (Inr result, c)"
    by (auto simp: run_campaign_def bindR_eq_Inr split: sum.splits prod.splits)
  obtain raw statuses summary records where jobs: "run_jobs env base ?jobs w = (Inr raw, cs_world c)"
    and statuses: "artifact_statuses (ca_log env) (ca_artifacts env (cs_world c)) ?names = Inr statuses"
    and judged: "judge_campaign ?names modes seeds raw statuses = Inr (result, summary, records)"
    using campaign_body_Inr [OF body] by auto
  have distinct: "distinct ?names" by (rule distinct_names [OF check])
  have all: "list_all2 (job_record env base (cs_world c)) ?jobs raw" using run_jobs_records [OF env distinct jobs] by blast
  have known: "\<forall>r\<in>set raw. record_status r \<in> {''complete'', ''failed''}"
    using all by (auto simp: list_all2_conv_all_nth in_set_conv_nth job_record_def returned_record_def)
  have vals: "\<forall>(n, st)\<in>set statuses. st \<in> {''missing'', ''complete'', ''incomplete'', ''invalid''}"
    using statuses_map [OF statuses] status_values by fastforce
  note good = no_failures [OF judged accepted records_named [OF all] distinct _ vals known]
  have good: "\<forall>st\<in>snd ` set statuses. st = ''complete''" "\<forall>r\<in>set raw. record_status r = ''complete'' \<and> record_success r"
    "\<exists>comparison. landmark_comparison raw seeds = Inr comparison
       \<and> dict_get ''landmark_lower_mean_position_rmse'' comparison = Some (V_Bool True)"
    using good statuses_map [OF statuses] by blast+
  have "distinct ?jobs" using distinct_jobs checked_campaign [OF check] by blast
  from accepted_runs [OF all this good(2) statuses good(1)] obtain outcome where outcome:
    "\<And>job. job \<in> set ?jobs \<Longrightarrow> good_run env base (cs_world c) job (outcome job)"
    "\<And>job. job \<in> set ?jobs \<Longrightarrow> position_error_of raw (fst job) (snd job) = Some (Inr (rmse_of (outcome job)))"
    by blast
  obtain diffs total where diffs: "paired_differences raw seeds = Inr diffs" "diffs \<noteq> []" "py_fsum diffs = Inr total" "flt 0 total"
    using good(3) by (auto simp: landmark_comparison_def bindR_eq_Inr split: if_splits)
  have both: "{''landmark_aided'', ''dead_reckoning''} \<subseteq> set modes"
    using some_paired [OF diffs(1,2)] position_mode [OF all] by blast
  then have "paired_differences raw seeds =
      Inr (map (\<lambda>seed. fsub (rmse_of (outcome (''dead_reckoning'', seed))) (rmse_of (outcome (''landmark_aided'', seed)))) seeds)"
  proof (intro all_paired ballI conjI)
    fix seed
    assume "seed \<in> set seeds"
    with both have "(''landmark_aided'', seed) \<in> set ?jobs" "(''dead_reckoning'', seed) \<in> set ?jobs" by (simp_all add: set_jobs)
    from this [THEN outcome(2)] show
      "position_error_of raw ''landmark_aided'' seed = Some (Inr (rmse_of (outcome (''landmark_aided'', seed))))"
      "position_error_of raw ''dead_reckoning'' seed = Some (Inr (rmse_of (outcome (''dead_reckoning'', seed))))"
      by simp_all
  qed
  moreover have "good_run env base (cs_world c) (mode, seed) (outcome (mode, seed))" if "mode \<in> set modes" "seed \<in> set seeds" for mode seed
    using outcome(1) that by (simp add: set_jobs)
  ultimately show ?thesis
    using diffs both by (intro exI [of _ outcome] exI [of _ total]) simp
qed

text \<open>A closed-loop run writes under its own name.\<close>

lemma closed_loop_keeps: "keeps_to_own (closed_loop_env react sensors lenv u clock_of dashboard_of runnable f error_text)"
  unfolding keeps_to_own_def
proof (intro allI impI)
  fix s name w r w' other
  assume "ca_run (closed_loop_env react sensors lenv u clock_of dashboard_of runnable f error_text) s name w = (r, w')" "other \<noteq> name"
  then show "ca_artifacts (closed_loop_env react sensors lenv u clock_of dashboard_of runnable f error_text) w' other =
      ca_artifacts (closed_loop_env react sensors lenv u clock_of dashboard_of runnable f error_text) w other"
    by (auto simp: closed_loop_env_def closed_loop_run_def Let_def split: prod.splits option.splits)
qed

section \<open>The inspection\<close>

lemma show_nat_chars: "c \<in> set (show_nat n) \<Longrightarrow> 48 \<le> (of_char c :: nat)"
proof (induction n rule: show_nat.induct)
  case (1 n)
  have "of_char (char_of (48 + n mod 10) :: char) = 48 + n mod 10" by simp
  with 1 show ?case by (auto simp: show_nat.simps [of n] split: if_splits)
qed

lemma safe_run_name:
  assumes "scenario_name_ok n" "m \<in> set DEFAULT_MODES" "0 \<le> s"
  shows "campaign_run_name n m s \<notin> {[], ''.'', ''..''}" "CHR ''/'' \<notin> set (campaign_run_name n m s)"
proof -
  have "2 < length (campaign_run_name n m s)" using assms(2) by (auto simp: campaign_run_name_def DEFAULT_MODES_def)
  then show "campaign_run_name n m s \<notin> {[], ''.'', ''..''}" by auto
  have "CHR ''/'' \<notin> set n" using assms(1) by (auto simp: scenario_name_ok_def letter_or_digit_def list_all_iff split: list.splits)
  moreover have "CHR ''/'' \<notin> set (show_nat k)" for k using show_nat_chars [of "CHR ''/''" k] by auto
  ultimately show "CHR ''/'' \<notin> set (campaign_run_name n m s)"
    using assms(2,3) by (auto simp: campaign_run_name_def DEFAULT_MODES_def pad_int_def Let_def)
qed

lemma inspect_runs_statuses:
  "artifact_statuses lenv runs names = Inr statuses \<Longrightarrow>
     \<exists>incomplete count. inspect_runs lenv runs names = Inr (names_with ''missing'' statuses, incomplete, names_with ''invalid'' statuses, count)
       \<and> (names_with ''missing'' statuses = [] \<longrightarrow> incomplete = names_with ''incomplete'' statuses)"
proof (induction names arbitrary: statuses)
  case (Cons n names)
  then obtain st rest where st: "run_artifact_status lenv (runs n) = Inr st" "artifact_statuses lenv runs names = Inr rest"
    "statuses = (n, st) # rest"
    by (auto simp: artifact_statuses_def bindR_eq_Inr)
  obtain incomplete count where "inspect_runs lenv runs names = Inr (names_with ''missing'' rest, incomplete, names_with ''invalid'' rest, count)"
    "names_with ''missing'' rest = [] \<longrightarrow> incomplete = names_with ''incomplete'' rest"
    using Cons.IH [OF st(2)] by blast
  with st show ?case by (auto simp: names_with_def)
qed (simp add: artifact_statuses_def names_with_def)

lemma judged_summary:
  assumes "judge_campaign names modes seeds raw statuses = Inr (result, summary, records)"
  shows "distinct (map fst summary)" "dict_get ''acceptance_passed'' summary = Some (V_Bool (cr_acceptance_passed result))"
    "dict_get ''acceptance_failures'' summary = Some (V_List (map V_Str (cr_acceptance_failures result)))"
    "cr_acceptance_passed result \<longleftrightarrow> cr_acceptance_failures result = []"
    "cr_artifact_missing result = names_with ''missing'' statuses" "cr_artifact_invalid result = names_with ''invalid'' statuses"
    "cr_acceptance_failures result = [] \<Longrightarrow>
       names_with ''missing'' statuses = [] \<and> names_with ''incomplete'' statuses = [] \<and> names_with ''invalid'' statuses = []"
proof -
  obtain missing aggregate comparison failures completed failed status where
    result: "cr_acceptance_failures result = failures" "cr_acceptance_passed result = (failures = [])"
      "cr_artifact_missing result = names_with ''missing'' statuses" "cr_artifact_invalid result = names_with ''invalid'' statuses"
    and failures: "failures = acceptance_failures_of names records missing (names_with ''missing'' statuses)
      (names_with ''incomplete'' statuses) (names_with ''invalid'' statuses) comparison"
    and summary: "summary = [(''status'', status), (''expected_runs'', V_Int (int (length names))), (''completed_runs'', completed),
      (''failed_runs'', failed), (''missing_runs'', V_List (map V_Str missing)),
      (''artifact_missing_runs'', V_List (map V_Str (names_with ''missing'' statuses))),
      (''artifact_incomplete_runs'', V_List (map V_Str (names_with ''incomplete'' statuses))),
      (''artifact_invalid_runs'', V_List (map V_Str (names_with ''invalid'' statuses))),
      (''acceptance_passed'', V_Bool (failures = [])), (''acceptance_failures'', V_List (map V_Str failures)),
      (''aggregate'', V_Dict aggregate), (''landmark_vs_dead_reckoning'', V_Dict comparison), (''records'', V_List (map V_Dict records))]"
    using assms by (auto simp: judge_campaign_def Let_def bindR_eq_Inr)
  show "distinct (map fst summary)" "dict_get ''acceptance_passed'' summary = Some (V_Bool (cr_acceptance_passed result))"
    "dict_get ''acceptance_failures'' summary = Some (V_List (map V_Str (cr_acceptance_failures result)))"
    "cr_acceptance_passed result \<longleftrightarrow> cr_acceptance_failures result = []"
    "cr_artifact_missing result = names_with ''missing'' statuses" "cr_artifact_invalid result = names_with ''invalid'' statuses"
    by (simp_all add: summary result)
  show "cr_acceptance_failures result = [] \<Longrightarrow>
       names_with ''missing'' statuses = [] \<and> names_with ''incomplete'' statuses = [] \<and> names_with ''invalid'' statuses = []"
    by (simp add: result failures acceptance_failures_of_def artifact_failures_def with_prefix_def)
qed

text \<open>The names that the configuration stores are read back.\<close>

lemma stored_names:
  assumes "check_campaign base name seeds modes executable = Inr ()"
  defines "names \<equiv> map (job_name base) (campaign_jobs modes seeds)"
  shows "expected_names (json_dict (campaign_config base modes seeds names)) = Inr names"
proof -
  note c = checked_campaign [OF assms(1)]
  have "distinct (map fst (campaign_config base modes seeds names))" by (simp add: campaign_config_def)
  then have "dict_get ''expected_runs'' (json_dict (campaign_config base modes seeds names)) = Some (V_List (map V_Str names))"
    by (simp add: json_get campaign_config_def comp_def)
  moreover have "\<not> list_ex (\<lambda>n. n = [] \<or> CHR ''/'' \<in> set n \<or> n \<in> {''.'', ''..''}) names"
  proof -
    have "n \<notin> {[], ''.'', ''..''} \<and> CHR ''/'' \<notin> set n" if n: "n \<in> set names" for n
    proof -
      obtain m s where "m \<in> set modes" "s \<in> set seeds" "n = campaign_run_name (so_name base) m s"
        using n by (auto simp: names_def set_jobs)
      then show ?thesis using safe_run_name [of "so_name base" m s] c(5-7) by auto
    qed
    then show ?thesis by (fastforce simp: list_ex_iff)
  qed
  moreover have "distinct names" unfolding names_def by (rule distinct_names [OF assms(1)])
  moreover have "list_all is_text (map V_Str names)" "map (text_of \<circ> V_Str) names = names"
    by (simp_all add: list_all_iff comp_def)
  ultimately show ?thesis by (simp add: expected_names_def Let_def guardR_def)
qed

text \<open>
  C17: Inspecting the directory of a campaign that returned gives its verdict again: the inspection returns,
  it passes the campaign exactly if the campaign was accepted, it finds the campaign finished, and it reports
  the same missing and invalid runs.
\<close>

theorem inspection_agrees:
  assumes run: "run_campaign env base name seeds modes executable exists budget w = (Inr result, Some c)"
  shows "\<exists>report. inspect_campaign (ca_log env) (cs_dir c) (ca_artifacts env (cs_world c)) = Inr report
    \<and> dict_get ''acceptance_passed'' report = Some (V_Bool (cr_acceptance_passed result))
    \<and> dict_get ''campaign_incomplete'' report = Some (V_Bool False)
    \<and> dict_get ''artifact_missing_runs'' report = Some (V_List (map V_Str (sort (cr_artifact_missing result))))
    \<and> dict_get ''artifact_invalid_runs'' report = Some (V_List (map V_Str (sort (cr_artifact_invalid result))))"
proof -
  let ?names = "map (job_name base) (campaign_jobs modes seeds)"
  from run have check: "check_campaign base name seeds modes executable = Inr ()"
    and body: "campaign_body env base seeds modes \<lparr>cs_dir = new_campaign, cs_budget = budget, cs_world = w\<rparr> = (Inr result, c)"
    by (auto simp: run_campaign_def bindR_eq_Inr split: sum.splits prod.splits)
  obtain raw statuses summary records where
    statuses: "artifact_statuses (ca_log env) (ca_artifacts env (cs_world c)) ?names = Inr statuses"
    and judged: "judge_campaign ?names modes seeds raw statuses = Inr (result, summary, records)"
    and dir: "cs_dir c = \<lparr>cd_marker = False, cd_config = Some (V_Dict (json_dict (campaign_config base modes seeds ?names))),
        cd_summary = Some (V_Dict (json_dict summary)), cd_metrics = Some (metrics_rows records)\<rparr>"
    using campaign_body_Inr [OF body] by blast
  note j = judged_summary [OF judged]
  obtain incomplete count where inspected: "inspect_runs (ca_log env) (ca_artifacts env (cs_world c)) ?names =
      Inr (cr_artifact_missing result, incomplete, cr_artifact_invalid result, count)"
    and incomplete: "cr_artifact_missing result = [] \<longrightarrow> incomplete = names_with ''incomplete'' statuses"
    using inspect_runs_statuses [OF statuses] j(5,6) by auto
  have stored: "get_or (json_dict summary) ''acceptance_passed'' v = V_Bool (cr_acceptance_passed result)"
    "get_or (json_dict summary) ''acceptance_failures'' v = V_List (map V_Str (cr_acceptance_failures result))" for v
    using j(2,3) by (simp_all add: get_or_def json_get [OF j(1)] comp_def)
  have "recorded_failures (json_dict summary) = Inr (cr_acceptance_failures result)"
    by (simp add: recorded_failures_def stored py_list_def list_all_iff comp_def)
  moreover have "artifact_failures (cr_artifact_missing result) incomplete (cr_artifact_invalid result) = []"
    if "cr_acceptance_failures result = []"
    using j(7) [OF that] j(5,6) incomplete by (simp add: artifact_failures_def with_prefix_def)
  ultimately show ?thesis
    using stored_names [OF check] inspected j(4) stored(1)
    by (auto simp: inspect_campaign_def dir read_campaign_json_def inspected_summary_def Let_def dict_get_update)
qed

section \<open>A campaign that is cut off\<close>

text \<open>The marker stays on.\<close>

abbreviation marks :: "('w campaign_state, 'a) meth \<Rightarrow> bool" where
  "marks \<equiv> keeps (\<lambda>c. cd_marker (cs_dir c))"

lemma marks_basic:
  "marks (returnM v)" "marks (liftM r)" "marks (on_runs m)" "marks (\<lambda>c. (g c, c))"
  "(\<And>d. cd_marker d \<Longrightarrow> cd_marker (f d)) \<Longrightarrow> marks (campaign_op f)"
  "(\<And>d v. cd_marker d \<Longrightarrow> cd_marker (put v d)) \<Longrightarrow> marks (atomic_json v put)"
  by (auto simp: keeps_def liftM_def on_runs_def campaign_op_def atomic_json_def bindM_def guardR_def split: prod.splits nat.splits)

text \<open>What raises before the last file operation leaves the marker, and the last one leaves it if it raises.\<close>

definition fails_marked :: "('w campaign_state, 'a) meth \<Rightarrow> bool" where
  "fails_marked m \<longleftrightarrow> (\<forall>c e c'. cd_marker (cs_dir c) \<longrightarrow> m c = (Inl e, c') \<longrightarrow> cd_marker (cs_dir c'))"

lemma fails_marked_bindM: "marks m \<Longrightarrow> (\<And>v. fails_marked (f v)) \<Longrightarrow> fails_marked (bindM m f)"
  unfolding fails_marked_def bindM_eq_Inl using keepsD by metis

lemma fails_marked_last: "fails_marked (bindM (campaign_op f) (\<lambda>_. returnM v))"
  by (auto simp: fails_marked_def bindM_def campaign_op_def split: nat.splits)

lemma body_fails_marked:
  assumes "campaign_body env base seeds modes c = (Inl e, c')" "cs_budget c \<noteq> 0"
  shows "cd_marker (cs_dir c')"
proof -
  define rest :: "('a campaign_state, campaign_result) meth" where
    "rest = (let names = map (job_name base) (campaign_jobs modes seeds) in
      bindM (atomic_json (V_Dict (campaign_config base modes seeds names)) (\<lambda>v d. d\<lparr>cd_config := Some v\<rparr>)) (\<lambda>_.
      bindM (on_runs (run_jobs env base (campaign_jobs modes seeds))) (\<lambda>raw.
      bindM (\<lambda>c. (artifact_statuses (ca_log env) (ca_artifacts env (cs_world c)) names, c)) (\<lambda>statuses.
      bindM (liftM (judge_campaign names modes seeds raw statuses)) (\<lambda>(result, summary, records).
      bindM (campaign_op (\<lambda>d. d\<lparr>cd_metrics := Some (metrics_rows records)\<rparr>)) (\<lambda>_.
      bindM (atomic_json (V_Dict summary) (\<lambda>v d. d\<lparr>cd_summary := Some v\<rparr>)) (\<lambda>_.
      bindM (campaign_op (\<lambda>d. d\<lparr>cd_marker := False\<rparr>)) (\<lambda>_. returnM result))))))))"
  have "fails_marked rest"
    unfolding rest_def Let_def case_prod_unfold
    by (intro fails_marked_bindM fails_marked_last marks_basic) simp_all
  moreover obtain c1 where "campaign_op (\<lambda>d. d\<lparr>cd_marker := True\<rparr>) c = (Inr (), c1)" "cd_marker (cs_dir c1)"
    using assms(2) by (cases "cs_budget c") (simp_all add: campaign_op_def)
  moreover have "campaign_body env base seeds modes = bindM (campaign_op (\<lambda>d. d\<lparr>cd_marker := True\<rparr>)) (\<lambda>_. rest)"
    unfolding campaign_body_def rest_def Let_def ..
  ultimately have "rest c1 = (Inl e, c')" using assms(1) by (simp add: bindM_def)
  then show ?thesis using \<open>fails_marked rest\<close> \<open>cd_marker (cs_dir c1)\<close> unfolding fails_marked_def by blast
qed

text \<open>
  C18: A campaign that is cut off is never taken for a finished one. If run_campaign raises after it
  has made its directory and the first file in it, then an inspection, if it returns, finds the campaign incomplete; and
  unless the summary was already written the inspection does not pass it.
\<close>

theorem unfinished_campaign_marked:
  assumes run: "run_campaign env base name seeds modes executable exists budget w = (Inl e, Some c)" "budget \<noteq> 0"
    and inspected: "inspect_campaign lenv (cs_dir c) runs = Inr report"
  shows "dict_get ''campaign_incomplete'' report = Some (V_Bool True)
    \<and> (cd_summary (cs_dir c) = None \<longrightarrow> dict_get ''acceptance_passed'' report = Some (V_Bool False))"
proof -
  from run(1) have "campaign_body env base seeds modes \<lparr>cs_dir = new_campaign, cs_budget = budget, cs_world = w\<rparr> = (Inl e, c)"
    by (auto simp: run_campaign_def split: sum.splits prod.splits)
  then have "cd_marker (cs_dir c)" using body_fails_marked run(2) by fastforce
  then show ?thesis
    using inspected
    by (auto simp: inspect_campaign_def bindR_eq_Inr Let_def dict_get_update inspected_summary_def get_or_def)
qed

end
