(* ===== verification/Campaign_Example.thy ===== *)
theory Campaign_Example
  imports Campaign_Laws Drive_Scenario Run_Log_Example
begin

text \<open>
  A campaign of two modes and one seed whose runs return at once: with landmark aiding the position
  error is zero, with dead reckoning it is one. It is accepted, and it instantiates the laws of campaigns.
\<close>

section \<open>Two seconds\<close>

abbreviation two_s :: f64 where "two_s \<equiv> 0x4000000000000000"

lemma two_facts: "isfinite two_s" "f64_mag two_s = 0x4000000000000000" "f64_neg two_s = False" "\<not> isnan two_s"
  "f64_units_mag 0x4000000000000000 = 2 * 2 ^ 1074"
proof -
  show "isfinite two_s" "f64_mag two_s = 0x4000000000000000" "f64_neg two_s = False" "\<not> isnan two_s"
    by (simp_all add: isfinite_def f64_mag_def f64_inf_mag_def f64_neg_def isnan_def)
  have "f64_units_mag 0x4000000000000000 = 4503599627370496 * 2 ^ 1023"
    by (rule f64_units_mag_normal [where e = 1024 and f = 0]) simp_all
  then show "f64_units_mag 0x4000000000000000 = 2 * 2 ^ 1074" by simp
qed

lemma ratio_three: "ratio_mag 3 1 = 0x4008000000000000"
proof -
  have "bit_len (3 * 2 ^ 51) = 0 + 53" using bit_len_unique [of 52 "3 * 2 ^ 51"] by simp
  then have "f64_round_mag (3 * 2 ^ 51 * 2 ^ 1025) 2 = min f64_inf_mag ((0 + 1025 - 2) * 2 ^ 52 + round_half_even (3 * 2 ^ 51) 0)"
    by (intro f64_round_mag_scale) simp_all
  moreover have "min f64_inf_mag ((0 + 1025 - 2) * 2 ^ 52 + round_half_even (3 * 2 ^ 51) 0) = 0x4008000000000000"
    by (simp add: round_half_even_def f64_inf_mag_def)
  ultimately show ?thesis by (simp add: ratio_mag_def)
qed

lemma length_show_twice: "length (show_nat (2 * 10 ^ k)) = k + 1"
proof (induction k)
  case 0
  show ?case by (simp add: show_nat.simps [of 2])
next
  case (Suc k)
  have "\<not> 2 * 10 ^ Suc k < (10 :: nat)" "2 * 10 ^ Suc k div 10 = (2 * 10 ^ k :: nat)" by simp_all
  then show ?case using Suc by (simp only: show_nat.simps [of "2 * 10 ^ Suc k"] if_False length_append) simp
qed

lemma twice_div: "0 < P \<Longrightarrow> 2 * P * X div P = 2 * (X :: nat)"
  using nonzero_mult_div_cancel_left [of P "2 * X"] by (simp add: ac_simps)

lemma two_decimal: "decimal_of two_s = (2, 0)"
proof -
  have units: "in_units 0x4000000000000000 0 = (2 * 2 ^ 1074, 2 ^ 1074)"
    by (simp only: in_units_def two_facts(5)) simp
  have "(2 * 2 ^ 1074 * 10 ^ 400 div 2 ^ 1074 :: nat) = 2 * 10 ^ 400" by (rule twice_div) simp
  then have first: "decimal_exponent 0x4000000000000000 = 0"
    unfolding decimal_exponent_def two_facts(5) by (simp only: length_show_twice)
  have "(2 * 2 ^ 1074 div 2 ^ 1074 :: nat) = 2" by (rule nonzero_mult_div_cancel_right) simp
  then have cand: "candidates 0x4000000000000000 0 = [2]"
    using ratio_two ratio_three by (simp only: candidates_def units prod.case) (simp add: read_mag_def)
  have pick: "pick_digits 0x4000000000000000 0 = 2" by (simp only: pick_digits_def units cand prod.case list.case)
  have "find (\<lambda>k. candidates 0x4000000000000000 (0 + 1 - int k) \<noteq> []) [1..<17] = Some 1"
    by (subst upt_conv_Cons) (simp_all add: cand)
  then have "shortest_decimal 0x4000000000000000 = (2, 0)"
    by (simp add: shortest_decimal_def first pick)
  then show ?thesis by (simp add: decimal_of_def two_facts f64_sign_def)
qed

lemma two_steps: "exact_steps two_s one_hz = Inr 2" "require_aligned_time two_s one_hz = Inr ()" "require_aligned_time one_hz one_hz = Inr ()"
  by (simp_all add: exact_steps_def require_aligned_time_def one_decimal two_decimal decimal_divmod_def align_def Let_def guardR_def)

section \<open>The scenarios\<close>

definition two_scenario :: scenario where
  "two_scenario = one_scenario\<lparr>so_duration_s := two_s,
     so_commands := [\<lparr>cg_until_s = two_s, cg_acceleration_mps2 = 0, cg_steering_rad = 0\<rparr>]\<rparr>"

lemma two_fields [simp]: "so_name two_scenario = ''rest''" "so_duration_s two_scenario = two_s" "so_faults two_scenario = []"
  by (simp_all add: two_scenario_def one_scenario_def)

lemma two_order: "\<not> fle two_s 0" "\<not> fle two_s one_hz" "\<not> flt two_s two_s" "\<not> flt one_hz 0" "feq two_s two_s"
  by (simp_all add: fle_def flt_def feq_def f64_key_def f64_mag_def f64_neg_def isnan_def f64_inf_mag_def)

lemma fault_values: "isfinite 0x3F8EB851EB851EB8" "isfinite 0x3F947AE147AE147B"
  by (simp_all add: isfinite_def f64_mag_def f64_inf_mag_def)

text \<open>Faults from one second to the end fit the scenario.\<close>

lemma two_accepts:
  assumes "\<forall>f\<in>set fs. fs_start_s f = one_hz \<and> fs_end_s f = two_s"
  shows "Scenario (two_scenario\<lparr>so_seed := 0, so_faults := fs\<rparr>) = Inr (two_scenario\<lparr>so_seed := 0, so_faults := fs\<rparr>)"
proof -
  have "validate_scenario one_scenario = Inr ()" using one_accepted by (auto simp: Scenario_def bindR_eq_Inr)
  then have limits: "\<not> flt (vs_speed_mps initial_vehicle) 0" "\<not> flt (vp_max_speed_mps one_parameters) (vs_speed_mps initial_vehicle)"
    "\<not> flt (vp_max_steering_rad one_parameters) (fabs (vs_steering_rad initial_vehicle))"
    "fle (fneg (vp_max_deceleration_mps2 one_parameters)) (vs_acceleration_mps2 initial_vehicle)"
    "fle (vs_acceleration_mps2 initial_vehicle) (vp_max_acceleration_mps2 one_parameters)"
    by (auto simp: validate_scenario_def one_scenario_def bindR_eq_Inr Let_def)
  have "sequenceR (map (check_rate one_hz) (sensor_rates example_config)) = Inr [(), (), (), ()]"
    by (simp add: sensor_rates_def example_config_def check_rate_def one_period)
  moreover have "sequenceR (map (check_fault two_s one_hz) fs) = Inr (map (\<lambda>_. ()) fs)"
    using assms by (induction fs) (simp_all add: check_fault_def two_order two_steps guardR_def)
  ultimately have "validate_scenario (two_scenario\<lparr>so_seed := 0, so_faults := fs\<rparr>) = Inr ()"
    using limits by (simp add: validate_scenario_def two_scenario_def one_scenario_def two_steps two_order guardR_def Let_def)
  moreover have "scenario_name_ok ''rest''" by (simp add: scenario_name_ok_def letter_or_digit_def)
  ultimately show ?thesis
    by (simp add: Scenario_def two_scenario_def one_scenario_def finite_real_def two_facts one_facts guardR_def)
qed

definition landmark_faults :: "fault_spec list" where
  "landmark_faults =
     [\<lparr>fs_target = ''imu'', fs_kind = ''bias_yaw_rate_rad_s'', fs_start_s = one_hz, fs_end_s = two_s, fs_value = 0x3F8EB851EB851EB8\<rparr>,
      \<lparr>fs_target = ''wheel_speed'', fs_kind = ''scale_error'', fs_start_s = one_hz, fs_end_s = two_s, fs_value = 0x3F947AE147AE147B\<rparr>,
      \<lparr>fs_target = ''gnss'', fs_kind = ''dropout'', fs_start_s = one_hz, fs_end_s = two_s, fs_value = 0\<rparr>]"

definition dead_faults :: "fault_spec list" where
  "dead_faults = landmark_faults @
     [\<lparr>fs_target = ''landmark'', fs_kind = ''dropout'', fs_start_s = one_hz, fs_end_s = two_s, fs_value = 0\<rparr>]"

lemma two_variants:
  "navigation_variant two_scenario ''landmark_aided'' 0 = Inr (two_scenario\<lparr>so_seed := 0, so_faults := landmark_faults\<rparr>)"
  "navigation_variant two_scenario ''dead_reckoning'' 0 = Inr (two_scenario\<lparr>so_seed := 0, so_faults := dead_faults\<rparr>)"
proof -
  have faults: "variant_faults ''landmark_aided'' two_s = Inr landmark_faults" "variant_faults ''dead_reckoning'' two_s = Inr dead_faults"
    by (simp_all add: variant_faults_def FaultSpec_def FAULT_TARGETS_def FAULT_KINDS_def valid_faults_def finite_real_def two_facts
        one_facts zero_facts fault_values two_order f64_one_def guardR_def landmark_faults_def dead_faults_def)
  have "\<forall>f\<in>set landmark_faults. fs_start_s f = one_hz \<and> fs_end_s f = two_s" "\<forall>f\<in>set dead_faults. fs_start_s f = one_hz \<and> fs_end_s f = two_s"
    by (simp_all add: landmark_faults_def dead_faults_def)
  from this [THEN two_accepts] show
    "navigation_variant two_scenario ''landmark_aided'' 0 = Inr (two_scenario\<lparr>so_seed := 0, so_faults := landmark_faults\<rparr>)"
    "navigation_variant two_scenario ''dead_reckoning'' 0 = Inr (two_scenario\<lparr>so_seed := 0, so_faults := dead_faults\<rparr>)"
    using faults by (simp_all add: navigation_variant_def DEFAULT_MODES_def two_order f64_one_def guardR_def)
qed

section \<open>The runs\<close>

definition quick_metrics :: "f64 \<Rightarrow> metric_summary" where
  "quick_metrics error = \<lparr>me_sample_count = 1, me_position_rmse_m = error, me_heading_rmse_rad = 0, me_cross_track_rmse_m = 0,
     me_cross_track_max_m = 0, me_final_stop_error_m = 0, me_final_speed_mps = 0, me_nis_mean = None, me_nis_max = None,
     me_success = True\<rparr>"

definition quick_result :: "f64 \<Rightarrow> cil_result" where
  "quick_result error = \<lparr>ci_scenario_name = ''rest'', ci_seed = 0, ci_plant_samples = [], ci_estimates = [],
     ci_controller_commands = [], ci_metric_summary = quick_metrics error, ci_summary = [], ci_run_path = None\<rparr>"

text \<open>Every run leaves the same directory; the world is that directory.\<close>

definition quick_env :: "run_dir campaign_env" where
  "quick_env = \<lparr>ca_run = (\<lambda>s name w. (Inr (quick_result (if so_faults s = dead_faults then one_hz else 0)), w)),
     ca_artifacts = (\<lambda>w name. Some w), ca_log = plain_log, ca_error_text = (\<lambda>e. [])\<rparr>"

lemma quick_keeps: "keeps_to_own quick_env"
  by (simp add: keeps_to_own_def quick_env_def)

definition quick_record :: "string \<Rightarrow> f64 \<Rightarrow> pydict" where
  "quick_record mode error =
     [(''run_name'', V_Str (campaign_run_name ''rest'' mode 0)), (''mode'', V_Str mode), (''seed'', V_Int 0), (''status'', V_Str ''complete''),
      (''run_path'', V_Str (campaign_run_name ''rest'' mode 0)), (''sample_count'', V_Int 1), (''position_rmse_m'', V_Float error),
      (''heading_rmse_rad'', V_Float 0), (''cross_track_rmse_m'', V_Float 0), (''cross_track_max_m'', V_Float 0),
      (''final_stop_error_m'', V_Float 0), (''final_speed_mps'', V_Float 0), (''nis_mean'', V_None), (''nis_max'', V_None),
      (''success'', V_Bool True), (''native_process_round_trip_ms_p99'', V_None)]"

lemma quick_records: "complete_record (campaign_run_name ''rest'' mode 0) mode 0 (quick_result error) = Inr (quick_record mode error)"
  by (simp add: complete_record_def summary_measurements_def summary_groups_def quick_result_def quick_metrics_def metric_dict_def
      number_or_none_def dict_update_def dict_set_def quick_record_def)

lemma quick_runs: "run_jobs quick_env two_scenario [(''landmark_aided'', 0), (''dead_reckoning'', 0)] w =
    (Inr [quick_record ''landmark_aided'' 0, quick_record ''dead_reckoning'' one_hz], w)"
proof -
  have "landmark_faults \<noteq> dead_faults" by (simp add: dead_faults_def)
  then show ?thesis
    using two_variants quick_records by (simp add: run_job_def Let_def bindM_def liftM_def quick_env_def)
qed

section \<open>The verdict\<close>

lemma sequenceR_good: "\<forall>x\<in>set xs. \<exists>y. f x = Inr y \<and> P y \<Longrightarrow> \<exists>ys. sequenceR (map f xs) = Inr ys \<and> list_all P ys"
  by (induction xs) auto

abbreviation entries_ok :: "pydict \<Rightarrow> bool" where
  "entries_ok \<equiv> list_all (\<lambda>p. json_ok (snd p))"

lemma one_units: "f64_units one_hz = 2 ^ 1074" "normal_positive one_hz"
  by (simp_all add: f64_units_def one_facts normal_positive_def)

lemma one_alone: "py_fsum [one_hz] = Inr one_hz" "fdiv_nat one_hz 1 = one_hz" "py_fsum [0] = Inr 0"
proof -
  have "f64_round False (f64_units_mag (f64_mag one_hz) * 2 ^ 0) 0 = one_hz" by (rule normal_exact [OF one_units(2)])
  then have "f64_round False (2 ^ 1074) 0 = one_hz" by (simp only: one_facts power_0 mult_1_right)
  then show "py_fsum [one_hz] = Inr one_hz"
    using one_facts(1) one_units(1) by (simp add: py_fsum_def fsum_def Let_def nat_power_eq)
  have "f64_round False (f64_units_mag (f64_mag one_hz) * 2 ^ 129) 129 = one_hz" by (rule normal_exact [OF one_units(2)])
  then show "fdiv_nat one_hz 1 = one_hz"
    using isfinite_not_nan [OF one_facts(1)] by (simp add: fdiv_nat_def one_facts Let_def)
  show "py_fsum [0] = Inr 0" by (rule fsum_zeros) simp
qed

lemma single_mean: "x \<in> {0, one_hz} \<Longrightarrow> mean_value [x] = Inr (V_Float x) \<and> max_value [x] = V_Float x"
  using one_alone zero_arith(4) [of 1] by (auto simp: mean_value_def max_value_def)

lemma quick_gets:
  assumes "metric \<in> set metric_names"
  shows "dict_get metric (quick_record mode error) \<in> {Some (V_Float error), Some (V_Float 0), Some V_None}"
  using assms by (auto simp: metric_names_def quick_record_def)

lemma metric_entries_ok:
  assumes "metric \<in> set metric_names" "error \<in> {0, one_hz}"
  shows "\<exists>es. metric_entries [quick_record mode error] metric = Inr es \<and> entries_ok es"
proof -
  from quick_gets [OF assms(1)] assms(2) consider
    "dict_get metric (quick_record mode error) = Some V_None" | x where "x \<in> {0, one_hz}" "dict_get metric (quick_record mode error) = Some (V_Float x)"
    by blast
  then show ?thesis
  proof cases
    case 1
    then show ?thesis by (simp add: metric_entries_def metric_values_def mean_value_def max_value_def)
  next
    case 2
    have "isfinite x" using 2(1) one_facts zero_facts by auto
    then show ?thesis using 2 single_mean [OF 2(1)] by (simp add: metric_entries_def metric_values_def float_value_def)
  qed
qed

lemma no_numbers: "dict_get key r \<in> {None, Some V_None} \<Longrightarrow> numbers_of [r] key = Inr []"
  by (auto simp: numbers_of_def number_or_none_def)

lemma counter_absent: "key \<in> set counter_fields \<Longrightarrow> dict_get key (quick_record mode error) = None"
proof -
  let ?keys = "[''run_name'', ''mode'', ''seed'', ''status'', ''run_path'', ''sample_count'', ''position_rmse_m'', ''heading_rmse_rad'',
    ''cross_track_rmse_m'', ''cross_track_max_m'', ''final_stop_error_m'', ''final_speed_mps'', ''nis_mean'', ''nis_max'', ''success'',
    ''native_process_round_trip_ms_p99'']"
  have "list_all (\<lambda>k. k \<notin> set ?keys) counter_fields" by code_simp
  then have "key \<in> set counter_fields \<Longrightarrow> key \<notin> set ?keys" unfolding list_all_iff by (rule bspec)
  moreover have "map fst (quick_record mode error) = ?keys" by (simp add: quick_record_def)
  ultimately show "key \<in> set counter_fields \<Longrightarrow> dict_get key (quick_record mode error) = None"
    by (simp only: dict_get_def map_of_eq_None_iff set_map [symmetric] not_False_eq_True)
qed

lemma quick_row:
  assumes "error \<in> {0, one_hz}"
  shows "\<exists>row. mode_row [quick_record mode error] = Inr row \<and> json_ok (V_Dict row)"
proof -
  obtain metrics where metrics: "sequenceR (map (metric_entries [quick_record mode error]) metric_names) = Inr metrics"
    "list_all entries_ok metrics"
    using sequenceR_good [of metric_names "metric_entries [quick_record mode error]" entries_ok, OF ballI, OF metric_entries_ok [OF _ assms]]
    by blast
  have none: "numbers_of [quick_record mode error] key = Inr []"
    if "key \<in> {''native_process_round_trip_ms_p99'', ''nis_evaluated_count'', ''nis_gate_rejected_count'', ''nis_sum'', ''nis_max''}" for key
    by (rule no_numbers, use that in \<open>elim insertE emptyE\<close>) (simp_all add: quick_record_def)
  have "\<exists>es. counter_entries [quick_record mode error] key = Inr es \<and> entries_ok es" if "key \<in> set counter_fields" for key
    using no_numbers [of key] counter_absent [OF that] by (simp add: counter_entries_def max_value_def)
  then obtain counters where counters: "sequenceR (map (counter_entries [quick_record mode error]) counter_fields) = Inr counters"
    "list_all entries_ok counters"
    using sequenceR_good [of counter_fields "counter_entries [quick_record mode error]" entries_ok, OF ballI] by blast
  have flat: "entries_ok (concat xs)" if "list_all entries_ok xs" for xs
    using that by (induction xs) auto
  have rest: "latency_entries [quick_record mode error] = Inr [(''native_process_round_trip_ms_p99_mean'', V_None),
      (''native_process_round_trip_ms_p99_max'', V_None)]"
    "sequenceR (map (nis_entries [quick_record mode error]) [''nis_evaluated_count'', ''nis_gate_rejected_count'', ''nis_sum'']) =
      Inr [[(''nis_evaluated_count_total'', V_None)], [(''nis_gate_rejected_count_total'', V_None)], [(''nis_sum_total'', V_None)]]"
    by (simp_all add: latency_entries_def nis_entries_def none mean_value_def max_value_def)
  obtain row where row: "mode_row [quick_record mode error] = Inr row"
    "row = dict_update [(''runs'', V_Int 1), (''successes'', V_Int (int (length (filter record_success [quick_record mode error]))))]
       (concat metrics @ [(''native_process_round_trip_ms_p99_mean'', V_None), (''native_process_round_trip_ms_p99_max'', V_None)]
        @ concat counters @ [(''nis_evaluated_count_total'', V_None), (''nis_gate_rejected_count_total'', V_None), (''nis_sum_total'', V_None)]
        @ [(''nis_max_max'', V_None)])"
    using metrics(1) counters(1) rest none by (simp add: mode_row_def max_value_def)
  have "json_ok (V_Dict row)"
    unfolding row(2) by (rule json_ok_update) (use flat [OF metrics(2)] flat [OF counters(2)] in simp_all)
  with row(1) show ?thesis by blast
qed

abbreviation quick_raw :: "pydict list" where
  "quick_raw \<equiv> [quick_record ''landmark_aided'' 0, quick_record ''dead_reckoning'' one_hz]"

abbreviation quick_modes :: "string list" where
  "quick_modes \<equiv> [''landmark_aided'', ''dead_reckoning'']"

lemma quick_aggregate: "\<exists>aggregate. aggregate_records quick_raw quick_modes = Inr aggregate \<and> json_ok (V_Dict aggregate)"
proof -
  obtain a b where "mode_row [quick_record ''landmark_aided'' 0] = Inr a" "json_ok (V_Dict a)"
    "mode_row [quick_record ''dead_reckoning'' one_hz] = Inr b" "json_ok (V_Dict b)"
    using quick_row [of 0] quick_row [of one_hz] by blast
  moreover have "record_text ''mode'' (quick_record mode error) = mode" for mode error
    by (simp add: record_text_def quick_record_def)
  ultimately show ?thesis by (simp add: aggregate_records_def)
qed

lemma one_less_nothing: "fsub one_hz 0 = one_hz" "flt 0 one_hz"
proof -
  have "f64_round False (f64_units_mag (f64_mag one_hz) * 2 ^ 0) 0 = one_hz" by (rule normal_exact [OF one_units(2)])
  then have round: "f64_round False (2 ^ 1074) 0 = one_hz" by (simp only: one_facts power_0 mult_1_right)
  have "f64_units (fneg 0) = 0" "\<not> isnan (fneg 0 :: f64)" "isfinite (fneg 0 :: f64)"
    using zero_facts by (simp_all add: f64_units_parts)
  then show "fsub one_hz 0 = one_hz"
    using round one_units(1) one_facts(1) isfinite_not_nan [OF one_facts(1)]
    by (simp add: fsub_def fadd_def Let_def nat_power_eq)
  show "flt 0 one_hz" by (rule one_comparisons(4))
qed

lemma quick_texts [simp]: "record_text ''mode'' (quick_record mode error) = mode"
  "record_name (quick_record mode error) = campaign_run_name ''rest'' mode 0" "record_status (quick_record mode error) = ''complete''"
  "record_success (quick_record mode error)" "dict_get ''seed'' (quick_record mode error) = Some (V_Int 0)"
  "dict_get ''position_rmse_m'' (quick_record mode error) = Some (V_Float error)"
  by (simp_all add: record_text_def record_success_def quick_record_def)

lemma quick_comparison: "\<exists>comparison. landmark_comparison quick_raw [0] = Inr comparison
    \<and> dict_get ''landmark_lower_mean_position_rmse'' comparison = Some (V_Bool True) \<and> json_ok (V_Dict comparison)"
proof -
  have "paired_differences quick_raw [0] = Inr [one_hz]"
    by (simp add: position_error_of_def float_value_def one_less_nothing)
  then show ?thesis
    using one_alone single_mean [of one_hz] one_less_nothing(2) one_facts(1)
    by (simp add: landmark_comparison_def)
qed

abbreviation quick_names :: "string list" where
  "quick_names \<equiv> [campaign_run_name ''rest'' ''landmark_aided'' 0, campaign_run_name ''rest'' ''dead_reckoning'' 0]"

lemma quick_judged: "\<exists>result summary. judge_campaign quick_names quick_modes [0] quick_raw (map (\<lambda>n. (n, ''complete'')) quick_names)
    = Inr (result, summary, quick_raw) \<and> cr_acceptance_passed result \<and> json_ok (V_Dict summary)"
proof -
  obtain aggregate where aggregate: "aggregate_records quick_raw quick_modes = Inr aggregate" "json_ok (V_Dict aggregate)"
    using quick_aggregate by blast
  obtain comparison where comparison: "landmark_comparison quick_raw [0] = Inr comparison"
    "dict_get ''landmark_lower_mean_position_rmse'' comparison = Some (V_Bool True)" "json_ok (V_Dict comparison)"
    using quick_comparison by blast
  have names: "campaign_run_name ''rest'' ''landmark_aided'' 0 \<noteq> campaign_run_name ''rest'' ''dead_reckoning'' 0"
    by (simp add: campaign_run_name_def)
  have keep: "demote_record (map (\<lambda>n. (n, ''complete'')) quick_names) (quick_record mode error) = quick_record mode error"
    if "mode \<in> set quick_modes" for mode error
    using that by (auto simp: demote_record_def)
  have none: "names_with ''missing'' (map (\<lambda>n. (n, ''complete'')) quick_names) = []"
    "names_with ''incomplete'' (map (\<lambda>n. (n, ''complete'')) quick_names) = []"
    "names_with ''invalid'' (map (\<lambda>n. (n, ''complete'')) quick_names) = []"
    by (simp_all add: names_with_def)
  have "acceptance_failures_of quick_names quick_raw [] [] [] [] comparison = []"
    using comparison(2) names
    by (simp add: acceptance_failures_of_def with_prefix_def artifact_failures_def record_by_name_def)
  moreover have "json_ok (V_Dict (quick_record ''landmark_aided'' 0))" "json_ok (V_Dict (quick_record ''dead_reckoning'' one_hz))"
    using one_facts(1) zero_facts(1) by (simp_all add: quick_record_def)
  moreover have "filter (\<lambda>n. n \<notin> set (map record_name quick_raw)) quick_names = []" by simp
  moreover have "map (demote_record (map (\<lambda>n. (n, ''complete'')) quick_names)) quick_raw = quick_raw" using keep by simp
  moreover have "filter (\<lambda>r. record_status r = ''complete'') quick_raw = quick_raw" by simp
  ultimately show ?thesis
    using aggregate comparison none one_facts(1) zero_facts(1)
    by (simp add: judge_campaign_def Let_def del: list.map filter.simps)
qed

lemma quick_campaign:
  assumes "RunReplay plain_log False d = Inr r"
  shows "\<exists>result c. run_campaign quick_env two_scenario ''demo'' [0] quick_modes True False 5 d = (Inr result, Some c)
    \<and> cr_acceptance_passed result"
proof -
  have check: "check_campaign two_scenario ''demo'' [0] quick_modes True = Inr ()"
    using two_variants by (simp add: check_campaign_def guardR_def)
  have jobs: "campaign_jobs quick_modes [0] = [(''landmark_aided'', 0), (''dead_reckoning'', 0)]" by (simp add: campaign_jobs_def)
  have "rd_manifest d \<noteq> None" using assms by (cases "rd_manifest d") (simp_all add: RunReplay_def read_json_def)
  then have "run_artifact_status plain_log (Some d) = Inr ''complete''" using assms by (simp add: run_artifact_status_def)
  then have statuses: "artifact_statuses plain_log (\<lambda>_. Some d) quick_names = Inr (map (\<lambda>n. (n, ''complete'')) quick_names)"
    by (simp add: artifact_statuses_def)
  obtain result summary where judged: "judge_campaign quick_names quick_modes [0] quick_raw (map (\<lambda>n. (n, ''complete'')) quick_names)
    = Inr (result, summary, quick_raw)" "cr_acceptance_passed result" "json_ok (V_Dict summary)"
    using quick_judged by blast
  have config: "json_ok (V_Dict (campaign_config two_scenario quick_modes [0] quick_names))"
    by (simp add: campaign_config_def)
  have names: "map (\<lambda>(mode, seed). campaign_run_name ''rest'' mode seed) [(''landmark_aided'', 0), (''dead_reckoning'', 0)] = quick_names"
    by simp
  have env: "ca_log quick_env = plain_log" "ca_artifacts quick_env = (\<lambda>w name. Some w)" by (simp_all add: quick_env_def)
  have "\<exists>c. campaign_body quick_env two_scenario [0] quick_modes \<lparr>cs_dir = new_campaign, cs_budget = 5, cs_world = d\<rparr> = (Inr result, c)"
    using statuses judged config
    by (simp add: campaign_body_def Let_def jobs names quick_runs env bindM_def campaign_op_def atomic_json_def liftM_def on_runs_def
        numeral_eq_Suc guardR_def del: list.map json_ok.simps run_jobs.simps)
  then show ?thesis using check judged(2) by (auto simp: run_campaign_def guardR_def)
qed

section \<open>Instances\<close>

text \<open>A directory that the reader accepts.\<close>

lemma replayed_dir: "\<exists>d r. RunReplay plain_log False d = Inr r"
proof -
  obtain l l' where "logging_run plain_log one_scenario l (add_entry (LE_Measurement rest_measurement) no_contents)"
    "finalize plain_log [] l = (Inr (), l')"
    using short_log_finalized by blast
  from finalized_reader [OF this] show ?thesis by simp blast
qed

theorem accepted_campaign_sound_witness:
  "\<exists>d result c outcome. run_campaign quick_env two_scenario ''demo'' [0] quick_modes True False 5 d = (Inr result, Some c)
     \<and> good_run quick_env two_scenario (cs_world c) (''landmark_aided'', 0) outcome"
proof -
  obtain d r where "RunReplay plain_log False d = Inr r" using replayed_dir by blast
  then obtain result c where c: "run_campaign quick_env two_scenario ''demo'' [0] quick_modes True False 5 d = (Inr result, Some c)"
    "cr_acceptance_passed result"
    using quick_campaign by blast
  from accepted_campaign_sound [OF quick_keeps c] c(1) show ?thesis by auto
qed

theorem inspection_agrees_witness:
  "\<exists>d result c report. run_campaign quick_env two_scenario ''demo'' [0] quick_modes True False 5 d = (Inr result, Some c)
     \<and> inspect_campaign plain_log (cs_dir c) (\<lambda>_. Some (cs_world c)) = Inr report
     \<and> dict_get ''acceptance_passed'' report = Some (V_Bool True)"
proof -
  obtain d r where "RunReplay plain_log False d = Inr r" using replayed_dir by blast
  then obtain result c where c: "run_campaign quick_env two_scenario ''demo'' [0] quick_modes True False 5 d = (Inr result, Some c)"
    "cr_acceptance_passed result"
    using quick_campaign by blast
  have env: "ca_log quick_env = plain_log" "ca_artifacts quick_env w = (\<lambda>_. Some w)" for w by (simp_all add: quick_env_def)
  from inspection_agrees [OF c(1)] c show ?thesis unfolding env by auto
qed

text \<open>With two file operations the campaign ends before its summary.\<close>

lemma cut_campaign:
  "\<exists>e c report. run_campaign quick_env two_scenario ''demo'' [0] quick_modes True False 2 d = (Inl e, Some c)
     \<and> inspect_campaign plain_log (cs_dir c) (\<lambda>_. None) = Inr report \<and> cd_summary (cs_dir c) = None"
proof -
  have check: "check_campaign two_scenario ''demo'' [0] quick_modes True = Inr ()"
    using two_variants by (simp add: check_campaign_def guardR_def)
  have jobs: "campaign_jobs quick_modes [0] = [(''landmark_aided'', 0), (''dead_reckoning'', 0)]" by (simp add: campaign_jobs_def)
  have names: "map (\<lambda>(mode, seed). campaign_run_name ''rest'' mode seed) [(''landmark_aided'', 0), (''dead_reckoning'', 0)] = quick_names"
    by simp
  have config: "json_ok (V_Dict (campaign_config two_scenario quick_modes [0] quick_names))"
    by (simp add: campaign_config_def)
  define s where "s = \<lparr>cd_marker = True, cd_config = Some (V_Dict (json_dict (campaign_config two_scenario quick_modes [0] quick_names))),
      cd_summary = None, cd_metrics = None\<rparr>"
  have "\<exists>e c. campaign_body quick_env two_scenario [0] quick_modes \<lparr>cs_dir = new_campaign, cs_budget = 2, cs_world = d\<rparr> = (Inl e, c)
      \<and> cs_dir c = s"
    using config
    by (simp add: campaign_body_def Let_def jobs names quick_runs bindM_def campaign_op_def atomic_json_def liftM_def on_runs_def
        numeral_eq_Suc guardR_def new_campaign_def s_def split: sum.split prod.split del: list.map json_ok.simps run_jobs.simps)
  then obtain e c where c: "run_campaign quick_env two_scenario ''demo'' [0] quick_modes True False 2 d = (Inl e, Some c)" "cs_dir c = s"
    using check by (auto simp: run_campaign_def guardR_def)
  have "expected_names (json_dict (campaign_config two_scenario quick_modes [0] quick_names)) = Inr quick_names"
    using stored_names [OF check] by (simp only: jobs two_fields names)
  then have "\<exists>report. inspect_campaign plain_log s (\<lambda>_. None) = Inr report"
    by (simp add: inspect_campaign_def s_def read_campaign_json_def inspected_summary_def run_artifact_status_def recorded_failures_def
        get_or_def py_list_def Let_def)
  then show ?thesis using c by (auto simp: s_def)
qed

theorem unfinished_campaign_marked_witness:
  "\<exists>e c report. run_campaign quick_env two_scenario ''demo'' [0] quick_modes True False 2 empty_dir = (Inl e, Some c)
     \<and> inspect_campaign plain_log (cs_dir c) (\<lambda>_. None) = Inr report
     \<and> dict_get ''campaign_incomplete'' report = Some (V_Bool True) \<and> dict_get ''acceptance_passed'' report = Some (V_Bool False)"
proof -
  obtain e c report where c: "run_campaign quick_env two_scenario ''demo'' [0] quick_modes True False 2 empty_dir = (Inl e, Some c)"
    "inspect_campaign plain_log (cs_dir c) (\<lambda>_. None) = Inr report" "cd_summary (cs_dir c) = None"
    using cut_campaign by blast
  from unfinished_campaign_marked [OF c(1) _ c(2)] c show ?thesis by auto
qed

end
