(* ===== verification/Spec2Isabelle.thy ===== *)
theory Spec2Isabelle
  imports Session_Runs Fault_Transport Hardware_Waiting Scenario_Example Metrics Native Cil_Replay_Laws Recorded_Run Run_Log_Laws Closed_Loop_Example Campaign_Example
begin

text \<open>
  A model of the host side of navbench.
\<close>

end
